(* ===== verification/Prelude.thy ===== *)
theory Prelude
  imports Complex_Main
begin

text \<open>
  Shared vocabulary of the development.

  JavaScript strings are lists of characters; a character stands for one UTF-16 code unit
  below 256 (Latin-1), which holds every literal of the modelled code. White space and lower
  case are JavaScript's on that range. Values that come out of \<open>JSON.parse\<close> are of type
  \<open>json\<close>; reading a property of an object gives an option, where \<open>None\<close> is \<open>undefined\<close>.
  A function that throws returns a \<open>result\<close>, whose \<open>Inl (Error m)\<close> is \<open>throw new Error(m)\<close>.
  Property names that live on \<open>Object.prototype\<close> are not used as keys in the model.
\<close>

named_theorems js_defs \<open>definitions of the small string and value helpers\<close>
named_theorems ledger_defs \<open>definitions unfolded by the ledger proofs\<close>
named_theorems transition_defs \<open>transition tables\<close>

section \<open>Results\<close>

datatype js_error = Error string

type_synonym 'a result = "js_error + 'a"

definition bind_r :: "'a result \<Rightarrow> ('a \<Rightarrow> 'b result) \<Rightarrow> 'b result" where
  "bind_r m f = (case m of Inl e \<Rightarrow> Inl e | Inr x \<Rightarrow> f x)"

definition is_ok :: "'a result \<Rightarrow> bool" where
  "is_ok r = (case r of Inl _ \<Rightarrow> False | Inr _ \<Rightarrow> True)"

text \<open>\<open>array.map(f)\<close> where \<open>f\<close> may throw: the first throw ends the map.\<close>

fun map_r :: "('a \<Rightarrow> 'b result) \<Rightarrow> 'a list \<Rightarrow> 'b list result" where
  "map_r f [] = Inr []"
| "map_r f (x # xs) =
     (case f x of Inl e \<Rightarrow> Inl e
      | Inr y \<Rightarrow> (case map_r f xs of Inl e \<Rightarrow> Inl e | Inr ys \<Rightarrow> Inr (y # ys)))"

lemma bind_r_simps [simp]: "bind_r (Inl e) f = Inl e" "bind_r (Inr x) f = f x"
  by (simp_all add: bind_r_def)

lemma bind_r_eq_Inr: "bind_r m f = Inr y \<longleftrightarrow> (\<exists>x. m = Inr x \<and> f x = Inr y)"
  by (cases m) auto

lemma is_ok_simps [simp]: "is_ok (Inl e) = False" "is_ok (Inr x) = True"
  by (simp_all add: is_ok_def)

lemma map_r_all_ok: "(\<And>x. x \<in> set xs \<Longrightarrow> f (g x) = Inr x) \<Longrightarrow> map_r f (map g xs) = Inr xs"
  by (induction xs) auto

lemma map_r_InrD: "map_r f xs = Inr ys \<Longrightarrow> list_all2 (\<lambda>x y. f x = Inr y) xs ys"
  by (induction xs arbitrary: ys) (auto split: sum.splits)

lemma map_r_Inr_elem: "map_r f xs = Inr ys \<Longrightarrow> x \<in> set xs \<Longrightarrow> \<exists>y \<in> set ys. f x = Inr y"
  by (induction xs arbitrary: ys) (auto split: sum.splits)

lemma map_r_Inl: "x \<in> set xs \<Longrightarrow> (\<And>y. f x \<noteq> Inr y) \<Longrightarrow> \<exists>e. map_r f xs = Inl e"
  by (cases "map_r f xs") (auto dest: map_r_Inr_elem)

section \<open>Strings\<close>

definition js_space :: "char \<Rightarrow> bool" where
  "js_space c = (let n = of_char c :: nat in (9 \<le> n \<and> n \<le> 13) \<or> n = 32 \<or> n = 160)"

definition js_trim :: "string \<Rightarrow> string" where
  "js_trim s = rev (dropWhile js_space (rev (dropWhile js_space s)))"

definition js_lower_char :: "char \<Rightarrow> char" where
  "js_lower_char c =
     (let n = of_char c :: nat
      in if (65 \<le> n \<and> n \<le> 90) \<or> (192 \<le> n \<and> n \<le> 222 \<and> n \<noteq> 215)
         then char_of (n + 32) else c)"

text \<open>The same function on the bits of the character, for evaluation.\<close>

lemma js_lower_char_code [code]:
  "js_lower_char (Char b0 b1 b2 b3 b4 b5 b6 b7) =
     (if b6 \<and> \<not> b5 \<and>
         (if b7 then \<not> (b0 \<and> b1 \<and> b2 \<and> b3 \<and> b4) \<and> \<not> (b0 \<and> b1 \<and> b2 \<and> \<not> b3 \<and> b4)
          else (b0 \<or> b1 \<or> b2 \<or> b3 \<or> b4) \<and> \<not> (b3 \<and> b4 \<and> (b2 \<or> (b0 \<and> b1))))
      then Char b0 b1 b2 b3 b4 True b6 b7 else Char b0 b1 b2 b3 b4 b5 b6 b7)"
  by (cases b0; cases b1; cases b2; cases b3; cases b4; cases b5; cases b6; cases b7; simp add: js_lower_char_def char_of_def bit_Suc_0_iff)
definition js_lower :: "string \<Rightarrow> string" where
  "js_lower s = map js_lower_char s"

definition js_starts_with :: "string \<Rightarrow> string \<Rightarrow> bool" where
  "js_starts_with s p = (take (length p) s = p)"

text \<open>\<open>a || b\<close> on strings, and a string that may be absent read as \<open>(x ?? "")\<close>.\<close>

definition str_or :: "string \<Rightarrow> string \<Rightarrow> string" where
  "str_or a b = (if a = [] then b else a)"

definition opt_str :: "string option \<Rightarrow> string" where
  "opt_str x = (case x of None \<Rightarrow> [] | Some s \<Rightarrow> s)"

text \<open>\<open>x?.trim() || undefined\<close>\<close>

definition trim_or_undef :: "string option \<Rightarrow> string option" where
  "trim_or_undef x =
     (case x of None \<Rightarrow> None | Some s \<Rightarrow> (let t = js_trim s in if t = [] then None else Some t))"

text \<open>\<open>names.join(" or ")\<close>\<close>

fun join_or :: "string list \<Rightarrow> string" where
  "join_or [] = []"
| "join_or [s] = s"
| "join_or (s # ss) = s @ '' or '' @ join_or ss"

text \<open>\<open>texts.join(sep)\<close>\<close>

fun join_with :: "string \<Rightarrow> string list \<Rightarrow> string" where
  "join_with sep [] = []"
| "join_with sep [s] = s"
| "join_with sep (s # t # ss) = s @ sep @ join_with sep (t # ss)"

text \<open>\<open>Array.from(new Set(xs))\<close>\<close>

definition distinct_texts :: "'a list \<Rightarrow> 'a list" where
  "distinct_texts xs = rev (remdups (rev xs))"

lemma set_distinct_texts [simp]: "set (distinct_texts xs) = set xs"
  by (simp add: distinct_texts_def)

definition is_digit_char :: "char \<Rightarrow> bool" where
  "is_digit_char c = (let n = of_char c :: nat in 48 \<le> n \<and> n \<le> 57)"

definition is_lower_hex :: "char \<Rightarrow> bool" where
  "is_lower_hex c = (let n = of_char c :: nat in (48 \<le> n \<and> n \<le> 57) \<or> (97 \<le> n \<and> n \<le> 102))"

text \<open>The regular expression \<open>/^sha256:[0-9a-f]{64}$/\<close>.\<close>

definition is_sha256_digest :: "string \<Rightarrow> bool" where
  "is_sha256_digest s =
     (take 7 s = ''sha256:'' \<and> length s = 71 \<and> list_all is_lower_hex (drop 7 s))"

text \<open>A digest for concrete instances.\<close>

definition zero_digest :: string where
  "zero_digest = ''sha256:'' @ replicate 64 (CHR ''0'')"

lemma zero_digest_ok [simp]: "is_sha256_digest zero_digest"
  by (simp add: is_sha256_digest_def zero_digest_def is_lower_hex_def list_all_iff)

lemma dropWhile_last: "xs \<noteq> [] \<Longrightarrow> \<not> P (last xs) \<Longrightarrow> dropWhile P xs \<noteq> []"
  by (auto simp: dropWhile_eq_Nil_conv)

lemma dropWhile_dropWhile [simp]: "dropWhile P (dropWhile P xs) = dropWhile P xs"
  by (induction xs) auto

lemma js_trim_Nil [simp]: "js_trim [] = []"
  by (simp add: js_trim_def)

lemma dropWhile_hd: "xs = [] \<or> \<not> P (hd xs) \<Longrightarrow> dropWhile P xs = xs"
  by (cases xs) auto

lemma dropWhile_rev_dropWhile:
  assumes "xs = [] \<or> \<not> P (hd xs)"
  shows "dropWhile P (rev (dropWhile P (rev xs))) = rev (dropWhile P (rev xs))"
proof (cases "dropWhile P (rev xs)")
  case Nil
  with assms have "xs = []" by (cases xs) (auto simp: dropWhile_eq_Nil_conv)
  then show ?thesis by simp
next
  case (Cons z zs)
  from Cons have ne: "xs \<noteq> []" by auto
  have last: "last (dropWhile P (rev xs)) = last (rev xs)"
    using Cons by (metis last_appendR list.distinct(1) takeWhile_dropWhile_id)
  have "hd (rev (dropWhile P (rev xs))) = hd xs"
    using last by (simp only: hd_rev last_rev)
  with assms ne have "\<not> P (hd (rev (dropWhile P (rev xs))))"
    by simp
  then show ?thesis by (simp add: dropWhile_hd)
qed

lemma js_trim_eq_Nil: "js_trim s = [] \<longleftrightarrow> list_all js_space s"
proof -
  have "js_trim s = [] \<longleftrightarrow> (\<forall>c \<in> set (dropWhile js_space s). js_space c)"
    by (simp add: js_trim_def dropWhile_eq_Nil_conv)
  also have "\<dots> \<longleftrightarrow> (\<forall>c \<in> set s. js_space c)"
    by (induction s) auto
  finally show ?thesis by (simp add: list_all_iff)
qed

lemma js_trim_nonempty_Cons: "\<not> js_space c \<Longrightarrow> js_trim (c # s) \<noteq> []"
  by (simp add: js_trim_eq_Nil)

lemma js_trim_trim [simp]: "js_trim (js_trim s) = js_trim s"
proof -
  let ?d = "dropWhile js_space"
  have "?d s = [] \<or> \<not> js_space (hd (?d s))" using hd_dropWhile by blast
  then have "?d (rev (?d (rev (?d s)))) = rev (?d (rev (?d s)))"
    by (rule dropWhile_rev_dropWhile)
  then show ?thesis by (simp add: js_trim_def)
qed

lemma trim_or_undef_Some: "trim_or_undef x = Some t \<Longrightarrow> t \<noteq> [] \<and> js_trim t = t"
  by (auto simp: trim_or_undef_def Let_def split: option.splits if_splits)

section \<open>JSON values\<close>

datatype js_number = JS_NaN | JS_Inf bool | Fin rat

datatype json =
    JNull
  | JBool bool
  | JNum js_number
  | JStr string
  | JArr "json list"
  | JObj "(string \<times> json) list"

type_synonym js_object = "(string \<times> json) list"

definition get_prop :: "js_object \<Rightarrow> string \<Rightarrow> json option" where
  "get_prop ob k = map_of ob k"

definition js_truthy :: "json \<Rightarrow> bool" where
  "js_truthy v = (case v of JNull \<Rightarrow> False | JBool b \<Rightarrow> b
     | JNum n \<Rightarrow> (case n of JS_NaN \<Rightarrow> False | JS_Inf _ \<Rightarrow> True | Fin q \<Rightarrow> q \<noteq> 0)
     | JStr s \<Rightarrow> s \<noteq> [] | JArr _ \<Rightarrow> True | JObj _ \<Rightarrow> True)"

text \<open>\<open>typeof v === "string"\<close> and \<open>v !== undefined && typeof v !== "string"\<close> as tests.\<close>

definition is_string :: "json option \<Rightarrow> bool" where
  "is_string v = (case v of Some (JStr _) \<Rightarrow> True | _ \<Rightarrow> False)"

definition the_string :: "json option \<Rightarrow> string" where
  "the_string v = (case v of Some (JStr s) \<Rightarrow> s | _ \<Rightarrow> [])"

definition opt_string :: "json option \<Rightarrow> string option" where
  "opt_string v = (case v of Some (JStr s) \<Rightarrow> Some s | _ \<Rightarrow> None)"

definition is_bool :: "json option \<Rightarrow> bool" where
  "is_bool v = (case v of Some (JBool _) \<Rightarrow> True | _ \<Rightarrow> False)"

text \<open>\<open>value && typeof value === "object" && !Array.isArray(value)\<close>\<close>

definition is_record :: "json option \<Rightarrow> bool" where
  "is_record v = (case v of Some (JObj _) \<Rightarrow> True | _ \<Rightarrow> False)"

definition as_record :: "json option \<Rightarrow> js_object option" where
  "as_record v = (case v of Some (JObj kvs) \<Rightarrow> Some kvs | _ \<Rightarrow> None)"

definition as_array :: "json option \<Rightarrow> json list option" where
  "as_array v = (case v of Some (JArr xs) \<Rightarrow> Some xs | _ \<Rightarrow> None)"

text \<open>Fields that the code carries along without naming them.\<close>

definition other_fields :: "string list \<Rightarrow> js_object \<Rightarrow> js_object" where
  "other_fields known kvs = filter (\<lambda>(k, _). k \<notin> set known) kvs"

text \<open>\<open>...(v !== undefined ? {k: v} : {})\<close>, which is also how \<open>JSON.stringify\<close> prints a field.\<close>

definition json_field :: "string \<Rightarrow> json option \<Rightarrow> js_object" where
  "json_field k v = (case v of None \<Rightarrow> [] | Some j \<Rightarrow> [(k, j)])"

abbreviation opt_field :: "string \<Rightarrow> string option \<Rightarrow> js_object" where
  "opt_field k v \<equiv> json_field k (map_option JStr v)"

abbreviation obj_field :: "string \<Rightarrow> js_object option \<Rightarrow> js_object" where
  "obj_field k v \<equiv> json_field k (map_option JObj v)"

lemmas json_readers [js_defs] = is_string_def the_string_def opt_string_def is_bool_def
  is_record_def as_record_def as_array_def

text \<open>
  The loop \<open>for (const field of fields) if (v[field] !== undefined && typeof v[field] !== "string")
  throw ...\<close>: the first offending field.
\<close>

definition first_non_string :: "string list \<Rightarrow> js_object \<Rightarrow> string option" where
  "first_non_string fields kvs =
     find (\<lambda>f. get_prop kvs f \<noteq> None \<and> \<not> is_string (get_prop kvs f)) fields"

text \<open>\<open>value.charCodeAt(index) <= 0x1f\<close> for some index.\<close>

fun containsControlCharacter :: "string \<Rightarrow> bool" where
  "containsControlCharacter [] = False"
| "containsControlCharacter (c # cs) = ((of_char c :: nat) \<le> 31 \<or> containsControlCharacter cs)"

text \<open>\<open>Object.assign(target, patch)\<close> on one field: the patch may lack it, or set it (to \<open>undefined\<close> too).\<close>

definition assign_field :: "'a option option \<Rightarrow> 'a option \<Rightarrow> 'a option" where
  "assign_field patch old = (case patch of None \<Rightarrow> old | Some new \<Rightarrow> new)"

lemma other_fields_known:
  "k \<in> set known \<Longrightarrow> map_of (other_fields known kvs) k = None"
  by (induction kvs) (auto simp: other_fields_def)

lemma other_fields_append [simp]:
  "other_fields known (xs @ ys) = other_fields known xs @ other_fields known ys"
  by (simp add: other_fields_def)

lemma other_fields_Cons [simp]:
  "other_fields known ((k, v) # kvs) =
     (if k \<in> set known then other_fields known kvs else (k, v) # other_fields known kvs)"
  by (simp add: other_fields_def)

lemma other_fields_Nil [simp]: "other_fields known [] = []"
  by (simp add: other_fields_def)

lemma other_fields_json_field [simp]:
  "k \<in> set known \<Longrightarrow> other_fields known (json_field k v) = []"
  by (simp add: json_field_def split: option.splits)

lemma map_of_known: "other_fields known kvs = kvs \<Longrightarrow> k \<in> set known \<Longrightarrow> map_of kvs k = None"
  by (metis other_fields_known)

lemma other_fields_idem: "other_fields known (other_fields known kvs) = other_fields known kvs"
  by (simp add: other_fields_def)

text \<open>Reading a printed object, field by field.\<close>

lemma case_option_same [simp]: "(case x of None \<Rightarrow> None | Some v \<Rightarrow> Some v) = x"
  by (cases x) auto

lemma get_prop_simps [simp]:
  "get_prop [] k = None"
  "get_prop ((k', v) # kvs) k = (if k = k' then Some v else get_prop kvs k)"
  "get_prop (json_field k' w) k = (if k = k' then w else None)"
  "get_prop (json_field k' w @ kvs) k =
     (if k = k' then (case w of None \<Rightarrow> get_prop kvs k | Some v \<Rightarrow> Some v) else get_prop kvs k)"
  by (auto simp: get_prop_def map_of_append map_add_def json_field_def split: option.splits)

lemma get_prop_other: "other_fields known kvs = kvs \<Longrightarrow> k \<in> set known \<Longrightarrow> get_prop kvs k = None"
  by (simp add: get_prop_def map_of_known)

lemma reader_simps [simp]:
  "is_string (Some (JStr s)) = True" "is_string None = False"
  "the_string (Some (JStr s)) = s" "opt_string (Some (JStr s)) = Some s" "opt_string None = None"
  "is_string (map_option JStr w) = (w \<noteq> None)" "opt_string (map_option JStr w) = w"
  "as_record (Some (JObj m)) = Some m" "as_record None = None" "as_record (map_option JObj u) = u"
  "is_record (Some (JObj m)) = True" "is_record None = False"
  "is_record (map_option JObj u) = (u \<noteq> None)" "as_array (Some (JArr xs)) = Some xs" "as_array None = None"
  by (auto simp: json_readers split: option.splits)

lemma first_non_string_None:
  assumes "\<And>f. f \<in> set fields \<Longrightarrow> \<exists>w. get_prop kvs f = map_option JStr w"
  shows "first_non_string fields kvs = None"
proof -
  have "\<not> (get_prop kvs f \<noteq> None \<and> \<not> is_string (get_prop kvs f))" if "f \<in> set fields" for f
    using assms [OF that] by auto
  then show ?thesis by (auto simp: first_non_string_def find_None_iff)
qed

lemma pred_option_all: "pred_option P x \<longleftrightarrow> (\<forall>r. x = Some r \<longrightarrow> P r)"
  by (cases x) auto

section \<open>Files\<close>

text \<open>
  A state file holds a JSON document; it may be absent, and its text may not parse. A write
  through \<open>writeWalletStateFileAtomically\<close> replaces the document as a whole. Writing
  \<open>JSON.stringify(v)\<close> and parsing it again gives \<open>v\<close> without its \<open>undefined\<close> fields.
\<close>

datatype state_file = NoFile | Unparsable | Document json

section \<open>Lists updated by key\<close>

text \<open>\<open>const e = xs.find(p); e.field = ...\<close>: the first element that satisfies \<open>p\<close> is updated.\<close>

fun update_first :: "('a \<Rightarrow> bool) \<Rightarrow> ('a \<Rightarrow> 'a) \<Rightarrow> 'a list \<Rightarrow> 'a list" where
  "update_first p f [] = []"
| "update_first p f (x # xs) = (if p x then f x # xs else x # update_first p f xs)"

lemma length_update_first [simp]: "length (update_first p f xs) = length xs"
  by (induction xs) auto

lemma map_update_first:
  "(\<And>x. g (f x) = g x) \<Longrightarrow> map g (update_first p f xs) = map g xs"
  by (induction xs) auto

lemma set_update_first: "set (update_first p f xs) \<subseteq> set xs \<union> f ` {x \<in> set xs. p x}"
  by (induction xs) auto

lemma update_first_mem: "find q xs = Some e \<Longrightarrow> g e \<in> set (update_first q g xs)"
  by (induction xs) (auto split: if_splits)

lemma map_update_first_on:
  "(\<And>x. x \<in> set xs \<Longrightarrow> h (g x) = h x) \<Longrightarrow> map h (update_first q g xs) = map h xs"
  by (induction xs) auto

lemma update_first_ball_on:
  "\<forall>x \<in> set xs. Q x \<Longrightarrow> (\<And>x. x \<in> set xs \<Longrightarrow> Q (g x)) \<Longrightarrow> \<forall>x \<in> set (update_first q g xs). Q x"
  by (induction xs) auto

lemma update_first_ball:
  assumes "\<forall>x \<in> set xs. Q x" and "find p xs = Some e" and "Q (f e)"
  shows "\<forall>x \<in> set (update_first p f xs). Q x"
  using assms by (induction xs) (auto split: if_splits)

lemma find_update_first_same:
  "(\<And>x. p (f x) = p x) \<Longrightarrow> find p (update_first p f xs) = map_option f (find p xs)"
  by (induction xs) auto

lemma find_update_first_other:
  "(\<And>x. p x \<Longrightarrow> \<not> q x) \<Longrightarrow> (\<And>x. q (f x) = q x) \<Longrightarrow> find q (update_first p f xs) = find q xs"
  by (induction xs) auto

lemma find_append: "find p (xs @ ys) = (case find p xs of None \<Rightarrow> find p ys | Some x \<Rightarrow> Some x)"
  by (induction xs) auto

lemma find_SomeD: "find p xs = Some x \<Longrightarrow> x \<in> set xs \<and> p x"
  by (induction xs) (auto split: if_splits)

lemma find_NoneD: "find p xs = None \<Longrightarrow> x \<in> set xs \<Longrightarrow> \<not> p x"
  by (induction xs) (auto split: if_splits)

text \<open>A time field that is set: truthiness of an optional number.\<close>

definition at_ms :: "int option \<Rightarrow> bool" where
  "at_ms t = (case t of Some u \<Rightarrow> u \<noteq> 0 | None \<Rightarrow> False)"

text \<open>\<open>a ?? b\<close> where both may be missing.\<close>

definition or_else :: "'a option \<Rightarrow> 'a option \<Rightarrow> 'a option" where
  "or_else a b = (case a of None \<Rightarrow> b | Some x \<Rightarrow> Some x)"

lemma or_else_simps: "or_else (Some x) y = Some x" "or_else None y = y"
  by (simp_all add: or_else_def)

end
