(* ===== verification/LedgerContract.thy ===== *)
theory LedgerContract
  imports Prelude
begin

text \<open>
  The contract that the durable ledgers share. A ledger is a file in which every key has at
  most one entry, and every entry has a state. The operations of the module are the only
  writers; each is one step on the file (the code runs them under a per-file lock). The
  contract asks of every step that it keeps the file well formed and that it moves the state
  of an entry along the transition table only. Its consequences for whole runs (nothing
  leaves a final state, entries never disappear, every state is reached from the initial
  state through the table) are proved once here and used for each ledger.
\<close>

locale state_ledger =
  fixes state_of :: "'file \<Rightarrow> 'key \<Rightarrow> 'st option"
    and step :: "'op \<Rightarrow> 'file \<Rightarrow> 'file"
    and allowed :: "'st \<Rightarrow> 'st \<Rightarrow> bool"
    and inv :: "'file \<Rightarrow> bool"
    and good :: "'op \<Rightarrow> bool"
    and initial :: "'st \<Rightarrow> bool"
  assumes inv_step: "inv f \<Longrightarrow> good c \<Longrightarrow> inv (step c f)"
    and step_present:
      "inv f \<Longrightarrow> good c \<Longrightarrow> state_of f k = Some s \<Longrightarrow>
       \<exists>t. state_of (step c f) k = Some t \<and> (t = s \<or> allowed s t)"
    and step_fresh:
      "inv f \<Longrightarrow> good c \<Longrightarrow> state_of f k = None \<Longrightarrow> state_of (step c f) k = Some t \<Longrightarrow> initial t"
begin

lemma run_inv: "inv f \<Longrightarrow> list_all good cs \<Longrightarrow> inv (fold step cs f)"
  by (induction cs arbitrary: f) (auto intro: inv_step)

lemma run_present:
  assumes "inv f" and "list_all good cs" and "state_of f k = Some s"
  shows "\<exists>t. state_of (fold step cs f) k = Some t \<and> allowed\<^sup>*\<^sup>* s t"
  using assms
proof (induction cs arbitrary: f s)
  case Nil
  then show ?case by auto
next
  case (Cons c cs)
  obtain u where u: "state_of (step c f) k = Some u" "u = s \<or> allowed s u"
    using Cons.prems step_present by fastforce
  have "inv (step c f)" using Cons.prems by (simp add: inv_step)
  then obtain t where "state_of (fold step cs (step c f)) k = Some t" "allowed\<^sup>*\<^sup>* u t"
    using Cons u by fastforce
  moreover have "allowed\<^sup>*\<^sup>* s u" using u(2) by auto
  ultimately show ?case by (auto intro: rtranclp_trans)
qed

lemma run_final:
  assumes "inv f" and "list_all good cs" and "state_of f k = Some s"
    and final: "\<And>t. allowed s t \<Longrightarrow> t = s"
  shows "state_of (fold step cs f) k = Some s"
proof -
  obtain t where t: "state_of (fold step cs f) k = Some t" "allowed\<^sup>*\<^sup>* s t"
    using run_present [OF assms(1-3)] by blast
  from t(2) have "t = s" by (induction rule: rtranclp_induct) (auto dest: final)
  with t(1) show ?thesis by simp
qed

lemma run_fresh:
  assumes "inv f" and "list_all good cs" and "state_of f k = None"
    and "state_of (fold step cs f) k = Some t"
  shows "\<exists>s. initial s \<and> allowed\<^sup>*\<^sup>* s t"
  using assms
proof (induction cs arbitrary: f)
  case Nil
  then show ?case by simp
next
  case (Cons c cs)
  have inv': "inv (step c f)" and good: "list_all good cs" using Cons.prems by (simp_all add: inv_step)
  show ?case
  proof (cases "state_of (step c f) k")
    case None
    then show ?thesis using Cons.IH [OF inv' good] Cons.prems(4) by simp
  next
    case (Some s)
    then have "initial s" using Cons.prems step_fresh by fastforce
    moreover have "allowed\<^sup>*\<^sup>* s t"
      using run_present [OF inv' good Some] Cons.prems(4) by auto
    ultimately show ?thesis by blast
  qed
qed

end

section \<open>Execution claims\<close>

text \<open>
  The claim on one execution: the map \<open>ACTIVE_EXECUTIONS\<close> of this process and the lock files on
  disk, held by any process. The release function that a claim returns is idempotent, which its
  \<open>released\<close> flag records.
\<close>

record claims =
  active_executions :: "string list"
  lock_files :: "string list"

end
