(* ===== verification/CanonicalJson.thy ===== *)
theory CanonicalJson
  imports Prelude "HOL-Library.Char_ord" "HOL-Library.List_Lexorder" "HOL-Library.Multiset"
begin

text \<open>
  The canonical text of a JSON value that the ledgers hash to bind an action to its intent
  (\<open>canonicalJson\<close> of \<open>src/wallet/wallet-send-execution-ledger.ts\<close>, of
  \<open>src/wallet/external-submission-ledger.ts\<close> and of
  \<open>src/federation/marketplace-settlement-ledger.ts\<close>, three copies that differ in the words of
  the error only). \<open>num\<close> stands for the text that \<open>JSON.stringify\<close> gives a finite number.
  Strings compare by code unit, as \<open>toSorted()\<close> does.
\<close>

definition hex_digit :: "nat \<Rightarrow> char" where
  "hex_digit n = (if n < 10 then char_of (48 + n) else char_of (87 + n))"

text \<open>\<open>JSON.stringify\<close> of one code unit below 256 inside a string.\<close>

definition quote_char :: "char \<Rightarrow> string" where
  "quote_char c =
     (let n = of_char c :: nat; bs = char_of (92::nat) in
      if n = 34 then [bs, c] else if n = 92 then [bs, bs]
      else if n = 8 then [bs, CHR ''b''] else if n = 9 then [bs, CHR ''t'']
      else if n = 10 then [bs, CHR ''n''] else if n = 12 then [bs, CHR ''f'']
      else if n = 13 then [bs, CHR ''r'']
      else if n < 32 then [bs, CHR ''u'', CHR ''0'', CHR ''0'', hex_digit (n div 16), hex_digit (n mod 16)]
      else [c])"

definition quote_string :: "string \<Rightarrow> string" where
  "quote_string s = [char_of (34::nat)] @ concat (map quote_char s) @ [char_of (34::nat)]"

fun join_comma :: "string list \<Rightarrow> string" where
  "join_comma [] = []"
| "join_comma [s] = s"
| "join_comma (s # ss) = s @ '','' @ join_comma ss"

lemma map_r_cong [fundef_cong]:
  assumes "xs = ys" and "\<And>x. x \<in> set ys \<Longrightarrow> f x = g x"
  shows "map_r f xs = map_r g ys"
proof -
  have "map_r f ys = map_r g ys" using assms(2)
  proof (induction ys)
    case (Cons y ys)
    then have "f y = g y" "map_r f ys = map_r g ys" by auto
    then show ?case by (simp split: sum.split)
  qed simp
  with assms(1) show ?thesis by simp
qed

definition finite_number :: "js_number \<Rightarrow> bool" where
  "finite_number n = (case n of Fin _ \<Rightarrow> True | _ \<Rightarrow> False)"

text \<open>The keys are distinct, so sorting the printed pairs by key is sorting the keys first.\<close>

function canonicalJson :: "string \<Rightarrow> (js_number \<Rightarrow> string) \<Rightarrow> json \<Rightarrow> string result" where
  "canonicalJson what num JNull = Inr ''null''"
| "canonicalJson what num (JBool b) = Inr (if b then ''true'' else ''false'')"
| "canonicalJson what num (JStr s) = Inr (quote_string s)"
| "canonicalJson what num (JNum n) =
     (if finite_number n then Inr (num n)
      else Inl (Error (what @ '' intent contains a non-finite number'')))"
| "canonicalJson what num (JArr xs) =
     bind_r (map_r (\<lambda>x. canonicalJson what num x) xs)
       (\<lambda>parts. Inr (''['' @ join_comma parts @ '']''))"
| "canonicalJson what num (JObj kvs) =
     bind_r (map_r (\<lambda>kv. bind_r (canonicalJson what num (snd kv)) (\<lambda>s. Inr (fst kv, s))) kvs)
       (\<lambda>pairs. Inr (''{'' @ join_comma (map (\<lambda>(k, s). quote_string k @ '':'' @ s)
                                   (sort_key fst pairs)) @ ''}''))"
  by pat_completeness auto
termination
proof (relation "measure (\<lambda>(_, _, v). size v)")
  fix what :: string and num :: "js_number \<Rightarrow> string" and xs :: "json list" and x
  assume "x \<in> set xs"
  then show "((what, num, x), what, num, JArr xs) \<in> measure (\<lambda>(_, _, v). size v)"
    by (induction xs) auto
next
  fix what :: string and num :: "js_number \<Rightarrow> string" and kvs :: js_object and kv
  assume "kv \<in> set kvs"
  then show "((what, num, snd kv), what, num, JObj kvs) \<in> measure (\<lambda>(_, _, v). size v)"
    by (induction kvs) auto
qed simp

text \<open>Two documents that differ in the order of object keys only.\<close>

inductive same_document :: "json \<Rightarrow> json \<Rightarrow> bool" where
  refl: "same_document v v"
| arr: "list_all2 same_document xs ys \<Longrightarrow> same_document (JArr xs) (JArr ys)"
| obj: "distinct (map fst kvs) \<Longrightarrow> distinct (map fst kvs') \<Longrightarrow> set kvs = set kvs' \<Longrightarrow>
    same_document (JObj kvs) (JObj kvs')"
| obj_values: "list_all2 (\<lambda>a b. fst a = fst b \<and> same_document (snd a) (snd b)) kvs kvs' \<Longrightarrow>
    same_document (JObj kvs) (JObj kvs')"
| trans: "same_document u v \<Longrightarrow> same_document v w \<Longrightarrow> same_document u w"

lemma map_r_Inl_elem: "map_r f xs = Inl e \<Longrightarrow> \<exists>x \<in> set xs. f x = Inl e"
  by (induction xs) (auto split: sum.splits)

lemma canonicalJson_error:
  "canonicalJson what num v = Inl e \<Longrightarrow> e = Error (what @ '' intent contains a non-finite number'')"
proof (induction what num v rule: canonicalJson.induct)
  case (5 what num xs)
  then obtain x where "x \<in> set xs" "canonicalJson what num x = Inl e"
    by (auto simp: bind_r_def split: sum.splits dest: map_r_Inl_elem)
  then show ?case using 5 by blast
next
  case (6 what num kvs)
  then obtain kv where "kv \<in> set kvs" "canonicalJson what num (snd kv) = Inl e"
    by (auto simp: bind_r_def split: sum.splits dest!: map_r_Inl_elem)
  then show ?case using 6 by blast
qed (auto split: if_splits)

lemma map_r_set_eq:
  assumes "set xs = set ys" and "map_r f xs = Inr us" and "map_r f ys = Inr vs"
  shows "set us = set vs"
proof -
  have "set us \<subseteq> set vs" if "set xs \<subseteq> set ys" "map_r f xs = Inr us" "map_r f ys = Inr vs" for xs ys us vs
  proof
    fix u assume "u \<in> set us"
    with map_r_InrD [OF that(2)] obtain x where "x \<in> set xs" "f x = Inr u"
      by (auto simp: list_all2_conv_all_nth in_set_conv_nth) metis
    with that map_r_Inr_elem [OF that(3)] show "u \<in> set vs" by fastforce
  qed
  with assms show ?thesis by blast
qed

lemma canonical_pairs_keys:
  "map_r (\<lambda>kv. bind_r (c (snd kv)) (\<lambda>s. Inr (fst kv, s))) kvs = Inr ps \<Longrightarrow> map fst ps = map fst kvs"
  by (induction kvs arbitrary: ps) (auto simp: bind_r_eq_Inr split: sum.splits)

lemma sort_key_fst_unique:
  assumes "distinct (map fst ps)" "distinct (map fst qs)" "set ps = set qs"
  shows "sort_key fst ps = sort_key fst qs"
proof (rule sort_key_inj_key_eq)
  have "distinct ps" "distinct qs" using assms by (auto simp: distinct_map)
  then show "mset ps = mset (sort_key fst qs)" using assms(3) by (simp add: set_eq_iff_mset_eq_distinct)
qed (use assms in \<open>auto simp: distinct_map\<close>)

definition pair_text :: "string \<Rightarrow> (js_number \<Rightarrow> string) \<Rightarrow> string \<times> json \<Rightarrow> (string \<times> string) result" where
  "pair_text what num kv = bind_r (canonicalJson what num (snd kv)) (\<lambda>s. Inr (fst kv, s))"

lemma canonicalJson_JObj:
  "canonicalJson what num (JObj kvs) =
     bind_r (map_r (pair_text what num) kvs)
       (\<lambda>pairs. Inr (''{'' @ join_comma (map (\<lambda>(k, s). quote_string k @ '':'' @ s) (sort_key fst pairs)) @ ''}''))"
  by (simp add: pair_text_def [abs_def])

lemma pair_text_error:
  "map_r (pair_text what num) kvs = Inl e \<Longrightarrow> e = Error (what @ '' intent contains a non-finite number'')"
  by (auto dest!: map_r_Inl_elem simp: pair_text_def bind_r_def dest: canonicalJson_error split: sum.splits)

lemma canonicalJson_reorder:
  assumes "distinct (map fst kvs)" "distinct (map fst kvs')" "set kvs = set kvs'"
  shows "canonicalJson what num (JObj kvs) = canonicalJson what num (JObj kvs')"
proof (cases "map_r (pair_text what num) kvs")
  case (Inl e)
  then obtain kv where "kv \<in> set kvs'" "pair_text what num kv = Inl e"
    using assms(3) map_r_Inl_elem by metis
  then obtain e' where e': "map_r (pair_text what num) kvs' = Inl e'"
    using map_r_Inl [of kv kvs' "pair_text what num"] by auto
  have "e = e'" using pair_text_error [OF Inl] pair_text_error [OF e'] by simp
  with Inl e' show ?thesis unfolding canonicalJson_JObj by simp
next
  case (Inr ps)
  then have "\<nexists>kv e. kv \<in> set kvs' \<and> pair_text what num kv = Inl e"
    using assms(3) map_r_Inr_elem by fastforce
  then obtain qs where qs: "map_r (pair_text what num) kvs' = Inr qs"
    by (cases "map_r (pair_text what num) kvs'") (auto dest: map_r_Inl_elem)
  have "sort_key fst ps = sort_key fst qs"
  proof (rule sort_key_fst_unique)
    have "map fst ps = map fst kvs" "map fst qs = map fst kvs'"
      using canonical_pairs_keys [of "canonicalJson what num"] Inr qs by (simp_all add: pair_text_def [abs_def])
    then show "distinct (map fst ps)" "distinct (map fst qs)" using assms by simp_all
    show "set ps = set qs" by (rule map_r_set_eq [OF assms(3) Inr qs])
  qed
  then show ?thesis unfolding canonicalJson_JObj by (simp add: Inr qs)
qed

lemma map_r_list_all2: "list_all2 (\<lambda>x y. f x = f y) xs ys \<Longrightarrow> map_r f xs = map_r f ys"
proof (induction rule: list_all2_induct)
  case (Cons x xs y ys)
  then show ?case by (simp split: sum.split)
qed simp

text \<open>
  The canonical text, and so the digest that binds an action to its intent, depends on the
  document only: two intents that differ in the order of object keys, at any depth, have the same text.
\<close>

theorem canonicalJson_key_order:
  assumes "same_document v w"
  shows "canonicalJson what num v = canonicalJson what num w"
  using assms
proof (induction rule: same_document.induct)
  case (arr xs ys)
  then have "list_all2 (\<lambda>x y. canonicalJson what num x = canonicalJson what num y) xs ys"
    by (auto elim: list_all2_mono)
  then show ?case by (simp add: map_r_list_all2)
next
  case (obj_values kvs kvs')
  then have "list_all2 (\<lambda>x y. pair_text what num x = pair_text what num y) kvs kvs'"
    by (auto elim!: list_all2_mono simp: pair_text_def)
  then show ?case unfolding canonicalJson_JObj by (simp add: map_r_list_all2)
next
  case (obj kvs kvs')
  then show ?case by (rule canonicalJson_reorder)
next
  case (trans u v w)
  from trans.IH show ?case by (rule HOL.trans)
qed (rule HOL.refl)

definition sample_intent :: "bool \<Rightarrow> json" where
  "sample_intent flip =
     JArr [JObj (if flip then [(''to'', JStr ''x''), (''amount'', JStr ''1'')]
                 else [(''amount'', JStr ''1''), (''to'', JStr ''x'')])]"

theorem canonicalJson_key_order_witness:
  "canonicalJson ''wallet send'' (\<lambda>_. []) (sample_intent True) =
   canonicalJson ''wallet send'' (\<lambda>_. []) (sample_intent False)"
  by (rule canonicalJson_key_order)
     (auto simp: sample_intent_def intro!: same_document.arr same_document.obj)

end
