(* ===== verification/SendLedger.thy ===== *)
theory SendLedger
  imports LedgerContract CanonicalJson
begin

text \<open>
  \<open>src/wallet/wallet-send-execution-ledger.ts\<close>: the durable record of autonomous wallet
  sends. One entry per execution intent id, bound to the digest of its intent, its wallet and
  its provider; its state moves along a fixed table. \<open>sha\<close> stands for
  \<open>createHash("sha256").update(s).digest("hex")\<close>.
\<close>

section \<open>Data\<close>

datatype send_state = SReserved | SApprovalPending | SExecuting | SUnknown | SExecuted | SFailed

fun send_state_str :: "send_state \<Rightarrow> string" where
  "send_state_str SReserved = ''reserved''"
| "send_state_str SApprovalPending = ''approval_pending''"
| "send_state_str SExecuting = ''executing''"
| "send_state_str SUnknown = ''unknown''"
| "send_state_str SExecuted = ''executed''"
| "send_state_str SFailed = ''failed''"

definition send_STATES :: "send_state list" where
  "send_STATES = [SReserved, SApprovalPending, SExecuting, SUnknown, SExecuted, SFailed]"

definition parse_send_state :: "string \<Rightarrow> send_state option" where
  "parse_send_state s = find (\<lambda>st. send_state_str st = s) send_STATES"

fun send_TRANSITIONS :: "send_state \<Rightarrow> send_state list" where
  "send_TRANSITIONS SReserved = [SReserved, SApprovalPending, SExecuting, SUnknown, SFailed]"
| "send_TRANSITIONS SApprovalPending = [SApprovalPending, SExecuted, SUnknown, SFailed]"
| "send_TRANSITIONS SExecuting = [SExecuting, SUnknown, SExecuted, SFailed]"
| "send_TRANSITIONS SUnknown = [SUnknown, SExecuted, SFailed]"
| "send_TRANSITIONS SExecuted = [SExecuted]"
| "send_TRANSITIONS SFailed = [SFailed]"

record send_result =
  sr_txHash :: string
  sr_signer :: "string option"
  sr_metadata :: "js_object option"
  sr_other :: js_object

record send_entry =
  se_executionIntentId :: string
  se_intentDigest :: string
  se_requestId :: string
  se_walletId :: string
  se_providerId :: string
  se_state :: send_state
  se_approvalRequestId :: "string option"
  se_signature :: "string option"
  se_reason :: "string option"
  se_result :: "send_result option"
  se_createdAt :: string
  se_updatedAt :: string
  se_other :: js_object

record send_patch =
  sp_approvalRequestId :: "string option option"
  sp_signature :: "string option option"
  sp_reason :: "string option option"
  sp_result :: "send_result option option"

definition no_patch :: send_patch where
  "no_patch = \<lparr>sp_approvalRequestId = None, sp_signature = None, sp_reason = None, sp_result = None\<rparr>"

section \<open>Reading and writing the file\<close>

definition walletSendIntentDigest :: "(string \<Rightarrow> string) \<Rightarrow> (js_number \<Rightarrow> string) \<Rightarrow> json \<Rightarrow> string result" where
  "walletSendIntentDigest sha num intent =
     bind_r (canonicalJson ''wallet send'' num intent) (\<lambda>s. Inr (''sha256:'' @ sha s))"

definition walletSendRequestId :: "(string \<Rightarrow> string) \<Rightarrow> string \<Rightarrow> string result" where
  "walletSendRequestId sha executionIntentId =
     (let normalized = js_trim executionIntentId
      in if normalized = [] \<or> length normalized > 240 \<or> containsControlCharacter normalized
         then Inl (Error ''wallet send executionIntentId is invalid'')
         else Inr (''wallet-send-'' @ sha normalized))"

definition result_fields :: "string list" where
  "result_fields = [''chain'', ''txHash'', ''signer'', ''metadata'']"

definition validateResult :: "json option \<Rightarrow> send_result option result" where
  "validateResult v =
     (case v of None \<Rightarrow> Inr None
      | Some j \<Rightarrow>
        (case as_record (Some j) of
           None \<Rightarrow> Inl (Error ''wallet send execution ledger contains an invalid result'')
         | Some kvs \<Rightarrow>
             if get_prop kvs ''chain'' \<noteq> Some (JStr ''solana'')
                \<or> \<not> is_string (get_prop kvs ''txHash'')
                \<or> js_trim (the_string (get_prop kvs ''txHash'')) = []
                \<or> (get_prop kvs ''signer'' \<noteq> None \<and> \<not> is_string (get_prop kvs ''signer''))
                \<or> (get_prop kvs ''metadata'' \<noteq> None \<and> \<not> is_record (get_prop kvs ''metadata''))
             then Inl (Error ''wallet send execution ledger contains an invalid result'')
             else Inr (Some \<lparr>sr_txHash = the_string (get_prop kvs ''txHash''),
                             sr_signer = opt_string (get_prop kvs ''signer''),
                             sr_metadata = as_record (get_prop kvs ''metadata''),
                             sr_other = other_fields result_fields kvs\<rparr>)))"

definition entry_fields :: "string list" where
  "entry_fields = [''executionIntentId'', ''intentDigest'', ''requestId'', ''walletId'', ''providerId'',
     ''state'', ''approvalRequestId'', ''signature'', ''reason'', ''result'', ''createdAt'', ''updatedAt'']"

definition entry_shape_ok :: "js_object \<Rightarrow> bool" where
  "entry_shape_ok kvs =
     (let str = (\<lambda>k. the_string (get_prop kvs k)); has = (\<lambda>k. is_string (get_prop kvs k))
      in has ''executionIntentId'' \<and> js_trim (str ''executionIntentId'') \<noteq> []
         \<and> has ''intentDigest'' \<and> is_sha256_digest (str ''intentDigest'')
         \<and> has ''requestId'' \<and> js_trim (str ''requestId'') \<noteq> []
         \<and> has ''walletId'' \<and> js_trim (str ''walletId'') \<noteq> []
         \<and> has ''providerId'' \<and> js_trim (str ''providerId'') \<noteq> []
         \<and> has ''state'' \<and> parse_send_state (str ''state'') \<noteq> None
         \<and> has ''createdAt'' \<and> has ''updatedAt'')"

definition entry_of :: "js_object \<Rightarrow> send_state \<Rightarrow> send_result option \<Rightarrow> send_entry" where
  "entry_of kvs st res =
     (let str = (\<lambda>k. the_string (get_prop kvs k)); opt = (\<lambda>k. opt_string (get_prop kvs k))
      in \<lparr>se_executionIntentId = str ''executionIntentId'', se_intentDigest = str ''intentDigest'',
          se_requestId = str ''requestId'', se_walletId = str ''walletId'',
          se_providerId = str ''providerId'', se_state = st,
          se_approvalRequestId = opt ''approvalRequestId'', se_signature = opt ''signature'',
          se_reason = opt ''reason'', se_result = res, se_createdAt = str ''createdAt'',
          se_updatedAt = str ''updatedAt'', se_other = other_fields entry_fields kvs\<rparr>)"

definition validateEntry :: "(string \<Rightarrow> string) \<Rightarrow> json \<Rightarrow> send_entry result" where
  "validateEntry sha v =
     (case as_record (Some v) of
        None \<Rightarrow> Inl (Error ''wallet send execution ledger contains an invalid entry'')
      | Some kvs \<Rightarrow>
        if \<not> entry_shape_ok kvs
        then Inl (Error ''wallet send execution ledger contains an invalid entry'')
        else (case first_non_string [''approvalRequestId'', ''signature'', ''reason''] kvs of
          Some field \<Rightarrow> Inl (Error (''wallet send execution ledger contains an invalid '' @ field))
        | None \<Rightarrow>
          bind_r (walletSendRequestId sha (the_string (get_prop kvs ''executionIntentId''))) (\<lambda>expected.
          if the_string (get_prop kvs ''requestId'') \<noteq> expected
          then Inl (Error ''wallet send execution ledger contains a mismatched request ID'')
          else bind_r (validateResult (get_prop kvs ''result'')) (\<lambda>res.
          (case parse_send_state (the_string (get_prop kvs ''state'')) of
             None \<Rightarrow> Inl (Error ''wallet send execution ledger contains an invalid entry'')
           | Some st \<Rightarrow>
             if st = SExecuted \<and> (case res of None \<Rightarrow> True
                 | Some r \<Rightarrow> opt_string (get_prop kvs ''signature'') \<noteq> Some (sr_txHash r))
             then Inl (Error ''wallet send execution ledger contains an incomplete executed result'')
             else Inr (entry_of kvs st res))))))"

definition unreadable :: "'a result" where
  "unreadable = Inl (Error ''wallet send execution ledger is unreadable; refusing to reset it'')"

definition loadLedger :: "(string \<Rightarrow> string) \<Rightarrow> state_file \<Rightarrow> send_entry list result" where
  "loadLedger sha file =
     (case file of NoFile \<Rightarrow> Inr []
      | Unparsable \<Rightarrow> unreadable
      | Document j \<Rightarrow>
        (case as_record (Some j) of None \<Rightarrow> unreadable
         | Some kvs \<Rightarrow>
           if get_prop kvs ''version'' \<noteq> Some (JNum (Fin 1)) then unreadable
           else (case as_array (get_prop kvs ''entries'') of None \<Rightarrow> unreadable
             | Some raw \<Rightarrow>
               (case map_r (validateEntry sha) raw of Inl _ \<Rightarrow> unreadable
                | Inr entries \<Rightarrow>
                  if \<not> distinct (map se_executionIntentId entries)
                     \<or> \<not> distinct (map se_requestId entries)
                  then unreadable else Inr entries))))"

definition result_json :: "send_result \<Rightarrow> json" where
  "result_json r = JObj ([(''chain'', JStr ''solana''), (''txHash'', JStr (sr_txHash r))]
     @ opt_field ''signer'' (sr_signer r)
     @ obj_field ''metadata'' (sr_metadata r)
     @ sr_other r)"

definition entry_object :: "send_entry \<Rightarrow> js_object" where
  "entry_object e = [(''executionIntentId'', JStr (se_executionIntentId e)),
       (''intentDigest'', JStr (se_intentDigest e)), (''requestId'', JStr (se_requestId e)),
       (''walletId'', JStr (se_walletId e)), (''providerId'', JStr (se_providerId e)),
       (''state'', JStr (send_state_str (se_state e)))]
     @ opt_field ''approvalRequestId'' (se_approvalRequestId e)
     @ opt_field ''signature'' (se_signature e) @ opt_field ''reason'' (se_reason e)
     @ json_field ''result'' (map_option result_json (se_result e))
     @ [(''createdAt'', JStr (se_createdAt e)), (''updatedAt'', JStr (se_updatedAt e))]
     @ se_other e"

definition entry_json :: "send_entry \<Rightarrow> json" where
  "entry_json e = JObj (entry_object e)"

definition saveLedger :: "send_entry list \<Rightarrow> state_file" where
  "saveLedger entries =
     Document (JObj [(''version'', JNum (Fin 1)), (''entries'', JArr (map entry_json entries))])"

section \<open>Operations\<close>

definition getWalletSendExecution ::
    "(string \<Rightarrow> string) \<Rightarrow> string \<Rightarrow> state_file \<Rightarrow> send_entry option result" where
  "getWalletSendExecution sha rawId file =
     (let executionIntentId = js_trim rawId
      in if executionIntentId = [] then Inr None
         else bind_r (loadLedger sha file)
           (\<lambda>entries. Inr (find (\<lambda>e. se_executionIntentId e = executionIntentId) entries)))"

definition new_entry :: "string \<Rightarrow> string \<Rightarrow> string \<Rightarrow> string \<Rightarrow> string \<Rightarrow> string \<Rightarrow> send_entry" where
  "new_entry executionIntentId intentDigest requestId walletId providerId now =
     \<lparr>se_executionIntentId = executionIntentId, se_intentDigest = intentDigest,
      se_requestId = requestId, se_walletId = walletId, se_providerId = providerId,
      se_state = SReserved, se_approvalRequestId = None, se_signature = None, se_reason = None,
      se_result = None, se_createdAt = now, se_updatedAt = now, se_other = []\<rparr>"

definition beginWalletSendExecution ::
    "(string \<Rightarrow> string) \<Rightarrow> string \<Rightarrow> string \<Rightarrow> string \<Rightarrow> string \<Rightarrow> string \<Rightarrow> state_file
     \<Rightarrow> (send_entry \<times> bool) result \<times> state_file" where
  "beginWalletSendExecution sha rawId intentDigest rawWallet rawProvider now file =
     (let executionIntentId = js_trim rawId; walletId = js_trim rawWallet;
          providerId = js_trim rawProvider
      in case walletSendRequestId sha executionIntentId of
        Inl e \<Rightarrow> (Inl e, file)
      | Inr requestId \<Rightarrow>
        if walletId = [] \<or> providerId = [] \<or> \<not> is_sha256_digest intentDigest
        then (Inl (Error ''wallet send execution identity is incomplete''), file)
        else (case loadLedger sha file of
          Inl e \<Rightarrow> (Inl e, file)
        | Inr entries \<Rightarrow>
          (case find (\<lambda>e. se_executionIntentId e = executionIntentId) entries of
            Some existing \<Rightarrow>
              if se_intentDigest existing \<noteq> intentDigest \<or> se_walletId existing \<noteq> walletId
                 \<or> se_providerId existing \<noteq> providerId \<or> se_requestId existing \<noteq> requestId
              then (Inl (Error ''wallet send executionIntentId is already bound to a different immutable intent''), file)
              else (Inr (existing, False), file)
          | None \<Rightarrow>
              let entry = new_entry executionIntentId intentDigest requestId walletId providerId now
              in (Inr (entry, True), saveLedger (entries @ [entry])))))"

definition patch_entry :: "send_patch \<Rightarrow> send_state \<Rightarrow> string \<Rightarrow> send_entry \<Rightarrow> send_entry" where
  "patch_entry p st now e =
     e\<lparr>se_approvalRequestId := assign_field (sp_approvalRequestId p) (se_approvalRequestId e),
       se_signature := assign_field (sp_signature p) (se_signature e),
       se_reason := assign_field (sp_reason p) (se_reason e),
       se_result := assign_field (sp_result p) (se_result e),
       se_state := st, se_updatedAt := now\<rparr>"

definition updateWalletSendExecution ::
    "(string \<Rightarrow> string) \<Rightarrow> string \<Rightarrow> send_state list \<Rightarrow> send_state \<Rightarrow> send_patch \<Rightarrow> string \<Rightarrow> state_file
     \<Rightarrow> send_entry result \<times> state_file" where
  "updateWalletSendExecution sha rawId expectedStates st p now file =
     (case loadLedger sha file of
        Inl e \<Rightarrow> (Inl e, file)
      | Inr entries \<Rightarrow>
        (case find (\<lambda>e. se_executionIntentId e = js_trim rawId) entries of
          None \<Rightarrow> (Inl (Error ''wallet send execution entry not found''), file)
        | Some entry \<Rightarrow>
          if se_state entry \<notin> set expectedStates
          then (Inl (Error (''wallet send execution is '' @ send_state_str (se_state entry)
                 @ ''; expected '' @ join_or (map send_state_str expectedStates))), file)
          else if st \<notin> set (send_TRANSITIONS (se_state entry))
          then (Inl (Error (''wallet send execution cannot transition from ''
                 @ send_state_str (se_state entry) @ '' to '' @ send_state_str st)), file)
          else (Inr (patch_entry p st now entry),
                saveLedger (update_first (\<lambda>e. se_executionIntentId e = js_trim rawId)
                              (patch_entry p st now) entries))))"



section \<open>Well-formed ledgers\<close>

definition result_wf :: "send_result \<Rightarrow> bool" where
  "result_wf r \<longleftrightarrow> js_trim (sr_txHash r) \<noteq> [] \<and> other_fields result_fields (sr_other r) = sr_other r"

definition entry_wf :: "(string \<Rightarrow> string) \<Rightarrow> send_entry \<Rightarrow> bool" where
  "entry_wf sha e \<longleftrightarrow>
     js_trim (se_executionIntentId e) = se_executionIntentId e
     \<and> walletSendRequestId sha (se_executionIntentId e) = Inr (se_requestId e)
     \<and> is_sha256_digest (se_intentDigest e)
     \<and> js_trim (se_walletId e) \<noteq> [] \<and> js_trim (se_providerId e) \<noteq> []
     \<and> pred_option result_wf (se_result e)
     \<and> (se_state e = SExecuted \<longrightarrow>
          (\<exists>r. se_result e = Some r \<and> se_signature e = Some (sr_txHash r)))
     \<and> other_fields entry_fields (se_other e) = se_other e"

definition entries_wf :: "(string \<Rightarrow> string) \<Rightarrow> send_entry list \<Rightarrow> bool" where
  "entries_wf sha es \<longleftrightarrow> (\<forall>e \<in> set es. entry_wf sha e) \<and> distinct (map se_executionIntentId es)
     \<and> distinct (map se_requestId es)"

lemma parse_send_state_str [simp]: "parse_send_state (send_state_str st) = Some st"
  by (cases st) (simp_all add: parse_send_state_def send_STATES_def)

lemma validateResult_json:
  assumes "result_wf r"
  shows "validateResult (Some (result_json r)) = Inr (Some r)"
proof -
  have o: "get_prop (sr_other r) ''signer'' = None" "get_prop (sr_other r) ''metadata'' = None"
    using assms by (auto simp: result_wf_def result_fields_def intro: get_prop_other)
  show ?thesis using assms o
    by (cases r) (auto simp: validateResult_def result_json_def result_wf_def result_fields_def
        split: option.splits)
qed

lemma walletSendRequestId_nonblank: "walletSendRequestId sha x = Inr r \<Longrightarrow> js_trim r \<noteq> [] \<and> js_trim x \<noteq> []"
  by (auto simp: walletSendRequestId_def Let_def js_space_def split: if_splits
      dest!: js_trim_eq_Nil [THEN iffD1])

lemma digest_nonblank: "is_sha256_digest d \<Longrightarrow> js_trim d \<noteq> []"
  by (cases d) (auto simp: is_sha256_digest_def js_trim_eq_Nil js_space_def)

lemma entry_object_props:
  assumes "other_fields entry_fields (se_other e) = se_other e"
  shows "get_prop (entry_object e) ''executionIntentId'' = Some (JStr (se_executionIntentId e))"
    "get_prop (entry_object e) ''intentDigest'' = Some (JStr (se_intentDigest e))"
    "get_prop (entry_object e) ''requestId'' = Some (JStr (se_requestId e))"
    "get_prop (entry_object e) ''walletId'' = Some (JStr (se_walletId e))"
    "get_prop (entry_object e) ''providerId'' = Some (JStr (se_providerId e))"
    "get_prop (entry_object e) ''state'' = Some (JStr (send_state_str (se_state e)))"
    "get_prop (entry_object e) ''approvalRequestId'' = map_option JStr (se_approvalRequestId e)"
    "get_prop (entry_object e) ''signature'' = map_option JStr (se_signature e)"
    "get_prop (entry_object e) ''reason'' = map_option JStr (se_reason e)"
    "get_prop (entry_object e) ''result'' = map_option result_json (se_result e)"
    "get_prop (entry_object e) ''createdAt'' = Some (JStr (se_createdAt e))"
    "get_prop (entry_object e) ''updatedAt'' = Some (JStr (se_updatedAt e))"
    "other_fields entry_fields (entry_object e) = se_other e"
proof -
  have o: "get_prop (se_other e) k = None" if "k \<in> set entry_fields" for k
    using assms that by (rule get_prop_other)
  note o' = o [of "''approvalRequestId''"] o [of "''signature''"] o [of "''reason''"] o [of "''result''"]
  show "get_prop (entry_object e) ''executionIntentId'' = Some (JStr (se_executionIntentId e))"
    "get_prop (entry_object e) ''intentDigest'' = Some (JStr (se_intentDigest e))"
    "get_prop (entry_object e) ''requestId'' = Some (JStr (se_requestId e))"
    "get_prop (entry_object e) ''walletId'' = Some (JStr (se_walletId e))"
    "get_prop (entry_object e) ''providerId'' = Some (JStr (se_providerId e))"
    "get_prop (entry_object e) ''state'' = Some (JStr (send_state_str (se_state e)))"
    "get_prop (entry_object e) ''approvalRequestId'' = map_option JStr (se_approvalRequestId e)"
    "get_prop (entry_object e) ''signature'' = map_option JStr (se_signature e)"
    "get_prop (entry_object e) ''reason'' = map_option JStr (se_reason e)"
    "get_prop (entry_object e) ''result'' = map_option result_json (se_result e)"
    "get_prop (entry_object e) ''createdAt'' = Some (JStr (se_createdAt e))"
    "get_prop (entry_object e) ''updatedAt'' = Some (JStr (se_updatedAt e))"
    using o' by (simp_all add: entry_object_def entry_fields_def split: option.split)
  show "other_fields entry_fields (entry_object e) = se_other e"
    using assms by (simp add: entry_object_def entry_fields_def)
qed

lemma validateEntry_json:
  assumes wf: "entry_wf sha e"
  shows "validateEntry sha (entry_json e) = Inr e"
proof -
  let ?kvs = "entry_object e"
  have other: "other_fields entry_fields (se_other e) = se_other e" using wf by (simp add: entry_wf_def)
  note props = entry_object_props [OF other]
  have res: "validateResult (map_option result_json (se_result e)) = Inr (se_result e)"
    using wf by (cases "se_result e") (simp_all add: entry_wf_def validateResult_json, simp add: validateResult_def)
  have shape: "entry_shape_ok ?kvs" and
    req: "walletSendRequestId sha (se_executionIntentId e) = Inr (se_requestId e)"
    using wf props walletSendRequestId_nonblank [of sha "se_executionIntentId e" "se_requestId e"]
    by (simp_all add: entry_shape_ok_def entry_wf_def)
  have opt: "first_non_string [''approvalRequestId'', ''signature'', ''reason''] ?kvs = None"
    by (rule first_non_string_None) (auto simp: props)
  have e: "entry_of ?kvs (se_state e) (se_result e) = e"
    by (simp add: entry_of_def props)
  show ?thesis
    using wf shape opt req res e
    by (auto simp: validateEntry_def entry_json_def props entry_wf_def split: option.splits)
qed

lemma load_save [simp]:
  assumes "entries_wf sha es"
  shows "loadLedger sha (saveLedger es) = Inr es"
proof -
  have "map_r (validateEntry sha) (map entry_json es) = Inr es"
    using assms by (intro map_r_all_ok) (simp add: entries_wf_def validateEntry_json)
  then show ?thesis using assms
    by (simp add: loadLedger_def saveLedger_def entries_wf_def)
qed

section \<open>The operations keep the ledger readable\<close>

datatype send_op =
    SBegin string string string string string
  | SUpdate string "send_state list" send_state send_patch string

fun send_step :: "(string \<Rightarrow> string) \<Rightarrow> send_op \<Rightarrow> state_file \<Rightarrow> state_file" where
  "send_step sha (SBegin i d w p now) f = snd (beginWalletSendExecution sha i d w p now f)"
| "send_step sha (SUpdate i exps st p now) f = snd (updateWalletSendExecution sha i exps st p now f)"

definition send_state_of :: "(string \<Rightarrow> string) \<Rightarrow> state_file \<Rightarrow> string \<Rightarrow> send_state option" where
  "send_state_of sha f k =
     (case loadLedger sha f of Inl _ \<Rightarrow> None
      | Inr es \<Rightarrow> map_option se_state (find (\<lambda>e. se_executionIntentId e = k) es))"

definition send_allowed :: "send_state \<Rightarrow> send_state \<Rightarrow> bool" where
  "send_allowed s t \<longleftrightarrow> t \<in> set (send_TRANSITIONS s)"

text \<open>
  The file is readable and its entries are well formed; their ids lie in \<open>U\<close>, a set of ids on
  which the hash has no collision. A patch is coherent when an execution it marks executed gets a
  result whose transaction hash is the recorded signature.
\<close>

definition send_inv :: "(string \<Rightarrow> string) \<Rightarrow> string set \<Rightarrow> state_file \<Rightarrow> bool" where
  "send_inv sha U f \<longleftrightarrow> inj_on sha U \<and> (\<exists>es. loadLedger sha f = Inr es \<and> entries_wf sha es
     \<and> se_executionIntentId ` set es \<subseteq> U)"

definition patch_coherent :: "send_state \<Rightarrow> send_patch \<Rightarrow> bool" where
  "patch_coherent st p \<longleftrightarrow> (\<forall>r. sp_result p = Some (Some r) \<longrightarrow> result_wf r)
     \<and> (st = SExecuted \<longrightarrow> (\<exists>r. sp_result p = Some (Some r) \<and> sp_signature p = Some (Some (sr_txHash r))))"

fun send_good :: "string set \<Rightarrow> send_op \<Rightarrow> bool" where
  "send_good U (SBegin i d w p now) \<longleftrightarrow> js_trim i \<in> U"
| "send_good U (SUpdate i exps st p now) \<longleftrightarrow> patch_coherent st p"

lemma request_id_eq: "entry_wf sha e \<Longrightarrow> se_requestId e = ''wallet-send-'' @ sha (se_executionIntentId e)"
  by (auto simp: entry_wf_def walletSendRequestId_def Let_def split: if_splits)

lemma new_entry_wf:
  assumes "walletSendRequestId sha i = Inr rid" and "js_trim i = i" and "is_sha256_digest d"
    and "js_trim w \<noteq> []" and "js_trim p \<noteq> []"
  shows "entry_wf sha (new_entry i d rid w p now)"
  using assms by (simp add: entry_wf_def new_entry_def)

lemma patch_entry_wf: "entry_wf sha e \<Longrightarrow> patch_coherent st p \<Longrightarrow> entry_wf sha (patch_entry p st now e)"
  by (auto simp: entry_wf_def patch_entry_def patch_coherent_def assign_field_def pred_option_all
      split: option.splits)

lemma entries_wf_append:
  assumes wf: "entries_wf sha es" and e: "entry_wf sha e" and inj: "inj_on sha U"
    and U: "se_executionIntentId ` set es \<subseteq> U" "se_executionIntentId e \<in> U"
    and fresh: "find (\<lambda>x. se_executionIntentId x = se_executionIntentId e) es = None"
  shows "entries_wf sha (es @ [e])"
proof -
  have new: "se_executionIntentId x \<noteq> se_executionIntentId e" if "x \<in> set es" for x
    using find_NoneD [OF fresh that] by simp
  then have ids: "se_executionIntentId e \<notin> se_executionIntentId ` set es" by force
  have "se_requestId x \<noteq> se_requestId e" if x: "x \<in> set es" for x
  proof
    assume eq: "se_requestId x = se_requestId e"
    have "entry_wf sha x" using wf x by (simp add: entries_wf_def)
    with e eq have "sha (se_executionIntentId x) = sha (se_executionIntentId e)"
      by (simp add: request_id_eq)
    then show False using inj U x new [OF x] by (auto simp: inj_on_def)
  qed
  then have "se_requestId e \<notin> se_requestId ` set es" by force
  then show ?thesis using wf e ids by (simp add: entries_wf_def)
qed

lemma patch_entry_fixed [simp]:
  "se_executionIntentId (patch_entry p st now e) = se_executionIntentId e"
  "se_requestId (patch_entry p st now e) = se_requestId e"
  "se_intentDigest (patch_entry p st now e) = se_intentDigest e"
  "se_walletId (patch_entry p st now e) = se_walletId e"
  "se_providerId (patch_entry p st now e) = se_providerId e"
  "se_state (patch_entry p st now e) = st"
  by (simp_all add: patch_entry_def)

lemma new_entry_fields [simp]:
  "se_executionIntentId (new_entry i d rid w p now) = i" "se_state (new_entry i d rid w p now) = SReserved"
  "se_intentDigest (new_entry i d rid w p now) = d" "se_walletId (new_entry i d rid w p now) = w"
  "se_providerId (new_entry i d rid w p now) = p" "se_requestId (new_entry i d rid w p now) = rid"
  by (simp_all add: new_entry_def)

lemma entries_wf_patch:
  assumes "entries_wf sha es" and "patch_coherent st p"
  shows "entries_wf sha (update_first q (patch_entry p st now) es)"
proof -
  have "entry_wf sha x" if "x \<in> set (update_first q (patch_entry p st now) es)" for x
    using assms that set_update_first [of q "patch_entry p st now" es]
    by (auto simp: entries_wf_def intro: patch_entry_wf)
  then show ?thesis using assms by (simp add: entries_wf_def map_update_first)
qed

text \<open>What a step does to the file: nothing, or one appended entry, or one updated entry.\<close>

lemma begin_file:
  "snd (beginWalletSendExecution sha i d w p now f) = f \<or>
   (\<exists>es rid. loadLedger sha f = Inr es \<and> find (\<lambda>e. se_executionIntentId e = js_trim i) es = None
      \<and> walletSendRequestId sha (js_trim i) = Inr rid \<and> is_sha256_digest d \<and> js_trim w \<noteq> [] \<and> js_trim p \<noteq> []
      \<and> snd (beginWalletSendExecution sha i d w p now f) =
         saveLedger (es @ [new_entry (js_trim i) d rid (js_trim w) (js_trim p) now]))"
  by (cases "walletSendRequestId sha (js_trim i)"; cases "loadLedger sha f")
     (auto simp: beginWalletSendExecution_def Let_def split: option.splits)

lemma update_file:
  "snd (updateWalletSendExecution sha i exps st p now f) = f \<or>
   (\<exists>es e. loadLedger sha f = Inr es \<and> find (\<lambda>e. se_executionIntentId e = js_trim i) es = Some e
      \<and> se_state e \<in> set exps \<and> send_allowed (se_state e) st
      \<and> snd (updateWalletSendExecution sha i exps st p now f) =
         saveLedger (update_first (\<lambda>e. se_executionIntentId e = js_trim i) (patch_entry p st now) es))"
  by (cases "loadLedger sha f")
     (auto simp: updateWalletSendExecution_def send_allowed_def split: option.splits)

lemma begin_new_wf:
  assumes inv: "send_inv sha U f" and id: "js_trim i \<in> U" and load: "loadLedger sha f = Inr es"
    and fresh: "find (\<lambda>e. se_executionIntentId e = js_trim i) es = None"
    and new: "walletSendRequestId sha (js_trim i) = Inr rid" "is_sha256_digest d" "js_trim w \<noteq> []" "js_trim p \<noteq> []"
  shows "entries_wf sha (es @ [new_entry (js_trim i) d rid (js_trim w) (js_trim p) now])"
proof -
  let ?e = "new_entry (js_trim i) d rid (js_trim w) (js_trim p) now"
  from inv load have wf: "entries_wf sha es" "se_executionIntentId ` set es \<subseteq> U" "inj_on sha U"
    by (auto simp: send_inv_def)
  have "entry_wf sha ?e" using new by (intro new_entry_wf) auto
  with wf fresh id show ?thesis
    by (intro entries_wf_append [of sha es ?e U]) auto
qed

lemma begin_effect:
  assumes inv: "send_inv sha U f" and good: "js_trim i \<in> U"
  shows "snd (beginWalletSendExecution sha i d w p now f) = f \<or>
    (\<exists>es e. loadLedger sha f = Inr es \<and> find (\<lambda>x. se_executionIntentId x = se_executionIntentId e) es = None
       \<and> se_state e = SReserved \<and> entries_wf sha (es @ [e]) \<and> se_executionIntentId ` set (es @ [e]) \<subseteq> U
       \<and> snd (beginWalletSendExecution sha i d w p now f) = saveLedger (es @ [e]))"
  using begin_file [of sha i d w p now f]
proof (elim disjE exE conjE)
  fix es rid
  let ?e = "new_entry (js_trim i) d rid (js_trim w) (js_trim p) now"
  assume load: "loadLedger sha f = Inr es"
    and fresh: "find (\<lambda>e. se_executionIntentId e = js_trim i) es = None"
    and new: "walletSendRequestId sha (js_trim i) = Inr rid" "is_sha256_digest d" "js_trim w \<noteq> []" "js_trim p \<noteq> []"
    and saved: "snd (beginWalletSendExecution sha i d w p now f) = saveLedger (es @ [?e])"
  have "se_executionIntentId ` set es \<subseteq> U" using inv load by (auto simp: send_inv_def)
  with begin_new_wf [OF inv good load fresh new] load fresh saved good show ?thesis
    by (intro disjI2 exI [of _ es] exI [of _ ?e]) simp
qed simp

lemma update_effect:
  assumes inv: "send_inv sha U f" and good: "patch_coherent st p"
  shows "snd (updateWalletSendExecution sha i exps st p now f) = f \<or>
    (\<exists>es e es'. loadLedger sha f = Inr es \<and> find (\<lambda>e. se_executionIntentId e = js_trim i) es = Some e
       \<and> send_allowed (se_state e) st
       \<and> es' = update_first (\<lambda>e. se_executionIntentId e = js_trim i) (patch_entry p st now) es
       \<and> entries_wf sha es' \<and> se_executionIntentId ` set es' \<subseteq> U
       \<and> snd (updateWalletSendExecution sha i exps st p now f) = saveLedger es')"
  using update_file [of sha i exps st p now f]
proof (elim disjE exE conjE)
  fix es e
  let ?es = "update_first (\<lambda>e. se_executionIntentId e = js_trim i) (patch_entry p st now) es"
  assume load: "loadLedger sha f = Inr es"
    and upd: "find (\<lambda>e. se_executionIntentId e = js_trim i) es = Some e" "send_allowed (se_state e) st"
    and saved: "snd (updateWalletSendExecution sha i exps st p now f) = saveLedger ?es"
  from inv load have wf: "entries_wf sha es" "se_executionIntentId ` set es \<subseteq> U"
    by (auto simp: send_inv_def)
  have "set (map se_executionIntentId ?es) = set (map se_executionIntentId es)"
    by (simp only: map_update_first patch_entry_fixed)
  then have "se_executionIntentId ` set ?es \<subseteq> U" using wf by simp
  moreover have "entries_wf sha ?es" using wf good by (intro entries_wf_patch)
  ultimately show ?thesis using load upd saved by blast
qed simp

lemma send_inv_step: "send_inv sha U f \<Longrightarrow> send_good U c \<Longrightarrow> send_inv sha U (send_step sha c f)"
proof (cases c)
  case (SBegin i d w p now)
  assume "send_inv sha U f" "send_good U c"
  then show ?thesis using SBegin begin_effect [of sha U f i d w p now] by (auto simp: send_inv_def)
next
  case (SUpdate i exps st p now)
  assume "send_inv sha U f" "send_good U c"
  then show ?thesis using SUpdate update_effect [of sha U f st p i exps now] by (auto simp: send_inv_def)
qed

lemma send_state_of_load: "loadLedger sha f = Inr es \<Longrightarrow>
    send_state_of sha f k = map_option se_state (find (\<lambda>e. se_executionIntentId e = k) es)"
  by (simp add: send_state_of_def)

text \<open>How a step changes the state of one entry.\<close>

lemma send_begin_state:
  assumes "send_inv sha U f" "js_trim i \<in> U"
  shows "send_state_of sha (snd (beginWalletSendExecution sha i d w p now f)) k = send_state_of sha f k
    \<or> (send_state_of sha f k = None
       \<and> send_state_of sha (snd (beginWalletSendExecution sha i d w p now f)) k = Some SReserved)"
  using begin_effect [OF assms, of d w p now]
  by (auto simp: send_state_of_load find_append split: option.splits if_splits)

lemma send_update_state:
  assumes "send_inv sha U f" "patch_coherent st p"
  shows "send_state_of sha (snd (updateWalletSendExecution sha i exps st p now f)) k = send_state_of sha f k
    \<or> (\<exists>s. send_state_of sha f k = Some s \<and> send_allowed s st
       \<and> send_state_of sha (snd (updateWalletSendExecution sha i exps st p now f)) k = Some st)"
  using update_effect [OF assms, of i exps now]
proof (elim disjE exE conjE)
  fix es e es'
  assume load: "loadLedger sha f = Inr es"
    and e: "find (\<lambda>e. se_executionIntentId e = js_trim i) es = Some e" "send_allowed (se_state e) st"
    and es': "es' = update_first (\<lambda>e. se_executionIntentId e = js_trim i) (patch_entry p st now) es"
    and wf: "entries_wf sha es'"
    and saved: "snd (updateWalletSendExecution sha i exps st p now f) = saveLedger es'"
  show ?thesis
  proof (cases "k = js_trim i")
    case True
    have "find (\<lambda>e. se_executionIntentId e = k) es' = Some (patch_entry p st now e)"
      using e True by (simp add: es' find_update_first_same)
    then show ?thesis using load e wf saved True by (simp add: send_state_of_load)
  next
    case False
    have "find (\<lambda>e. se_executionIntentId e = k) es' = find (\<lambda>e. se_executionIntentId e = k) es"
      unfolding es' by (rule find_update_first_other) (use False in auto)
    then show ?thesis using load wf saved by (simp add: send_state_of_load)
  qed
qed simp

lemma send_step_state:
  assumes "send_inv sha U f" "send_good U c"
  shows "send_state_of sha (send_step sha c f) k = send_state_of sha f k
    \<or> (send_state_of sha f k = None \<and> send_state_of sha (send_step sha c f) k = Some SReserved)
    \<or> (\<exists>s t. send_state_of sha f k = Some s \<and> send_allowed s t \<and> send_state_of sha (send_step sha c f) k = Some t)"
proof (cases c)
  case (SBegin i d w p now)
  with assms send_begin_state [of sha U f i d w p now k] show ?thesis by auto
next
  case (SUpdate i exps st p now)
  with assms send_update_state [of sha U f st p i exps now k] show ?thesis by auto
qed

interpretation send_ledger: state_ledger "send_state_of sha" "send_step sha" send_allowed
    "send_inv sha U" "send_good U" "\<lambda>s. s = SReserved" for sha U
proof
  fix f c k s t
  assume pre: "send_inv sha U f" "send_good U c"
  show "send_inv sha U (send_step sha c f)" using pre by (rule send_inv_step)
  show "\<exists>t. send_state_of sha (send_step sha c f) k = Some t \<and> (t = s \<or> send_allowed s t)"
    if "send_state_of sha f k = Some s"
    using send_step_state [OF pre, of k] that by auto
  show "t = SReserved"
    if "send_state_of sha f k = None" "send_state_of sha (send_step sha c f) k = Some t"
    using send_step_state [OF pre, of k] that by auto
qed

lemma send_inv_empty: "inj_on sha U \<Longrightarrow> send_inv sha U NoFile"
  by (auto simp: send_inv_def loadLedger_def entries_wf_def)


lemma executed_incoherent_invalid:
  assumes other: "other_fields entry_fields (se_other e) = se_other e"
    and st: "se_state e = SExecuted"
    and bad: "\<nexists>r. se_result e = Some r \<and> se_signature e = Some (sr_txHash r)"
  shows "validateEntry sha (entry_json e) \<noteq> Inr x"
proof
  note props = entry_object_props [OF other]
  have parse: "parse_send_state ''executed'' = Some SExecuted"
    by (simp add: parse_send_state_def send_STATES_def)
  assume "validateEntry sha (entry_json e) = Inr x"
  then obtain res where res: "validateResult (map_option result_json (se_result e)) = Inr res"
    and coh: "case res of None \<Rightarrow> False | Some r \<Rightarrow> se_signature e = Some (sr_txHash r)"
    using st by (auto simp: validateEntry_def entry_json_def props parse bind_r_eq_Inr split: if_splits option.splits)
  then obtain r0 r where "se_result e = Some r0" and r: "validateResult (Some (result_json r0)) = Inr (Some r)"
    by (cases "se_result e") (auto simp: validateResult_def split: option.splits)
  moreover have "sr_txHash r = sr_txHash r0"
    using r by (auto simp: validateResult_def result_json_def split: if_splits)
  moreover have "res = Some r"
    using res r \<open>se_result e = Some r0\<close> by simp
  ultimately show False using coh bad by auto
qed

lemma load_save_invalid:
  assumes "e \<in> set es" and "\<And>x. validateEntry sha (entry_json e) \<noteq> Inr x"
  shows "loadLedger sha (saveLedger es) = unreadable"
proof -
  obtain m where "map_r (validateEntry sha) (map entry_json es) = Inl m"
    using map_r_Inl [of "entry_json e" "map entry_json es" "validateEntry sha"] assms by auto
  then show ?thesis by (simp add: loadLedger_def saveLedger_def)
qed

section \<open>Properties\<close>

definition sample_run :: "send_op list" where
  "sample_run = [SBegin '' a '' zero_digest ''w'' ''p'' ''t0'',
     SUpdate ''a'' [SReserved] SExecuting no_patch ''t1'',
     SUpdate ''a'' [SExecuting] SExecuted
       (no_patch\<lparr>sp_signature := Some (Some ''tx''),
         sp_result := Some (Some \<lparr>sr_txHash = ''tx'', sr_signer = None, sr_metadata = None, sr_other = []\<rparr>)\<rparr>) ''t2'']"

lemma sample_run_good: "list_all (send_good {''a''}) sample_run"
  by (simp add: sample_run_def js_trim_def js_space_def patch_coherent_def no_patch_def result_wf_def)

text \<open>
  C11: Starting without a file, any sequence of begin and update calls whose patches are coherent
  leaves a ledger that the loader accepts, with well-formed entries under distinct intent ids and
  distinct request ids, as long as the hash does not collide on the intent ids in use.
\<close>

theorem send_ledger_readable:
  assumes "inj_on sha U" and "list_all (send_good U) cs"
  shows "\<exists>es. loadLedger sha (fold (send_step sha) cs NoFile) = Inr es \<and> entries_wf sha es"
  using send_ledger.run_inv [OF send_inv_empty [OF assms(1)] assms(2)] by (auto simp: send_inv_def)

theorem send_ledger_readable_witness:
  "\<exists>es. loadLedger (\<lambda>s. s) (fold (send_step (\<lambda>s. s)) sample_run NoFile) = Inr es \<and> entries_wf (\<lambda>s. s) es"
  by (rule send_ledger_readable [of "\<lambda>s. s" "{''a''}"]) (simp_all add: sample_run_good)



text \<open>
  Begin binds an execution intent id to its intent. Once a begin has returned, repeating it (at
  any later time) returns the same entry without creating one and leaves the file as it is, and a
  begin of the same id with another digest is refused and leaves the file as it is.
\<close>

theorem send_begin_idempotent:
  assumes inv: "send_inv sha U f" and id: "js_trim i \<in> U"
    and first: "beginWalletSendExecution sha i d w p now f = (Inr (e, created), f')"
  shows "beginWalletSendExecution sha i d w p now' f' = (Inr (e, False), f')
    \<and> (is_sha256_digest d' \<and> d' \<noteq> d \<longrightarrow>
       beginWalletSendExecution sha i d' w p now' f' =
         (Inl (Error ''wallet send executionIntentId is already bound to a different immutable intent''), f'))"
proof -
  obtain es0 where load0: "loadLedger sha f = Inr es0" using inv by (auto simp: send_inv_def)
  have e: "walletSendRequestId sha (js_trim i) = Inr (se_requestId e)" "is_sha256_digest d"
    "js_trim w \<noteq> []" "js_trim p \<noteq> []" "se_intentDigest e = d" "se_walletId e = js_trim w"
    "se_providerId e = js_trim p" "se_executionIntentId e = js_trim i"
    using first load0
    by (auto simp: beginWalletSendExecution_def Let_def dest!: find_SomeD
        split: if_splits option.splits sum.splits)
  have "\<exists>es. loadLedger sha f' = Inr es \<and> find (\<lambda>e. se_executionIntentId e = js_trim i) es = Some e"
    using first load0 begin_new_wf [OF inv id load0]
    by (auto simp: beginWalletSendExecution_def Let_def find_append
        split: if_splits option.splits sum.splits)
  then show ?thesis using e by (auto simp: beginWalletSendExecution_def)
qed

theorem send_begin_idempotent_witness:
  "beginWalletSendExecution (\<lambda>s. s) ''a'' zero_digest ''w'' ''p'' ''t9''
     (snd (beginWalletSendExecution (\<lambda>s. s) ''a'' zero_digest ''w'' ''p'' ''t0'' NoFile)) =
   (Inr (new_entry ''a'' zero_digest ''wallet-send-a'' ''w'' ''p'' ''t0'', False),
    snd (beginWalletSendExecution (\<lambda>s. s) ''a'' zero_digest ''w'' ''p'' ''t0'' NoFile))"
proof -
  have "beginWalletSendExecution (\<lambda>s. s) ''a'' zero_digest ''w'' ''p'' ''t0'' NoFile =
      (Inr (new_entry ''a'' zero_digest ''wallet-send-a'' ''w'' ''p'' ''t0'', True),
       snd (beginWalletSendExecution (\<lambda>s. s) ''a'' zero_digest ''w'' ''p'' ''t0'' NoFile))"
    by code_simp
  from send_begin_idempotent [OF send_inv_empty [of _ "{''a''}"] _ this] show ?thesis
    by (simp add: js_trim_def js_space_def)
qed

text \<open>
  The update operation does not check what the loader checks: marking an execution executed
  without recording the result whose transaction hash is the signature succeeds, and from then on
  the ledger file is refused as a whole.
\<close>

theorem send_incoherent_update_unreadable:
  assumes load: "loadLedger sha f = Inr es" and wf: "entries_wf sha es"
    and found: "find (\<lambda>e. se_executionIntentId e = js_trim i) es = Some e"
    and st: "se_state e \<in> set exps" "SExecuted \<in> set (send_TRANSITIONS (se_state e))"
    and bad: "\<nexists>r. assign_field (sp_result p) (se_result e) = Some r
      \<and> assign_field (sp_signature p) (se_signature e) = Some (sr_txHash r)"
  shows "\<exists>f'. updateWalletSendExecution sha i exps SExecuted p now f = (Inr (patch_entry p SExecuted now e), f')
    \<and> loadLedger sha f' = unreadable"
proof -
  let ?e = "patch_entry p SExecuted now e"
  let ?es = "update_first (\<lambda>e. se_executionIntentId e = js_trim i) (patch_entry p SExecuted now) es"
  have "updateWalletSendExecution sha i exps SExecuted p now f = (Inr ?e, saveLedger ?es)"
    using load found st by (simp add: updateWalletSendExecution_def)
  moreover have "other_fields entry_fields (se_other ?e) = se_other ?e"
    using wf find_SomeD [OF found] by (simp add: entries_wf_def entry_wf_def patch_entry_def)
  then have "validateEntry sha (entry_json ?e) \<noteq> Inr x" for x
    by (rule executed_incoherent_invalid) (use bad in \<open>simp_all add: patch_entry_def\<close>)
  then have "loadLedger sha (saveLedger ?es) = unreadable"
    by (rule load_save_invalid [OF update_first_mem [OF found]])
  ultimately show ?thesis by blast
qed

theorem send_incoherent_update_unreadable_witness:
  "\<exists>f'. updateWalletSendExecution (\<lambda>s. s) ''a'' [SExecuting] SExecuted no_patch ''t2''
      (fold (send_step (\<lambda>s. s)) (take 2 sample_run) NoFile)
     = (Inr ((new_entry ''a'' zero_digest ''wallet-send-a'' ''w'' ''p'' ''t0'')\<lparr>se_state := SExecuted,
          se_updatedAt := ''t2''\<rparr>), f') \<and> loadLedger (\<lambda>s. s) f' = unreadable"
proof -
  let ?e = "(new_entry ''a'' zero_digest ''wallet-send-a'' ''w'' ''p'' ''t0'')\<lparr>se_state := SExecuting, se_updatedAt := ''t1''\<rparr>"
  have load: "loadLedger (\<lambda>s. s) (fold (send_step (\<lambda>s. s)) (take 2 sample_run) NoFile) = Inr [?e]"
    by code_simp
  have wf: "entries_wf (\<lambda>s. s) [?e]"
    by (simp add: entries_wf_def entry_wf_def new_entry_def js_trim_def
        js_space_def walletSendRequestId_def)
  have "patch_entry no_patch SExecuted ''t2'' ?e =
      (new_entry ''a'' zero_digest ''wallet-send-a'' ''w'' ''p'' ''t0'')\<lparr>se_state := SExecuted, se_updatedAt := ''t2''\<rparr>"
    by (simp add: patch_entry_def no_patch_def assign_field_def)
  then show ?thesis
    using send_incoherent_update_unreadable [OF load wf, of "''a''" ?e "[SExecuting]" no_patch "''t2''"]
    by (simp add: js_trim_def js_space_def assign_field_def no_patch_def new_entry_def)
qed



end
