(* ===== verification/SubmissionLedger.thy ===== *)
theory SubmissionLedger
  imports LedgerContract CanonicalJson
begin

text \<open>
  \<open>src/wallet/external-submission-ledger.ts\<close>: the durable record of transactions handed to an
  outside service (Jupiter swaps and trigger orders). An entry is found by an idempotency key,
  the hash of the kind, the wallet, the digest of the intent and the caller's intent id; a caller's
  intent id is bound to one entry of its kind and wallet. \<open>sha\<close> stands for the hexadecimal SHA-256.
\<close>

section \<open>Data\<close>

datatype submission_kind = JupiterSwap | JupiterTriggerAuth | JupiterTriggerCreate | JupiterTriggerCancel

fun kind_str :: "submission_kind \<Rightarrow> string" where
  "kind_str JupiterSwap = ''jupiter-swap''"
| "kind_str JupiterTriggerAuth = ''jupiter-trigger-auth''"
| "kind_str JupiterTriggerCreate = ''jupiter-trigger-create''"
| "kind_str JupiterTriggerCancel = ''jupiter-trigger-cancel''"

definition KINDS :: "submission_kind list" where
  "KINDS = [JupiterSwap, JupiterTriggerAuth, JupiterTriggerCreate, JupiterTriggerCancel]"

definition parse_kind :: "string \<Rightarrow> submission_kind option" where
  "parse_kind s = find (\<lambda>k. kind_str k = s) KINDS"

datatype submission_state = XReserved | XPrepared | XSigned | XSubmitting | XUnknown | XConfirmed | XFailed

fun submission_state_str :: "submission_state \<Rightarrow> string" where
  "submission_state_str XReserved = ''reserved''"
| "submission_state_str XPrepared = ''prepared''"
| "submission_state_str XSigned = ''signed''"
| "submission_state_str XSubmitting = ''submitting''"
| "submission_state_str XUnknown = ''unknown''"
| "submission_state_str XConfirmed = ''confirmed''"
| "submission_state_str XFailed = ''failed''"

definition submission_STATES :: "submission_state list" where
  "submission_STATES = [XReserved, XPrepared, XSigned, XSubmitting, XUnknown, XConfirmed, XFailed]"

definition parse_submission_state :: "string \<Rightarrow> submission_state option" where
  "parse_submission_state s = find (\<lambda>st. submission_state_str st = s) submission_STATES"

fun submission_TRANSITIONS :: "submission_state \<Rightarrow> submission_state list" where
  "submission_TRANSITIONS XReserved = [XReserved, XPrepared, XSubmitting, XFailed]"
| "submission_TRANSITIONS XPrepared = [XPrepared, XSigned, XUnknown, XConfirmed, XFailed]"
| "submission_TRANSITIONS XSigned = [XSigned, XSubmitting, XUnknown]"
| "submission_TRANSITIONS XSubmitting = [XSubmitting, XPrepared, XUnknown, XConfirmed, XFailed]"
| "submission_TRANSITIONS XUnknown = [XUnknown, XConfirmed, XFailed]"
| "submission_TRANSITIONS XConfirmed = [XConfirmed]"
| "submission_TRANSITIONS XFailed = [XFailed]"

record submission =
  xs_key :: string
  xs_kind :: submission_kind
  xs_walletId :: string
  xs_intentDigest :: string
  xs_explicitIntentId :: "string option"
  xs_state :: submission_state
  xs_signerRequestId :: "string option"
  xs_signerIntentDigest :: "string option"
  xs_signerSignature :: "string option"
  xs_externalRequestId :: "string option"
  xs_transactionDigest :: "string option"
  xs_reason :: "string option"
  xs_details :: "js_object option"
  xs_result :: "js_object option"
  xs_createdAt :: string
  xs_updatedAt :: string
  xs_other :: js_object

record submission_patch =
  xp_signerRequestId :: "string option option"
  xp_signerIntentDigest :: "string option option"
  xp_signerSignature :: "string option option"
  xp_externalRequestId :: "string option option"
  xp_transactionDigest :: "string option option"
  xp_reason :: "string option option"
  xp_details :: "js_object option option"
  xp_result :: "js_object option option"

section \<open>Keys\<close>

definition externalSubmissionIntentDigest ::
    "(string \<Rightarrow> string) \<Rightarrow> (js_number \<Rightarrow> string) \<Rightarrow> json \<Rightarrow> string result" where
  "externalSubmissionIntentDigest sha num intent =
     bind_r (canonicalJson ''external submission'' num intent) (\<lambda>s. Inr (''sha256:'' @ sha s))"

definition NUL :: char where
  "NUL = CHR 0x00"

definition key_preimage :: "submission_kind \<Rightarrow> string \<Rightarrow> string \<Rightarrow> string option \<Rightarrow> string" where
  "key_preimage kind walletId intentDigest explicitIntentId =
     kind_str kind @ [NUL] @ walletId @ [NUL] @ intentDigest @ [NUL]
       @ (case explicitIntentId of None \<Rightarrow> ''default'' | Some i \<Rightarrow> i)"

definition createExternalSubmissionKey ::
    "(string \<Rightarrow> string) \<Rightarrow> (js_number \<Rightarrow> string) \<Rightarrow> submission_kind \<Rightarrow> string \<Rightarrow> json \<Rightarrow> string option
     \<Rightarrow> (string \<times> string \<times> string option) result" where
  "createExternalSubmissionKey sha num kind rawWallet intent rawExplicit =
     (let walletId = js_trim rawWallet; explicitIntentId = trim_or_undef rawExplicit
      in if walletId = [] then Inl (Error ''external submission walletId is required'')
         else if (case explicitIntentId of None \<Rightarrow> False
                  | Some i \<Rightarrow> length i > 160 \<or> containsControlCharacter i)
         then Inl (Error ''external submission intentId is invalid'')
         else bind_r (externalSubmissionIntentDigest sha num intent) (\<lambda>intentDigest.
           Inr (kind_str kind @ '':'' @ sha (key_preimage kind walletId intentDigest explicitIntentId),
                intentDigest, explicitIntentId)))"

section \<open>Reading and writing the file\<close>

definition submission_fields :: "string list" where
  "submission_fields = [''key'', ''kind'', ''walletId'', ''intentDigest'', ''explicitIntentId'', ''state'',
     ''signerRequestId'', ''signerIntentDigest'', ''signerSignature'', ''externalRequestId'',
     ''transactionDigest'', ''reason'', ''details'', ''result'', ''createdAt'', ''updatedAt'']"

definition optional_string_fields :: "string list" where
  "optional_string_fields = [''explicitIntentId'', ''signerRequestId'', ''signerIntentDigest'',
     ''signerSignature'', ''externalRequestId'', ''transactionDigest'', ''reason'']"

definition submission_of :: "js_object \<Rightarrow> submission_kind \<Rightarrow> submission_state \<Rightarrow> submission" where
  "submission_of kvs kind st =
     (let str = (\<lambda>k. the_string (get_prop kvs k)); opt = (\<lambda>k. opt_string (get_prop kvs k))
      in \<lparr>xs_key = str ''key'', xs_kind = kind, xs_walletId = str ''walletId'',
          xs_intentDigest = str ''intentDigest'', xs_explicitIntentId = opt ''explicitIntentId'',
          xs_state = st, xs_signerRequestId = opt ''signerRequestId'',
          xs_signerIntentDigest = opt ''signerIntentDigest'', xs_signerSignature = opt ''signerSignature'',
          xs_externalRequestId = opt ''externalRequestId'',
          xs_transactionDigest = opt ''transactionDigest'', xs_reason = opt ''reason'',
          xs_details = as_record (get_prop kvs ''details''), xs_result = as_record (get_prop kvs ''result''),
          xs_createdAt = str ''createdAt'', xs_updatedAt = str ''updatedAt'',
          xs_other = other_fields submission_fields kvs\<rparr>)"

definition validateSubmission :: "json \<Rightarrow> submission result" where
  "validateSubmission v =
     (case as_record (Some v) of
        None \<Rightarrow> Inl (Error ''external submission ledger contains an invalid entry'')
      | Some kvs \<Rightarrow>
        let str = (\<lambda>k. the_string (get_prop kvs k)); has = (\<lambda>k. is_string (get_prop kvs k)) in
        if \<not> (has ''key'' \<and> has ''kind'' \<and> has ''walletId'' \<and> has ''intentDigest'' \<and> has ''createdAt''
               \<and> has ''updatedAt'' \<and> has ''state'')
        then Inl (Error ''external submission ledger contains an invalid entry'')
        else (case (parse_kind (str ''kind''), parse_submission_state (str ''state'')) of
          (Some kind, Some st) \<Rightarrow>
            if \<not> is_sha256_digest (str ''intentDigest'')
            then Inl (Error ''external submission ledger contains an invalid intent digest'')
            else (case first_non_string optional_string_fields kvs of
              Some field \<Rightarrow> Inl (Error (''external submission ledger contains an invalid '' @ field))
            | None \<Rightarrow>
              if get_prop kvs ''details'' \<noteq> None \<and> \<not> is_record (get_prop kvs ''details'')
              then Inl (Error ''external submission ledger contains invalid details'')
              else if get_prop kvs ''result'' \<noteq> None \<and> \<not> is_record (get_prop kvs ''result'')
              then Inl (Error ''external submission ledger contains an invalid result'')
              else Inr (submission_of kvs kind st))
        | _ \<Rightarrow> Inl (Error ''external submission ledger contains an invalid entry'')))"

definition loadSubmissions :: "state_file \<Rightarrow> submission list result" where
  "loadSubmissions file =
     (case file of NoFile \<Rightarrow> Inr []
      | Unparsable \<Rightarrow> Inl (Error
          ''external submission ledger is unreadable; refusing a potentially duplicate transaction'')
      | Document j \<Rightarrow>
        (case as_record (Some j) of
           None \<Rightarrow> Inl (Error ''external submission ledger has an unsupported format'')
         | Some kvs \<Rightarrow>
           (case as_array (get_prop kvs ''entries'') of
              None \<Rightarrow> Inl (Error ''external submission ledger has an unsupported format'')
            | Some raw \<Rightarrow>
              if get_prop kvs ''version'' \<noteq> Some (JNum (Fin 1))
              then Inl (Error ''external submission ledger has an unsupported format'')
              else bind_r (map_r validateSubmission raw) (\<lambda>entries.
                if \<not> distinct (map xs_key entries)
                then Inl (Error ''external submission ledger contains duplicate idempotency keys'')
                else Inr entries))))"

definition submission_object :: "submission \<Rightarrow> js_object" where
  "submission_object e = [(''key'', JStr (xs_key e)), (''kind'', JStr (kind_str (xs_kind e))),
       (''walletId'', JStr (xs_walletId e)), (''intentDigest'', JStr (xs_intentDigest e))]
     @ opt_field ''explicitIntentId'' (xs_explicitIntentId e)
     @ [(''state'', JStr (submission_state_str (xs_state e)))]
     @ opt_field ''signerRequestId'' (xs_signerRequestId e)
     @ opt_field ''signerIntentDigest'' (xs_signerIntentDigest e)
     @ opt_field ''signerSignature'' (xs_signerSignature e)
     @ opt_field ''externalRequestId'' (xs_externalRequestId e)
     @ opt_field ''transactionDigest'' (xs_transactionDigest e)
     @ opt_field ''reason'' (xs_reason e)
     @ obj_field ''details'' (xs_details e) @ obj_field ''result'' (xs_result e)
     @ [(''createdAt'', JStr (xs_createdAt e)), (''updatedAt'', JStr (xs_updatedAt e))]
     @ xs_other e"

definition saveSubmissions :: "submission list \<Rightarrow> state_file" where
  "saveSubmissions entries =
     Document (JObj [(''version'', JNum (Fin 1)),
                     (''entries'', JArr (map (\<lambda>e. JObj (submission_object e)) entries))])"

section \<open>Operations\<close>

definition getExternalSubmission :: "string \<Rightarrow> state_file \<Rightarrow> submission option result" where
  "getExternalSubmission key file =
     bind_r (loadSubmissions file) (\<lambda>es. Inr (find (\<lambda>e. xs_key e = js_trim key) es))"

definition same_explicit :: "submission_kind \<Rightarrow> string \<Rightarrow> string \<Rightarrow> submission \<Rightarrow> bool" where
  "same_explicit kind walletId explicitIntentId e \<longleftrightarrow>
     xs_kind e = kind \<and> xs_walletId e = walletId \<and> xs_explicitIntentId e = Some explicitIntentId"

definition getExternalSubmissionByExplicitIntent ::
    "submission_kind \<Rightarrow> string \<Rightarrow> string \<Rightarrow> state_file \<Rightarrow> submission option result" where
  "getExternalSubmissionByExplicitIntent kind rawWallet rawExplicit file =
     (let walletId = js_trim rawWallet; explicitIntentId = js_trim rawExplicit
      in if walletId = [] \<or> explicitIntentId = [] \<or> containsControlCharacter explicitIntentId
         then Inl (Error ''external submission explicit intent lookup is invalid'')
         else bind_r (loadSubmissions file)
           (\<lambda>es. Inr (find (same_explicit kind walletId explicitIntentId) es)))"

definition fresh_submission ::
    "string \<Rightarrow> submission_kind \<Rightarrow> string \<Rightarrow> string \<Rightarrow> string option \<Rightarrow> js_object option \<Rightarrow> string \<Rightarrow> submission" where
  "fresh_submission key kind walletId intentDigest explicitIntentId details now =
     \<lparr>xs_key = key, xs_kind = kind, xs_walletId = walletId, xs_intentDigest = intentDigest,
      xs_explicitIntentId = explicitIntentId, xs_state = XReserved, xs_signerRequestId = None,
      xs_signerIntentDigest = None, xs_signerSignature = None, xs_externalRequestId = None,
      xs_transactionDigest = None, xs_reason = None, xs_details = details, xs_result = None,
      xs_createdAt = now, xs_updatedAt = now, xs_other = []\<rparr>"

definition beginExternalSubmission ::
    "string \<Rightarrow> submission_kind \<Rightarrow> string \<Rightarrow> string \<Rightarrow> string option \<Rightarrow> js_object option \<Rightarrow> string \<Rightarrow> state_file
     \<Rightarrow> (submission \<times> bool) result \<times> state_file" where
  "beginExternalSubmission rawKey kind rawWallet intentDigest rawExplicit details now file =
     (case loadSubmissions file of
        Inl e \<Rightarrow> (Inl e, file)
      | Inr entries \<Rightarrow>
        let key = js_trim rawKey; walletId = js_trim rawWallet; explicitIntentId = trim_or_undef rawExplicit
        in case find (\<lambda>e. xs_key e = key) entries of
          Some existing \<Rightarrow>
            if xs_kind existing \<noteq> kind \<or> xs_walletId existing \<noteq> walletId
               \<or> xs_intentDigest existing \<noteq> intentDigest \<or> xs_explicitIntentId existing \<noteq> explicitIntentId
            then (Inl (Error ''external submission idempotency key collides with a different intent''), file)
            else (Inr (existing, False), file)
        | None \<Rightarrow>
            if (case explicitIntentId of None \<Rightarrow> False
                | Some i \<Rightarrow> find (same_explicit kind walletId i) entries \<noteq> None)
            then (Inl (Error ''external submission intentId is already bound to a different immutable intent''), file)
            else let entry = fresh_submission key kind walletId intentDigest explicitIntentId details now
                 in (Inr (entry, True), saveSubmissions (entries @ [entry])))"

definition patch_submission :: "submission_patch \<Rightarrow> submission_state \<Rightarrow> string \<Rightarrow> submission \<Rightarrow> submission" where
  "patch_submission p st now e =
     e\<lparr>xs_signerRequestId := assign_field (xp_signerRequestId p) (xs_signerRequestId e),
       xs_signerIntentDigest := assign_field (xp_signerIntentDigest p) (xs_signerIntentDigest e),
       xs_signerSignature := assign_field (xp_signerSignature p) (xs_signerSignature e),
       xs_externalRequestId := assign_field (xp_externalRequestId p) (xs_externalRequestId e),
       xs_transactionDigest := assign_field (xp_transactionDigest p) (xs_transactionDigest e),
       xs_reason := assign_field (xp_reason p) (xs_reason e),
       xs_details := assign_field (xp_details p) (xs_details e),
       xs_result := assign_field (xp_result p) (xs_result e),
       xs_state := st, xs_updatedAt := now\<rparr>"

definition updateExternalSubmission ::
    "string \<Rightarrow> submission_state list \<Rightarrow> submission_state \<Rightarrow> submission_patch \<Rightarrow> string \<Rightarrow> state_file
     \<Rightarrow> submission result \<times> state_file" where
  "updateExternalSubmission rawKey expectedStates st p now file =
     (case loadSubmissions file of
        Inl e \<Rightarrow> (Inl e, file)
      | Inr entries \<Rightarrow>
        (case find (\<lambda>e. xs_key e = js_trim rawKey) entries of
           None \<Rightarrow> (Inl (Error ''external submission ledger entry not found''), file)
         | Some entry \<Rightarrow>
           if xs_state entry \<notin> set expectedStates
           then (Inl (Error (''external submission '' @ xs_key entry @ '' is ''
                  @ submission_state_str (xs_state entry) @ ''; expected ''
                  @ join_or (map submission_state_str expectedStates))), file)
           else if st \<notin> set (submission_TRANSITIONS (xs_state entry))
           then (Inl (Error (''external submission cannot transition from ''
                  @ submission_state_str (xs_state entry) @ '' to '' @ submission_state_str st)), file)
           else (Inr (patch_submission p st now entry),
                 saveSubmissions (update_first (\<lambda>e. xs_key e = js_trim rawKey)
                                    (patch_submission p st now) entries))))"

definition renewed_submission :: "js_object option \<Rightarrow> string \<Rightarrow> submission \<Rightarrow> submission" where
  "renewed_submission details now e =
     fresh_submission (xs_key e) (xs_kind e) (xs_walletId e) (xs_intentDigest e)
       (case xs_explicitIntentId e of None \<Rightarrow> None | Some i \<Rightarrow> if i = [] then None else Some i) details now"

definition renewConfirmedExternalSubmission ::
    "string \<Rightarrow> js_object option \<Rightarrow> string \<Rightarrow> state_file \<Rightarrow> submission result \<times> state_file" where
  "renewConfirmedExternalSubmission rawKey details now file =
     (case loadSubmissions file of
        Inl e \<Rightarrow> (Inl e, file)
      | Inr entries \<Rightarrow>
        (case find (\<lambda>e. xs_key e = js_trim rawKey) entries of
           None \<Rightarrow> (Inl (Error ''only a confirmed external submission can be renewed''), file)
         | Some entry \<Rightarrow>
           if xs_state entry \<noteq> XConfirmed
           then (Inl (Error ''only a confirmed external submission can be renewed''), file)
           else (Inr (renewed_submission details now entry),
                 saveSubmissions (update_first (\<lambda>e. xs_key e = js_trim rawKey)
                                    (renewed_submission details now) entries))))"

definition execution_busy :: "string \<Rightarrow> js_error" where
  "execution_busy key = Error (''external submission '' @ key
     @ '' is already executing; wait for its durable result instead of retrying'')"

definition claimExternalSubmissionExecution ::
    "(string \<Rightarrow> string) \<Rightarrow> string \<Rightarrow> claims \<Rightarrow> string result \<times> claims" where
  "claimExternalSubmissionExecution sha rawKey c =
     (let key = js_trim rawKey; target = sha key
      in if key = [] \<or> containsControlCharacter key
         then (Inl (Error ''external submission execution key is invalid''), c)
         else if key \<in> set (active_executions c) then (Inl (execution_busy key), c)
         else if target \<in> set (lock_files c) then (Inl (execution_busy key), c)
         else (Inr key, c\<lparr>active_executions := key # active_executions c,
                          lock_files := target # lock_files c\<rparr>))"

definition releaseExternalSubmissionExecution ::
    "(string \<Rightarrow> string) \<Rightarrow> string \<Rightarrow> bool \<Rightarrow> claims \<Rightarrow> bool \<times> claims" where
  "releaseExternalSubmissionExecution sha key released c =
     (if \<not> released
      then (True, c\<lparr>active_executions := removeAll key (active_executions c),
                    lock_files := removeAll (sha key) (lock_files c)\<rparr>)
      else (True, c))"

section \<open>The operations keep the ledger readable\<close>

definition submission_wf :: "submission \<Rightarrow> bool" where
  "submission_wf e \<longleftrightarrow> is_sha256_digest (xs_intentDigest e) \<and> xs_explicitIntentId e \<noteq> Some []
     \<and> other_fields submission_fields (xs_other e) = xs_other e"

definition identity_of :: "submission \<Rightarrow> string \<times> submission_kind \<times> string \<times> string option" where
  "identity_of e = (xs_key e, xs_kind e, xs_walletId e, xs_explicitIntentId e)"

definition explicit_unique :: "(string \<times> submission_kind \<times> string \<times> string option) set \<Rightarrow> bool" where
  "explicit_unique I \<longleftrightarrow>
     (\<forall>(k, kind, w, i) \<in> I. \<forall>(k', kind', w', i') \<in> I.
        i \<noteq> None \<and> kind = kind' \<and> w = w' \<and> i = i' \<longrightarrow> k = k')"

definition submissions_wf :: "submission list \<Rightarrow> bool" where
  "submissions_wf es \<longleftrightarrow> (\<forall>e \<in> set es. submission_wf e) \<and> distinct (map xs_key es)
     \<and> explicit_unique (identity_of ` set es)"

lemma parse_kind_str [simp]: "parse_kind (kind_str k) = Some k"
  by (cases k) (simp_all add: parse_kind_def KINDS_def)

lemma parse_submission_state_str [simp]: "parse_submission_state (submission_state_str st) = Some st"
  by (cases st) (simp_all add: parse_submission_state_def submission_STATES_def)

lemma submission_object_props:
  assumes "other_fields submission_fields (xs_other e) = xs_other e"
  shows "get_prop (submission_object e) ''key'' = Some (JStr (xs_key e))"
    "get_prop (submission_object e) ''kind'' = Some (JStr (kind_str (xs_kind e)))"
    "get_prop (submission_object e) ''walletId'' = Some (JStr (xs_walletId e))"
    "get_prop (submission_object e) ''intentDigest'' = Some (JStr (xs_intentDigest e))"
    "get_prop (submission_object e) ''explicitIntentId'' = map_option JStr (xs_explicitIntentId e)"
    "get_prop (submission_object e) ''state'' = Some (JStr (submission_state_str (xs_state e)))"
    "get_prop (submission_object e) ''signerRequestId'' = map_option JStr (xs_signerRequestId e)"
    "get_prop (submission_object e) ''signerIntentDigest'' = map_option JStr (xs_signerIntentDigest e)"
    "get_prop (submission_object e) ''signerSignature'' = map_option JStr (xs_signerSignature e)"
    "get_prop (submission_object e) ''externalRequestId'' = map_option JStr (xs_externalRequestId e)"
    "get_prop (submission_object e) ''transactionDigest'' = map_option JStr (xs_transactionDigest e)"
    "get_prop (submission_object e) ''reason'' = map_option JStr (xs_reason e)"
    "get_prop (submission_object e) ''details'' = map_option JObj (xs_details e)"
    "get_prop (submission_object e) ''result'' = map_option JObj (xs_result e)"
    "get_prop (submission_object e) ''createdAt'' = Some (JStr (xs_createdAt e))"
    "get_prop (submission_object e) ''updatedAt'' = Some (JStr (xs_updatedAt e))"
    "other_fields submission_fields (submission_object e) = xs_other e"
  using assms get_prop_other [OF assms]
  by (simp_all add: submission_object_def submission_fields_def split: option.split)

lemma validateSubmission_object:
  assumes wf: "submission_wf e"
  shows "validateSubmission (JObj (submission_object e)) = Inr e"
proof -
  have other: "other_fields submission_fields (xs_other e) = xs_other e"
    and digest: "is_sha256_digest (xs_intentDigest e)" using wf by (simp_all add: submission_wf_def)
  note props = submission_object_props [OF other]
  have "first_non_string optional_string_fields (submission_object e) = None"
    by (rule first_non_string_None) (auto simp: optional_string_fields_def props)
  then show ?thesis using digest
    by (auto simp: validateSubmission_def submission_of_def props)
qed

lemma load_save_submissions [simp]:
  assumes "submissions_wf es"
  shows "loadSubmissions (saveSubmissions es) = Inr es"
proof -
  have "map_r validateSubmission (map (\<lambda>e. JObj (submission_object e)) es) = Inr es"
    using assms by (intro map_r_all_ok) (simp add: submissions_wf_def validateSubmission_object)
  then show ?thesis using assms
    by (simp add: loadSubmissions_def saveSubmissions_def submissions_wf_def)
qed

datatype submission_op =
    XBegin string submission_kind string string "string option" "js_object option" string
  | XUpdate string "submission_state list" submission_state submission_patch string
  | XRenew string "js_object option" string

fun submission_step :: "submission_op \<Rightarrow> state_file \<Rightarrow> state_file" where
  "submission_step (XBegin k kind w d x det now) f = snd (beginExternalSubmission k kind w d x det now f)"
| "submission_step (XUpdate k exps st p now) f = snd (updateExternalSubmission k exps st p now f)"
| "submission_step (XRenew k det now) f = snd (renewConfirmedExternalSubmission k det now f)"

fun submission_good :: "submission_op \<Rightarrow> bool" where
  "submission_good (XBegin k kind w d x det now) \<longleftrightarrow> is_sha256_digest d"
| "submission_good _ \<longleftrightarrow> True"

fun is_renewal :: "submission_op \<Rightarrow> bool" where
  "is_renewal (XRenew k det now) \<longleftrightarrow> True"
| "is_renewal _ \<longleftrightarrow> False"

definition submission_table :: "submission_state \<Rightarrow> submission_state \<Rightarrow> bool" where
  "submission_table s t \<longleftrightarrow> t \<in> set (submission_TRANSITIONS s)"

definition submission_allowed :: "submission_state \<Rightarrow> submission_state \<Rightarrow> bool" where
  "submission_allowed s t \<longleftrightarrow> t \<in> set (submission_TRANSITIONS s) \<or> (s = XConfirmed \<and> t = XReserved)"

definition submission_inv :: "state_file \<Rightarrow> bool" where
  "submission_inv f \<longleftrightarrow> (\<exists>es. loadSubmissions f = Inr es \<and> submissions_wf es)"

definition submission_state_of :: "state_file \<Rightarrow> string \<Rightarrow> submission_state option" where
  "submission_state_of f k =
     (case loadSubmissions f of Inl _ \<Rightarrow> None
      | Inr es \<Rightarrow> map_option xs_state (find (\<lambda>e. xs_key e = k) es))"

lemma patch_submission_fixed [simp]:
  "identity_of (patch_submission p st now e) = identity_of e"
  "xs_key (patch_submission p st now e) = xs_key e" "xs_state (patch_submission p st now e) = st"
  "submission_wf (patch_submission p st now e) = submission_wf e"
  by (simp_all add: patch_submission_def identity_of_def submission_wf_def)

lemma fresh_submission_fields [simp]:
  "identity_of (fresh_submission k kind w d x det now) = (k, kind, w, x)"
  "xs_key (fresh_submission k kind w d x det now) = k" "xs_state (fresh_submission k kind w d x det now) = XReserved"
  "submission_wf (fresh_submission k kind w d x det now) \<longleftrightarrow> is_sha256_digest d \<and> x \<noteq> Some []"
  by (simp_all add: fresh_submission_def identity_of_def submission_wf_def)

lemma renewed_submission_fixed:
  assumes "submission_wf e"
  shows "identity_of (renewed_submission det now e) = identity_of e"
    "xs_key (renewed_submission det now e) = xs_key e" "xs_state (renewed_submission det now e) = XReserved"
    "submission_wf (renewed_submission det now e)"
  using assms by (auto simp: renewed_submission_def identity_of_def submission_wf_def fresh_submission_def
      split: option.splits)

lemma submissions_wf_update:
  assumes wf: "submissions_wf es"
    and g: "\<And>x. x \<in> set es \<Longrightarrow> identity_of (g x) = identity_of x \<and> submission_wf (g x)"
  shows "submissions_wf (update_first q g es)"
proof -
  have "map identity_of (update_first q g es) = map identity_of es"
    by (rule map_update_first_on) (use g in simp)
  then have ids: "identity_of ` set (update_first q g es) = identity_of ` set es"
    by (metis list.set_map)
  have "map xs_key (update_first q g es) = map xs_key es"
    by (rule map_update_first_on) (use g in \<open>auto simp: identity_of_def\<close>)
  moreover have "\<forall>x \<in> set (update_first q g es). submission_wf x"
    by (rule update_first_ball_on) (use wf g in \<open>auto simp: submissions_wf_def\<close>)
  ultimately show ?thesis using wf ids by (simp add: submissions_wf_def)
qed

lemma submissions_wf_append:
  assumes wf: "submissions_wf es" and e: "submission_wf e"
    and key: "find (\<lambda>x. xs_key x = xs_key e) es = None"
    and expl: "\<And>i. xs_explicitIntentId e = Some i \<Longrightarrow> find (same_explicit (xs_kind e) (xs_walletId e) i) es = None"
  shows "submissions_wf (es @ [e])"
proof -
  have "xs_key e \<notin> xs_key ` set es" using find_NoneD [OF key] by force
  moreover have "explicit_unique (identity_of ` set (es @ [e]))"
    using wf find_NoneD [OF expl]
    by (fastforce simp: submissions_wf_def explicit_unique_def identity_of_def same_explicit_def)
  ultimately show ?thesis using wf e by (simp add: submissions_wf_def)
qed

text \<open>What a step does to the file: nothing, one appended entry, or one rewritten entry.\<close>

definition submission_effect ::
    "(submission_state \<Rightarrow> submission_state \<Rightarrow> bool) \<Rightarrow> state_file \<Rightarrow> state_file \<Rightarrow> bool" where
  "submission_effect A f f' \<longleftrightarrow> f' = f
     \<or> (\<exists>es e. loadSubmissions f = Inr es \<and> find (\<lambda>x. xs_key x = xs_key e) es = None
          \<and> xs_state e = XReserved \<and> submissions_wf (es @ [e]) \<and> f' = saveSubmissions (es @ [e]))
     \<or> (\<exists>es e k g. loadSubmissions f = Inr es \<and> find (\<lambda>x. xs_key x = k) es = Some e
          \<and> A (xs_state e) (xs_state (g e))
          \<and> (\<forall>x \<in> set es. xs_key (g x) = xs_key x)
          \<and> submissions_wf (update_first (\<lambda>x. xs_key x = k) g es)
          \<and> f' = saveSubmissions (update_first (\<lambda>x. xs_key x = k) g es))"

lemma begin_submission_effect:
  assumes inv: "submission_inv f" and d: "is_sha256_digest d"
  shows "submission_effect A f (snd (beginExternalSubmission k kind w d x det now f))"
proof -
  obtain es where load: "loadSubmissions f = Inr es" and wf: "submissions_wf es"
    using inv by (auto simp: submission_inv_def)
  let ?e = "fresh_submission (js_trim k) kind (js_trim w) d (trim_or_undef x) det now"
  show ?thesis
  proof (cases "find (\<lambda>e. xs_key e = js_trim k) es = None
      \<and> (case trim_or_undef x of None \<Rightarrow> True | Some i \<Rightarrow> find (same_explicit kind (js_trim w) i) es = None)")
    case True
    have "submissions_wf (es @ [?e])"
    proof (rule submissions_wf_append [OF wf])
      show "submission_wf ?e" using d trim_or_undef_Some [of x "[]"] by auto
      show "find (same_explicit (xs_kind ?e) (xs_walletId ?e) i) es = None" if "xs_explicitIntentId ?e = Some i" for i
        using True that by (simp add: fresh_submission_def)
    qed (use True in simp)
    moreover have "snd (beginExternalSubmission k kind w d x det now f) = saveSubmissions (es @ [?e])"
      using True load by (auto simp: beginExternalSubmission_def Let_def split: option.splits)
    moreover have "find (\<lambda>x. xs_key x = xs_key ?e) es = None" using True by simp
    ultimately show ?thesis unfolding submission_effect_def using load
      by (intro disjI2 disjI1 exI [of _ es] exI [of _ ?e]) simp
  next
    case False
    then have "snd (beginExternalSubmission k kind w d x det now f) = f"
      using load by (auto simp: beginExternalSubmission_def Let_def split: option.splits)
    then show ?thesis by (simp add: submission_effect_def)
  qed
qed

lemma rewrite_submission_effect:
  assumes "loadSubmissions f = Inr es" and wf: "submissions_wf es" and "find (\<lambda>x. xs_key x = k) es = Some e"
    and "A (xs_state e) (xs_state (g e))"
    and g: "\<And>x. x \<in> set es \<Longrightarrow> identity_of (g x) = identity_of x \<and> submission_wf (g x)"
  shows "submission_effect A f (saveSubmissions (update_first (\<lambda>x. xs_key x = k) g es))"
proof -
  have "submissions_wf (update_first (\<lambda>x. xs_key x = k) g es)" by (rule submissions_wf_update [OF wf g])
  moreover have "\<forall>x \<in> set es. xs_key (g x) = xs_key x" using g by (auto simp: identity_of_def)
  ultimately show ?thesis unfolding submission_effect_def using assms by blast
qed

lemma submission_step_effect:
  assumes inv: "submission_inv f" and good: "submission_good c"
    and table: "\<And>s t. t \<in> set (submission_TRANSITIONS s) \<Longrightarrow> A s t"
    and renew: "is_renewal c \<Longrightarrow> A XConfirmed XReserved"
  shows "submission_effect A f (submission_step c f)"
proof -
  obtain es where load: "loadSubmissions f = Inr es" and wf: "submissions_wf es"
    using inv by (auto simp: submission_inv_def)
  have each: "submission_wf x" if "x \<in> set es" for x using wf that by (simp add: submissions_wf_def)
  show ?thesis
  proof (cases c)
    case (XBegin k kind w d x det now)
    then show ?thesis using begin_submission_effect [OF inv] good by simp
  next
    case (XUpdate k exps st p now)
    have "submission_step c f = f \<or> (\<exists>e. find (\<lambda>x. xs_key x = js_trim k) es = Some e
        \<and> A (xs_state e) st
        \<and> submission_step c f = saveSubmissions (update_first (\<lambda>x. xs_key x = js_trim k) (patch_submission p st now) es))"
      using load XUpdate table by (auto simp: updateExternalSubmission_def split: option.splits)
    then show ?thesis
      using rewrite_submission_effect [OF load wf, of "js_trim k" _ A "patch_submission p st now"] each
      by (auto simp: submission_effect_def [of A f f])
  next
    case (XRenew k det now)
    have "submission_step c f = f \<or> (\<exists>e. find (\<lambda>x. xs_key x = js_trim k) es = Some e \<and> xs_state e = XConfirmed
        \<and> submission_step c f = saveSubmissions (update_first (\<lambda>x. xs_key x = js_trim k) (renewed_submission det now) es))"
      using load XRenew by (auto simp: renewConfirmedExternalSubmission_def split: option.splits)
    then show ?thesis
      using rewrite_submission_effect [OF load wf, of "js_trim k" _ A "renewed_submission det now"] each
        find_SomeD renewed_submission_fixed renew XRenew
      by (fastforce simp: submission_effect_def [of A f f])
  qed
qed

lemma submission_effect_inv: "submission_inv f \<Longrightarrow> submission_effect A f f' \<Longrightarrow> submission_inv f'"
  by (auto simp: submission_effect_def submission_inv_def)

lemma submission_effect_state:
  assumes "submission_effect A f f'"
  shows "submission_state_of f' k = submission_state_of f k
    \<or> (submission_state_of f k = None \<and> submission_state_of f' k = Some XReserved)
    \<or> (\<exists>s t. submission_state_of f k = Some s \<and> A s t \<and> submission_state_of f' k = Some t)"
  using assms unfolding submission_effect_def
proof (elim disjE exE conjE)
  fix es e
  assume "loadSubmissions f = Inr es" "xs_state e = XReserved" "submissions_wf (es @ [e])"
    "f' = saveSubmissions (es @ [e])"
  then show ?thesis by (auto simp: submission_state_of_def find_append split: option.splits if_splits)
next
  fix es e k' g
  assume load: "loadSubmissions f = Inr es" and e: "find (\<lambda>x. xs_key x = k') es = Some e"
    and allowed: "A (xs_state e) (xs_state (g e))"
    and key: "\<forall>x \<in> set es. xs_key (g x) = xs_key x"
    and wf: "submissions_wf (update_first (\<lambda>x. xs_key x = k') g es)"
    and f': "f' = saveSubmissions (update_first (\<lambda>x. xs_key x = k') g es)"
  have find: "find (\<lambda>x. xs_key x = k) (update_first (\<lambda>x. xs_key x = k') g es) =
      (if k = k' then Some (g e) else find (\<lambda>x. xs_key x = k) es)"
    using e key by (induction es) (auto split: if_splits)
  show ?thesis using load e allowed wf f' by (auto simp: submission_state_of_def find)
qed simp

text \<open>The contract holds with the renewal as an extra transition, and without it when nothing renews.\<close>

interpretation submission_ledger: state_ledger submission_state_of submission_step submission_allowed
    submission_inv submission_good "\<lambda>s. s = XReserved"
proof
  fix f c k s t
  assume pre: "submission_inv f" "submission_good c"
  have effect: "submission_effect submission_allowed f (submission_step c f)"
    by (rule submission_step_effect [OF pre]) (simp_all add: submission_allowed_def)
  show "submission_inv (submission_step c f)" using pre(1) effect by (rule submission_effect_inv)
  show "\<exists>t. submission_state_of (submission_step c f) k = Some t \<and> (t = s \<or> submission_allowed s t)"
    if "submission_state_of f k = Some s"
    using submission_effect_state [OF effect, of k] that by auto
  show "t = XReserved"
    if "submission_state_of f k = None" "submission_state_of (submission_step c f) k = Some t"
    using submission_effect_state [OF effect, of k] that by auto
qed

interpretation submission_table_ledger: state_ledger submission_state_of submission_step submission_table
    submission_inv "\<lambda>c. submission_good c \<and> \<not> is_renewal c" "\<lambda>s. s = XReserved"
proof
  fix f c k s t
  assume pre: "submission_inv f" "submission_good c \<and> \<not> is_renewal c"
  have effect: "submission_effect submission_table f (submission_step c f)"
    by (rule submission_step_effect) (use pre in \<open>simp_all add: submission_table_def\<close>)
  show "submission_inv (submission_step c f)" using pre(1) effect by (rule submission_effect_inv)
  show "\<exists>t. submission_state_of (submission_step c f) k = Some t \<and> (t = s \<or> submission_table s t)"
    if "submission_state_of f k = Some s"
    using submission_effect_state [OF effect, of k] that by auto
  show "t = XReserved"
    if "submission_state_of f k = None" "submission_state_of (submission_step c f) k = Some t"
    using submission_effect_state [OF effect, of k] that by auto
qed

lemma submission_inv_empty: "submission_inv NoFile"
  by (simp add: submission_inv_def loadSubmissions_def submissions_wf_def explicit_unique_def)

section \<open>Keys identify submissions\<close>

lemma append_sep_unique:
  assumes "c \<notin> set a" "c \<notin> set a'" "a @ [c] @ b = a' @ [c] @ b'"
  shows "a = a' \<and> b = b'"
  using assms
proof (induction a arbitrary: a')
  case Nil
  then show ?case by (cases a') auto
next
  case (Cons x a)
  then show ?case by (cases a') auto
qed

lemma sep_append_unique:
  assumes "c \<notin> set b" "c \<notin> set b'" "a @ [c] @ b = a' @ [c] @ b'"
  shows "a = a' \<and> b = b'"
proof -
  have "rev b @ [c] @ rev a = rev b' @ [c] @ rev a'"
    using arg_cong [OF assms(3), of rev] by simp
  then show ?thesis using append_sep_unique [of c "rev b" "rev b'" "rev a" "rev a'"] assms by simp
qed

lemma kind_str_no_NUL: "NUL \<notin> set (kind_str k)"
  by (cases k) (simp_all add: NUL_def)

lemma kind_str_inject: "kind_str k = kind_str k' \<Longrightarrow> k = k'"
  by (metis option.inject parse_kind_str)

lemma lower_hex_not_NUL: "list_all is_lower_hex s \<Longrightarrow> NUL \<notin> set s"
  by (auto simp: list_all_iff is_lower_hex_def NUL_def Let_def dest: bspec)

lemma no_control_no_NUL: "\<not> containsControlCharacter s \<Longrightarrow> NUL \<notin> set s"
  by (induction s) (auto simp: NUL_def)

lemma digest_no_NUL: "is_sha256_digest d \<Longrightarrow> NUL \<notin> set d"
proof -
  assume d: "is_sha256_digest d"
  then have "NUL \<notin> set (drop 7 d)" using lower_hex_not_NUL by (simp add: is_sha256_digest_def)
  moreover have "NUL \<notin> set (take 7 d)" using d by (simp add: is_sha256_digest_def NUL_def)
  ultimately show ?thesis by (metis UnE append_take_drop_id set_append)
qed

lemma kind_colon_inject: "kind_str k @ '':'' @ a = kind_str k' @ '':'' @ b \<Longrightarrow> k = k' \<and> a = b"
proof -
  have colon: "CHR '':'' \<notin> set (kind_str k)" for k by (cases k) simp_all
  assume "kind_str k @ '':'' @ a = kind_str k' @ '':'' @ b"
  from append_sep_unique [OF colon colon this] show ?thesis using kind_str_inject by blast
qed

lemma default_no_NUL: "NUL \<notin> set ''default''"
  by (simp add: NUL_def)

lemma key_preimage_inject:
  assumes "key_preimage k w d x = key_preimage k' w' d' x'"
    and "NUL \<notin> set d" "NUL \<notin> set d'"
    and "NUL \<notin> set (case x of None \<Rightarrow> ''default'' | Some i \<Rightarrow> i)" "NUL \<notin> set (case x' of None \<Rightarrow> ''default'' | Some i \<Rightarrow> i)"
  shows "k = k' \<and> w = w' \<and> d = d'
    \<and> (case x of None \<Rightarrow> ''default'' | Some i \<Rightarrow> i) = (case x' of None \<Rightarrow> ''default'' | Some i \<Rightarrow> i)"
proof -
  let ?x = "case x of None \<Rightarrow> ''default'' | Some i \<Rightarrow> i" and ?x' = "case x' of None \<Rightarrow> ''default'' | Some i \<Rightarrow> i"
  have "kind_str k @ [NUL] @ (w @ [NUL] @ d @ [NUL] @ ?x) = kind_str k' @ [NUL] @ (w' @ [NUL] @ d' @ [NUL] @ ?x')"
    using assms(1) by (simp add: key_preimage_def)
  from append_sep_unique [OF kind_str_no_NUL kind_str_no_NUL this]
  have k: "k = k'" and "(w @ [NUL] @ d) @ [NUL] @ ?x = (w' @ [NUL] @ d') @ [NUL] @ ?x'"
    by (auto intro: kind_str_inject)
  from sep_append_unique [OF assms(4,5) this(2)]
  have "w @ [NUL] @ d = w' @ [NUL] @ d'" and x: "?x = ?x'" by auto
  from sep_append_unique [OF assms(2,3) this(1)] k x show ?thesis by simp
qed

section \<open>Properties\<close>

lemma submission_final: "s \<in> {XFailed} \<Longrightarrow> submission_allowed s t \<Longrightarrow> t = s"
  by (auto simp: submission_allowed_def)

lemma submission_table_final: "s \<in> {XConfirmed, XFailed} \<Longrightarrow> submission_table s t \<Longrightarrow> t = s"
  by (auto simp: submission_table_def)

definition empty_submission_patch :: submission_patch where
  "empty_submission_patch = \<lparr>xp_signerRequestId = None, xp_signerIntentDigest = None, xp_signerSignature = None,
     xp_externalRequestId = None, xp_transactionDigest = None, xp_reason = None, xp_details = None, xp_result = None\<rparr>"

definition sample_submission_run :: "submission_op list" where
  "sample_submission_run = [XBegin ''k'' JupiterSwap ''w'' zero_digest (Some '' swap-1'') None ''t0'',
     XUpdate ''k'' [XReserved] XSubmitting empty_submission_patch ''t1'',
     XUpdate ''k'' [XSubmitting] XConfirmed empty_submission_patch ''t2'']"

lemma sample_submission_run_good: "list_all (\<lambda>c. submission_good c \<and> \<not> is_renewal c) sample_submission_run"
  by (simp add: sample_submission_run_def)

text \<open>
  Starting without a file, any sequence of begin, update and renew calls whose begins carry a
  well-formed digest leaves a ledger that the loader accepts, where the keys are distinct and no
  explicit intent id is bound to two entries of the same kind and wallet.
\<close>

theorem submission_ledger_readable:
  assumes "list_all submission_good cs"
  shows "\<exists>es. loadSubmissions (fold submission_step cs NoFile) = Inr es \<and> distinct (map xs_key es)
    \<and> (\<forall>a \<in> set es. \<forall>b \<in> set es. \<forall>i. same_explicit (xs_kind a) (xs_walletId a) i a
         \<and> same_explicit (xs_kind a) (xs_walletId a) i b \<longrightarrow> a = b)"
proof -
  obtain es where es: "loadSubmissions (fold submission_step cs NoFile) = Inr es" "submissions_wf es"
    using submission_ledger.run_inv [OF submission_inv_empty assms] by (auto simp: submission_inv_def)
  have key: "a = b" if "a \<in> set es" "b \<in> set es" "xs_key a = xs_key b" for a b
    using es(2) that by (auto simp: submissions_wf_def distinct_map inj_on_def)
  have "a = b" if ab: "a \<in> set es" "b \<in> set es"
    and same: "same_explicit (xs_kind a) (xs_walletId a) i a" "same_explicit (xs_kind a) (xs_walletId a) i b" for a b i
  proof -
    have "explicit_unique (identity_of ` set es)" using es(2) by (simp add: submissions_wf_def)
    moreover have "identity_of a \<in> identity_of ` set es" "identity_of b \<in> identity_of ` set es"
      using ab by simp_all
    ultimately have "xs_key a = xs_key b"
      using same by (simp only: explicit_unique_def identity_of_def same_explicit_def) fastforce
    then show ?thesis by (rule key [OF ab])
  qed
  then show ?thesis using es by (auto simp: submissions_wf_def)
qed

theorem submission_ledger_readable_witness:
  "\<exists>es. loadSubmissions (fold submission_step sample_submission_run NoFile) = Inr es \<and> distinct (map xs_key es)"
  using submission_ledger_readable [of sample_submission_run] by (auto simp: sample_submission_run_def)

text \<open>
  A failed submission stays failed in every run, and a confirmed one stays confirmed until it is
  renewed: updates and repeated begins never move either, so no outcome is forgotten or overwritten.
\<close>

theorem submission_outcome_final:
  assumes "submission_inv f" and "list_all submission_good cs"
    and "submission_state_of f k = Some s" and "s = XFailed \<or> s = XConfirmed \<and> \<not> list_ex is_renewal cs"
  shows "submission_state_of (fold submission_step cs f) k = Some s"
proof (cases "s = XFailed")
  case True
  then show ?thesis using submission_ledger.run_final [OF assms(1-3)] submission_final by blast
next
  case False
  then have "s = XConfirmed" and "list_all (\<lambda>c. submission_good c \<and> \<not> is_renewal c) cs"
    using assms(2,4) by (auto simp: list_all_iff list_ex_iff)
  then show ?thesis using submission_table_ledger.run_final [OF assms(1) _ assms(3)] submission_table_final
    by blast
qed

theorem submission_outcome_final_witness:
  "submission_state_of (fold submission_step [XUpdate ''k'' [XConfirmed] XFailed empty_submission_patch ''t3'']
     (fold submission_step sample_submission_run NoFile)) ''k'' = Some XConfirmed"
proof (rule submission_outcome_final)
  show "submission_inv (fold submission_step sample_submission_run NoFile)"
    by (rule submission_table_ledger.run_inv) (simp_all add: submission_inv_empty sample_submission_run_good)
  show "submission_state_of (fold submission_step sample_submission_run NoFile) ''k'' = Some XConfirmed"
    by code_simp
qed simp_all

text \<open>
  Two accepted requests get the same idempotency key exactly when they agree on the kind, the
  trimmed wallet, the digest of the intent and the trimmed intent id, where an absent or blank intent
  id counts as \<open>default\<close>. Assumed: SHA-256 gives 64 lower-case hexadecimal digits and does not
  collide on the two hashed texts.
\<close>

theorem submission_key_identity:
  assumes a: "createExternalSubmissionKey sha num kind w v x = Inr (key, d, i)"
    and b: "createExternalSubmissionKey sha num kind' w' v' x' = Inr (key', d', i')"
    and hex: "\<And>s. list_all is_lower_hex (sha s) \<and> length (sha s) = 64"
    and inj: "inj_on sha {key_preimage kind (js_trim w) d i, key_preimage kind' (js_trim w') d' i'}"
  shows "key = key' \<longleftrightarrow> kind = kind' \<and> js_trim w = js_trim w' \<and> d = d'
    \<and> (case i of None \<Rightarrow> ''default'' | Some s \<Rightarrow> s) = (case i' of None \<Rightarrow> ''default'' | Some s \<Rightarrow> s)"
proof -
  have id: "NUL \<notin> set (case i of None \<Rightarrow> ''default'' | Some s \<Rightarrow> s) \<and> is_sha256_digest d
      \<and> key = kind_str kind @ '':'' @ sha (key_preimage kind (js_trim w) d i)"
    if "createExternalSubmissionKey sha num kind w v x = Inr (key, d, i)" for kind w v x key d i
    using that hex
    by (auto simp: createExternalSubmissionKey_def externalSubmissionIntentDigest_def Let_def bind_r_eq_Inr
        is_sha256_digest_def no_control_no_NUL default_no_NUL [simplified] split: if_splits option.splits)
  let ?p = "key_preimage kind (js_trim w) d i" and ?p' = "key_preimage kind' (js_trim w') d' i'"
  have key: "key = kind_str kind @ '':'' @ sha ?p" "key' = kind_str kind' @ '':'' @ sha ?p'"
    using id [OF a] id [OF b] by simp_all
  have "sha ?p = sha ?p' \<longleftrightarrow> ?p = ?p'" using inj by (rule inj_on_eq_iff) simp_all
  then have "key = key' \<longleftrightarrow> ?p = ?p' \<and> kind = kind'"
    unfolding key by (metis kind_colon_inject)
  also have "\<dots> \<longleftrightarrow> kind = kind' \<and> js_trim w = js_trim w' \<and> d = d'
      \<and> (case i of None \<Rightarrow> ''default'' | Some s \<Rightarrow> s) = (case i' of None \<Rightarrow> ''default'' | Some s \<Rightarrow> s)"
  proof
    assume "?p = ?p' \<and> kind = kind'"
    then show "kind = kind' \<and> js_trim w = js_trim w' \<and> d = d'
      \<and> (case i of None \<Rightarrow> ''default'' | Some s \<Rightarrow> s) = (case i' of None \<Rightarrow> ''default'' | Some s \<Rightarrow> s)"
      using id [OF a] id [OF b] by (intro key_preimage_inject) (auto dest: digest_no_NUL)
  qed (simp add: key_preimage_def)
  finally show ?thesis .
qed

definition sample_sha :: "string \<Rightarrow> string" where
  "sample_sha s = replicate 64 (if CHR ''v'' \<in> set s then CHR ''1'' else CHR ''0'')"

theorem submission_key_identity_witness:
  "createExternalSubmissionKey sample_sha (\<lambda>_. []) JupiterSwap '' w'' JNull None
     \<noteq> createExternalSubmissionKey sample_sha (\<lambda>_. []) JupiterSwap ''v'' JNull (Some ''  '')"
proof -
  have a: "createExternalSubmissionKey sample_sha (\<lambda>_. []) JupiterSwap '' w'' JNull None
      = Inr (''jupiter-swap:'' @ replicate 64 (CHR ''0''), zero_digest, None)"
    and b: "createExternalSubmissionKey sample_sha (\<lambda>_. []) JupiterSwap ''v'' JNull (Some ''  '')
      = Inr (''jupiter-swap:'' @ replicate 64 (CHR ''1''), zero_digest, None)"
    by code_simp+
  have "inj_on sample_sha {key_preimage JupiterSwap (js_trim '' w'') zero_digest None,
      key_preimage JupiterSwap (js_trim ''v'') zero_digest None}"
    by code_simp
  moreover have "list_all is_lower_hex (sample_sha s) \<and> length (sample_sha s) = 64" for s
    by (simp add: sample_sha_def is_lower_hex_def list_all_iff)
  ultimately have "''jupiter-swap:'' @ replicate 64 (CHR ''0'') \<noteq> ''jupiter-swap:'' @ replicate 64 (CHR ''1'')"
    using submission_key_identity [OF a b] by (simp add: js_trim_def js_space_def)
  then show ?thesis by (simp add: a b)
qed

text \<open>
  A request without an intent id and one whose intent id is the word \<open>default\<close> get the same key, so
  after the first is recorded a begin of the second is refused as a collision.
\<close>

theorem submission_default_collision:
  assumes a: "createExternalSubmissionKey sha num kind w v None = Inr (key, d, None)"
    and fresh: "submission_inv f" "getExternalSubmission key f = Inr None"
    and key: "js_trim key = key"
  shows "createExternalSubmissionKey sha num kind w v (Some ''default'') = Inr (key, d, Some ''default'')
    \<and> (let f' = snd (beginExternalSubmission key kind w d None det now f) in
       is_sha256_digest d \<longrightarrow> beginExternalSubmission key kind w d (Some ''default'') det' now' f' =
         (Inl (Error ''external submission idempotency key collides with a different intent''), f'))"
proof -
  have trim: "js_trim ''default'' = ''default''" by (simp add: js_trim_def js_space_def)
  obtain es where load: "loadSubmissions f = Inr es" and wf: "submissions_wf es"
    and none: "find (\<lambda>e. xs_key e = key) es = None"
    using fresh key by (auto simp: submission_inv_def getExternalSubmission_def)
  let ?e = "fresh_submission key kind (js_trim w) d None det now"
  have begin_first: "beginExternalSubmission key kind w d None det now f = (Inr (?e, True), saveSubmissions (es @ [?e]))"
    using load none key by (simp add: beginExternalSubmission_def trim_or_undef_def Let_def)
  have wf': "submissions_wf (es @ [?e])" if "is_sha256_digest d"
    by (rule submissions_wf_append [OF wf]) (use that none in \<open>simp_all add: fresh_submission_def submission_wf_def\<close>)
  show ?thesis using a wf' none key
    by (simp add: createExternalSubmissionKey_def key_preimage_def trim trim_or_undef_def begin_first
        beginExternalSubmission_def [of _ _ _ _ "Some x" for x] find_append fresh_submission_def Let_def bind_r_eq_Inr
        split: if_splits)
qed

theorem submission_default_collision_witness:
  "fst (beginExternalSubmission (''jupiter-swap:'' @ replicate 64 (CHR ''0'')) JupiterSwap ''w'' zero_digest (Some ''default'') None ''t1''
      (snd (beginExternalSubmission (''jupiter-swap:'' @ replicate 64 (CHR ''0'')) JupiterSwap ''w'' zero_digest None None ''t0'' NoFile)))
   = Inl (Error ''external submission idempotency key collides with a different intent'')"
proof -
  let ?k = "''jupiter-swap:'' @ replicate 64 (CHR ''0'')"
  have key: "createExternalSubmissionKey sample_sha (\<lambda>_. []) JupiterSwap ''w'' JNull None = Inr (?k, zero_digest, None)"
    and get: "getExternalSubmission ?k NoFile = Inr None" and trim: "js_trim ?k = ?k"
    by code_simp+
  from submission_default_collision [OF key submission_inv_empty get trim, of None "''t0''" None "''t1''"]
  show ?thesis by (simp add: Let_def)
qed

text \<open>
  Begin does not check the digest it is given: a begin with a new key and a digest that is not
  \<open>sha256:\<close> and 64 hexadecimal digits reports success, and from then on every operation refuses the
  file.
\<close>

theorem submission_bad_digest_poisons:
  assumes "submission_inv f" and "getExternalSubmission k f = Inr None" and "\<not> is_sha256_digest d"
  shows "\<exists>e f'. beginExternalSubmission k kind w d None det now f = (Inr (e, True), f')
    \<and> loadSubmissions f' = Inl (Error ''external submission ledger contains an invalid intent digest'')
    \<and> submission_step c f' = f'"
proof -
  obtain es where load: "loadSubmissions f = Inr es" and wf: "submissions_wf es"
    and none: "find (\<lambda>e. xs_key e = js_trim k) es = None"
    using assms by (auto simp: submission_inv_def getExternalSubmission_def)
  let ?e = "fresh_submission (js_trim k) kind (js_trim w) d None det now"
  let ?m = "Error ''external submission ledger contains an invalid intent digest''"
  have other: "other_fields submission_fields (xs_other ?e) = xs_other ?e" by (simp add: fresh_submission_def)
  have reserved: "parse_submission_state ''reserved'' = Some XReserved" by code_simp
  have bad: "validateSubmission (JObj (submission_object ?e)) = Inl ?m"
    using assms(3) reserved
    by (simp add: validateSubmission_def submission_object_props [OF other]) (simp add: fresh_submission_def)
  have "map_r validateSubmission (map (\<lambda>e. JObj (submission_object e)) (es @ [?e])) = Inl ?m"
    if "\<forall>e \<in> set es. submission_wf e" for es
    using that bad by (induction es) (auto simp: validateSubmission_object)
  then have unreadable: "loadSubmissions (saveSubmissions (es @ [?e])) = Inl ?m"
    using wf by (simp add: loadSubmissions_def saveSubmissions_def submissions_wf_def)
  have "beginExternalSubmission k kind w d None det now f = (Inr (?e, True), saveSubmissions (es @ [?e]))"
    using load none by (simp add: beginExternalSubmission_def Let_def trim_or_undef_def)
  moreover have "submission_step c (saveSubmissions (es @ [?e])) = saveSubmissions (es @ [?e])"
    using unreadable by (cases c) (simp_all add: beginExternalSubmission_def updateExternalSubmission_def
        renewConfirmedExternalSubmission_def)
  ultimately show ?thesis using unreadable by blast
qed

theorem submission_bad_digest_poisons_witness:
  "\<exists>e f'. beginExternalSubmission ''k'' JupiterSwap ''w'' ''sha256:FF'' None None ''t0'' NoFile = (Inr (e, True), f')
    \<and> loadSubmissions f' = Inl (Error ''external submission ledger contains an invalid intent digest'')
    \<and> submission_step (XRenew ''k'' None ''t1'') f' = f'"
  by (rule submission_bad_digest_poisons)
    (simp_all add: submission_inv_empty getExternalSubmission_def loadSubmissions_def is_sha256_digest_def)

end
