(* ===== verification/SettlementLedger.thy ===== *)
theory SettlementLedger
  imports LedgerContract CanonicalJson
begin

text \<open>
  \<open>src/federation/marketplace-settlement-ledger.ts\<close>: one file per marketplace order with the
  monetary actions taken on it (direct payment, escrow funding, release, refund, cancellation), the
  state of each and the phase of the whole settlement. The directory is a function from the digest
  of the order id, which names the file, to the file. \<open>sha\<close> stands for the hexadecimal SHA-256,
  \<open>num\<close> for the text of a number in JSON.
\<close>

section \<open>Data\<close>

datatype settlement_action = Direct | Fund | Release | Refund | Cancel

fun action_str :: "settlement_action \<Rightarrow> string" where
  "action_str Direct = ''direct''"
| "action_str Fund = ''fund''"
| "action_str Release = ''release''"
| "action_str Refund = ''refund''"
| "action_str Cancel = ''cancel''"

definition ACTIONS :: "settlement_action list" where
  "ACTIONS = [Direct, Fund, Release, Refund, Cancel]"

datatype action_state = AReserved | APending | AUnknown | AExecuted | AEvidencePending | AComplete | AFailed

fun action_state_str :: "action_state \<Rightarrow> string" where
  "action_state_str AReserved = ''reserved''"
| "action_state_str APending = ''pending''"
| "action_state_str AUnknown = ''unknown''"
| "action_state_str AExecuted = ''executed''"
| "action_state_str AEvidencePending = ''evidence_pending''"
| "action_state_str AComplete = ''complete''"
| "action_state_str AFailed = ''failed''"

definition ACTION_STATES :: "action_state list" where
  "ACTION_STATES = [AReserved, APending, AUnknown, AExecuted, AEvidencePending, AComplete, AFailed]"

datatype phase = POpen | DirectPending | DirectUnknown | DirectPaid | DirectEvidencePending | DirectSettled
  | FundPending | FundUnknown | Held | ReleasePending | ReleaseUnknown | Released
  | RefundPending | RefundUnknown | Refunded | Cancelled

fun phase_str :: "phase \<Rightarrow> string" where
  "phase_str POpen = ''open''"
| "phase_str DirectPending = ''direct_pending''"
| "phase_str DirectUnknown = ''direct_unknown''"
| "phase_str DirectPaid = ''direct_paid''"
| "phase_str DirectEvidencePending = ''direct_evidence_pending''"
| "phase_str DirectSettled = ''direct_settled''"
| "phase_str FundPending = ''fund_pending''"
| "phase_str FundUnknown = ''fund_unknown''"
| "phase_str Held = ''held''"
| "phase_str ReleasePending = ''release_pending''"
| "phase_str ReleaseUnknown = ''release_unknown''"
| "phase_str Released = ''released''"
| "phase_str RefundPending = ''refund_pending''"
| "phase_str RefundUnknown = ''refund_unknown''"
| "phase_str Refunded = ''refunded''"
| "phase_str Cancelled = ''cancelled''"

definition PHASES :: "phase list" where
  "PHASES = [POpen, DirectPending, DirectUnknown, DirectPaid, DirectEvidencePending, DirectSettled,
     FundPending, FundUnknown, Held, ReleasePending, ReleaseUnknown, Released,
     RefundPending, RefundUnknown, Refunded, Cancelled]"

definition parse_action :: "string \<Rightarrow> settlement_action option" where
  "parse_action s = find (\<lambda>a. action_str a = s) ACTIONS"

definition parse_action_state :: "string \<Rightarrow> action_state option" where
  "parse_action_state s = find (\<lambda>st. action_state_str st = s) ACTION_STATES"

definition parse_phase :: "string \<Rightarrow> phase option" where
  "parse_phase s = find (\<lambda>p. phase_str p = s) PHASES"

fun STATE_TRANSITIONS :: "action_state \<Rightarrow> action_state list" where
  "STATE_TRANSITIONS AReserved = [AReserved, APending, AUnknown, AComplete, AFailed]"
| "STATE_TRANSITIONS APending = [APending, AUnknown, AExecuted, AComplete, AFailed]"
| "STATE_TRANSITIONS AUnknown = [AUnknown, AExecuted, AComplete, AFailed]"
| "STATE_TRANSITIONS AExecuted = [AExecuted, AEvidencePending, AComplete]"
| "STATE_TRANSITIONS AEvidencePending = [AEvidencePending, AComplete]"
| "STATE_TRANSITIONS AComplete = [AComplete]"
| "STATE_TRANSITIONS AFailed = [AFailed, APending]"

record action_record =
  ar_intentDigest :: string
  ar_executionIntentId :: string
  ar_state :: action_state
  ar_requestId :: "string option"
  ar_txHash :: "string option"
  ar_evidenceRef :: "string option"
  ar_reason :: "string option"
  ar_createdAt :: string
  ar_updatedAt :: string
  ar_other :: js_object

record settlement_entry =
  st_orderId :: string
  st_phase :: phase
  st_actions :: "(settlement_action \<times> action_record) list"
  st_createdAt :: string
  st_updatedAt :: string
  st_other :: js_object

type_synonym settlement_dir = "string \<Rightarrow> state_file"

definition marketplaceSettlementIntentDigest ::
    "(string \<Rightarrow> string) \<Rightarrow> (js_number \<Rightarrow> string) \<Rightarrow> json \<Rightarrow> string result" where
  "marketplaceSettlementIntentDigest sha num intent =
     bind_r (canonicalJson ''marketplace settlement'' num intent) (\<lambda>s. Inr (''sha256:'' @ sha s))"

section \<open>Reading and writing the file of an order\<close>

definition action_fields :: "string list" where
  "action_fields = [''action'', ''intentDigest'', ''executionIntentId'', ''state'', ''requestId'',
     ''txHash'', ''evidenceRef'', ''reason'', ''createdAt'', ''updatedAt'']"

definition settlement_fields :: "string list" where
  "settlement_fields = [''version'', ''orderId'', ''phase'', ''actions'', ''createdAt'', ''updatedAt'']"

definition action_of :: "js_object \<Rightarrow> action_state \<Rightarrow> action_record" where
  "action_of kvs st =
     (let str = (\<lambda>k. the_string (get_prop kvs k)); opt = (\<lambda>k. opt_string (get_prop kvs k))
      in \<lparr>ar_intentDigest = str ''intentDigest'', ar_executionIntentId = str ''executionIntentId'',
          ar_state = st, ar_requestId = opt ''requestId'', ar_txHash = opt ''txHash'',
          ar_evidenceRef = opt ''evidenceRef'', ar_reason = opt ''reason'',
          ar_createdAt = str ''createdAt'', ar_updatedAt = str ''updatedAt'',
          ar_other = other_fields action_fields kvs\<rparr>)"

definition validateAction :: "string \<times> json \<Rightarrow> (settlement_action \<times> action_record) result" where
  "validateAction kv =
     (case (parse_action (fst kv), as_record (Some (snd kv))) of
        (Some a, Some kvs) \<Rightarrow>
          (let str = (\<lambda>k. the_string (get_prop kvs k)); has = (\<lambda>k. is_string (get_prop kvs k))
           in if get_prop kvs ''action'' \<noteq> Some (JStr (fst kv))
                 \<or> \<not> has ''intentDigest'' \<or> \<not> is_sha256_digest (str ''intentDigest'')
                 \<or> \<not> has ''executionIntentId'' \<or> js_trim (str ''executionIntentId'') = []
                 \<or> \<not> has ''state'' \<or> \<not> has ''createdAt'' \<or> \<not> has ''updatedAt''
              then Inl (Error ''invalid action'')
              else (case parse_action_state (str ''state'') of
                None \<Rightarrow> Inl (Error ''invalid action'')
              | Some st \<Rightarrow>
                (case first_non_string [''requestId'', ''txHash'', ''evidenceRef'', ''reason''] kvs of
                   Some field \<Rightarrow> Inl (Error (''invalid action '' @ field))
                 | None \<Rightarrow> Inr (a, action_of kvs st))))
      | _ \<Rightarrow> Inl (Error ''invalid action''))"

definition parseEntry :: "string \<Rightarrow> json \<Rightarrow> settlement_entry result" where
  "parseEntry orderId v =
     (case as_record (Some v) of None \<Rightarrow> Inl (Error ''invalid shape'')
      | Some kvs \<Rightarrow>
        if get_prop kvs ''version'' \<noteq> Some (JNum (Fin 1)) \<or> get_prop kvs ''orderId'' \<noteq> Some (JStr orderId)
           \<or> \<not> is_string (get_prop kvs ''phase'')
           \<or> \<not> is_string (get_prop kvs ''createdAt'') \<or> \<not> is_string (get_prop kvs ''updatedAt'')
        then Inl (Error ''invalid shape'')
        else (case (parse_phase (the_string (get_prop kvs ''phase'')), as_record (get_prop kvs ''actions'')) of
          (Some ph, Some raw) \<Rightarrow>
            bind_r (map_r validateAction raw) (\<lambda>actions.
              Inr \<lparr>st_orderId = orderId, st_phase = ph, st_actions = actions,
                   st_createdAt = the_string (get_prop kvs ''createdAt''),
                   st_updatedAt = the_string (get_prop kvs ''updatedAt''),
                   st_other = other_fields settlement_fields kvs\<rparr>)
        | _ \<Rightarrow> Inl (Error ''invalid shape'')))"

definition unreadable_entry :: "'a result" where
  "unreadable_entry = Inl (Error ''marketplace settlement ledger is unreadable; refusing monetary actions'')"

definition readEntry :: "(string \<Rightarrow> string) \<Rightarrow> string \<Rightarrow> settlement_dir \<Rightarrow> settlement_entry option result" where
  "readEntry sha orderId dir =
     (case dir (sha orderId) of NoFile \<Rightarrow> Inr None
      | Unparsable \<Rightarrow> unreadable_entry
      | Document v \<Rightarrow> (case parseEntry orderId v of Inl _ \<Rightarrow> unreadable_entry | Inr e \<Rightarrow> Inr (Some e)))"

definition action_object :: "settlement_action \<Rightarrow> action_record \<Rightarrow> js_object" where
  "action_object a r = [(''action'', JStr (action_str a)), (''intentDigest'', JStr (ar_intentDigest r)),
       (''executionIntentId'', JStr (ar_executionIntentId r)), (''state'', JStr (action_state_str (ar_state r)))]
     @ opt_field ''requestId'' (ar_requestId r) @ opt_field ''txHash'' (ar_txHash r)
     @ opt_field ''evidenceRef'' (ar_evidenceRef r) @ opt_field ''reason'' (ar_reason r)
     @ [(''createdAt'', JStr (ar_createdAt r)), (''updatedAt'', JStr (ar_updatedAt r))] @ ar_other r"

definition action_entry :: "settlement_action \<times> action_record \<Rightarrow> string \<times> json" where
  "action_entry ar = (action_str (fst ar), JObj (action_object (fst ar) (snd ar)))"

definition settlement_object :: "settlement_entry \<Rightarrow> js_object" where
  "settlement_object e = [(''version'', JNum (Fin 1)), (''orderId'', JStr (st_orderId e)),
       (''phase'', JStr (phase_str (st_phase e))), (''actions'', JObj (map action_entry (st_actions e))),
       (''createdAt'', JStr (st_createdAt e)), (''updatedAt'', JStr (st_updatedAt e))] @ st_other e"

definition writeEntry :: "(string \<Rightarrow> string) \<Rightarrow> settlement_entry \<Rightarrow> settlement_dir \<Rightarrow> settlement_dir" where
  "writeEntry sha e dir = dir(sha (st_orderId e) := Document (JObj (settlement_object e)))"

section \<open>Operations\<close>


definition claimMarketplaceSettlementOrder ::
    "(string \<Rightarrow> string) \<Rightarrow> string \<Rightarrow> claims \<Rightarrow> string result \<times> claims" where
  "claimMarketplaceSettlementOrder sha rawOrderId c =
     (let orderId = js_trim rawOrderId; target = sha orderId
      in if orderId = [] then (Inl (Error ''marketplace settlement orderId is required''), c)
         else if orderId \<in> set (active_executions c)
         then (Inl (Error ''marketplace settlement action is already in progress''), c)
         else if target \<in> set (lock_files c)
         then (Inl (Error ''marketplace settlement action is already in progress''), c)
         else (Inr orderId, c\<lparr>active_executions := orderId # active_executions c,
                              lock_files := target # lock_files c\<rparr>))"

definition initialEntry :: "string \<Rightarrow> phase \<Rightarrow> string \<Rightarrow> settlement_entry" where
  "initialEntry orderId initialPhase now =
     \<lparr>st_orderId = orderId, st_phase = initialPhase, st_actions = [],
      st_createdAt = now, st_updatedAt = now, st_other = []\<rparr>"

definition actionAllowed :: "phase \<Rightarrow> settlement_action \<Rightarrow> bool" where
  "actionAllowed ph a =
     (if a = Direct then ph = POpen \<or> js_starts_with (phase_str ph) ''direct_''
      else if a = Fund then ph = POpen \<or> js_starts_with (phase_str ph) ''fund_'' \<or> ph = Held
      else if a = Release then ph = Held \<or> js_starts_with (phase_str ph) ''release_'' \<or> ph = Released
      else if a = Refund then ph = Held \<or> js_starts_with (phase_str ph) ''refund_'' \<or> ph = Refunded
      else ph = POpen \<or> ph = Cancelled)"

fun reservedPhase :: "settlement_action \<Rightarrow> phase" where
  "reservedPhase Direct = DirectPending"
| "reservedPhase Fund = FundPending"
| "reservedPhase Release = ReleasePending"
| "reservedPhase Refund = RefundPending"
| "reservedPhase Cancel = Cancelled"

definition new_action :: "settlement_action \<Rightarrow> string \<Rightarrow> string \<Rightarrow> string \<Rightarrow> action_record" where
  "new_action a intentDigest executionIntentId now =
     \<lparr>ar_intentDigest = intentDigest, ar_executionIntentId = executionIntentId,
      ar_state = (if a = Cancel then AComplete else AReserved), ar_requestId = None, ar_txHash = None,
      ar_evidenceRef = None, ar_reason = None, ar_createdAt = now, ar_updatedAt = now, ar_other = []\<rparr>"

definition with_new_action :: "settlement_action \<Rightarrow> action_record \<Rightarrow> string \<Rightarrow> settlement_entry \<Rightarrow> settlement_entry" where
  "with_new_action a action now entry =
     entry\<lparr>st_actions := st_actions entry @ [(a, action)], st_phase := reservedPhase a, st_updatedAt := now\<rparr>"

definition reserveMarketplaceSettlementAction ::
    "(string \<Rightarrow> string) \<Rightarrow> (js_number \<Rightarrow> string) \<Rightarrow> string \<Rightarrow> settlement_action \<Rightarrow> json \<Rightarrow> string \<Rightarrow> phase \<Rightarrow> string
     \<Rightarrow> settlement_dir \<Rightarrow> (settlement_entry \<times> action_record \<times> bool) result \<times> settlement_dir" where
  "reserveMarketplaceSettlementAction sha num rawOrderId a intent rawExec initialPhase now dir =
     (let orderId = js_trim rawOrderId; executionIntentId = js_trim rawExec in
      case marketplaceSettlementIntentDigest sha num intent of Inl e \<Rightarrow> (Inl e, dir)
      | Inr intentDigest \<Rightarrow>
      (case readEntry sha orderId dir of Inl e \<Rightarrow> (Inl e, dir)
       | Inr found \<Rightarrow>
         let entry = (case found of None \<Rightarrow> initialEntry orderId initialPhase now | Some e \<Rightarrow> e) in
         case map_of (st_actions entry) a of
           Some existing \<Rightarrow>
             if ar_intentDigest existing \<noteq> intentDigest \<or> ar_executionIntentId existing \<noteq> executionIntentId
             then (Inl (Error (''marketplace '' @ action_str a
                    @ '' identity is already bound to a different immutable intent'')), dir)
             else (Inr (entry, existing, False), dir)
         | None \<Rightarrow>
             if \<not> actionAllowed (st_phase entry) a
             then (Inl (Error (''marketplace '' @ action_str a @ '' is forbidden while settlement phase is ''
                    @ phase_str (st_phase entry))), dir)
             else let action = new_action a intentDigest executionIntentId now;
                      entry' = with_new_action a action now entry
                  in (Inr (entry', action, True), writeEntry sha entry' dir)))"

definition phaseForUpdate :: "settlement_action \<Rightarrow> action_state \<Rightarrow> phase" where
  "phaseForUpdate a st =
     (if a = Direct then
        (if st = AUnknown then DirectUnknown else if st = AExecuted then DirectPaid
         else if st = AEvidencePending then DirectEvidencePending else if st = AComplete then DirectSettled
         else if st = AFailed then POpen else DirectPending)
      else if a = Fund then
        (if st = AUnknown then FundUnknown else if st = AExecuted \<or> st = AComplete then Held
         else if st = AFailed then POpen else FundPending)
      else if a = Release then
        (if st = AUnknown then ReleaseUnknown else if st = AExecuted \<or> st = AComplete then Released
         else if st = AFailed then Held else ReleasePending)
      else if a = Refund then
        (if st = AUnknown then RefundUnknown else if st = AExecuted \<or> st = AComplete then Refunded
         else if st = AFailed then Held else RefundPending)
      else if st = AFailed then POpen else Cancelled)"

record action_refs =
  up_requestId :: "string option"
  up_txHash :: "string option"
  up_evidenceRef :: "string option"
  up_reason :: "string option"

definition new_or_old :: "string option \<Rightarrow> string option \<Rightarrow> string option" where
  "new_or_old new old = (case trim_or_undef new of None \<Rightarrow> old | Some s \<Rightarrow> Some s)"

definition patch_action :: "action_state \<Rightarrow> action_refs \<Rightarrow> string \<Rightarrow> action_record \<Rightarrow> action_record" where
  "patch_action st u now r =
     r\<lparr>ar_state := st, ar_requestId := new_or_old (up_requestId u) (ar_requestId r),
       ar_txHash := new_or_old (up_txHash u) (ar_txHash r),
       ar_evidenceRef := new_or_old (up_evidenceRef u) (ar_evidenceRef r),
       ar_reason := new_or_old (up_reason u) (ar_reason r), ar_updatedAt := now\<rparr>"

definition with_patched_action ::
    "settlement_action \<Rightarrow> action_state \<Rightarrow> action_refs \<Rightarrow> string \<Rightarrow> settlement_entry \<Rightarrow> settlement_entry" where
  "with_patched_action a st u now entry =
     entry\<lparr>st_actions := update_first (\<lambda>ar. fst ar = a) (\<lambda>ar. (fst ar, patch_action st u now (snd ar)))
                           (st_actions entry),
           st_phase := phaseForUpdate a st, st_updatedAt := now\<rparr>"

definition updateMarketplaceSettlementAction ::
    "(string \<Rightarrow> string) \<Rightarrow> string \<Rightarrow> settlement_action \<Rightarrow> action_state list \<Rightarrow> action_state \<Rightarrow> action_refs \<Rightarrow> string
     \<Rightarrow> settlement_dir \<Rightarrow> settlement_entry result \<times> settlement_dir" where
  "updateMarketplaceSettlementAction sha rawOrderId a expectedStates st u now dir =
     (case readEntry sha (js_trim rawOrderId) dir of Inl e \<Rightarrow> (Inl e, dir)
      | Inr None \<Rightarrow> (Inl (Error ''marketplace settlement action is not reserved''), dir)
      | Inr (Some entry) \<Rightarrow>
        (case map_of (st_actions entry) a of
           None \<Rightarrow> (Inl (Error ''marketplace settlement action is not reserved''), dir)
         | Some action \<Rightarrow>
           if ar_state action \<notin> set expectedStates
           then (Inl (Error (''marketplace '' @ action_str a @ '' is '' @ action_state_str (ar_state action)
                  @ ''; expected '' @ join_or (map action_state_str expectedStates))), dir)
           else if st \<notin> set (STATE_TRANSITIONS (ar_state action))
           then (Inl (Error (''marketplace '' @ action_str a @ '' cannot transition from ''
                  @ action_state_str (ar_state action) @ '' to '' @ action_state_str st)), dir)
           else let entry' = with_patched_action a st u now entry
                in (Inr entry', writeEntry sha entry' dir)))"

section \<open>The operations keep the files readable\<close>

definition action_wf :: "action_record \<Rightarrow> bool" where
  "action_wf r \<longleftrightarrow> is_sha256_digest (ar_intentDigest r) \<and> js_trim (ar_executionIntentId r) \<noteq> []
     \<and> other_fields action_fields (ar_other r) = ar_other r"

definition settlement_wf :: "settlement_entry \<Rightarrow> bool" where
  "settlement_wf e \<longleftrightarrow> (\<forall>ar \<in> set (st_actions e). action_wf (snd ar)) \<and> distinct (map fst (st_actions e))
     \<and> other_fields settlement_fields (st_other e) = st_other e"

lemma parse_action_str [simp]: "parse_action (action_str a) = Some a"
  by (cases a) (simp_all add: parse_action_def ACTIONS_def)

lemma parse_action_state_str [simp]: "parse_action_state (action_state_str st) = Some st"
  by (cases st) (simp_all add: parse_action_state_def ACTION_STATES_def)

lemma parse_phase_str [simp]: "parse_phase (phase_str p) = Some p"
  by (cases p) (simp_all add: parse_phase_def PHASES_def)

lemma action_object_props:
  assumes "other_fields action_fields (ar_other r) = ar_other r"
  shows "get_prop (action_object a r) ''action'' = Some (JStr (action_str a))"
    "get_prop (action_object a r) ''intentDigest'' = Some (JStr (ar_intentDigest r))"
    "get_prop (action_object a r) ''executionIntentId'' = Some (JStr (ar_executionIntentId r))"
    "get_prop (action_object a r) ''state'' = Some (JStr (action_state_str (ar_state r)))"
    "get_prop (action_object a r) ''requestId'' = map_option JStr (ar_requestId r)"
    "get_prop (action_object a r) ''txHash'' = map_option JStr (ar_txHash r)"
    "get_prop (action_object a r) ''evidenceRef'' = map_option JStr (ar_evidenceRef r)"
    "get_prop (action_object a r) ''reason'' = map_option JStr (ar_reason r)"
    "get_prop (action_object a r) ''createdAt'' = Some (JStr (ar_createdAt r))"
    "get_prop (action_object a r) ''updatedAt'' = Some (JStr (ar_updatedAt r))"
    "other_fields action_fields (action_object a r) = ar_other r"
  using assms get_prop_other [OF assms]
  by (simp_all add: action_object_def action_fields_def split: option.split)

lemma validateAction_entry:
  assumes "action_wf (snd ar)"
  shows "validateAction (action_entry ar) = Inr ar"
proof -
  obtain a r where ar: "ar = (a, r)" by (cases ar)
  have other: "other_fields action_fields (ar_other r) = ar_other r" using assms ar by (simp add: action_wf_def)
  have "first_non_string [''requestId'', ''txHash'', ''evidenceRef'', ''reason''] (action_object a r) = None"
    by (rule first_non_string_None) (auto simp: action_object_props [OF other])
  then show ?thesis using assms
    by (simp add: ar validateAction_def action_entry_def action_of_def action_object_props [OF other] action_wf_def)
qed

lemma parse_settlement_object:
  assumes wf: "settlement_wf e"
  shows "parseEntry (st_orderId e) (JObj (settlement_object e)) = Inr e"
proof -
  have other: "other_fields settlement_fields (st_other e) = st_other e" using wf by (simp add: settlement_wf_def)
  have "map_r validateAction (map action_entry (st_actions e)) = Inr (st_actions e)"
    using wf by (intro map_r_all_ok) (simp add: settlement_wf_def validateAction_entry)
  then show ?thesis using other get_prop_other [OF other]
    by (simp add: parseEntry_def settlement_object_def settlement_fields_def)
qed

lemma parseEntry_orderId:
  "parseEntry o1 v = Inr e \<Longrightarrow> st_orderId e = o1 \<and> (o2 \<noteq> o1 \<longrightarrow> parseEntry o2 v = Inl (Error ''invalid shape''))"
  by (auto simp: parseEntry_def bind_r_eq_Inr split: option.splits if_splits)

lemma readEntry_SomeD:
  "readEntry sha k dir = Inr (Some e) \<Longrightarrow> \<exists>v. dir (sha k) = Document v \<and> parseEntry k v = Inr e"
  by (auto simp: readEntry_def unreadable_entry_def split: state_file.splits sum.splits)

lemma readEntry_orderId: "readEntry sha k dir = Inr (Some e) \<Longrightarrow> st_orderId e = k"
  using readEntry_SomeD parseEntry_orderId by blast

lemma readEntry_same_file:
  assumes "readEntry sha k dir = Inr (Some e)" "readEntry sha k' dir = Inr (Some e')" "sha k = sha k'"
  shows "k = k'"
proof -
  obtain v where "dir (sha k) = Document v" and k: "parseEntry k v = Inr e"
    using readEntry_SomeD [OF assms(1)] by auto
  moreover obtain v' where "dir (sha k') = Document v'" and k': "parseEntry k' v' = Inr e'"
    using readEntry_SomeD [OF assms(2)] by auto
  ultimately have "v = v'" using assms(3) by simp
  then show ?thesis using parseEntry_orderId [OF k, of k'] k' by (cases "k = k'") simp_all
qed

lemma read_write_entry:
  assumes "settlement_wf e"
  shows "readEntry sha k (writeEntry sha e dir) =
    (if k = st_orderId e then Inr (Some e)
     else if sha k = sha (st_orderId e) then unreadable_entry else readEntry sha k dir)"
  using parse_settlement_object [OF assms] parseEntry_orderId [OF parse_settlement_object [OF assms], of k]
  by (auto simp: readEntry_def writeEntry_def)

text \<open>Every file holds a well-formed entry of an order whose id has the file's name as its digest.\<close>

definition settlement_inv :: "(string \<Rightarrow> string) \<Rightarrow> settlement_dir \<Rightarrow> bool" where
  "settlement_inv sha dir \<longleftrightarrow>
     (\<forall>h. dir h \<noteq> NoFile \<longrightarrow> (\<exists>e. settlement_wf e \<and> sha (st_orderId e) = h
        \<and> readEntry sha (st_orderId e) dir = Inr (Some e)))"

lemma settlement_inv_read:
  assumes "settlement_inv sha dir" and "readEntry sha k dir = Inr (Some e)"
  shows "settlement_wf e"
proof -
  have "dir (sha k) \<noteq> NoFile" using assms(2) by (auto simp: readEntry_def)
  then obtain e' where e': "settlement_wf e'" "sha (st_orderId e') = sha k"
    "readEntry sha (st_orderId e') dir = Inr (Some e')"
    using assms(1) by (auto simp: settlement_inv_def)
  have "st_orderId e' = k" by (rule readEntry_same_file [OF e'(3) assms(2) e'(2)])
  with e' assms(2) show ?thesis by simp
qed

lemma settlement_inv_write:
  assumes inv: "settlement_inv sha dir" and wf: "settlement_wf e"
    and free: "readEntry sha (st_orderId e) dir \<noteq> unreadable_entry"
  shows "settlement_inv sha (writeEntry sha e dir)"
  unfolding settlement_inv_def
proof (intro allI impI)
  fix h assume h: "writeEntry sha e dir h \<noteq> NoFile"
  show "\<exists>x. settlement_wf x \<and> sha (st_orderId x) = h \<and> readEntry sha (st_orderId x) (writeEntry sha e dir) = Inr (Some x)"
  proof (cases "h = sha (st_orderId e)")
    case True
    then show ?thesis using wf by (auto simp: read_write_entry)
  next
    case False
    then have "dir h \<noteq> NoFile" using h by (simp add: writeEntry_def)
    then obtain x where "settlement_wf x" "sha (st_orderId x) = h" "readEntry sha (st_orderId x) dir = Inr (Some x)"
      using inv by (auto simp: settlement_inv_def)
    then show ?thesis using False wf by (intro exI [of _ x]) (auto simp: read_write_entry)
  qed
qed

section \<open>Steps and the ledger contract\<close>

datatype settlement_op =
    OReserve string settlement_action json string phase string
  | OUpdate string settlement_action "action_state list" action_state action_refs string

fun settlement_step ::
    "(string \<Rightarrow> string) \<Rightarrow> (js_number \<Rightarrow> string) \<Rightarrow> settlement_op \<Rightarrow> settlement_dir \<Rightarrow> settlement_dir" where
  "settlement_step sha num (OReserve k a intent x ph now) dir =
     snd (reserveMarketplaceSettlementAction sha num k a intent x ph now dir)"
| "settlement_step sha num (OUpdate k a exps st u now) dir =
     snd (updateMarketplaceSettlementAction sha k a exps st u now dir)"

text \<open>The digest of the intent has the shape of a SHA-256 digest, and the execution intent id is not blank.\<close>

fun settlement_good :: "(string \<Rightarrow> string) \<Rightarrow> (js_number \<Rightarrow> string) \<Rightarrow> settlement_op \<Rightarrow> bool" where
  "settlement_good sha num (OReserve k a intent x ph now) \<longleftrightarrow> js_trim x \<noteq> []
     \<and> (case marketplaceSettlementIntentDigest sha num intent of Inl _ \<Rightarrow> True | Inr d \<Rightarrow> is_sha256_digest d)"
| "settlement_good sha num (OUpdate k a exps st u now) \<longleftrightarrow> True"

definition action_transition :: "action_state \<Rightarrow> action_state \<Rightarrow> bool" where
  "action_transition s t \<longleftrightarrow> t \<in> set (STATE_TRANSITIONS s)"

definition action_initial :: "action_state \<Rightarrow> bool" where
  "action_initial s \<longleftrightarrow> s = AReserved \<or> s = AComplete"

text \<open>What an operation does: nothing, or it writes the entry of one order with one action changed.\<close>

definition binding :: "action_record \<Rightarrow> string \<times> string" where
  "binding r = (ar_intentDigest r, ar_executionIntentId r)"

definition action_effect :: "settlement_entry \<Rightarrow> settlement_entry \<Rightarrow> bool" where
  "action_effect e e' \<longleftrightarrow> (\<exists>a r. map_of (st_actions e') = (map_of (st_actions e))(a \<mapsto> r)
     \<and> (case map_of (st_actions e) a of None \<Rightarrow> action_initial (ar_state r)
        | Some r0 \<Rightarrow> action_transition (ar_state r0) (ar_state r) \<and> binding r = binding r0))"

definition current_entry :: "(string \<Rightarrow> string) \<Rightarrow> settlement_dir \<Rightarrow> settlement_entry \<Rightarrow> bool" where
  "current_entry sha dir e \<longleftrightarrow> readEntry sha (st_orderId e) dir = Inr (Some e)
     \<or> (readEntry sha (st_orderId e) dir = Inr None \<and> st_actions e = [])"

definition settlement_effect :: "(string \<Rightarrow> string) \<Rightarrow> settlement_dir \<Rightarrow> settlement_dir \<Rightarrow> bool" where
  "settlement_effect sha dir dir' \<longleftrightarrow> dir' = dir
     \<or> (\<exists>e e'. current_entry sha dir e \<and> st_orderId e' = st_orderId e \<and> action_effect e e' \<and> settlement_wf e'
          \<and> dir' = writeEntry sha e' dir)"

lemma map_of_patched:
  "map_of xs a = Some r \<Longrightarrow>
   map_of (update_first (\<lambda>ar. fst ar = a) (\<lambda>ar. (fst ar, g (snd ar))) xs) = (map_of xs)(a \<mapsto> g r)"
  by (induction xs) (auto simp: fun_eq_iff)

lemma map_of_snoc: "map_of xs a = None \<Longrightarrow> map_of (xs @ [(a, r)]) = (map_of xs)(a \<mapsto> r)"
  by (auto simp: fun_eq_iff map_of_append map_add_def split: option.splits)

lemma with_new_action_simps [simp]:
  "st_orderId (with_new_action a r now e) = st_orderId e" "st_phase (with_new_action a r now e) = reservedPhase a"
  "st_actions (with_new_action a r now e) = st_actions e @ [(a, r)]"
  by (simp_all add: with_new_action_def)

lemma with_patched_action_simps [simp]:
  "st_orderId (with_patched_action a st u now e) = st_orderId e"
  "st_phase (with_patched_action a st u now e) = phaseForUpdate a st"
  "st_actions (with_patched_action a st u now e) =
     update_first (\<lambda>ar. fst ar = a) (\<lambda>ar. (fst ar, patch_action st u now (snd ar))) (st_actions e)"
  by (simp_all add: with_patched_action_def)

lemma settlement_wf_new:
  assumes "settlement_wf e" "action_wf r" "map_of (st_actions e) a = None"
  shows "settlement_wf (with_new_action a r now e)"
  using assms by (auto simp: settlement_wf_def with_new_action_def map_of_eq_None_iff)

lemma action_wf_patch [simp]: "action_wf (patch_action st u now r) = action_wf r"
  "ar_state (patch_action st u now r) = st" "binding (patch_action st u now r) = binding r"
  by (simp_all add: action_wf_def patch_action_def binding_def)

lemma settlement_wf_patched:
  assumes "settlement_wf e"
  shows "settlement_wf (with_patched_action a st u now e)"
proof -
  let ?f = "\<lambda>ar. (fst ar, patch_action st u now (snd ar))"
  have "\<forall>ar \<in> set (update_first (\<lambda>ar. fst ar = a) ?f (st_actions e)). action_wf (snd ar)"
    by (rule update_first_ball_on) (use assms in \<open>simp_all add: settlement_wf_def\<close>)
  moreover have "map fst (update_first (\<lambda>ar. fst ar = a) ?f (st_actions e)) = map fst (st_actions e)"
    by (rule map_update_first) simp
  ultimately show ?thesis using assms by (simp add: settlement_wf_def with_patched_action_def)
qed

lemma settlement_wf_initial: "settlement_wf (initialEntry k ph now)"
  by (simp add: settlement_wf_def initialEntry_def)

text \<open>The two operations by cases, for a readable entry.\<close>

lemma reserve_cases:
  assumes "settlement_inv sha dir"
  obtains "snd (reserveMarketplaceSettlementAction sha num k a intent x ph now dir) = dir"
  | e d where "current_entry sha dir e" "settlement_wf e" "st_orderId e = js_trim k" "map_of (st_actions e) a = None"
      "actionAllowed (st_phase e) a" "marketplaceSettlementIntentDigest sha num intent = Inr d"
      "snd (reserveMarketplaceSettlementAction sha num k a intent x ph now dir)
        = writeEntry sha (with_new_action a (new_action a d (js_trim x) now) now e) dir"
proof (cases "marketplaceSettlementIntentDigest sha num intent")
  case (Inl m)
  then show ?thesis using that(1) by (simp add: reserveMarketplaceSettlementAction_def)
next
  case d: (Inr d)
  show ?thesis
  proof (cases "readEntry sha (js_trim k) dir")
    case (Inl m)
    then show ?thesis using that(1) d by (simp add: reserveMarketplaceSettlementAction_def)
  next
    case found: (Inr found)
    let ?e = "case found of None \<Rightarrow> initialEntry (js_trim k) ph now | Some e \<Rightarrow> e"
    have id: "st_orderId ?e = js_trim k"
      using found readEntry_orderId by (auto simp: initialEntry_def split: option.splits)
    have e: "current_entry sha dir ?e" "settlement_wf ?e"
      using found id settlement_inv_read [OF assms] settlement_wf_initial
      by (auto simp: current_entry_def initialEntry_def split: option.splits)
    show ?thesis
    proof (cases "map_of (st_actions ?e) a = None \<and> actionAllowed (st_phase ?e) a")
      case True
      then show ?thesis using that(2) [OF e id _ _ d] d found
        by (simp add: reserveMarketplaceSettlementAction_def Let_def)
    next
      case False
      then show ?thesis using that(1) d found
        by (auto simp: reserveMarketplaceSettlementAction_def Let_def split: option.splits)
    qed
  qed
qed

lemma update_cases:
  obtains "snd (updateMarketplaceSettlementAction sha k a exps st u now dir) = dir"
  | e r where "readEntry sha (js_trim k) dir = Inr (Some e)" "map_of (st_actions e) a = Some r"
      "ar_state r \<in> set exps" "action_transition (ar_state r) st"
      "snd (updateMarketplaceSettlementAction sha k a exps st u now dir) = writeEntry sha (with_patched_action a st u now e) dir"
proof (cases "readEntry sha (js_trim k) dir")
  case (Inl m)
  then show ?thesis using that(1) by (simp add: updateMarketplaceSettlementAction_def)
next
  case found: (Inr found)
  show ?thesis
  proof (cases "\<exists>e r. found = Some e \<and> map_of (st_actions e) a = Some r \<and> ar_state r \<in> set exps
      \<and> action_transition (ar_state r) st")
    case True
    then show ?thesis using that(2) found
      by (auto simp: updateMarketplaceSettlementAction_def action_transition_def Let_def)
  next
    case False
    then have "snd (updateMarketplaceSettlementAction sha k a exps st u now dir) = dir"
      using found by (auto simp: updateMarketplaceSettlementAction_def action_transition_def split: option.splits)
    then show ?thesis by (rule that(1))
  qed
qed

lemma action_effect_new:
  assumes "map_of (st_actions e) a = None" "action_initial (ar_state r)"
  shows "action_effect e (with_new_action a r now e)"
  unfolding action_effect_def
  by (rule exI [of _ a], rule exI [of _ r]) (simp only: with_new_action_simps map_of_snoc [OF assms(1)] assms option.case simp_thms)

lemma action_effect_patched:
  assumes "map_of (st_actions e) a = Some r" "action_transition (ar_state r) st"
  shows "action_effect e (with_patched_action a st u now e)"
  unfolding action_effect_def
  by (rule exI [of _ a], rule exI [of _ "patch_action st u now r"])
    (simp add: map_of_patched [OF assms(1)] assms)

lemma settlement_effect_write:
  "current_entry sha dir e \<Longrightarrow> st_orderId e' = st_orderId e \<Longrightarrow> action_effect e e' \<Longrightarrow> settlement_wf e' \<Longrightarrow>
   settlement_effect sha dir (writeEntry sha e' dir)"
  unfolding settlement_effect_def by blast

lemma settlement_step_effect:
  assumes inv: "settlement_inv sha dir" and good: "settlement_good sha num c"
  shows "settlement_effect sha dir (settlement_step sha num c dir)"
proof (cases c)
  case (OReserve k a intent x ph now)
  show ?thesis
  proof (rule reserve_cases [OF inv, of num k a intent x ph now])
    fix e d
    assume e: "current_entry sha dir e" "settlement_wf e" "st_orderId e = js_trim k" "map_of (st_actions e) a = None"
      and d: "marketplaceSettlementIntentDigest sha num intent = Inr d"
      and eq: "snd (reserveMarketplaceSettlementAction sha num k a intent x ph now dir)
        = writeEntry sha (with_new_action a (new_action a d (js_trim x) now) now e) dir"
    let ?r = "new_action a d (js_trim x) now"
    have "action_wf ?r" using good d OReserve by (simp add: action_wf_def new_action_def)
    moreover have "action_effect e (with_new_action a ?r now e)"
      by (rule action_effect_new [OF e(4)]) (simp add: new_action_def action_initial_def)
    ultimately show ?thesis
      using e(1,2,4) by (auto simp: OReserve eq intro: settlement_effect_write settlement_wf_new)
  qed (simp add: OReserve settlement_effect_def)
next
  case (OUpdate k a exps st u now)
  show ?thesis
  proof (rule update_cases [of sha k a exps st u now dir])
    fix e r
    assume e: "readEntry sha (js_trim k) dir = Inr (Some e)" "map_of (st_actions e) a = Some r"
        "action_transition (ar_state r) st"
      and eq: "snd (updateMarketplaceSettlementAction sha k a exps st u now dir) = writeEntry sha (with_patched_action a st u now e) dir"
    have "action_effect e (with_patched_action a st u now e)" by (rule action_effect_patched [OF e(2,3)])
    moreover have "current_entry sha dir e" using e(1) readEntry_orderId by (auto simp: current_entry_def)
    ultimately show ?thesis using settlement_inv_read [OF inv e(1)]
      by (auto simp: OUpdate eq intro: settlement_effect_write settlement_wf_patched)
  qed (simp add: OUpdate settlement_effect_def)
qed

lemma settlement_effect_inv:
  assumes "settlement_inv sha dir" "settlement_effect sha dir dir'"
  shows "settlement_inv sha dir'"
  using assms(2) unfolding settlement_effect_def
proof (elim disjE exE conjE)
  fix e e'
  assume "current_entry sha dir e" "st_orderId e' = st_orderId e" "settlement_wf e'" "dir' = writeEntry sha e' dir"
  then show ?thesis using settlement_inv_write [OF assms(1), of e']
    by (auto simp: current_entry_def unreadable_entry_def)
qed (use assms(1) in simp)

text \<open>
  An effect seen from one action of one order, for any part \<open>g\<close> of its record: nothing changed, the
  action is new, or its record was rewritten.
\<close>

definition part_of :: "(action_record \<Rightarrow> 'a) \<Rightarrow> (string \<Rightarrow> string) \<Rightarrow> settlement_dir \<Rightarrow> string \<times> settlement_action \<Rightarrow> 'a option" where
  "part_of g sha dir k =
     (case readEntry sha (fst k) dir of Inr (Some e) \<Rightarrow> map_option g (map_of (st_actions e) (snd k)) | _ \<Rightarrow> None)"

lemma write_entry_part:
  assumes "current_entry sha dir e" "st_orderId e' = st_orderId e" "settlement_wf e'" "k \<noteq> st_orderId e"
  shows "part_of g sha (writeEntry sha e' dir) (k, a) = part_of g sha dir (k, a)"
proof (cases "sha k = sha (st_orderId e)")
  case True
  have "readEntry sha k dir \<noteq> Inr (Some x)" for x
  proof
    assume k: "readEntry sha k dir = Inr (Some x)"
    then obtain v where v: "dir (sha k) = Document v" "parseEntry k v = Inr x" using readEntry_SomeD by blast
    then have "readEntry sha (st_orderId e) dir \<noteq> Inr None"
      using True by (simp add: readEntry_def unreadable_entry_def split: sum.split)
    then have "readEntry sha (st_orderId e) dir = Inr (Some e)" using assms(1) by (simp add: current_entry_def)
    then show False using readEntry_same_file [OF k] True assms(4) by blast
  qed
  then show ?thesis using assms True
    by (auto simp: part_of_def read_write_entry unreadable_entry_def split: sum.split option.split)
next
  case False
  then show ?thesis using assms by (simp add: part_of_def read_write_entry)
qed

lemma settlement_effect_part:
  assumes "settlement_effect sha dir dir'"
  shows "part_of g sha dir' k = part_of g sha dir k
    \<or> (part_of g sha dir k = None \<and> (\<exists>r. part_of g sha dir' k = Some (g r) \<and> action_initial (ar_state r)))
    \<or> (\<exists>r0 r. part_of g sha dir k = Some (g r0) \<and> part_of g sha dir' k = Some (g r)
         \<and> action_transition (ar_state r0) (ar_state r) \<and> binding r = binding r0)"
  using assms unfolding settlement_effect_def
proof (elim disjE exE conjE)
  fix e e'
  assume e: "current_entry sha dir e" "st_orderId e' = st_orderId e" "settlement_wf e'" "dir' = writeEntry sha e' dir"
    and "action_effect e e'"
  then obtain a r where a: "map_of (st_actions e') = (map_of (st_actions e))(a \<mapsto> r)"
    and st: "case map_of (st_actions e) a of None \<Rightarrow> action_initial (ar_state r)
      | Some r0 \<Rightarrow> action_transition (ar_state r0) (ar_state r) \<and> binding r = binding r0"
    by (auto simp: action_effect_def)
  show ?thesis
  proof (cases "fst k = st_orderId e")
    case True
    have "part_of g sha dir' k = map_option g (((map_of (st_actions e))(a \<mapsto> r)) (snd k))"
      using e True a by (simp add: part_of_def read_write_entry)
    moreover have "part_of g sha dir k = map_option g (map_of (st_actions e) (snd k))"
      using e(1) True by (auto simp: current_entry_def part_of_def)
    ultimately show ?thesis using st by (cases "map_of (st_actions e) a") auto
  next
    case False
    then show ?thesis using write_entry_part [OF e(1-3), of "fst k" g "snd k"] e(4) by simp
  qed
qed simp

definition action_state_of ::
    "(string \<Rightarrow> string) \<Rightarrow> settlement_dir \<Rightarrow> string \<times> settlement_action \<Rightarrow> action_state option" where
  "action_state_of = part_of ar_state"

definition binding_of ::
    "(string \<Rightarrow> string) \<Rightarrow> settlement_dir \<Rightarrow> string \<times> settlement_action \<Rightarrow> (string \<times> string) option" where
  "binding_of = part_of binding"

lemma settlement_step_inv:
  "settlement_inv sha dir \<Longrightarrow> settlement_good sha num c \<Longrightarrow> settlement_inv sha (settlement_step sha num c dir)"
  using settlement_step_effect settlement_effect_inv by blast

text \<open>The contract holds for the state of an action, and for the immutable intent it is bound to.\<close>

interpretation settlement_ledger: state_ledger "action_state_of sha" "settlement_step sha num" action_transition
    "settlement_inv sha" "settlement_good sha num" action_initial for sha num
proof
  fix dir c k s t
  assume pre: "settlement_inv sha dir" "settlement_good sha num c"
  note effect = settlement_effect_part [OF settlement_step_effect [OF pre], of ar_state k, folded action_state_of_def]
  show "settlement_inv sha (settlement_step sha num c dir)" using pre by (rule settlement_step_inv)
  show "\<exists>t. action_state_of sha (settlement_step sha num c dir) k = Some t \<and> (t = s \<or> action_transition s t)"
    if "action_state_of sha dir k = Some s"
    using effect that by auto
  show "action_initial t"
    if "action_state_of sha dir k = None" "action_state_of sha (settlement_step sha num c dir) k = Some t"
    using effect that by auto
qed

interpretation settlement_binding: state_ledger "binding_of sha" "settlement_step sha num" "\<lambda>_ _. False"
    "settlement_inv sha" "settlement_good sha num" "\<lambda>_. True" for sha num
proof
  fix dir c k s
  assume pre: "settlement_inv sha dir" "settlement_good sha num c"
  show "settlement_inv sha (settlement_step sha num c dir)" using pre by (rule settlement_step_inv)
  show "\<exists>t. binding_of sha (settlement_step sha num c dir) k = Some t \<and> (t = s \<or> False)"
    if "binding_of sha dir k = Some s"
    using settlement_effect_part [OF settlement_step_effect [OF pre], of binding k, folded binding_of_def] that
    by (cases s) auto
qed simp

lemma settlement_inv_empty: "settlement_inv sha (\<lambda>_. NoFile)"
  by (simp add: settlement_inv_def)

section \<open>Which actions can have been carried out together\<close>

definition carried_out :: "settlement_entry \<Rightarrow> settlement_action \<Rightarrow> bool" where
  "carried_out e a = (case map_of (st_actions e) a of None \<Rightarrow> False
     | Some r \<Rightarrow> ar_state r = AExecuted \<or> ar_state r = AEvidencePending \<or> ar_state r = AComplete)"















section \<open>Properties\<close>

definition no_refs :: action_refs where
  "no_refs = \<lparr>up_requestId = None, up_txHash = None, up_evidenceRef = None, up_reason = None\<rparr>"

definition zero_sha :: "string \<Rightarrow> string" where
  "zero_sha s = replicate 64 (CHR ''0'')"

definition sample_settlement :: "settlement_op list" where
  "sample_settlement = [OReserve ''o'' Fund JNull ''x:fund'' POpen ''t0'',
     OUpdate ''o'' Fund [AReserved] AComplete no_refs ''t1'',
     OReserve ''o'' Release JNull ''x:release'' POpen ''t2'']"

lemma sample_settlement_good: "list_all (settlement_good zero_sha (\<lambda>_. [])) sample_settlement"
  by code_simp

lemma sample_settlement_inv: "settlement_inv zero_sha (fold (settlement_step zero_sha (\<lambda>_. [])) sample_settlement (\<lambda>_. NoFile))"
  by (rule settlement_ledger.run_inv [OF settlement_inv_empty sample_settlement_good])




text \<open>
  An action that has been carried out stays so in every later run of reservations and updates, and
  a complete one stays complete: a payment that happened is never forgotten or marked as failed.
\<close>

theorem settlement_carried_out_stays:
  assumes "settlement_inv sha dir" and "list_all (settlement_good sha num) cs"
    and "action_state_of sha dir k = Some s" and "s = AExecuted \<or> s = AEvidencePending \<or> s = AComplete"
  shows "\<exists>t. action_state_of sha (fold (settlement_step sha num) cs dir) k = Some t
    \<and> (t = s \<or> s \<noteq> AComplete \<and> (t = AEvidencePending \<or> t = AComplete))"
proof -
  obtain t where t: "action_state_of sha (fold (settlement_step sha num) cs dir) k = Some t"
    and steps: "action_transition\<^sup>*\<^sup>* s t"
    using settlement_ledger.run_present [OF assms(1-3)] by blast
  from steps assms(4) have "t = s \<or> s \<noteq> AComplete \<and> (t = AEvidencePending \<or> t = AComplete)"
    by (induction rule: rtranclp_induct) (auto simp: action_transition_def)
  then show ?thesis using t by blast
qed

theorem settlement_carried_out_stays_witness:
  "action_state_of zero_sha (fold (settlement_step zero_sha (\<lambda>_. [])) [OUpdate ''o'' Fund [AComplete] AFailed no_refs ''t3'']
     (fold (settlement_step zero_sha (\<lambda>_. [])) sample_settlement (\<lambda>_. NoFile))) (''o'', Fund) = Some AComplete"
proof -
  have "action_state_of zero_sha (fold (settlement_step zero_sha (\<lambda>_. [])) sample_settlement (\<lambda>_. NoFile)) (''o'', Fund)
      = Some AComplete"
    by code_simp
  from settlement_carried_out_stays [OF sample_settlement_inv _ this] show ?thesis
    by (metis list.pred_inject settlement_good.simps(2))
qed

text \<open>
  C7: The first reservation of an action fixes its intent for good. After any later run of reservations
  and updates, a reservation of the same action returns it, creates nothing and changes no file when
  the digest of the intent and the execution intent id are the recorded ones, and is refused without a
  change otherwise.
\<close>

theorem settlement_binding_immutable:
  assumes "settlement_inv sha dir" and "list_all (settlement_good sha num) cs"
    and bound: "binding_of sha dir (js_trim k, a) = Some (d, x)"
    and digest: "marketplaceSettlementIntentDigest sha num intent = Inr d'"
  shows "let dir' = fold (settlement_step sha num) cs dir;
             res = reserveMarketplaceSettlementAction sha num k a intent x' ph now dir'
         in snd res = dir' \<and> (if d' = d \<and> js_trim x' = x then \<exists>e r. fst res = Inr (e, r, False) \<and> binding r = (d, x)
              else fst res = Inl (Error (''marketplace '' @ action_str a
                @ '' identity is already bound to a different immutable intent'')))"
proof -
  let ?dir = "fold (settlement_step sha num) cs dir"
  have "binding_of sha ?dir (js_trim k, a) = Some (d, x)"
    by (rule settlement_binding.run_final [OF assms(1-3)]) simp
  then obtain e r where "readEntry sha (js_trim k) ?dir = Inr (Some e)" "map_of (st_actions e) a = Some r" "binding r = (d, x)"
    by (auto simp: binding_of_def part_of_def split: sum.splits option.splits)
  then show ?thesis using digest
    by (auto simp: reserveMarketplaceSettlementAction_def Let_def binding_def)
qed

theorem settlement_binding_immutable_witness:
  "fst (reserveMarketplaceSettlementAction zero_sha (\<lambda>_. []) ''o'' Fund JNull ''x:other'' POpen ''t9''
     (fold (settlement_step zero_sha (\<lambda>_. [])) (tl sample_settlement)
       (settlement_step zero_sha (\<lambda>_. []) (hd sample_settlement) (\<lambda>_. NoFile))))
   = Inl (Error ''marketplace fund identity is already bound to a different immutable intent'')"
proof -
  let ?dir = "settlement_step zero_sha (\<lambda>_. []) (hd sample_settlement) (\<lambda>_. NoFile)"
  have good: "settlement_good zero_sha (\<lambda>_. []) (hd sample_settlement)"
    "list_all (settlement_good zero_sha (\<lambda>_. [])) (tl sample_settlement)"
    by code_simp+
  have trim: "js_trim ''o'' = ''o''" "js_trim ''x:other'' = ''x:other''" by (simp_all add: js_trim_def js_space_def)
  have bound: "binding_of zero_sha ?dir (js_trim ''o'', Fund) = Some (zero_digest, ''x:fund'')" by code_simp
  have digest: "marketplaceSettlementIntentDigest zero_sha (\<lambda>_. []) JNull = Inr zero_digest" by code_simp
  from settlement_binding_immutable [OF settlement_step_inv [OF settlement_inv_empty good(1)] good(2) bound digest,
      of "''x:other''" POpen "''t9''"]
  show ?thesis by (simp add: Let_def trim)
qed

text \<open>
  C15: The update does not ask whether the phase allows the action. If a release has failed and the
  refund has been completed since, retrying the release (failed to pending, then complete) succeeds,
  and both the release and the refund are complete.
\<close>

theorem settlement_failed_release_retry:
  assumes "settlement_inv sha dir" and "readEntry sha k dir = Inr (Some e)" and "js_trim k = k"
    and "map_of (st_actions e) Release = Some r" "ar_state r = AFailed"
    and "map_of (st_actions e) Refund = Some q" "ar_state q = AComplete"
  shows "\<exists>e'. readEntry sha k (fold (settlement_step sha num)
      [OUpdate k Release [AReserved, APending, AFailed] APending no_refs t,
       OUpdate k Release [APending] AComplete u t'] dir) = Inr (Some e')
    \<and> carried_out e' Release \<and> carried_out e' Refund \<and> st_phase e' = Released"
proof -
  let ?e1 = "with_patched_action Release APending no_refs t e"
  let ?e2 = "with_patched_action Release AComplete u t' ?e1"
  have id: "st_orderId e = k" by (rule readEntry_orderId [OF assms(2)])
  have wf: "settlement_wf ?e1" "settlement_wf ?e2"
    using settlement_inv_read [OF assms(1,2)] by (simp_all add: settlement_wf_patched)
  have m1: "map_of (st_actions ?e1) Release = Some (patch_action APending no_refs t r)"
    "map_of (st_actions ?e1) Refund = Some q"
    using assms by (simp_all add: map_of_patched)
  have first: "settlement_step sha num (OUpdate k Release [AReserved, APending, AFailed] APending no_refs t) dir
      = writeEntry sha ?e1 dir"
    using assms by (simp add: updateMarketplaceSettlementAction_def Let_def)
  have second: "settlement_step sha num (OUpdate k Release [APending] AComplete u t') (writeEntry sha ?e1 dir)
      = writeEntry sha ?e2 (writeEntry sha ?e1 dir)"
    using assms(3) wf id m1 by (simp add: updateMarketplaceSettlementAction_def Let_def read_write_entry)
  have "carried_out ?e2 Release" "carried_out ?e2 Refund" "st_phase ?e2 = Released"
    using m1 assms by (simp_all add: carried_out_def map_of_patched phaseForUpdate_def)
  then show ?thesis using wf(2) id
    by (intro exI [of _ ?e2])
      (simp only: fold_simps first second read_write_entry with_patched_action_simps if_True simp_thms)
qed

theorem settlement_failed_release_retry_witness:
  "\<exists>e'. readEntry zero_sha ''o'' (fold (settlement_step zero_sha (\<lambda>_. []))
      [OUpdate ''o'' Release [AReserved, APending, AFailed] APending no_refs ''t6'',
       OUpdate ''o'' Release [APending] AComplete no_refs ''t7'']
      (fold (settlement_step zero_sha (\<lambda>_. [])) (sample_settlement @
        [OUpdate ''o'' Release [AReserved] AFailed no_refs ''t3'',
         OReserve ''o'' Refund JNull ''x:refund'' POpen ''t4'',
         OUpdate ''o'' Refund [AReserved] AComplete no_refs ''t5'']) (\<lambda>_. NoFile))) = Inr (Some e')
    \<and> carried_out e' Release \<and> carried_out e' Refund \<and> st_phase e' = Released"
proof -
  let ?cs = "sample_settlement @ [OUpdate ''o'' Release [AReserved] AFailed no_refs ''t3'',
         OReserve ''o'' Refund JNull ''x:refund'' POpen ''t4'',
         OUpdate ''o'' Refund [AReserved] AComplete no_refs ''t5'']"
  let ?dir = "fold (settlement_step zero_sha (\<lambda>_. [])) ?cs (\<lambda>_. NoFile)"
  have "list_all (settlement_good zero_sha (\<lambda>_. [])) ?cs" by code_simp
  then have inv: "settlement_inv zero_sha ?dir" by (rule settlement_ledger.run_inv [OF settlement_inv_empty])
  have read: "case readEntry zero_sha ''o'' ?dir of Inr (Some e) \<Rightarrow>
      map_option ar_state (map_of (st_actions e) Release) = Some AFailed
      \<and> map_option ar_state (map_of (st_actions e) Refund) = Some AComplete | _ \<Rightarrow> False"
    by code_simp
  then obtain e r q where "readEntry zero_sha ''o'' ?dir = Inr (Some e)"
    "map_of (st_actions e) Release = Some r" "ar_state r = AFailed"
    "map_of (st_actions e) Refund = Some q" "ar_state q = AComplete"
    by (auto split: sum.splits option.splits)
  moreover have "js_trim ''o'' = ''o''" by (simp add: js_trim_def js_space_def)
  ultimately show ?thesis using inv by (intro settlement_failed_release_retry)
qed

end
