(* ===== verification/BigInts.thy ===== *)
theory BigInts
  imports Prelude
begin

text \<open>
  JavaScript's \<open>BigInt(text)\<close> and \<open>toString()\<close> on the strings the wallet code uses for amounts,
  and the helper \<open>parseValue\<close> of \<open>src/wallet/wallet-policy.ts\<close>. A text that is not an integer
  literal makes \<open>BigInt\<close> throw.
\<close>

section \<open>Parsing\<close>

definition digit_value :: "char \<Rightarrow> int option" where
  "digit_value c =
     (let n = of_char c :: int in
      if 48 \<le> n \<and> n \<le> 57 then Some (n - 48)
      else if 97 \<le> n \<and> n \<le> 102 then Some (n - 87)
      else if 65 \<le> n \<and> n \<le> 70 then Some (n - 55) else None)"

fun digits_value :: "int \<Rightarrow> int \<Rightarrow> string \<Rightarrow> int option" where
  "digits_value base acc [] = Some acc"
| "digits_value base acc (c # cs) =
     (case digit_value c of None \<Rightarrow> None
      | Some d \<Rightarrow> if d < base then digits_value base (base * acc + d) cs else None)"

definition literal_value :: "int \<Rightarrow> string \<Rightarrow> int option" where
  "literal_value base s = (if s = [] then None else digits_value base 0 s)"

definition string_to_bigint :: "string \<Rightarrow> int option" where
  "string_to_bigint raw =
     (let s = js_trim raw; prefix = js_lower (take 2 s) in
      if s = [] then Some 0
      else if prefix = ''0x'' then literal_value 16 (drop 2 s)
      else if prefix = ''0o'' then literal_value 8 (drop 2 s)
      else if prefix = ''0b'' then literal_value 2 (drop 2 s)
      else if hd s = CHR ''-'' then map_option uminus (literal_value 10 (tl s))
      else if hd s = CHR ''+'' then literal_value 10 (tl s)
      else literal_value 10 s)"

definition BigInt :: "string \<Rightarrow> int result" where
  "BigInt s = (case string_to_bigint s of
     None \<Rightarrow> Inl (Error (''Cannot convert '' @ s @ '' to a BigInt'')) | Some n \<Rightarrow> Inr n)"

definition parseValue :: "string option \<Rightarrow> int result" where
  "parseValue raw =
     (case raw of None \<Rightarrow> Inr 0
      | Some r \<Rightarrow> if r = [] then Inr 0
        else (let text = js_trim r in if text = [] then Inr 0 else BigInt text))"

definition isNonNegativeIntegerString :: "json option \<Rightarrow> bool" where
  "isNonNegativeIntegerString v =
     (case v of Some (JStr s) \<Rightarrow> s \<noteq> [] \<and> list_all is_digit_char s | _ \<Rightarrow> False)"

section \<open>Printing\<close>

definition digit_char :: "int \<Rightarrow> char" where
  "digit_char d = char_of (48 + d)"

text \<open>The decimal digits of a non-negative number.\<close>

function digits_string :: "int \<Rightarrow> string" where
  "digits_string n = (if n < 10 then [digit_char n] else digits_string (n div 10) @ [digit_char (n mod 10)])"
  by pat_completeness auto
termination by (relation "measure nat") auto

declare digits_string.simps [simp del]

definition bigint_string :: "int \<Rightarrow> string" where
  "bigint_string i = (if i < 0 then CHR ''-'' # digits_string (- i) else digits_string i)"

section \<open>Printing and parsing are inverse\<close>

lemma digit_char_code:
  assumes "0 \<le> d" "d < 10"
  shows "of_char (digit_char d) = 48 + d" and "(of_char (digit_char d) :: nat) = nat (48 + d)"
proof -
  show int: "of_char (digit_char d) = 48 + d" using assms by (simp add: digit_char_def)
  show "(of_char (digit_char d) :: nat) = nat (48 + d)"
    using nat_of_char [of "digit_char d"] by (simp only: int)
qed

lemma digit_value_char: "0 \<le> d \<Longrightarrow> d < 10 \<Longrightarrow> digit_value (digit_char d) = Some d"
  by (simp add: digit_value_def digit_char_code Let_def)

lemma is_digit_digit_char: "0 \<le> d \<Longrightarrow> d < 10 \<Longrightarrow> is_digit_char (digit_char d)"
  by (auto simp: is_digit_char_def digit_char_code Let_def)

lemma digits_string_digits: "0 \<le> n \<Longrightarrow> list_all is_digit_char (digits_string n)"
  by (induction n rule: digits_string.induct) (subst digits_string.simps, auto simp: is_digit_digit_char)

lemma digits_string_not_Nil [simp]: "digits_string n \<noteq> []"
  by (subst digits_string.simps) auto

lemma digits_value_append:
  "digits_value b acc (xs @ ys) =
     (case digits_value b acc xs of None \<Rightarrow> None | Some m \<Rightarrow> digits_value b m ys)"
  by (induction xs arbitrary: acc) (auto split: option.split)

lemma digits_value_string: "0 \<le> n \<Longrightarrow> digits_value 10 0 (digits_string n) = Some n"
  by (induction n rule: digits_string.induct)
    (subst digits_string.simps, auto simp: digits_value_append digit_value_char)

lemma digits_value_nonneg: "digits_value b acc s = Some n \<Longrightarrow> 0 \<le> b \<Longrightarrow> 0 \<le> acc \<Longrightarrow> 0 \<le> n"
proof (induction s arbitrary: acc)
  case (Cons c s)
  then obtain d where "digit_value c = Some d" "digits_value b (b * acc + d) s = Some n"
    by (auto split: option.splits if_splits)
  moreover from this have "0 \<le> d" by (auto simp: digit_value_def Let_def split: if_splits)
  ultimately show ?case using Cons by simp
qed simp

lemma digit_not_space: "is_digit_char c \<Longrightarrow> \<not> js_space c"
  by (auto simp: is_digit_char_def js_space_def Let_def)

lemma trim_no_space: "list_all (\<lambda>c. \<not> js_space c) s \<Longrightarrow> js_trim s = s"
proof -
  assume s: "list_all (\<lambda>c. \<not> js_space c) s"
  have none: "dropWhile js_space xs = xs" if "set xs \<subseteq> set s" for xs
    using s that by (intro dropWhile_hd) (cases xs; auto simp: list_all_iff)
  show ?thesis by (simp add: js_trim_def none)
qed

lemma minus_not_space: "\<not> js_space (CHR ''-'')"
  by (simp add: js_space_def)

lemma digits_not_space: "list_all is_digit_char s \<Longrightarrow> list_all (\<lambda>c. \<not> js_space c) s"
  by (auto simp: list_all_iff digit_not_space)

lemma trim_digits: "list_all is_digit_char s \<Longrightarrow> js_trim s = s"
  by (rule trim_no_space [OF digits_not_space])

lemma js_lower_digit: "is_digit_char c \<Longrightarrow> js_lower_char c = c"
  by (auto simp: is_digit_char_def js_lower_char_def Let_def)

lemma string_to_bigint_digits:
  assumes "list_all is_digit_char s" "s \<noteq> []"
  shows "string_to_bigint s = digits_value 10 0 s"
proof -
  have pre: "js_lower (take 2 s) = take 2 s"
    unfolding js_lower_def by (rule map_idI) (use assms in \<open>auto simp: list_all_iff dest: in_set_takeD intro: js_lower_digit\<close>)
  have second: "take 2 s \<noteq> CHR ''0'' # x # []" if "\<not> is_digit_char x" for x
  proof
    assume "take 2 s = [CHR ''0'', x]"
    then have "x \<in> set (take 2 s)" by simp
    then have "x \<in> set s" by (rule in_set_takeD)
    then show False using assms(1) that by (simp add: list_all_iff)
  qed
  have "hd s \<noteq> CHR ''-''" "hd s \<noteq> CHR ''+''"
    using assms by (cases s; auto simp: is_digit_char_def)+
  then show ?thesis using assms trim_digits [OF assms(1)] second
    by (simp add: string_to_bigint_def Let_def pre literal_value_def is_digit_char_def)
qed

lemma BigInt_string [simp]: "BigInt (bigint_string i) = Inr i"
proof (cases "i < 0")
  case True
  then have "js_trim (CHR ''-'' # digits_string (- i)) = CHR ''-'' # digits_string (- i)"
    by (intro trim_no_space) (simp add: minus_not_space digits_not_space digits_string_digits)
  then show ?thesis using True
    by (simp add: BigInt_def bigint_string_def string_to_bigint_def Let_def js_lower_def js_lower_char_def
        literal_value_def digits_value_string)
next
  case False
  then show ?thesis
    by (simp add: BigInt_def bigint_string_def string_to_bigint_digits digits_string_digits digits_value_string)
qed

lemma bigint_string_trim [simp]: "js_trim (bigint_string i) = bigint_string i"
  by (rule trim_no_space)
    (simp add: bigint_string_def minus_not_space digits_not_space digits_string_digits)

lemma bigint_string_not_Nil [simp]: "bigint_string i \<noteq> []"
  by (simp add: bigint_string_def)

lemma parseValue_string [simp]: "parseValue (Some (bigint_string i)) = Inr i"
  by (simp add: parseValue_def Let_def)

lemma digit_value_digit: "is_digit_char c \<Longrightarrow> \<exists>d. digit_value c = Some d \<and> d < 10"
proof -
  assume "is_digit_char c"
  moreover have "(of_char c :: int) = int (of_char c)" by (simp only: of_nat_of_char)
  ultimately show ?thesis unfolding digit_value_def is_digit_char_def Let_def by auto
qed

lemma digits_value_Some:
  assumes "list_all is_digit_char s"
  shows "\<exists>n. digits_value 10 acc s = Some n"
  using assms
proof (induction s arbitrary: acc)
  case (Cons c s)
  have "\<exists>d. digit_value c = Some d \<and> d < 10"
    using Cons.prems digit_value_digit by simp
  then show ?case using Cons by auto
qed simp

lemma parseValue_digits: "list_all is_digit_char s \<Longrightarrow> \<exists>n \<ge> 0. parseValue (Some s) = Inr n"
  using digits_value_Some [of s 0] digits_value_nonneg [of 10 0 s]
  by (auto simp: parseValue_def Let_def BigInt_def trim_digits string_to_bigint_digits)

lemma digits_bigint_string: "isNonNegativeIntegerString (Some (JStr (bigint_string i))) \<longleftrightarrow> 0 \<le> i"
  by (auto simp: isNonNegativeIntegerString_def bigint_string_def digits_string_digits is_digit_char_def)

end
