(* ===== verification/WalletUsage.thy ===== *)
theory WalletUsage
  imports BigInts "HOL-Library.AList"
begin

text \<open>
  The daily usage ledger of \<open>src/wallet/wallet-policy.ts\<close>: per wallet, the lamports and the token
  amounts spent on the ledger's date, kept as decimal strings, and the two operations that hold a
  spend against the daily caps, \<open>checkWalletDailyCap\<close> (a preview) and \<open>enforceWalletDailyCap\<close>
  (which books the spend). \<open>today\<close> is the current date key. Objects used as dictionaries are
  association lists in insertion order: \<open>d[k] = v\<close> is \<open>AList.update k v d\<close>, \<open>delete d[k]\<close> is
  \<open>AList.delete k d\<close>.
\<close>

section \<open>Data\<close>

record token_cap =
  tc_maxPerTx :: int
  tc_maxDaily :: int

record wallet_policy =
  wp_capsEnabled :: bool
  wp_directSigning :: bool
  wp_skillsEnabled :: bool
  wp_allowPrograms :: "string list"
  wp_maxPerTx :: int
  wp_maxDaily :: int
  wp_tokenCaps :: "(string \<times> token_cap) list"

record usage_bucket =
  ub_solanaSpent :: string
  ub_solanaTokenSpent :: "(string \<times> string) list"

record usage_ledger =
  ul_date :: string
  ul_wallets :: "(string \<times> usage_bucket) list"

definition LEDGER_LEGACY_GLOBAL_BUCKET_ID :: string where
  "LEDGER_LEGACY_GLOBAL_BUCKET_ID = ''__legacy_global__''"

definition DEFAULT_EFFECTIVE_WALLET_ID :: string where
  "DEFAULT_EFFECTIVE_WALLET_ID = ''__default__''"

definition defaultWalletUsageBucket :: usage_bucket where
  "defaultWalletUsageBucket = \<lparr>ub_solanaSpent = ''0'', ub_solanaTokenSpent = []\<rparr>"

definition defaultWalletUsageLedger :: "string \<Rightarrow> usage_ledger" where
  "defaultWalletUsageLedger today = \<lparr>ul_date = today, ul_wallets = []\<rparr>"

section \<open>Reading and writing the ledger\<close>

text \<open>The loops over \<open>Object.entries\<close> that build a new dictionary and stop at the first bad entry.\<close>

fun normalizeTokenSpent :: "(string \<times> string) list \<Rightarrow> js_object \<Rightarrow> (string \<times> string) list option" where
  "normalizeTokenSpent acc [] = Some acc"
| "normalizeTokenSpent acc ((mintRaw, spent) # rest) =
     (let mint = js_trim mintRaw
      in if mint = [] \<or> \<not> isNonNegativeIntegerString (Some spent) then None
         else normalizeTokenSpent (AList.update mint (the_string (Some spent)) acc) rest)"

definition normalizeWalletUsageBucket :: "json \<Rightarrow> usage_bucket option" where
  "normalizeWalletUsageBucket raw =
     (case as_record (Some raw) of None \<Rightarrow> None
      | Some value \<Rightarrow>
        if \<not> isNonNegativeIntegerString (get_prop value ''solanaSpent'') then None
        else (case as_record (get_prop value ''solanaTokenSpent'') of None \<Rightarrow> None
          | Some tokens \<Rightarrow>
            (case normalizeTokenSpent [] tokens of None \<Rightarrow> None
             | Some spent \<Rightarrow> Some \<lparr>ub_solanaSpent = the_string (get_prop value ''solanaSpent''),
                                   ub_solanaTokenSpent = spent\<rparr>)))"

fun normalizeBuckets :: "(string \<times> usage_bucket) list \<Rightarrow> js_object \<Rightarrow> (string \<times> usage_bucket) list option" where
  "normalizeBuckets acc [] = Some acc"
| "normalizeBuckets acc ((walletId, bucketRaw) # rest) =
     (case normalizeWalletUsageBucket bucketRaw of None \<Rightarrow> None
      | Some bucket \<Rightarrow> if js_trim walletId = [] then None
                       else normalizeBuckets (AList.update (js_trim walletId) bucket acc) rest)"

definition usage_unreadable :: "'a result" where
  "usage_unreadable = Inl (Error ''wallet usage ledger is unreadable; refusing to reset spend counters'')"

definition loadUsage :: "string \<Rightarrow> state_file \<Rightarrow> usage_ledger result" where
  "loadUsage today file =
     (case file of NoFile \<Rightarrow> Inr (defaultWalletUsageLedger today)
      | Unparsable \<Rightarrow> usage_unreadable
      | Document j \<Rightarrow>
        (case as_record (Some j) of None \<Rightarrow> usage_unreadable
         | Some parsed \<Rightarrow>
           let date = get_prop parsed ''date'' in
           if get_prop parsed ''version'' = Some (JNum (Fin 2)) \<and> is_string date
           then (case as_record (get_prop parsed ''wallets'') of None \<Rightarrow> usage_unreadable
             | Some walletsRaw \<Rightarrow>
               (case normalizeBuckets [] walletsRaw of None \<Rightarrow> usage_unreadable
                | Some wallets \<Rightarrow> Inr \<lparr>ul_date = the_string date, ul_wallets = wallets\<rparr>))
           else if get_prop parsed ''version'' = Some (JNum (Fin 1)) \<and> is_string date
             \<and> isNonNegativeIntegerString (get_prop parsed ''solanaSpent'')
           then Inr \<lparr>ul_date = the_string date,
                     ul_wallets = [(LEDGER_LEGACY_GLOBAL_BUCKET_ID,
                       \<lparr>ub_solanaSpent = the_string (get_prop parsed ''solanaSpent''), ub_solanaTokenSpent = []\<rparr>)]\<rparr>
           else usage_unreadable))"

definition bucket_json :: "usage_bucket \<Rightarrow> json" where
  "bucket_json b = JObj [(''solanaSpent'', JStr (ub_solanaSpent b)),
     (''solanaTokenSpent'', JObj (map (\<lambda>(m, s). (m, JStr s)) (ub_solanaTokenSpent b)))]"

definition writeUsage :: "usage_ledger \<Rightarrow> state_file" where
  "writeUsage ledger = Document (JObj [(''version'', JNum (Fin 2)), (''date'', JStr (ul_date ledger)),
     (''wallets'', JObj (map (\<lambda>(w, b). (w, bucket_json b)) (ul_wallets ledger)))])"

definition normalized_wallet_id :: "string option \<Rightarrow> string" where
  "normalized_wallet_id walletId =
     (case trim_or_undef walletId of None \<Rightarrow> DEFAULT_EFFECTIVE_WALLET_ID | Some w \<Rightarrow> w)"

text \<open>
  \<open>resolveWalletUsageBucket\<close> returns a bucket that stays part of the ledger: the model returns its
  key with the bucket and the changed ledger.
\<close>

definition resolveWalletUsageBucket ::
    "usage_ledger \<Rightarrow> string option \<Rightarrow> string \<times> usage_bucket \<times> usage_ledger" where
  "resolveWalletUsageBucket ledger walletId =
     (let w = normalized_wallet_id walletId; wallets = ul_wallets ledger in
      case map_of wallets w of Some existing \<Rightarrow> (w, existing, ledger)
      | None \<Rightarrow>
        (case map_of wallets LEDGER_LEGACY_GLOBAL_BUCKET_ID of
           Some legacy \<Rightarrow> (w, legacy, ledger\<lparr>ul_wallets :=
             AList.delete LEDGER_LEGACY_GLOBAL_BUCKET_ID (AList.update w legacy wallets)\<rparr>)
         | None \<Rightarrow> (w, defaultWalletUsageBucket,
                   ledger\<lparr>ul_wallets := AList.update w defaultWalletUsageBucket wallets\<rparr>)))"

definition readWalletUsageBucket :: "usage_ledger \<Rightarrow> string option \<Rightarrow> usage_bucket" where
  "readWalletUsageBucket ledger walletId =
     (case map_of (ul_wallets ledger) (normalized_wallet_id walletId) of Some b \<Rightarrow> b
      | None \<Rightarrow> (case map_of (ul_wallets ledger) LEDGER_LEGACY_GLOBAL_BUCKET_ID of Some b \<Rightarrow> b
                 | None \<Rightarrow> defaultWalletUsageBucket))"

section \<open>The daily caps\<close>

record cap_verdict =
  cv_ok :: bool
  cv_code :: "string option"
  cv_message :: "string option"
  cv_spentToday :: "string option"
  cv_limit :: "string option"

definition plain_ok :: cap_verdict where
  "plain_ok = \<lparr>cv_ok = True, cv_code = None, cv_message = None, cv_spentToday = None, cv_limit = None\<rparr>"

definition ok_spent :: "string \<Rightarrow> string \<Rightarrow> cap_verdict" where
  "ok_spent spent limit = plain_ok\<lparr>cv_spentToday := Some spent, cv_limit := Some limit\<rparr>"

definition exceeded :: "string \<Rightarrow> string \<Rightarrow> string \<Rightarrow> string \<Rightarrow> cap_verdict" where
  "exceeded code message spent limit =
     \<lparr>cv_ok = False, cv_code = Some code, cv_message = Some message, cv_spentToday = Some spent, cv_limit = Some limit\<rparr>"

definition token_exceeded :: "int \<Rightarrow> int \<Rightarrow> cap_verdict" where
  "token_exceeded spent limit = exceeded ''wallet_token_cap_daily_exceeded'' ''SPL token daily cap exceeded''
     (bigint_string spent) (bigint_string limit)"

definition native_exceeded :: "int \<Rightarrow> int \<Rightarrow> cap_verdict" where
  "native_exceeded spent limit = exceeded ''wallet_cap_daily_exceeded'' ''Solana daily cap exceeded''
     (bigint_string spent) (bigint_string limit)"

record spend =
  sq_amount :: "string option"
  sq_program :: "string option"
  sq_tokenMint :: "string option"
  sq_walletId :: "string option"
  sq_skipNativeSolanaCaps :: bool

text \<open>\<open>String(params.tokenMint ?? params.program ?? "").trim()\<close>\<close>

definition spend_mint :: "spend \<Rightarrow> string" where
  "spend_mint q = js_trim (case sq_tokenMint q of Some m \<Rightarrow> m | None \<Rightarrow> opt_str (sq_program q))"

definition checkWalletDailyCap :: "wallet_policy \<Rightarrow> spend \<Rightarrow> string \<Rightarrow> state_file \<Rightarrow> cap_verdict result" where
  "checkWalletDailyCap pol q today file =
     bind_r (parseValue (sq_amount q)) (\<lambda>amount.
     if \<not> wp_capsEnabled pol then Inr plain_ok
     else bind_r (loadUsage today file) (\<lambda>ledger.
     let bucket = (if ul_date ledger = today then readWalletUsageBucket ledger (sq_walletId q)
                   else defaultWalletUsageBucket);
         tokenMint = spend_mint q; nativeSolanaSend = (tokenMint = []) in
     if \<not> nativeSolanaSend \<or> sq_skipNativeSolanaCaps q
     then if tokenMint = [] \<or> sq_skipNativeSolanaCaps q then Inr plain_ok
       else (case map_of (wp_tokenCaps pol) tokenMint of None \<Rightarrow> Inr plain_ok
         | Some cap \<Rightarrow>
           if tc_maxDaily cap \<le> 0 then Inr plain_ok
           else bind_r (parseValue (map_of (ub_solanaTokenSpent bucket) tokenMint)) (\<lambda>spent.
             let nxt = spent + amount in
             if nxt > tc_maxDaily cap then Inr (token_exceeded spent (tc_maxDaily cap))
             else Inr (ok_spent (bigint_string nxt) (bigint_string (tc_maxDaily cap)))))
     else bind_r (parseValue (Some (ub_solanaSpent bucket))) (\<lambda>spent.
       let limit = wp_maxDaily pol; nxt = spent + amount in
       if nxt > limit then Inr (native_exceeded spent limit)
       else Inr (ok_spent (bigint_string nxt) (bigint_string limit)))))"

text \<open>The part of \<open>enforceWalletDailyCap\<close> after its preview; a throw leaves the file as it is.\<close>

definition book_spend ::
    "wallet_policy \<Rightarrow> spend \<Rightarrow> int \<Rightarrow> usage_ledger \<Rightarrow> state_file \<Rightarrow> cap_verdict result \<times> state_file" where
  "book_spend pol q amount dated file =
     (let (w, bucket, ledger) = resolveWalletUsageBucket dated (sq_walletId q);
          tokenMint = spend_mint q; nativeSolanaSend = (tokenMint = []) in
      if \<not> nativeSolanaSend \<or> sq_skipNativeSolanaCaps q
      then if tokenMint = [] \<or> sq_skipNativeSolanaCaps q then (Inr plain_ok, file)
        else (case map_of (wp_tokenCaps pol) tokenMint of None \<Rightarrow> (Inr plain_ok, file)
          | Some cap \<Rightarrow>
            if tc_maxDaily cap \<le> 0 then (Inr plain_ok, file)
            else (case parseValue (map_of (ub_solanaTokenSpent bucket) tokenMint) of Inl e \<Rightarrow> (Inl e, file)
              | Inr spent \<Rightarrow>
                let nxt = spent + amount in
                if nxt > tc_maxDaily cap then (Inr (token_exceeded spent (tc_maxDaily cap)), file)
                else (Inr (ok_spent (bigint_string nxt) (bigint_string (tc_maxDaily cap))),
                      writeUsage (ledger\<lparr>ul_wallets := AList.update w
                        (bucket\<lparr>ub_solanaTokenSpent := AList.update tokenMint (bigint_string nxt)
                           (ub_solanaTokenSpent bucket)\<rparr>) (ul_wallets ledger)\<rparr>))))
      else (case parseValue (Some (ub_solanaSpent bucket)) of Inl e \<Rightarrow> (Inl e, file)
        | Inr spent \<Rightarrow>
          let limit = wp_maxDaily pol; nxt = spent + amount in
          if nxt > limit then (Inr (native_exceeded spent limit), file)
          else (Inr (ok_spent (bigint_string nxt) (bigint_string limit)),
                writeUsage (ledger\<lparr>ul_wallets := AList.update w
                  (bucket\<lparr>ub_solanaSpent := bigint_string nxt\<rparr>) (ul_wallets ledger)\<rparr>))))"

definition enforceWalletDailyCap ::
    "wallet_policy \<Rightarrow> spend \<Rightarrow> string \<Rightarrow> state_file \<Rightarrow> cap_verdict result \<times> state_file" where
  "enforceWalletDailyCap pol q today file =
     (case checkWalletDailyCap pol q today file of Inl e \<Rightarrow> (Inl e, file)
      | Inr preview \<Rightarrow>
        if \<not> cv_ok preview \<or> \<not> wp_capsEnabled pol then (Inr preview, file)
        else (case parseValue (sq_amount q) of Inl e \<Rightarrow> (Inl e, file)
          | Inr amount \<Rightarrow>
            (case loadUsage today file of Inl e \<Rightarrow> (Inl e, file)
             | Inr ledger \<Rightarrow>
               book_spend pol q amount
                 (if ul_date ledger \<noteq> today then ledger\<lparr>ul_date := today, ul_wallets := []\<rparr> else ledger) file)))"

section \<open>The ledger is read back as written\<close>

definition digits :: "string \<Rightarrow> bool" where
  "digits s \<longleftrightarrow> s \<noteq> [] \<and> list_all is_digit_char s"

definition tokens_wf :: "(string \<times> string) list \<Rightarrow> bool" where
  "tokens_wf xs \<longleftrightarrow> distinct (map fst xs) \<and> (\<forall>(m, s) \<in> set xs. js_trim m = m \<and> m \<noteq> [] \<and> digits s)"

definition bucket_wf :: "usage_bucket \<Rightarrow> bool" where
  "bucket_wf b \<longleftrightarrow> digits (ub_solanaSpent b) \<and> tokens_wf (ub_solanaTokenSpent b)"

definition wallets_wf :: "(string \<times> usage_bucket) list \<Rightarrow> bool" where
  "wallets_wf ws \<longleftrightarrow> distinct (map fst ws) \<and> (\<forall>(w, b) \<in> set ws. js_trim w = w \<and> w \<noteq> [] \<and> bucket_wf b)"

definition usage_wf :: "usage_ledger \<Rightarrow> bool" where
  "usage_wf l \<longleftrightarrow> wallets_wf (ul_wallets l)"

lemma digits_check [simp]: "isNonNegativeIntegerString (Some (JStr s)) \<longleftrightarrow> digits s"
  by (simp add: isNonNegativeIntegerString_def digits_def)

lemma digits_checkD: "isNonNegativeIntegerString v \<Longrightarrow> digits (the_string v)"
  by (auto simp: isNonNegativeIntegerString_def digits_def the_string_def split: option.splits json.splits)

lemma digits_bigint [simp]: "digits (bigint_string n) \<longleftrightarrow> 0 \<le> n"
  using digits_bigint_string by simp

lemma AList_update_new: "k \<notin> fst ` set xs \<Longrightarrow> AList.update k v xs = xs @ [(k, v)]"
  by (induction xs) auto

lemma AList_update_ball:
  "\<forall>x \<in> set xs. P x \<Longrightarrow> P (k, v) \<Longrightarrow> \<forall>x \<in> set (AList.update k v xs). P x"
  by (induction xs) auto

lemma tokens_wf_update:
  "tokens_wf xs \<Longrightarrow> js_trim m = m \<Longrightarrow> m \<noteq> [] \<Longrightarrow> digits v \<Longrightarrow> tokens_wf (AList.update m v xs)"
  unfolding tokens_wf_def by (intro conjI AList_update_ball) (auto simp: distinct_update)

lemma wallets_wf_update:
  "wallets_wf xs \<Longrightarrow> js_trim w = w \<Longrightarrow> w \<noteq> [] \<Longrightarrow> bucket_wf v \<Longrightarrow> wallets_wf (AList.update w v xs)"
  unfolding wallets_wf_def by (intro conjI AList_update_ball) (auto simp: distinct_update)

lemma wf_Nil [simp]: "tokens_wf []" "wallets_wf []"
  by (simp_all add: tokens_wf_def wallets_wf_def)

lemma normalizeTokenSpent_print:
  "tokens_wf (acc @ xs) \<Longrightarrow> normalizeTokenSpent acc (map (\<lambda>(m, s). (m, JStr s)) xs) = Some (acc @ xs)"
  by (induction xs arbitrary: acc) (auto simp: tokens_wf_def AList_update_new)

lemma normalizeTokenSpent_wf: "normalizeTokenSpent acc raw = Some out \<Longrightarrow> tokens_wf acc \<Longrightarrow> tokens_wf out"
  by (induction acc raw rule: normalizeTokenSpent.induct)
    (auto simp: Let_def tokens_wf_update digits_checkD split: if_splits)

lemma normalizeWalletUsageBucket_json [simp]:
  "bucket_wf b \<Longrightarrow> normalizeWalletUsageBucket (bucket_json b) = Some b"
  using normalizeTokenSpent_print [of "[]" "ub_solanaTokenSpent b"]
  by (simp add: normalizeWalletUsageBucket_def bucket_json_def bucket_wf_def)

lemma normalizeWalletUsageBucket_wf: "normalizeWalletUsageBucket raw = Some b \<Longrightarrow> bucket_wf b"
  by (auto simp: normalizeWalletUsageBucket_def bucket_wf_def digits_checkD dest: normalizeTokenSpent_wf
      split: option.splits if_splits)

lemma normalizeBuckets_print:
  "wallets_wf (acc @ xs) \<Longrightarrow> normalizeBuckets acc (map (\<lambda>(w, b). (w, bucket_json b)) xs) = Some (acc @ xs)"
  by (induction xs arbitrary: acc) (auto simp: wallets_wf_def AList_update_new)

lemma normalizeBuckets_wf: "normalizeBuckets acc raw = Some out \<Longrightarrow> wallets_wf acc \<Longrightarrow> wallets_wf out"
  by (induction acc raw rule: normalizeBuckets.induct)
    (auto simp: wallets_wf_update normalizeWalletUsageBucket_wf split: if_splits option.splits)

lemma load_write_usage [simp]: "usage_wf l \<Longrightarrow> loadUsage today (writeUsage l) = Inr l"
  using normalizeBuckets_print [of "[]" "ul_wallets l"]
  by (simp add: loadUsage_def writeUsage_def usage_wf_def Let_def)

lemma legacy_bucket_wf:
  "isNonNegativeIntegerString v \<Longrightarrow>
   wallets_wf [(LEDGER_LEGACY_GLOBAL_BUCKET_ID, \<lparr>ub_solanaSpent = the_string v, ub_solanaTokenSpent = []\<rparr>)]"
  by (simp add: wallets_wf_def bucket_wf_def digits_checkD LEDGER_LEGACY_GLOBAL_BUCKET_ID_def js_trim_def js_space_def)

lemma loadUsage_wf: "loadUsage today f = Inr l \<Longrightarrow> usage_wf l"
  by (auto simp: loadUsage_def usage_wf_def defaultWalletUsageLedger_def usage_unreadable_def Let_def legacy_bucket_wf
      dest: normalizeBuckets_wf split: state_file.splits option.splits if_splits)

section \<open>Counters\<close>

text \<open>What a spend is held against: the lamports of the wallet, the amount of one token, or nothing.\<close>

datatype counter = NativeSpend | TokenSpend string

definition held_against :: "wallet_policy \<Rightarrow> spend \<Rightarrow> (counter \<times> int) option" where
  "held_against pol q =
     (if sq_skipNativeSolanaCaps q then None
      else if spend_mint q = [] then Some (NativeSpend, wp_maxDaily pol)
      else (case map_of (wp_tokenCaps pol) (spend_mint q) of None \<Rightarrow> None
        | Some cap \<Rightarrow> if tc_maxDaily cap \<le> 0 then None else Some (TokenSpend (spend_mint q), tc_maxDaily cap)))"

fun counter_text :: "usage_bucket \<Rightarrow> counter \<Rightarrow> string option" where
  "counter_text b NativeSpend = Some (ub_solanaSpent b)"
| "counter_text b (TokenSpend m) = map_of (ub_solanaTokenSpent b) m"

fun set_counter :: "counter \<Rightarrow> int \<Rightarrow> usage_bucket \<Rightarrow> usage_bucket" where
  "set_counter NativeSpend n b = b\<lparr>ub_solanaSpent := bigint_string n\<rparr>"
| "set_counter (TokenSpend m) n b =
     b\<lparr>ub_solanaTokenSpent := AList.update m (bigint_string n) (ub_solanaTokenSpent b)\<rparr>"

definition bucket_count :: "usage_bucket \<Rightarrow> counter \<Rightarrow> int" where
  "bucket_count b c = (case parseValue (counter_text b c) of Inl _ \<Rightarrow> 0 | Inr n \<Rightarrow> n)"

definition bucket_at :: "usage_ledger \<Rightarrow> string \<Rightarrow> usage_bucket" where
  "bucket_at l w = (case map_of (ul_wallets l) w of Some b \<Rightarrow> b
     | None \<Rightarrow> (case map_of (ul_wallets l) LEDGER_LEGACY_GLOBAL_BUCKET_ID of Some b \<Rightarrow> b
                | None \<Rightarrow> defaultWalletUsageBucket))"

definition as_of :: "string \<Rightarrow> usage_ledger \<Rightarrow> usage_ledger" where
  "as_of today l = (if ul_date l \<noteq> today then l\<lparr>ul_date := today, ul_wallets := []\<rparr> else l)"

definition spent_on :: "string \<Rightarrow> state_file \<Rightarrow> string \<Rightarrow> counter \<Rightarrow> int" where
  "spent_on today file w c =
     (case loadUsage today file of Inl _ \<Rightarrow> 0 | Inr l \<Rightarrow> bucket_count (bucket_at (as_of today l) w) c)"

fun verdict :: "counter \<Rightarrow> int \<Rightarrow> int \<Rightarrow> int \<Rightarrow> cap_verdict" where
  "verdict NativeSpend spent n limit = (if spent + n > limit then native_exceeded spent limit
     else ok_spent (bigint_string (spent + n)) (bigint_string limit))"
| "verdict (TokenSpend m) spent n limit = (if spent + n > limit then token_exceeded spent limit
     else ok_spent (bigint_string (spent + n)) (bigint_string limit))"

definition booked :: "usage_ledger \<Rightarrow> string option \<Rightarrow> counter \<Rightarrow> int \<Rightarrow> usage_ledger" where
  "booked l walletId c n =
     (let (w, bucket, l') = resolveWalletUsageBucket l walletId
      in l'\<lparr>ul_wallets := AList.update w (set_counter c n bucket) (ul_wallets l')\<rparr>)"

definition no_legacy :: "string \<Rightarrow> state_file \<Rightarrow> bool" where
  "no_legacy today file \<longleftrightarrow>
     (\<forall>l. loadUsage today file = Inr l \<longrightarrow> map_of (ul_wallets l) LEDGER_LEGACY_GLOBAL_BUCKET_ID = None)"

lemma as_of_wf: "usage_wf l \<Longrightarrow> usage_wf (as_of today l)"
  by (simp add: as_of_def usage_wf_def)

lemma as_of_date [simp]: "ul_date (as_of today l) = today"
  by (simp add: as_of_def)

lemma default_bucket_wf: "bucket_wf defaultWalletUsageBucket"
  by (simp add: bucket_wf_def defaultWalletUsageBucket_def digits_def is_digit_char_def)

lemma bucket_at_wf: "usage_wf l \<Longrightarrow> bucket_wf (bucket_at l w)"
  by (fastforce simp: bucket_at_def usage_wf_def wallets_wf_def default_bucket_wf dest!: map_of_SomeD split: option.split)

lemma counter_parses: "bucket_wf b \<Longrightarrow> parseValue (counter_text b c) = Inr (bucket_count b c) \<and> 0 \<le> bucket_count b c"
proof -
  assume "bucket_wf b"
  then have "\<exists>n \<ge> 0. parseValue (counter_text b c) = Inr n"
  proof (cases c)
    case (TokenSpend m)
    show ?thesis
    proof (cases "map_of (ub_solanaTokenSpent b) m")
      case None
      then show ?thesis using TokenSpend by (simp add: parseValue_def)
    next
      case (Some s)
      then have "digits s" using \<open>bucket_wf b\<close> by (auto simp: bucket_wf_def tokens_wf_def dest!: map_of_SomeD)
      then show ?thesis using TokenSpend Some parseValue_digits by (simp add: digits_def)
    qed
  qed (auto simp: bucket_wf_def digits_def dest: parseValue_digits)
  then show ?thesis by (auto simp: bucket_count_def)
qed

lemma bucket_count_set [simp]:
  "bucket_count (set_counter c n b) c' = (if c' = c then n else bucket_count b c')"
  by (cases c; cases c') (auto simp: bucket_count_def update_conv)

lemma set_counter_wf: "bucket_wf b \<Longrightarrow> 0 \<le> n \<Longrightarrow> (\<forall>m. c = TokenSpend m \<longrightarrow> js_trim m = m \<and> m \<noteq> []) \<Longrightarrow> bucket_wf (set_counter c n b)"
  by (cases c) (auto simp: bucket_wf_def intro: tokens_wf_update)

lemma resolve_bucket:
  "resolveWalletUsageBucket l walletId = (w, b, l') \<Longrightarrow>
   w = normalized_wallet_id walletId \<and> b = bucket_at l w \<and> ul_date l' = ul_date l"
  by (auto simp: resolveWalletUsageBucket_def bucket_at_def Let_def split: option.splits)

lemma read_bucket: "readWalletUsageBucket l walletId = bucket_at l (normalized_wallet_id walletId)"
  by (simp add: readWalletUsageBucket_def bucket_at_def)

lemma bucket_at_as_of:
  "(if ul_date l = today then bucket_at l w else defaultWalletUsageBucket) = bucket_at (as_of today l) w"
  by (simp add: as_of_def bucket_at_def)

lemma held_token: "held_against pol q = Some (TokenSpend m, limit) \<Longrightarrow> js_trim m = m \<and> m \<noteq> []"
  by (auto simp: held_against_def spend_mint_def split: if_splits option.splits)

lemma normalized_wallet_id_ok: "js_trim (normalized_wallet_id walletId) = normalized_wallet_id walletId \<and> normalized_wallet_id walletId \<noteq> []"
  using trim_or_undef_Some [of walletId]
  by (auto simp: normalized_wallet_id_def DEFAULT_EFFECTIVE_WALLET_ID_def js_trim_def js_space_def split: option.splits)

lemma check_spec:
  assumes "wp_capsEnabled pol" "parseValue (sq_amount q) = Inr n" "loadUsage today file = Inr l"
  shows "checkWalletDailyCap pol q today file = Inr (case held_against pol q of None \<Rightarrow> plain_ok
    | Some (c, limit) \<Rightarrow> verdict c (spent_on today file (normalized_wallet_id (sq_walletId q)) c) n limit)"
proof -
  let ?b = "bucket_at (as_of today l) (normalized_wallet_id (sq_walletId q))"
  have wf: "bucket_wf ?b" by (rule bucket_at_wf [OF as_of_wf [OF loadUsage_wf [OF assms(3)]]])
  have native: "parseValue (Some (ub_solanaSpent ?b)) = Inr (bucket_count ?b NativeSpend)"
    using counter_parses [OF wf, of NativeSpend] by simp
  have token: "parseValue (map_of (ub_solanaTokenSpent ?b) m) = Inr (bucket_count ?b (TokenSpend m))" for m
    using counter_parses [OF wf, of "TokenSpend m"] by simp
  have spent: "spent_on today file (normalized_wallet_id (sq_walletId q)) c = bucket_count ?b c" for c
    using assms(3) by (simp add: spent_on_def)
  show ?thesis
    unfolding checkWalletDailyCap_def assms(2,3) bind_r_simps read_bucket bucket_at_as_of
    using assms(1) native token by (simp add: held_against_def spent Let_def split: option.split)
qed

lemma enforce_spec:
  assumes "wp_capsEnabled pol" "parseValue (sq_amount q) = Inr n" "loadUsage today file = Inr l"
  shows "enforceWalletDailyCap pol q today file = (checkWalletDailyCap pol q today file,
    case held_against pol q of None \<Rightarrow> file
    | Some (c, limit) \<Rightarrow> let spent = spent_on today file (normalized_wallet_id (sq_walletId q)) c
        in if spent + n > limit then file else writeUsage (booked (as_of today l) (sq_walletId q) c (spent + n)))"
proof -
  obtain w b l' where res: "resolveWalletUsageBucket (as_of today l) (sq_walletId q) = (w, b, l')"
    by (cases "resolveWalletUsageBucket (as_of today l) (sq_walletId q)") auto
  have b: "w = normalized_wallet_id (sq_walletId q)" "b = bucket_at (as_of today l) w"
    using resolve_bucket [OF res] by simp_all
  have wf: "bucket_wf b" unfolding b(2) by (rule bucket_at_wf [OF as_of_wf [OF loadUsage_wf [OF assms(3)]]])
  have native: "parseValue (Some (ub_solanaSpent b)) = Inr (bucket_count b NativeSpend)"
    using counter_parses [OF wf, of NativeSpend] by simp
  have token: "parseValue (map_of (ub_solanaTokenSpent b) m) = Inr (bucket_count b (TokenSpend m))" for m
    using counter_parses [OF wf, of "TokenSpend m"] by simp
  have spent: "spent_on today file w c = bucket_count b c" for c
    using assms(3) by (simp add: spent_on_def b(2))
  note check = check_spec [OF assms, folded b(1)]
  show ?thesis
    using assms native token
    by (simp add: enforceWalletDailyCap_def check held_against_def book_spend_def res booked_def spent Let_def
        as_of_def [symmetric] b(1) [symmetric] native_exceeded_def token_exceeded_def exceeded_def ok_spent_def plain_ok_def
        split: option.split)
qed

lemma booked_wf:
  assumes "usage_wf l" "0 \<le> n" "\<forall>m. c = TokenSpend m \<longrightarrow> js_trim m = m \<and> m \<noteq> []"
  shows "usage_wf (booked l walletId c n)"
proof -
  obtain w b l' where res: "resolveWalletUsageBucket l walletId = (w, b, l')"
    by (cases "resolveWalletUsageBucket l walletId") auto
  have w: "w = normalized_wallet_id walletId" and b: "b = bucket_at l w"
    using resolve_bucket [OF res] by simp_all
  have "wallets_wf (ul_wallets l')"
  proof -
    have base: "wallets_wf (ul_wallets l)" using assms(1) by (simp add: usage_wf_def)
    have up: "wallets_wf (AList.update w v (ul_wallets l))" if "bucket_wf v" for v
      using wallets_wf_update [OF base _ _ that] normalized_wallet_id_ok w by simp
    have del: "wallets_wf (AList.delete k xs)" if "wallets_wf xs" for k xs
    proof -
      have "set (AList.delete k xs) \<subseteq> set xs" by (simp add: AList.delete_eq)
      then show ?thesis using that unfolding wallets_wf_def by (auto intro: distinct_delete)
    qed
    have found: "bucket_wf v" if "map_of (ul_wallets l) k = Some v" for k v
      using base map_of_SomeD [OF that] by (auto simp: wallets_wf_def)
    show ?thesis using res base up [OF default_bucket_wf] del [OF up] found
      by (auto simp: resolveWalletUsageBucket_def Let_def split: option.splits)
  qed
  moreover have "bucket_wf (set_counter c n b)"
    using set_counter_wf [OF _ assms(2,3)] bucket_at_wf [OF assms(1)] b by simp
  ultimately show ?thesis using normalized_wallet_id_ok w
    by (simp add: booked_def res usage_wf_def wallets_wf_update)
qed

lemma booked_count:
  assumes "map_of (ul_wallets l) LEDGER_LEGACY_GLOBAL_BUCKET_ID = None"
    and "normalized_wallet_id walletId \<noteq> LEDGER_LEGACY_GLOBAL_BUCKET_ID"
  shows "bucket_count (bucket_at (booked l walletId c n) w') c' =
      (if w' = normalized_wallet_id walletId \<and> c' = c then n else bucket_count (bucket_at l w') c')"
    and "map_of (ul_wallets (booked l walletId c n)) LEDGER_LEGACY_GLOBAL_BUCKET_ID = None"
    and "ul_date (booked l walletId c n) = ul_date l"
  using assms
  by (auto simp: booked_def resolveWalletUsageBucket_def bucket_at_def Let_def update_conv split: option.split)

lemma as_of_no_legacy:
  "map_of (ul_wallets l) k = None \<Longrightarrow> map_of (ul_wallets (as_of today l)) k = None"
  by (simp add: as_of_def)

text \<open>One booked spend moves one counter, by the amount, and not beyond the limit.\<close>

definition spend_outcome ::
    "wallet_policy \<Rightarrow> spend \<Rightarrow> string \<Rightarrow> state_file \<Rightarrow> cap_verdict result \<Rightarrow> state_file \<Rightarrow> bool" where
  "spend_outcome pol q today file r file' \<longleftrightarrow> file' = file \<and> (\<forall>v c limit. r = Inr v \<longrightarrow> held_against pol q = Some (c, limit) \<longrightarrow> \<not> cv_ok v)
      \<or> (\<exists>v n c limit. r = Inr v \<and> cv_ok v \<and> parseValue (sq_amount q) = Inr n \<and> held_against pol q = Some (c, limit)
          \<and> spent_on today file (normalized_wallet_id (sq_walletId q)) c + n \<le> limit
          \<and> (\<forall>w' c'. spent_on today file' w' c' = spent_on today file w' c'
               + (if w' = normalized_wallet_id (sq_walletId q) \<and> c' = c then n else 0)))"

lemma enforce_counters:
  assumes caps: "wp_capsEnabled pol" and legacy: "no_legacy today file"
    and id: "normalized_wallet_id (sq_walletId q) \<noteq> LEDGER_LEGACY_GLOBAL_BUCKET_ID"
    and nonneg: "\<And>n. parseValue (sq_amount q) = Inr n \<Longrightarrow> 0 \<le> n"
    and res: "enforceWalletDailyCap pol q today file = (r, file')"
  shows "no_legacy today file' \<and> spend_outcome pol q today file r file'"
proof (cases "\<exists>n l. parseValue (sq_amount q) = Inr n \<and> loadUsage today file = Inr l")
  case False
  then have "file' = file \<and> (\<exists>e. r = Inl e)"
    using res caps
    by (cases "parseValue (sq_amount q)"; cases "loadUsage today file")
      (auto simp: enforceWalletDailyCap_def checkWalletDailyCap_def)
  then show ?thesis using legacy by (auto simp: spend_outcome_def)
next
  case True
  then obtain n l where n: "parseValue (sq_amount q) = Inr n" and l: "loadUsage today file = Inr l" by blast
  let ?w = "normalized_wallet_id (sq_walletId q)"
  note spec = enforce_spec [OF caps n l] check_spec [OF caps n l]
  show ?thesis
  proof (cases "held_against pol q")
    case None
    then show ?thesis using spec res legacy by (simp add: spend_outcome_def)
  next
    case (Some cl)
    obtain c limit where cl: "cl = (c, limit)" by (cases cl)
    let ?spent = "spent_on today file ?w c"
    show ?thesis
    proof (cases "?spent + n > limit")
      case True
      then have "file' = file" "r = Inr (verdict c ?spent n limit)" using spec Some cl res by (simp_all add: Let_def)
      moreover have "\<not> cv_ok (verdict c ?spent n limit)"
        using True by (cases c) (simp_all add: native_exceeded_def token_exceeded_def exceeded_def)
      ultimately show ?thesis using legacy Some cl by (simp add: spend_outcome_def)
    next
      case False
      let ?l = "booked (as_of today l) (sq_walletId q) c (?spent + n)"
      have file': "file' = writeUsage ?l" and r: "r = Inr (verdict c ?spent n limit)"
        using False spec Some cl res by (simp_all add: Let_def)
      have ok: "cv_ok (verdict c ?spent n limit)" using False by (cases c) (simp_all add: ok_spent_def plain_ok_def)
      have wf: "usage_wf (as_of today l)" by (rule as_of_wf [OF loadUsage_wf [OF l]])
      have spent: "?spent = bucket_count (bucket_at (as_of today l) ?w) c" using l by (simp add: spent_on_def)
      have none: "map_of (ul_wallets (as_of today l)) LEDGER_LEGACY_GLOBAL_BUCKET_ID = None"
        using legacy l by (intro as_of_no_legacy) (simp add: no_legacy_def)
      have "0 \<le> ?spent + n" using counter_parses [OF bucket_at_wf [OF wf]] nonneg [OF n] by (simp add: spent)
      then have "usage_wf ?l" by (rule booked_wf [OF wf]) (use held_token Some cl in blast)
      then have load: "loadUsage today file' = Inr ?l" using file' by simp
      note counts = booked_count [OF none id, of c "?spent + n"]
      have "as_of today ?l = ?l" using counts(3) by (simp add: as_of_def)
      then have "spent_on today file' w' c' = spent_on today file w' c' + (if w' = ?w \<and> c' = c then n else 0)" for w' c'
        using counts(1) load l spent by (simp add: spent_on_def)
      moreover have "no_legacy today file'" using load counts(2) by (simp add: no_legacy_def)
      ultimately show ?thesis using False r ok n Some cl unfolding spend_outcome_def by (intro conjI disjI2 exI) auto
    qed
  qed
qed

section \<open>Properties\<close>

fun enforce_all ::
    "wallet_policy \<Rightarrow> string \<Rightarrow> spend list \<Rightarrow> state_file \<Rightarrow> cap_verdict result list \<times> state_file" where
  "enforce_all pol today [] file = ([], file)"
| "enforce_all pol today (q # qs) file =
     (let (r, file') = enforceWalletDailyCap pol q today file; (rs, file'') = enforce_all pol today qs file'
      in (r # rs, file''))"

text \<open>The amount that one request adds to a counter: nothing unless it was accepted and held against it.\<close>

definition accepted_amount :: "wallet_policy \<Rightarrow> string \<Rightarrow> counter \<Rightarrow> spend \<Rightarrow> cap_verdict result \<Rightarrow> int" where
  "accepted_amount pol w c q r =
     (case (r, held_against pol q, parseValue (sq_amount q)) of
        (Inr v, Some (c', _), Inr n) \<Rightarrow>
          if cv_ok v \<and> normalized_wallet_id (sq_walletId q) = w \<and> c' = c then n else 0
      | _ \<Rightarrow> 0)"

definition daily_limit :: "wallet_policy \<Rightarrow> counter \<Rightarrow> int" where
  "daily_limit pol c = (case c of NativeSpend \<Rightarrow> wp_maxDaily pol
     | TokenSpend m \<Rightarrow> (case map_of (wp_tokenCaps pol) m of None \<Rightarrow> 0 | Some cap \<Rightarrow> tc_maxDaily cap))"

lemma held_against_limit: "held_against pol q = Some (c, limit) \<Longrightarrow> limit = daily_limit pol c"
  by (auto simp: held_against_def daily_limit_def split: if_splits option.splits)

lemma spend_outcome_count:
  assumes "spend_outcome pol q today file r file'"
  shows "spent_on today file' w c = spent_on today file w c + accepted_amount pol w c q r"
    and "spent_on today file' w c \<le> max (spent_on today file w c) (daily_limit pol c)"
  using assms held_against_limit [of pol q]
  by (fastforce simp: spend_outcome_def accepted_amount_def split: sum.splits option.splits)+

text \<open>
  C1: On one day, with caps on, the lamports and the token amounts that the enforcement lets through
  for a wallet are exactly what its counter grows by, and no sequence of requests for any wallets
  brings the counter above the daily limit (or above where it stood at the start). Amounts are
  non-negative, and no bucket of the first ledger format is left to be taken over.
\<close>

theorem wallet_daily_cap_bound:
  assumes "wp_capsEnabled pol" and "no_legacy today f"
    and "\<forall>q \<in> set qs. normalized_wallet_id (sq_walletId q) \<noteq> LEDGER_LEGACY_GLOBAL_BUCKET_ID"
    and "\<forall>q \<in> set qs. \<forall>n. parseValue (sq_amount q) = Inr n \<longrightarrow> 0 \<le> n"
    and "enforce_all pol today qs f = (rs, f')"
  shows "spent_on today f' w c = spent_on today f w c + sum_list (map2 (accepted_amount pol w c) qs rs)
    \<and> spent_on today f' w c \<le> max (spent_on today f w c) (daily_limit pol c)"
  using assms(2-5)
proof (induction qs arbitrary: f rs)
  case Nil
  then show ?case by simp
next
  case (Cons q qs)
  obtain r f1 where first: "enforceWalletDailyCap pol q today f = (r, f1)" by fastforce
  obtain rs1 where rest: "enforce_all pol today qs f1 = (rs1, f')" and rs: "rs = r # rs1"
    using Cons.prems(4) first by (auto split: prod.splits)
  have step: "no_legacy today f1" "spend_outcome pol q today f r f1"
    using enforce_counters [OF assms(1) Cons.prems(1) _ _ first] Cons.prems(2,3) by auto
  from Cons.IH [OF step(1) _ _ rest] Cons.prems(2,3)
  have "spent_on today f' w c = spent_on today f1 w c + sum_list (map2 (accepted_amount pol w c) qs rs1)"
    and "spent_on today f' w c \<le> max (spent_on today f1 w c) (daily_limit pol c)"
    by simp_all
  with spend_outcome_count [OF step(2), of w c] rs show ?case by simp
qed

definition sample_policy :: wallet_policy where
  "sample_policy = \<lparr>wp_capsEnabled = True, wp_directSigning = True, wp_skillsEnabled = False, wp_allowPrograms = [],
     wp_maxPerTx = 60, wp_maxDaily = 100, wp_tokenCaps = [(''M'', \<lparr>tc_maxPerTx = 5, tc_maxDaily = 7\<rparr>)]\<rparr>"

definition native_spend :: "string \<Rightarrow> string \<Rightarrow> spend" where
  "native_spend w amount = \<lparr>sq_amount = Some amount, sq_program = None, sq_tokenMint = None,
     sq_walletId = Some w, sq_skipNativeSolanaCaps = False\<rparr>"

theorem wallet_daily_cap_bound_witness:
  "let (rs, file') = enforce_all sample_policy ''d'' [native_spend ''w'' ''60'', native_spend ''v'' ''90'',
       native_spend '' w'' ''50'', native_spend ''w'' ''40''] NoFile
   in map (\<lambda>r. case r of Inr v \<Rightarrow> cv_ok v | Inl _ \<Rightarrow> False) rs = [True, True, False, True]
      \<and> spent_on ''d'' file' ''w'' NativeSpend = 100 \<and> spent_on ''d'' file' ''w'' NativeSpend \<le> max 0 100"
proof -
  let ?qs = "[native_spend ''w'' ''60'', native_spend ''v'' ''90'', native_spend '' w'' ''50'', native_spend ''w'' ''40'']"
  obtain rs file' where run: "enforce_all sample_policy ''d'' ?qs NoFile = (rs, file')" by fastforce
  have rs: "map (\<lambda>r. case r of Inr v \<Rightarrow> cv_ok v | Inl _ \<Rightarrow> False) (fst (enforce_all sample_policy ''d'' ?qs NoFile))
      = [True, True, False, True]"
    and total: "sum_list (map2 (accepted_amount sample_policy ''w'' NativeSpend) ?qs
      (fst (enforce_all sample_policy ''d'' ?qs NoFile))) = 100"
    and start: "spent_on ''d'' NoFile ''w'' NativeSpend = 0"
    by code_simp+
  have ids: "\<forall>q \<in> set ?qs. normalized_wallet_id (sq_walletId q) \<noteq> LEDGER_LEGACY_GLOBAL_BUCKET_ID" by code_simp
  have amounts: "\<forall>q \<in> set ?qs. case parseValue (sq_amount q) of Inr n \<Rightarrow> 0 \<le> n | Inl _ \<Rightarrow> True" by code_simp
  have "no_legacy ''d'' NoFile" by (simp add: no_legacy_def loadUsage_def defaultWalletUsageLedger_def)
  from wallet_daily_cap_bound [OF _ this ids _ run, of "''w''" NativeSpend] amounts rs total start run
  show ?thesis by (fastforce simp: sample_policy_def daily_limit_def)
qed

text \<open>
  The preview never disagrees with the enforcement: on the same ledger, enforcing a spend returns
  what checking it returns (verdict, code, counters or throw), and a spend that is refused or throws
  leaves the ledger file as it is.
\<close>

theorem wallet_cap_preview_agrees:
  "fst (enforceWalletDailyCap pol q today file) = checkWalletDailyCap pol q today file
   \<and> ((case checkWalletDailyCap pol q today file of Inr v \<Rightarrow> \<not> cv_ok v | Inl _ \<Rightarrow> True)
       \<longrightarrow> snd (enforceWalletDailyCap pol q today file) = file)"
proof (cases "wp_capsEnabled pol \<and> (\<exists>n l. parseValue (sq_amount q) = Inr n \<and> loadUsage today file = Inr l)")
  case True
  then obtain n l where "wp_capsEnabled pol" "parseValue (sq_amount q) = Inr n" "loadUsage today file = Inr l" by blast
  note spec = enforce_spec [OF this] check_spec [OF this]
  have "\<not> cv_ok (verdict c s n limit) \<Longrightarrow> s + n > limit" for c s limit
    by (cases c) (auto simp: ok_spent_def plain_ok_def split: if_splits)
  then show ?thesis using spec by (auto simp: plain_ok_def Let_def split: option.splits)
next
  case False
  then show ?thesis
    by (cases "parseValue (sq_amount q)"; cases "loadUsage today file")
      (auto simp: enforceWalletDailyCap_def checkWalletDailyCap_def plain_ok_def)
qed

theorem wallet_cap_preview_agrees_witness:
  "snd (enforceWalletDailyCap sample_policy (native_spend ''w'' ''101'') ''d'' NoFile) = NoFile"
proof -
  have "case checkWalletDailyCap sample_policy (native_spend ''w'' ''101'') ''d'' NoFile of Inr v \<Rightarrow> \<not> cv_ok v | Inl _ \<Rightarrow> True"
    by code_simp
  with wallet_cap_preview_agrees [of sample_policy "native_spend ''w'' ''101''" "''d''" NoFile] show ?thesis by blast
qed

end
