(* ===== verification/WalletPolicy.thy ===== *)
theory WalletPolicy
  imports WalletUsage
begin

text \<open>
  The wallet policy of \<open>src/wallet/wallet-policy.ts\<close>: who may use the wallet tool, which
  transactions the policy admits, the per-wallet policy records on disk, and their update in two
  steps, \<open>prepareWalletPolicyConfigUpdate\<close> and \<open>commitWalletPolicyConfigUpdate\<close>, where the commit
  refuses when the record changed in between. \<open>valid_key\<close> stands for the base-58 check of the
  Solana library (\<open>new PublicKey(t).toBase58() === t\<close>), \<open>num\<close> for the text of a number, \<open>now\<close> for
  the current time. The wallet registry and the runtime configuration are arguments.
\<close>

section \<open>Configuration and tool access\<close>

datatype tool_mode = ToolAll | OwnerOnly | Allowlist

record wallet_config =
  wc_chains :: "string list"
  wc_policy :: wallet_policy
  wc_toolMode :: tool_mode
  wc_allowAgents :: "string list"
  wc_allowSources :: "string list"

text \<open>\<open>{ ok: true }\<close> is \<open>None\<close>; a refusal carries its code.\<close>

definition isWalletToolAllowed ::
    "wallet_config \<Rightarrow> string option \<Rightarrow> string \<Rightarrow> string option \<Rightarrow> string option \<Rightarrow> string option" where
  "isWalletToolAllowed config requesterAgentId ownerAgentId requesterSkillId requestSource =
     (if trim_or_undef requesterSkillId \<noteq> None then Some ''wallet_tool_skill_authority_removed''
      else
      let allowSources = filter (\<lambda>s. s \<noteq> []) (map (\<lambda>s. js_lower (js_trim s)) (wc_allowSources config));
          source = (case requestSource of None \<Rightarrow> []  | Some s \<Rightarrow> js_lower (js_trim s))
      in if source = [] \<and> allowSources \<noteq> [] then Some ''wallet_tool_source_context_required''
      else if source \<noteq> [] \<and> allowSources \<noteq> [] \<and> source \<notin> set allowSources
      then Some ''wallet_tool_source_not_allowlisted''
      else if wc_toolMode config = ToolAll then None
      else if wc_toolMode config = OwnerOnly
      then (if requesterAgentId = Some ownerAgentId then None else Some ''wallet_tool_owner_only'')
      else let allow = map js_trim (wc_allowAgents config)
           in if requesterAgentId \<noteq> None \<and> requesterAgentId \<noteq> Some [] \<and> the requesterAgentId \<in> set allow
              then None else Some ''wallet_tool_not_allowlisted'')"

section \<open>Admitting a transaction\<close>

datatype tx_action = Prepare | Send

record tx_request =
  tx_action :: tx_action
  tx_requireDirectSigning :: "bool option"
  tx_chain :: string
  tx_amount :: "string option"
  tx_program :: "string option"
  tx_skipNativeSolanaCaps :: bool
  tx_requireSolanaTokenCap :: bool

datatype tx_verdict = TxOk | TxRefused string string

definition validateWalletTxPolicy :: "wallet_config \<Rightarrow> tx_request \<Rightarrow> tx_verdict result" where
  "validateWalletTxPolicy config p =
     (if tx_chain p \<notin> set (wc_chains config)
      then Inr (TxRefused ''wallet_chain_disabled'' (tx_chain p @ '' not enabled''))
      else
      let requireDirectSigning = (case tx_requireDirectSigning p of Some b \<Rightarrow> b | None \<Rightarrow> tx_action p = Send)
      in if requireDirectSigning \<and> \<not> wp_directSigning (wc_policy config)
      then Inr (TxRefused ''wallet_direct_signing_disabled'' ''automated execution disabled by wallet policy'')
      else bind_r (parseValue (tx_amount p)) (\<lambda>amount.
      if amount < 0 then Inr (TxRefused ''wallet_invalid_amount'' ''amount must be non-negative'')
      else
      let allowPrograms = wp_allowPrograms (wc_policy config); program = opt_str (tx_program p);
          mint = js_trim program; nativeSolanaSend = (mint = [])
      in if program \<noteq> [] \<and> allowPrograms = []
      then Inr (TxRefused ''wallet_program_allowlist_required''
             ''program execution requires an explicit non-empty allowlist'')
      else if program \<noteq> [] \<and> mint \<notin> set allowPrograms
      then Inr (TxRefused ''wallet_program_not_allowed'' ''program is not in allowlist'')
      else if \<not> wp_capsEnabled (wc_policy config) then Inr TxOk
      else if \<not> nativeSolanaSend
      then (case map_of (wp_tokenCaps (wc_policy config)) mint of
          None \<Rightarrow> if tx_requireSolanaTokenCap p
            then Inr (TxRefused ''wallet_token_cap_required'' ''SPL token spend requires an explicit per-mint token cap'')
            else Inr TxOk
        | Some cap \<Rightarrow> if amount > tc_maxPerTx cap
            then Inr (TxRefused ''wallet_token_cap_per_tx_exceeded'' ''SPL token per-transaction cap exceeded'')
            else Inr TxOk)
      else if \<not> tx_skipNativeSolanaCaps p \<and> amount > wp_maxPerTx (wc_policy config)
      then Inr (TxRefused ''wallet_cap_per_tx_exceeded'' ''Solana per-transaction cap exceeded'')
      else Inr TxOk))"

section \<open>Policy records\<close>

datatype recurring_amount = FixedAmount string | PercentageAmount int string string

record recurring_transfer =
  rt_enabled :: bool
  rt_to :: string
  rt_program :: "string option"
  rt_amount :: recurring_amount
  rt_schedule :: "js_object option"
  rt_name :: "string option"
  rt_updatedAt :: string

record cap_text =
  ct_maxPerTx :: "string option"
  ct_maxDaily :: "string option"

record stored_policy =
  sp_walletId :: string
  sp_updatedAt :: string
  sp_capsEnabled :: bool
  sp_skillsEnabled :: bool
  sp_directSigning :: bool
  sp_allowPrograms :: "string list"
  sp_tokenCaps :: "(string \<times> cap_text) list"
  sp_maxPerTx :: string
  sp_maxDaily :: string
  sp_recurringTransfer :: "recurring_transfer option"

record policy_state =
  ps_updatedAt :: string
  ps_wallets :: "(string \<times> stored_policy) list"

definition normalizeAddressList :: "string list \<Rightarrow> string list" where
  "normalizeAddressList values = rev (remdups (rev (filter (\<lambda>v. v \<noteq> []) (map js_trim values))))"

definition handle_char :: "char \<Rightarrow> bool" where
  "handle_char c = (let n = of_char c :: nat in (97 \<le> n \<and> n \<le> 122) \<or> (65 \<le> n \<and> n \<le> 90)
     \<or> (48 \<le> n \<and> n \<le> 57) \<or> n = 95 \<or> n = 45)"

text \<open>The regular expression \<open>/^@wallet:[a-zA-Z0-9_-]+$/\<close> on the trimmed text.\<close>

definition isWalletHandle :: "string \<Rightarrow> bool" where
  "isWalletHandle value =
     (let t = js_trim value
      in take 8 t = ''@wallet:'' \<and> drop 8 t \<noteq> [] \<and> list_all handle_char (drop 8 t))"

definition isValidSolanaAddress :: "(string \<Rightarrow> bool) \<Rightarrow> string \<Rightarrow> bool" where
  "isValidSolanaAddress valid_key value = (js_trim value \<noteq> [] \<and> valid_key (js_trim value))"

definition assertValidSolanaAddress :: "(string \<Rightarrow> bool) \<Rightarrow> string \<Rightarrow> string \<Rightarrow> unit result" where
  "assertValidSolanaAddress valid_key value label =
     (if isValidSolanaAddress valid_key value then Inr ()
      else Inl (Error (label @ '' is not a valid Solana address'')))"

definition normalizeNonNegativeRawAmount :: "string option \<Rightarrow> string result" where
  "normalizeNonNegativeRawAmount value =
     (let text = (case trim_or_undef value of None \<Rightarrow> ''0'' | Some t \<Rightarrow> t)
      in bind_r (parseValue (Some text)) (\<lambda>parsed.
        if parsed < 0 then Inl (Error ''wallet recurring transfer amount must be non-negative'')
        else Inr (bigint_string parsed)))"

definition isPositivePolicyAmount :: "json option \<Rightarrow> bool" where
  "isPositivePolicyAmount raw =
     (case raw of Some (JStr s) \<Rightarrow> (case BigInt (str_or (js_trim s) ''0'') of Inl _ \<Rightarrow> False | Inr n \<Rightarrow> n > 0)
      | _ \<Rightarrow> False)"

definition storedRecordHasPositiveCaps :: "js_object \<Rightarrow> bool" where
  "storedRecordHasPositiveCaps value =
     (let solanaRaw = (case as_record (get_prop value ''solana'') of None \<Rightarrow> [] | Some kvs \<Rightarrow> kvs)
      in if isPositivePolicyAmount (get_prop solanaRaw ''maxPerTx'') \<or> isPositivePolicyAmount (get_prop solanaRaw ''maxDaily'')
         then True
         else let tokenCaps = (case as_record (get_prop solanaRaw ''tokenCaps'') of None \<Rightarrow> [] | Some kvs \<Rightarrow> kvs)
              in list_ex (\<lambda>(_, capRaw).
                   let cap = (case as_record (Some capRaw) of None \<Rightarrow> [] | Some kvs \<Rightarrow> kvs)
                   in isPositivePolicyAmount (get_prop cap ''maxPerTx'') \<or> isPositivePolicyAmount (get_prop cap ''maxDaily''))
                 tokenCaps)"

definition normalizeRecurringTransferDestination :: "(string \<Rightarrow> bool) \<Rightarrow> string option \<Rightarrow> string result" where
  "normalizeRecurringTransferDestination valid_key value =
     (let text = js_trim (opt_str value)
      in if text = [] then Inr []
         else if isWalletHandle text then Inr text
         else bind_r (assertValidSolanaAddress valid_key text ''wallet recurring transfer destination'') (\<lambda>_. Inr text))"

text \<open>The copy by \<open>JSON.parse(JSON.stringify(value))\<close> is the value itself.\<close>

definition normalizeRecurringTransferSchedule :: "json option \<Rightarrow> js_object option" where
  "normalizeRecurringTransferSchedule value = as_record value"

definition clamp_percentage :: "rat \<Rightarrow> int" where
  "clamp_percentage q = max 1 (min 100 \<lfloor>q\<rfloor>)"

text \<open>The fields that depend on \<open>amountMode\<close>.\<close>

definition normalizeRecurringAmount :: "js_object \<Rightarrow> recurring_amount result" where
  "normalizeRecurringAmount value =
     (let raw = (\<lambda>k. normalizeNonNegativeRawAmount (opt_string (get_prop value k)));
          percentage = (case get_prop value ''percentage'' of
            Some (JNum (Fin q)) \<Rightarrow> Some (clamp_percentage q) | _ \<Rightarrow> None)
      in if get_prop value ''amountMode'' = Some (JStr ''percentage'')
         then bind_r (raw ''minAmount'') (\<lambda>minAmount. bind_r (raw ''keepAmount'') (\<lambda>keepAmount.
           Inr (PercentageAmount (case percentage of None \<Rightarrow> 100 | Some p \<Rightarrow> p) minAmount keepAmount)))
         else bind_r (raw ''amount'') (\<lambda>amount. Inr (FixedAmount amount)))"

definition normalizeRecurringTransferPolicy ::
    "(string \<Rightarrow> bool) \<Rightarrow> string \<Rightarrow> json option \<Rightarrow> recurring_transfer option result" where
  "normalizeRecurringTransferPolicy valid_key now raw =
     (case as_record raw of None \<Rightarrow> Inr None
      | Some value \<Rightarrow>
        bind_r (normalizeRecurringTransferDestination valid_key (opt_string (get_prop value ''to''))) (\<lambda>to.
        let program = js_trim (the_string (get_prop value ''program'')) in
        bind_r (if program \<noteq> [] then assertValidSolanaAddress valid_key program ''wallet recurring transfer mint'' else Inr ()) (\<lambda>_.
        bind_r (normalizeRecurringAmount value) (\<lambda>amount.
        Inr (Some \<lparr>rt_enabled = (get_prop value ''enabled'' = Some (JBool True)), rt_to = to,
                   rt_program = (if program = [] then None else Some program), rt_amount = amount,
                   rt_schedule = normalizeRecurringTransferSchedule (get_prop value ''schedule''),
                   rt_name = trim_or_undef (opt_string (get_prop value ''name'')),
                   rt_updatedAt = (case opt_string (get_prop value ''updatedAt'') of Some t \<Rightarrow> t | None \<Rightarrow> now)\<rparr>)))))"

text \<open>\<open>Object.entries\<close> of an object or array, and \<open>Object.fromEntries\<close>.\<close>

definition object_entries :: "json option \<Rightarrow> js_object" where
  "object_entries v = (case v of Some (JObj kvs) \<Rightarrow> kvs
     | Some (JArr xs) \<Rightarrow> zip (map (\<lambda>i. bigint_string (int i)) [0..<length xs]) xs | _ \<Rightarrow> [])"

definition from_entries :: "(string \<times> 'a) list \<Rightarrow> (string \<times> 'a) list" where
  "from_entries kvs = fold (\<lambda>(k, v) acc. AList.update k v acc) kvs []"

fun js_String :: "(js_number \<Rightarrow> string) \<Rightarrow> json \<Rightarrow> string" where
  "js_String num JNull = ''null''"
| "js_String num (JBool b) = (if b then ''true'' else ''false'')"
| "js_String num (JNum n) = num n"
| "js_String num (JStr s) = s"
| "js_String num (JArr []) = []"
| "js_String num (JArr [x]) = (if x = JNull then [] else js_String num x)"
| "js_String num (JArr (x # y # ys)) =
     (if x = JNull then [] else js_String num x) @ '','' @ js_String num (JArr (y # ys))"
| "js_String num (JObj kvs) = ''[object Object]''"

definition cap_text_of :: "json \<Rightarrow> cap_text" where
  "cap_text_of capRaw =
     (let cap = (case as_record (Some capRaw) of None \<Rightarrow> [] | Some kvs \<Rightarrow> kvs)
      in \<lparr>ct_maxPerTx = map_option js_trim (opt_string (get_prop cap ''maxPerTx'')),
          ct_maxDaily = map_option js_trim (opt_string (get_prop cap ''maxDaily''))\<rparr>)"

definition normalizeStoredWalletPolicyRecord ::
    "(string \<Rightarrow> bool) \<Rightarrow> (js_number \<Rightarrow> string) \<Rightarrow> string \<Rightarrow> json \<Rightarrow> stored_policy option result" where
  "normalizeStoredWalletPolicyRecord valid_key num now raw =
     (case as_record (Some raw) of None \<Rightarrow> Inr None
      | Some value \<Rightarrow>
        if get_prop value ''version'' \<noteq> Some (JNum (Fin 1)) \<or> \<not> is_string (get_prop value ''walletId'')
           \<or> get_prop value ''role'' \<noteq> Some (JStr ''agent'') \<or> \<not> is_string (get_prop value ''updatedAt'')
           \<or> \<not> is_bool (get_prop value ''directSigning'')
        then Inr None
        else (case as_record (get_prop value ''solana'') of None \<Rightarrow> Inr None
          | Some solanaRaw \<Rightarrow>
            bind_r (normalizeRecurringTransferPolicy valid_key now (get_prop value ''recurringTransfer'')) (\<lambda>recurring.
            Inr (Some \<lparr>sp_walletId = js_trim (the_string (get_prop value ''walletId'')),
              sp_updatedAt = the_string (get_prop value ''updatedAt''),
              sp_capsEnabled = (if is_bool (get_prop value ''capsEnabled'')
                 then get_prop value ''capsEnabled'' = Some (JBool True) else storedRecordHasPositiveCaps value),
              sp_skillsEnabled = (get_prop value ''skillsEnabled'' = Some (JBool True)),
              sp_directSigning = (get_prop value ''directSigning'' = Some (JBool True)),
              sp_allowPrograms = (case as_array (get_prop solanaRaw ''allowPrograms'') of
                 Some xs \<Rightarrow> normalizeAddressList (map (js_String num) xs) | None \<Rightarrow> []),
              sp_tokenCaps = from_entries (filter (\<lambda>(mint, _). mint \<noteq> [])
                 (map (\<lambda>(mint, capRaw). (js_trim mint, cap_text_of capRaw))
                   (object_entries (get_prop solanaRaw ''tokenCaps'')))),
              sp_maxPerTx = (if is_string (get_prop solanaRaw ''maxPerTx'')
                 then the_string (get_prop solanaRaw ''maxPerTx'') else ''0''),
              sp_maxDaily = (if is_string (get_prop solanaRaw ''maxDaily'')
                 then the_string (get_prop solanaRaw ''maxDaily'') else ''0''),
              sp_recurringTransfer = recurring\<rparr>))))"

section \<open>The policy file\<close>

definition policy_unreadable :: "'a result" where
  "policy_unreadable = Inl (Error ''wallet policy state is unreadable; refusing to replace persisted policy'')"

fun readPolicies ::
    "(string \<Rightarrow> bool) \<Rightarrow> (js_number \<Rightarrow> string) \<Rightarrow> string \<Rightarrow> (string \<times> stored_policy) list \<Rightarrow> js_object
     \<Rightarrow> (string \<times> stored_policy) list option" where
  "readPolicies valid_key num now acc [] = Some acc"
| "readPolicies valid_key num now acc ((walletId, recordRaw) # rest) =
     (case normalizeStoredWalletPolicyRecord valid_key num now recordRaw of
        Inr (Some r) \<Rightarrow> if js_trim walletId = [] \<or> sp_walletId r \<noteq> js_trim walletId then None
          else readPolicies valid_key num now (AList.update (js_trim walletId) r acc) rest
      | _ \<Rightarrow> None)"

definition readWalletPolicyState ::
    "(string \<Rightarrow> bool) \<Rightarrow> (js_number \<Rightarrow> string) \<Rightarrow> string \<Rightarrow> state_file \<Rightarrow> policy_state result" where
  "readWalletPolicyState valid_key num now file =
     (case file of NoFile \<Rightarrow> Inr \<lparr>ps_updatedAt = now, ps_wallets = []\<rparr>
      | Unparsable \<Rightarrow> policy_unreadable
      | Document j \<Rightarrow>
        (case as_record (Some j) of None \<Rightarrow> policy_unreadable
         | Some parsed \<Rightarrow>
           if get_prop parsed ''version'' \<noteq> Some (JNum (Fin 1)) then policy_unreadable
           else (case as_record (get_prop parsed ''wallets'') of None \<Rightarrow> policy_unreadable
             | Some walletsRaw \<Rightarrow>
               (case readPolicies valid_key num now [] walletsRaw of None \<Rightarrow> policy_unreadable
                | Some wallets \<Rightarrow>
                  Inr \<lparr>ps_updatedAt = (case opt_string (get_prop parsed ''updatedAt'') of Some t \<Rightarrow> t | None \<Rightarrow> now),
                       ps_wallets = wallets\<rparr>))))"

fun amount_fields :: "recurring_amount \<Rightarrow> js_object" where
  "amount_fields (FixedAmount a) = [(''amountMode'', JStr ''fixed''), (''amount'', JStr a)]"
| "amount_fields (PercentageAmount p mn keep) = [(''amountMode'', JStr ''percentage''),
     (''percentage'', JNum (Fin (of_int p))), (''minAmount'', JStr mn), (''keepAmount'', JStr keep)]"

definition recurring_object :: "recurring_transfer \<Rightarrow> js_object" where
  "recurring_object r = [(''enabled'', JBool (rt_enabled r)), (''chain'', JStr ''solana''), (''to'', JStr (rt_to r))]
     @ opt_field ''program'' (rt_program r) @ amount_fields (rt_amount r)
     @ obj_field ''schedule'' (rt_schedule r) @ opt_field ''name'' (rt_name r)
     @ [(''updatedAt'', JStr (rt_updatedAt r))]"

definition cap_text_json :: "cap_text \<Rightarrow> json" where
  "cap_text_json c = JObj (opt_field ''maxPerTx'' (ct_maxPerTx c) @ opt_field ''maxDaily'' (ct_maxDaily c))"

definition policy_object :: "stored_policy \<Rightarrow> js_object" where
  "policy_object r = [(''version'', JNum (Fin 1)), (''walletId'', JStr (sp_walletId r)), (''role'', JStr ''agent''),
       (''updatedAt'', JStr (sp_updatedAt r)), (''capsEnabled'', JBool (sp_capsEnabled r)),
       (''skillsEnabled'', JBool (sp_skillsEnabled r)), (''directSigning'', JBool (sp_directSigning r)),
       (''solana'', JObj [(''allowPrograms'', JArr (map JStr (sp_allowPrograms r))),
          (''tokenCaps'', JObj (map (\<lambda>(m, c). (m, cap_text_json c)) (sp_tokenCaps r))),
          (''maxPerTx'', JStr (sp_maxPerTx r)), (''maxDaily'', JStr (sp_maxDaily r))])]
     @ obj_field ''recurringTransfer'' (map_option recurring_object (sp_recurringTransfer r))"

definition writeWalletPolicyState :: "policy_state \<Rightarrow> state_file" where
  "writeWalletPolicyState st = Document (JObj [(''version'', JNum (Fin 1)), (''updatedAt'', JStr (ps_updatedAt st)),
     (''wallets'', JObj (map (\<lambda>(w, r). (w, JObj (policy_object r))) (ps_wallets st)))])"

section \<open>Presets and resolved policies\<close>

datatype preset = Recommended | ReadOnly | ManualOnly | SmallAgentSpend | SkillLimited | TradingExperimental

text \<open>\<open>resolveWalletRolePolicyProfile\<close> and \<open>buildResolvedPolicyFromDefaults\<close> on its defaults.\<close>

definition recommended_policy :: wallet_policy where
  "recommended_policy = \<lparr>wp_capsEnabled = True, wp_directSigning = False, wp_skillsEnabled = False,
     wp_allowPrograms = [], wp_maxPerTx = 1000000000, wp_maxDaily = 5000000000, wp_tokenCaps = []\<rparr>"

fun buildResolvedPolicyFromPreset :: "preset \<Rightarrow> wallet_policy" where
  "buildResolvedPolicyFromPreset ReadOnly = recommended_policy\<lparr>wp_capsEnabled := True, wp_directSigning := False,
     wp_skillsEnabled := False, wp_maxPerTx := 0, wp_maxDaily := 0, wp_tokenCaps := []\<rparr>"
| "buildResolvedPolicyFromPreset ManualOnly = recommended_policy\<lparr>wp_directSigning := False, wp_skillsEnabled := False\<rparr>"
| "buildResolvedPolicyFromPreset SmallAgentSpend = recommended_policy\<lparr>wp_capsEnabled := True, wp_directSigning := True,
     wp_skillsEnabled := False, wp_maxPerTx := 100000000, wp_maxDaily := 500000000\<rparr>"
| "buildResolvedPolicyFromPreset SkillLimited = recommended_policy\<lparr>wp_capsEnabled := True, wp_directSigning := False,
     wp_skillsEnabled := True, wp_maxPerTx := 50000000, wp_maxDaily := 250000000\<rparr>"
| "buildResolvedPolicyFromPreset TradingExperimental = recommended_policy\<lparr>wp_capsEnabled := True,
     wp_directSigning := True, wp_skillsEnabled := False, wp_maxPerTx := 250000000, wp_maxDaily := 1000000000\<rparr>"
| "buildResolvedPolicyFromPreset Recommended = recommended_policy"

fun normalizeTokenCapsRecord ::
    "(string \<times> token_cap) list \<Rightarrow> (string \<times> cap_text) list \<Rightarrow> (string \<times> token_cap) list result" where
  "normalizeTokenCapsRecord out [] = Inr out"
| "normalizeTokenCapsRecord out ((mintRaw, cap) # rest) =
     (let mint = js_trim mintRaw in
      if mint = [] then normalizeTokenCapsRecord out rest
      else bind_r (parseValue (ct_maxPerTx cap)) (\<lambda>perTx.
           bind_r (parseValue (ct_maxDaily cap)) (\<lambda>daily.
           normalizeTokenCapsRecord (AList.update mint \<lparr>tc_maxPerTx = perTx, tc_maxDaily = daily\<rparr> out) rest)))"

definition buildResolvedPolicyFromStoredRecord :: "stored_policy \<Rightarrow> wallet_policy result" where
  "buildResolvedPolicyFromStoredRecord r =
     bind_r (parseValue (Some (sp_maxPerTx r))) (\<lambda>perTx.
     bind_r (parseValue (Some (sp_maxDaily r))) (\<lambda>daily.
     bind_r (normalizeTokenCapsRecord [] (sp_tokenCaps r)) (\<lambda>caps.
     Inr \<lparr>wp_capsEnabled = sp_capsEnabled r, wp_directSigning = sp_directSigning r,
          wp_skillsEnabled = sp_skillsEnabled r, wp_allowPrograms = normalizeAddressList (sp_allowPrograms r),
          wp_maxPerTx = perTx, wp_maxDaily = daily, wp_tokenCaps = caps\<rparr>)))"

definition cloneWalletConfigWithPolicy :: "wallet_config \<Rightarrow> wallet_policy \<Rightarrow> wallet_config" where
  "cloneWalletConfigWithPolicy config pol = config\<lparr>wc_policy := pol\<rparr>"

definition buildStoredPolicyRecord ::
    "string \<Rightarrow> wallet_policy \<Rightarrow> recurring_transfer option \<Rightarrow> string \<Rightarrow> stored_policy" where
  "buildStoredPolicyRecord walletId pol recurring updatedAt =
     \<lparr>sp_walletId = walletId, sp_updatedAt = updatedAt, sp_capsEnabled = wp_capsEnabled pol,
      sp_skillsEnabled = wp_skillsEnabled pol, sp_directSigning = wp_directSigning pol,
      sp_allowPrograms = normalizeAddressList (wp_allowPrograms pol),
      sp_tokenCaps = from_entries (map (\<lambda>(m, c). (m, \<lparr>ct_maxPerTx = Some (bigint_string (tc_maxPerTx c)),
                                    ct_maxDaily = Some (bigint_string (tc_maxDaily c))\<rparr>)) (wp_tokenCaps pol)),
      sp_maxPerTx = bigint_string (wp_maxPerTx pol), sp_maxDaily = bigint_string (wp_maxDaily pol),
      sp_recurringTransfer = recurring\<rparr>"

section \<open>The wallet a policy applies to\<close>

record wallet_registry =
  wr_defaultWalletId :: "string option"
  wr_wallets :: "(string \<times> string) list"

text \<open>\<open>wr_wallets\<close> lists each wallet's id with its provider id.\<close>

definition resolveEffectiveWalletId :: "wallet_registry \<Rightarrow> string option \<Rightarrow> string option" where
  "resolveEffectiveWalletId registry walletId =
     (let first = (\<lambda>x. case x of None \<Rightarrow> [] | Some (i, _) \<Rightarrow> i);
          signer = first (find (\<lambda>(_, p). p = ''local-socket-signer'') (wr_wallets registry));
          head = first (case wr_wallets registry of [] \<Rightarrow> None | w # _ \<Rightarrow> Some w)
      in case trim_or_undef walletId of Some w \<Rightarrow> Some w
      | None \<Rightarrow> (case trim_or_undef (wr_defaultWalletId registry) of Some w \<Rightarrow> Some w
        | None \<Rightarrow> if signer \<noteq> [] then Some signer else if head \<noteq> [] then Some head else None))"

text \<open>The role of every wallet is \<open>agent\<close>, so a wallet without a record keeps the given configuration.\<close>

definition applyWalletPolicyConfig ::
    "(string \<Rightarrow> bool) \<Rightarrow> (js_number \<Rightarrow> string) \<Rightarrow> string \<Rightarrow> wallet_registry \<Rightarrow> wallet_config \<Rightarrow> string option
     \<Rightarrow> state_file \<Rightarrow> wallet_config result" where
  "applyWalletPolicyConfig valid_key num now registry config walletId file =
     (case resolveEffectiveWalletId registry walletId of None \<Rightarrow> Inr config
      | Some w \<Rightarrow>
        bind_r (readWalletPolicyState valid_key num now file) (\<lambda>st.
        case map_of (ps_wallets st) w of None \<Rightarrow> Inr config
        | Some override \<Rightarrow> bind_r (buildResolvedPolicyFromStoredRecord override) (\<lambda>pol.
            Inr (cloneWalletConfigWithPolicy config pol))))"

definition resolveWalletRecurringTransferPolicy ::
    "(string \<Rightarrow> bool) \<Rightarrow> (js_number \<Rightarrow> string) \<Rightarrow> string \<Rightarrow> wallet_registry \<Rightarrow> string option \<Rightarrow> state_file
     \<Rightarrow> recurring_transfer option result" where
  "resolveWalletRecurringTransferPolicy valid_key num now registry walletId file =
     (case resolveEffectiveWalletId registry walletId of None \<Rightarrow> Inr None
      | Some w \<Rightarrow> bind_r (readWalletPolicyState valid_key num now file) (\<lambda>st.
          Inr (case map_of (ps_wallets st) w of None \<Rightarrow> None | Some r \<Rightarrow> sp_recurringTransfer r)))"

section \<open>Updating a policy\<close>

datatype amount_mode = FixedMode | PercentageMode

record recurring_patch =
  rp_enabled :: "bool option"
  rp_to :: "string option"
  rp_program :: "string option"
  rp_amountMode :: "amount_mode option"
  rp_amount :: "string option"
  rp_percentage :: "js_number option"
  rp_minAmount :: "string option"
  rp_keepAmount :: "string option"
  rp_schedule :: "json option"
  rp_name :: "string option"

fun old_mode :: "recurring_amount \<Rightarrow> amount_mode" where
  "old_mode (FixedAmount a) = FixedMode"
| "old_mode (PercentageAmount p mn k) = PercentageMode"

fun old_amount :: "recurring_amount \<Rightarrow> string option" where
  "old_amount (FixedAmount a) = Some a"
| "old_amount (PercentageAmount p mn k) = None"

fun old_percentage :: "recurring_amount \<Rightarrow> (int \<times> string \<times> string) option" where
  "old_percentage (FixedAmount a) = None"
| "old_percentage (PercentageAmount p mn k) = Some (p, mn, k)"

text \<open>The part after the check of the destination, by \<open>amountMode\<close>.\<close>

definition patchedRecurringAmount :: "bool \<Rightarrow> recurring_amount option \<Rightarrow> recurring_patch \<Rightarrow> recurring_amount result" where
  "patchedRecurringAmount enabled old patch =
     (let amountMode = (case or_else (rp_amountMode patch) (map_option old_mode old) of None \<Rightarrow> FixedMode | Some m \<Rightarrow> m);
          oldPercentage = Option.bind old old_percentage in
      if amountMode = FixedMode
      then bind_r (normalizeNonNegativeRawAmount (or_else (rp_amount patch) (Option.bind old old_amount))) (\<lambda>amount.
        bind_r (parseValue (Some amount)) (\<lambda>n.
        if enabled \<and> n \<le> 0 then Inl (Error ''wallet recurring transfer amount must be greater than zero'')
        else Inr (FixedAmount amount)))
      else
        let percentage = (case rp_percentage patch of Some (Fin q) \<Rightarrow> clamp_percentage q
              | _ \<Rightarrow> (case oldPercentage of Some (p, _) \<Rightarrow> p | None \<Rightarrow> 100)) in
        bind_r (normalizeNonNegativeRawAmount
          (or_else (rp_minAmount patch) (map_option (\<lambda>(_, mn, _). mn) oldPercentage))) (\<lambda>minAmount.
        bind_r (normalizeNonNegativeRawAmount
          (or_else (rp_keepAmount patch) (map_option (\<lambda>(_, _, k). k) oldPercentage))) (\<lambda>keepAmount.
        Inr (PercentageAmount percentage minAmount keepAmount))))"

definition buildRecurringTransferPolicyFromPatch ::
    "(string \<Rightarrow> bool) \<Rightarrow> string \<Rightarrow> recurring_transfer option \<Rightarrow> recurring_patch \<Rightarrow> recurring_transfer result" where
  "buildRecurringTransferPolicyFromPatch valid_key now existing patch =
     (let enabled = (case or_else (rp_enabled patch) (map_option rt_enabled existing) of None \<Rightarrow> False | Some b \<Rightarrow> b) in
      bind_r (normalizeRecurringTransferDestination valid_key (or_else (rp_to patch) (map_option rt_to existing))) (\<lambda>to.
      let program = (case rp_program patch of Some p \<Rightarrow> Some (js_trim p) | None \<Rightarrow> Option.bind existing rt_program);
          program' = (if program = Some [] then None else program) in
      bind_r (case program' of Some p \<Rightarrow> assertValidSolanaAddress valid_key p ''wallet recurring transfer mint''
              | None \<Rightarrow> Inr ()) (\<lambda>_.
      if enabled \<and> to = [] then Inl (Error ''wallet recurring transfer destination is required'')
      else bind_r (patchedRecurringAmount enabled (map_option rt_amount existing) patch) (\<lambda>amount.
      Inr \<lparr>rt_enabled = enabled, rt_to = to, rt_program = program', rt_amount = amount,
           rt_schedule = (case rp_schedule patch of Some v \<Rightarrow> normalizeRecurringTransferSchedule (Some v)
             | None \<Rightarrow> Option.bind existing rt_schedule),
           rt_name = (case or_else (rp_name patch) (Option.bind existing rt_name) of None \<Rightarrow> None
             | Some n \<Rightarrow> if n = [] then None else Some (js_trim n)),
           rt_updatedAt = now\<rparr>))))"

record policy_patch =
  pp_template :: "preset option"
  pp_capsEnabled :: "bool option"
  pp_directSigning :: "bool option"
  pp_skillsEnabled :: "bool option"
  pp_solanaAllowPrograms :: "string list option"
  pp_solanaMaxPerTx :: "string option"
  pp_solanaMaxDaily :: "string option"
  pp_solanaTokenCaps :: "(string \<times> cap_text) list option"
  pp_recurringTransfer :: "recurring_patch option option"

text \<open>\<open>pp_recurringTransfer\<close> is \<open>None\<close> for undefined, \<open>Some None\<close> for null.\<close>

record prepared_update =
  pu_walletId :: string
  pu_config :: wallet_config
  pu_expectedRecordJson :: json
  pu_nextRecord :: stored_policy
  pu_preparedAt :: string

definition patched_policy :: "wallet_policy \<Rightarrow> policy_patch \<Rightarrow> wallet_policy result" where
  "patched_policy base patch =
     (let opt = (\<lambda>x d. case x of None \<Rightarrow> d | Some b \<Rightarrow> b);
          amount = (\<lambda>x d. case x of None \<Rightarrow> Inr d | Some t \<Rightarrow> parseValue (Some t)) in
      bind_r (amount (pp_solanaMaxPerTx patch) (wp_maxPerTx base)) (\<lambda>perTx.
      bind_r (amount (pp_solanaMaxDaily patch) (wp_maxDaily base)) (\<lambda>daily.
      bind_r (case pp_solanaTokenCaps patch of None \<Rightarrow> Inr (wp_tokenCaps base)
              | Some caps \<Rightarrow> normalizeTokenCapsRecord [] caps) (\<lambda>caps.
      Inr \<lparr>wp_capsEnabled = opt (pp_capsEnabled patch) (wp_capsEnabled base),
           wp_directSigning = opt (pp_directSigning patch) (wp_directSigning base),
           wp_skillsEnabled = opt (pp_skillsEnabled patch) (wp_skillsEnabled base),
           wp_allowPrograms = (case pp_solanaAllowPrograms patch of None \<Rightarrow> wp_allowPrograms base
             | Some xs \<Rightarrow> normalizeAddressList xs),
           wp_maxPerTx = perTx, wp_maxDaily = daily, wp_tokenCaps = caps\<rparr>))))"

text \<open>The JSON text of a record is compared as the JSON value itself; \<open>null\<close> stands for no record.\<close>

definition record_text :: "stored_policy option \<Rightarrow> json" where
  "record_text r = (case r of None \<Rightarrow> JNull | Some x \<Rightarrow> JObj (policy_object x))"

definition prepareWalletPolicyConfigUpdate ::
    "(string \<Rightarrow> bool) \<Rightarrow> (js_number \<Rightarrow> string) \<Rightarrow> string \<Rightarrow> wallet_registry \<Rightarrow> wallet_config \<Rightarrow> string
     \<Rightarrow> policy_patch \<Rightarrow> state_file \<Rightarrow> prepared_update result" where
  "prepareWalletPolicyConfigUpdate valid_key num now registry config rawWalletId patch file =
     (let walletId = js_trim rawWalletId in
      if walletId = [] then Inl (Error ''walletId is required for wallet-scoped policy updates'')
      else
      bind_r (applyWalletPolicyConfig valid_key num now registry config (Some walletId) file) (\<lambda>base.
      bind_r (readWalletPolicyState valid_key num now file) (\<lambda>st.
      let existingRecord = map_of (ps_wallets st) walletId in
      bind_r (case pp_template patch of Some preset \<Rightarrow> Inr (buildResolvedPolicyFromPreset preset)
              | None \<Rightarrow> patched_policy (wc_policy base) patch) (\<lambda>nextPolicy.
      bind_r (case pp_recurringTransfer patch of
          Some None \<Rightarrow> Inr None
        | Some (Some p) \<Rightarrow> map_sum id Some (buildRecurringTransferPolicyFromPatch valid_key now
            (Option.bind existingRecord sp_recurringTransfer) p)
        | None \<Rightarrow> Inr (Option.bind existingRecord sp_recurringTransfer)) (\<lambda>recurring.
      Inr \<lparr>pu_walletId = walletId, pu_config = cloneWalletConfigWithPolicy base nextPolicy,
           pu_expectedRecordJson = record_text existingRecord,
           pu_nextRecord = buildStoredPolicyRecord walletId nextPolicy recurring now,
           pu_preparedAt = now\<rparr>)))))"

definition commitWalletPolicyConfigUpdate ::
    "(string \<Rightarrow> bool) \<Rightarrow> (js_number \<Rightarrow> string) \<Rightarrow> string \<Rightarrow> prepared_update \<Rightarrow> state_file
     \<Rightarrow> (string \<times> wallet_config) result \<times> state_file" where
  "commitWalletPolicyConfigUpdate valid_key num now prepared file =
     (case readWalletPolicyState valid_key num now file of Inl e \<Rightarrow> (Inl e, file)
      | Inr st \<Rightarrow>
        if record_text (map_of (ps_wallets st) (pu_walletId prepared)) \<noteq> pu_expectedRecordJson prepared
        then (Inl (Error ''wallet policy changed concurrently; reload the acknowledged signer policy''), file)
        else (Inr (pu_walletId prepared, pu_config prepared),
              writeWalletPolicyState \<lparr>ps_updatedAt = pu_preparedAt prepared,
                ps_wallets = AList.update (pu_walletId prepared) (pu_nextRecord prepared) (ps_wallets st)\<rparr>))"

definition upsertWalletPolicyConfig ::
    "(string \<Rightarrow> bool) \<Rightarrow> (js_number \<Rightarrow> string) \<Rightarrow> string \<Rightarrow> wallet_registry \<Rightarrow> wallet_config \<Rightarrow> string
     \<Rightarrow> policy_patch \<Rightarrow> state_file \<Rightarrow> (string \<times> wallet_config) result \<times> state_file" where
  "upsertWalletPolicyConfig valid_key num now registry config walletId patch file =
     (case prepareWalletPolicyConfigUpdate valid_key num now registry config walletId patch file of
        Inl e \<Rightarrow> (Inl e, file)
      | Inr prepared \<Rightarrow> commitWalletPolicyConfigUpdate valid_key num now prepared file)"

section \<open>Records are read back as written\<close>

fun amount_wf :: "recurring_amount \<Rightarrow> bool" where
  "amount_wf (FixedAmount a) \<longleftrightarrow> normalizeNonNegativeRawAmount (Some a) = Inr a"
| "amount_wf (PercentageAmount p mn k) \<longleftrightarrow> 1 \<le> p \<and> p \<le> 100
     \<and> normalizeNonNegativeRawAmount (Some mn) = Inr mn \<and> normalizeNonNegativeRawAmount (Some k) = Inr k"

definition recurring_wf :: "(string \<Rightarrow> bool) \<Rightarrow> recurring_transfer \<Rightarrow> bool" where
  "recurring_wf valid_key r \<longleftrightarrow>
     normalizeRecurringTransferDestination valid_key (Some (rt_to r)) = Inr (rt_to r)
     \<and> pred_option (\<lambda>p. p \<noteq> [] \<and> js_trim p = p \<and> valid_key p) (rt_program r)
     \<and> amount_wf (rt_amount r)
     \<and> pred_option (\<lambda>n. js_trim n = n) (rt_name r)"

definition tidy_recurring :: "recurring_transfer \<Rightarrow> recurring_transfer" where
  "tidy_recurring r = r\<lparr>rt_name := trim_or_undef (rt_name r)\<rparr>"

definition addresses_wf :: "string list \<Rightarrow> bool" where
  "addresses_wf xs \<longleftrightarrow> distinct xs \<and> (\<forall>x \<in> set xs. js_trim x = x \<and> x \<noteq> [])"

definition keys_wf :: "(string \<times> 'a) list \<Rightarrow> bool" where
  "keys_wf xs \<longleftrightarrow> addresses_wf (map fst xs)"

definition cap_text_wf :: "cap_text \<Rightarrow> bool" where
  "cap_text_wf c \<longleftrightarrow> pred_option (\<lambda>t. js_trim t = t) (ct_maxPerTx c) \<and> pred_option (\<lambda>t. js_trim t = t) (ct_maxDaily c)"

definition stored_wf :: "(string \<Rightarrow> bool) \<Rightarrow> stored_policy \<Rightarrow> bool" where
  "stored_wf valid_key r \<longleftrightarrow> js_trim (sp_walletId r) = sp_walletId r \<and> addresses_wf (sp_allowPrograms r)
     \<and> keys_wf (sp_tokenCaps r) \<and> (\<forall>mc \<in> set (sp_tokenCaps r). cap_text_wf (snd mc))
     \<and> pred_option (recurring_wf valid_key) (sp_recurringTransfer r)"

definition tidy_stored :: "stored_policy \<Rightarrow> stored_policy" where
  "tidy_stored r = r\<lparr>sp_recurringTransfer := map_option tidy_recurring (sp_recurringTransfer r)\<rparr>"

lemma normalizeNonNegative_Inr:
  "normalizeNonNegativeRawAmount v = Inr a \<Longrightarrow> \<exists>n \<ge> 0. a = bigint_string n"
  by (auto simp: normalizeNonNegativeRawAmount_def Let_def bind_r_eq_Inr not_less split: if_splits)

lemma normalizeNonNegative_string: "0 \<le> n \<Longrightarrow> normalizeNonNegativeRawAmount (Some (bigint_string n)) = Inr (bigint_string n)"
  by (simp add: normalizeNonNegativeRawAmount_def trim_or_undef_def Let_def)

lemma normalizeNonNegative_idem:
  "normalizeNonNegativeRawAmount v = Inr a \<Longrightarrow> normalizeNonNegativeRawAmount (Some a) = Inr a"
  using normalizeNonNegative_Inr normalizeNonNegative_string by blast

lemma normalizeDestination_idem:
  "normalizeRecurringTransferDestination valid_key v = Inr to \<Longrightarrow>
   normalizeRecurringTransferDestination valid_key (Some to) = Inr to"
  by (auto simp: normalizeRecurringTransferDestination_def opt_str_def Let_def bind_r_eq_Inr
      assertValidSolanaAddress_def isValidSolanaAddress_def split: if_splits)

lemma clamp_percentage_int: "1 \<le> p \<Longrightarrow> p \<le> 100 \<Longrightarrow> clamp_percentage (of_int p) = p"
  by (simp add: clamp_percentage_def)

lemma clamp_percentage_range: "1 \<le> clamp_percentage q \<and> clamp_percentage q \<le> 100"
  by (simp add: clamp_percentage_def)

lemma amount_field_props:
  "get_prop (amount_fields a @ rest) ''amountMode'' = Some (JStr (case a of FixedAmount _ \<Rightarrow> ''fixed'' | PercentageAmount _ _ _ \<Rightarrow> ''percentage''))"
  "k \<notin> {''amountMode'', ''amount'', ''percentage'', ''minAmount'', ''keepAmount''} \<Longrightarrow> get_prop (amount_fields a @ rest) k = get_prop rest k"
  "get_prop (amount_fields (FixedAmount t) @ rest) ''amount'' = Some (JStr t)"
  "get_prop (amount_fields (PercentageAmount p mn keep) @ rest) ''percentage'' = Some (JNum (Fin (of_int p)))"
  "get_prop (amount_fields (PercentageAmount p mn keep) @ rest) ''minAmount'' = Some (JStr mn)"
  "get_prop (amount_fields (PercentageAmount p mn keep) @ rest) ''keepAmount'' = Some (JStr keep)"
  by (cases a; simp)+

lemma recurring_object_props:
  "get_prop (recurring_object r) ''enabled'' = Some (JBool (rt_enabled r))"
  "get_prop (recurring_object r) ''to'' = Some (JStr (rt_to r))"
  "get_prop (recurring_object r) ''program'' = map_option JStr (rt_program r)"
  "get_prop (recurring_object r) ''amountMode'' = Some (JStr (case rt_amount r of FixedAmount _ \<Rightarrow> ''fixed'' | PercentageAmount _ _ _ \<Rightarrow> ''percentage''))"
  "rt_amount r = FixedAmount t \<Longrightarrow> get_prop (recurring_object r) ''amount'' = Some (JStr t)"
  "rt_amount r = PercentageAmount p mn keep \<Longrightarrow> get_prop (recurring_object r) ''percentage'' = Some (JNum (Fin (of_int p)))"
  "rt_amount r = PercentageAmount p mn keep \<Longrightarrow> get_prop (recurring_object r) ''minAmount'' = Some (JStr mn)"
  "rt_amount r = PercentageAmount p mn keep \<Longrightarrow> get_prop (recurring_object r) ''keepAmount'' = Some (JStr keep)"
  "get_prop (recurring_object r) ''schedule'' = map_option JObj (rt_schedule r)"
  "get_prop (recurring_object r) ''name'' = map_option JStr (rt_name r)"
  "get_prop (recurring_object r) ''updatedAt'' = Some (JStr (rt_updatedAt r))"
  by (simp_all add: recurring_object_def amount_field_props split: option.split)

lemma normalizeRecurringAmount_object:
  "amount_wf (rt_amount r) \<Longrightarrow> normalizeRecurringAmount (recurring_object r) = Inr (rt_amount r)"
  by (cases "rt_amount r")
    (simp_all add: normalizeRecurringAmount_def recurring_object_props Let_def clamp_percentage_int)

lemma normalizeRecurringAmount_wf: "normalizeRecurringAmount value = Inr a \<Longrightarrow> amount_wf a"
  by (auto simp: normalizeRecurringAmount_def Let_def bind_r_eq_Inr clamp_percentage_range
      dest: normalizeNonNegative_idem split: if_splits option.splits json.splits js_number.splits)

lemma normalizeRecurring_object:
  assumes "recurring_wf valid_key r"
  shows "normalizeRecurringTransferPolicy valid_key now (Some (JObj (recurring_object r))) = Inr (Some (tidy_recurring r))"
proof -
  have "js_trim (the_string (map_option JStr (rt_program r))) = opt_str (rt_program r)"
    "opt_str (rt_program r) \<noteq> [] \<Longrightarrow> isValidSolanaAddress valid_key (opt_str (rt_program r))"
    "(if opt_str (rt_program r) = [] then None else Some (opt_str (rt_program r))) = rt_program r"
    using assms by (auto simp: recurring_wf_def the_string_def opt_str_def isValidSolanaAddress_def split: option.splits)
  then show ?thesis using assms
    by (simp add: normalizeRecurringTransferPolicy_def recurring_object_props recurring_wf_def tidy_recurring_def
        assertValidSolanaAddress_def normalizeRecurringTransferSchedule_def normalizeRecurringAmount_object Let_def)
qed

lemma trim_or_undef_idem [simp]: "trim_or_undef (trim_or_undef v) = trim_or_undef v"
  by (simp add: trim_or_undef_def Let_def split: option.split)

lemma trim_or_undef_trimmed: "pred_option (\<lambda>n. js_trim n = n) (trim_or_undef v)"
  by (auto simp: pred_option_all dest: trim_or_undef_Some)

lemma assert_address: "assertValidSolanaAddress valid_key p l = Inr u \<Longrightarrow> js_trim p = p \<Longrightarrow> valid_key p"
  by (simp add: assertValidSolanaAddress_def isValidSolanaAddress_def split: if_splits)

lemma normalizeRecurring_wf:
  assumes "normalizeRecurringTransferPolicy valid_key now raw = Inr (Some r)"
  shows "recurring_wf valid_key r \<and> tidy_recurring r = r"
proof -
  from assms obtain kvs where raw: "as_record raw = Some kvs"
    by (auto simp: normalizeRecurringTransferPolicy_def split: option.splits)
  let ?program = "js_trim (the_string (get_prop kvs ''program''))"
  from assms raw obtain to u amount where
    to: "normalizeRecurringTransferDestination valid_key (opt_string (get_prop kvs ''to'')) = Inr to"
    and prog: "(if ?program \<noteq> [] then assertValidSolanaAddress valid_key ?program ''wallet recurring transfer mint'' else Inr ()) = Inr u"
    and amount: "normalizeRecurringAmount kvs = Inr amount"
    and r: "rt_to r = to" "rt_program r = (if ?program = [] then None else Some ?program)" "rt_amount r = amount"
      "rt_name r = trim_or_undef (opt_string (get_prop kvs ''name''))"
    by (auto simp: normalizeRecurringTransferPolicy_def Let_def bind_r_eq_Inr)
  have "?program \<noteq> [] \<Longrightarrow> valid_key ?program" using prog assert_address by force
  then show ?thesis
    using normalizeDestination_idem [OF to] normalizeRecurringAmount_wf [OF amount] trim_or_undef_trimmed
    by (simp add: recurring_wf_def tidy_recurring_def r)
qed

lemma addresses_wf_normalize: "addresses_wf (normalizeAddressList xs)"
  by (auto simp: addresses_wf_def normalizeAddressList_def)

lemma normalizeAddressList_wf: "addresses_wf xs \<Longrightarrow> normalizeAddressList xs = xs"
proof -
  assume wf: "addresses_wf xs"
  then have "map js_trim xs = xs" by (intro map_idI) (simp add: addresses_wf_def)
  moreover have "filter (\<lambda>v. v \<noteq> []) xs = xs" using wf by (simp add: addresses_wf_def filter_id_conv)
  ultimately show ?thesis using wf by (simp add: normalizeAddressList_def addresses_wf_def distinct_remdups_id)
qed

lemma keys_wf_Nil [simp]: "keys_wf []"
  by (simp add: keys_wf_def addresses_wf_def)

lemma set_keys_update: "fst ` set (AList.update k v xs) = insert k (fst ` set xs)"
  by (induction xs) auto

lemma keys_wf_update: "keys_wf xs \<Longrightarrow> js_trim k = k \<Longrightarrow> k \<noteq> [] \<Longrightarrow> keys_wf (AList.update k v xs)"
  using set_keys_update [of k v xs] by (auto simp: keys_wf_def addresses_wf_def distinct_update)

lemma fold_update_new:
  "keys_wf (acc @ xs) \<Longrightarrow> fold (\<lambda>(k, v) acc. AList.update k v acc) xs acc = acc @ xs"
  by (induction xs arbitrary: acc) (auto simp: keys_wf_def addresses_wf_def AList_update_new)

lemma from_entries_wf: "keys_wf xs \<Longrightarrow> from_entries xs = xs"
  using fold_update_new [of "[]" xs] by (simp add: from_entries_def)

lemma keys_wf_fold:
  "keys_wf acc \<Longrightarrow> \<forall>x \<in> set xs. js_trim (fst x) = fst x \<and> fst x \<noteq> [] \<Longrightarrow>
   keys_wf (fold (\<lambda>(k, v) acc. AList.update k v acc) xs acc)"
  by (induction xs arbitrary: acc) (auto simp: keys_wf_update)

lemma ball_fold_update:
  "\<forall>x \<in> set acc. P x \<Longrightarrow> \<forall>x \<in> set xs. P x \<Longrightarrow> \<forall>x \<in> set (fold (\<lambda>(k, v) acc. AList.update k v acc) xs acc). P x"
proof (induction xs arbitrary: acc)
  case (Cons x xs)
  have "\<forall>y \<in> set (AList.update (fst x) (snd x) acc). P y"
    by (rule AList_update_ball) (use Cons.prems in simp_all)
  then have "\<forall>y \<in> set (fold (\<lambda>(k, v) acc. AList.update k v acc) xs (AList.update (fst x) (snd x) acc)). P y"
    using Cons.prems by (intro Cons.IH) simp_all
  then show ?case by (cases x) simp
qed simp

lemma cap_text_of_json [simp]: "cap_text_wf c \<Longrightarrow> cap_text_of (cap_text_json c) = c"
  by (cases "ct_maxPerTx c"; cases "ct_maxDaily c")
    (simp_all add: cap_text_of_def cap_text_json_def cap_text_wf_def Let_def)

lemma cap_text_of_wf: "cap_text_wf (cap_text_of v)"
  by (auto simp: cap_text_wf_def cap_text_of_def Let_def pred_option_all)

lemma policy_object_props:
  "get_prop (policy_object r) ''version'' = Some (JNum (Fin 1))"
  "get_prop (policy_object r) ''walletId'' = Some (JStr (sp_walletId r))"
  "get_prop (policy_object r) ''role'' = Some (JStr ''agent'')"
  "get_prop (policy_object r) ''updatedAt'' = Some (JStr (sp_updatedAt r))"
  "get_prop (policy_object r) ''capsEnabled'' = Some (JBool (sp_capsEnabled r))"
  "get_prop (policy_object r) ''skillsEnabled'' = Some (JBool (sp_skillsEnabled r))"
  "get_prop (policy_object r) ''directSigning'' = Some (JBool (sp_directSigning r))"
  "get_prop (policy_object r) ''recurringTransfer'' = map_option (\<lambda>x. JObj (recurring_object x)) (sp_recurringTransfer r)"
  "get_prop (policy_object r) ''solana'' = Some (JObj [(''allowPrograms'', JArr (map JStr (sp_allowPrograms r))),
     (''tokenCaps'', JObj (map (\<lambda>(m, c). (m, cap_text_json c)) (sp_tokenCaps r))),
     (''maxPerTx'', JStr (sp_maxPerTx r)), (''maxDaily'', JStr (sp_maxDaily r))])"
  by (simp_all add: policy_object_def option.map_comp comp_def)

lemma token_caps_object:
  assumes "keys_wf caps" "\<forall>mc \<in> set caps. cap_text_wf (snd mc)"
  shows "from_entries (filter (\<lambda>(mint, _). mint \<noteq> [])
     (map (\<lambda>(mint, capRaw). (js_trim mint, cap_text_of capRaw)) (map (\<lambda>(m, c). (m, cap_text_json c)) caps))) = caps"
proof -
  have "map (\<lambda>(mint, capRaw). (js_trim mint, cap_text_of capRaw)) (map (\<lambda>(m, c). (m, cap_text_json c)) caps) = caps"
    unfolding map_map by (rule map_idI) (use assms in \<open>auto simp: keys_wf_def addresses_wf_def\<close>)
  moreover have "filter (\<lambda>(mint, _). mint \<noteq> []) caps = caps"
    using assms(1) by (auto simp: keys_wf_def addresses_wf_def filter_id_conv)
  ultimately show ?thesis using from_entries_wf [OF assms(1)] by simp
qed

lemma normalizeStored_object:
  assumes "stored_wf valid_key r"
  shows "normalizeStoredWalletPolicyRecord valid_key num now (JObj (policy_object r)) = Inr (Some (tidy_stored r))"
proof -
  have rec: "normalizeRecurringTransferPolicy valid_key now (map_option (\<lambda>x. JObj (recurring_object x)) (sp_recurringTransfer r))
      = Inr (map_option tidy_recurring (sp_recurringTransfer r))"
    using assms normalizeRecurring_object
    by (cases "sp_recurringTransfer r") (simp_all add: policy_object_props stored_wf_def normalizeRecurringTransferPolicy_def)
  have caps: "from_entries (filter (\<lambda>(mint, _). mint \<noteq> [])
     (map (\<lambda>(mint, capRaw). (js_trim mint, cap_text_of capRaw))
       (map (\<lambda>(m, c). (m, cap_text_json c)) (sp_tokenCaps r)))) = sp_tokenCaps r"
    using assms by (intro token_caps_object) (simp_all add: stored_wf_def)
  have strings: "map (js_String num) (map JStr xs) = xs" for xs by (induction xs) simp_all
  have allow: "normalizeAddressList (map (js_String num) (map JStr (sp_allowPrograms r))) = sp_allowPrograms r"
    unfolding strings using assms by (intro normalizeAddressList_wf) (simp add: stored_wf_def)
  have bools: "is_bool (Some (JBool b))" for b by (simp add: is_bool_def)
  show ?thesis using assms caps allow rec
    by (simp add: normalizeStoredWalletPolicyRecord_def policy_object_props object_entries_def tidy_stored_def stored_wf_def bools del: map_map filter_map)
qed

lemma normalizeStored_wf:
  assumes "normalizeStoredWalletPolicyRecord valid_key num now raw = Inr (Some r)"
  shows "stored_wf valid_key r \<and> tidy_stored r = r"
proof -
  from assms obtain kvs solana rec where rec: "normalizeRecurringTransferPolicy valid_key now (get_prop kvs ''recurringTransfer'') = Inr rec"
    and r: "sp_recurringTransfer r = rec" "js_trim (sp_walletId r) = sp_walletId r"
      "addresses_wf (sp_allowPrograms r)"
      "sp_tokenCaps r = from_entries (filter (\<lambda>(mint, _). mint \<noteq> [])
                 (map (\<lambda>(mint, capRaw). (js_trim mint, cap_text_of capRaw))
                   (object_entries (get_prop solana ''tokenCaps''))))"
    by (auto simp: normalizeStoredWalletPolicyRecord_def bind_r_eq_Inr addresses_wf_normalize addresses_wf_def [of "[]"]
        split: option.splits if_splits)
  let ?kvs = "filter (\<lambda>(mint, _). mint \<noteq> [])
                 (map (\<lambda>(mint, capRaw). (js_trim mint, cap_text_of capRaw))
                   (object_entries (get_prop solana ''tokenCaps'')))"
  have "keys_wf (sp_tokenCaps r)" unfolding r(4) from_entries_def by (rule keys_wf_fold) auto
  moreover have "\<forall>mc \<in> set (sp_tokenCaps r). cap_text_wf (snd mc)"
    unfolding r(4) from_entries_def by (rule ball_fold_update) (auto simp: cap_text_of_wf)
  moreover have "pred_option (recurring_wf valid_key) rec \<and> map_option tidy_recurring rec = rec"
    using rec normalizeRecurring_wf by (cases rec) auto
  ultimately show ?thesis using r by (simp add: stored_wf_def tidy_stored_def)
qed

definition policies_wf :: "(string \<Rightarrow> bool) \<Rightarrow> (string \<times> stored_policy) list \<Rightarrow> bool" where
  "policies_wf valid_key ws \<longleftrightarrow> keys_wf ws \<and> (\<forall>wr \<in> set ws. stored_wf valid_key (snd wr) \<and> sp_walletId (snd wr) = fst wr)"

definition tidy_policies :: "(string \<times> stored_policy) list \<Rightarrow> (string \<times> stored_policy) list" where
  "tidy_policies ws = map (\<lambda>(w, r). (w, tidy_stored r)) ws"

lemma tidy_stored_walletId [simp]: "sp_walletId (tidy_stored r) = sp_walletId r"
  by (simp add: tidy_stored_def)

lemma readPolicies_print:
  assumes "keys_wf (acc @ ws)" "\<forall>wr \<in> set ws. stored_wf valid_key (snd wr) \<and> sp_walletId (snd wr) = fst wr"
  shows "readPolicies valid_key num now acc (map (\<lambda>(w, r). (w, JObj (policy_object r))) ws) = Some (acc @ tidy_policies ws)"
  using assms
proof (induction ws arbitrary: acc)
  case (Cons wr ws)
  obtain w r where wr: "wr = (w, r)" by (cases wr)
  have "keys_wf ((acc @ [(w, tidy_stored r)]) @ ws)" using Cons.prems(1) wr by (simp add: keys_wf_def)
  moreover have "w \<notin> fst ` set acc" "js_trim w = w" "w \<noteq> []"
    using Cons.prems(1) wr by (auto simp: keys_wf_def addresses_wf_def)
  ultimately show ?case using Cons wr normalizeStored_object [of valid_key r]
    by (simp add: AList_update_new tidy_policies_def)
qed (simp add: tidy_policies_def)

lemma readPolicies_wf:
  "readPolicies valid_key num now acc raw = Some out \<Longrightarrow> policies_wf valid_key acc \<Longrightarrow> tidy_policies acc = acc \<Longrightarrow>
   policies_wf valid_key out \<and> tidy_policies out = out"
proof (induction valid_key num now acc raw rule: readPolicies.induct)
  case (2 valid_key num now acc walletId recordRaw rest)
  then obtain r where r: "normalizeStoredWalletPolicyRecord valid_key num now recordRaw = Inr (Some r)"
    "js_trim walletId \<noteq> []" "sp_walletId r = js_trim walletId"
    "readPolicies valid_key num now (AList.update (js_trim walletId) r acc) rest = Some out"
    by (auto split: sum.splits option.splits if_splits)
  let ?acc = "AList.update (js_trim walletId) r acc"
  note wf = normalizeStored_wf [OF r(1)]
  have "\<forall>wr \<in> set ?acc. (stored_wf valid_key (snd wr) \<and> sp_walletId (snd wr) = fst wr) \<and> tidy_stored (snd wr) = snd wr"
  proof (rule AList_update_ball)
    show "\<forall>wr \<in> set acc. (stored_wf valid_key (snd wr) \<and> sp_walletId (snd wr) = fst wr) \<and> tidy_stored (snd wr) = snd wr"
      using "2.prems"(2,3) unfolding tidy_policies_def policies_wf_def
      by (metis (mono_tags, lifting) case_prod_beta map_eq_conv map_ident snd_conv)
  qed (use wf r in simp)
  moreover from this have "tidy_policies ?acc = ?acc" unfolding tidy_policies_def by (intro map_idI) auto
  moreover have "keys_wf ?acc" using "2.prems"(2) r(2) by (simp add: policies_wf_def keys_wf_update)
  ultimately show ?case using "2.IH" [OF r(1)] r "2.prems" by (simp add: policies_wf_def)
qed simp

lemma read_write_policies:
  assumes "policies_wf valid_key (ps_wallets st)"
  shows "readWalletPolicyState valid_key num now (writeWalletPolicyState st)
    = Inr \<lparr>ps_updatedAt = ps_updatedAt st, ps_wallets = tidy_policies (ps_wallets st)\<rparr>"
  using readPolicies_print [of "[]" "ps_wallets st" valid_key num now] assms
  by (simp add: readWalletPolicyState_def writeWalletPolicyState_def policies_wf_def)

lemma policies_Nil [simp]: "policies_wf valid_key []" "tidy_policies [] = []"
  by (simp_all add: policies_wf_def tidy_policies_def)

lemma read_policies_wf:
  "readWalletPolicyState valid_key num now f = Inr st \<Longrightarrow>
   policies_wf valid_key (ps_wallets st) \<and> tidy_policies (ps_wallets st) = ps_wallets st"
  by (auto simp: readWalletPolicyState_def policy_unreadable_def dest: readPolicies_wf
      split: state_file.splits option.splits if_splits)

section \<open>A committed policy is the one that is resolved\<close>

definition policy_wf :: "wallet_policy \<Rightarrow> bool" where
  "policy_wf pol \<longleftrightarrow> addresses_wf (wp_allowPrograms pol) \<and> keys_wf (wp_tokenCaps pol)"

abbreviation cap_texts :: "(string \<times> token_cap) list \<Rightarrow> (string \<times> cap_text) list" where
  "cap_texts caps \<equiv> map (\<lambda>(m, c). (m, \<lparr>ct_maxPerTx = Some (bigint_string (tc_maxPerTx c)),
                                    ct_maxDaily = Some (bigint_string (tc_maxDaily c))\<rparr>)) caps"

lemma keys_wf_map: "keys_wf (map (\<lambda>(m, c). (m, g c)) caps) \<longleftrightarrow> keys_wf caps"
  by (simp add: keys_wf_def comp_def case_prod_beta)

lemma normalizeTokenCaps_wf:
  "normalizeTokenCapsRecord out raw = Inr caps \<Longrightarrow> keys_wf out \<Longrightarrow> keys_wf caps"
  by (induction out raw rule: normalizeTokenCapsRecord.induct)
    (auto simp: Let_def bind_r_eq_Inr keys_wf_update split: if_splits)

lemma normalizeTokenCaps_print:
  "keys_wf (out @ caps) \<Longrightarrow> normalizeTokenCapsRecord out (cap_texts caps) = Inr (out @ caps)"
proof (induction caps arbitrary: out)
  case (Cons mc caps)
  obtain m c where mc: "mc = (m, c)" by (cases mc)
  have "m \<notin> fst ` set out" "js_trim m = m" "m \<noteq> []"
    using Cons.prems mc by (auto simp: keys_wf_def addresses_wf_def)
  moreover obtain p d where "c = \<lparr>tc_maxPerTx = p, tc_maxDaily = d\<rparr>" by (cases c)
  ultimately show ?case using Cons.IH [of "out @ [(m, c)]"] Cons.prems mc by (simp add: AList_update_new)
qed simp

lemma stored_caps: "keys_wf caps \<Longrightarrow> from_entries (cap_texts caps) = cap_texts caps"
  by (rule from_entries_wf) (simp add: keys_wf_map)

lemma buildResolved_buildStored:
  "policy_wf pol \<Longrightarrow> buildResolvedPolicyFromStoredRecord (tidy_stored (buildStoredPolicyRecord w pol rec now)) = Inr pol"
  using normalizeTokenCaps_print [of "[]" "wp_tokenCaps pol"]
  by (simp add: buildResolvedPolicyFromStoredRecord_def buildStoredPolicyRecord_def tidy_stored_def policy_wf_def
      stored_caps normalizeAddressList_wf)

lemma buildResolved_wf: "buildResolvedPolicyFromStoredRecord r = Inr pol \<Longrightarrow> policy_wf pol"
  by (auto simp: buildResolvedPolicyFromStoredRecord_def bind_r_eq_Inr policy_wf_def addresses_wf_normalize
      dest: normalizeTokenCaps_wf)

lemma buildStored_wf:
  assumes "policy_wf pol" "js_trim w = w" "pred_option (recurring_wf valid_key) rec"
  shows "stored_wf valid_key (buildStoredPolicyRecord w pol rec now)"
  using assms
  by (auto simp: stored_wf_def buildStoredPolicyRecord_def policy_wf_def stored_caps addresses_wf_normalize keys_wf_map
      cap_text_wf_def)

lemma preset_wf: "policy_wf (buildResolvedPolicyFromPreset p)"
  by (cases p) (simp_all add: recommended_policy_def policy_wf_def addresses_wf_def)

lemma patched_wf: "policy_wf base \<Longrightarrow> patched_policy base patch = Inr pol \<Longrightarrow> policy_wf pol"
  by (auto simp: patched_policy_def Let_def bind_r_eq_Inr policy_wf_def addresses_wf_normalize
      dest: normalizeTokenCaps_wf split: option.splits)

lemma patched_amount_wf:
  assumes "patchedRecurringAmount enabled old patch = Inr a" "pred_option amount_wf old"
  shows "amount_wf a"
proof -
  have range: "1 \<le> p \<and> p \<le> 100" if "Option.bind old old_percentage = Some (p, mk)" for p mk
    using that assms(2) by (cases old; cases "the old") auto
  then show ?thesis using assms(1)
    by (auto simp: patchedRecurringAmount_def Let_def bind_r_eq_Inr clamp_percentage_range
        dest: normalizeNonNegative_idem split: if_splits option.splits js_number.splits)
qed

lemma build_recurring_wf:
  assumes res: "buildRecurringTransferPolicyFromPatch valid_key now existing patch = Inr r"
    and old: "pred_option (recurring_wf valid_key) existing"
  shows "recurring_wf valid_key r"
proof -
  let ?program = "case rp_program patch of Some p \<Rightarrow> Some (js_trim p) | None \<Rightarrow> Option.bind existing rt_program"
  let ?program' = "if ?program = Some [] then None else ?program"
  from res obtain to u enabled amount where
    to: "normalizeRecurringTransferDestination valid_key (or_else (rp_to patch) (map_option rt_to existing)) = Inr to"
    and valid: "(case ?program' of Some p \<Rightarrow> assertValidSolanaAddress valid_key p ''wallet recurring transfer mint''
              | None \<Rightarrow> Inr ()) = Inr u"
    and amount: "patchedRecurringAmount enabled (map_option rt_amount existing) patch = Inr amount"
    and r: "rt_to r = to" "rt_program r = ?program'" "rt_amount r = amount"
      "rt_name r = (case or_else (rp_name patch) (Option.bind existing rt_name) of None \<Rightarrow> None
             | Some n \<Rightarrow> if n = [] then None else Some (js_trim n))"
    unfolding buildRecurringTransferPolicyFromPatch_def Let_def bind_r_eq_Inr
    by (auto simp: bind_r_eq_Inr simp del: split_paired_Ex split: if_splits)
  have "pred_option (\<lambda>p. js_trim p = p) ?program"
    using old by (cases existing) (auto simp: pred_option_all recurring_wf_def split: option.split)
  then have "pred_option (\<lambda>p. p \<noteq> [] \<and> js_trim p = p \<and> valid_key p) ?program'"
    using valid by (cases ?program) (auto dest: assert_address)
  moreover have "amount_wf amount"
    by (rule patched_amount_wf [OF amount]) (use old in \<open>cases existing; simp add: recurring_wf_def\<close>)
  moreover have "pred_option (\<lambda>n. js_trim n = n) (rt_name r)" by (simp add: r pred_option_all split: option.split)
  ultimately show ?thesis using normalizeDestination_idem [OF to] by (simp add: recurring_wf_def r)
qed

lemma explicit_wallet: "js_trim w \<noteq> [] \<Longrightarrow> resolveEffectiveWalletId registry (Some (js_trim w)) = Some (js_trim w)"
  by (simp add: resolveEffectiveWalletId_def trim_or_undef_def Let_def)

lemma apply_wf:
  "applyWalletPolicyConfig valid_key num now registry config w f = Inr base \<Longrightarrow> policy_wf (wc_policy config) \<Longrightarrow>
   policy_wf (wc_policy base)"
  using buildResolved_wf
  by (fastforce simp: applyWalletPolicyConfig_def bind_r_eq_Inr cloneWalletConfigWithPolicy_def split: option.splits)

lemma prepare_wf:
  assumes prep: "prepareWalletPolicyConfigUpdate valid_key num now registry config w patch f = Inr u"
    and wf: "policy_wf (wc_policy config)"
  obtains rec where "pu_walletId u = js_trim w" "js_trim w \<noteq> []" "policy_wf (wc_policy (pu_config u))"
    "pu_nextRecord u = buildStoredPolicyRecord (js_trim w) (wc_policy (pu_config u)) rec now"
    "stored_wf valid_key (pu_nextRecord u)"
    "\<exists>st. readWalletPolicyState valid_key num now f = Inr st
       \<and> pu_expectedRecordJson u = record_text (map_of (ps_wallets st) (js_trim w))"
proof -
  from prep obtain base st pol rec where w: "js_trim w \<noteq> []"
    and base: "applyWalletPolicyConfig valid_key num now registry config (Some (js_trim w)) f = Inr base"
    and st: "readWalletPolicyState valid_key num now f = Inr st"
    and pol: "(case pp_template patch of Some preset \<Rightarrow> Inr (buildResolvedPolicyFromPreset preset)
              | None \<Rightarrow> patched_policy (wc_policy base) patch) = Inr pol"
    and rec: "(case pp_recurringTransfer patch of
          Some None \<Rightarrow> Inr None
        | Some (Some p) \<Rightarrow> map_sum id Some (buildRecurringTransferPolicyFromPatch valid_key now
            (Option.bind (map_of (ps_wallets st) (js_trim w)) sp_recurringTransfer) p)
        | None \<Rightarrow> Inr (Option.bind (map_of (ps_wallets st) (js_trim w)) sp_recurringTransfer)) = Inr rec"
    and u: "u = \<lparr>pu_walletId = js_trim w, pu_config = cloneWalletConfigWithPolicy base pol,
           pu_expectedRecordJson = record_text (map_of (ps_wallets st) (js_trim w)),
           pu_nextRecord = buildStoredPolicyRecord (js_trim w) pol rec now, pu_preparedAt = now\<rparr>"
    unfolding prepareWalletPolicyConfigUpdate_def Let_def by (fastforce simp: bind_r_eq_Inr split: if_splits)
  have pol_wf: "policy_wf pol"
    using pol patched_wf [OF apply_wf [OF base wf]] preset_wf by (auto split: option.splits)
  have old: "pred_option (recurring_wf valid_key) (Option.bind (map_of (ps_wallets st) (js_trim w)) sp_recurringTransfer)"
    using read_policies_wf [OF st]
    by (cases "map_of (ps_wallets st) (js_trim w)")
      (auto simp: policies_wf_def stored_wf_def dest!: map_of_SomeD)
  have rec_wf: "pred_option (recurring_wf valid_key) rec"
  proof -
    have "recurring_wf valid_key r" if "map_sum id Some (buildRecurringTransferPolicyFromPatch valid_key now
        (Option.bind (map_of (ps_wallets st) (js_trim w)) sp_recurringTransfer) p) = Inr (Some r)" for p r
      using that build_recurring_wf [OF _ old] by (cases "buildRecurringTransferPolicyFromPatch valid_key now
        (Option.bind (map_of (ps_wallets st) (js_trim w)) sp_recurringTransfer) p") auto
    then show ?thesis using rec old by (cases rec) (auto split: option.splits)
  qed
  show ?thesis
    by (rule that [of rec]) (use w st pol_wf buildStored_wf [OF pol_wf _ rec_wf] in \<open>simp_all add: u cloneWalletConfigWithPolicy_def\<close>)
qed

text \<open>What a commit leaves in the file.\<close>

lemma commit_reads:
  assumes prep: "prepareWalletPolicyConfigUpdate valid_key num t registry config w patch f0 = Inr u"
    and wf: "policy_wf (wc_policy config)"
    and st: "readWalletPolicyState valid_key num now f = Inr st"
    and commit: "commitWalletPolicyConfigUpdate valid_key num now u f = (Inr res, f')"
  shows "\<exists>st'. readWalletPolicyState valid_key num now' f' = Inr st'
    \<and> map_of (ps_wallets st') = (map_of (ps_wallets st))(js_trim w \<mapsto> tidy_stored (pu_nextRecord u))"
proof -
  obtain rec where u: "pu_walletId u = js_trim w" "js_trim w \<noteq> []"
      "pu_nextRecord u = buildStoredPolicyRecord (js_trim w) (wc_policy (pu_config u)) rec t"
      "stored_wf valid_key (pu_nextRecord u)"
    by (rule prepare_wf [OF prep wf])
  let ?ws = "AList.update (js_trim w) (pu_nextRecord u) (ps_wallets st)"
  have f': "f' = writeWalletPolicyState \<lparr>ps_updatedAt = pu_preparedAt u, ps_wallets = ?ws\<rparr>"
    using commit st u(1) by (simp add: commitWalletPolicyConfigUpdate_def split: if_splits)
  have "sp_walletId (pu_nextRecord u) = js_trim w" using u(3) by (simp add: buildStoredPolicyRecord_def)
  then have "policies_wf valid_key ?ws"
    using read_policies_wf [OF st] u(2,4) unfolding policies_wf_def
    by (intro conjI keys_wf_update AList_update_ball) auto
  then have "readWalletPolicyState valid_key num now' f'
      = Inr \<lparr>ps_updatedAt = pu_preparedAt u, ps_wallets = tidy_policies ?ws\<rparr>"
    unfolding f' by (simp add: read_write_policies)
  moreover have tidy: "map_of (tidy_policies xs) = map_option tidy_stored \<circ> map_of xs" for xs
    by (induction xs) (auto simp: tidy_policies_def)
  have "map_option tidy_stored \<circ> map_of (ps_wallets st) = map_of (ps_wallets st)"
    using tidy [of "ps_wallets st"] read_policies_wf [OF st] by simp
  then have "map_of (tidy_policies ?ws) = (map_of (ps_wallets st))(js_trim w \<mapsto> tidy_stored (pu_nextRecord u))"
    by (simp add: tidy update_conv' fun_eq_iff)
  ultimately show ?thesis by simp
qed

section \<open>Properties\<close>

text \<open>
  C14: Whatever the policy file holds when it loads, writing the loaded state back and loading it again
  gives the same records: normalisation happens once, and no record is lost or changed by a rewrite.
\<close>

theorem wallet_policy_file_roundtrip:
  assumes "readWalletPolicyState valid_key num now f = Inr st"
  shows "readWalletPolicyState valid_key num now' (writeWalletPolicyState st) = Inr st"
  using read_write_policies [of valid_key st num now'] read_policies_wf [OF assms] by simp

text \<open>
  A policy update that succeeds takes effect: resolving the wallet's policy from the new file gives
  exactly the policy that the update returned, under any runtime configuration, and the resolved policy
  of every other wallet is unchanged.
\<close>

theorem wallet_policy_update_takes_effect:
  assumes wf: "policy_wf (wc_policy config)"
    and upsert: "upsertWalletPolicyConfig valid_key num now registry config w patch f = (Inr (w', cfg), f')"
  shows "applyWalletPolicyConfig valid_key num now' registry config' (Some w') f'
      = Inr (config'\<lparr>wc_policy := wc_policy cfg\<rparr>)
    \<and> (\<forall>v. js_trim v \<noteq> w' \<and> js_trim v \<noteq> [] \<longrightarrow>
        applyWalletPolicyConfig valid_key num now registry config' (Some v) f'
          = applyWalletPolicyConfig valid_key num now registry config' (Some v) f)"
proof -
  obtain u where prep: "prepareWalletPolicyConfigUpdate valid_key num now registry config w patch f = Inr u"
    and commit: "commitWalletPolicyConfigUpdate valid_key num now u f = (Inr (w', cfg), f')"
    using upsert by (auto simp: upsertWalletPolicyConfig_def split: sum.splits)
  obtain rec where u: "pu_walletId u = js_trim w" "js_trim w \<noteq> []" "policy_wf (wc_policy (pu_config u))"
      "pu_nextRecord u = buildStoredPolicyRecord (js_trim w) (wc_policy (pu_config u)) rec now"
    and st: "\<exists>st. readWalletPolicyState valid_key num now f = Inr st
       \<and> pu_expectedRecordJson u = record_text (map_of (ps_wallets st) (js_trim w))"
    by (rule prepare_wf [OF prep wf])
  from st obtain st where st: "readWalletPolicyState valid_key num now f = Inr st" by blast
  have same: "w' = js_trim w" "cfg = pu_config u"
    using commit st u(1) by (auto simp: commitWalletPolicyConfigUpdate_def split: if_splits)
  obtain st' where st': "readWalletPolicyState valid_key num now' f' = Inr st'"
    "map_of (ps_wallets st') = (map_of (ps_wallets st))(js_trim w \<mapsto> tidy_stored (pu_nextRecord u))"
    using commit_reads [OF prep wf st commit] by blast
  have first: "applyWalletPolicyConfig valid_key num now' registry config' (Some w') f'
      = Inr (config'\<lparr>wc_policy := wc_policy cfg\<rparr>)"
    using st' u by (simp add: applyWalletPolicyConfig_def same explicit_wallet buildResolved_buildStored cloneWalletConfigWithPolicy_def)
  show ?thesis
  proof (intro conjI first allI impI)
    fix v assume v: "js_trim v \<noteq> w' \<and> js_trim v \<noteq> []"
    have "resolveEffectiveWalletId registry (Some v) = Some (js_trim v)"
      using v by (simp add: resolveEffectiveWalletId_def trim_or_undef_def Let_def)
    moreover obtain st1 where "readWalletPolicyState valid_key num now f' = Inr st1"
      "map_of (ps_wallets st1) = (map_of (ps_wallets st))(js_trim w \<mapsto> tidy_stored (pu_nextRecord u))"
      using commit_reads [OF prep wf st commit] by blast
    ultimately show "applyWalletPolicyConfig valid_key num now registry config' (Some v) f'
          = applyWalletPolicyConfig valid_key num now registry config' (Some v) f"
      using v st same by (simp add: applyWalletPolicyConfig_def)
  qed
qed

text \<open>
  C9: Of two updates of a wallet prepared against the same record, once the first is committed and has
  changed the record, the commit of the second is refused and leaves the file alone: no update is lost.
\<close>

theorem wallet_policy_no_lost_update:
  assumes prep: "prepareWalletPolicyConfigUpdate valid_key num t registry config w patch f0 = Inr u"
    and wf: "policy_wf (wc_policy config)"
    and commit: "commitWalletPolicyConfigUpdate valid_key num now u f = (Inr res, f')"
    and changed: "record_text (Some (tidy_stored (pu_nextRecord u))) \<noteq> pu_expectedRecordJson u"
    and second: "pu_walletId v = pu_walletId u" "pu_expectedRecordJson v = pu_expectedRecordJson u"
  shows "commitWalletPolicyConfigUpdate valid_key num now' v f'
    = (Inl (Error ''wallet policy changed concurrently; reload the acknowledged signer policy''), f')"
proof -
  from commit obtain st where st: "readWalletPolicyState valid_key num now f = Inr st"
    by (auto simp: commitWalletPolicyConfigUpdate_def split: sum.splits)
  from commit_reads [OF prep wf st commit] obtain st' where
    "readWalletPolicyState valid_key num now' f' = Inr st'"
    "map_of (ps_wallets st') (js_trim w) = Some (tidy_stored (pu_nextRecord u))"
    by fastforce
  moreover have "pu_walletId u = js_trim w" by (rule prepare_wf [OF prep wf])
  ultimately show ?thesis using changed second by (simp add: commitWalletPolicyConfigUpdate_def)
qed

text \<open>
  C8: A transaction is admitted exactly when its chain is enabled, automated signing is allowed or not
  needed, the amount is a non-negative integer, a given program is on the allow list, and, with caps on,
  the amount is within the per-transaction cap of its token (a token without a cap is admitted unless
  the caller requires one) or of native SOL (unless the caller skips it).
\<close>

theorem wallet_tx_policy_admits:
  "validateWalletTxPolicy config p = Inr TxOk \<longleftrightarrow>
     tx_chain p \<in> set (wc_chains config)
     \<and> (wp_directSigning (wc_policy config) \<or> tx_requireDirectSigning p = Some False
         \<or> tx_requireDirectSigning p = None \<and> tx_action p = Prepare)
     \<and> (\<exists>n. parseValue (tx_amount p) = Inr n \<and> 0 \<le> n
         \<and> (opt_str (tx_program p) = [] \<or> js_trim (opt_str (tx_program p)) \<in> set (wp_allowPrograms (wc_policy config)))
         \<and> (\<not> wp_capsEnabled (wc_policy config)
             \<or> (if js_trim (opt_str (tx_program p)) = []
                 then tx_skipNativeSolanaCaps p \<or> n \<le> wp_maxPerTx (wc_policy config)
                 else (case map_of (wp_tokenCaps (wc_policy config)) (js_trim (opt_str (tx_program p))) of
                    None \<Rightarrow> \<not> tx_requireSolanaTokenCap p | Some cap \<Rightarrow> n \<le> tc_maxPerTx cap))))"
proof (cases "parseValue (tx_amount p)")
  case (Inl e)
  then show ?thesis by (simp add: validateWalletTxPolicy_def Let_def)
next
  case (Inr n)
  have "tx_action p = Prepare \<longleftrightarrow> tx_action p \<noteq> Send" by (cases "tx_action p") simp_all
  then show ?thesis using Inr
    by (auto simp: validateWalletTxPolicy_def Let_def split: option.splits if_splits)
qed

text \<open>
  Under the read-only preset no program call and no token spend is admitted, nothing is signed
  automatically, and a native transfer held against the caps is admitted only with amount zero.
\<close>

theorem wallet_read_only_preset:
  assumes "wc_policy config = buildResolvedPolicyFromPreset ReadOnly"
    and "validateWalletTxPolicy config p = Inr TxOk"
  shows "opt_str (tx_program p) = [] \<and> (tx_skipNativeSolanaCaps p \<or> parseValue (tx_amount p) = Inr 0)
    \<and> \<not> (case tx_requireDirectSigning p of Some b \<Rightarrow> b | None \<Rightarrow> tx_action p = Send)"
  using assms(2)
  by (auto simp: validateWalletTxPolicy_def assms(1) recommended_policy_def Let_def bind_r_eq_Inr
      split: if_splits option.splits)

definition sample_config :: wallet_config where
  "sample_config = \<lparr>wc_chains = [''solana''], wc_policy = recommended_policy, wc_toolMode = OwnerOnly,
     wc_allowAgents = [], wc_allowSources = []\<rparr>"

definition sample_registry :: wallet_registry where
  "sample_registry = \<lparr>wr_defaultWalletId = None, wr_wallets = []\<rparr>"

definition sample_patch :: "preset \<Rightarrow> policy_patch" where
  "sample_patch p = \<lparr>pp_template = Some p, pp_capsEnabled = None, pp_directSigning = None, pp_skillsEnabled = None,
     pp_solanaAllowPrograms = None, pp_solanaMaxPerTx = None, pp_solanaMaxDaily = None, pp_solanaTokenCaps = None,
     pp_recurringTransfer = None\<rparr>"

abbreviation sample_upsert :: "preset \<Rightarrow> (string \<times> wallet_config) result \<times> state_file" where
  "sample_upsert p \<equiv> upsertWalletPolicyConfig (\<lambda>_. True) (\<lambda>_. []) ''t0'' sample_registry sample_config '' w'' (sample_patch p) NoFile"

lemma sample_config_wf: "policy_wf (wc_policy sample_config)"
  by (simp add: sample_config_def recommended_policy_def policy_wf_def addresses_wf_def)

theorem wallet_policy_file_roundtrip_witness:
  "\<exists>st. readWalletPolicyState (\<lambda>_. True) (\<lambda>_. []) ''t1'' (snd (sample_upsert SmallAgentSpend)) = Inr st
    \<and> map fst (ps_wallets st) = [''w'']
    \<and> readWalletPolicyState (\<lambda>_. True) (\<lambda>_. []) ''t2'' (writeWalletPolicyState st) = Inr st"
proof -
  have "case readWalletPolicyState (\<lambda>_. True) (\<lambda>_. []) ''t1'' (snd (sample_upsert SmallAgentSpend)) of
      Inr st \<Rightarrow> map fst (ps_wallets st) = [''w''] | Inl _ \<Rightarrow> False"
    by code_simp
  then obtain st where "readWalletPolicyState (\<lambda>_. True) (\<lambda>_. []) ''t1'' (snd (sample_upsert SmallAgentSpend)) = Inr st"
    "map fst (ps_wallets st) = [''w'']"
    by (auto split: sum.splits)
  then show ?thesis using wallet_policy_file_roundtrip by (intro exI [of _ st] conjI)
qed

theorem wallet_policy_update_takes_effect_witness:
  "applyWalletPolicyConfig (\<lambda>_. True) (\<lambda>_. []) ''t1'' sample_registry sample_config (Some ''w'') (snd (sample_upsert SmallAgentSpend))
     = Inr (sample_config\<lparr>wc_policy := buildResolvedPolicyFromPreset SmallAgentSpend\<rparr>)"
proof -
  have "sample_upsert SmallAgentSpend
      = (Inr (''w'', sample_config\<lparr>wc_policy := buildResolvedPolicyFromPreset SmallAgentSpend\<rparr>), snd (sample_upsert SmallAgentSpend))"
    by code_simp
  from wallet_policy_update_takes_effect [OF sample_config_wf this, of "''t1''" sample_config] show ?thesis by simp
qed

theorem wallet_policy_no_lost_update_witness:
  "\<exists>u v f'. prepareWalletPolicyConfigUpdate (\<lambda>_. True) (\<lambda>_. []) ''t0'' sample_registry sample_config ''w'' (sample_patch ReadOnly) NoFile = Inr u
    \<and> prepareWalletPolicyConfigUpdate (\<lambda>_. True) (\<lambda>_. []) ''t1'' sample_registry sample_config ''w'' (sample_patch TradingExperimental) NoFile = Inr v
    \<and> snd (commitWalletPolicyConfigUpdate (\<lambda>_. True) (\<lambda>_. []) ''t2'' u NoFile) = f'
    \<and> commitWalletPolicyConfigUpdate (\<lambda>_. True) (\<lambda>_. []) ''t3'' v f'
       = (Inl (Error ''wallet policy changed concurrently; reload the acknowledged signer policy''), f')"
proof -
  let ?prep = "\<lambda>t p. prepareWalletPolicyConfigUpdate (\<lambda>_. True) (\<lambda>_. []) t sample_registry sample_config ''w'' (sample_patch p) NoFile"
  let ?commit = "commitWalletPolicyConfigUpdate (\<lambda>_. True) (\<lambda>_. [])"
  have "case (?prep ''t0'' ReadOnly, ?prep ''t1'' TradingExperimental) of
      (Inr u, Inr v) \<Rightarrow> pu_walletId v = pu_walletId u \<and> pu_expectedRecordJson v = JNull \<and> pu_expectedRecordJson u = JNull
        \<and> is_ok (fst (?commit ''t2'' u NoFile))
    | _ \<Rightarrow> False"
    by code_simp
  then obtain u v where u: "?prep ''t0'' ReadOnly = Inr u" and v: "?prep ''t1'' TradingExperimental = Inr v"
    and same: "pu_walletId v = pu_walletId u" "pu_expectedRecordJson v = JNull" "pu_expectedRecordJson u = JNull"
    and ok: "is_ok (fst (?commit ''t2'' u NoFile))"
    by (auto split: sum.splits)
  obtain res f' where commit: "?commit ''t2'' u NoFile = (Inr res, f')"
    using ok by (cases "?commit ''t2'' u NoFile"; cases "fst (?commit ''t2'' u NoFile)") auto
  have "?commit ''t3'' v f' = (Inl (Error ''wallet policy changed concurrently; reload the acknowledged signer policy''), f')"
    by (rule wallet_policy_no_lost_update [OF u sample_config_wf commit]) (simp_all add: same record_text_def)
  then show ?thesis using u v commit by auto
qed

definition sample_request :: tx_request where
  "sample_request = \<lparr>tx_action = Prepare, tx_requireDirectSigning = None, tx_chain = ''solana'', tx_amount = Some ''7'',
    tx_program = None, tx_skipNativeSolanaCaps = False, tx_requireSolanaTokenCap = False\<rparr>"

theorem wallet_tx_policy_admits_witness:
  "\<exists>n. parseValue (Some ''7'') = Inr n \<and> n \<le> wp_maxPerTx recommended_policy
     \<and> validateWalletTxPolicy sample_config sample_request = Inr TxOk"
proof -
  have ok: "validateWalletTxPolicy sample_config sample_request = Inr TxOk" by code_simp
  have "wp_capsEnabled recommended_policy" by code_simp
  then show ?thesis
    using ok iffD1 [OF wallet_tx_policy_admits ok]
    by (auto simp: sample_request_def sample_config_def opt_str_def)
qed

theorem wallet_read_only_preset_witness:
  "parseValue (Some ''0'') = Inr 0"
proof -
  let ?p = "\<lparr>tx_action = Prepare, tx_requireDirectSigning = None, tx_chain = ''solana'', tx_amount = Some ''0'',
    tx_program = None, tx_skipNativeSolanaCaps = False, tx_requireSolanaTokenCap = False\<rparr>"
  have "validateWalletTxPolicy (sample_config\<lparr>wc_policy := buildResolvedPolicyFromPreset ReadOnly\<rparr>) ?p = Inr TxOk"
    by code_simp
  from wallet_read_only_preset [OF _ this] show ?thesis by simp
qed

end
