(* ===== verification/CommandQueue.thy ===== *)
theory CommandQueue
  imports Prelude "HOL-Library.AList"
begin

text \<open>
  \<open>src/process/command-queue.ts\<close>: the in-process lanes that serialise command executions. A
  queued command is any value \<open>'e\<close>; what it does when it runs is outside the queue. The state keeps
  the \<open>lanes\<close> map, the next task id, the draining flag, the closures in flight (the bodies of the
  \<open>async\<close> functions that \<open>pump\<close> starts and that wait for their task) and what the queue reports:
  enqueue and dequeue log lines and settled promises. One step is one turn of the event loop: a
  call of an exported function, or the continuation of one closure. A started task acts after the
  pump that started it has ended.
\<close>

section \<open>State\<close>

record 'e lane =
  ln_queue :: "'e list"
  ln_active :: "nat list"
  ln_max :: js_number
  ln_draining :: bool
  ln_generation :: nat

record 'e closure =
  cl_lane :: string
  cl_task :: nat
  cl_generation :: nat
  cl_entry :: 'e

datatype 'e report =
    Enqueued string 'e
  | Dequeued string 'e nat
  | Refused 'e
  | Cleared string 'e
  | Settled string 'e bool

record 'e command_queue =
  cq_lanes :: "(string \<times> 'e lane) list"
  cq_nextTaskId :: nat
  cq_gatewayDraining :: bool
  cq_inFlight :: "'e closure list"
  cq_reports :: "'e report list"

definition initial_queue :: "'e command_queue" where
  "initial_queue = \<lparr>cq_lanes = [], cq_nextTaskId = 1, cq_gatewayDraining = False, cq_inFlight = [], cq_reports = []\<rparr>"

definition new_lane :: "'e lane" where
  "new_lane = \<lparr>ln_queue = [], ln_active = [], ln_max = Fin 1, ln_draining = False, ln_generation = 0\<rparr>"

definition Main :: string where
  "Main = ''main''"

definition cleaned :: "string \<Rightarrow> string" where
  "cleaned lane = str_or (js_trim lane) Main"

text \<open>\<open>size < max\<close> and \<open>Math.max(1, Math.floor(n))\<close> on JavaScript numbers.\<close>

fun below :: "nat \<Rightarrow> js_number \<Rightarrow> bool" where
  "below n JS_NaN = False"
| "below n (JS_Inf negative) = (\<not> negative)"
| "below n (Fin q) = (of_nat n < q)"

fun at_least_one :: "js_number \<Rightarrow> js_number" where
  "at_least_one JS_NaN = JS_NaN"
| "at_least_one (JS_Inf negative) = (if negative then Fin 1 else JS_Inf False)"
| "at_least_one (Fin q) = Fin (max 1 (of_int \<lfloor>q\<rfloor>))"

definition lane_of :: "'e command_queue \<Rightarrow> string \<Rightarrow> 'e lane" where
  "lane_of s name = (case map_of (cq_lanes s) name of Some st \<Rightarrow> st | None \<Rightarrow> new_lane)"

text \<open>\<open>getLaneState\<close> creates the lane when it is missing.\<close>

definition getLaneState :: "string \<Rightarrow> 'e command_queue \<Rightarrow> 'e lane \<times> 'e command_queue" where
  "getLaneState name s =
     (case map_of (cq_lanes s) name of Some st \<Rightarrow> (st, s)
      | None \<Rightarrow> (new_lane, s\<lparr>cq_lanes := AList.update name new_lane (cq_lanes s)\<rparr>))"

definition put_lane :: "string \<Rightarrow> 'e lane \<Rightarrow> 'e command_queue \<Rightarrow> 'e command_queue" where
  "put_lane name st s = s\<lparr>cq_lanes := AList.update name st (cq_lanes s)\<rparr>"

section \<open>Draining a lane\<close>

definition completeTask :: "nat \<Rightarrow> nat \<Rightarrow> 'e lane \<Rightarrow> bool \<times> 'e lane" where
  "completeTask taskId taskGeneration st =
     (if taskGeneration \<noteq> ln_generation st then (False, st)
      else (True, st\<lparr>ln_active := removeAll taskId (ln_active st)\<rparr>))"

text \<open>The body of one round of the loop in \<open>pump\<close>: the first queued command is started.\<close>

definition start_next :: "string \<Rightarrow> 'e command_queue \<Rightarrow> 'e command_queue" where
  "start_next name s =
     (let st = lane_of s name; entry = hd (ln_queue st); taskId = cq_nextTaskId s
      in (put_lane name (st\<lparr>ln_queue := tl (ln_queue st), ln_active := ln_active st @ [taskId]\<rparr>) s)
           \<lparr>cq_nextTaskId := taskId + 1,
            cq_inFlight := cq_inFlight s @ [\<lparr>cl_lane = name, cl_task = taskId,
              cl_generation = ln_generation st, cl_entry = entry\<rparr>],
            cq_reports := cq_reports s @ [Dequeued name entry taskId]\<rparr>)"

definition can_start :: "'e lane \<Rightarrow> bool" where
  "can_start st \<longleftrightarrow> below (length (ln_active st)) (ln_max st) \<and> ln_queue st \<noteq> []"

function pump_loop :: "string \<Rightarrow> 'e command_queue \<Rightarrow> 'e command_queue" where
  "pump_loop name s = (if can_start (lane_of s name) then pump_loop name (start_next name s) else s)"
  by pat_completeness auto
termination
  by (relation "measure (\<lambda>(name, s). length (ln_queue (lane_of s name)))")
    (auto simp: can_start_def start_next_def put_lane_def lane_of_def Let_def update_conv)

declare pump_loop.simps [simp del]

definition pump :: "string \<Rightarrow> 'e command_queue \<Rightarrow> 'e command_queue" where
  "pump name s = (let s' = pump_loop name s in put_lane name ((lane_of s' name)\<lparr>ln_draining := False\<rparr>) s')"

definition drainLane :: "string \<Rightarrow> 'e command_queue \<Rightarrow> 'e command_queue" where
  "drainLane name s =
     (let (st, s1) = getLaneState name s
      in if ln_draining st then s1 else pump name (put_lane name (st\<lparr>ln_draining := True\<rparr>) s1))"

section \<open>Exported operations\<close>

definition markGatewayDraining :: "'e command_queue \<Rightarrow> 'e command_queue" where
  "markGatewayDraining s = s\<lparr>cq_gatewayDraining := True\<rparr>"

definition setCommandLaneConcurrency :: "string \<Rightarrow> js_number \<Rightarrow> 'e command_queue \<Rightarrow> 'e command_queue" where
  "setCommandLaneConcurrency lane maxConcurrent s =
     (let name = cleaned lane; (st, s1) = getLaneState name s
      in drainLane name (put_lane name (st\<lparr>ln_max := at_least_one maxConcurrent\<rparr>) s1))"

definition enqueueCommandInLane :: "string \<Rightarrow> 'e \<Rightarrow> 'e command_queue \<Rightarrow> 'e command_queue" where
  "enqueueCommandInLane lane entry s =
     (if cq_gatewayDraining s then s\<lparr>cq_reports := cq_reports s @ [Refused entry]\<rparr>
      else let name = cleaned lane; (st, s1) = getLaneState name s;
               s2 = put_lane name (st\<lparr>ln_queue := ln_queue st @ [entry]\<rparr>) s1
           in drainLane name (s2\<lparr>cq_reports := cq_reports s2 @ [Enqueued name entry]\<rparr>))"

definition enqueueCommand :: "'e \<Rightarrow> 'e command_queue \<Rightarrow> 'e command_queue" where
  "enqueueCommand entry s = enqueueCommandInLane Main entry s"

text \<open>
  The continuation of a closure when its task has ended, well (\<open>ok\<close>) or by throwing; the promise of
  the command settles in both cases.
\<close>

definition task_ended :: "'e closure \<Rightarrow> bool \<Rightarrow> 'e command_queue \<Rightarrow> 'e command_queue" where
  "task_ended c ok s0 =
     (let s = s0\<lparr>cq_inFlight := remove1 c (cq_inFlight s0)\<rparr>; name = cl_lane c;
          (current, st) = completeTask (cl_task c) (cl_generation c) (lane_of s name);
          s1 = (if current then pump name (put_lane name st s) else s)
      in s1\<lparr>cq_reports := cq_reports s1 @ [Settled name (cl_entry c) ok]\<rparr>)"

definition getQueueSize :: "string \<Rightarrow> 'e command_queue \<Rightarrow> nat" where
  "getQueueSize lane s = (case map_of (cq_lanes s) (cleaned lane) of None \<Rightarrow> 0
     | Some st \<Rightarrow> length (ln_queue st) + length (ln_active st))"

definition getTotalQueueSize :: "'e command_queue \<Rightarrow> nat" where
  "getTotalQueueSize s = sum_list (map (\<lambda>(_, st). length (ln_queue st) + length (ln_active st)) (cq_lanes s))"

definition clearCommandLane :: "string \<Rightarrow> 'e command_queue \<Rightarrow> nat \<times> 'e command_queue" where
  "clearCommandLane lane s =
     (let name = cleaned lane in
      case map_of (cq_lanes s) name of None \<Rightarrow> (0, s)
      | Some st \<Rightarrow>
        let s1 = put_lane name (st\<lparr>ln_queue := []\<rparr>) s
        in (length (ln_queue st), s1\<lparr>cq_reports := cq_reports s1 @ map (Cleared name) (ln_queue st)\<rparr>))"

definition reset_lane :: "'e lane \<Rightarrow> 'e lane" where
  "reset_lane st = st\<lparr>ln_generation := ln_generation st + 1, ln_active := [], ln_draining := False\<rparr>"

definition resetAllLanes :: "'e command_queue \<Rightarrow> 'e command_queue" where
  "resetAllLanes s =
     (let lanesToDrain = map fst (filter (\<lambda>(_, st). ln_queue st \<noteq> []) (cq_lanes s));
          s1 = s\<lparr>cq_gatewayDraining := False, cq_lanes := map (\<lambda>(n, st). (n, reset_lane st)) (cq_lanes s)\<rparr>
      in fold drainLane lanesToDrain s1)"

definition getActiveTaskCount :: "'e command_queue \<Rightarrow> nat" where
  "getActiveTaskCount s = sum_list (map (\<lambda>(_, st). length (ln_active st)) (cq_lanes s))"

text \<open>
  One poll of the two waits: \<open>Some drained\<close> resolves the promise, \<open>None\<close> polls again. The first wait
  keeps the ids that were active at its start.
\<close>

definition active_ids :: "'e command_queue \<Rightarrow> nat list" where
  "active_ids s = concat (map (\<lambda>(_, st). ln_active st) (cq_lanes s))"

definition waitForActiveTasks_check :: "nat list \<Rightarrow> int \<Rightarrow> int \<Rightarrow> 'e command_queue \<Rightarrow> bool option" where
  "waitForActiveTasks_check activeAtStart deadline now s =
     (if activeAtStart = [] then Some True
      else let hasPending = list_ex (\<lambda>i. i \<in> set activeAtStart) (active_ids s)
           in if \<not> hasPending then Some True else if now \<ge> deadline then Some False else None)"

definition waitForAllTasks_check :: "int \<Rightarrow> int \<Rightarrow> 'e command_queue \<Rightarrow> bool option" where
  "waitForAllTasks_check deadline now s =
     (if getTotalQueueSize s = 0 then Some True else if now \<ge> deadline then Some False else None)"

section \<open>Steps\<close>

inductive lane_step :: "'e command_queue \<Rightarrow> 'e command_queue \<Rightarrow> bool" where
  enqueue: "lane_step s (enqueueCommandInLane lane e s)"
| set_max: "lane_step s (setCommandLaneConcurrency lane n s)"
| ended: "c \<in> set (cq_inFlight s) \<Longrightarrow> lane_step s (task_ended c ok s)"
| clear: "lane_step s (snd (clearCommandLane lane s))"
| drain: "lane_step s (markGatewayDraining s)"

inductive queue_step :: "'e command_queue \<Rightarrow> 'e command_queue \<Rightarrow> bool" where
  lane: "lane_step s s' \<Longrightarrow> queue_step s s'"
| reset: "queue_step s (resetAllLanes s)"

inductive queue_reachable :: "'e command_queue \<Rightarrow> bool" where
  start: "queue_reachable initial_queue"
| step: "queue_reachable s \<Longrightarrow> queue_step s s' \<Longrightarrow> queue_reachable s'"

section \<open>The queue as a FIFO specification\<close>

text \<open>
  The reports of a lane replayed on an abstract queue: an enqueue adds at the end, a dequeue and a
  clear take their command from the front, and anything else is a violation (\<open>None\<close>).
\<close>

definition take_front :: "'e \<Rightarrow> 'e list \<Rightarrow> 'e list option" where
  "take_front e q = (case q of [] \<Rightarrow> None | x # q' \<Rightarrow> if x = e then Some q' else None)"

fun replay1 :: "string \<Rightarrow> 'e report \<Rightarrow> 'e list option \<Rightarrow> 'e list option" where
  "replay1 n (Enqueued m e) q = (if m = n then map_option (\<lambda>xs. xs @ [e]) q else q)"
| "replay1 n (Dequeued m e i) q = (if m = n then Option.bind q (take_front e) else q)"
| "replay1 n (Cleared m e) q = (if m = n then Option.bind q (take_front e) else q)"
| "replay1 n (Refused e) q = q"
| "replay1 n (Settled m e ok) q = q"

definition replay :: "string \<Rightarrow> 'e report list \<Rightarrow> 'e list option" where
  "replay n rs = fold (replay1 n) rs (Some [])"

lemma replay_append [simp]: "replay n (rs @ rs') = fold (replay1 n) rs' (replay n rs)"
  by (simp add: replay_def)

lemma replay_Nil [simp]: "replay n [] = Some []"
  by (simp add: replay_def)

lemma replay_cleared: "fold (replay1 n) (map (Cleared m) xs) (Some (if m = n then xs @ ys else zs)) = Some (if m = n then ys else zs)"
  by (induction xs) (auto simp: take_front_def)

section \<open>Invariant\<close>

definition current_tasks :: "'e command_queue \<Rightarrow> string \<Rightarrow> 'e closure list" where
  "current_tasks s n =
     filter (\<lambda>c. cl_lane c = n \<and> cl_generation c = ln_generation (lane_of s n)) (cq_inFlight s)"

definition core_inv :: "'e command_queue \<Rightarrow> bool" where
  "core_inv s \<longleftrightarrow> distinct (map fst (cq_lanes s)) \<and> distinct (map cl_task (cq_inFlight s))
     \<and> (\<forall>c \<in> set (cq_inFlight s). cl_task c < cq_nextTaskId s \<and> cl_generation c \<le> ln_generation (lane_of s (cl_lane c)))
     \<and> (\<forall>n. ln_active (lane_of s n) = map cl_task (current_tasks s n))
     \<and> (\<forall>n. replay n (cq_reports s) = Some (ln_queue (lane_of s n)))"

definition settled_lane :: "'e lane \<Rightarrow> bool" where
  "settled_lane st \<longleftrightarrow> \<not> ln_draining st \<and> \<not> can_start st"

definition queue_inv :: "'e command_queue \<Rightarrow> bool" where
  "queue_inv s \<longleftrightarrow> core_inv s \<and> (\<forall>n. settled_lane (lane_of s n))"

lemma lane_of_put [simp]: "lane_of (put_lane n st s) m = (if m = n then st else lane_of s m)"
  by (simp add: lane_of_def put_lane_def update_conv)

lemma put_lane_fields [simp]:
  "cq_nextTaskId (put_lane n st s) = cq_nextTaskId s" "cq_gatewayDraining (put_lane n st s) = cq_gatewayDraining s"
  "cq_inFlight (put_lane n st s) = cq_inFlight s" "cq_reports (put_lane n st s) = cq_reports s"
  "distinct (map fst (cq_lanes s)) \<Longrightarrow> distinct (map fst (cq_lanes (put_lane n st s)))"
  by (simp_all add: put_lane_def distinct_update)

lemma lane_of_update [simp]:
  "lane_of (s\<lparr>cq_nextTaskId := i\<rparr>) n = lane_of s n" "lane_of (s\<lparr>cq_inFlight := cs\<rparr>) n = lane_of s n"
  "lane_of (s\<lparr>cq_reports := rs\<rparr>) n = lane_of s n" "lane_of (s\<lparr>cq_gatewayDraining := b\<rparr>) n = lane_of s n"
  by (simp_all add: lane_of_def)

lemma getLaneState_lane [simp]:
  assumes "getLaneState n s = (st, s')"
  shows "st = lane_of s n" "lane_of s' m = lane_of s m" "cq_nextTaskId s' = cq_nextTaskId s"
    "cq_gatewayDraining s' = cq_gatewayDraining s" "cq_inFlight s' = cq_inFlight s" "cq_reports s' = cq_reports s"
    "distinct (map fst (cq_lanes s)) \<Longrightarrow> distinct (map fst (cq_lanes s'))"
proof -
  have "st = lane_of s n \<and> (s' = s \<or> s' = put_lane n (lane_of s n) s)"
    using assms by (auto simp: getLaneState_def lane_of_def put_lane_def split: option.splits)
  then show "st = lane_of s n" "lane_of s' m = lane_of s m" "cq_nextTaskId s' = cq_nextTaskId s"
    "cq_gatewayDraining s' = cq_gatewayDraining s" "cq_inFlight s' = cq_inFlight s" "cq_reports s' = cq_reports s"
    "distinct (map fst (cq_lanes s)) \<Longrightarrow> distinct (map fst (cq_lanes s'))"
    by auto
qed

lemma core_invD:
  assumes "core_inv s"
  shows "distinct (map fst (cq_lanes s))" "distinct (map cl_task (cq_inFlight s))"
    "c \<in> set (cq_inFlight s) \<Longrightarrow> cl_task c < cq_nextTaskId s"
    "c \<in> set (cq_inFlight s) \<Longrightarrow> cl_generation c \<le> ln_generation (lane_of s (cl_lane c))"
    "ln_active (lane_of s n) = map cl_task (current_tasks s n)"
    "replay n (cq_reports s) = Some (ln_queue (lane_of s n))"
  using assms unfolding core_inv_def by blast+

text \<open>A change of a lane that leaves its queue, its active tasks and its generation alone.\<close>

lemma core_inv_same:
  assumes "core_inv s" "distinct (map fst (cq_lanes s'))"
    and "cq_inFlight s' = cq_inFlight s" "cq_nextTaskId s' = cq_nextTaskId s" "cq_reports s' = cq_reports s"
    and "\<And>n. ln_queue (lane_of s' n) = ln_queue (lane_of s n) \<and> ln_active (lane_of s' n) = ln_active (lane_of s n)
      \<and> ln_generation (lane_of s' n) = ln_generation (lane_of s n)"
  shows "core_inv s'"
  using assms by (simp add: core_inv_def current_tasks_def)

lemma start_next_inv:
  assumes inv: "core_inv s" and start: "can_start (lane_of s n)"
  shows "core_inv (start_next n s)"
proof -
  obtain e q where q: "ln_queue (lane_of s n) = e # q" using start by (cases "ln_queue (lane_of s n)") (auto simp: can_start_def)
  let ?s = "start_next n s" and ?c = "\<lparr>cl_lane = n, cl_task = cq_nextTaskId s,
      cl_generation = ln_generation (lane_of s n), cl_entry = e\<rparr>"
  have lane: "lane_of ?s m = (if m = n then (lane_of s n)\<lparr>ln_queue := q, ln_active := ln_active (lane_of s n) @ [cq_nextTaskId s]\<rparr>
      else lane_of s m)" for m
    by (simp add: start_next_def Let_def q)
  have flight: "cq_inFlight ?s = cq_inFlight s @ [?c]" "cq_nextTaskId ?s = cq_nextTaskId s + 1"
    "cq_reports ?s = cq_reports s @ [Dequeued n e (cq_nextTaskId s)]" "distinct (map fst (cq_lanes ?s))"
    using inv by (simp_all add: start_next_def Let_def q core_inv_def)
  have tasks: "current_tasks ?s m = current_tasks s m @ (if m = n then [?c] else [])" for m
    by (simp add: current_tasks_def flight lane)
  have "distinct (map cl_task (cq_inFlight ?s))"
    using core_invD(2,3) [OF inv] by (force simp: flight)
  moreover have "\<forall>c \<in> set (cq_inFlight ?s). cl_task c < cq_nextTaskId ?s
      \<and> cl_generation c \<le> ln_generation (lane_of ?s (cl_lane c))"
    using core_invD(3,4) [OF inv] by (auto simp: flight lane less_Suc_eq)
  moreover have "\<forall>m. ln_active (lane_of ?s m) = map cl_task (current_tasks ?s m)"
    using core_invD(5) [OF inv] by (simp add: lane tasks)
  moreover have "\<forall>m. replay m (cq_reports ?s) = Some (ln_queue (lane_of ?s m))"
    using core_invD(6) [OF inv] q by (simp add: flight lane take_front_def)
  ultimately show ?thesis using flight by (simp add: core_inv_def)
qed

lemma start_next_other: "m \<noteq> n \<Longrightarrow> lane_of (start_next n s) m = lane_of s m"
  by (simp add: start_next_def Let_def)

text \<open>The loop keeps the core invariant, touches its own lane only and ends with nothing more to start.\<close>

lemma pump_loop_inv:
  assumes "core_inv s"
  shows "core_inv (pump_loop n s) \<and> \<not> can_start (lane_of (pump_loop n s) n)
    \<and> (\<forall>m. m \<noteq> n \<longrightarrow> lane_of (pump_loop n s) m = lane_of s m)"
  using assms
proof (induction n s rule: pump_loop.induct)
  case (1 n s)
  show ?case
  proof (cases "can_start (lane_of s n)")
    case True
    have "pump_loop n s = pump_loop n (start_next n s)" using True by (subst pump_loop.simps) simp
    then show ?thesis using "1.IH" [OF True start_next_inv [OF "1.prems" True]] start_next_other by metis
  next
    case False
    then have "pump_loop n s = s" by (subst pump_loop.simps) simp
    then show ?thesis using False "1.prems" by simp
  qed
qed

lemma can_start_draining [simp]: "can_start (st\<lparr>ln_draining := b\<rparr>) = can_start st"
  by (simp add: can_start_def)

lemma pump_core:
  assumes "core_inv s"
  shows "core_inv (pump n s) \<and> settled_lane (lane_of (pump n s) n) \<and> (\<forall>m. m \<noteq> n \<longrightarrow> lane_of (pump n s) m = lane_of s m)"
proof -
  let ?s = "pump_loop n s"
  have loop: "core_inv ?s" "\<not> can_start (lane_of ?s n)" "\<And>m. m \<noteq> n \<Longrightarrow> lane_of ?s m = lane_of s m"
    using pump_loop_inv [OF assms(1), of n] by auto
  have "core_inv (pump n s)"
    by (rule core_inv_same [OF loop(1)]) (use loop(1) in \<open>simp_all add: pump_def Let_def core_inv_def\<close>)
  then show ?thesis using loop by (simp add: pump_def Let_def settled_lane_def)
qed

lemma pump_inv:
  assumes "core_inv s" "\<And>m. m \<noteq> n \<Longrightarrow> settled_lane (lane_of s m)"
  shows "queue_inv (pump n s)"
  using pump_core [OF assms(1), of n] assms(2) unfolding queue_inv_def by metis

lemma drain_core:
  assumes core: "core_inv s" and idle: "\<not> ln_draining (lane_of s n)"
  shows "core_inv (drainLane n s) \<and> settled_lane (lane_of (drainLane n s) n)
    \<and> (\<forall>m. m \<noteq> n \<longrightarrow> lane_of (drainLane n s) m = lane_of s m)"
proof -
  obtain st s1 where get: "getLaneState n s = (st, s1)" by fastforce
  let ?s = "put_lane n (st\<lparr>ln_draining := True\<rparr>) s1"
  have "core_inv ?s" by (rule core_inv_same [OF core]) (use core in \<open>simp_all add: getLaneState_lane [OF get] core_inv_def\<close>)
  then show ?thesis using pump_core [of ?s n] idle by (simp add: drainLane_def get getLaneState_lane [OF get])
qed

lemma drain_inv:
  assumes "core_inv s" "\<not> ln_draining (lane_of s n)" "\<And>m. m \<noteq> n \<Longrightarrow> settled_lane (lane_of s m)"
  shows "queue_inv (drainLane n s)"
  using drain_core [OF assms(1,2)] assms(3) unfolding queue_inv_def by metis

section \<open>Every step keeps the invariant\<close>

lemma queue_invD: "queue_inv s \<Longrightarrow> core_inv s" "queue_inv s \<Longrightarrow> settled_lane (lane_of s n)"
  by (simp_all add: queue_inv_def)

lemma enqueue_inv:
  assumes inv: "queue_inv s"
  shows "queue_inv (enqueueCommandInLane lane e s)"
proof (cases "cq_gatewayDraining s")
  case True
  have "core_inv (s\<lparr>cq_reports := cq_reports s @ [Refused e]\<rparr>)"
    using core_invD [OF queue_invD(1) [OF inv]] by (simp add: core_inv_def current_tasks_def)
  then show ?thesis using inv True by (simp add: enqueueCommandInLane_def queue_inv_def)
next
  case False
  let ?n = "cleaned lane"
  obtain st s1 where get: "getLaneState ?n s = (st, s1)" by fastforce
  note s1 = getLaneState_lane [OF get]
  let ?s2 = "put_lane ?n (st\<lparr>ln_queue := ln_queue st @ [e]\<rparr>) s1"
  let ?s3 = "?s2\<lparr>cq_reports := cq_reports ?s2 @ [Enqueued ?n e]\<rparr>"
  have "core_inv ?s3"
    using core_invD [OF queue_invD(1) [OF inv]] by (fastforce simp add: core_inv_def current_tasks_def s1)
  then have "queue_inv (drainLane ?n ?s3)"
    by (rule drain_inv) (use inv in \<open>simp_all add: s1 queue_inv_def settled_lane_def\<close>)
  then show ?thesis using False by (simp add: enqueueCommandInLane_def get Let_def)
qed

lemma set_max_inv:
  assumes inv: "queue_inv s"
  shows "queue_inv (setCommandLaneConcurrency lane k s)"
proof -
  let ?n = "cleaned lane"
  obtain st s1 where get: "getLaneState ?n s = (st, s1)" by fastforce
  note s1 = getLaneState_lane [OF get]
  let ?s2 = "put_lane ?n (st\<lparr>ln_max := at_least_one k\<rparr>) s1"
  have "core_inv ?s2"
    by (rule core_inv_same [OF queue_invD(1) [OF inv]])
      (use core_invD(1) [OF queue_invD(1) [OF inv]] in \<open>simp_all add: s1\<close>)
  then have "queue_inv (drainLane ?n ?s2)"
    by (rule drain_inv) (use inv in \<open>simp_all add: s1 queue_inv_def settled_lane_def\<close>)
  then show ?thesis by (simp add: setCommandLaneConcurrency_def get Let_def)
qed

lemma report_settled_inv:
  assumes "queue_inv s"
  shows "queue_inv (s\<lparr>cq_reports := cq_reports s @ [Settled n e ok]\<rparr>)"
proof -
  have "core_inv (s\<lparr>cq_reports := cq_reports s @ [Settled n e ok]\<rparr>)"
    using core_invD [OF queue_invD(1) [OF assms]] by (simp add: core_inv_def current_tasks_def)
  then show ?thesis using assms by (simp add: queue_inv_def)
qed

lemma task_id_unique: "core_inv s \<Longrightarrow> c \<in> set (cq_inFlight s) \<Longrightarrow> d \<in> set (cq_inFlight s) \<Longrightarrow> cl_task c = cl_task d \<Longrightarrow> c = d"
  using core_invD(2) by (auto simp: distinct_map inj_on_def)

lemma filter_remove1: "distinct xs \<Longrightarrow> filter P (remove1 c xs) = (if P c then remove1 c (filter P xs) else filter P xs)"
  by (induction xs) auto

lemma map_remove1:
  "distinct (map f xs) \<Longrightarrow> c \<in> set xs \<Longrightarrow> map f (remove1 c xs) = removeAll (f c) (map f xs)"
  by (induction xs) (auto simp: removeAll_id [symmetric] image_iff)

text \<open>Taking a closure out of flight, with its active slot when it is of the current generation.\<close>

lemma closure_ends_inv:
  assumes inv: "core_inv s" and c: "c \<in> set (cq_inFlight s)"
    and st: "completeTask (cl_task c) (cl_generation c) (lane_of s (cl_lane c)) = (current, st)"
  shows "core_inv (put_lane (cl_lane c) st (s\<lparr>cq_inFlight := remove1 c (cq_inFlight s)\<rparr>))"
proof -
  let ?s = "put_lane (cl_lane c) st (s\<lparr>cq_inFlight := remove1 c (cq_inFlight s)\<rparr>)"
  have fields: "ln_queue st = ln_queue (lane_of s (cl_lane c))" "ln_generation st = ln_generation (lane_of s (cl_lane c))"
    "ln_active st = (if cl_generation c = ln_generation (lane_of s (cl_lane c))
       then removeAll (cl_task c) (ln_active (lane_of s (cl_lane c))) else ln_active (lane_of s (cl_lane c)))"
    using st by (auto simp: completeTask_def split: if_splits)
  have dist: "distinct (cq_inFlight s)" using core_invD(2) [OF inv] by (simp add: distinct_map)
  have gen: "ln_generation (lane_of ?s n) = ln_generation (lane_of s n)" for n by (simp add: fields)
  have tasks: "current_tasks ?s n = filter (\<lambda>d. cl_lane d = n \<and> cl_generation d = ln_generation (lane_of s n))
      (remove1 c (cq_inFlight s))" for n
    unfolding current_tasks_def gen by simp
  have "ln_active (lane_of ?s n) = map cl_task (current_tasks ?s n)" for n
  proof (cases "cl_lane c = n \<and> cl_generation c = ln_generation (lane_of s n)")
    case True
    have "current_tasks ?s n = remove1 c (current_tasks s n)"
      unfolding tasks using filter_remove1 [OF dist] True by (simp add: current_tasks_def)
    moreover have "c \<in> set (current_tasks s n)" using True c by (simp add: current_tasks_def)
    moreover have "distinct (map cl_task (current_tasks s n))"
      using core_invD(2) [OF inv] by (simp add: current_tasks_def distinct_map_filter)
    ultimately show ?thesis using True fields core_invD(5) [OF inv, of n] by (simp add: map_remove1)
  next
    case False
    have "current_tasks ?s n = current_tasks s n"
      unfolding tasks using filter_remove1 [OF dist] False by (auto simp: current_tasks_def)
    then show ?thesis using False fields core_invD(5) [OF inv, of n] by auto
  qed
  moreover have "distinct (map cl_task (cq_inFlight ?s))"
    using core_invD(2) [OF inv] by (simp add: distinct_map inj_on_def notin_set_remove1)
  moreover have "\<forall>d \<in> set (cq_inFlight ?s). cl_task d < cq_nextTaskId ?s \<and> cl_generation d \<le> ln_generation (lane_of ?s (cl_lane d))"
    using core_invD(3,4) [OF inv] notin_set_remove1 by (force simp: fields)
  ultimately show ?thesis using core_invD(1,6) [OF inv] by (simp add: core_inv_def fields)
qed

lemma task_ended_inv:
  assumes inv: "queue_inv s" and c: "c \<in> set (cq_inFlight s)"
  shows "queue_inv (task_ended c ok s)"
proof -
  let ?s = "s\<lparr>cq_inFlight := remove1 c (cq_inFlight s)\<rparr>"
  obtain current st where st: "completeTask (cl_task c) (cl_generation c) (lane_of s (cl_lane c)) = (current, st)"
    by fastforce
  note ends = closure_ends_inv [OF queue_invD(1) [OF inv] c st]
  show ?thesis
  proof (cases current)
    case True
    have "queue_inv (pump (cl_lane c) (put_lane (cl_lane c) st ?s))"
      by (rule pump_inv [OF ends]) (use inv in \<open>simp add: queue_inv_def\<close>)
    then show ?thesis using st True report_settled_inv by (simp add: task_ended_def Let_def)
  next
    case False
    then have "st = lane_of s (cl_lane c)" using st by (auto simp: completeTask_def split: if_splits)
    then have "core_inv ?s"
      using ends core_invD(1) [OF queue_invD(1) [OF inv]] core_inv_same [OF ends, of ?s] by simp
    then have "queue_inv ?s" using inv by (simp add: queue_inv_def)
    then show ?thesis using st False report_settled_inv [of ?s "cl_lane c" "cl_entry c" ok]
      by (simp add: task_ended_def Let_def)
  qed
qed

lemma clear_inv:
  assumes inv: "queue_inv s"
  shows "queue_inv (snd (clearCommandLane lane s))"
proof (cases "map_of (cq_lanes s) (cleaned lane)")
  case None
  then show ?thesis using inv by (simp add: clearCommandLane_def)
next
  case (Some st)
  let ?n = "cleaned lane"
  have st: "st = lane_of s ?n" using Some by (simp add: lane_of_def)
  let ?s = "put_lane ?n (st\<lparr>ln_queue := []\<rparr>) s"
  let ?s' = "?s\<lparr>cq_reports := cq_reports ?s @ map (Cleared ?n) (ln_queue st)\<rparr>"
  note core = core_invD [OF queue_invD(1) [OF inv]]
  have "replay m (cq_reports ?s') = Some (ln_queue (lane_of ?s' m))" for m
    using core(6) [of m] replay_cleared [of m ?n "ln_queue st" "[]" "ln_queue (lane_of s m)"]
    by (cases "m = ?n") (simp_all add: st)
  moreover have "current_tasks ?s' m = current_tasks s m" for m by (simp add: current_tasks_def st)
  ultimately have "core_inv ?s'" using core(1-5) by (fastforce simp: core_inv_def st)
  moreover have "settled_lane (lane_of ?s' m)" for m
    using queue_invD(2) [OF inv, of m] by (auto simp: st settled_lane_def can_start_def)
  ultimately show ?thesis using Some by (simp add: clearCommandLane_def Let_def queue_inv_def)
qed

lemma lane_of_reset:
  "lane_of (s\<lparr>cq_gatewayDraining := b, cq_lanes := map (\<lambda>(n, st). (n, reset_lane st)) (cq_lanes s)\<rparr>) n =
     (if map_of (cq_lanes s) n = None then new_lane else reset_lane (lane_of s n))"
proof -
  have "map_of (map (\<lambda>(n, st). (n, reset_lane st)) xs) n = map_option reset_lane (map_of xs n)" for xs :: "(string \<times> 'a lane) list"
    by (induction xs) auto
  then show ?thesis by (auto simp: lane_of_def split: option.split)
qed

text \<open>Draining a list of lanes in turn, where only they may still have something to start.\<close>

lemma fold_drain_inv:
  assumes "core_inv s" "\<And>n. \<not> ln_draining (lane_of s n)" "\<And>n. n \<notin> set ns \<Longrightarrow> settled_lane (lane_of s n)"
  shows "queue_inv (fold drainLane ns s)"
  using assms
proof (induction ns arbitrary: s)
  case Nil
  then show ?case by (simp add: queue_inv_def)
next
  case (Cons n ns)
  let ?s = "drainLane n s"
  have core: "core_inv ?s" and own: "settled_lane (lane_of ?s n)"
    and lanes: "\<And>m. m \<noteq> n \<Longrightarrow> lane_of ?s m = lane_of s m"
    using drain_core [OF Cons.prems(1,2), of n] by auto
  have "queue_inv (fold drainLane ns ?s)"
  proof (rule Cons.IH [OF core])
    show "\<not> ln_draining (lane_of ?s m)" for m
      using Cons.prems(2) lanes own by (cases "m = n") (simp_all add: settled_lane_def)
    show "settled_lane (lane_of ?s m)" if "m \<notin> set ns" for m
      using Cons.prems(3) lanes own that by (cases "m = n") simp_all
  qed
  then show ?case by simp
qed

definition reset_state :: "'e command_queue \<Rightarrow> 'e command_queue" where
  "reset_state s = s\<lparr>cq_gatewayDraining := False, cq_lanes := map (\<lambda>(n, st). (n, reset_lane st)) (cq_lanes s)\<rparr>"

lemma reset_state_fields [simp]:
  "cq_inFlight (reset_state s) = cq_inFlight s" "cq_reports (reset_state s) = cq_reports s"
  "cq_nextTaskId (reset_state s) = cq_nextTaskId s" "cq_gatewayDraining (reset_state s) = False"
  by (simp_all add: reset_state_def)

lemma reset_state_inv:
  assumes inv: "queue_inv s"
  shows "core_inv (reset_state s)" "\<not> ln_draining (lane_of (reset_state s) n)"
    "n \<notin> set (map fst (filter (\<lambda>(_, st). ln_queue st \<noteq> []) (cq_lanes s))) \<Longrightarrow> settled_lane (lane_of (reset_state s) n)"
proof -
  note core = core_invD [OF queue_invD(1) [OF inv]]
  have lane: "lane_of (reset_state s) n = (if map_of (cq_lanes s) n = None then new_lane else reset_lane (lane_of s n))" for n
    unfolding reset_state_def by (rule lane_of_reset)
  have missing: "map_of (cq_lanes s) n = None \<Longrightarrow> lane_of s n = new_lane" for n by (simp add: lane_of_def)
  have none: "\<not> (cl_lane c = n \<and> cl_generation c = ln_generation (lane_of (reset_state s) n))"
    if c: "c \<in> set (cq_inFlight s)" for c n
  proof (cases "map_of (cq_lanes s) n")
    case None
    have "current_tasks s n = []" using core(5) [of n] missing [OF None] by (simp add: new_lane_def)
    then show ?thesis using c missing [OF None] None by (auto simp: current_tasks_def filter_empty_conv lane)
  next
    case (Some st)
    then show ?thesis using core(4) [OF c] by (auto simp: lane reset_lane_def)
  qed
  have "current_tasks (reset_state s) n = []" for n
    using none by (auto simp: current_tasks_def filter_empty_conv)
  moreover have "distinct (map fst (cq_lanes (reset_state s)))"
    using core(1) by (simp add: reset_state_def comp_def case_prod_beta)
  moreover have "\<forall>c \<in> set (cq_inFlight s). cl_generation c \<le> ln_generation (lane_of (reset_state s) (cl_lane c))"
    using core(4) missing by (fastforce simp: lane reset_lane_def new_lane_def)
  ultimately show "core_inv (reset_state s)"
    using core(2,3,6) missing by (auto simp: core_inv_def lane reset_lane_def new_lane_def)
  show "\<not> ln_draining (lane_of (reset_state s) n)" by (simp add: lane reset_lane_def new_lane_def)
  show "settled_lane (lane_of (reset_state s) n)"
    if "n \<notin> set (map fst (filter (\<lambda>(_, st). ln_queue st \<noteq> []) (cq_lanes s)))"
  proof (cases "map_of (cq_lanes s) n")
    case None
    then show ?thesis by (simp add: lane new_lane_def settled_lane_def can_start_def)
  next
    case (Some st)
    then have "ln_queue st = []" using that map_of_SomeD [OF Some] by force
    moreover have "lane_of s n = st" using Some by (simp add: lane_of_def)
    ultimately show ?thesis using Some by (simp add: lane reset_lane_def settled_lane_def can_start_def)
  qed
qed

lemma reset_inv: "queue_inv s \<Longrightarrow> queue_inv (resetAllLanes s)"
  unfolding resetAllLanes_def Let_def reset_state_def [symmetric]
  by (rule fold_drain_inv) (simp_all add: reset_state_inv)

lemma lane_step_inv: "lane_step s s' \<Longrightarrow> queue_inv s \<Longrightarrow> queue_inv s'"
proof (induction rule: lane_step.induct)
  case (drain s)
  have "core_inv (s\<lparr>cq_gatewayDraining := True\<rparr>)"
    using core_invD [OF queue_invD(1) [OF drain]] by (simp add: core_inv_def current_tasks_def)
  then show ?case using drain by (simp add: markGatewayDraining_def queue_inv_def)
qed (simp_all add: enqueue_inv set_max_inv task_ended_inv clear_inv)

lemma queue_step_inv: "queue_step s s' \<Longrightarrow> queue_inv s \<Longrightarrow> queue_inv s'"
  by (induction rule: queue_step.induct) (auto intro: lane_step_inv reset_inv)

lemma queue_reachable_inv: "queue_reachable (s :: 'a command_queue) \<Longrightarrow> queue_inv s"
proof (induction rule: queue_reachable.induct)
  case start
  let ?s = "initial_queue :: 'a command_queue"
  have "lane_of ?s n = new_lane" for n by (simp add: lane_of_def initial_queue_def)
  moreover have "cq_inFlight ?s = []" "cq_reports ?s = []" "cq_lanes ?s = []"
    by (simp_all add: initial_queue_def)
  ultimately show ?case
    by (simp add: queue_inv_def core_inv_def settled_lane_def can_start_def current_tasks_def new_lane_def)
qed (rule queue_step_inv)

section \<open>Properties\<close>

definition sample_trace :: "nat command_queue" where
  "sample_trace = enqueueCommandInLane '' '' 2 (enqueueCommandInLane ''cron'' 9 (enqueueCommand 1 initial_queue))"

lemma sample_trace_reachable: "queue_reachable sample_trace"
  unfolding sample_trace_def enqueueCommand_def
  by (intro queue_reachable.step [OF _ queue_step.lane [OF lane_step.enqueue]] queue_reachable.start)

text \<open>
  C12: In every reachable state each lane is busy or empty: if a command is queued, the lane runs as many
  tasks as its concurrency allows, so no accepted command waits beside a free slot, whatever mix of
  enqueues, endings, limit changes, clears and resets came before.
\<close>

theorem queue_work_conserving:
  assumes "queue_reachable s" and "map_of (cq_lanes s) n = Some st" and "ln_queue st \<noteq> []"
  shows "\<not> below (length (ln_active st)) (ln_max st)"
  using queue_invD(2) [OF queue_reachable_inv [OF assms(1)], of n] assms(2,3)
  by (simp add: lane_of_def settled_lane_def can_start_def)

theorem queue_work_conserving_witness: "\<not> below 1 (Fin 1)"
proof -
  have "map_of (cq_lanes sample_trace) ''main'' = Some \<lparr>ln_queue = [2], ln_active = [1], ln_max = Fin 1,
      ln_draining = False, ln_generation = 0\<rparr>"
    by code_simp
  from queue_work_conserving [OF sample_trace_reachable this] show ?thesis by simp
qed

text \<open>
  In every reachable state the slots that a lane counts as active are exactly the tasks in flight
  that were started in its current generation, each once: no slot leaks, none is released twice, and a
  task started before a reset holds none.
\<close>

theorem queue_slots_exact:
  assumes "queue_reachable s" and "map_of (cq_lanes s) n = Some st"
  shows "distinct (ln_active st) \<and> ln_active st =
    map cl_task (filter (\<lambda>c. cl_lane c = n \<and> cl_generation c = ln_generation st) (cq_inFlight s))"
proof -
  note core = core_invD [OF queue_invD(1) [OF queue_reachable_inv [OF assms(1)]]]
  have st: "lane_of s n = st" using assms(2) by (simp add: lane_of_def)
  have "distinct (map cl_task (current_tasks s n))" using core(2) by (simp add: current_tasks_def distinct_map_filter)
  then show ?thesis using core(5) [of n] by (simp add: st current_tasks_def)
qed

theorem queue_slots_exact_witness:
  "cq_inFlight (resetAllLanes sample_trace) \<noteq> [] \<and>
   (case map_of (cq_lanes (resetAllLanes sample_trace)) ''cron'' of None \<Rightarrow> False | Some st \<Rightarrow>
     distinct (ln_active st) \<and> ln_active st = [])"
proof -
  have reach: "queue_reachable (resetAllLanes sample_trace)"
    by (rule queue_reachable.step [OF sample_trace_reachable queue_step.reset])
  have st: "map_of (cq_lanes (resetAllLanes sample_trace)) ''cron'' = Some \<lparr>ln_queue = [], ln_active = [], ln_max = Fin 1,
      ln_draining = False, ln_generation = 1\<rparr>"
    and flight: "cq_inFlight (resetAllLanes sample_trace) \<noteq> []"
    by code_simp+
  show ?thesis using queue_slots_exact [OF reach st] st flight by simp
qed

text \<open>
  C5: Each lane is a FIFO queue: in every reachable state, replaying what the lane reported (enqueues at
  the back, dequeues and clears from the front) never takes a command that is not at the front, and ends
  in exactly the commands that the lane still holds.
\<close>

theorem queue_fifo:
  assumes "queue_reachable s"
  shows "replay n (cq_reports s) = Some (ln_queue (lane_of s n))"
  by (rule core_invD(6) [OF queue_invD(1) [OF queue_reachable_inv [OF assms]]])

theorem queue_fifo_witness:
  "replay ''main'' (cq_reports sample_trace) = Some [2] \<and> cq_reports sample_trace =
     [Enqueued ''main'' 1, Dequeued ''main'' 1 1, Enqueued ''cron'' 9, Dequeued ''cron'' 9 2, Enqueued ''main'' 2]"
proof -
  have "ln_queue (lane_of sample_trace ''main'') = [2]" by code_simp
  moreover have "cq_reports sample_trace =
     [Enqueued ''main'' 1, Dequeued ''main'' 1 1, Enqueued ''cron'' 9, Dequeued ''cron'' 9 2, Enqueued ''main'' 2]"
    by code_simp
  ultimately show ?thesis using queue_fifo [OF sample_trace_reachable, of "''main''"] by simp
qed

lemma total_zero:
  assumes "distinct (map fst (cq_lanes s))"
  shows "getTotalQueueSize s = 0 \<longleftrightarrow> (\<forall>n. ln_queue (lane_of s n) = [] \<and> ln_active (lane_of s n) = [])"
proof -
  have "getTotalQueueSize s = 0 \<longleftrightarrow> (\<forall>(n, st) \<in> set (cq_lanes s). ln_queue st = [] \<and> ln_active st = [])"
    by (auto simp: getTotalQueueSize_def)
  also have "\<dots> \<longleftrightarrow> (\<forall>n. ln_queue (lane_of s n) = [] \<and> ln_active (lane_of s n) = [])"
  proof
    assume all: "\<forall>(n, st) \<in> set (cq_lanes s). ln_queue st = [] \<and> ln_active st = []"
    show "\<forall>n. ln_queue (lane_of s n) = [] \<and> ln_active (lane_of s n) = []"
      using all by (auto simp: lane_of_def new_lane_def dest!: map_of_SomeD split: option.split)
  next
    assume all: "\<forall>n. ln_queue (lane_of s n) = [] \<and> ln_active (lane_of s n) = []"
    have "lane_of s n = st" if "(n, st) \<in> set (cq_lanes s)" for n st
      using that assms by (simp add: lane_of_def map_of_is_SomeI)
    then show "\<forall>(n, st) \<in> set (cq_lanes s). ln_queue st = [] \<and> ln_active st = []" using all by fastforce
  qed
  finally show ?thesis .
qed

definition all_empty :: "'e command_queue \<Rightarrow> bool" where
  "all_empty s \<longleftrightarrow> (\<forall>n. ln_queue (lane_of s n) = [] \<and> ln_active (lane_of s n) = [])"

text \<open>With nothing queued, a drain changes neither the queue nor the active tasks of any lane.\<close>

lemma pump_empty:
  assumes "ln_queue (lane_of s n) = []"
  shows "ln_queue (lane_of (pump n s) m) = ln_queue (lane_of s m) \<and> ln_active (lane_of (pump n s) m) = ln_active (lane_of s m)
    \<and> cq_gatewayDraining (pump n s) = cq_gatewayDraining s"
proof -
  have "pump_loop n s = s" using assms by (subst pump_loop.simps) (simp add: can_start_def)
  then show ?thesis by (simp add: pump_def)
qed

lemma drain_empty:
  assumes "ln_queue (lane_of s n) = []"
  shows "ln_queue (lane_of (drainLane n s) m) = ln_queue (lane_of s m) \<and> ln_active (lane_of (drainLane n s) m) = ln_active (lane_of s m)
    \<and> cq_gatewayDraining (drainLane n s) = cq_gatewayDraining s"
proof -
  obtain st s1 where get: "getLaneState n s = (st, s1)" by fastforce
  show ?thesis using assms pump_empty [of "put_lane n (st\<lparr>ln_draining := True\<rparr>) s1" n m]
    by (simp add: drainLane_def get getLaneState_lane [OF get])
qed

lemma quiet_step:
  "lane_step s s' \<Longrightarrow> all_empty s \<Longrightarrow> cq_gatewayDraining s \<Longrightarrow> all_empty s' \<and> cq_gatewayDraining s'"
proof (induction rule: lane_step.induct)
  case (enqueue s lane e)
  then show ?case by (simp add: enqueueCommandInLane_def all_empty_def)
next
  case (set_max s lane k)
  obtain st s1 where get: "getLaneState (cleaned lane) s = (st, s1)" by fastforce
  show ?case
    using set_max drain_empty [of "put_lane (cleaned lane) (st\<lparr>ln_max := at_least_one k\<rparr>) s1" "cleaned lane"]
    by (simp add: setCommandLaneConcurrency_def get Let_def getLaneState_lane [OF get] all_empty_def)
next
  case (ended c s ok)
  let ?s = "s\<lparr>cq_inFlight := remove1 c (cq_inFlight s)\<rparr>"
  obtain current st where st: "completeTask (cl_task c) (cl_generation c) (lane_of s (cl_lane c)) = (current, st)" by fastforce
  then have "ln_queue st = [] \<and> ln_active st = []"
    using ended by (auto simp: completeTask_def all_empty_def split: if_splits)
  then show ?case using ended st pump_empty [of "put_lane (cl_lane c) st ?s" "cl_lane c"]
    by (simp add: task_ended_def Let_def all_empty_def)
next
  case (clear s lane)
  show ?case
  proof (cases "map_of (cq_lanes s) (cleaned lane)")
    case None
    then show ?thesis using clear by (simp add: clearCommandLane_def)
  next
    case (Some st)
    then have "lane_of s (cleaned lane) = st" by (simp add: lane_of_def)
    then show ?thesis using clear Some by (auto simp: clearCommandLane_def Let_def all_empty_def)
  qed
qed (simp_all add: markGatewayDraining_def all_empty_def)

text \<open>
  Once the gateway is draining and the wait for all tasks has found the queue empty, it stays empty:
  no enqueue, limit change, clear or late ending makes any lane hold or run a command again until the
  lanes are reset, so a drained wait is a lasting boundary.
\<close>

theorem queue_drained_is_final:
  assumes "queue_reachable s" and "cq_gatewayDraining s"
    and "waitForAllTasks_check deadline now s = Some True" and "lane_step\<^sup>*\<^sup>* s s'"
  shows "getTotalQueueSize s' = 0 \<and> waitForAllTasks_check deadline' now' s' = Some True"
proof -
  have inv: "queue_inv s" by (rule queue_reachable_inv [OF assms(1)])
  have "getTotalQueueSize s = 0" using assms(3) by (simp add: waitForAllTasks_check_def split: if_splits)
  then have start: "all_empty s" using total_zero [OF core_invD(1) [OF queue_invD(1) [OF inv]]] by (simp add: all_empty_def)
  from assms(4) inv start assms(2) have quiet: "queue_inv s' \<and> all_empty s' \<and> cq_gatewayDraining s'"
  proof (induction rule: rtranclp_induct)
    case (step y z)
    then show ?case using lane_step_inv quiet_step by blast
  qed simp
  have "distinct (map fst (cq_lanes s'))" using quiet queue_invD(1) core_invD(1) by blast
  from total_zero [OF this] quiet have "getTotalQueueSize s' = 0" by (simp add: all_empty_def)
  then show ?thesis by (simp add: waitForAllTasks_check_def)
qed

theorem queue_drained_is_final_witness:
  "getTotalQueueSize (enqueueCommand (5::nat) (markGatewayDraining initial_queue)) = 0"
proof -
  let ?s = "markGatewayDraining (initial_queue :: nat command_queue)"
  have "lane_step\<^sup>*\<^sup>* ?s (enqueueCommand 5 ?s)"
    unfolding enqueueCommand_def by (rule r_into_rtranclp) (rule lane_step.enqueue)
  moreover have "queue_reachable ?s"
    by (rule queue_reachable.step [OF queue_reachable.start queue_step.lane [OF lane_step.drain]])
  moreover have "waitForAllTasks_check 0 0 ?s = Some True" "cq_gatewayDraining ?s" by code_simp+
  ultimately show ?thesis using queue_drained_is_final by blast
qed

section \<open>The concurrency limit\<close>

text \<open>A lane is within its limit over a number of tasks if every task beyond them was started below the limit.\<close>

definition within_cap :: "nat \<Rightarrow> 'e lane \<Rightarrow> bool" where
  "within_cap k st \<longleftrightarrow> length (ln_active st) \<le> k \<or> below (length (ln_active st) - 1) (ln_max st)"

lemma within_cap_update [simp]:
  "within_cap k (st\<lparr>ln_draining := b\<rparr>) = within_cap k st" "within_cap k (st\<lparr>ln_queue := q\<rparr>) = within_cap k st"
  by (simp_all add: within_cap_def)

lemma within_cap_refl: "length (ln_active st) \<le> k \<Longrightarrow> within_cap k st"
  by (simp add: within_cap_def)

lemma pump_loop_within:
  "within_cap k (lane_of s n) \<Longrightarrow> within_cap k (lane_of (pump_loop n s) n) \<and> (\<forall>m. ln_max (lane_of (pump_loop n s) m) = ln_max (lane_of s m))
   \<and> (\<forall>m. m \<noteq> n \<longrightarrow> lane_of (pump_loop n s) m = lane_of s m)"
proof (induction n s rule: pump_loop.induct)
  case (1 n s)
  show ?case
  proof (cases "can_start (lane_of s n)")
    case True
    have "within_cap k (lane_of (start_next n s) n)"
      using True by (simp add: start_next_def Let_def within_cap_def can_start_def)
    moreover have "ln_max (lane_of (start_next n s) m) = ln_max (lane_of s m)" for m
      by (simp add: start_next_def Let_def)
    moreover have "pump_loop n s = pump_loop n (start_next n s)" using True by (subst pump_loop.simps) simp
    ultimately show ?thesis using "1.IH" [OF True] start_next_other by metis
  next
    case False
    then have "pump_loop n s = s" by (subst pump_loop.simps) simp
    then show ?thesis using "1.prems" by simp
  qed
qed

lemma pump_within: "within_cap k (lane_of s m) \<Longrightarrow> within_cap k (lane_of (pump n s) m)"
proof -
  assume k: "within_cap k (lane_of s m)"
  have lanes: "lane_of (pump n s) m = (if m = n then (lane_of (pump_loop n s) n)\<lparr>ln_draining := False\<rparr> else lane_of (pump_loop n s) m)"
    by (simp add: pump_def Let_def)
  show ?thesis
  proof (cases "m = n")
    case True
    then show ?thesis unfolding lanes using pump_loop_within [of k s n] k by simp
  next
    case False
    have "within_cap (length (ln_active (lane_of s n))) (lane_of s n)" by (simp add: within_cap_def)
    from pump_loop_within [OF this] False k show ?thesis by (simp add: lanes)
  qed
qed

lemma drain_within: "within_cap k (lane_of s m) \<Longrightarrow> within_cap k (lane_of (drainLane n s) m)"
proof -
  assume k: "within_cap k (lane_of s m)"
  obtain st s1 where get: "getLaneState n s = (st, s1)" by fastforce
  note s1 = getLaneState_lane [OF get]
  have "within_cap k (lane_of (put_lane n (st\<lparr>ln_draining := True\<rparr>) s1) m)"
    using k by (cases "m = n") (simp_all add: s1)
  then show ?thesis using k by (simp add: drainLane_def get s1 pump_within)
qed

lemma fold_drain_within: "within_cap k (lane_of s m) \<Longrightarrow> within_cap k (lane_of (fold drainLane ns s) m)"
  by (induction ns arbitrary: s) (simp_all add: drain_within)

text \<open>
  No step starts a task beyond the limit of its lane: after any step, a lane either runs no more tasks
  than before or the last of them was started while their number was below the lane's limit. A lane whose
  limit is one runs one command at a time.
\<close>

theorem queue_concurrency_bound:
  assumes "queue_step s s'"
  shows "length (ln_active (lane_of s' n)) \<le> length (ln_active (lane_of s n))
    \<or> below (length (ln_active (lane_of s' n)) - 1) (ln_max (lane_of s' n))"
proof -
  let ?k = "length (ln_active (lane_of s n))"
  have "within_cap ?k (lane_of s' n)"
    using assms
  proof cases
    case lane
    then show ?thesis
    proof cases
      case (enqueue lane e)
      obtain st s1 where get: "getLaneState (cleaned lane) s = (st, s1)" by fastforce
      show ?thesis unfolding enqueue enqueueCommandInLane_def
        by (auto simp: get Let_def getLaneState_lane [OF get] within_cap_refl intro!: drain_within)
    next
      case (set_max lane m)
      obtain st s1 where get: "getLaneState (cleaned lane) s = (st, s1)" by fastforce
      show ?thesis unfolding set_max setCommandLaneConcurrency_def
        by (auto simp: get Let_def getLaneState_lane [OF get] within_cap_refl intro!: drain_within)
    next
      case (ended c ok)
      obtain current st where st: "completeTask (cl_task c) (cl_generation c) (lane_of s (cl_lane c)) = (current, st)" by fastforce
      then have "length (ln_active st) \<le> length (ln_active (lane_of s (cl_lane c)))"
        by (auto simp: completeTask_def length_removeAll_less_eq split: if_splits)
      then show ?thesis unfolding ended task_ended_def
        by (auto simp: st Let_def within_cap_refl intro!: pump_within)
    next
      case (clear lane)
      then show ?thesis
        by (auto simp: clearCommandLane_def Let_def within_cap_def lane_of_def [of s] split: option.split)
    next
      case drain
      then show ?thesis by (simp add: markGatewayDraining_def within_cap_def)
    qed
  next
    case reset
    have "within_cap ?k (lane_of (reset_state s) n)"
      unfolding reset_state_def lane_of_reset by (simp add: within_cap_def new_lane_def reset_lane_def)
    then show ?thesis unfolding reset resetAllLanes_def Let_def reset_state_def [symmetric] by (rule fold_drain_within)
  qed
  then show ?thesis by (simp add: within_cap_def)
qed

theorem queue_concurrency_bound_witness:
  "length (ln_active (lane_of (enqueueCommand 3 sample_trace) ''main'')) \<le> 1
    \<or> below (length (ln_active (lane_of (enqueueCommand 3 sample_trace) ''main'')) - 1) (Fin 1)"
proof -
  have "queue_step sample_trace (enqueueCommand 3 sample_trace)"
    unfolding enqueueCommand_def by (rule queue_step.lane [OF lane_step.enqueue])
  moreover have "length (ln_active (lane_of sample_trace ''main'')) = 1"
    "ln_max (lane_of (enqueueCommand 3 sample_trace) ''main'') = Fin 1"
    by code_simp+
  ultimately show ?thesis using queue_concurrency_bound [of sample_trace "enqueueCommand 3 sample_trace" "''main''"] by simp
qed

end
