(* ===== verification/SessionKey.thy ===== *)
theory SessionKey
  imports Prelude
begin

text \<open>
  Session keys and the ids they are made of: \<open>src/routing/session-key.ts\<close>,
  \<open>src/routing/account-id.ts\<close>, \<open>src/sessions/session-key-utils.ts\<close>,
  \<open>src/channels/chat-type.ts\<close> and \<open>src/infra/prototype-keys.ts\<close>.

  An argument \<open>string | undefined | null\<close> is a \<open>string option\<close>. A union of string literals that
  the code only compares (\<open>dmScope\<close>) is a datatype; a chat type stays a string, because the router
  passes kinds it does not know through. The regular expressions are read as predicates:
  \<open>isValidId\<close> is \<open>VALID_ID_RE\<close>, \<open>collapse_invalid\<close> replaces the runs of \<open>INVALID_CHARS_RE\<close>.
  \<open>Object.entries(identityLinks)\<close> is the list of its entries; \<open>None\<close> there is a value that is not
  an array.
\<close>

section \<open>Splitting at colons\<close>

definition colon :: char where
  "colon = CHR '':''"

definition dash :: char where
  "dash = CHR ''-''"

text \<open>\<open>s.split(":")\<close> and \<open>parts.join(":")\<close>.\<close>

fun split_colon :: "string \<Rightarrow> string list" where
  "split_colon [] = [[]]"
| "split_colon (c # cs) =
     (if c = colon then [] # split_colon cs
      else (case split_colon cs of [] \<Rightarrow> [[c]] | p # ps \<Rightarrow> (c # p) # ps))"

fun join_colon :: "string list \<Rightarrow> string" where
  "join_colon [] = []"
| "join_colon [p] = p"
| "join_colon (p # q # ps) = p @ colon # join_colon (q # ps)"

text \<open>\<open>s.split(":").filter(Boolean)\<close>\<close>

definition colon_parts :: "string \<Rightarrow> string list" where
  "colon_parts s = filter (\<lambda>p. p \<noteq> []) (split_colon s)"

text \<open>\<open>s.lastIndexOf(p)\<close>, with \<open>None\<close> for -1.\<close>

fun last_index_of :: "string \<Rightarrow> string \<Rightarrow> nat option" where
  "last_index_of p [] = (if p = [] then Some 0 else None)"
| "last_index_of p (c # cs) =
     (case last_index_of p cs of
        Some i \<Rightarrow> Some (Suc i)
      | None \<Rightarrow> if js_starts_with (c # cs) p then Some 0 else None)"

text \<open>\<open>s.split(p).length - 1\<close> for a non-empty \<open>p\<close>: the occurrences found from the left.\<close>

fun occurrences :: "string \<Rightarrow> nat \<Rightarrow> string \<Rightarrow> nat" where
  "occurrences p skip [] = 0"
| "occurrences p (Suc k) (c # cs) = occurrences p k cs"
| "occurrences p 0 (c # cs) =
     (if js_starts_with (c # cs) p then Suc (occurrences p (length p - 1) cs)
      else occurrences p 0 cs)"

section \<open>Ids\<close>

definition DEFAULT_AGENT_ID :: string where "DEFAULT_AGENT_ID = ''main''"
definition DEFAULT_MAIN_KEY :: string where "DEFAULT_MAIN_KEY = ''main''"
definition DEFAULT_ACCOUNT_ID :: string where "DEFAULT_ACCOUNT_ID = ''default''"

definition is_alnum_lower :: "char \<Rightarrow> bool" where
  "is_alnum_lower c = (let n = of_char c :: nat in (97 \<le> n \<and> n \<le> 122) \<or> (48 \<le> n \<and> n \<le> 57))"

definition is_id_char :: "char \<Rightarrow> bool" where
  "is_id_char c = (is_alnum_lower c \<or> c = CHR ''_'' \<or> c = dash)"

text \<open>\<open>VALID_ID_RE = /^[a-z0-9][a-z0-9_-]{0,63}$/i\<close>\<close>

definition isValidId :: "string \<Rightarrow> bool" where
  "isValidId s =
     (case s of [] \<Rightarrow> False
      | c # cs \<Rightarrow> is_alnum_lower (js_lower_char c) \<and> length cs \<le> 63
          \<and> list_all (\<lambda>d. is_id_char (js_lower_char d)) cs)"

text \<open>\<open>s.replace(/[^a-z0-9_-]+/g, "-")\<close>: the flag tells that the run of invalid characters has begun.\<close>

fun collapse_invalid :: "bool \<Rightarrow> string \<Rightarrow> string" where
  "collapse_invalid in_run [] = []"
| "collapse_invalid in_run (c # cs) =
     (if is_id_char c then c # collapse_invalid False cs
      else if in_run then collapse_invalid True cs
      else dash # collapse_invalid True cs)"

definition strip_leading_dashes :: "string \<Rightarrow> string" where
  "strip_leading_dashes s = dropWhile (\<lambda>c. c = dash) s"

definition strip_trailing_dashes :: "string \<Rightarrow> string" where
  "strip_trailing_dashes s = rev (dropWhile (\<lambda>c. c = dash) (rev s))"

definition id_slug :: "string \<Rightarrow> string" where
  "id_slug s =
     take 64 (strip_trailing_dashes (strip_leading_dashes (collapse_invalid False (js_lower s))))"

definition normalizeToken :: "string option \<Rightarrow> string" where
  "normalizeToken v = js_lower (js_trim (opt_str v))"

definition normalizeMainKey :: "string option \<Rightarrow> string" where
  "normalizeMainKey v =
     (let trimmed = js_trim (opt_str v) in if trimmed \<noteq> [] then js_lower trimmed else DEFAULT_MAIN_KEY)"

definition normalizeAgentId :: "string option \<Rightarrow> string" where
  "normalizeAgentId v =
     (let trimmed = js_trim (opt_str v)
      in if trimmed = [] then DEFAULT_AGENT_ID
         else if isValidId trimmed then js_lower trimmed
         else str_or (id_slug trimmed) DEFAULT_AGENT_ID)"

definition sanitizeAgentId :: "string option \<Rightarrow> string" where
  "sanitizeAgentId v = normalizeAgentId v"

definition isBlockedObjectKey :: "string \<Rightarrow> bool" where
  "isBlockedObjectKey k = (k \<in> set [''__proto__'', ''prototype'', ''constructor''])"

definition canonicalizeAccountId :: "string \<Rightarrow> string" where
  "canonicalizeAccountId v = (if isValidId v then js_lower v else id_slug v)"

definition normalizeCanonicalAccountId :: "string \<Rightarrow> string option" where
  "normalizeCanonicalAccountId v =
     (let canonical = canonicalizeAccountId v
      in if canonical = [] \<or> isBlockedObjectKey canonical then None else Some canonical)"

definition normalizeAccountId :: "string option \<Rightarrow> string" where
  "normalizeAccountId v =
     (let trimmed = js_trim (opt_str v)
      in if trimmed = [] then DEFAULT_ACCOUNT_ID
         else (case normalizeCanonicalAccountId trimmed of None \<Rightarrow> DEFAULT_ACCOUNT_ID | Some a \<Rightarrow> a))"

definition normalizeOptionalAccountId :: "string option \<Rightarrow> string option" where
  "normalizeOptionalAccountId v =
     (let trimmed = js_trim (opt_str v)
      in if trimmed = [] then None else normalizeCanonicalAccountId trimmed)"

definition normalizeChatType :: "string option \<Rightarrow> string option" where
  "normalizeChatType raw =
     (let v = js_lower (js_trim (opt_str raw))
      in if v = [] then None
         else if v = ''direct'' \<or> v = ''dm'' then Some ''direct''
         else if v = ''group'' then Some ''group''
         else if v = ''channel'' then Some ''channel''
         else None)"

section \<open>Parsing\<close>

record parsed_key =
  agentId :: string
  rest :: string

definition parseAgentSessionKey :: "string option \<Rightarrow> parsed_key option" where
  "parseAgentSessionKey sessionKey =
     (let raw = js_lower (js_trim (opt_str sessionKey));
          parts = colon_parts raw
      in if raw = [] then None
         else if length parts < 3 then None
         else if parts ! 0 \<noteq> ''agent'' then None
         else let aid = js_trim (parts ! 1); rst = join_colon (drop 2 parts)
              in if aid = [] \<or> rst = [] then None
                 else Some \<lparr>agentId = aid, rest = rst\<rparr>)"

definition toAgentRequestSessionKey :: "string option \<Rightarrow> string option" where
  "toAgentRequestSessionKey storeKey =
     (let raw = js_trim (opt_str storeKey)
      in if raw = [] then None
         else (case parseAgentSessionKey (Some raw) of Some p \<Rightarrow> Some (rest p) | None \<Rightarrow> Some raw))"

definition resolveAgentIdFromSessionKey :: "string option \<Rightarrow> string" where
  "resolveAgentIdFromSessionKey sessionKey =
     normalizeAgentId (Some (case parseAgentSessionKey sessionKey of
        Some p \<Rightarrow> agentId p | None \<Rightarrow> DEFAULT_AGENT_ID))"

datatype session_key_shape = ShapeMissing | ShapeAgent | ShapeLegacyOrAlias | ShapeMalformedAgent

definition classifySessionKeyShape :: "string option \<Rightarrow> session_key_shape" where
  "classifySessionKeyShape sessionKey =
     (let raw = js_trim (opt_str sessionKey)
      in if raw = [] then ShapeMissing
         else if parseAgentSessionKey (Some raw) \<noteq> None then ShapeAgent
         else if js_starts_with (js_lower raw) ''agent:'' then ShapeMalformedAgent
         else ShapeLegacyOrAlias)"

datatype session_chat_type = ChatDirect | ChatGroup | ChatChannel | ChatUnknown

text \<open>\<open>/^discord:(?:[^:]+:)?guild-[^:]+:channel-[^:]+$/\<close>, read on the parts between the colons.\<close>

definition is_guild_part :: "string \<Rightarrow> bool" where
  "is_guild_part p = (js_starts_with p ''guild-'' \<and> length p > 6)"

definition is_channel_part :: "string \<Rightarrow> bool" where
  "is_channel_part p = (js_starts_with p ''channel-'' \<and> length p > 8)"

definition is_legacy_discord_key :: "string \<Rightarrow> bool" where
  "is_legacy_discord_key s =
     (case split_colon s of
        [d, g, ch] \<Rightarrow> d = ''discord'' \<and> is_guild_part g \<and> is_channel_part ch
      | [d, acct, g, ch] \<Rightarrow> d = ''discord'' \<and> acct \<noteq> [] \<and> is_guild_part g \<and> is_channel_part ch
      | _ \<Rightarrow> False)"

definition deriveSessionChatType :: "string option \<Rightarrow> session_chat_type" where
  "deriveSessionChatType sessionKey =
     (let raw = js_lower (js_trim (opt_str sessionKey))
      in if raw = [] then ChatUnknown
         else let scoped = (case parseAgentSessionKey (Some raw) of Some p \<Rightarrow> rest p | None \<Rightarrow> raw);
                  tokens = colon_parts scoped
              in if ''group'' \<in> set tokens then ChatGroup
                 else if ''channel'' \<in> set tokens then ChatChannel
                 else if ''direct'' \<in> set tokens \<or> ''dm'' \<in> set tokens then ChatDirect
                 else if is_legacy_discord_key scoped then ChatChannel
                 else ChatUnknown)"

text \<open>\<open>/^cron:[^:]+:run:[^:]+$/\<close>\<close>

definition isCronRunSessionKey :: "string option \<Rightarrow> bool" where
  "isCronRunSessionKey sessionKey =
     (case parseAgentSessionKey sessionKey of None \<Rightarrow> False
      | Some p \<Rightarrow> (case split_colon (rest p) of
            [a, j, r, x] \<Rightarrow> a = ''cron'' \<and> j \<noteq> [] \<and> r = ''run'' \<and> x \<noteq> []
          | _ \<Rightarrow> False))"

definition isCronSessionKey :: "string option \<Rightarrow> bool" where
  "isCronSessionKey sessionKey =
     (case parseAgentSessionKey sessionKey of None \<Rightarrow> False
      | Some p \<Rightarrow> js_starts_with (js_lower (rest p)) ''cron:'')"

definition rest_starts_with :: "string option \<Rightarrow> string \<Rightarrow> bool" where
  "rest_starts_with raw pre =
     (case parseAgentSessionKey raw of None \<Rightarrow> False
      | Some p \<Rightarrow> js_starts_with (js_lower (rest p)) pre)"

definition isSubagentSessionKey :: "string option \<Rightarrow> bool" where
  "isSubagentSessionKey sessionKey =
     (let raw = js_trim (opt_str sessionKey)
      in if raw = [] then False
         else if js_starts_with (js_lower raw) ''subagent:'' then True
         else rest_starts_with (Some raw) ''subagent:'')"

definition getSubagentDepth :: "string option \<Rightarrow> nat" where
  "getSubagentDepth sessionKey =
     (let raw = js_lower (js_trim (opt_str sessionKey))
      in if raw = [] then 0 else occurrences '':subagent:'' 0 raw)"

definition isAcpSessionKey :: "string option \<Rightarrow> bool" where
  "isAcpSessionKey sessionKey =
     (let raw = js_trim (opt_str sessionKey)
      in if raw = [] then False
         else if js_starts_with (js_lower raw) ''acp:'' then True
         else rest_starts_with (Some raw) ''acp:'')"

definition THREAD_SESSION_MARKERS :: "string list" where
  "THREAD_SESSION_MARKERS = ['':thread:'', '':topic:'']"

text \<open>The loop over the markers: the largest last index, \<open>None\<close> for -1.\<close>

fun last_marker :: "string list \<Rightarrow> string \<Rightarrow> nat option \<Rightarrow> nat option" where
  "last_marker [] s idx = idx"
| "last_marker (m # ms) s idx =
     last_marker ms s
       (case (last_index_of m s, idx) of
          (None, _) \<Rightarrow> idx
        | (Some c, None) \<Rightarrow> Some c
        | (Some c, Some i) \<Rightarrow> if c > i then Some c else Some i)"

definition resolveThreadParentSessionKey :: "string option \<Rightarrow> string option" where
  "resolveThreadParentSessionKey sessionKey =
     (let raw = js_trim (opt_str sessionKey)
      in if raw = [] then None
         else (case last_marker THREAD_SESSION_MARKERS (js_lower raw) None of
            None \<Rightarrow> None
          | Some idx \<Rightarrow>
              if idx = 0 then None
              else let parent = js_trim (take idx raw) in if parent = [] then None else Some parent))"

section \<open>Building\<close>

definition buildAgentMainSessionKey :: "string \<Rightarrow> string option \<Rightarrow> string" where
  "buildAgentMainSessionKey agent mainKey =
     ''agent:'' @ normalizeAgentId (Some agent) @ '':'' @ normalizeMainKey mainKey"

definition toAgentStoreSessionKey :: "string \<Rightarrow> string option \<Rightarrow> string option \<Rightarrow> string" where
  "toAgentStoreSessionKey agent requestKey mainKey =
     (let raw = js_trim (opt_str requestKey)
      in if raw = [] \<or> js_lower raw = DEFAULT_MAIN_KEY then buildAgentMainSessionKey agent mainKey
         else (case parseAgentSessionKey (Some raw) of
            Some p \<Rightarrow> ''agent:'' @ agentId p @ '':'' @ rest p
          | None \<Rightarrow>
              let lowered = js_lower raw
              in if js_starts_with lowered ''agent:'' then lowered
                 else ''agent:'' @ normalizeAgentId (Some agent) @ '':'' @ lowered))"

datatype dm_scope = MainScope | PerPeer | PerChannelPeer | PerAccountChannelPeer

type_synonym identity_links = "(string \<times> string list option) list"

definition link_matches :: "string list \<Rightarrow> string \<times> string list option \<Rightarrow> bool" where
  "link_matches candidates link =
     (case link of (canonical, ids) \<Rightarrow>
        js_trim canonical \<noteq> [] \<and>
        (case ids of None \<Rightarrow> False
         | Some xs \<Rightarrow> list_ex (\<lambda>i. let n = normalizeToken (Some i) in n \<noteq> [] \<and> n \<in> set candidates) xs))"

definition link_candidates :: "string \<Rightarrow> string \<Rightarrow> string list" where
  "link_candidates ch peerId =
     (let rawCandidate = normalizeToken (Some peerId);
          channel = normalizeToken (Some ch);
          scoped = normalizeToken (Some (channel @ '':'' @ peerId))
      in (if rawCandidate \<noteq> [] then [rawCandidate] else [])
         @ (if channel \<noteq> [] \<and> scoped \<noteq> [] then [scoped] else []))"

definition resolveLinkedPeerId :: "identity_links option \<Rightarrow> string \<Rightarrow> string \<Rightarrow> string option" where
  "resolveLinkedPeerId identityLinks ch peer =
     (case identityLinks of None \<Rightarrow> None
      | Some links \<Rightarrow>
          let peerId = js_trim peer
          in if peerId = [] then None
             else let candidates = link_candidates ch peerId
                  in if candidates = [] then None
                     else map_option (\<lambda>(canonical, _). js_trim canonical)
                            (find (link_matches candidates) links))"

record peer_key_params =
  pk_agentId :: string
  pk_mainKey :: "string option"
  pk_channel :: string
  pk_accountId :: "string option"
  pk_peerKind :: "string option"
  pk_peerId :: "string option"
  pk_identityLinks :: "identity_links option"
  pk_dmScope :: "dm_scope option"

definition dm_peer_id :: "peer_key_params \<Rightarrow> string" where
  "dm_peer_id P =
     (let dmScope = (case pk_dmScope P of None \<Rightarrow> MainScope | Some d \<Rightarrow> d);
          peerId = js_trim (opt_str (pk_peerId P));
          linked = (if dmScope = MainScope then None
                    else resolveLinkedPeerId (pk_identityLinks P) (pk_channel P) peerId)
      in js_lower (case linked of
            Some l \<Rightarrow> if l \<noteq> [] then l else peerId
          | None \<Rightarrow> peerId))"

definition key_channel :: "peer_key_params \<Rightarrow> string" where
  "key_channel P = str_or (js_lower (js_trim (pk_channel P))) ''unknown''"

definition build_dm_session_key :: "peer_key_params \<Rightarrow> string" where
  "build_dm_session_key P =
     (let dmScope = (case pk_dmScope P of None \<Rightarrow> MainScope | Some d \<Rightarrow> d);
          peerId = dm_peer_id P;
          agent = normalizeAgentId (Some (pk_agentId P))
      in if dmScope = PerAccountChannelPeer \<and> peerId \<noteq> [] then
           ''agent:'' @ agent @ '':'' @ key_channel P @ '':'' @ normalizeAccountId (pk_accountId P)
             @ '':direct:'' @ peerId
         else if dmScope = PerChannelPeer \<and> peerId \<noteq> [] then
           ''agent:'' @ agent @ '':'' @ key_channel P @ '':direct:'' @ peerId
         else if dmScope = PerPeer \<and> peerId \<noteq> [] then
           ''agent:'' @ agent @ '':direct:'' @ peerId
         else buildAgentMainSessionKey (pk_agentId P) (pk_mainKey P))"

definition buildAgentPeerSessionKey :: "peer_key_params \<Rightarrow> string" where
  "buildAgentPeerSessionKey P =
     (let peerKind = (case pk_peerKind P of None \<Rightarrow> ''direct'' | Some k \<Rightarrow> k)
      in if peerKind = ''direct'' then build_dm_session_key P
         else ''agent:'' @ normalizeAgentId (Some (pk_agentId P)) @ '':'' @ key_channel P
                @ '':'' @ peerKind @ '':''
                @ js_lower (str_or (js_trim (opt_str (pk_peerId P))) ''unknown''))"

definition buildGroupHistoryKey :: "string \<Rightarrow> string option \<Rightarrow> string \<Rightarrow> string \<Rightarrow> string" where
  "buildGroupHistoryKey ch account peerKind peer =
     str_or (normalizeToken (Some ch)) ''unknown'' @ '':'' @ normalizeAccountId account
       @ '':'' @ peerKind @ '':'' @ str_or (js_lower (js_trim peer)) ''unknown''"

record thread_keys =
  tk_sessionKey :: string
  tk_parentSessionKey :: "string option"

definition resolveThreadSessionKeys ::
  "string \<Rightarrow> string option \<Rightarrow> string option \<Rightarrow> bool option \<Rightarrow> (string \<Rightarrow> string) option \<Rightarrow> thread_keys" where
  "resolveThreadSessionKeys baseSessionKey thread parent useSuffix normalizeThreadId =
     (let threadId = js_trim (opt_str thread)
      in if threadId = [] then \<lparr>tk_sessionKey = baseSessionKey, tk_parentSessionKey = None\<rparr>
         else let normalized = (case normalizeThreadId of None \<Rightarrow> js_lower threadId | Some f \<Rightarrow> f threadId);
                  suffix = (case useSuffix of None \<Rightarrow> True | Some b \<Rightarrow> b)
              in \<lparr>tk_sessionKey =
                     (if suffix then baseSessionKey @ '':thread:'' @ normalized else baseSessionKey),
                   tk_parentSessionKey = parent\<rparr>)"


section \<open>Splitting and joining\<close>

lemma split_colon_ne [simp]: "split_colon s \<noteq> []"
  by (induction s) (auto split: list.splits)

lemma join_split_colon: "join_colon (split_colon s) = s"
proof (induction s)
  case (Cons c cs)
  then show ?case by (cases "split_colon cs"; cases "tl (split_colon cs)") auto
qed simp

lemma split_colon_append: "split_colon (a @ colon # b) = split_colon a @ split_colon b"
  by (induction a) (auto split: list.splits)

lemma split_colon_none: "colon \<notin> set a \<Longrightarrow> split_colon a = [a]"
  by (induction a) auto

lemma colon_parts_append: "colon_parts (a @ colon # b) = colon_parts a @ colon_parts b"
  by (simp add: colon_parts_def split_colon_append)

lemma colon_parts_one: "colon \<notin> set a \<Longrightarrow> a \<noteq> [] \<Longrightarrow> colon_parts a = [a]"
  by (simp add: colon_parts_def split_colon_none)

lemma join_colon_ne: "ps \<noteq> [] \<Longrightarrow> hd ps \<noteq> [] \<Longrightarrow> join_colon ps \<noteq> []"
  by (cases ps rule: join_colon.cases) auto

lemma colon_parts_nonempty: "p \<in> set (colon_parts s) \<Longrightarrow> p \<noteq> []"
  by (simp add: colon_parts_def)

lemma colon_cancel:
  assumes "colon \<notin> set a" and "colon \<notin> set b"
  shows "a @ colon # x = b @ colon # y \<longleftrightarrow> a = b \<and> x = y"
proof
  assume eq: "a @ colon # x = b @ colon # y"
  have "takeWhile (\<lambda>c. c \<noteq> colon) (a @ colon # x) = a"
    using assms(1) by (subst takeWhile_append2) auto
  moreover have "takeWhile (\<lambda>c. c \<noteq> colon) (b @ colon # y) = b"
    using assms(2) by (subst takeWhile_append2) auto
  ultimately show "a = b \<and> x = y" using eq by auto
qed simp

section \<open>Lower case and white space\<close>

lemma js_lower_char_idem [simp]: "js_lower_char (js_lower_char c) = js_lower_char c"
proof -
  have "of_char c < (256 :: nat)" by (rule nat_of_char_less_256)
  then show ?thesis by (auto simp: js_lower_char_def Let_def)
qed

lemma js_lower_idem [simp]: "js_lower (js_lower s) = js_lower s"
  by (simp add: js_lower_def)

lemma js_lower_Nil_iff [simp]: "js_lower s = [] \<longleftrightarrow> s = []"
  by (simp add: js_lower_def)

lemma js_lower_append [simp]: "js_lower (a @ b) = js_lower a @ js_lower b"
  by (simp add: js_lower_def)

lemma js_lower_space [simp]: "js_space (js_lower_char c) = js_space c"
proof -
  have "of_char c < (256 :: nat)" by (rule nat_of_char_less_256)
  then show ?thesis by (auto simp: js_lower_char_def js_space_def Let_def)
qed

lemma js_trim_lower: "js_trim (js_lower s) = js_lower (js_trim s)"
  by (simp add: js_trim_def js_lower_def dropWhile_map rev_map comp_def)

lemma trimmed_lower [simp]: "js_trim s = s \<Longrightarrow> js_trim (js_lower s) = js_lower s"
  by (simp add: js_trim_lower)

lemma js_trim_fixed: "s \<noteq> [] \<Longrightarrow> \<not> js_space (hd s) \<Longrightarrow> \<not> js_space (last s) \<Longrightarrow> js_trim s = s"
  by (simp add: js_trim_def dropWhile_hd hd_rev)

lemma js_trim_ends:
  assumes "js_trim s = s" and "s \<noteq> []"
  shows "\<not> js_space (hd s)" and "\<not> js_space (last s)"
proof -
  have "hd (rev (js_trim s)) = hd (dropWhile js_space (rev (dropWhile js_space s)))"
    by (simp add: js_trim_def)
  then show "\<not> js_space (last s)" using assms hd_dropWhile
    by (metis hd_rev js_trim_def rev_is_Nil_conv)
  show "\<not> js_space (hd s)"
  proof
    assume "js_space (hd s)"
    with assms(2) have "length (dropWhile js_space s) < length s"
      by (cases s) (auto simp: less_Suc_eq_le length_dropWhile_le)
    moreover have "length (js_trim s) \<le> length (dropWhile js_space s)"
      by (simp add: js_trim_def) (metis length_dropWhile_le length_rev)
    ultimately show False using assms(1) by simp
  qed
qed

lemma js_trim_prefixed:
  assumes "js_trim s = s" and "s \<noteq> []" and "a \<noteq> []" and "\<not> js_space (hd a)"
  shows "js_trim (a @ s) = a @ s"
  using assms js_trim_ends by (intro js_trim_fixed) auto

section \<open>The form of an id\<close>

definition is_id_text :: "string \<Rightarrow> bool" where
  "is_id_text s = (s \<noteq> [] \<and> list_all is_id_char s)"

lemma is_id_char_facts:
  assumes "is_id_char c"
  shows "c \<noteq> colon" "\<not> js_space c" "js_lower_char c = c"
  using assms by (auto simp: is_id_char_def is_alnum_lower_def colon_def dash_def js_space_def
      js_lower_char_def Let_def)

lemma id_text_facts:
  assumes "is_id_text s"
  shows "colon \<notin> set s" "js_trim s = s" "js_lower s = s" "s \<noteq> []"
proof -
  have all: "\<forall>c \<in> set s. is_id_char c" and ne: "s \<noteq> []"
    using assms by (auto simp: is_id_text_def list_all_iff)
  show "colon \<notin> set s" using all is_id_char_facts(1) by blast
  show "js_lower s = s" using all by (simp add: js_lower_def is_id_char_facts(3) map_idI)
  show "js_trim s = s" using ne all is_id_char_facts(2) by (intro js_trim_fixed) auto
  show "s \<noteq> []" by (rule ne)
qed

lemma collapse_id_chars: "list_all is_id_char (collapse_invalid f s)"
  by (induction f s rule: collapse_invalid.induct) (auto simp: is_id_char_def)

lemma collapse_id_text: "list_all is_id_char s \<Longrightarrow> collapse_invalid f s = s"
  by (induction f s rule: collapse_invalid.induct) auto

lemma strip_trailing_prefix: "\<exists>n. strip_trailing_dashes s = take n s"
proof -
  have "s = rev (dropWhile (\<lambda>c. c = dash) (rev s)) @ rev (takeWhile (\<lambda>c. c = dash) (rev s))"
    by (metis rev_append rev_rev_ident takeWhile_dropWhile_id)
  then have "take (length (strip_trailing_dashes s)) s = strip_trailing_dashes s"
    unfolding strip_trailing_dashes_def by (metis append_eq_conv_conj)
  then show ?thesis by metis
qed

lemma strip_trailing_same: "s \<noteq> [] \<Longrightarrow> last s \<noteq> dash \<Longrightarrow> strip_trailing_dashes s = s"
  by (simp add: strip_trailing_dashes_def dropWhile_hd hd_rev)

lemma strip_trailing_less:
  "s \<noteq> [] \<Longrightarrow> last s = dash \<Longrightarrow> length (strip_trailing_dashes s) < length s"
  by (cases s rule: rev_cases)
    (auto simp: strip_trailing_dashes_def less_Suc_eq_le intro: order_trans [OF length_dropWhile_le])

lemma strip_trailing_last:
  "strip_trailing_dashes s \<noteq> [] \<Longrightarrow> last (strip_trailing_dashes s) \<noteq> dash"
  unfolding strip_trailing_dashes_def using hd_dropWhile [of "\<lambda>c. c = dash" "rev s"]
  by (simp only: last_rev rev_is_Nil_conv) blast

lemma id_slug_prefix:
  "\<exists>n. id_slug s = take n (strip_leading_dashes (collapse_invalid False (js_lower s)))"
  unfolding id_slug_def using strip_trailing_prefix by (metis take_take)

lemma hd_take_ne: "take n xs \<noteq> [] \<Longrightarrow> hd (take n xs) = hd xs"
  by (cases n; cases xs) auto

lemma id_slug_form:
  assumes "id_slug s \<noteq> []"
  shows "is_id_text (id_slug s)" "hd (id_slug s) \<noteq> dash" "length (id_slug s) \<le> 64"
proof -
  let ?d = "strip_leading_dashes (collapse_invalid False (js_lower s))"
  obtain n where n: "id_slug s = take n ?d" using id_slug_prefix by blast
  have "set ?d \<subseteq> set (collapse_invalid False (js_lower s))"
    by (auto simp: strip_leading_dashes_def dest: set_dropWhileD)
  then have "list_all is_id_char ?d" using collapse_id_chars by (auto simp: list_all_iff)
  then have "list_all is_id_char (id_slug s)" by (auto simp: n list_all_iff dest: in_set_takeD)
  then show "is_id_text (id_slug s)" using assms by (simp add: is_id_text_def)
  have "?d \<noteq> []" using assms n by auto
  then have "hd ?d \<noteq> dash"
    unfolding strip_leading_dashes_def by (metis (mono_tags) hd_dropWhile)
  then show "hd (id_slug s) \<noteq> dash" using assms n by (simp add: hd_take_ne)
  show "length (id_slug s) \<le> 64" by (simp add: id_slug_def)
qed

lemma valid_id_form:
  assumes "isValidId s"
  shows "is_id_text (js_lower s)" "hd (js_lower s) \<noteq> dash" "length (js_lower s) \<le> 64"
    "is_alnum_lower (hd (js_lower s))"
  using assms
  by (auto simp: isValidId_def is_id_text_def js_lower_def is_id_char_def list_all_iff dash_def
      is_alnum_lower_def split: list.splits)

lemma id_slug_fixed:
  assumes "is_id_text s" and "hd s \<noteq> dash" and "length s \<le> 64"
  shows "id_slug s = strip_trailing_dashes s"
proof -
  have "collapse_invalid False (js_lower s) = s"
    using assms(1) by (simp add: id_text_facts(3)) (simp add: is_id_text_def collapse_id_text)
  moreover have "strip_leading_dashes s = s"
    using assms by (simp add: strip_leading_dashes_def dropWhile_hd)
  moreover have "length (strip_trailing_dashes s) \<le> 64"
    using assms(3) strip_trailing_prefix [of s] by auto
  ultimately show ?thesis by (simp add: id_slug_def)
qed

lemma isValidId_alnum:
  assumes "is_id_text s" and "length s \<le> 64" and "is_alnum_lower (hd s)"
  shows "isValidId s"
  using assms
  by (cases s) (auto simp: isValidId_def is_id_text_def list_all_iff is_id_char_facts(3))

lemma underscore_facts [simp]:
  "\<not> is_alnum_lower (CHR ''_'')" "js_lower_char (CHR ''_'') = CHR ''_''" "CHR ''_'' \<noteq> dash"
  "is_id_char (CHR ''_'')"
  by (auto simp: is_alnum_lower_def js_lower_char_def dash_def is_id_char_def)

lemma isValidId_underscore: "s \<noteq> [] \<Longrightarrow> hd s = CHR ''_'' \<Longrightarrow> \<not> isValidId s"
  by (cases s) (auto simp: isValidId_def)

lemma main_id [simp]: "is_id_text DEFAULT_AGENT_ID" "hd DEFAULT_AGENT_ID \<noteq> dash"
  "length DEFAULT_AGENT_ID \<le> 64"
  by (simp_all add: DEFAULT_AGENT_ID_def is_id_text_def is_id_char_def is_alnum_lower_def dash_def)

lemma default_account_id [simp]: "is_id_text DEFAULT_ACCOUNT_ID"
  by (simp add: DEFAULT_ACCOUNT_ID_def is_id_text_def is_id_char_def is_alnum_lower_def)

lemma normalizeAgentId_form:
  shows "is_id_text (normalizeAgentId v)" "hd (normalizeAgentId v) \<noteq> dash"
    "length (normalizeAgentId v) \<le> 64"
  using valid_id_form id_slug_form
  by (auto simp: normalizeAgentId_def Let_def str_or_def)

lemmas agent_id_facts [simp] = id_text_facts [OF normalizeAgentId_form(1)]

lemma normalizeAccountId_form: "is_id_text (normalizeAccountId v)"
  using valid_id_form(1) id_slug_form(1)
  by (auto simp: normalizeAccountId_def normalizeCanonicalAccountId_def canonicalizeAccountId_def
      Let_def split: option.splits if_splits)

lemmas account_id_facts [simp] = id_text_facts [OF normalizeAccountId_form]

lemma normalizeAgentId_long:
  assumes "is_id_text s" and "hd s \<noteq> dash" and "last s \<noteq> dash" and "\<not> isValidId s"
  shows "normalizeAgentId (Some s) = take 64 s"
proof -
  have "strip_leading_dashes s = s" using assms by (simp add: strip_leading_dashes_def dropWhile_hd)
  moreover have "collapse_invalid False s = s"
    using assms(1) by (simp add: is_id_text_def collapse_id_text)
  ultimately have "id_slug s = take 64 s"
    using assms by (simp add: id_slug_def id_text_facts strip_trailing_same)
  then show ?thesis using assms(1,4)
    by (simp add: normalizeAgentId_def opt_str_def id_text_facts str_or_def)
qed

text \<open>The second normalisation of an id.\<close>

lemma normalizeAgentId_again:
  assumes "is_id_text r" and "hd r \<noteq> dash" and "length r \<le> 64"
  shows "normalizeAgentId (Some r) =
    (if hd r = CHR ''_'' \<and> last r = dash then strip_trailing_dashes r else r)"
proof (cases "hd r = CHR ''_''")
  case True
  have ne: "r \<noteq> []" using assms(1) by (simp add: is_id_text_def)
  have "strip_trailing_dashes r \<noteq> []"
    using True ne by (cases r) (auto simp: strip_trailing_dashes_def dropWhile_eq_Nil_conv)
  then have "normalizeAgentId (Some r) = strip_trailing_dashes r"
    using True ne assms isValidId_underscore
    by (simp add: normalizeAgentId_def opt_str_def id_text_facts id_slug_fixed str_or_def)
  then show ?thesis using True strip_trailing_same [OF ne] by auto
next
  case False
  have ne: "r \<noteq> []" using assms(1) by (simp add: is_id_text_def)
  have "is_id_char (hd r)" using assms(1) ne by (auto simp: is_id_text_def list_all_iff)
  with False assms(2) have "is_alnum_lower (hd r)" by (simp add: is_id_char_def)
  then have "isValidId r" using assms isValidId_alnum by blast
  then show ?thesis using False ne assms
    by (simp add: normalizeAgentId_def opt_str_def id_text_facts)
qed

lemma normalizeAgentId_twice [simp]:
  "normalizeAgentId (Some (normalizeAgentId (Some (normalizeAgentId v)))) =
   normalizeAgentId (Some (normalizeAgentId v))"
proof -
  let ?r = "normalizeAgentId v" and ?s = "normalizeAgentId (Some (normalizeAgentId v))"
  have s: "?s = (if hd ?r = CHR ''_'' \<and> last ?r = dash then strip_trailing_dashes ?r else ?r)"
    by (rule normalizeAgentId_again [OF normalizeAgentId_form])
  have "\<not> (hd ?s = CHR ''_'' \<and> last ?s = dash)"
    using s strip_trailing_last [of ?r] agent_id_facts(4) [of "Some ?r"] by metis
  then show ?thesis using normalizeAgentId_again [OF normalizeAgentId_form, of "Some ?r"] by presburger
qed


section \<open>Parsing what was built\<close>

lemma lower_literals:
  "js_lower ''agent:'' = ''agent:''" "js_lower ''direct'' = ''direct''"
  "js_lower ''group'' = ''group''" "js_lower ''channel'' = ''channel''"
  "js_lower ''unknown'' = ''unknown''" "js_lower ''main'' = ''main''"
  "js_lower '':'' = '':''" "js_lower '':direct:'' = '':direct:''" "js_lower '':thread:'' = '':thread:''"
  by (simp_all add: js_lower_def js_lower_char_def)

lemma js_lower_colon [simp]: "js_lower_char colon = colon"
  by (simp add: js_lower_char_def colon_def)

lemma js_lower_Cons: "js_lower (c # s) = js_lower_char c # js_lower s"
  by (simp add: js_lower_def)

text \<open>The shared form of every key: \<open>agent:<id>:<rest>\<close>.\<close>

definition agent_key :: "string \<Rightarrow> string \<Rightarrow> string" where
  "agent_key a r = ''agent:'' @ a @ colon # r"

lemma agent_key_trim:
  assumes "js_trim r = r" and "r \<noteq> []"
  shows "js_trim (agent_key a r) = agent_key a r"
  unfolding agent_key_def
  by (intro js_trim_fixed) (use js_trim_ends [OF assms] assms(2) in \<open>auto simp: js_space_def colon_def\<close>)

lemma agent_key_lower:
  assumes "is_id_text a" and "js_lower r = r"
  shows "js_lower (agent_key a r) = agent_key a r"
  by (simp add: agent_key_def js_lower_Cons lower_literals assms id_text_facts)
    (simp add: js_lower_char_def)

lemma agent_key_parts:
  assumes "is_id_text a"
  shows "colon_parts (agent_key a r) = ''agent'' # a # colon_parts r"
proof -
  have "agent_key a r = ''agent'' @ colon # (a @ colon # r)"
    by (simp add: agent_key_def colon_def)
  then show ?thesis
    using id_text_facts [OF assms]
    by (simp only: colon_parts_append) (simp add: colon_parts_one colon_def)
qed

lemma parse_agent_key:
  assumes a: "is_id_text a" and r: "js_trim r = r" "js_lower r = r" "colon_parts r \<noteq> []"
  shows "parseAgentSessionKey (Some (agent_key a r)) =
    Some \<lparr>agentId = a, rest = join_colon (colon_parts r)\<rparr>"
proof -
  have rne: "r \<noteq> []" using r(3) by (auto simp: colon_parts_def)
  have raw: "js_lower (js_trim (agent_key a r)) = agent_key a r"
    using agent_key_trim [OF r(1) rne] agent_key_lower [OF a r(2)] by simp
  have "join_colon (colon_parts r) \<noteq> []"
    using r(3) colon_parts_nonempty [of "hd (colon_parts r)" r] by (intro join_colon_ne) auto
  moreover have "agent_key a r \<noteq> []" by (simp add: agent_key_def)
  ultimately show ?thesis
    using r(3) id_text_facts [OF a]
    by (simp add: parseAgentSessionKey_def opt_str_def raw agent_key_parts [OF a] Suc_le_eq)
qed

text \<open>What follows the agent id in the key of a peer.\<close>

definition peer_key_rest :: "peer_key_params \<Rightarrow> string" where
  "peer_key_rest P =
     (let peerKind = (case pk_peerKind P of None \<Rightarrow> ''direct'' | Some k \<Rightarrow> k);
          dmScope = (case pk_dmScope P of None \<Rightarrow> MainScope | Some d \<Rightarrow> d)
      in if peerKind \<noteq> ''direct'' then
           key_channel P @ colon # peerKind @ colon # js_lower (str_or (js_trim (opt_str (pk_peerId P))) ''unknown'')
         else if dm_peer_id P = [] \<or> dmScope = MainScope then normalizeMainKey (pk_mainKey P)
         else if dmScope = PerAccountChannelPeer then
           key_channel P @ colon # normalizeAccountId (pk_accountId P) @ colon # ''direct'' @ colon # dm_peer_id P
         else if dmScope = PerChannelPeer then key_channel P @ colon # ''direct'' @ colon # dm_peer_id P
         else ''direct'' @ colon # dm_peer_id P)"

lemma peer_key_form:
  "buildAgentPeerSessionKey P = agent_key (normalizeAgentId (Some (pk_agentId P))) (peer_key_rest P)"
  by (cases "case pk_dmScope P of None \<Rightarrow> MainScope | Some d \<Rightarrow> d")
    (auto simp: buildAgentPeerSessionKey_def build_dm_session_key_def peer_key_rest_def
      buildAgentMainSessionKey_def agent_key_def colon_def Let_def)

lemma key_channel_facts [simp]:
  "js_lower (key_channel P) = key_channel P" "js_trim (key_channel P) = key_channel P" "key_channel P \<noteq> []"
  by (auto simp: key_channel_def str_or_def js_trim_lower lower_literals)
    (simp add: js_trim_def js_space_def)

lemma linked_peer_trimmed: "resolveLinkedPeerId links ch p = Some l \<Longrightarrow> js_trim l = l"
  by (auto simp: resolveLinkedPeerId_def Let_def split: option.splits if_splits)

lemma dm_peer_facts [simp]: "js_lower (dm_peer_id P) = dm_peer_id P" "js_trim (dm_peer_id P) = dm_peer_id P"
  by (auto simp: dm_peer_id_def Let_def js_trim_lower dest: linked_peer_trimmed split: option.splits)

lemma main_key_facts [simp]:
  "js_lower (normalizeMainKey k) = normalizeMainKey k" "js_trim (normalizeMainKey k) = normalizeMainKey k"
  "normalizeMainKey k \<noteq> []"
  by (auto simp: normalizeMainKey_def DEFAULT_MAIN_KEY_def Let_def js_trim_lower lower_literals)
    (simp add: js_trim_def js_space_def)

lemma group_peer_facts:
  fixes x :: string
  defines "g \<equiv> js_lower (str_or (js_trim x) ''unknown'')"
  shows "js_lower g = g" "js_trim g = g" "g \<noteq> []"
proof -
  have "js_trim ''unknown'' = ''unknown''" by (simp add: js_trim_def js_space_def)
  then show "js_trim g = g" by (simp add: g_def str_or_def js_trim_lower)
  show "js_lower g = g" "g \<noteq> []" by (auto simp: g_def str_or_def lower_literals)
qed

lemma trim_after:
  assumes "js_trim s = s" and "s \<noteq> []" and "js_trim a = a" and "a \<noteq> []"
  shows "js_trim (a @ colon # s) = a @ colon # s"
  using assms js_trim_ends [OF assms(1,2)] js_trim_ends [OF assms(3,4)]
  by (intro js_trim_fixed) auto

lemma direct_trim [simp]: "js_trim ''direct'' = ''direct''" "js_trim ''group'' = ''group''"
  "js_trim ''channel'' = ''channel''"
  by (simp_all add: js_trim_def js_space_def)

lemma peer_key_rest_lower:
  assumes "js_lower (case pk_peerKind P of None \<Rightarrow> ''direct'' | Some k \<Rightarrow> k)
    = (case pk_peerKind P of None \<Rightarrow> ''direct'' | Some k \<Rightarrow> k)"
  shows "js_lower (peer_key_rest P) = peer_key_rest P"
  using assms
  by (simp add: peer_key_rest_def Let_def js_lower_Cons group_peer_facts(1) lower_literals)
    (simp add: js_lower_char_def)

lemma trim_after2:
  assumes "js_trim s = s" and "s \<noteq> []" and "js_trim a = a" and "a \<noteq> []"
  shows "js_trim (a @ colon # b @ colon # s) = a @ colon # b @ colon # s"
  using assms js_trim_ends by (intro js_trim_fixed) auto

lemma trim_after3:
  assumes "js_trim s = s" and "s \<noteq> []" and "js_trim a = a" and "a \<noteq> []"
  shows "js_trim (a @ colon # b @ colon # c @ colon # s) = a @ colon # b @ colon # c @ colon # s"
  using trim_after2 [OF assms, of "b @ colon # c"] by simp

lemma peer_key_rest_trim: "js_trim (peer_key_rest P) = peer_key_rest P"
proof -
  have 1: "js_trim (key_channel P @ colon # k @ colon # js_lower (str_or (js_trim x) ''unknown''))
      = key_channel P @ colon # k @ colon # js_lower (str_or (js_trim x) ''unknown'')" for k x
    by (rule trim_after2) (simp_all only: group_peer_facts key_channel_facts not_False_eq_True)
  have 2: "js_trim (''direct'' @ colon # dm_peer_id P) = ''direct'' @ colon # dm_peer_id P"
    "js_trim (key_channel P @ colon # ''direct'' @ colon # dm_peer_id P)
      = key_channel P @ colon # ''direct'' @ colon # dm_peer_id P"
    "js_trim (key_channel P @ colon # acct @ colon # ''direct'' @ colon # dm_peer_id P)
      = key_channel P @ colon # acct @ colon # ''direct'' @ colon # dm_peer_id P"
    if "dm_peer_id P \<noteq> []" for acct
    using that by (auto intro!: trim_after trim_after2 trim_after3 simp del: append_Cons)
  show ?thesis
    unfolding peer_key_rest_def Let_def
    by (auto simp: 1 2 simp del: append_Cons append_assoc)
qed


abbreviation known_kind :: "string option \<Rightarrow> bool" where
  "known_kind k \<equiv> k \<in> {None, Some ''direct'', Some ''group'', Some ''channel''}"

lemma known_kind_part:
  assumes "known_kind k"
  shows "colon \<notin> set (case k of None \<Rightarrow> ''direct'' | Some x \<Rightarrow> x)"
    "(case k of None \<Rightarrow> ''direct'' | Some x \<Rightarrow> x) \<noteq> []"
    "js_lower (case k of None \<Rightarrow> ''direct'' | Some x \<Rightarrow> x) = (case k of None \<Rightarrow> ''direct'' | Some x \<Rightarrow> x)"
  using assms by (auto simp: colon_def lower_literals)

lemma direct_part [simp]: "colon_parts (''direct'' @ colon # s) = ''direct'' # colon_parts s"
  by (subst colon_parts_append) (simp add: colon_parts_one colon_def)

lemma peer_key_rest_parts:
  assumes k: "known_kind (pk_peerKind P)" and m: "colon_parts (normalizeMainKey (pk_mainKey P)) \<noteq> []"
  shows "colon_parts (peer_key_rest P) \<noteq> []"
  using m known_kind_part [OF k]
  by (auto simp: peer_key_rest_def Let_def colon_parts_append colon_parts_one simp del: append_Cons)

lemma parse_peer_key:
  assumes "known_kind (pk_peerKind P)" and "colon_parts (normalizeMainKey (pk_mainKey P)) \<noteq> []"
  shows "parseAgentSessionKey (Some (buildAgentPeerSessionKey P)) =
    Some \<lparr>agentId = normalizeAgentId (Some (pk_agentId P)), rest = join_colon (colon_parts (peer_key_rest P))\<rparr>"
  unfolding peer_key_form
  by (intro parse_agent_key normalizeAgentId_form peer_key_rest_trim peer_key_rest_lower
      peer_key_rest_parts known_kind_part assms)

lemma split_join_colon:
  "ps \<noteq> [] \<Longrightarrow> \<forall>p \<in> set ps. colon \<notin> set p \<Longrightarrow> split_colon (join_colon ps) = ps"
proof (induction ps rule: join_colon.induct)
  case (3 p q ps)
  then show ?case by (simp add: split_colon_append split_colon_none)
qed (auto simp: split_colon_none)

lemma split_colon_free: "p \<in> set (split_colon s) \<Longrightarrow> colon \<notin> set p"
proof (induction s arbitrary: p)
  case (Cons c cs)
  then show ?case by (cases "split_colon cs") (auto split: if_splits)
qed simp

lemma parts_of_joined [simp]: "colon_parts (join_colon (colon_parts s)) = colon_parts s"
proof (cases "colon_parts s = []")
  case False
  have "\<forall>p \<in> set (colon_parts s). colon \<notin> set p"
    by (auto simp: colon_parts_def dest: split_colon_free)
  then show ?thesis using False
    by (simp add: colon_parts_def [of "join_colon _"] split_join_colon)
       (simp add: filter_id_conv colon_parts_nonempty)
qed (simp add: colon_parts_def)

lemma built_key_facts:
  assumes "known_kind (pk_peerKind P)" and "colon_parts (normalizeMainKey (pk_mainKey P)) \<noteq> []"
  defines "key \<equiv> buildAgentPeerSessionKey P"
  shows "js_trim key = key" "js_lower key = key" "key \<noteq> []"
proof -
  have ne: "peer_key_rest P \<noteq> []"
    using peer_key_rest_parts [OF assms(1,2)] by (auto simp: colon_parts_def)
  show "js_trim key = key"
    unfolding key_def peer_key_form by (rule agent_key_trim [OF peer_key_rest_trim ne])
  show "js_lower key = key"
    unfolding key_def peer_key_form
    by (intro agent_key_lower normalizeAgentId_form peer_key_rest_lower known_kind_part assms)
  show "key \<noteq> []" by (simp add: key_def peer_key_form agent_key_def)
qed

section \<open>Properties\<close>

text \<open>
  A session key built for a peer is an agent key again: parsing it gives the agent id the
  builder normalised and the rest it wrote (with runs of colons squeezed), the classifier calls it
  an agent key, and the key of a group chat is recognised as a group chat.
\<close>

theorem session_key_roundtrip:
  assumes "known_kind (pk_peerKind P)" and "colon_parts (normalizeMainKey (pk_mainKey P)) \<noteq> []"
  shows "parseAgentSessionKey (Some (buildAgentPeerSessionKey P)) =
      Some \<lparr>agentId = normalizeAgentId (Some (pk_agentId P)), rest = join_colon (colon_parts (peer_key_rest P))\<rparr>
    \<and> classifySessionKeyShape (Some (buildAgentPeerSessionKey P)) = ShapeAgent
    \<and> (pk_peerKind P = Some ''group'' \<longrightarrow>
        deriveSessionChatType (Some (buildAgentPeerSessionKey P)) = ChatGroup)"
proof (intro conjI impI)
  note facts = built_key_facts [OF assms] parse_peer_key [OF assms]
  show "parseAgentSessionKey (Some (buildAgentPeerSessionKey P)) =
      Some \<lparr>agentId = normalizeAgentId (Some (pk_agentId P)), rest = join_colon (colon_parts (peer_key_rest P))\<rparr>"
    by (rule parse_peer_key [OF assms])
  show "classifySessionKeyShape (Some (buildAgentPeerSessionKey P)) = ShapeAgent"
    by (simp add: classifySessionKeyShape_def opt_str_def facts Let_def)
  assume "pk_peerKind P = Some ''group''"
  then have "''group'' \<in> set (colon_parts (peer_key_rest P))"
    by (simp add: peer_key_rest_def colon_parts_append del: append_Cons)
      (simp add: colon_parts_one colon_def)
  then show "deriveSessionChatType (Some (buildAgentPeerSessionKey P)) = ChatGroup"
    by (simp add: deriveSessionChatType_def opt_str_def facts Let_def)
qed

definition sample_peer :: peer_key_params where
  "sample_peer = \<lparr>pk_agentId = ''Ops Bot'', pk_mainKey = None, pk_channel = ''Slack'', pk_accountId = None,
     pk_peerKind = Some ''group'', pk_peerId = Some ''C42'', pk_identityLinks = None, pk_dmScope = None\<rparr>"

theorem session_key_roundtrip_witness:
  "buildAgentPeerSessionKey sample_peer = ''agent:ops-bot:slack:group:c42''
   \<and> parseAgentSessionKey (Some ''agent:ops-bot:slack:group:c42'')
       = Some \<lparr>agentId = ''ops-bot'', rest = ''slack:group:c42''\<rparr>"
proof
  show key: "buildAgentPeerSessionKey sample_peer = ''agent:ops-bot:slack:group:c42''"
    by code_simp
  have "known_kind (pk_peerKind sample_peer)" "colon_parts (normalizeMainKey (pk_mainKey sample_peer)) \<noteq> []"
    by code_simp+
  then have "parseAgentSessionKey (Some (buildAgentPeerSessionKey sample_peer)) =
      Some \<lparr>agentId = normalizeAgentId (Some (pk_agentId sample_peer)),
            rest = join_colon (colon_parts (peer_key_rest sample_peer))\<rparr>"
    using session_key_roundtrip [of sample_peer] by blast
  moreover have "normalizeAgentId (Some (pk_agentId sample_peer)) = ''ops-bot''"
    "join_colon (colon_parts (peer_key_rest sample_peer)) = ''slack:group:c42''"
    by code_simp+
  ultimately show "parseAgentSessionKey (Some ''agent:ops-bot:slack:group:c42'')
      = Some \<lparr>agentId = ''ops-bot'', rest = ''slack:group:c42''\<rparr>"
    unfolding key by simp
qed

text \<open>
  The agent id read back from a session key is the id the key was built for, except for the
  ids that normalise to a text beginning with an underscore and ending with a dash (the dashes are
  stripped before the cut to 64 characters): for these the second normalisation gives another id.
\<close>

theorem session_key_agent_id:
  assumes "known_kind (pk_peerKind P)" and "colon_parts (normalizeMainKey (pk_mainKey P)) \<noteq> []"
  shows "resolveAgentIdFromSessionKey (Some (buildAgentPeerSessionKey P)) = normalizeAgentId (Some (pk_agentId P))
    \<longleftrightarrow> \<not> (hd (normalizeAgentId (Some (pk_agentId P))) = CHR ''_''
           \<and> last (normalizeAgentId (Some (pk_agentId P))) = dash)"
proof -
  let ?r = "normalizeAgentId (Some (pk_agentId P))"
  have "resolveAgentIdFromSessionKey (Some (buildAgentPeerSessionKey P)) = normalizeAgentId (Some ?r)"
    by (simp add: resolveAgentIdFromSessionKey_def parse_peer_key [OF assms])
  then show ?thesis
    using normalizeAgentId_again [OF normalizeAgentId_form, of "Some (pk_agentId P)"]
      strip_trailing_less [of ?r] agent_id_facts(4) [of "Some (pk_agentId P)"] by auto
qed

definition long_id_peer :: peer_key_params where
  "long_id_peer = sample_peer\<lparr>pk_agentId := ''_'' @ replicate 62 (CHR ''a'') @ ''-b''\<rparr>"

theorem session_key_agent_id_witness:
  "resolveAgentIdFromSessionKey (Some (buildAgentPeerSessionKey long_id_peer))
     \<noteq> normalizeAgentId (Some (pk_agentId long_id_peer))"
proof -
  have "known_kind (pk_peerKind long_id_peer)" "colon_parts (normalizeMainKey (pk_mainKey long_id_peer)) \<noteq> []"
    by code_simp+
  moreover have "normalizeAgentId (Some (pk_agentId long_id_peer)) = ''_'' @ replicate 62 (CHR ''a'') @ ''-''"
    unfolding long_id_peer_def sample_peer_def
    by (subst normalizeAgentId_long)
      (auto simp: is_id_text_def isValidId_underscore list_all_iff is_id_char_def is_alnum_lower_def
        dash_def take_Cons')
  ultimately show ?thesis
    using session_key_agent_id [of long_id_peer] by (simp add: dash_def)
qed


lemma agent_key_inj:
  assumes "is_id_text a" and "is_id_text b"
  shows "agent_key a x = agent_key b y \<longleftrightarrow> a = b \<and> x = y"
  by (simp add: agent_key_def colon_cancel id_text_facts(1) assms)

lemma dm_key_rest:
  assumes "pk_peerKind P = None \<or> pk_peerKind P = Some ''direct''" and "dm_peer_id P \<noteq> []"
  shows "peer_key_rest P =
    (case pk_dmScope P of
       Some PerPeer \<Rightarrow> ''direct'' @ colon # dm_peer_id P
     | Some PerChannelPeer \<Rightarrow> key_channel P @ colon # ''direct'' @ colon # dm_peer_id P
     | Some PerAccountChannelPeer \<Rightarrow>
         key_channel P @ colon # normalizeAccountId (pk_accountId P) @ colon # ''direct'' @ colon # dm_peer_id P
     | _ \<Rightarrow> normalizeMainKey (pk_mainKey P))"
  using assms by (auto simp: peer_key_rest_def split: option.splits dm_scope.splits)

text \<open>
  C10: Direct chats are isolated as the configured scope promises. Two senders get the same session
  key exactly when the scope cannot tell them apart: same agent and same (linked) peer under
  per-peer; the same channel as well under per-channel-peer; the same account as well under
  per-account-channel-peer; and under the main scope all direct chats of an agent share one key.
  Channel ids hold no colon.
\<close>

theorem session_key_dm_isolation:
  assumes dm: "pk_peerKind P \<in> {None, Some ''direct''}" "pk_peerKind Q \<in> {None, Some ''direct''}"
    and scope: "pk_dmScope P = Some d" "pk_dmScope Q = Some d"
    and peers: "dm_peer_id P \<noteq> []" "dm_peer_id Q \<noteq> []"
    and channels: "colon \<notin> set (pk_channel P)" "colon \<notin> set (pk_channel Q)"
    and mainKey: "pk_mainKey P = pk_mainKey Q"
  shows "buildAgentPeerSessionKey P = buildAgentPeerSessionKey Q \<longleftrightarrow>
    normalizeAgentId (Some (pk_agentId P)) = normalizeAgentId (Some (pk_agentId Q))
    \<and> (d \<noteq> MainScope \<longrightarrow> dm_peer_id P = dm_peer_id Q)
    \<and> (d \<in> {PerChannelPeer, PerAccountChannelPeer} \<longrightarrow> key_channel P = key_channel Q)
    \<and> (d = PerAccountChannelPeer \<longrightarrow>
         normalizeAccountId (pk_accountId P) = normalizeAccountId (pk_accountId Q))"
proof -
  have ch: "colon \<notin> set (key_channel R)" if "colon \<notin> set (pk_channel R)" for R
  proof -
    have *: "js_lower_char c \<noteq> colon" if "c \<noteq> colon" for c
    proof
      assume "js_lower_char c = colon"
      moreover have "of_char c < (256 :: nat)" by (rule nat_of_char_less_256)
      ultimately have "of_char (js_lower_char c) = (58 :: nat)" by (simp add: colon_def)
      then have "of_char c = (58 :: nat)"
        using \<open>of_char c < 256\<close> by (auto simp: js_lower_char_def Let_def split: if_splits)
      then have "c = char_of (58 :: nat)" by (metis char_of_char)
      then show False using that by (simp add: colon_def char_of_def bit_Suc_0_iff)
    qed
    have "set (js_trim (pk_channel R)) \<subseteq> set (pk_channel R)"
      by (auto simp: js_trim_def dest!: set_dropWhileD)
    then have "js_lower_char c \<noteq> colon" if "c \<in> set (js_trim (pk_channel R))" for c
      using * \<open>colon \<notin> set (pk_channel R)\<close> that by (metis subsetD)
    then have "colon \<notin> set (js_lower (js_trim (pk_channel R)))"
      unfolding js_lower_def set_map by (metis imageE)
    moreover have "colon \<notin> set ''unknown''" by (simp add: colon_def)
    ultimately show ?thesis by (simp only: key_channel_def str_or_def split: if_split) blast
  qed
  have dm': "pk_peerKind P = None \<or> pk_peerKind P = Some ''direct''"
    "pk_peerKind Q = None \<or> pk_peerKind Q = Some ''direct''" using dm by auto
  have "buildAgentPeerSessionKey P = buildAgentPeerSessionKey Q \<longleftrightarrow>
    normalizeAgentId (Some (pk_agentId P)) = normalizeAgentId (Some (pk_agentId Q))
    \<and> peer_key_rest P = peer_key_rest Q"
    by (simp add: peer_key_form agent_key_inj normalizeAgentId_form(1))
  also have "peer_key_rest P = peer_key_rest Q \<longleftrightarrow>
      (d \<noteq> MainScope \<longrightarrow> dm_peer_id P = dm_peer_id Q)
    \<and> (d \<in> {PerChannelPeer, PerAccountChannelPeer} \<longrightarrow> key_channel P = key_channel Q)
    \<and> (d = PerAccountChannelPeer \<longrightarrow>
         normalizeAccountId (pk_accountId P) = normalizeAccountId (pk_accountId Q))"
    using ch [OF channels(1)] ch [OF channels(2)] mainKey
    by (cases d)
      (auto simp: dm_key_rest [OF dm'(1) peers(1)] dm_key_rest [OF dm'(2) peers(2)] scope colon_cancel
        simp del: append_Cons)
  finally show ?thesis .
qed

definition dm_from :: "string \<Rightarrow> peer_key_params" where
  "dm_from peer = sample_peer\<lparr>pk_peerKind := None, pk_peerId := Some peer, pk_dmScope := Some PerChannelPeer\<rparr>"

theorem session_key_dm_isolation_witness:
  "buildAgentPeerSessionKey (dm_from ''alice'') \<noteq> buildAgentPeerSessionKey (dm_from ''bob'')
   \<and> buildAgentPeerSessionKey (dm_from ''alice'') = buildAgentPeerSessionKey (dm_from ''ALICE'')"
proof -
  have p: "dm_peer_id (dm_from ''alice'') = ''alice''" "dm_peer_id (dm_from ''bob'') = ''bob''"
    "dm_peer_id (dm_from ''ALICE'') = ''alice''"
    by code_simp+
  have f: "pk_peerKind (dm_from x) = None" "pk_dmScope (dm_from x) = Some PerChannelPeer"
    "pk_channel (dm_from x) = ''Slack''" "pk_mainKey (dm_from x) = None"
    "pk_agentId (dm_from x) = ''Ops Bot''" "key_channel (dm_from x) = key_channel sample_peer" for x
    by (simp_all add: dm_from_def sample_peer_def key_channel_def)
  show ?thesis
    using session_key_dm_isolation [of "dm_from ''alice''" "dm_from ''bob''" PerChannelPeer]
      session_key_dm_isolation [of "dm_from ''alice''" "dm_from ''ALICE''" PerChannelPeer]
    by (simp add: f p) (simp add: colon_def)
qed

lemma last_index_of_sound:
  "last_index_of p s = Some i \<Longrightarrow> js_starts_with (drop i s) p \<and> i \<le> length s"
proof (induction s arbitrary: i)
  case (Cons c cs)
  then show ?case by (auto split: option.splits if_splits)
qed (auto simp: js_starts_with_def split: if_splits)

lemma last_index_of_append:
  "last_index_of p ys = Some i \<Longrightarrow> last_index_of p (xs @ ys) = Some (length xs + i)"
  by (induction xs) auto

lemma last_index_of_none: "colon \<in> set p \<Longrightarrow> colon \<notin> set t \<Longrightarrow> last_index_of p t = None"
  by (induction t) (auto simp: js_starts_with_def dest: in_set_takeD, metis in_set_takeD set_ConsD take_Cons')

lemma take_no_colon: "CHR '':'' \<notin> set t \<Longrightarrow> CHR '':'' \<in> set p \<Longrightarrow> take n t \<noteq> p"
  by (metis in_set_takeD)

lemma length_js_lower [simp]: "length (js_lower s) = length s"
  by (simp add: js_lower_def)

lemma last_thread_marker: "colon \<notin> set t \<Longrightarrow> last_index_of '':thread:'' ('':thread:'' @ t) = Some 0"
  by (simp add: last_index_of_none js_starts_with_def colon_def take_no_colon)

lemma last_topic_marker:
  assumes "colon \<notin> set t" and "last_index_of '':topic:'' (b @ '':thread:'' @ t) = Some i"
  shows "i < length b"
proof (rule ccontr)
  assume "\<not> i < length b"
  then obtain j where i: "i = length b + j" by (metis le_Suc_ex not_less)
  have "js_starts_with (drop j ('':thread:'' @ t)) '':topic:''"
    using last_index_of_sound [OF assms(2)] by (simp add: i)
  moreover have "last_index_of '':topic:'' ('':thread:'' @ t) = None"
    using assms(1) by (simp add: last_index_of_none js_starts_with_def colon_def take_no_colon)
  moreover have "last_index_of p s \<noteq> None" if "js_starts_with (drop k s) p" "k \<le> length s" for p s k
    using that
  proof (induction s arbitrary: k)
    case (Cons c cs)
    show ?case
    proof (cases k)
      case 0
      then show ?thesis using Cons.prems by (auto split: option.splits)
    next
      case (Suc m)
      then have "last_index_of p cs \<noteq> None" using Cons.IH [of m] Cons.prems by simp
      then show ?thesis by auto
    qed
  qed (auto simp: js_starts_with_def)
  moreover have "j \<le> length ('':thread:'' @ t)"
    using last_index_of_sound [OF assms(2)] by (simp add: i)
  ultimately show False by blast
qed

text \<open>
  The key of a thread names its parent: resolving the parent of the key that was built by
  appending a thread id without colons gives the base key back, markers inside the base key
  notwithstanding.
\<close>

theorem thread_key_parent:
  assumes "js_trim base = base" and "base \<noteq> []"
    and "js_trim thread \<noteq> []" and "colon \<notin> set (js_lower (js_trim thread))"
  shows "resolveThreadParentSessionKey
      (Some (tk_sessionKey (resolveThreadSessionKeys base (Some thread) parent None None))) = Some base"
proof -
  let ?t = "js_lower (js_trim thread)" and ?k = "base @ '':thread:'' @ js_lower (js_trim thread)"
  have key: "tk_sessionKey (resolveThreadSessionKeys base (Some thread) parent None None) = ?k"
    using assms(3) by (simp add: resolveThreadSessionKeys_def opt_str_def)
  have "js_trim ?t = ?t" by (simp add: js_trim_lower)
  moreover have "?t \<noteq> []" using assms(3) by simp
  ultimately have trim: "js_trim ?k = ?k"
    using js_trim_ends [OF assms(1,2)] js_trim_ends [of ?t] assms(2) by (intro js_trim_fixed) auto
  have low: "js_lower ?k = js_lower base @ '':thread:'' @ ?t"
    by (simp add: js_lower_Cons) (simp add: js_lower_char_def)
  have th: "last_index_of '':thread:'' (js_lower ?k) = Some (length base)"
    unfolding low using last_index_of_append [OF last_thread_marker [OF assms(4)], of "js_lower base"]
    by simp
  have tp: "i < length base" if "last_index_of '':topic:'' (js_lower ?k) = Some i" for i
    using last_topic_marker [OF assms(4), of "js_lower base"] that unfolding low by simp
  have "last_marker THREAD_SESSION_MARKERS (js_lower ?k) None = Some (length base)"
    unfolding THREAD_SESSION_MARKERS_def last_marker.simps th
    by (cases "last_index_of '':topic:'' (js_lower ?k)") (use tp in \<open>force simp del: append_Cons js_lower_append\<close>)+
  then show ?thesis
    using assms(1,2) by (simp add: resolveThreadParentSessionKey_def key opt_str_def trim del: append_Cons)
qed

theorem thread_key_parent_witness:
  "resolveThreadParentSessionKey (Some (tk_sessionKey
      (resolveThreadSessionKeys ''agent:main:telegram:group:1:topic:9'' (Some '' T77 '') None None None)))
    = Some ''agent:main:telegram:group:1:topic:9''"
proof (rule thread_key_parent)
  show "js_trim ''agent:main:telegram:group:1:topic:9'' = ''agent:main:telegram:group:1:topic:9''"
    "js_trim '' T77 '' \<noteq> []" "colon \<notin> set (js_lower (js_trim '' T77 ''))" by code_simp+
qed simp

end
