(* ===== verification/Routing.thy ===== *)
theory Routing
  imports SessionKey BigInts
begin

text \<open>
  Which agent answers a message: \<open>src/routing/resolve-route.ts\<close>, \<open>src/routing/bindings.ts\<close>,
  the agent list of \<open>src/agents/agent-scope.ts\<close> and the channel ids of \<open>src/channels/ids.ts\<close>.

  A field that the code passes to \<open>normalizeId\<close> (typed \<open>unknown\<close>) is an \<open>id_value\<close>: a text, an
  integer (\<open>String(n)\<close> of an integer below 10 to the 21 in absolute value), or anything else. The
  cache of evaluated bindings is keyed by object identity, so a configuration carries the
  identity of itself and of its bindings array; \<open>caches\<close> is the \<open>WeakMap\<close>. Debug logging is left
  out. \<open>localeCompare\<close>, whose order is the platform's, is the parameter \<open>sortedByLocale\<close>.
\<close>

section \<open>Channel ids\<close>

definition CHAT_CHANNEL_ORDER :: "string list" where
  "CHAT_CHANNEL_ORDER = [''telegram'', ''whatsapp'', ''discord'', ''irc'', ''googlechat'', ''slack'',
     ''signal'', ''imessage'']"

definition CHAT_CHANNEL_ALIASES :: "(string \<times> string) list" where
  "CHAT_CHANNEL_ALIASES = [(''imsg'', ''imessage''), (''internet-relay-chat'', ''irc''),
     (''google-chat'', ''googlechat''), (''gchat'', ''googlechat'')]"

definition normalizeChannelKey :: "string option \<Rightarrow> string option" where
  "normalizeChannelKey raw =
     (let normalized = js_lower (js_trim (opt_str raw)) in if normalized = [] then None else Some normalized)"

definition normalizeChatChannelId :: "string option \<Rightarrow> string option" where
  "normalizeChatChannelId raw =
     (case normalizeChannelKey raw of None \<Rightarrow> None
      | Some normalized \<Rightarrow>
          let resolved = (case map_of CHAT_CHANNEL_ALIASES normalized of None \<Rightarrow> normalized | Some r \<Rightarrow> r)
          in if resolved \<in> set CHAT_CHANNEL_ORDER then Some resolved else None)"

section \<open>Configuration\<close>

datatype id_value = IdText string | IdNumber int | IdOther

definition normalizeId :: "id_value \<Rightarrow> string" where
  "normalizeId v = (case v of IdText s \<Rightarrow> js_trim s | IdNumber n \<Rightarrow> js_trim (bigint_string n) | IdOther \<Rightarrow> [])"

record peer_constraint =
  pc_kind :: "string option"
  pc_id :: id_value

record binding_match =
  bm_channel :: "string option"
  bm_accountId :: "string option"
  bm_peer :: "peer_constraint option"
  bm_guildId :: id_value
  bm_teamId :: id_value
  bm_roles :: "string list option"

record agent_binding =
  ab_agentId :: string
  ab_match :: "binding_match option"

record agent_entry =
  ae_id :: "string option"
  ae_default :: bool

record agents_config =
  cfg_ref :: nat
  cfg_agents :: "agent_entry list option"
  cfg_bindings_ref :: nat
  cfg_bindings :: "agent_binding list option"
  cfg_dmScope :: "dm_scope option"
  cfg_identityLinks :: "identity_links option"

definition listBindings :: "agents_config \<Rightarrow> agent_binding list" where
  "listBindings cfg = (case cfg_bindings cfg of None \<Rightarrow> [] | Some bs \<Rightarrow> bs)"

definition listAgents :: "agents_config \<Rightarrow> agent_entry list" where
  "listAgents cfg = (case cfg_agents cfg of None \<Rightarrow> [] | Some xs \<Rightarrow> xs)"

definition listAgentEntries :: "agents_config \<Rightarrow> agent_entry list" where
  "listAgentEntries cfg = (case cfg_agents cfg of None \<Rightarrow> [] | Some xs \<Rightarrow> xs)"

text \<open>The loop with the set of the ids seen.\<close>

fun distinct_ids :: "string list \<Rightarrow> string list \<Rightarrow> agent_entry list \<Rightarrow> string list" where
  "distinct_ids seen ids [] = ids"
| "distinct_ids seen ids (e # es) =
     (let i = normalizeAgentId (ae_id e)
      in if i \<in> set seen then distinct_ids seen ids es else distinct_ids (i # seen) (ids @ [i]) es)"

definition listAgentIds :: "agents_config \<Rightarrow> string list" where
  "listAgentIds cfg =
     (let agents = listAgentEntries cfg
      in if agents = [] then [DEFAULT_AGENT_ID]
         else let ids = distinct_ids [] [] agents in if ids \<noteq> [] then ids else [DEFAULT_AGENT_ID])"

definition resolveDefaultAgentId :: "agents_config \<Rightarrow> string" where
  "resolveDefaultAgentId cfg =
     (let agents = listAgentEntries cfg
      in if agents = [] then DEFAULT_AGENT_ID
         else let defaults = filter ae_default agents;
                  entry = (if defaults \<noteq> [] then hd defaults else hd agents);
                  chosen = js_trim (opt_str (ae_id entry))
              in normalizeAgentId (Some (str_or chosen DEFAULT_AGENT_ID)))"

definition resolveSessionAgentIds ::
  "string option \<Rightarrow> agents_config \<Rightarrow> string option \<Rightarrow> string \<times> string" where
  "resolveSessionAgentIds sessionKey cfg agent =
     (let defaultAgentId = resolveDefaultAgentId cfg;
          explicitRaw = js_lower (js_trim (opt_str agent));
          key = js_trim (opt_str sessionKey);
          parsed = (if key \<noteq> [] then parseAgentSessionKey (Some (js_lower key)) else None)
      in (defaultAgentId,
          if explicitRaw \<noteq> [] then normalizeAgentId (Some explicitRaw)
          else (case parsed of Some p \<Rightarrow> if agentId p \<noteq> [] then normalizeAgentId (Some (agentId p)) else defaultAgentId
                | None \<Rightarrow> defaultAgentId)))"

definition pickFirstExistingAgentId :: "agents_config \<Rightarrow> string \<Rightarrow> string" where
  "pickFirstExistingAgentId cfg agent =
     (let trimmed = js_trim agent
      in if trimmed = [] then sanitizeAgentId (Some (resolveDefaultAgentId cfg))
         else let normalized = normalizeAgentId (Some trimmed); agents = listAgents cfg
              in if agents = [] then sanitizeAgentId (Some trimmed)
                 else (case find (\<lambda>a. normalizeAgentId (ae_id a) = normalized) agents of
                     Some a \<Rightarrow>
                       (if js_trim (opt_str (ae_id a)) \<noteq> [] then sanitizeAgentId (Some (js_trim (opt_str (ae_id a))))
                        else sanitizeAgentId (Some (resolveDefaultAgentId cfg)))
                   | None \<Rightarrow> sanitizeAgentId (Some (resolveDefaultAgentId cfg))))"

section \<open>Evaluated bindings\<close>

definition matchesAccountId :: "string option \<Rightarrow> string \<Rightarrow> bool" where
  "matchesAccountId m actual =
     (let trimmed = js_trim (opt_str m)
      in if trimmed = [] then actual = DEFAULT_ACCOUNT_ID
         else if trimmed = ''*'' then True
         else normalizeAccountId (Some trimmed) = actual)"

definition matchesChannel :: "binding_match option \<Rightarrow> string \<Rightarrow> bool" where
  "matchesChannel m ch =
     (let key = normalizeToken (case m of None \<Rightarrow> None | Some x \<Rightarrow> bm_channel x)
      in if key = [] then False else key = ch)"

datatype normalized_peer_constraint = PeerNone | PeerInvalid | PeerValid string string

record normalized_match =
  nm_accountPattern :: string
  nm_peer :: normalized_peer_constraint
  nm_guildId :: "string option"
  nm_teamId :: "string option"
  nm_roles :: "string list option"

type_synonym evaluated_binding = "agent_binding \<times> normalized_match"

record route_peer =
  rp_kind :: string
  rp_id :: string

record binding_scope =
  bs_peer :: "route_peer option"
  bs_guildId :: string
  bs_teamId :: string
  bs_memberRoleIds :: "string list"

definition or_null :: "string \<Rightarrow> string option" where
  "or_null s = (if s = [] then None else Some s)"

definition normalizePeerConstraint :: "peer_constraint option \<Rightarrow> normalized_peer_constraint" where
  "normalizePeerConstraint p =
     (case p of None \<Rightarrow> PeerNone
      | Some c \<Rightarrow>
          let i = normalizeId (pc_id c)
          in (case normalizeChatType (pc_kind c) of
                None \<Rightarrow> PeerInvalid
              | Some k \<Rightarrow> if i = [] then PeerInvalid else PeerValid k i))"

definition normalizeBindingMatch :: "binding_match option \<Rightarrow> normalized_match" where
  "normalizeBindingMatch m =
     (case m of
        None \<Rightarrow> \<lparr>nm_accountPattern = [], nm_peer = PeerNone, nm_guildId = None, nm_teamId = None, nm_roles = None\<rparr>
      | Some x \<Rightarrow>
          \<lparr>nm_accountPattern = js_trim (opt_str (bm_accountId x)),
           nm_peer = normalizePeerConstraint (bm_peer x),
           nm_guildId = or_null (normalizeId (bm_guildId x)),
           nm_teamId = or_null (normalizeId (bm_teamId x)),
           nm_roles = (case bm_roles x of None \<Rightarrow> None | Some rs \<Rightarrow> if rs \<noteq> [] then Some rs else None)\<rparr>)"

definition hasGuildConstraint :: "normalized_match \<Rightarrow> bool" where
  "hasGuildConstraint m = (nm_guildId m \<noteq> None)"

definition hasTeamConstraint :: "normalized_match \<Rightarrow> bool" where
  "hasTeamConstraint m = (nm_teamId m \<noteq> None)"

definition hasRolesConstraint :: "normalized_match \<Rightarrow> bool" where
  "hasRolesConstraint m = (nm_roles m \<noteq> None)"

definition peer_in_scope :: "normalized_peer_constraint \<Rightarrow> route_peer option \<Rightarrow> bool" where
  "peer_in_scope c p =
     (case c of PeerNone \<Rightarrow> True | PeerInvalid \<Rightarrow> False
      | PeerValid k i \<Rightarrow> (case p of None \<Rightarrow> False | Some q \<Rightarrow> rp_kind q = k \<and> rp_id q = i))"

definition matchesBindingScope :: "normalized_match \<Rightarrow> binding_scope \<Rightarrow> bool" where
  "matchesBindingScope m scope =
     (if \<not> peer_in_scope (nm_peer m) (bs_peer scope) then False
      else if nm_guildId m \<noteq> None \<and> nm_guildId m \<noteq> Some (bs_guildId scope) then False
      else if nm_teamId m \<noteq> None \<and> nm_teamId m \<noteq> Some (bs_teamId scope) then False
      else (case nm_roles m of None \<Rightarrow> True
            | Some roles \<Rightarrow> list_ex (\<lambda>r. r \<in> set (bs_memberRoleIds scope)) roles))"

text \<open>The \<open>flatMap\<close> over the configured bindings.\<close>

definition evaluateBindings :: "agent_binding list \<Rightarrow> string \<Rightarrow> string \<Rightarrow> evaluated_binding list" where
  "evaluateBindings bindings ch account =
     concat (map (\<lambda>b.
       if \<not> matchesChannel (ab_match b) ch then []
       else if \<not> matchesAccountId (case ab_match b of None \<Rightarrow> None | Some x \<Rightarrow> bm_accountId x) account then []
       else [(b, normalizeBindingMatch (ab_match b))]) bindings)"

record evaluated_cache =
  ec_bindingsRef :: nat
  ec_byChannelAccount :: "(string \<times> evaluated_binding list) list"

type_synonym caches = "nat \<Rightarrow> evaluated_cache option"

definition MAX_EVALUATED_BINDINGS_CACHE_KEYS :: nat where
  "MAX_EVALUATED_BINDINGS_CACHE_KEYS = 2000"

definition tab :: char where
  "tab = CHR 0x09"

definition cache_key :: "string \<Rightarrow> string \<Rightarrow> string" where
  "cache_key ch account = ch @ tab # account"

definition current_cache :: "caches \<Rightarrow> agents_config \<Rightarrow> evaluated_cache" where
  "current_cache cs cfg =
     (let fresh = \<lparr>ec_bindingsRef = cfg_bindings_ref cfg, ec_byChannelAccount = []\<rparr>
      in (case cs (cfg_ref cfg) of
            Some c \<Rightarrow> if ec_bindingsRef c = cfg_bindings_ref cfg then c else fresh
          | None \<Rightarrow> fresh))"

definition cache_set ::
  "string \<Rightarrow> evaluated_binding list \<Rightarrow> (string \<times> evaluated_binding list) list
    \<Rightarrow> (string \<times> evaluated_binding list) list" where
  "cache_set k v m =
     (let m' = m @ [(k, v)]
      in if length m' > MAX_EVALUATED_BINDINGS_CACHE_KEYS then [(k, v)] else m')"

definition getEvaluatedBindingsForChannelAccount ::
  "caches \<Rightarrow> agents_config \<Rightarrow> string \<Rightarrow> string \<Rightarrow> evaluated_binding list \<times> caches" where
  "getEvaluatedBindingsForChannelAccount cs cfg ch account =
     (let cache = current_cache cs cfg; k = cache_key ch account
      in (case map_of (ec_byChannelAccount cache) k of
            Some hit \<Rightarrow> (hit, cs(cfg_ref cfg := Some cache))
          | None \<Rightarrow>
              let evaluated = evaluateBindings (listBindings cfg) ch account
              in (evaluated,
                  cs(cfg_ref cfg := Some (cache\<lparr>ec_byChannelAccount :=
                       cache_set k evaluated (ec_byChannelAccount cache)\<rparr>)))))"

section \<open>Resolving a route\<close>

record input_peer =
  ip_kind :: string
  ip_id :: id_value

record route_input =
  ri_channel :: string
  ri_accountId :: "string option"
  ri_peer :: "input_peer option"
  ri_parentPeer :: "input_peer option"
  ri_guildId :: id_value
  ri_teamId :: id_value
  ri_memberRoleIds :: "string list option"

datatype matched_by =
    BindingPeer | BindingPeerParent | BindingGuildRoles | BindingGuild | BindingTeam
  | BindingAccount | BindingChannel | MatchedDefault

record resolved_route =
  rr_agentId :: string
  rr_channel :: string
  rr_accountId :: string
  rr_sessionKey :: string
  rr_mainSessionKey :: string
  rr_matchedBy :: matched_by

definition buildAgentSessionKey ::
  "string \<Rightarrow> string \<Rightarrow> string option \<Rightarrow> route_peer option \<Rightarrow> dm_scope option \<Rightarrow> identity_links option \<Rightarrow> string" where
  "buildAgentSessionKey agent ch account peer dmScope links =
     buildAgentPeerSessionKey
       \<lparr>pk_agentId = agent, pk_mainKey = Some DEFAULT_MAIN_KEY,
        pk_channel = str_or (normalizeToken (Some ch)) ''unknown'', pk_accountId = account,
        pk_peerKind = Some (case peer of None \<Rightarrow> ''direct'' | Some p \<Rightarrow> rp_kind p),
        pk_peerId = (case peer of None \<Rightarrow> None | Some p \<Rightarrow> Some (str_or (js_trim (rp_id p)) ''unknown'')),
        pk_identityLinks = links, pk_dmScope = dmScope\<rparr>"

definition normalize_input_peer :: "input_peer \<Rightarrow> route_peer" where
  "normalize_input_peer p =
     \<lparr>rp_kind = (case normalizeChatType (Some (ip_kind p)) of None \<Rightarrow> ip_kind p | Some k \<Rightarrow> k),
      rp_id = normalizeId (ip_id p)\<rparr>"

definition choose_route ::
  "agents_config \<Rightarrow> string \<Rightarrow> string \<Rightarrow> route_peer option \<Rightarrow> string \<Rightarrow> matched_by \<Rightarrow> resolved_route" where
  "choose_route cfg ch account peer agent matchedBy =
     (let resolvedAgentId = pickFirstExistingAgentId cfg agent;
          dmScope = (case cfg_dmScope cfg of None \<Rightarrow> MainScope | Some d \<Rightarrow> d)
      in \<lparr>rr_agentId = resolvedAgentId, rr_channel = ch, rr_accountId = account,
          rr_sessionKey = js_lower (buildAgentSessionKey resolvedAgentId ch (Some account) peer
             (Some dmScope) (cfg_identityLinks cfg)),
          rr_mainSessionKey = js_lower (buildAgentMainSessionKey resolvedAgentId (Some DEFAULT_MAIN_KEY)),
          rr_matchedBy = matchedBy\<rparr>)"

record route_tier =
  rt_matchedBy :: matched_by
  rt_enabled :: bool
  rt_scopePeer :: "route_peer option"
  rt_predicate :: "normalized_match \<Rightarrow> bool"

definition has_valid_peer :: "normalized_match \<Rightarrow> bool" where
  "has_valid_peer m = (case nm_peer m of PeerValid _ _ \<Rightarrow> True | _ \<Rightarrow> False)"

definition route_tiers ::
  "route_peer option \<Rightarrow> route_peer option \<Rightarrow> string \<Rightarrow> string \<Rightarrow> string list \<Rightarrow> route_tier list" where
  "route_tiers peer parentPeer guildId teamId memberRoleIds =
     (let parent = (case parentPeer of Some p \<Rightarrow> if rp_id p \<noteq> [] then Some p else None | None \<Rightarrow> None)
      in [\<lparr>rt_matchedBy = BindingPeer, rt_enabled = (peer \<noteq> None), rt_scopePeer = peer,
           rt_predicate = has_valid_peer\<rparr>,
          \<lparr>rt_matchedBy = BindingPeerParent, rt_enabled = (parent \<noteq> None), rt_scopePeer = parent,
           rt_predicate = has_valid_peer\<rparr>,
          \<lparr>rt_matchedBy = BindingGuildRoles, rt_enabled = (guildId \<noteq> [] \<and> memberRoleIds \<noteq> []), rt_scopePeer = peer,
           rt_predicate = (\<lambda>m. hasGuildConstraint m \<and> hasRolesConstraint m)\<rparr>,
          \<lparr>rt_matchedBy = BindingGuild, rt_enabled = (guildId \<noteq> []), rt_scopePeer = peer,
           rt_predicate = (\<lambda>m. hasGuildConstraint m \<and> \<not> hasRolesConstraint m)\<rparr>,
          \<lparr>rt_matchedBy = BindingTeam, rt_enabled = (teamId \<noteq> []), rt_scopePeer = peer,
           rt_predicate = hasTeamConstraint\<rparr>,
          \<lparr>rt_matchedBy = BindingAccount, rt_enabled = True, rt_scopePeer = peer,
           rt_predicate = (\<lambda>m. nm_accountPattern m \<noteq> ''*'')\<rparr>,
          \<lparr>rt_matchedBy = BindingChannel, rt_enabled = True, rt_scopePeer = peer,
           rt_predicate = (\<lambda>m. nm_accountPattern m = ''*'')\<rparr>])"

definition tier_accepts ::
  "string \<Rightarrow> string \<Rightarrow> string list \<Rightarrow> route_tier \<Rightarrow> evaluated_binding \<Rightarrow> bool" where
  "tier_accepts guildId teamId memberRoleIds t e =
     (rt_predicate t (snd e) \<and>
      matchesBindingScope (snd e) \<lparr>bs_peer = rt_scopePeer t, bs_guildId = guildId, bs_teamId = teamId,
        bs_memberRoleIds = memberRoleIds\<rparr>)"

text \<open>\<open>for (const tier of tiers) ... const matched = bindings.find(...)\<close>\<close>

fun first_match ::
  "(route_tier \<Rightarrow> evaluated_binding \<Rightarrow> bool) \<Rightarrow> evaluated_binding list \<Rightarrow> route_tier list
    \<Rightarrow> (evaluated_binding \<times> matched_by) option" where
  "first_match accepts bindings [] = None"
| "first_match accepts bindings (t # ts) =
     (if \<not> rt_enabled t then first_match accepts bindings ts
      else (case find (accepts t) bindings of
              Some b \<Rightarrow> Some (b, rt_matchedBy t)
            | None \<Rightarrow> first_match accepts bindings ts))"

definition route_from ::
  "agents_config \<Rightarrow> route_input \<Rightarrow> evaluated_binding list \<Rightarrow> resolved_route" where
  "route_from cfg inp bindings =
     (let ch = normalizeToken (Some (ri_channel inp));
          account = normalizeAccountId (ri_accountId inp);
          peer = map_option normalize_input_peer (ri_peer inp);
          guildId = normalizeId (ri_guildId inp);
          teamId = normalizeId (ri_teamId inp);
          memberRoleIds = (case ri_memberRoleIds inp of None \<Rightarrow> [] | Some rs \<Rightarrow> rs);
          parentPeer = map_option normalize_input_peer (ri_parentPeer inp)
      in (case first_match (tier_accepts guildId teamId memberRoleIds) bindings
                (route_tiers peer parentPeer guildId teamId memberRoleIds) of
            Some (b, matchedBy) \<Rightarrow> choose_route cfg ch account peer (ab_agentId (fst b)) matchedBy
          | None \<Rightarrow> choose_route cfg ch account peer (resolveDefaultAgentId cfg) MatchedDefault))"

definition resolveAgentRoute :: "caches \<Rightarrow> agents_config \<Rightarrow> route_input \<Rightarrow> resolved_route \<times> caches" where
  "resolveAgentRoute cs cfg inp =
     (case getEvaluatedBindingsForChannelAccount cs cfg (normalizeToken (Some (ri_channel inp)))
             (normalizeAccountId (ri_accountId inp)) of
        (bindings, cs') \<Rightarrow> (route_from cfg inp bindings, cs'))"

section \<open>Bound accounts\<close>

record resolved_binding =
  rb_agentId :: string
  rb_accountId :: string
  rb_channelId :: string

definition normalizeBindingChannelId :: "string option \<Rightarrow> string option" where
  "normalizeBindingChannelId raw =
     (case normalizeChatChannelId raw of Some n \<Rightarrow> Some n
      | None \<Rightarrow> or_null (js_lower (js_trim (opt_str raw))))"

definition resolveNormalizedBindingMatch :: "agent_binding \<Rightarrow> resolved_binding option" where
  "resolveNormalizedBindingMatch b =
     (case ab_match b of None \<Rightarrow> None
      | Some m \<Rightarrow>
          (case normalizeBindingChannelId (bm_channel m) of None \<Rightarrow> None
           | Some channelId \<Rightarrow>
               let account = js_trim (opt_str (bm_accountId m))
               in if account = [] \<or> account = ''*'' then None
                  else Some \<lparr>rb_agentId = normalizeAgentId (Some (ab_agentId b)),
                             rb_accountId = normalizeAccountId (Some account), rb_channelId = channelId\<rparr>))"

definition listBoundAccountIds :: "(string list \<Rightarrow> string list) \<Rightarrow> agents_config \<Rightarrow> string \<Rightarrow> string list" where
  "listBoundAccountIds sortedByLocale cfg ch =
     (case normalizeBindingChannelId (Some ch) of None \<Rightarrow> []
      | Some normalizedChannel \<Rightarrow>
          sortedByLocale (remdups (map rb_accountId
            (filter (\<lambda>r. rb_channelId r = normalizedChannel)
               (List.map_filter resolveNormalizedBindingMatch (listBindings cfg))))))"

definition resolveDefaultAgentBoundAccountId :: "agents_config \<Rightarrow> string \<Rightarrow> string option" where
  "resolveDefaultAgentBoundAccountId cfg ch =
     (case normalizeBindingChannelId (Some ch) of None \<Rightarrow> None
      | Some normalizedChannel \<Rightarrow>
          let defaultAgentId = normalizeAgentId (Some (resolveDefaultAgentId cfg))
          in map_option rb_accountId
               (find (\<lambda>r. rb_channelId r = normalizedChannel \<and> rb_agentId r = defaultAgentId)
                  (List.map_filter resolveNormalizedBindingMatch (listBindings cfg))))"

type_synonym accounts_by_agent = "(string \<times> string list) list"

definition add_account :: "string \<Rightarrow> string list option \<Rightarrow> string list" where
  "add_account a old = (let l = (case old of None \<Rightarrow> [] | Some l \<Rightarrow> l) in if a \<in> set l then l else l @ [a])"

text \<open>\<open>Map.set\<close>: an existing key keeps its place.\<close>

fun map_set :: "'k \<Rightarrow> 'v \<Rightarrow> ('k \<times> 'v) list \<Rightarrow> ('k \<times> 'v) list" where
  "map_set k v [] = [(k, v)]"
| "map_set k v ((k', v') # m) = (if k = k' then (k, v) # m else (k', v') # map_set k v m)"

definition add_bound_account ::
  "(string \<times> accounts_by_agent) list \<Rightarrow> resolved_binding \<Rightarrow> (string \<times> accounts_by_agent) list" where
  "add_bound_account m r =
     (let byAgent = (case map_of m (rb_channelId r) of None \<Rightarrow> [] | Some x \<Rightarrow> x)
      in map_set (rb_channelId r)
           (map_set (rb_agentId r) (add_account (rb_accountId r) (map_of byAgent (rb_agentId r))) byAgent) m)"

definition buildChannelAccountBindings :: "agents_config \<Rightarrow> (string \<times> accounts_by_agent) list" where
  "buildChannelAccountBindings cfg =
     foldl add_bound_account [] (List.map_filter resolveNormalizedBindingMatch (listBindings cfg))"

definition resolvePreferredAccountId :: "string \<Rightarrow> string list \<Rightarrow> string" where
  "resolvePreferredAccountId defaultAccountId boundAccounts =
     (case boundAccounts of [] \<Rightarrow> defaultAccountId | a # _ \<Rightarrow> a)"


section \<open>The cache\<close>

text \<open>
  \<open>heap\<close> gives the content of the bindings array with a given identity; arrays are replaced, never
  changed in place. A cache is sound when each entry is what evaluation gives for its key, and it
  holds at most 2000 entries.
\<close>

definition cache_ok :: "(nat \<Rightarrow> agent_binding list) \<Rightarrow> caches \<Rightarrow> bool" where
  "cache_ok heap cs =
     (\<forall>r c. cs r = Some c \<longrightarrow>
        length (ec_byChannelAccount c) \<le> MAX_EVALUATED_BINDINGS_CACHE_KEYS \<and>
        (\<forall>(k, ev) \<in> set (ec_byChannelAccount c).
           \<exists>ch a. k = cache_key ch a \<and> tab \<notin> set a \<and> ev = evaluateBindings (heap (ec_bindingsRef c)) ch a))"

lemma cache_key_inj:
  assumes "cache_key ch a = cache_key ch' a'" and "tab \<notin> set a" and "tab \<notin> set a'"
  shows "ch = ch' \<and> a = a'"
proof -
  have "takeWhile (\<lambda>c. c \<noteq> tab) (rev (cache_key c x)) = rev x" if "tab \<notin> set x" for c x
    using that by (simp add: cache_key_def) (metis (mono_tags, lifting) set_rev takeWhile_append2 takeWhile.simps(2) append_Nil2)
  with assms have "rev a = rev a'" by metis
  then show ?thesis using assms(1) by (simp add: cache_key_def)
qed

lemma tab_space: "js_space tab"
  by (simp add: tab_def js_space_def)

lemma tab_not_id: "is_id_text s \<Longrightarrow> tab \<notin> set s"
  using is_id_char_facts(2) tab_space by (auto simp: is_id_text_def list_all_iff)

lemma current_cache_ok:
  assumes "cache_ok heap cs"
  shows "length (ec_byChannelAccount (current_cache cs cfg)) \<le> MAX_EVALUATED_BINDINGS_CACHE_KEYS"
    and "ec_bindingsRef (current_cache cs cfg) = cfg_bindings_ref cfg"
    and "(k, ev) \<in> set (ec_byChannelAccount (current_cache cs cfg)) \<Longrightarrow>
      \<exists>ch a. k = cache_key ch a \<and> tab \<notin> set a \<and> ev = evaluateBindings (heap (cfg_bindings_ref cfg)) ch a"
  using assms
  by (fastforce simp: current_cache_def cache_ok_def Let_def split: option.splits if_splits)+

lemma evaluated_from_cache:
  assumes ok: "cache_ok heap cs" and heap: "heap (cfg_bindings_ref cfg) = listBindings cfg"
    and acct: "tab \<notin> set account"
  shows "fst (getEvaluatedBindingsForChannelAccount cs cfg ch account) = evaluateBindings (listBindings cfg) ch account"
    and "cache_ok heap (snd (getEvaluatedBindingsForChannelAccount cs cfg ch account))"
proof -
  let ?c = "current_cache cs cfg" and ?k = "cache_key ch account"
  note cur = current_cache_ok [OF ok, where cfg = cfg]
  have hit: "v = evaluateBindings (listBindings cfg) ch account"
    if m: "map_of (ec_byChannelAccount ?c) ?k = Some v" for v
  proof -
    from map_of_SomeD [OF m] obtain ch' a' where e: "?k = cache_key ch' a'" "tab \<notin> set a'"
      and v: "v = evaluateBindings (heap (cfg_bindings_ref cfg)) ch' a'" using cur(3) by blast
    from cache_key_inj [OF e(1) acct e(2)] v show ?thesis by (simp add: heap)
  qed
  show "fst (getEvaluatedBindingsForChannelAccount cs cfg ch account) = evaluateBindings (listBindings cfg) ch account"
    using hit by (simp add: getEvaluatedBindingsForChannelAccount_def Let_def split: option.splits)
  have upd: "cache_ok heap (cs(cfg_ref cfg := Some c))"
    if "length (ec_byChannelAccount c) \<le> MAX_EVALUATED_BINDINGS_CACHE_KEYS"
      "ec_bindingsRef c = cfg_bindings_ref cfg"
      "\<And>k ev. (k, ev) \<in> set (ec_byChannelAccount c) \<Longrightarrow>
        \<exists>ch a. k = cache_key ch a \<and> tab \<notin> set a \<and> ev = evaluateBindings (heap (cfg_bindings_ref cfg)) ch a" for c
    using ok that by (auto simp: cache_ok_def split: if_splits)
  show "cache_ok heap (snd (getEvaluatedBindingsForChannelAccount cs cfg ch account))"
  proof (cases "map_of (ec_byChannelAccount ?c) ?k")
    case (Some v)
    then show ?thesis using upd [OF cur] by (simp add: getEvaluatedBindingsForChannelAccount_def)
  next
    case None
    let ?ev = "evaluateBindings (listBindings cfg) ch account"
    let ?m = "cache_set ?k ?ev (ec_byChannelAccount ?c)"
    have "length ?m \<le> MAX_EVALUATED_BINDINGS_CACHE_KEYS"
      by (simp add: cache_set_def Let_def MAX_EVALUATED_BINDINGS_CACHE_KEYS_def)
    moreover have "\<exists>ch a. k = cache_key ch a \<and> tab \<notin> set a \<and> ev = evaluateBindings (heap (cfg_bindings_ref cfg)) ch a"
      if "(k, ev) \<in> set ?m" for k ev
    proof -
      from that consider "(k, ev) \<in> set (ec_byChannelAccount ?c)" | "k = ?k" "ev = ?ev"
        by (auto simp: cache_set_def Let_def split: if_splits)
      then show ?thesis using cur(3) acct heap by cases auto
    qed
    ultimately show ?thesis using None upd [of "?c\<lparr>ec_byChannelAccount := ?m\<rparr>"] cur(2)
      by (simp add: getEvaluatedBindingsForChannelAccount_def Let_def)
  qed
qed

section \<open>The first matching tier\<close>

abbreviation route_channel :: "route_input \<Rightarrow> string" where
  "route_channel inp \<equiv> normalizeToken (Some (ri_channel inp))"

abbreviation route_account :: "route_input \<Rightarrow> string" where
  "route_account inp \<equiv> normalizeAccountId (ri_accountId inp)"

text \<open>The route the configuration stands for: what \<open>resolveAgentRoute\<close> gives on an empty cache.\<close>

definition fresh_route :: "agents_config \<Rightarrow> route_input \<Rightarrow> resolved_route" where
  "fresh_route cfg inp = fst (resolveAgentRoute (\<lambda>_. None) cfg inp)"

lemma fresh_route_eq:
  "fresh_route cfg inp =
     route_from cfg inp (evaluateBindings (listBindings cfg) (route_channel inp) (route_account inp))"
proof -
  have "cache_ok (\<lambda>_. listBindings cfg) (\<lambda>_. None)" by (simp add: cache_ok_def)
  from evaluated_from_cache(1) [OF this refl tab_not_id [OF normalizeAccountId_form]]
  show ?thesis by (simp add: fresh_route_def resolveAgentRoute_def split_beta)
qed

text \<open>A configured binding speaks about a message whose peer is \<open>peer\<close>.\<close>

definition route_scope :: "route_input \<Rightarrow> route_peer option \<Rightarrow> binding_scope" where
  "route_scope inp peer =
     \<lparr>bs_peer = peer, bs_guildId = normalizeId (ri_guildId inp), bs_teamId = normalizeId (ri_teamId inp),
      bs_memberRoleIds = (case ri_memberRoleIds inp of None \<Rightarrow> [] | Some rs \<Rightarrow> rs)\<rparr>"

definition binding_applies :: "route_input \<Rightarrow> route_peer option \<Rightarrow> agent_binding \<Rightarrow> bool" where
  "binding_applies inp peer b =
     (matchesChannel (ab_match b) (route_channel inp)
      \<and> matchesAccountId (case ab_match b of None \<Rightarrow> None | Some x \<Rightarrow> bm_accountId x) (route_account inp)
      \<and> matchesBindingScope (normalizeBindingMatch (ab_match b)) (route_scope inp peer))"

abbreviation names_peer :: "agent_binding \<Rightarrow> bool" where
  "names_peer b \<equiv> has_valid_peer (normalizeBindingMatch (ab_match b))"

abbreviation own_peer :: "route_input \<Rightarrow> route_peer option" where
  "own_peer inp \<equiv> map_option normalize_input_peer (ri_peer inp)"

definition parent_peer :: "route_input \<Rightarrow> route_peer option" where
  "parent_peer inp =
     (case map_option normalize_input_peer (ri_parentPeer inp) of
        Some p \<Rightarrow> if rp_id p \<noteq> [] then Some p else None | None \<Rightarrow> None)"

lemma evaluated_mem:
  "e \<in> set (evaluateBindings bs ch acct) \<longleftrightarrow>
     fst e \<in> set bs \<and> matchesChannel (ab_match (fst e)) ch
     \<and> matchesAccountId (case ab_match (fst e) of None \<Rightarrow> None | Some x \<Rightarrow> bm_accountId x) acct
     \<and> snd e = normalizeBindingMatch (ab_match (fst e))"
  by (cases e) (auto simp: evaluateBindings_def split: if_splits)

lemma find_evaluated:
  "find (\<lambda>e. Q (snd e)) (evaluateBindings bs ch acct) =
     map_option (\<lambda>b. (b, normalizeBindingMatch (ab_match b)))
       (find (\<lambda>b. matchesChannel (ab_match b) ch
          \<and> matchesAccountId (case ab_match b of None \<Rightarrow> None | Some x \<Rightarrow> bm_accountId x) acct
          \<and> Q (normalizeBindingMatch (ab_match b))) bs)"
  by (induction bs) (auto simp: evaluateBindings_def)

lemma find_hd: "find P xs = Some b \<Longrightarrow> hd (filter P xs) = b"
  by (induction xs) (auto split: if_splits)

lemma first_match_None:
  "first_match accepts bs ts = None \<longleftrightarrow> (\<forall>t \<in> set ts. rt_enabled t \<longrightarrow> (\<forall>b \<in> set bs. \<not> accepts t b))"
  by (induction ts) (auto simp: find_None_iff dest: find_SomeD split: option.splits)

lemma first_match_Some:
  "first_match accepts bs ts = Some (b, m) \<Longrightarrow>
     \<exists>t \<in> set ts. rt_enabled t \<and> rt_matchedBy t = m \<and> b \<in> set bs \<and> accepts t b"
  by (induction ts) (auto split: if_splits option.splits dest: find_SomeD)

definition input_tiers :: "route_input \<Rightarrow> route_tier list" where
  "input_tiers inp =
     route_tiers (own_peer inp) (map_option normalize_input_peer (ri_parentPeer inp)) (normalizeId (ri_guildId inp))
       (normalizeId (ri_teamId inp)) (case ri_memberRoleIds inp of None \<Rightarrow> [] | Some rs \<Rightarrow> rs)"

definition input_accepts :: "route_input \<Rightarrow> route_tier \<Rightarrow> evaluated_binding \<Rightarrow> bool" where
  "input_accepts inp t e =
     (rt_predicate t (snd e) \<and> matchesBindingScope (snd e) (route_scope inp (rt_scopePeer t)))"

lemma tier_accepts_input:
  "tier_accepts (normalizeId (ri_guildId inp)) (normalizeId (ri_teamId inp))
     (case ri_memberRoleIds inp of None \<Rightarrow> [] | Some rs \<Rightarrow> rs) = input_accepts inp"
  by (intro ext) (simp add: tier_accepts_def input_accepts_def route_scope_def)

text \<open>The route as the first match, with the configuration's bindings.\<close>

definition route_match :: "agents_config \<Rightarrow> route_input \<Rightarrow> (evaluated_binding \<times> matched_by) option" where
  "route_match cfg inp =
     first_match (input_accepts inp) (evaluateBindings (listBindings cfg) (route_channel inp) (route_account inp))
       (input_tiers inp)"

lemma fresh_route_match:
  "fresh_route cfg inp =
     (case route_match cfg inp of
        Some (b, m) \<Rightarrow> choose_route cfg (route_channel inp) (route_account inp) (own_peer inp) (ab_agentId (fst b)) m
      | None \<Rightarrow> choose_route cfg (route_channel inp) (route_account inp) (own_peer inp) (resolveDefaultAgentId cfg)
          MatchedDefault)"
  by (simp add: fresh_route_eq route_from_def Let_def route_match_def input_tiers_def tier_accepts_input)

lemma choose_route_simps [simp]:
  "rr_matchedBy (choose_route cfg ch acct p a m) = m"
  "rr_agentId (choose_route cfg ch acct p a m) = pickFirstExistingAgentId cfg a"
  by (simp_all add: choose_route_def Let_def)

lemma input_tier_not_default: "t \<in> set (input_tiers inp) \<Longrightarrow> rt_matchedBy t \<noteq> MatchedDefault"
  by (auto simp: input_tiers_def route_tiers_def Let_def)

lemma route_match_not_default: "route_match cfg inp = Some (b, m) \<Longrightarrow> m \<noteq> MatchedDefault"
  using first_match_Some input_tier_not_default unfolding route_match_def by blast

lemma fresh_route_default: "rr_matchedBy (fresh_route cfg inp) = MatchedDefault \<longleftrightarrow> route_match cfg inp = None"
  by (auto simp: fresh_route_match dest: route_match_not_default split: option.splits)

lemma input_tier_peer:
  assumes "t \<in> set (input_tiers inp)"
  shows "rt_matchedBy t = BindingPeerParent \<and> rt_scopePeer t = parent_peer inp \<and> rt_predicate t = has_valid_peer
      \<and> rt_enabled t = (parent_peer inp \<noteq> None)
    \<or> rt_matchedBy t \<noteq> BindingPeerParent \<and> rt_scopePeer t = own_peer inp"
  using assms by (auto simp: input_tiers_def route_tiers_def parent_peer_def Let_def)


text \<open>Every binding that applies is accepted by an enabled tier.\<close>

lemma last_tiers:
  "\<lparr>rt_matchedBy = BindingAccount, rt_enabled = True, rt_scopePeer = own_peer inp,
     rt_predicate = (\<lambda>m. nm_accountPattern m \<noteq> ''*'')\<rparr> \<in> set (input_tiers inp)"
  "\<lparr>rt_matchedBy = BindingChannel, rt_enabled = True, rt_scopePeer = own_peer inp,
     rt_predicate = (\<lambda>m. nm_accountPattern m = ''*'')\<rparr> \<in> set (input_tiers inp)"
  by (simp_all add: input_tiers_def route_tiers_def Let_def)

lemma parent_tier:
  "\<lparr>rt_matchedBy = BindingPeerParent, rt_enabled = (parent_peer inp \<noteq> None), rt_scopePeer = parent_peer inp,
     rt_predicate = has_valid_peer\<rparr> \<in> set (input_tiers inp)"
  by (simp add: input_tiers_def route_tiers_def parent_peer_def Let_def)

lemma applies_some_tier:
  assumes "binding_applies inp peer b" and "peer = own_peer inp \<or> peer = parent_peer inp \<and> peer \<noteq> None \<and> names_peer b"
  shows "\<exists>t \<in> set (input_tiers inp). rt_enabled t \<and> input_accepts inp t (b, normalizeBindingMatch (ab_match b))"
proof -
  have "matchesBindingScope (normalizeBindingMatch (ab_match b)) (route_scope inp peer)"
    using assms(1) by (simp add: binding_applies_def)
  with assms(2) show ?thesis
  proof (elim disjE)
    assume "peer = own_peer inp"
    with \<open>matchesBindingScope _ _\<close> show ?thesis
      using last_tiers [of inp]
      by (cases "nm_accountPattern (normalizeBindingMatch (ab_match b)) = ''*''")
        (force simp: input_accepts_def)+
  next
    assume "peer = parent_peer inp \<and> peer \<noteq> None \<and> names_peer b"
    with \<open>matchesBindingScope _ _\<close> show ?thesis
      using parent_tier [of inp] by (force simp: input_accepts_def)
  qed
qed

lemma accepted_applies:
  assumes "t \<in> set (input_tiers inp)" and "input_accepts inp t e"
    and "e \<in> set (evaluateBindings (listBindings cfg) (route_channel inp) (route_account inp))"
  shows "binding_applies inp (rt_scopePeer t) (fst e)"
  using assms by (auto simp: binding_applies_def input_accepts_def evaluated_mem)

lemma route_match_sound:
  assumes "route_match cfg inp = Some (e, m)"
  shows "fst e \<in> set (listBindings cfg)"
    and "binding_applies inp (if m = BindingPeerParent then parent_peer inp else own_peer inp) (fst e)"
    and "m = BindingPeerParent \<Longrightarrow> parent_peer inp \<noteq> None \<and> names_peer (fst e)"
proof -
  from first_match_Some [OF assms [unfolded route_match_def]]
  obtain t where t: "t \<in> set (input_tiers inp)" "rt_enabled t" "rt_matchedBy t = m"
    "e \<in> set (evaluateBindings (listBindings cfg) (route_channel inp) (route_account inp))"
    "input_accepts inp t e" by blast
  show "fst e \<in> set (listBindings cfg)" using t(4) by (simp add: evaluated_mem)
  show "binding_applies inp (if m = BindingPeerParent then parent_peer inp else own_peer inp) (fst e)"
    using accepted_applies [OF t(1,5,4)] input_tier_peer [OF t(1)] t(3) by metis
  show "parent_peer inp \<noteq> None \<and> names_peer (fst e)" if "m = BindingPeerParent"
    using input_tier_peer [OF t(1)] t that by (auto simp: input_accepts_def evaluated_mem)
qed

section \<open>Properties\<close>

text \<open>
  C13: The cache of evaluated bindings never shows. Starting from any sound cache, a route comes
  out as it does on an empty cache, and the cache stays sound and within its bound of 2000 keys.
  The tab that separates channel and account in a cache key cannot occur in a normalised account
  id, so two different pairs never share an entry.
\<close>

theorem route_cache_transparent:
  assumes "cache_ok heap cs" and "heap (cfg_bindings_ref cfg) = listBindings cfg"
  shows "fst (resolveAgentRoute cs cfg inp) = fresh_route cfg inp
    \<and> cache_ok heap (snd (resolveAgentRoute cs cfg inp))"
  using evaluated_from_cache [OF assms tab_not_id [OF normalizeAccountId_form]]
  by (simp add: fresh_route_eq resolveAgentRoute_def split_beta)

text \<open>
  C6: The route is sound and no binding is lost. A route made by a binding is made by a configured
  binding whose channel and account match the message and whose peer, guild, team and role
  constraints all hold for it (for the parent's peer when a thread inherits); the default agent
  answers exactly when no configured binding applies to the message, nor, naming a peer, to the
  parent of its thread.
\<close>

theorem route_sound_complete:
  "(rr_matchedBy (fresh_route cfg inp) \<noteq> MatchedDefault \<longrightarrow>
     (\<exists>b \<in> set (listBindings cfg).
        rr_agentId (fresh_route cfg inp) = pickFirstExistingAgentId cfg (ab_agentId b)
        \<and> binding_applies inp (if rr_matchedBy (fresh_route cfg inp) = BindingPeerParent
             then parent_peer inp else own_peer inp) b))
   \<and> (rr_matchedBy (fresh_route cfg inp) = MatchedDefault \<longleftrightarrow>
        \<not> (\<exists>b \<in> set (listBindings cfg). binding_applies inp (own_peer inp) b
            \<or> (parent_peer inp \<noteq> None \<and> names_peer b \<and> binding_applies inp (parent_peer inp) b)))
   \<and> (rr_matchedBy (fresh_route cfg inp) = MatchedDefault \<longrightarrow>
        rr_agentId (fresh_route cfg inp) = pickFirstExistingAgentId cfg (resolveDefaultAgentId cfg))"
proof (cases "route_match cfg inp")
  case None
  then have none: "\<not> input_accepts inp t e" if "t \<in> set (input_tiers inp)" "rt_enabled t"
    "e \<in> set (evaluateBindings (listBindings cfg) (route_channel inp) (route_account inp))" for t e
    using that by (auto simp: route_match_def first_match_None)
  have "\<not> (binding_applies inp (own_peer inp) b
      \<or> parent_peer inp \<noteq> None \<and> names_peer b \<and> binding_applies inp (parent_peer inp) b)"
    if b: "b \<in> set (listBindings cfg)" for b
  proof
    assume a: "binding_applies inp (own_peer inp) b
      \<or> parent_peer inp \<noteq> None \<and> names_peer b \<and> binding_applies inp (parent_peer inp) b"
    then obtain t where "t \<in> set (input_tiers inp)" "rt_enabled t"
      "input_accepts inp t (b, normalizeBindingMatch (ab_match b))"
      using applies_some_tier by metis
    moreover have "(b, normalizeBindingMatch (ab_match b))
        \<in> set (evaluateBindings (listBindings cfg) (route_channel inp) (route_account inp))"
      using a b by (auto simp: evaluated_mem binding_applies_def)
    ultimately show False using none by blast
  qed
  then have "\<not> (\<exists>b \<in> set (listBindings cfg). binding_applies inp (own_peer inp) b
      \<or> (parent_peer inp \<noteq> None \<and> names_peer b \<and> binding_applies inp (parent_peer inp) b))"
    by blast
  then show ?thesis using None by (simp only: fresh_route_match) simp
next
  case (Some em)
  then obtain e m where em: "route_match cfg inp = Some (e, m)" by (cases em) auto
  note s = route_match_sound [OF em] and nd = route_match_not_default [OF em]
  have r: "rr_matchedBy (fresh_route cfg inp) = m"
    "rr_agentId (fresh_route cfg inp) = pickFirstExistingAgentId cfg (ab_agentId (fst e))"
    by (simp_all add: fresh_route_match em)
  have "\<exists>b \<in> set (listBindings cfg). binding_applies inp (own_peer inp) b
      \<or> (parent_peer inp \<noteq> None \<and> names_peer b \<and> binding_applies inp (parent_peer inp) b)"
    using s by (cases "m = BindingPeerParent") auto
  then show ?thesis using s(1,2) nd unfolding r by blast
qed


text \<open>A small configuration for concrete instances.\<close>

definition sample_binding :: "string \<Rightarrow> string \<Rightarrow> peer_constraint option \<Rightarrow> agent_binding" where
  "sample_binding agent acct peer =
     \<lparr>ab_agentId = agent, ab_match = Some \<lparr>bm_channel = Some ''telegram'', bm_accountId = Some acct,
        bm_peer = peer, bm_guildId = IdOther, bm_teamId = IdOther, bm_roles = None\<rparr>\<rparr>"

definition sample_agents_config :: agents_config where
  "sample_agents_config =
     \<lparr>cfg_ref = 0, cfg_agents = Some [\<lparr>ae_id = Some ''main'', ae_default = True\<rparr>,
        \<lparr>ae_id = Some ''Support'', ae_default = False\<rparr>, \<lparr>ae_id = Some ''sales'', ae_default = False\<rparr>],
      cfg_bindings_ref = 7,
      cfg_bindings = Some [sample_binding ''sales'' ''*'' None,
        sample_binding ''support'' ''*'' (Some \<lparr>pc_kind = Some ''dm'', pc_id = IdNumber 42\<rparr>)],
      cfg_dmScope = Some PerPeer, cfg_identityLinks = None\<rparr>"

definition sample_input :: "int \<Rightarrow> route_input" where
  "sample_input sender =
     \<lparr>ri_channel = ''Telegram'', ri_accountId = None,
      ri_peer = Some \<lparr>ip_kind = ''direct'', ip_id = IdNumber sender\<rparr>, ri_parentPeer = None,
      ri_guildId = IdOther, ri_teamId = IdOther, ri_memberRoleIds = None\<rparr>"

lemma sample_routes:
  "rr_matchedBy (fresh_route sample_agents_config (sample_input 42)) = BindingPeer"
  "rr_matchedBy (fresh_route sample_agents_config (sample_input 43)) = BindingChannel"
  "rr_agentId (fresh_route sample_agents_config (sample_input 42)) = ''support''"
  "rr_agentId (fresh_route sample_agents_config (sample_input 43)) = ''sales''"
  unfolding fresh_route_eq by code_simp+

theorem route_cache_transparent_witness:
  "fst (resolveAgentRoute (snd (resolveAgentRoute (\<lambda>_. None) sample_agents_config (sample_input 42)))
     sample_agents_config (sample_input 43)) = fresh_route sample_agents_config (sample_input 43)"
proof -
  let ?heap = "\<lambda>_. listBindings sample_agents_config" and ?cs = "snd (resolveAgentRoute (\<lambda>_. None) sample_agents_config (sample_input 42))"
  have "cache_ok ?heap (\<lambda>_. None)" by (simp add: cache_ok_def)
  then have "cache_ok ?heap ?cs" using route_cache_transparent [of ?heap "\<lambda>_. None" sample_agents_config] by simp
  then show ?thesis using route_cache_transparent [of ?heap ?cs sample_agents_config] by simp
qed

theorem route_sound_complete_witness:
  "\<exists>b \<in> set (listBindings sample_agents_config).
     pickFirstExistingAgentId sample_agents_config (ab_agentId b) = ''sales'' \<and> binding_applies (sample_input 43)
       (own_peer (sample_input 43)) b"
  using route_sound_complete [of sample_agents_config "sample_input 43"] sample_routes
  by (metis matched_by.distinct)

text \<open>
  The binding that names the peer itself is the most specific one: whenever some configured
  binding names the message's peer and applies, the route is made by the first such binding in
  configuration order, whatever guild, team, account or channel bindings come before it.
\<close>

theorem route_peer_binding_wins:
  "(rr_matchedBy (fresh_route cfg inp) = BindingPeer
     \<longleftrightarrow> (\<exists>b \<in> set (listBindings cfg). own_peer inp \<noteq> None \<and> names_peer b \<and> binding_applies inp (own_peer inp) b))
   \<and> (rr_matchedBy (fresh_route cfg inp) = BindingPeer \<longrightarrow> rr_agentId (fresh_route cfg inp) =
       pickFirstExistingAgentId cfg
         (ab_agentId (hd (filter (\<lambda>b. names_peer b \<and> binding_applies inp (own_peer inp) b) (listBindings cfg)))))"
proof -
  let ?Q = "\<lambda>b. names_peer b \<and> binding_applies inp (own_peer inp) b"
  let ?bs = "evaluateBindings (listBindings cfg) (route_channel inp) (route_account inp)"
  obtain t ts where ts: "input_tiers inp = t # ts" "\<forall>t \<in> set ts. rt_matchedBy t \<noteq> BindingPeer"
    and t: "rt_matchedBy t = BindingPeer" "rt_enabled t = (own_peer inp \<noteq> None)" "rt_scopePeer t = own_peer inp"
      "rt_predicate t = has_valid_peer"
  proof -
    let ?t = "\<lparr>rt_matchedBy = BindingPeer, rt_enabled = (own_peer inp \<noteq> None), rt_scopePeer = own_peer inp,
       rt_predicate = has_valid_peer\<rparr>"
    obtain ts where "input_tiers inp = ?t # ts" "\<forall>t \<in> set ts. rt_matchedBy t \<noteq> BindingPeer"
      by (auto simp: input_tiers_def route_tiers_def Let_def)
    then show ?thesis by (intro that [of ?t ts]) simp_all
  qed
  have "find (input_accepts inp t) ?bs
      = find (\<lambda>e. has_valid_peer (snd e) \<and> matchesBindingScope (snd e) (route_scope inp (own_peer inp))) ?bs"
    by (rule arg_cong [where f = "\<lambda>p. find p _"]) (simp add: input_accepts_def t fun_eq_iff)
  also have "\<dots> = map_option (\<lambda>b. (b, normalizeBindingMatch (ab_match b))) (find ?Q (listBindings cfg))"
    by (subst find_evaluated) (simp add: binding_applies_def conj_ac)
  finally have f: "find (input_accepts inp t) ?bs
      = map_option (\<lambda>b. (b, normalizeBindingMatch (ab_match b))) (find ?Q (listBindings cfg))" .
  have later: "m \<noteq> BindingPeer" if "first_match (input_accepts inp) ?bs ts = Some (e, m)" for e m
    using first_match_Some [OF that] ts(2) by blast
  show ?thesis
  proof (cases "own_peer inp \<noteq> None \<and> find ?Q (listBindings cfg) \<noteq> None")
    case True
    then obtain b where b: "find ?Q (listBindings cfg) = Some b" and p: "own_peer inp \<noteq> None" by blast
    from find_hd [OF b] find_SomeD [OF b]
    have hd: "hd (filter ?Q (listBindings cfg)) = b" and mem: "b \<in> set (listBindings cfg)" "?Q b" by auto
    have "route_match cfg inp = Some ((b, normalizeBindingMatch (ab_match b)), BindingPeer)"
      using f b p t by (simp add: route_match_def ts(1))
    then show ?thesis using hd mem p by (auto simp: fresh_route_match)
  next
    case False
    then have "route_match cfg inp = first_match (input_accepts inp) ?bs ts"
      using f t(2) by (auto simp: route_match_def ts(1) split: option.splits)
    then have "rr_matchedBy (fresh_route cfg inp) \<noteq> BindingPeer"
      using later by (auto simp: fresh_route_match split: option.splits)
    moreover have "\<not> (\<exists>b \<in> set (listBindings cfg). own_peer inp \<noteq> None \<and> ?Q b)"
      using False by (auto simp: find_None_iff)
    ultimately show ?thesis by blast
  qed
qed

theorem route_peer_binding_wins_witness:
  "\<exists>b \<in> set (listBindings sample_agents_config). names_peer b
     \<and> binding_applies (sample_input 42) (own_peer (sample_input 42)) b"
  using route_peer_binding_wins [of sample_agents_config "sample_input 42"] sample_routes(1) by metis

end
