(* ===== verification/AccessPolicy.thy ===== *)
theory AccessPolicy
  imports BigInts
begin

text \<open>
  Who may talk to the assistant and command it: \<open>src/security/dm-policy-shared.ts\<close>,
  \<open>src/channels/allow-from.ts\<close>, \<open>src/channels/command-gating.ts\<close> and
  \<open>normalizeStringEntries\<close> of \<open>src/shared/string-normalization.ts\<close>.

  An entry of an allow list is a text or a number (an integer, printed as \<open>String(n)\<close> prints it). A
  list that is absent or \<open>null\<close> is \<open>None\<close>. The sender test \<open>isSenderAllowed\<close> belongs to the channel
  that asks, so it is an argument. Reading the pairing store is a call outside; its result is the
  argument \<open>stored\<close>, \<open>None\<close> when the call fails.
\<close>

section \<open>Allow lists\<close>

datatype allow_entry = EntryText string | EntryNumber int

definition entry_string :: "allow_entry \<Rightarrow> string" where
  "entry_string e = (case e of EntryText s \<Rightarrow> s | EntryNumber n \<Rightarrow> bigint_string n)"

definition normalizeStringEntries :: "allow_entry list option \<Rightarrow> string list" where
  "normalizeStringEntries l =
     filter (\<lambda>s. s \<noteq> []) (map (\<lambda>e. js_trim (entry_string e)) (case l of None \<Rightarrow> [] | Some xs \<Rightarrow> xs))"

abbreviation texts :: "string list \<Rightarrow> allow_entry list" where
  "texts ss \<equiv> map EntryText ss"

definition mergeDmAllowFromSources ::
  "allow_entry list option \<Rightarrow> allow_entry list option \<Rightarrow> string option \<Rightarrow> string list" where
  "mergeDmAllowFromSources allowFrom storeAllowFrom dmPolicy =
     (let storeEntries = (if dmPolicy = Some ''allowlist'' then []
                          else (case storeAllowFrom of None \<Rightarrow> [] | Some xs \<Rightarrow> xs))
      in filter (\<lambda>s. s \<noteq> []) (map (\<lambda>e. js_trim (entry_string e))
           ((case allowFrom of None \<Rightarrow> [] | Some xs \<Rightarrow> xs) @ storeEntries)))"

definition resolveGroupAllowFromSources ::
  "allow_entry list option \<Rightarrow> allow_entry list option \<Rightarrow> bool option \<Rightarrow> string list" where
  "resolveGroupAllowFromSources allowFrom groupAllowFrom fallbackToAllowFrom =
     (let explicitGroupAllowFrom = (case groupAllowFrom of None \<Rightarrow> None
            | Some xs \<Rightarrow> if xs \<noteq> [] then Some xs else None);
          scoped = (case explicitGroupAllowFrom of Some xs \<Rightarrow> xs
            | None \<Rightarrow> if fallbackToAllowFrom = Some False then []
                      else (case allowFrom of None \<Rightarrow> [] | Some xs \<Rightarrow> xs))
      in filter (\<lambda>s. s \<noteq> []) (map (\<lambda>e. js_trim (entry_string e)) scoped))"

fun firstDefined :: "'a option list \<Rightarrow> 'a option" where
  "firstDefined [] = None"
| "firstDefined (v # vs) = (case v of Some x \<Rightarrow> Some x | None \<Rightarrow> firstDefined vs)"

record allow_set =
  as_entries :: "string list"
  as_hasWildcard :: bool
  as_hasEntries :: bool

definition isSenderIdAllowed :: "allow_set \<Rightarrow> string option \<Rightarrow> bool \<Rightarrow> bool" where
  "isSenderIdAllowed allow senderId allowWhenEmpty =
     (if \<not> as_hasEntries allow then allowWhenEmpty
      else if as_hasWildcard allow then True
      else if opt_str senderId = [] then False
      else opt_str senderId \<in> set (as_entries allow))"

definition resolveEffectiveAllowFromLists ::
  "allow_entry list option \<Rightarrow> allow_entry list option \<Rightarrow> allow_entry list option \<Rightarrow> string option \<Rightarrow> bool option
    \<Rightarrow> string list \<times> string list" where
  "resolveEffectiveAllowFromLists allowFrom groupAllowFrom storeAllowFrom dmPolicy fallback =
     (normalizeStringEntries (Some (texts (mergeDmAllowFromSources allowFrom storeAllowFrom dmPolicy))),
      normalizeStringEntries (Some (texts (resolveGroupAllowFromSources allowFrom groupAllowFrom fallback))))"

text \<open>\<open>await readStore(...).catch(() => [])\<close>\<close>

definition readStoreAllowFromForDmPolicy ::
  "string list option \<Rightarrow> string option \<Rightarrow> bool option \<Rightarrow> string list" where
  "readStoreAllowFromForDmPolicy stored dmPolicy shouldRead =
     (if shouldRead = Some False \<or> dmPolicy = Some ''allowlist'' then []
      else (case stored of None \<Rightarrow> [] | Some xs \<Rightarrow> xs))"

section \<open>The decision\<close>

datatype access_decision = AllowAccess | BlockAccess | PairingAccess

datatype access_reason =
    GROUP_POLICY_ALLOWED | GROUP_POLICY_DISABLED | GROUP_POLICY_EMPTY_ALLOWLIST | GROUP_POLICY_NOT_ALLOWLISTED
  | DM_POLICY_OPEN | DM_POLICY_DISABLED | DM_POLICY_ALLOWLISTED | DM_POLICY_PAIRING_REQUIRED
  | DM_POLICY_NOT_ALLOWLISTED

record access =
  ac_decision :: access_decision
  ac_reasonCode :: access_reason
  ac_reason :: string

definition resolveDmGroupAccessDecision ::
  "bool \<Rightarrow> string option \<Rightarrow> string option \<Rightarrow> allow_entry list \<Rightarrow> allow_entry list \<Rightarrow> (string list \<Rightarrow> bool) \<Rightarrow> access" where
  "resolveDmGroupAccessDecision isGroup dmPolicyRaw groupPolicyRaw allowFrom groupAllowFrom isSenderAllowed =
     (let dmPolicy = (case dmPolicyRaw of None \<Rightarrow> ''pairing'' | Some p \<Rightarrow> p);
          groupPolicy = (case groupPolicyRaw of None \<Rightarrow> ''allowlist'' | Some p \<Rightarrow> p);
          effectiveAllowFrom = normalizeStringEntries (Some allowFrom);
          effectiveGroupAllowFrom = normalizeStringEntries (Some groupAllowFrom)
      in if isGroup then
           (if groupPolicy = ''disabled'' then
              \<lparr>ac_decision = BlockAccess, ac_reasonCode = GROUP_POLICY_DISABLED, ac_reason = ''groupPolicy=disabled''\<rparr>
            else if groupPolicy = ''allowlist'' \<and> effectiveGroupAllowFrom = [] then
              \<lparr>ac_decision = BlockAccess, ac_reasonCode = GROUP_POLICY_EMPTY_ALLOWLIST,
               ac_reason = ''groupPolicy=allowlist (empty allowlist)''\<rparr>
            else if groupPolicy = ''allowlist'' \<and> \<not> isSenderAllowed effectiveGroupAllowFrom then
              \<lparr>ac_decision = BlockAccess, ac_reasonCode = GROUP_POLICY_NOT_ALLOWLISTED,
               ac_reason = ''groupPolicy=allowlist (not allowlisted)''\<rparr>
            else \<lparr>ac_decision = AllowAccess, ac_reasonCode = GROUP_POLICY_ALLOWED,
                  ac_reason = ''groupPolicy='' @ groupPolicy\<rparr>)
         else if dmPolicy = ''disabled'' then
           \<lparr>ac_decision = BlockAccess, ac_reasonCode = DM_POLICY_DISABLED, ac_reason = ''dmPolicy=disabled''\<rparr>
         else if dmPolicy = ''open'' then
           \<lparr>ac_decision = AllowAccess, ac_reasonCode = DM_POLICY_OPEN, ac_reason = ''dmPolicy=open''\<rparr>
         else if isSenderAllowed effectiveAllowFrom then
           \<lparr>ac_decision = AllowAccess, ac_reasonCode = DM_POLICY_ALLOWLISTED,
            ac_reason = ''dmPolicy='' @ dmPolicy @ '' (allowlisted)''\<rparr>
         else if dmPolicy = ''pairing'' then
           \<lparr>ac_decision = PairingAccess, ac_reasonCode = DM_POLICY_PAIRING_REQUIRED,
            ac_reason = ''dmPolicy=pairing (not allowlisted)''\<rparr>
         else \<lparr>ac_decision = BlockAccess, ac_reasonCode = DM_POLICY_NOT_ALLOWLISTED,
               ac_reason = ''dmPolicy='' @ dmPolicy @ '' (not allowlisted)''\<rparr>)"

record access_params =
  ap_isGroup :: bool
  ap_dmPolicy :: "string option"
  ap_groupPolicy :: "string option"
  ap_allowFrom :: "allow_entry list option"
  ap_groupAllowFrom :: "allow_entry list option"
  ap_storeAllowFrom :: "allow_entry list option"
  ap_fallback :: "bool option"

definition resolveDmGroupAccessWithLists ::
  "access_params \<Rightarrow> (string list \<Rightarrow> bool) \<Rightarrow> access \<times> string list \<times> string list" where
  "resolveDmGroupAccessWithLists P isSenderAllowed =
     (let (allow, groupAllow) = resolveEffectiveAllowFromLists (ap_allowFrom P) (ap_groupAllowFrom P)
            (ap_storeAllowFrom P) (ap_dmPolicy P) (ap_fallback P)
      in (resolveDmGroupAccessDecision (ap_isGroup P) (ap_dmPolicy P) (ap_groupPolicy P) (texts allow)
            (texts groupAllow) isSenderAllowed, allow, groupAllow))"

section \<open>Commands\<close>

record authorizer =
  az_configured :: bool
  az_allowed :: bool

datatype gating_mode = ModeAllow | ModeDeny | ModeConfigured

definition resolveCommandAuthorizedFromAuthorizers ::
  "bool \<Rightarrow> authorizer list \<Rightarrow> gating_mode option \<Rightarrow> bool" where
  "resolveCommandAuthorizedFromAuthorizers useAccessGroups authorizers modeRaw =
     (let mode = (case modeRaw of None \<Rightarrow> ModeAllow | Some m \<Rightarrow> m)
      in if \<not> useAccessGroups then
           (if mode = ModeAllow then True
            else if mode = ModeDeny then False
            else if \<not> list_ex az_configured authorizers then True
            else list_ex (\<lambda>a. az_configured a \<and> az_allowed a) authorizers)
         else list_ex (\<lambda>a. az_configured a \<and> az_allowed a) authorizers)"

definition resolveControlCommandGate ::
  "bool \<Rightarrow> authorizer list \<Rightarrow> bool \<Rightarrow> bool \<Rightarrow> gating_mode option \<Rightarrow> bool \<times> bool" where
  "resolveControlCommandGate useAccessGroups authorizers allowTextCommands hasControlCommand mode =
     (let commandAuthorized = resolveCommandAuthorizedFromAuthorizers useAccessGroups authorizers mode
      in (commandAuthorized, allowTextCommands \<and> hasControlCommand \<and> \<not> commandAuthorized))"

record command_params =
  cp_useAccessGroups :: bool
  cp_allowTextCommands :: bool
  cp_hasControlCommand :: bool

record gated_access =
  ga_access :: access
  ga_allowFrom :: "string list"
  ga_groupAllowFrom :: "string list"
  ga_commandAuthorized :: bool
  ga_shouldBlockControlCommand :: bool

definition resolveDmGroupAccessWithCommandGate ::
  "access_params \<Rightarrow> command_params option \<Rightarrow> (string list \<Rightarrow> bool) \<Rightarrow> gated_access" where
  "resolveDmGroupAccessWithCommandGate P command isSenderAllowed =
     (let (access, allow, groupAllow) = resolveDmGroupAccessWithLists P isSenderAllowed;
          configuredAllowFrom = normalizeStringEntries (ap_allowFrom P);
          configuredGroupAllowFrom = normalizeStringEntries (Some (texts (resolveGroupAllowFromSources
            (Some (texts configuredAllowFrom)) (Some (texts (normalizeStringEntries (ap_groupAllowFrom P))))
            (ap_fallback P))));
          commandDmAllowFrom = (if ap_isGroup P then configuredAllowFrom else allow);
          commandGroupAllowFrom = (if ap_isGroup P then configuredGroupAllowFrom else groupAllow);
          ownerAllowedForCommands = isSenderAllowed commandDmAllowFrom;
          groupAllowedForCommands = isSenderAllowed commandGroupAllowFrom;
          (commandAuthorized, shouldBlock) = (case command of None \<Rightarrow> (False, False)
            | Some c \<Rightarrow> resolveControlCommandGate (cp_useAccessGroups c)
                [\<lparr>az_configured = (commandDmAllowFrom \<noteq> []), az_allowed = ownerAllowedForCommands\<rparr>,
                 \<lparr>az_configured = (commandGroupAllowFrom \<noteq> []), az_allowed = groupAllowedForCommands\<rparr>]
                (cp_allowTextCommands c) (cp_hasControlCommand c) None)
      in \<lparr>ga_access = access, ga_allowFrom = allow, ga_groupAllowFrom = groupAllow,
          ga_commandAuthorized = commandAuthorized,
          ga_shouldBlockControlCommand = (ap_isGroup P \<and> shouldBlock)\<rparr>)"

record dm_allow_state =
  da_configAllowFrom :: "string list"
  da_hasWildcard :: bool
  da_allowCount :: nat
  da_isMultiUserDm :: bool

definition resolveDmAllowState ::
  "allow_entry list option \<Rightarrow> (string \<Rightarrow> string) option \<Rightarrow> string list option \<Rightarrow> dm_allow_state" where
  "resolveDmAllowState allowFrom normalizeEntryOpt stored =
     (let configAllowFrom = normalizeStringEntries allowFrom;
          hasWildcard = (''*'' \<in> set configAllowFrom);
          storeAllowFrom = readStoreAllowFromForDmPolicy stored None None;
          normalizeEntry = (case normalizeEntryOpt of None \<Rightarrow> (\<lambda>v. v) | Some f \<Rightarrow> f);
          normalizedCfg = filter (\<lambda>v. v \<noteq> []) (map (\<lambda>v. js_trim (normalizeEntry v))
            (filter (\<lambda>v. v \<noteq> ''*'') configAllowFrom));
          normalizedStore = filter (\<lambda>v. v \<noteq> []) (map (\<lambda>v. js_trim (normalizeEntry v)) storeAllowFrom);
          allowCount = length (remdups (normalizedCfg @ normalizedStore))
      in \<lparr>da_configAllowFrom = configAllowFrom, da_hasWildcard = hasWildcard, da_allowCount = allowCount,
          da_isMultiUserDm = (hasWildcard \<or> allowCount > 1)\<rparr>)"

section \<open>Lists are normalised once\<close>

lemma normalize_texts [simp]: "normalizeStringEntries (Some (texts ss)) = filter (\<lambda>s. s \<noteq> []) (map js_trim ss)"
  by (simp add: normalizeStringEntries_def entry_string_def comp_def)

lemma normalized_entries [simp]:
  "filter (\<lambda>s. s \<noteq> []) (map js_trim (normalizeStringEntries l)) = normalizeStringEntries l"
proof -
  have "js_trim s = s \<and> s \<noteq> []" if "s \<in> set (normalizeStringEntries l)" for s
    using that by (auto simp: normalizeStringEntries_def)
  then show ?thesis by (simp add: map_idI filter_id_conv)
qed

lemma merge_normalized:
  "mergeDmAllowFromSources a s p =
     normalizeStringEntries (Some ((case a of None \<Rightarrow> [] | Some xs \<Rightarrow> xs)
       @ (if p = Some ''allowlist'' then [] else (case s of None \<Rightarrow> [] | Some xs \<Rightarrow> xs))))"
  by (simp add: mergeDmAllowFromSources_def normalizeStringEntries_def Let_def)

lemma group_normalized:
  "resolveGroupAllowFromSources a g f =
     normalizeStringEntries (Some (case g of
        Some (x # xs) \<Rightarrow> x # xs
      | _ \<Rightarrow> if f = Some False then [] else (case a of None \<Rightarrow> [] | Some xs \<Rightarrow> xs)))"
  by (auto simp: resolveGroupAllowFromSources_def normalizeStringEntries_def Let_def split: option.splits list.splits)

lemmas effective_lists = resolveEffectiveAllowFromLists_def merge_normalized group_normalized


abbreviation the_list :: "'a list option \<Rightarrow> 'a list" where
  "the_list l \<equiv> (case l of None \<Rightarrow> [] | Some xs \<Rightarrow> xs)"

text \<open>The lists that count, as the parameters determine them.\<close>

definition dm_list :: "access_params \<Rightarrow> string list" where
  "dm_list P = normalizeStringEntries (Some (the_list (ap_allowFrom P)
     @ (if ap_dmPolicy P = Some ''allowlist'' then [] else the_list (ap_storeAllowFrom P))))"

definition group_list :: "access_params \<Rightarrow> string list" where
  "group_list P = normalizeStringEntries (Some (if the_list (ap_groupAllowFrom P) \<noteq> []
     then the_list (ap_groupAllowFrom P)
     else if ap_fallback P = Some False then [] else the_list (ap_allowFrom P)))"

lemma effective_eq:
  "resolveEffectiveAllowFromLists (ap_allowFrom P) (ap_groupAllowFrom P) (ap_storeAllowFrom P) (ap_dmPolicy P)
     (ap_fallback P) = (dm_list P, group_list P)"
  by (auto simp: effective_lists dm_list_def group_list_def split: option.splits list.splits)

lemma with_lists_eq:
  "resolveDmGroupAccessWithLists P ok =
     (resolveDmGroupAccessDecision (ap_isGroup P) (ap_dmPolicy P) (ap_groupPolicy P) (texts (dm_list P))
        (texts (group_list P)) ok, dm_list P, group_list P)"
  by (simp add: resolveDmGroupAccessWithLists_def effective_eq)

lemma lists_normalized [simp]:
  "filter (\<lambda>s. s \<noteq> []) (map js_trim (dm_list P)) = dm_list P"
  "filter (\<lambda>s. s \<noteq> []) (map js_trim (group_list P)) = group_list P"
  by (simp_all only: dm_list_def group_list_def normalized_entries)

text \<open>The list that authorises group commands.\<close>

definition command_group_list :: "access_params \<Rightarrow> string list" where
  "command_group_list P =
     (if normalizeStringEntries (ap_groupAllowFrom P) \<noteq> [] then normalizeStringEntries (ap_groupAllowFrom P)
      else if ap_fallback P = Some False then [] else normalizeStringEntries (ap_allowFrom P))"

lemma command_group_eq:
  "normalizeStringEntries (Some (texts (resolveGroupAllowFromSources
      (Some (texts (normalizeStringEntries (ap_allowFrom P))))
      (Some (texts (normalizeStringEntries (ap_groupAllowFrom P)))) (ap_fallback P)))) = command_group_list P"
proof -
  have *: "resolveGroupAllowFromSources (Some (texts a)) (Some (texts g)) f
      = filter (\<lambda>s. s \<noteq> []) (map js_trim (if g \<noteq> [] then g else if f = Some False then [] else a))" for a g f
    by (simp add: resolveGroupAllowFromSources_def entry_string_def comp_def)
  show ?thesis
    by (auto simp only: * normalize_texts command_group_list_def normalized_entries filter.simps list.map split: if_split)
qed

text \<open>The gate on the two lists.\<close>

definition command_lists :: "access_params \<Rightarrow> string list \<times> string list" where
  "command_lists P = (if ap_isGroup P then (normalizeStringEntries (ap_allowFrom P), command_group_list P)
     else (dm_list P, group_list P))"

definition authorizes :: "(string list \<Rightarrow> bool) \<Rightarrow> string list \<Rightarrow> bool" where
  "authorizes ok l = (l \<noteq> [] \<and> ok l)"

lemma gate_eq:
  "resolveDmGroupAccessWithCommandGate P command ok =
     (let auth = (case command of None \<Rightarrow> False
            | Some c \<Rightarrow> \<not> cp_useAccessGroups c \<or> authorizes ok (fst (command_lists P))
                \<or> authorizes ok (snd (command_lists P)))
      in \<lparr>ga_access = fst (resolveDmGroupAccessWithLists P ok), ga_allowFrom = dm_list P,
          ga_groupAllowFrom = group_list P, ga_commandAuthorized = auth,
          ga_shouldBlockControlCommand = (ap_isGroup P \<and>
            (case command of None \<Rightarrow> False
             | Some c \<Rightarrow> cp_allowTextCommands c \<and> cp_hasControlCommand c \<and> \<not> auth))\<rparr>)"
proof -
  have lists: "(if ap_isGroup P then normalizeStringEntries (ap_allowFrom P) else dm_list P) = fst (command_lists P)"
    "(if ap_isGroup P then command_group_list P else group_list P) = snd (command_lists P)"
    by (simp_all add: command_lists_def)
  show ?thesis
    unfolding resolveDmGroupAccessWithCommandGate_def with_lists_eq command_group_eq Let_def prod.case lists
    by (cases command)
      (simp_all add: resolveControlCommandGate_def resolveCommandAuthorizedFromAuthorizers_def authorizes_def)
qed

section \<open>Properties\<close>

text \<open>
  The pairing store reaches direct messages only. In a group neither the decision, nor the list
  that decides it, nor the authorisation of a command, nor the blocking of one depends on the
  store; and with the allowlist policy nothing in the result depends on it in a direct chat either.
\<close>

theorem access_store_dm_only:
  fixes other :: "allow_entry list option"
  assumes "ap_isGroup P \<or> ap_dmPolicy P = Some ''allowlist''"
  defines "Q \<equiv> P\<lparr>ap_storeAllowFrom := other\<rparr>"
  shows "ga_access (resolveDmGroupAccessWithCommandGate Q command ok)
      = ga_access (resolveDmGroupAccessWithCommandGate P command ok)
    \<and> ga_groupAllowFrom (resolveDmGroupAccessWithCommandGate Q command ok)
      = ga_groupAllowFrom (resolveDmGroupAccessWithCommandGate P command ok)
    \<and> ga_commandAuthorized (resolveDmGroupAccessWithCommandGate Q command ok)
      = ga_commandAuthorized (resolveDmGroupAccessWithCommandGate P command ok)
    \<and> ga_shouldBlockControlCommand (resolveDmGroupAccessWithCommandGate Q command ok)
      = ga_shouldBlockControlCommand (resolveDmGroupAccessWithCommandGate P command ok)
    \<and> (ap_dmPolicy P = Some ''allowlist'' \<longrightarrow>
        resolveDmGroupAccessWithCommandGate Q command ok = resolveDmGroupAccessWithCommandGate P command ok)"
proof -
  have g: "group_list Q = group_list P" "command_group_list Q = command_group_list P"
    "ap_isGroup Q = ap_isGroup P" "ap_dmPolicy Q = ap_dmPolicy P" "ap_groupPolicy Q = ap_groupPolicy P"
    "ap_allowFrom Q = ap_allowFrom P"
    by (simp_all add: Q_def group_list_def command_group_list_def)
  have d: "dm_list Q = dm_list P" if "ap_dmPolicy P = Some ''allowlist''"
    using that by (simp add: Q_def dm_list_def)
  have lists: "command_lists Q = command_lists P"
    using assms(1) g d by (auto simp: command_lists_def)
  have decision: "fst (resolveDmGroupAccessWithLists Q ok) = fst (resolveDmGroupAccessWithLists P ok)"
    using assms(1) g d by (auto simp: with_lists_eq resolveDmGroupAccessDecision_def Let_def)
  show ?thesis
    unfolding gate_eq Let_def lists decision g using d by simp
qed

definition sample_access :: "bool \<Rightarrow> access_params" where
  "sample_access grp =
     \<lparr>ap_isGroup = grp, ap_dmPolicy = None, ap_groupPolicy = None, ap_allowFrom = Some [EntryText ''owner''],
      ap_groupAllowFrom = Some [EntryNumber 7], ap_storeAllowFrom = Some [EntryText ''paired''], ap_fallback = None\<rparr>"

definition is_sender :: "string \<Rightarrow> string list \<Rightarrow> bool" where
  "is_sender who l = (who \<in> set l)"

definition sample_command :: "command_params option" where
  "sample_command = Some \<lparr>cp_useAccessGroups = True, cp_allowTextCommands = True, cp_hasControlCommand = True\<rparr>"

theorem access_store_dm_only_witness:
  "\<not> ga_commandAuthorized (resolveDmGroupAccessWithCommandGate (sample_access True) sample_command (is_sender ''paired''))
   \<and> ga_commandAuthorized (resolveDmGroupAccessWithCommandGate (sample_access False) sample_command (is_sender ''paired''))"
proof -
  let ?none = "(sample_access True)\<lparr>ap_storeAllowFrom := None\<rparr>"
  have "ap_isGroup (sample_access True) \<or> ap_dmPolicy (sample_access True) = Some ''allowlist''"
    by (simp add: sample_access_def)
  from access_store_dm_only [OF this, where other = None and command = sample_command and ok = "is_sender ''paired''"]
  have "ga_commandAuthorized (resolveDmGroupAccessWithCommandGate (sample_access True) sample_command (is_sender ''paired''))
      = ga_commandAuthorized (resolveDmGroupAccessWithCommandGate ?none sample_command (is_sender ''paired''))" by simp
  also have "\<dots> = False" by code_simp
  finally show ?thesis by simp code_simp
qed

text \<open>
  Who gets in. A group message is allowed exactly when the group policy is not disabled and,
  under the allowlist policy (the default), the group list is not empty and accepts the sender. A
  direct message is allowed exactly when the policy is open, or is not disabled and the direct list
  accepts the sender; a stranger is asked to pair exactly under the pairing policy (the default);
  all else is blocked.
\<close>

theorem access_decision_table:
  "(ac_decision (fst (resolveDmGroupAccessWithLists P ok)) = AllowAccess \<longleftrightarrow>
     (if ap_isGroup P
      then ap_groupPolicy P \<noteq> Some ''disabled''
        \<and> (ap_groupPolicy P \<in> {None, Some ''allowlist''} \<longrightarrow> group_list P \<noteq> [] \<and> ok (group_list P))
      else ap_dmPolicy P = Some ''open'' \<or> ap_dmPolicy P \<noteq> Some ''disabled'' \<and> ok (dm_list P)))
   \<and> (ac_decision (fst (resolveDmGroupAccessWithLists P ok)) = PairingAccess \<longleftrightarrow>
       \<not> ap_isGroup P \<and> ap_dmPolicy P \<in> {None, Some ''pairing''} \<and> \<not> ok (dm_list P))"
  by (auto simp: with_lists_eq resolveDmGroupAccessDecision_def Let_def split: option.splits)

theorem access_decision_table_witness:
  "ac_decision (fst (resolveDmGroupAccessWithLists (sample_access False) (is_sender ''stranger''))) = PairingAccess
   \<and> ac_decision (fst (resolveDmGroupAccessWithLists (sample_access True) (is_sender ''7''))) = AllowAccess"
proof -
  have "dm_list (sample_access False) = [''owner'', ''paired'']" "group_list (sample_access True) = [''7'']"
    by code_simp+
  then show ?thesis
    using access_decision_table [of "sample_access False" "is_sender ''stranger''"]
      access_decision_table [of "sample_access True" "is_sender ''7''"]
    by (simp add: sample_access_def is_sender_def)
qed

text \<open>
  With access groups on, a command is authorised exactly when the sender passes one of the two
  lists that are not empty: no list, no authority. In a group these are the configured lists only.
  A control command is held back exactly in a group, where text commands are allowed and the sender
  is not authorised; without access groups everyone is authorised.
\<close>

theorem command_gate_exact:
  "ga_commandAuthorized (resolveDmGroupAccessWithCommandGate P (Some c) ok) =
     (\<not> cp_useAccessGroups c \<or> authorizes ok (fst (command_lists P)) \<or> authorizes ok (snd (command_lists P)))
   \<and> ga_shouldBlockControlCommand (resolveDmGroupAccessWithCommandGate P (Some c) ok) =
     (ap_isGroup P \<and> cp_allowTextCommands c \<and> cp_hasControlCommand c
       \<and> \<not> ga_commandAuthorized (resolveDmGroupAccessWithCommandGate P (Some c) ok))
   \<and> \<not> ga_commandAuthorized (resolveDmGroupAccessWithCommandGate P None ok)"
  by (simp add: gate_eq Let_def)

theorem command_gate_exact_witness:
  "ga_commandAuthorized (resolveDmGroupAccessWithCommandGate (sample_access True) sample_command (is_sender ''7''))
   \<and> ga_shouldBlockControlCommand
        (resolveDmGroupAccessWithCommandGate (sample_access True) sample_command (is_sender ''paired''))"
proof -
  have l: "command_lists (sample_access True) = ([''owner''], [''7''])" "ap_isGroup (sample_access True)"
    by code_simp+
  show ?thesis
    by (simp only: sample_command_def command_gate_exact l) (simp add: authorizes_def is_sender_def)
qed

text \<open>
  The two group lists differ when every configured group entry is blank: access is then decided on an
  empty list, commands on the direct list.
\<close>

lemma command_group_list_differs:
  assumes "the_list (ap_groupAllowFrom P) \<noteq> []" and "normalizeStringEntries (ap_groupAllowFrom P) = []"
    and "ap_fallback P \<noteq> Some False"
  shows "group_list P = [] \<and> command_group_list P = normalizeStringEntries (ap_allowFrom P)"
  using assms by (cases "ap_groupAllowFrom P") (auto simp: group_list_def command_group_list_def)

end
