(* ===== verification/TaskRegistry.thy ===== *)
theory TaskRegistry
  imports SessionKey BigInts
begin

text \<open>
  The registry of task runs: \<open>src/tasks/task-registry.ts\<close>, \<open>src/tasks/task-registry.types.ts\<close>,
  \<open>src/tasks/task-executor.ts\<close> and \<open>src/tasks/task-owner-access.ts\<close>.

  The store is the list of records, as in the code's in-memory store; the SQLite store behind the
  same operations is not modelled. Unions of string literals stay strings, except the two status
  types, whose values steer the code. Times are integers (milliseconds), the clock is an argument.
  Metadata is a JSON object; a field that is \<open>undefined\<close> is a field that is not there. A patch
  \<open>{...task, ...patch}\<close> is the function that updates the record.
\<close>

section \<open>Records\<close>

datatype task_status =
  TQueued | TRunning | TSucceeded | TFailed | TTimedOut | TCancelled | TLost | TSkipped | TBlocked

fun task_status_str :: "task_status \<Rightarrow> string" where
  "task_status_str TQueued = ''queued''"
| "task_status_str TRunning = ''running''"
| "task_status_str TSucceeded = ''succeeded''"
| "task_status_str TFailed = ''failed''"
| "task_status_str TTimedOut = ''timed_out''"
| "task_status_str TCancelled = ''cancelled''"
| "task_status_str TLost = ''lost''"
| "task_status_str TSkipped = ''skipped''"
| "task_status_str TBlocked = ''blocked''"

datatype step_status =
  StQueued | StRunning | StSucceeded | StFailed | StSkipped | StBlocked | StCancelled | StLost

record task_step =
  ts_id :: string
  ts_label :: "string option"
  ts_status :: step_status
  ts_attempt :: "int option"
  ts_maxAttempts :: "int option"
  ts_startedAt :: "int option"
  ts_endedAt :: "int option"
  ts_updatedAt :: "int option"
  ts_error :: "string option"

record task =
  tk_taskId :: string
  tk_runId :: "string option"
  tk_source :: string
  tk_runtime :: string
  tk_taskKind :: "string option"
  tk_sourceId :: "string option"
  tk_rootTaskId :: "string option"
  tk_parentTaskId :: "string option"
  tk_correlationId :: "string option"
  tk_definitionId :: "string option"
  tk_definitionKind :: "string option"
  tk_workflowRunId :: "string option"
  tk_workflowNodeId :: "string option"
  tk_requesterSessionKey :: "string option"
  tk_ownerKey :: "string option"
  tk_agentId :: "string option"
  tk_sessionKey :: "string option"
  tk_channel :: "string option"
  tk_model :: "string option"
  tk_provider :: "string option"
  tk_task :: string
  tk_status :: task_status
  tk_deliveryStatus :: string
  tk_notifyPolicy :: string
  tk_createdAt :: int
  tk_startedAt :: "int option"
  tk_endedAt :: "int option"
  tk_updatedAt :: "int option"
  tk_progressSummary :: "string option"
  tk_terminalSummary :: "string option"
  tk_error :: "string option"
  tk_scopeKind :: "string option"
  tk_memoryScope :: "string option"
  tk_loadedSkills :: "string list option"
  tk_loadedTools :: "string list option"
  tk_toolCount :: "int option"
  tk_delivery :: "js_object option"
  tk_usage :: "js_object option"
  tk_steps :: "task_step list option"
  tk_metadata :: "js_object option"

text \<open>\<open>a ?? b\<close>\<close>

definition nullish :: "'a option \<Rightarrow> 'a option \<Rightarrow> 'a option" where
  "nullish a b = (case a of None \<Rightarrow> b | Some _ \<Rightarrow> a)"

text \<open>\<open>{...object, [key]: value}\<close> and \<open>{...object, ...patch}\<close> where an \<open>undefined\<close> value removes the field.\<close>

definition put_field :: "string \<times> json option \<Rightarrow> js_object \<Rightarrow> js_object" where
  "put_field kv ob =
     (case kv of (k, None) \<Rightarrow> filter (\<lambda>(k', _). k' \<noteq> k) ob
      | (k, Some v) \<Rightarrow> if k \<in> set (map fst ob) then map (\<lambda>(k', w). (k', if k' = k then v else w)) ob
                       else ob @ [(k, v)])"

definition spread :: "js_object \<Rightarrow> (string \<times> json option) list \<Rightarrow> js_object" where
  "spread ob patch = foldl (\<lambda>o' kv. put_field kv o') ob patch"

definition md :: "js_object option \<Rightarrow> js_object" where
  "md m = (case m of None \<Rightarrow> [] | Some ob \<Rightarrow> ob)"

section \<open>Ids and inherited fields\<close>

definition is_task_id_char :: "char \<Rightarrow> bool" where
  "is_task_id_char c = (is_id_char c \<or> (let n = of_char c :: nat in 65 \<le> n \<and> n \<le> 90) \<or> c = colon)"

text \<open>\<open>s.replace(/[^a-zA-Z0-9:_-]+/g, "-")\<close>\<close>

fun collapse_task :: "bool \<Rightarrow> string \<Rightarrow> string" where
  "collapse_task in_run [] = []"
| "collapse_task in_run (c # cs) =
     (if is_task_id_char c then c # collapse_task False cs
      else if in_run then collapse_task True cs
      else dash # collapse_task True cs)"

definition normalize_id_or :: "string \<Rightarrow> string \<Rightarrow> string" where
  "normalize_id_or input fallback =
     str_or (strip_trailing_dashes (strip_leading_dashes (collapse_task False (js_trim input)))) fallback"

definition normalizeTaskId :: "string \<Rightarrow> string" where
  "normalizeTaskId input = normalize_id_or input ''task''"

definition buildTaskId :: "string option \<Rightarrow> task \<Rightarrow> int \<Rightarrow> string" where
  "buildTaskId taskId t now =
     (case trim_or_undef taskId of Some existing \<Rightarrow> normalizeTaskId existing
      | None \<Rightarrow>
        (case trim_or_undef (tk_runId t) of
           Some runId \<Rightarrow> normalizeTaskId (tk_source t @ '':'' @ runId)
         | None \<Rightarrow>
             let base = (case trim_or_undef (tk_sourceId t) of Some s \<Rightarrow> s
               | None \<Rightarrow> (case trim_or_undef (tk_taskKind t) of Some k \<Rightarrow> k | None \<Rightarrow> tk_runtime t))
             in normalizeTaskId (tk_source t @ '':'' @ base @ '':'' @ bigint_string now)))"

definition resolveOwnerKey :: "task \<Rightarrow> string option" where
  "resolveOwnerKey t =
     (case trim_or_undef (tk_ownerKey t) of Some k \<Rightarrow> Some k
      | None \<Rightarrow> (case trim_or_undef (tk_requesterSessionKey t) of Some k \<Rightarrow> Some k
      | None \<Rightarrow> (case trim_or_undef (tk_sessionKey t) of Some k \<Rightarrow> Some k
      | None \<Rightarrow> map_option (\<lambda>a. ''agent:'' @ a) (trim_or_undef (tk_agentId t)))))"

definition readMetadataString :: "js_object option \<Rightarrow> string \<Rightarrow> string option" where
  "readMetadataString m key = trim_or_undef (opt_string (get_prop (md m) key))"

definition normalizeDefinitionKind :: "json option \<Rightarrow> string option" where
  "normalizeDefinitionKind v =
     (case v of Some (JStr s) \<Rightarrow> if s \<in> set [''task'', ''trigger'', ''workflow'', ''graph''] then Some s else None
      | _ \<Rightarrow> None)"

definition inferDefinitionKind :: "task \<Rightarrow> string option" where
  "inferDefinitionKind t =
     (case normalizeDefinitionKind (get_prop (md (tk_metadata t)) ''definitionKind'') of Some k \<Rightarrow> Some k
      | None \<Rightarrow>
        if tk_taskKind t = Some ''workflow'' then
          (if get_prop (md (tk_metadata t)) ''workflowMode'' = Some (JStr ''graph'')
              \<or> get_prop (md (tk_metadata t)) ''workflowGraphVersion'' = Some (JNum (Fin 2))
           then Some ''graph'' else Some ''workflow'')
        else if tk_source t = ''webhook'' then Some ''trigger''
        else if tk_source t = ''cron'' \<or> tk_taskKind t = Some ''scheduled-task'' then Some ''task''
        else None)"

definition inferDefinitionId :: "task \<Rightarrow> string option" where
  "inferDefinitionId t =
     (case trim_or_undef (tk_definitionId t) of Some d \<Rightarrow> Some d
      | None \<Rightarrow> (case readMetadataString (tk_metadata t) ''workflowDefinitionId'' of Some d \<Rightarrow> Some d
      | None \<Rightarrow> (case readMetadataString (tk_metadata t) ''definitionId'' of Some d \<Rightarrow> Some d
      | None \<Rightarrow> if tk_source t = ''cron'' \<or> tk_source t = ''webhook'' then trim_or_undef (tk_sourceId t) else None)))"

text \<open>\<open>...(x ? {field: x} : {})\<close> after \<open>...input\<close>\<close>

definition if_text :: "string option \<Rightarrow> string option \<Rightarrow> string option" where
  "if_text x old = (if opt_str x \<noteq> [] then x else old)"

definition parent_of :: "task \<Rightarrow> string option" where
  "parent_of t =
     nullish (map_option js_trim (tk_parentTaskId t))
       (nullish (readMetadataString (tk_metadata t) ''parentTaskId'')
         (nullish (readMetadataString (tk_metadata t) ''sourceTaskId'')
           (readMetadataString (tk_metadata t) ''relatedTaskId'')))"

definition root_of :: "task \<Rightarrow> string \<Rightarrow> string option" where
  "root_of t taskId =
     nullish (map_option js_trim (tk_rootTaskId t))
       (nullish (readMetadataString (tk_metadata t) ''rootTaskId'') (nullish (parent_of t) (Some taskId)))"

definition correlation_of :: "task \<Rightarrow> string \<Rightarrow> string option" where
  "correlation_of t taskId =
     nullish (map_option js_trim (tk_correlationId t))
       (nullish (readMetadataString (tk_metadata t) ''correlationId'') (root_of t taskId))"

definition workflow_run_of :: "task \<Rightarrow> string \<Rightarrow> string option" where
  "workflow_run_of t taskId =
     nullish (map_option js_trim (tk_workflowRunId t))
       (nullish (readMetadataString (tk_metadata t) ''workflowRunId'')
         (if tk_taskKind t = Some ''workflow'' then nullish (map_option js_trim (tk_runId t)) (Some taskId) else None))"

definition workflow_node_of :: "task \<Rightarrow> string option" where
  "workflow_node_of t =
     nullish (map_option js_trim (tk_workflowNodeId t))
       (nullish (readMetadataString (tk_metadata t) ''workflowNodeId'')
         (readMetadataString (tk_metadata t) ''blockedNodeId''))"

text \<open>
  The input may lack \<open>taskId\<close>, \<open>createdAt\<close> and \<open>updatedAt\<close>: they are arguments, and those fields of
  \<open>t\<close> are not read.
\<close>

definition normalizeRecord :: "int \<Rightarrow> string option \<Rightarrow> int option \<Rightarrow> int option \<Rightarrow> task \<Rightarrow> task" where
  "normalizeRecord now taskIdIn createdAt updatedAt t =
     (let created = (case createdAt of None \<Rightarrow> now | Some c \<Rightarrow> c);
          taskId = buildTaskId taskIdIn t created
      in t\<lparr>tk_taskId := taskId,
           tk_ownerKey := resolveOwnerKey t,
           tk_rootTaskId := root_of t taskId,
           tk_parentTaskId := if_text (parent_of t) (tk_parentTaskId t),
           tk_correlationId := correlation_of t taskId,
           tk_definitionId := if_text (inferDefinitionId t) (tk_definitionId t),
           tk_definitionKind := (let k = nullish (tk_definitionKind t) (inferDefinitionKind t)
                                 in if_text k (tk_definitionKind t)),
           tk_workflowRunId := if_text (workflow_run_of t taskId) (tk_workflowRunId t),
           tk_workflowNodeId := if_text (workflow_node_of t) (tk_workflowNodeId t),
           tk_scopeKind := Some (case tk_scopeKind t of Some s \<Rightarrow> s
             | None \<Rightarrow> if opt_str (tk_sessionKey t) \<noteq> [] \<or> opt_str (tk_requesterSessionKey t) \<noteq> []
                        then ''session'' else ''agent''),
           tk_createdAt := created,
           tk_updatedAt := Some (case updatedAt of None \<Rightarrow> now | Some u \<Rightarrow> u)\<rparr>)"

section \<open>The store\<close>

definition isTerminalStatus :: "task_status \<Rightarrow> bool" where
  "isTerminalStatus st = (st \<notin> set [TQueued, TRunning])"

definition task_has_key :: "string \<Rightarrow> task \<Rightarrow> bool" where
  "task_has_key key t = (tk_taskId t = key \<or> tk_runId t = Some key)"

text \<open>
  \<open>{...existing, ...record, updatedAt}\<close>. The records that are created come from
  \<open>createRunningTaskRun\<close>, whose literal names every field but these six: they keep the old value.
\<close>

definition over_existing :: "task \<Rightarrow> task \<Rightarrow> int \<Rightarrow> task" where
  "over_existing existing new_rec now =
     new_rec\<lparr>tk_endedAt := tk_endedAt existing, tk_terminalSummary := tk_terminalSummary existing,
       tk_error := tk_error existing, tk_toolCount := tk_toolCount existing, tk_usage := tk_usage existing,
       tk_steps := tk_steps existing, tk_updatedAt := Some now\<rparr>"

definition createTaskRecord ::
  "int \<Rightarrow> string option \<Rightarrow> int option \<Rightarrow> int option \<Rightarrow> task \<Rightarrow> task list \<Rightarrow> task \<times> task list" where
  "createTaskRecord now taskId createdAt updatedAt t tasks =
     (let r = normalizeRecord now taskId createdAt updatedAt t;
          same = (\<lambda>x. tk_taskId x = tk_taskId r \<or> (opt_str (tk_runId r) \<noteq> [] \<and> tk_runId x = tk_runId r))
      in (case find same tasks of
            Some existing \<Rightarrow> (over_existing existing r now, update_first same (\<lambda>x. over_existing x r now) tasks)
          | None \<Rightarrow> (r, tasks @ [r])))"

definition findTaskRecord :: "string \<Rightarrow> task list \<Rightarrow> task option" where
  "findTaskRecord taskIdOrRunId tasks =
     (let key = js_trim taskIdOrRunId in if key = [] then None else find (task_has_key key) tasks)"

definition renormalized :: "int \<Rightarrow> task \<Rightarrow> task" where
  "renormalized now t = normalizeRecord now (Some (tk_taskId t)) (Some (tk_createdAt t)) (Some now) t"

definition updateTaskRecord ::
  "int \<Rightarrow> string \<Rightarrow> (task \<Rightarrow> task option) \<Rightarrow> task list \<Rightarrow> task option \<times> task list" where
  "updateTaskRecord now taskIdOrRunId patch tasks =
     (let key = js_trim taskIdOrRunId
      in if key = [] then (None, tasks)
         else (case find (task_has_key key) tasks of
                 None \<Rightarrow> (None, tasks)
               | Some current \<Rightarrow>
                   (case patch current of
                      None \<Rightarrow> (Some current, tasks)
                    | Some t \<Rightarrow> (Some (renormalized now t),
                                 update_first (task_has_key key) (\<lambda>_. renormalized now t) tasks))))"

definition markTaskTerminal ::
  "int \<Rightarrow> string \<Rightarrow> task_status \<Rightarrow> string option \<Rightarrow> string option \<Rightarrow> string option \<Rightarrow> js_object option
     \<Rightarrow> task list \<Rightarrow> task option \<times> task list" where
  "markTaskTerminal now key st summary err deliveryStatus delivery tasks =
     updateTaskRecord now key (\<lambda>t. Some (t\<lparr>tk_status := st, tk_endedAt := Some now,
        tk_terminalSummary := nullish summary (tk_terminalSummary t),
        tk_error := nullish err (tk_error t),
        tk_deliveryStatus := (case deliveryStatus of Some d \<Rightarrow> d | None \<Rightarrow> tk_deliveryStatus t),
        tk_delivery := nullish delivery (tk_delivery t)\<rparr>)) tasks"

definition updateTaskNotifyPolicy :: "int \<Rightarrow> string \<Rightarrow> string \<Rightarrow> task list \<Rightarrow> task option \<times> task list" where
  "updateTaskNotifyPolicy now key notifyPolicy tasks =
     updateTaskRecord now key (\<lambda>t. Some (t\<lparr>tk_notifyPolicy := notifyPolicy\<rparr>)) tasks"

section \<open>Listing\<close>

datatype status_filter = AnyStatus | ActiveStatus | TerminalStatus | ExactStatus task_status

record task_filter =
  tf_agentId :: "string option"
  tf_sessionKey :: "string option"
  tf_source :: "string option"
  tf_status :: status_filter
  tf_limit :: "int option"
  tf_offset :: "int option"

text \<open>A filter field that is the empty string does not filter.\<close>

definition present_text :: "string option \<Rightarrow> bool" where
  "present_text x = (opt_str x \<noteq> [])"

definition agent_filter_ok :: "task \<Rightarrow> string option \<Rightarrow> bool" where
  "agent_filter_ok t agent =
     (if \<not> present_text agent then True
      else if present_text (tk_agentId t) then tk_agentId t = agent
      else list_ex (\<lambda>k. Some (resolveAgentIdFromSessionKey (Some k)) = agent)
             (filter (\<lambda>k. k \<noteq> []) (map opt_str [tk_requesterSessionKey t, tk_sessionKey t, tk_ownerKey t])))"

definition taskMatchesFilter :: "task \<Rightarrow> task_filter \<Rightarrow> bool" where
  "taskMatchesFilter t f =
     (agent_filter_ok t (tf_agentId f)
      \<and> (present_text (tf_sessionKey f) \<longrightarrow>
           (let k = Some (js_trim (opt_str (tf_sessionKey f)))
            in tk_requesterSessionKey t = k \<or> tk_sessionKey t = k \<or> tk_ownerKey t = k))
      \<and> (present_text (tf_source f) \<and> tf_source f \<noteq> Some ''all'' \<longrightarrow> Some (tk_source t) = tf_source f)
      \<and> (case tf_status f of AnyStatus \<Rightarrow> True
         | ActiveStatus \<Rightarrow> tk_status t = TQueued \<or> tk_status t = TRunning
         | TerminalStatus \<Rightarrow> isTerminalStatus (tk_status t)
         | ExactStatus st \<Rightarrow> tk_status t = st))"

definition sort_time :: "task \<Rightarrow> int" where
  "sort_time t = (case tk_updatedAt t of Some u \<Rightarrow> u | None \<Rightarrow> tk_createdAt t)"

text \<open>\<open>toSorted((a, b) => time(b) - time(a))\<close> is stable.\<close>

definition newest_first :: "task list \<Rightarrow> task list" where
  "newest_first ts = sort_key (\<lambda>t. - sort_time t) ts"

record task_page =
  pg_tasks :: "task list"
  pg_total :: nat
  pg_offset :: int
  pg_limit :: int
  pg_nextOffset :: "int option"
  pg_hasMore :: bool

definition listTaskRecords :: "task_filter \<Rightarrow> task list \<Rightarrow> task_page" where
  "listTaskRecords f tasks =
     (let limit = max 1 (min 1000 (case tf_limit f of None \<Rightarrow> 200 | Some l \<Rightarrow> l));
          offset = max 0 (case tf_offset f of None \<Rightarrow> 0 | Some s \<Rightarrow> s);
          filtered = newest_first (filter (\<lambda>t. taskMatchesFilter t f) tasks);
          page = take (nat limit) (drop (nat offset) filtered);
          next_at = offset + int (length page);
          nextOffset = (if next_at < int (length filtered) then Some next_at else None)
      in \<lparr>pg_tasks = page, pg_total = length filtered, pg_offset = offset, pg_limit = limit,
          pg_nextOffset = nextOffset, pg_hasMore = (nextOffset \<noteq> None)\<rparr>)"

definition listAllTaskRecords :: "task list \<Rightarrow> task list" where
  "listAllTaskRecords tasks = newest_first tasks"

record task_summary =
  sm_total :: nat
  sm_queued :: nat
  sm_running :: nat
  sm_terminal :: nat
  sm_failed :: nat
  sm_lost :: nat
  sm_bySource :: "(string \<times> nat) list"
  sm_byStatus :: "(string \<times> nat) list"

definition bump :: "string \<Rightarrow> (string \<times> nat) list \<Rightarrow> (string \<times> nat) list" where
  "bump k m = (case map_of m k of None \<Rightarrow> m @ [(k, 1)]
     | Some n \<Rightarrow> map (\<lambda>(k', c). (k', if k' = k then n + 1 else c)) m)"

definition count_tasks :: "(task \<Rightarrow> bool) \<Rightarrow> task list \<Rightarrow> nat" where
  "count_tasks p ts = length (filter p ts)"

definition buildTaskListResult :: "task list \<Rightarrow> task_summary" where
  "buildTaskListResult ts =
     \<lparr>sm_total = length ts,
      sm_queued = count_tasks (\<lambda>t. tk_status t = TQueued) ts,
      sm_running = count_tasks (\<lambda>t. tk_status t = TRunning) ts,
      sm_terminal = count_tasks (\<lambda>t. isTerminalStatus (tk_status t)) ts,
      sm_failed = count_tasks (\<lambda>t. tk_status t = TFailed \<or> tk_status t = TTimedOut) ts,
      sm_lost = count_tasks (\<lambda>t. tk_status t = TLost) ts,
      sm_bySource = foldl (\<lambda>m t. bump (tk_source t) m) [] ts,
      sm_byStatus = foldl (\<lambda>m t. bump (task_status_str (tk_status t)) m) [] ts\<rparr>"

end
