(* ===== verification/TaskExecutor.thy ===== *)
theory TaskExecutor
  imports TaskRegistry
begin

text \<open>
  The life of a task run: \<open>src/tasks/task-executor.ts\<close>, and who may see a task:
  \<open>src/tasks/task-owner-access.ts\<close>. Runtimes and sources are the strings of their unions.
\<close>

section \<open>Metadata\<close>

definition compactRecord :: "js_object \<Rightarrow> js_object option" where
  "compactRecord ob = (if ob \<noteq> [] then Some ob else None)"

definition mergeMetadata ::
  "js_object option \<Rightarrow> (string \<times> json option) list option \<Rightarrow> js_object option" where
  "mergeMetadata current patch =
     (if current = None \<and> patch = None then None
      else compactRecord (spread (md current) (case patch of None \<Rightarrow> [] | Some p \<Rightarrow> p)))"

section \<open>Starting a run\<close>

definition sourceForRuntime :: "string \<Rightarrow> string" where
  "sourceForRuntime runtime =
     (if runtime = ''cli'' then ''CLI''
      else if runtime = ''subagent'' \<or> runtime = ''acp'' then ''subagent''
      else if runtime \<in> set [''cron'', ''webhook'', ''channel'', ''media'', ''wallet'', ''marketplace'', ''mining'']
      then runtime else ''CLI'')"

record run_params =
  rp_runtime :: string
  rp_sourceId :: "string option"
  rp_ownerKey :: "string option"
  rp_scopeKind :: "string option"
  rp_channel :: "string option"
  rp_requesterOrigin :: "json option"
  rp_requesterSessionKey :: "string option"
  rp_childSessionKey :: "string option"
  rp_sessionKey :: "string option"
  rp_agentId :: "string option"
  rp_runId :: string
  rp_rootTaskId :: "string option"
  rp_parentTaskId :: "string option"
  rp_correlationId :: "string option"
  rp_definitionId :: "string option"
  rp_definitionKind :: "string option"
  rp_workflowRunId :: "string option"
  rp_workflowNodeId :: "string option"
  rp_label :: "string option"
  rp_task :: string
  rp_deliveryStatus :: "string option"
  rp_notifyPolicy :: "string option"
  rp_startedAt :: "int option"
  rp_lastEventAt :: "int option"
  rp_taskKind :: "string option"
  rp_model :: "string option"
  rp_provider :: "string option"
  rp_loadedSkills :: "string list option"
  rp_loadedTools :: "string list option"
  rp_memoryScope :: "string option"
  rp_delivery :: "js_object option"
  rp_metadata :: "js_object option"

definition or_text :: "'a option \<Rightarrow> 'a \<Rightarrow> 'a" where
  "or_text x d = (case x of None \<Rightarrow> d | Some v \<Rightarrow> v)"

definition run_record :: "int \<Rightarrow> run_params \<Rightarrow> task" where
  "run_record startedAt p =
     (let sessionKey = nullish (rp_sessionKey p) (rp_childSessionKey p);
          requester = nullish (rp_requesterSessionKey p) (rp_ownerKey p);
          owner = nullish (rp_ownerKey p) (nullish requester sessionKey)
      in \<lparr>tk_taskId = sourceForRuntime (rp_runtime p) @ '':'' @ rp_runId p,
          tk_runId = Some (rp_runId p), tk_source = sourceForRuntime (rp_runtime p), tk_runtime = rp_runtime p,
          tk_taskKind = Some (or_text (rp_taskKind p)
            (if rp_runtime p = ''acp'' then ''acp-spawn'' else rp_runtime p)),
          tk_sourceId = rp_sourceId p, tk_rootTaskId = rp_rootTaskId p, tk_parentTaskId = rp_parentTaskId p,
          tk_correlationId = rp_correlationId p, tk_definitionId = rp_definitionId p,
          tk_definitionKind = rp_definitionKind p, tk_workflowRunId = rp_workflowRunId p,
          tk_workflowNodeId = rp_workflowNodeId p, tk_requesterSessionKey = requester, tk_ownerKey = owner,
          tk_agentId = nullish (rp_agentId p)
            (if opt_str owner \<noteq> [] then Some (resolveAgentIdFromSessionKey owner) else None),
          tk_sessionKey = sessionKey, tk_channel = rp_channel p, tk_model = rp_model p,
          tk_provider = rp_provider p,
          tk_task = or_text (trim_or_undef (rp_label p)) (rp_task p), tk_status = TRunning,
          tk_deliveryStatus = or_text (rp_deliveryStatus p) ''pending'',
          tk_notifyPolicy = or_text (rp_notifyPolicy p)
            (if rp_deliveryStatus p = Some ''not_applicable'' then ''silent'' else ''done_only''),
          tk_createdAt = startedAt, tk_startedAt = Some startedAt, tk_endedAt = None,
          tk_updatedAt = Some (or_text (rp_lastEventAt p) startedAt),
          tk_progressSummary = Some ''Running'', tk_terminalSummary = None, tk_error = None,
          tk_scopeKind = Some (or_text (rp_scopeKind p)
            (if opt_str sessionKey \<noteq> [] \<or> opt_str requester \<noteq> [] then ''session'' else ''system'')),
          tk_memoryScope = rp_memoryScope p, tk_loadedSkills = rp_loadedSkills p,
          tk_loadedTools = rp_loadedTools p, tk_toolCount = None, tk_delivery = rp_delivery p,
          tk_usage = None, tk_steps = None,
          tk_metadata = mergeMetadata (rp_metadata p)
            (Some [(''requesterOrigin'', rp_requesterOrigin p),
                   (''childSessionKey'', map_option JStr (rp_childSessionKey p))])\<rparr>)"

definition createRunningTaskRun :: "int \<Rightarrow> run_params \<Rightarrow> task list \<Rightarrow> task \<times> task list" where
  "createRunningTaskRun now p tasks =
     (let startedAt = or_text (rp_startedAt p) now; t = run_record startedAt p
      in createTaskRecord now (Some (tk_taskId t)) (Some startedAt) (tk_updatedAt t) t tasks)"

section \<open>Events of a run\<close>

record usage_params =
  us_input :: "json option"
  us_output :: "json option"
  us_cacheRead :: "json option"
  us_cacheWrite :: "json option"
  us_total :: "json option"

record accounting_params =
  ac_model :: "string option"
  ac_provider :: "string option"
  ac_usage :: "usage_params option"
  ac_loadedSkills :: "string list option"
  ac_loadedTools :: "string list option"
  ac_memoryScope :: "string option"
  ac_toolCount :: "int option"
  ac_deliveryStatus :: "string option"
  ac_delivery :: "js_object option"
  ac_metadata :: "(string \<times> json option) list option"

definition usage_summary :: "usage_params \<Rightarrow> js_object" where
  "usage_summary u = json_field ''inputTokens'' (us_input u) @ json_field ''outputTokens'' (us_output u)
     @ json_field ''cacheReadTokens'' (us_cacheRead u) @ json_field ''cacheWriteTokens'' (us_cacheWrite u)
     @ json_field ''totalTokens'' (us_total u)"

definition recordTaskRunAccountingByRunId ::
  "int \<Rightarrow> string \<Rightarrow> accounting_params \<Rightarrow> task list \<Rightarrow> task option \<times> task list" where
  "recordTaskRunAccountingByRunId now runId p tasks =
     updateTaskRecord now runId (\<lambda>t. Some (t\<lparr>
       tk_model := nullish (ac_model p) (tk_model t),
       tk_provider := nullish (ac_provider p) (tk_provider t),
       tk_loadedSkills := nullish (ac_loadedSkills p) (tk_loadedSkills t),
       tk_loadedTools := nullish (ac_loadedTools p) (tk_loadedTools t),
       tk_memoryScope := nullish (ac_memoryScope p) (tk_memoryScope t),
       tk_toolCount := nullish (ac_toolCount p) (tk_toolCount t),
       tk_deliveryStatus := or_text (ac_deliveryStatus p) (tk_deliveryStatus t),
       tk_delivery := nullish (ac_delivery p) (tk_delivery t),
       tk_usage := (case ac_usage p of Some u \<Rightarrow> Some (usage_summary u) | None \<Rightarrow> tk_usage t),
       tk_metadata := mergeMetadata (tk_metadata t) (ac_metadata p)\<rparr>)) tasks"

record progress_params =
  pp_runtime :: "string option"
  pp_sessionKey :: "string option"
  pp_agentId :: "string option"
  pp_sourceId :: "string option"
  pp_channel :: "string option"
  pp_deliveryStatus :: "string option"
  pp_delivery :: "js_object option"
  pp_lastEventAt :: "int option"
  pp_eventSummary :: "string option"
  pp_metadata :: "(string \<times> json option) list option"

definition recordTaskRunProgressByRunId ::
  "int \<Rightarrow> string \<Rightarrow> progress_params \<Rightarrow> task list \<Rightarrow> task option \<times> task list" where
  "recordTaskRunProgressByRunId now runId p tasks =
     updateTaskRecord now runId (\<lambda>t. Some (t\<lparr>
       tk_runtime := or_text (pp_runtime p) (tk_runtime t),
       tk_sessionKey := nullish (pp_sessionKey p) (tk_sessionKey t),
       tk_agentId := nullish (pp_agentId p) (tk_agentId t),
       tk_sourceId := nullish (pp_sourceId p) (tk_sourceId t),
       tk_channel := nullish (pp_channel p) (tk_channel t),
       tk_deliveryStatus := or_text (pp_deliveryStatus p) (tk_deliveryStatus t),
       tk_delivery := nullish (pp_delivery p) (tk_delivery t),
       tk_status := (if tk_status t = TQueued then TRunning else tk_status t),
       tk_progressSummary := nullish (pp_eventSummary p) (tk_progressSummary t),
       tk_metadata := mergeMetadata (tk_metadata t) (pp_metadata p),
       tk_updatedAt := Some (or_text (pp_lastEventAt p) now)\<rparr>)) tasks"

definition completeTaskRunByRunId ::
  "int \<Rightarrow> string \<Rightarrow> string option \<Rightarrow> string option \<Rightarrow> js_object option \<Rightarrow> task list \<Rightarrow> task option \<times> task list" where
  "completeTaskRunByRunId now runId summary deliveryStatus delivery tasks =
     markTaskTerminal now runId TSucceeded summary None (Some (or_text deliveryStatus ''delivered'')) delivery tasks"

text \<open>A status that is missing, or is \<open>queued\<close> or \<open>running\<close> against its type, is \<open>failed\<close>.\<close>

definition normalizeTerminalStatus :: "task_status option \<Rightarrow> task_status" where
  "normalizeTerminalStatus st =
     (case st of None \<Rightarrow> TFailed | Some s \<Rightarrow> if isTerminalStatus s then s else TFailed)"

definition failTaskRunByRunId ::
  "int \<Rightarrow> string \<Rightarrow> task_status option \<Rightarrow> string option \<Rightarrow> string option \<Rightarrow> string option \<Rightarrow> js_object option
     \<Rightarrow> task list \<Rightarrow> task option \<times> task list" where
  "failTaskRunByRunId now runId st summary err deliveryStatus delivery tasks =
     markTaskTerminal now runId (normalizeTerminalStatus st) summary err
       (Some (or_text deliveryStatus ''not_delivered'')) delivery tasks"

definition setDetachedTaskDeliveryStatusByRunId ::
  "int \<Rightarrow> string \<Rightarrow> string \<Rightarrow> js_object option \<Rightarrow> task list \<Rightarrow> task option \<times> task list" where
  "setDetachedTaskDeliveryStatusByRunId now runId deliveryStatus delivery tasks =
     updateTaskRecord now runId (\<lambda>t. Some (t\<lparr>tk_deliveryStatus := deliveryStatus,
       tk_delivery := nullish delivery (tk_delivery t)\<rparr>)) tasks"

section \<open>Who may see a task\<close>

text \<open>\<open>listTaskRecords({ limit: 1_000 })\<close>\<close>

definition first_thousand :: task_filter where
  "first_thousand = \<lparr>tf_agentId = None, tf_sessionKey = None, tf_source = None, tf_status = AnyStatus,
     tf_limit = Some 1000, tf_offset = None\<rparr>"

definition listTasksForRelatedSessionKeyForOwner :: "string \<Rightarrow> string \<Rightarrow> task list \<Rightarrow> task list" where
  "listTasksForRelatedSessionKeyForOwner relatedSessionKey callerOwnerKey tasks =
     (let related = js_trim relatedSessionKey; owner = js_trim callerOwnerKey
      in if related = [] \<or> owner = [] then []
         else if resolveAgentIdFromSessionKey (Some owner) \<noteq> resolveAgentIdFromSessionKey (Some related)
                 \<and> owner \<noteq> related then []
         else filter (\<lambda>t. tk_requesterSessionKey t = Some related \<or> tk_sessionKey t = Some related
                \<or> tk_ownerKey t = Some related \<or> tk_ownerKey t = Some owner)
              (pg_tasks (listTaskRecords first_thousand tasks)))"

text \<open>\<open>const [, agentId] = raw.split(":")\<close> on a text that begins with \<open>agent:\<close>.\<close>

definition resolveAgentIdFromOwnerKey :: "string option \<Rightarrow> string option" where
  "resolveAgentIdFromOwnerKey ownerKey =
     (case trim_or_undef ownerKey of None \<Rightarrow> None
      | Some raw \<Rightarrow>
          if js_starts_with (js_lower raw) ''agent:''
          then Some (normalizeAgentId (Some (case split_colon raw of _ # a # _ \<Rightarrow> a | _ \<Rightarrow> [])))
          else Some (resolveAgentIdFromSessionKey (Some raw)))"

definition key_agent :: "string option \<Rightarrow> string option" where
  "key_agent k = (if opt_str k \<noteq> [] then Some (resolveAgentIdFromSessionKey k) else None)"

definition first_text :: "string option \<Rightarrow> string option \<Rightarrow> string option" where
  "first_text a b = (if opt_str a \<noteq> [] then a else b)"

definition resolveTaskRecordAgentId :: "task \<Rightarrow> string option" where
  "resolveTaskRecordAgentId t =
     first_text (trim_or_undef (tk_agentId t))
       (first_text (key_agent (tk_sessionKey t))
         (first_text (key_agent (tk_requesterSessionKey t)) (resolveAgentIdFromOwnerKey (tk_ownerKey t))))"

definition taskRecordBelongsToAgent :: "task \<Rightarrow> string option \<Rightarrow> bool" where
  "taskRecordBelongsToAgent t agent =
     (let selected = normalizeAgentId agent
      in if js_trim (opt_str agent) = [] then True else resolveTaskRecordAgentId t = Some selected)"

end
