(* ===== verification/TaskFlow.thy ===== *)
theory TaskFlow
  imports TaskExecutor
begin

text \<open>
  Flows, the records that follow a task across its runs: \<open>src/tasks/task-flow-registry.ts\<close>. The store
  is the list of the code's in-memory store; the definition ledger behind the same operations is not
  modelled. \<open>waiting\<close> is the one flow status that is no task status.
\<close>

section \<open>Records\<close>

datatype flow_status = OfTask task_status | Waiting

record flow =
  fl_flowId :: string
  fl_syncMode :: string
  fl_revision :: int
  fl_status :: flow_status
  fl_goal :: string
  fl_notifyPolicy :: string
  fl_ownerKey :: "string option"
  fl_agentId :: "string option"
  fl_sessionKey :: "string option"
  fl_definitionId :: "string option"
  fl_sourceId :: "string option"
  fl_taskIds :: "string list"
  fl_currentTaskId :: "string option"
  fl_currentStep :: "string option"
  fl_blockedTaskId :: "string option"
  fl_blockedSummary :: "string option"
  fl_cancelRequestedAt :: "int option"
  fl_createdAt :: int
  fl_updatedAt :: int
  fl_endedAt :: "int option"
  fl_metadata :: "js_object option"

section \<open>From a task to its flow\<close>

definition normalizeFlowId :: "string \<Rightarrow> string" where
  "normalizeFlowId input = normalize_id_or input ''flow''"

definition taskFlowIdForTask :: "task \<Rightarrow> string" where
  "taskFlowIdForTask t =
     (let base = or_text (trim_or_undef (tk_runId t)) (tk_taskId t);
          kind = (if tk_taskKind t = Some ''workflow'' then ''workflow'' else js_lower (tk_source t))
      in normalizeFlowId (''flow:'' @ kind @ '':'' @ base))"

definition metadataString :: "task \<Rightarrow> string \<Rightarrow> string option" where
  "metadataString t key = readMetadataString (tk_metadata t) key"

definition metadataRecord :: "task \<Rightarrow> string \<Rightarrow> js_object option" where
  "metadataRecord t key = as_record (get_prop (md (tk_metadata t)) key)"

definition text_entry :: "string \<Rightarrow> string option \<Rightarrow> (string \<times> json option) list" where
  "text_entry k v = (if opt_str v \<noteq> [] then [(k, map_option JStr v)] else [])"

definition sourceTaskMetadataFromTask :: "task \<Rightarrow> (string \<times> json option) list" where
  "sourceTaskMetadataFromTask t =
     (case metadataRecord t ''sourceTask'' of None \<Rightarrow> [] | Some ob \<Rightarrow> [(''sourceTask'', Some (JObj ob))])
     @ concat (map (\<lambda>k. text_entry k (metadataString t k))
         [''sourceTaskId'', ''sourceTaskRunId'', ''sourceTaskSource'', ''sourceTaskRuntime'', ''sourceTaskKind''])
     @ text_entry ''rootTaskId'' (tk_rootTaskId t) @ text_entry ''parentTaskId'' (tk_parentTaskId t)
     @ text_entry ''correlationId'' (tk_correlationId t) @ text_entry ''taskDefinitionId'' (tk_definitionId t)
     @ text_entry ''taskDefinitionKind'' (tk_definitionKind t) @ text_entry ''workflowRunId'' (tk_workflowRunId t)
     @ text_entry ''workflowNodeId'' (tk_workflowNodeId t)"

definition isTerminalFlowStatus :: "flow_status \<Rightarrow> bool" where
  "isTerminalFlowStatus st =
     (st \<in> OfTask ` set [TSucceeded, TFailed, TTimedOut, TCancelled, TLost, TSkipped, TBlocked])"

definition statusFromTask :: "task \<Rightarrow> flow_status" where
  "statusFromTask t = OfTask (tk_status t)"

definition step_name :: "task_step \<Rightarrow> string" where
  "step_name s = or_text (ts_label s) (ts_id s)"

definition steps_of :: "task \<Rightarrow> task_step list" where
  "steps_of t = (case tk_steps t of None \<Rightarrow> [] | Some ss \<Rightarrow> ss)"

definition currentStepFromTask :: "task \<Rightarrow> string option" where
  "currentStepFromTask t =
     (let first = (\<lambda>st. find (\<lambda>s. ts_status s = st) (steps_of t))
      in (case first StBlocked of Some s \<Rightarrow> Some (step_name s)
          | None \<Rightarrow> (case first StRunning of Some s \<Rightarrow> Some (step_name s)
          | None \<Rightarrow>
            if first StQueued \<noteq> None \<and> tk_status t \<noteq> TSucceeded then map_option step_name (first StQueued)
            else map_option step_name (find (\<lambda>s. ts_status s = StSucceeded) (rev (steps_of t))))))"

definition taskAgentId :: "task \<Rightarrow> string option" where
  "taskAgentId t =
     nullish (tk_agentId t) (nullish (key_agent (tk_sessionKey t))
       (nullish (key_agent (tk_requesterSessionKey t)) (key_agent (tk_ownerKey t))))"

definition shouldCreateFlowForTask :: "task \<Rightarrow> bool" where
  "shouldCreateFlowForTask t =
     (tk_taskKind t = Some ''workflow'' \<or> is_string (get_prop (md (tk_metadata t)) ''flowId'')
      \<or> is_string (get_prop (md (tk_metadata t)) ''workflowDefinitionId''))"

definition flow_definition_id :: "string option \<Rightarrow> task \<Rightarrow> string option" where
  "flow_definition_id definitionId t =
     nullish definitionId (nullish (tk_definitionId t)
       (nullish (metadataString t ''workflowDefinitionId'')
         (nullish (metadataString t ''definitionId'')
           (if opt_str (tk_sourceId t) \<noteq> [] \<and> tk_taskKind t = Some ''workflow'' then tk_sourceId t else None))))"

text \<open>\<open>Array.from(new Set([...ids, id]))\<close>\<close>

definition with_id :: "string \<Rightarrow> string list \<Rightarrow> string list" where
  "with_id i ids = (let ds = rev (remdups (rev ids)) in if i \<in> set ds then ds else ds @ [i])"

definition flow_metadata ::
  "flow option \<Rightarrow> js_object \<Rightarrow> string option \<Rightarrow> task \<Rightarrow> js_object" where
  "flow_metadata existing extra definitionId t =
     spread (spread (case existing of None \<Rightarrow> [] | Some f \<Rightarrow> md (fl_metadata f)) (map (\<lambda>(k, v). (k, Some v)) extra))
       ([(''runId'', map_option JStr (tk_runId t)), (''rootTaskId'', map_option JStr (tk_rootTaskId t)),
         (''parentTaskId'', map_option JStr (tk_parentTaskId t)),
         (''correlationId'', map_option JStr (tk_correlationId t)),
         (''definitionId'', map_option JStr definitionId),
         (''definitionKind'', map_option JStr (tk_definitionKind t)),
         (''workflowRunId'', map_option JStr (tk_workflowRunId t)),
         (''workflowNodeId'', map_option JStr (tk_workflowNodeId t)),
         (''taskKind'', map_option JStr (tk_taskKind t)), (''source'', Some (JStr (tk_source t))),
         (''runtime'', Some (JStr (tk_runtime t))),
         (''stepCount'', (case tk_steps t of Some ss \<Rightarrow> Some (JNum (Fin (of_nat (length ss))))
            | None \<Rightarrow> get_prop (md (tk_metadata t)) ''stepCount'')),
         (''approvalGates'', get_prop (md (tk_metadata t)) ''approvalGates'')]
        @ sourceTaskMetadataFromTask t)"

definition flow_from_task ::
  "int \<Rightarrow> task \<Rightarrow> string \<Rightarrow> string option \<Rightarrow> js_object \<Rightarrow> flow option \<Rightarrow> flow" where
  "flow_from_task now t flowId definitionId extra existing =
     \<lparr>fl_flowId = flowId,
      fl_syncMode = (if tk_taskKind t = Some ''workflow'' then ''workflow'' else ''task_mirrored''),
      fl_revision = (case existing of Some f \<Rightarrow> fl_revision f + 1 | None \<Rightarrow> 0),
      fl_status = statusFromTask t, fl_goal = tk_task t, fl_notifyPolicy = tk_notifyPolicy t,
      fl_ownerKey = tk_ownerKey t, fl_agentId = taskAgentId t, fl_sessionKey = tk_sessionKey t,
      fl_definitionId = definitionId, fl_sourceId = tk_sourceId t,
      fl_taskIds = with_id (tk_taskId t) (case existing of None \<Rightarrow> [] | Some f \<Rightarrow> fl_taskIds f),
      fl_currentTaskId = Some (tk_taskId t), fl_currentStep = currentStepFromTask t,
      fl_blockedTaskId = (if tk_status t = TBlocked then Some (tk_taskId t) else None),
      fl_blockedSummary = (if tk_status t = TBlocked
        then nullish (tk_terminalSummary t) (nullish (tk_error t)
               (nullish (tk_progressSummary t) (Some ''Workflow is blocked.''))) else None),
      fl_cancelRequestedAt = (case existing of None \<Rightarrow> None | Some f \<Rightarrow> fl_cancelRequestedAt f),
      fl_createdAt = (case existing of None \<Rightarrow> tk_createdAt t | Some f \<Rightarrow> fl_createdAt f),
      fl_updatedAt = or_text (tk_updatedAt t) now,
      fl_endedAt = (if isTerminalFlowStatus (statusFromTask t)
        then Some (or_text (tk_endedAt t) (or_text (tk_updatedAt t) now)) else None),
      fl_metadata = Some (flow_metadata existing extra definitionId t)\<rparr>"

definition upsertTaskFlowFromTask ::
  "int \<Rightarrow> task \<Rightarrow> string option \<Rightarrow> string option \<Rightarrow> js_object \<Rightarrow> flow list \<Rightarrow> flow option \<times> flow list" where
  "upsertTaskFlowFromTask now t optFlowId optDefinitionId extra flows =
     (if \<not> shouldCreateFlowForTask t \<and> opt_str optFlowId = [] then (None, flows)
      else let flowId = normalizeFlowId (or_text (nullish optFlowId (metadataString t ''flowId'')) (taskFlowIdForTask t));
               definitionId = flow_definition_id optDefinitionId t;
               existing = find (\<lambda>f. fl_flowId f = flowId) flows;
               new_flow = flow_from_task now t flowId definitionId extra existing
           in (Some new_flow,
               (if existing \<noteq> None then update_first (\<lambda>f. fl_flowId f = flowId) (\<lambda>_. new_flow) flows
                else flows @ [new_flow])))"

section \<open>Looking up, cancelling and maintaining\<close>

definition getTaskFlowById :: "string \<Rightarrow> flow list \<Rightarrow> flow option" where
  "getTaskFlowById flowId flows =
     (let key = js_trim flowId in if key = [] then None else find (\<lambda>f. fl_flowId f = key) flows)"

datatype flow_filter_status = AnyFlow | ActiveFlow | TerminalFlow | ExactFlow flow_status

definition activeFlowForMaintenance :: "flow \<Rightarrow> bool" where
  "activeFlowForMaintenance f = (fl_status f = OfTask TQueued \<or> fl_status f = OfTask TRunning \<or> fl_status f = Waiting)"

definition taskFlowMatchesFilter :: "flow \<Rightarrow> string option \<Rightarrow> flow_filter_status \<Rightarrow> bool" where
  "taskFlowMatchesFilter f agent st =
     ((present_text agent \<longrightarrow> fl_agentId f = agent)
      \<and> (case st of AnyFlow \<Rightarrow> True | ActiveFlow \<Rightarrow> activeFlowForMaintenance f
         | TerminalFlow \<Rightarrow> isTerminalFlowStatus (fl_status f) | ExactFlow s \<Rightarrow> fl_status f = s))"

definition listTaskFlows :: "string option \<Rightarrow> flow_filter_status \<Rightarrow> int option \<Rightarrow> flow list \<Rightarrow> flow list" where
  "listTaskFlows agent st limit flows =
     take (nat (max 1 (min 500 (or_text limit 100))))
       (sort_key (\<lambda>f. - fl_updatedAt f) (filter (\<lambda>f. taskFlowMatchesFilter f agent st) flows))"

text \<open>The loop over the tasks of the flow: those that have not ended are marked as cancelled.\<close>

definition cancel_task :: "int \<Rightarrow> string option \<Rightarrow> string \<Rightarrow> task list \<Rightarrow> task list" where
  "cancel_task now reason taskId tasks =
     (case findTaskRecord taskId tasks of
        None \<Rightarrow> tasks
      | Some t \<Rightarrow>
          if isTerminalFlowStatus (OfTask (tk_status t)) then tasks
          else (case markTaskTerminal now (tk_taskId t) TCancelled
                       (Some (or_text reason ''Cancelled from workflow run.'')) None None None tasks of
                  (None, tasks') \<Rightarrow> tasks'
                | (Some updated, tasks') \<Rightarrow>
                    snd (updateTaskRecord now (tk_taskId updated) (\<lambda>latest. Some (latest\<lparr>tk_metadata :=
                      Some (spread (md (tk_metadata latest))
                        [(''flowCancelRequestedAt'', Some (JNum (Fin (of_int now)))),
                         (''flowCancelReason'', map_option JStr reason)])\<rparr>)) tasks')))"

definition cancelled_flow :: "int \<Rightarrow> string option \<Rightarrow> flow \<Rightarrow> flow" where
  "cancelled_flow now reason f =
     f\<lparr>fl_revision := fl_revision f + 1, fl_status := OfTask TCancelled,
       fl_cancelRequestedAt := Some (or_text (fl_cancelRequestedAt f) now),
       fl_endedAt := Some now, fl_updatedAt := now, fl_blockedTaskId := None, fl_blockedSummary := None,
       fl_metadata := Some (spread (md (fl_metadata f)) [(''cancelReason'', map_option JStr reason)])\<rparr>"

definition cancelTaskFlow ::
  "int \<Rightarrow> string \<Rightarrow> string option \<Rightarrow> task list \<times> flow list \<Rightarrow> flow option \<times> task list \<times> flow list" where
  "cancelTaskFlow now flowId reason st =
     (let key = js_trim flowId
      in if key = [] then (None, st)
         else (case getTaskFlowById key (snd st) of
                 None \<Rightarrow> (None, st)
               | Some current \<Rightarrow>
                   let tasks = fold (cancel_task now reason) (fl_taskIds current) (fst st)
                   in (Some (cancelled_flow now reason current),
                       tasks, update_first (\<lambda>f. fl_flowId f = key) (cancelled_flow now reason) (snd st))))"

definition flowAgeMs :: "flow \<Rightarrow> int \<Rightarrow> int" where
  "flowAgeMs f now = now - fl_updatedAt f"

definition stale :: "int \<Rightarrow> int \<Rightarrow> flow \<Rightarrow> bool" where
  "stale now staleFlowMs f = (activeFlowForMaintenance f \<and> flowAgeMs f now > staleFlowMs)"

definition DEFAULT_STALE_FLOW_MS :: int where
  "DEFAULT_STALE_FLOW_MS = 6 * 60 * 60000"

text \<open>An audit finding is its code with the flow's id; the message is left out.\<close>

definition auditTaskFlowRegistry ::
  "int \<Rightarrow> int option \<Rightarrow> task list \<times> flow list \<Rightarrow> (string \<times> string) list" where
  "auditTaskFlowRegistry now staleFlowMs st =
     concat (map (\<lambda>f.
       (if stale now (or_text staleFlowMs DEFAULT_STALE_FLOW_MS) f then [(''stale-workflow-run'', fl_flowId f)] else [])
       @ (if fl_status f = OfTask TBlocked \<and> opt_str (fl_blockedTaskId f) \<noteq> []
             \<and> findTaskRecord (opt_str (fl_blockedTaskId f)) (fst st) = None
          then [(''workflow-blocked-task-missing'', fl_flowId f)] else [])) (snd st))"

definition lost_flow :: "int \<Rightarrow> flow \<Rightarrow> flow" where
  "lost_flow now f =
     f\<lparr>fl_revision := fl_revision f + 1, fl_status := OfTask TLost, fl_endedAt := Some now, fl_updatedAt := now,
       fl_metadata := Some (spread (md (fl_metadata f))
         [(''maintenanceReason'', Some (JStr ''stale workflow run marked lost''))])\<rparr>"

definition runTaskFlowRegistryMaintenance ::
  "int \<Rightarrow> int option \<Rightarrow> task list \<times> flow list \<Rightarrow> (nat \<times> (string \<times> string) list) \<times> task list \<times> flow list" where
  "runTaskFlowRegistryMaintenance now staleFlowMs st =
     (let ms = or_text staleFlowMs DEFAULT_STALE_FLOW_MS;
          updated = length (filter (stale now ms) (snd st));
          st' = (fst st, map (\<lambda>f. if stale now ms f then lost_flow now f else f) (snd st))
      in ((updated, auditTaskFlowRegistry now (Some ms) st'), st'))"

end
