(* ===== verification/WorkflowGraph.thy ===== *)
theory WorkflowGraph
  imports TaskFlow
begin

text \<open>
  Graph workflows: \<open>src/tasks/workflow-graph.ts\<close>. A definition arrives as JSON, is validated into a
  \<open>graph\<close>, and is run node by node; the run is recorded in the task registry and in the flow
  registry. The clock is read once per call. \<open>visited\<close>, which the run extends until it throws beyond
  50 nodes, gives the loop its measure.
\<close>

section \<open>Data\<close>

definition MAX_GRAPH_NODES :: nat where "MAX_GRAPH_NODES = 50"
definition MAX_GRAPH_EDGES :: nat where "MAX_GRAPH_EDGES = 120"
definition MAX_NODE_TEXT_LENGTH :: nat where "MAX_NODE_TEXT_LENGTH = 2000"

definition VALID_NOTIFY_POLICIES :: "string list" where
  "VALID_NOTIFY_POLICIES = [''silent'', ''done_only'', ''state_changes'']"

definition VALID_NODE_TYPES :: "string list" where
  "VALID_NODE_TYPES = [''start'', ''task'', ''approval'', ''wait'', ''condition'', ''handoff'', ''notify'', ''end'']"

definition VALID_EDGE_EVENTS :: "string list" where
  "VALID_EDGE_EVENTS = [''next'', ''success'', ''failure'', ''approved'', ''rejected'', ''true'', ''false'']"

definition UNSAFE_GRAPH_KEYS :: "string list" where
  "UNSAFE_GRAPH_KEYS = [''script'', ''command'', ''shell'', ''exec'', ''code'', ''javascript'', ''args'', ''env'',
     ''walletGrant'', ''toolGrant'', ''grants'', ''permissions'', ''dangerouslyForceUnsafeInstall'']"

datatype graph_condition = CondAlways | CondNever | CondEquals string string

record graph_node =
  gn_id :: string
  gn_type :: string
  gn_label :: string
  gn_input :: "string option"
  gn_durationMs :: "int option"
  gn_condition :: "graph_condition option"

record graph_edge =
  ge_id :: string
  ge_from :: string
  ge_to :: string
  ge_on :: "string option"

type_synonym graph_layout = "(string \<times> int \<times> int) list"

record graph =
  gr_startNodeId :: string
  gr_nodes :: "graph_node list"
  gr_edges :: "graph_edge list"
  gr_layout :: "graph_layout option"

section \<open>Validation\<close>

definition readString :: "json option \<Rightarrow> string option" where
  "readString v = trim_or_undef (opt_string v)"

definition readPositiveInteger :: "json option \<Rightarrow> int option" where
  "readPositiveInteger v =
     (case v of Some (JNum (Fin q)) \<Rightarrow> if q \<le> 0 then None else Some \<lfloor>q\<rfloor> | _ \<Rightarrow> None)"

definition count_text :: "nat \<Rightarrow> string" where
  "count_text n = bigint_string (int n)"

definition normalizeCondition :: "json option \<Rightarrow> graph_condition option result" where
  "normalizeCondition raw =
     (case as_record raw of None \<Rightarrow> Inr None
      | Some r \<Rightarrow>
          let kind = or_text (nullish (readString (get_prop r ''kind'')) (readString (get_prop r ''type''))) ''always''
          in if kind = ''always'' then Inr (Some CondAlways)
             else if kind = ''never'' then Inr (Some CondNever)
             else if kind = ''equals'' then
               (case (readString (get_prop r ''left''), readString (get_prop r ''right'')) of
                  (Some l, Some r') \<Rightarrow> Inr (Some (CondEquals l r'))
                | _ \<Rightarrow> Inl (Error ''equals condition requires left and right strings''))
             else Inl (Error (''unsupported condition kind: '' @ kind)))"

definition unsafe_key :: "string \<Rightarrow> bool" where
  "unsafe_key k = (js_lower (js_trim k) \<in> set UNSAFE_GRAPH_KEYS)"

definition assertNoUnsafeGraphKeys :: "js_object \<Rightarrow> string \<Rightarrow> unit result" where
  "assertNoUnsafeGraphKeys r path =
     (case find unsafe_key (map fst r) of None \<Rightarrow> Inr ()
      | Some key \<Rightarrow> Inl (Error (''workflow graph '' @ path
          @ '' contains unsupported executable or grant field: '' @ key)))"

definition normalizeNode :: "json \<Rightarrow> nat \<Rightarrow> graph_node result" where
  "normalizeNode raw index =
     (let n = count_text (Suc index) in
      case as_record (Some raw) of None \<Rightarrow> Inl (Error (''workflow graph node '' @ n @ '' must be an object''))
      | Some r \<Rightarrow>
        bind_r (assertNoUnsafeGraphKeys r (''node '' @ n)) (\<lambda>_.
        let type = or_text (readString (get_prop r ''type'')) ''task'' in
        if type \<notin> set VALID_NODE_TYPES
        then Inl (Error (''workflow graph node '' @ n @ '' has unsupported type: '' @ type))
        else
        let label = or_text (nullish (readString (get_prop r ''label'')) (readString (get_prop r ''name''))) (''Node '' @ n);
            i = normalize_id_or (or_text (readString (get_prop r ''id'')) label) (''node-'' @ n);
            inp = nullish (readString (get_prop r ''input''))
                    (nullish (readString (get_prop r ''prompt'')) (readString (get_prop r ''message'')));
            durationMs = (if type = ''wait'' then nullish (readPositiveInteger (get_prop r ''durationMs''))
                            (readPositiveInteger (get_prop r ''waitMs'')) else None) in
        bind_r (if type = ''condition'' then normalizeCondition (get_prop r ''condition'') else Inr None) (\<lambda>condition.
        Inr \<lparr>gn_id = i, gn_type = type, gn_label = take 200 label,
             gn_input = map_option (take MAX_NODE_TEXT_LENGTH) inp,
             gn_durationMs = (if durationMs = Some 0 then None else durationMs), gn_condition = condition\<rparr>)))"

definition normalizeEdge :: "json \<Rightarrow> nat \<Rightarrow> graph_edge result" where
  "normalizeEdge raw index =
     (let n = count_text (Suc index) in
      case as_record (Some raw) of None \<Rightarrow> Inl (Error (''workflow graph edge '' @ n @ '' must be an object''))
      | Some r \<Rightarrow>
        bind_r (assertNoUnsafeGraphKeys r (''edge '' @ n)) (\<lambda>_.
        case (readString (get_prop r ''from''), readString (get_prop r ''to'')) of
          (Some src, Some dst) \<Rightarrow>
            let on = nullish (readString (get_prop r ''on'')) (readString (get_prop r ''event'')) in
            if on \<noteq> None \<and> the on \<notin> set VALID_EDGE_EVENTS
            then Inl (Error (''workflow graph edge '' @ n @ '' has unsupported event: '' @ the on))
            else Inr \<lparr>ge_id = normalize_id_or (or_text (readString (get_prop r ''id''))
                        (src @ ''-'' @ or_text on ''next'' @ ''-'' @ dst)) (''edge-'' @ n),
                      ge_from = src, ge_to = dst, ge_on = on\<rparr>
        | _ \<Rightarrow> Inl (Error (''workflow graph edge '' @ n @ '' requires from and to''))))"

text \<open>\<open>Math.max(0, Math.min(2_000, Math.round(x)))\<close>\<close>

definition clamp_position :: "rat \<Rightarrow> int" where
  "clamp_position x = max 0 (min 2000 \<lfloor>x + 1 / 2\<rfloor>)"

definition layout_entry :: "string list \<Rightarrow> string \<times> json \<Rightarrow> (string \<times> int \<times> int) list" where
  "layout_entry nodeIds kv =
     (if fst kv \<notin> set nodeIds then []
      else (case as_record (Some (snd kv)) of None \<Rightarrow> []
        | Some p \<Rightarrow> (case (get_prop p ''x'', get_prop p ''y'') of
              (Some (JNum (Fin x)), Some (JNum (Fin y))) \<Rightarrow> [(fst kv, clamp_position x, clamp_position y)]
            | _ \<Rightarrow> [])))"

definition normalizeLayout :: "json option \<Rightarrow> string list \<Rightarrow> graph_layout option" where
  "normalizeLayout raw nodeIds =
     (case as_record raw of None \<Rightarrow> None
      | Some r \<Rightarrow> (case as_record (get_prop r ''nodes'') of None \<Rightarrow> None
        | Some ns \<Rightarrow> (let l = concat (map (layout_entry nodeIds) ns) in if l \<noteq> [] then Some l else None)))"

fun first_repeated :: "string list \<Rightarrow> string list \<Rightarrow> string option" where
  "first_repeated seen [] = None"
| "first_repeated seen (x # xs) = (if x \<in> set seen then Some x else first_repeated (x # seen) xs)"

fun missing_end :: "string list \<Rightarrow> graph_edge list \<Rightarrow> string option" where
  "missing_end ids [] = None"
| "missing_end ids (e # es) =
     (if ge_from e \<notin> set ids then Some (''workflow graph edge references missing from node: '' @ ge_from e)
      else if ge_to e \<notin> set ids then Some (''workflow graph edge references missing to node: '' @ ge_to e)
      else missing_end ids es)"

definition edges_from :: "graph_edge list \<Rightarrow> string \<Rightarrow> graph_edge list" where
  "edges_from es n = filter (\<lambda>e. ge_from e = n) es"

definition edges_to :: "graph_edge list \<Rightarrow> string \<Rightarrow> graph_edge list" where
  "edges_to es n = filter (\<lambda>e. ge_to e = n) es"

definition node_fault :: "string \<Rightarrow> graph_edge list \<Rightarrow> graph_node \<Rightarrow> string option" where
  "node_fault startNodeId es n =
     (let fromNode = edges_from es (gn_id n); toNode = edges_to es (gn_id n)
      in if gn_type n \<noteq> ''end'' \<and> fromNode = []
         then Some (''workflow graph node '' @ gn_id n @ '' has no outgoing edge'')
         else if gn_id n \<noteq> startNodeId \<and> gn_type n \<noteq> ''start'' \<and> toNode = []
         then Some (''workflow graph node '' @ gn_id n @ '' has no incoming edge'')
         else if gn_type n = ''approval''
            \<and> \<not> list_ex (\<lambda>e. ge_on e = Some ''approved'' \<or> ge_on e = Some ''next'' \<or> ge_on e = None) fromNode
         then Some (''workflow graph approval node '' @ gn_id n @ '' requires an approved path'')
         else if gn_type n = ''condition''
            \<and> (\<not> list_ex (\<lambda>e. ge_on e = Some ''true'') fromNode \<or> \<not> list_ex (\<lambda>e. ge_on e = Some ''false'') fromNode)
         then Some (''workflow graph condition node '' @ gn_id n @ '' requires true and false paths'')
         else None)"

fun first_fault :: "string \<Rightarrow> graph_edge list \<Rightarrow> graph_node list \<Rightarrow> string option" where
  "first_fault s es [] = None"
| "first_fault s es (n # ns) = (case node_fault s es n of Some m \<Rightarrow> Some m | None \<Rightarrow> first_fault s es ns)"

definition start_of :: "js_object \<Rightarrow> graph_node list \<Rightarrow> string" where
  "start_of r nodes =
     or_text (readString (get_prop r ''startNodeId''))
       (case find (\<lambda>n. gn_type n = ''start'') nodes of Some n \<Rightarrow> gn_id n | None \<Rightarrow> gn_id (hd nodes))"

text \<open>The checks after the nodes and edges have been read.\<close>

definition checked_graph :: "js_object \<Rightarrow> graph_node list \<Rightarrow> graph_edge list \<Rightarrow> graph result" where
  "checked_graph r nodes edges =
     (let ids = map gn_id nodes; startNodeId = start_of r nodes in
      case missing_end ids edges of Some m \<Rightarrow> Inl (Error m)
      | None \<Rightarrow>
        if startNodeId \<notin> set ids then Inl (Error (''workflow graph start node is missing: '' @ startNodeId))
        else (case first_fault startNodeId edges nodes of Some m \<Rightarrow> Inl (Error m)
          | None \<Rightarrow> Inr \<lparr>gr_startNodeId = startNodeId, gr_nodes = nodes, gr_edges = edges,
                          gr_layout = normalizeLayout (get_prop r ''layout'') ids\<rparr>))"

definition normalizeGraph :: "json option \<Rightarrow> graph result" where
  "normalizeGraph raw =
     (case as_record raw of None \<Rightarrow> Inl (Error ''workflow graph must be an object'')
      | Some r \<Rightarrow>
        bind_r (assertNoUnsafeGraphKeys r ''root'') (\<lambda>_.
        case as_array (get_prop r ''nodes'') of
          None \<Rightarrow> Inl (Error ''workflow graph requires nodes'')
        | Some nodesRaw \<Rightarrow>
          if nodesRaw = [] then Inl (Error ''workflow graph requires nodes'')
          else if length nodesRaw > MAX_GRAPH_NODES then Inl (Error ''workflow graph supports up to 50 nodes'')
          else bind_r (map_r (\<lambda>(i, x). normalizeNode x i) (enumerate 0 nodesRaw)) (\<lambda>nodes.
          case first_repeated [] (map gn_id nodes) of
            Some d \<Rightarrow> Inl (Error (''workflow graph has duplicate node id: '' @ d))
          | None \<Rightarrow>
            let edgesRaw = (case as_array (get_prop r ''edges'') of None \<Rightarrow> [] | Some es \<Rightarrow> es) in
            if length edgesRaw > MAX_GRAPH_EDGES then Inl (Error ''workflow graph supports up to 120 edges'')
            else bind_r (map_r (\<lambda>(i, x). normalizeEdge x i) (enumerate 0 edgesRaw)) (\<lambda>edges.
            checked_graph r nodes edges))))"

section \<open>The graph as JSON\<close>

text \<open>The definition is kept in the task's metadata as the object it is.\<close>

definition condition_json :: "graph_condition \<Rightarrow> json" where
  "condition_json c =
     (case c of CondAlways \<Rightarrow> JObj [(''kind'', JStr ''always'')] | CondNever \<Rightarrow> JObj [(''kind'', JStr ''never'')]
      | CondEquals l r \<Rightarrow> JObj [(''kind'', JStr ''equals''), (''left'', JStr l), (''right'', JStr r)])"

definition int_json :: "int \<Rightarrow> json" where
  "int_json i = JNum (Fin (of_int i))"

definition node_json :: "graph_node \<Rightarrow> json" where
  "node_json n = JObj ([(''id'', JStr (gn_id n)), (''type'', JStr (gn_type n)), (''label'', JStr (gn_label n))]
     @ opt_field ''input'' (gn_input n) @ json_field ''durationMs'' (map_option int_json (gn_durationMs n))
     @ json_field ''condition'' (map_option condition_json (gn_condition n)))"

definition edge_json :: "graph_edge \<Rightarrow> json" where
  "edge_json e = JObj ([(''id'', JStr (ge_id e)), (''from'', JStr (ge_from e)), (''to'', JStr (ge_to e))]
     @ opt_field ''on'' (ge_on e))"

definition layout_json :: "graph_layout \<Rightarrow> json" where
  "layout_json l = JObj [(''nodes'', JObj (map (\<lambda>(n, x, y). (n, JObj [(''x'', int_json x), (''y'', int_json y)])) l))]"

definition graph_json :: "graph \<Rightarrow> json" where
  "graph_json g = JObj ([(''version'', int_json 2), (''startNodeId'', JStr (gr_startNodeId g)),
     (''nodes'', JArr (map node_json (gr_nodes g))), (''edges'', JArr (map edge_json (gr_edges g)))]
     @ json_field ''layout'' (map_option layout_json (gr_layout g)))"

section \<open>The input of a workflow\<close>

definition source_fields :: "string list" where
  "source_fields = [''runId'', ''taskKind'', ''sourceId'', ''rootTaskId'', ''parentTaskId'', ''correlationId'',
     ''definitionId'', ''definitionKind'', ''workflowRunId'', ''workflowNodeId'', ''agentId'', ''sessionKey'',
     ''requesterSessionKey'', ''channel'']"

text \<open>The object that is returned, with its fields in another order.\<close>

definition readSourceTask :: "json option \<Rightarrow> js_object option" where
  "readSourceTask v =
     (case as_record v of None \<Rightarrow> None
      | Some r \<Rightarrow>
        (case map (\<lambda>k. readString (get_prop r k)) [''taskId'', ''source'', ''runtime'', ''task''] of
           [Some taskId, Some source, Some runtime, Some tsk] \<Rightarrow>
             Some ([(''taskId'', JStr taskId), (''source'', JStr source), (''runtime'', JStr runtime), (''task'', JStr tsk)]
               @ concat (map (\<lambda>k. opt_field k (readString (get_prop r k))) source_fields)
               @ obj_field ''metadata'' (as_record (get_prop r ''metadata'')))
         | _ \<Rightarrow> None))"

record graph_input =
  gi_runId :: "string option"
  gi_rootTaskId :: "string option"
  gi_parentTaskId :: "string option"
  gi_correlationId :: "string option"
  gi_definitionId :: "string option"
  gi_agentId :: "string option"
  gi_sessionKey :: "string option"
  gi_name :: string
  gi_task :: string
  gi_sourceId :: "string option"
  gi_notifyPolicy :: string
  gi_graph :: graph
  gi_sourceTask :: "js_object option"

definition source_text :: "js_object option \<Rightarrow> string \<Rightarrow> string option" where
  "source_text s k = opt_string (get_prop (md s) k)"

definition normalizeTaskWorkflowGraphInput :: "json option \<Rightarrow> graph_input result" where
  "normalizeTaskWorkflowGraphInput raw =
     (case as_record raw of None \<Rightarrow> Inl (Error ''workflow graph params must be an object'')
      | Some r \<Rightarrow>
        let str = (\<lambda>k. readString (get_prop r k));
            graphRaw = (case get_prop r ''graph'' of None \<Rightarrow> raw | Some JNull \<Rightarrow> raw | Some g \<Rightarrow> Some g)
        in bind_r (normalizeGraph graphRaw) (\<lambda>g.
           if str ''notifyPolicy'' \<noteq> None \<and> the (str ''notifyPolicy'') \<notin> set VALID_NOTIFY_POLICIES
           then Inl (Error (''invalid notifyPolicy: '' @ the (str ''notifyPolicy'')))
           else
           let name = or_text (str ''name'') ''Graph workflow''; src = readSourceTask (get_prop r ''sourceTask'') in
           Inr \<lparr>gi_runId = str ''runId'',
                gi_rootTaskId = nullish (str ''rootTaskId'') (source_text src ''rootTaskId''),
                gi_parentTaskId = nullish (str ''parentTaskId'') (source_text src ''taskId''),
                gi_correlationId = nullish (str ''correlationId'') (source_text src ''correlationId''),
                gi_definitionId = nullish (str ''definitionId'') (nullish (str ''id'')
                  (if str ''sourceId'' \<noteq> Some ''workflow-graph'' then str ''sourceId'' else None)),
                gi_agentId = nullish (str ''agentId'') (if str ''sessionKey'' \<noteq> None
                  then Some (resolveAgentIdFromSessionKey (str ''sessionKey'')) else None),
                gi_sessionKey = str ''sessionKey'', gi_name = name, gi_task = or_text (str ''task'') name,
                gi_sourceId = str ''sourceId'', gi_notifyPolicy = or_text (str ''notifyPolicy'') ''done_only'',
                gi_graph = g, gi_sourceTask = src\<rparr>))"

definition preview_warnings :: "graph \<Rightarrow> string list" where
  "preview_warnings g =
     map (\<lambda>n. ''Node '' @ gn_id n @ '' has no incoming edge.'')
       (filter (\<lambda>n. gn_id n \<noteq> gr_startNodeId g \<and> gn_id n \<notin> set (map ge_to (gr_edges g))) (gr_nodes g))"

definition previewTaskWorkflowGraph :: "json option \<Rightarrow> (graph_input \<times> string list) result" where
  "previewTaskWorkflowGraph raw =
     bind_r (normalizeTaskWorkflowGraphInput raw) (\<lambda>inp. Inr (inp, preview_warnings (gi_graph inp)))"

section \<open>Running a graph\<close>

definition toRegistryStep :: "graph_node \<Rightarrow> task_step" where
  "toRegistryStep n =
     \<lparr>ts_id = gn_id n, ts_label = Some (gn_label n), ts_status = StQueued, ts_attempt = Some 1,
      ts_maxAttempts = Some 1, ts_startedAt = None, ts_endedAt = None, ts_updatedAt = None, ts_error = None\<rparr>"

definition isTerminalStepStatus :: "step_status \<Rightarrow> bool" where
  "isTerminalStepStatus st = (st \<in> set [StSucceeded, StFailed, StSkipped, StBlocked, StCancelled, StLost])"

definition set_step :: "int \<Rightarrow> string \<Rightarrow> step_status \<Rightarrow> string option \<Rightarrow> task_step \<Rightarrow> task_step" where
  "set_step now nodeId st err s =
     (if ts_id s = nodeId
      then s\<lparr>ts_status := st, ts_updatedAt := Some now,
             ts_startedAt := (if st = StRunning then Some now else ts_startedAt s),
             ts_endedAt := (if isTerminalStepStatus st then Some now else ts_endedAt s),
             ts_error := if_text err (ts_error s)\<rparr>
      else s)"

definition updateGraphNodeStep ::
  "int \<Rightarrow> string \<Rightarrow> string \<Rightarrow> step_status \<Rightarrow> string \<Rightarrow> string option \<Rightarrow> task list \<Rightarrow> task list" where
  "updateGraphNodeStep now runId nodeId st summary err tasks =
     snd (updateTaskRecord now runId (\<lambda>t. Some (t\<lparr>tk_progressSummary := Some summary,
       tk_steps := Some (map (set_step now nodeId st err) (steps_of t))\<rparr>)) tasks)"

definition node_at :: "graph \<Rightarrow> string \<Rightarrow> graph_node option" where
  "node_at g n = find (\<lambda>x. gn_id x = n) (rev (gr_nodes g))"

definition nextNodeId :: "graph \<Rightarrow> string \<Rightarrow> string \<Rightarrow> string option" where
  "nextNodeId g nodeId event =
     (let edges = edges_from (gr_edges g) nodeId;
          target = (\<lambda>on. map_option ge_to (find (\<lambda>e. ge_on e = on) edges))
      in nullish (target (Some event)) (nullish (target (Some ''next'')) (target None)))"

definition evaluateCondition :: "graph_condition option \<Rightarrow> bool" where
  "evaluateCondition c =
     (case c of None \<Rightarrow> True | Some CondAlways \<Rightarrow> True | Some CondNever \<Rightarrow> False | Some (CondEquals l r) \<Rightarrow> l = r)"

definition graphNodeRunningSummary :: "graph_node \<Rightarrow> string" where
  "graphNodeRunningSummary n =
     (if gn_type n = ''approval'' then ''Checking approval gate: ''
      else if gn_type n = ''condition'' then ''Evaluating condition: ''
      else if gn_type n = ''handoff'' then ''Recording handoff: ''
      else if gn_type n = ''notify'' then ''Recording notification checkpoint: ''
      else if gn_type n = ''wait'' then ''Recording wait checkpoint: ''
      else ''Running workflow node: '') @ gn_label n"

definition graphNodeSuccessSummary :: "graph_node \<Rightarrow> string" where
  "graphNodeSuccessSummary n =
     (if gn_type n = ''condition'' then ''Condition evaluated: ''
      else if gn_type n = ''handoff'' then ''Recorded handoff: ''
      else if gn_type n = ''notify'' then ''Recorded notification checkpoint: ''
      else if gn_type n = ''wait'' then ''Recorded wait checkpoint: ''
      else if gn_type n = ''start'' then ''Started workflow: ''
      else if gn_type n = ''end'' then ''Reached workflow end: ''
      else ''Completed workflow node: '') @ gn_label n"

datatype loop_end =
    LoopDone "string list" "task list"
  | LoopPaused graph_node "string list" "task list"
  | LoopThrew string "task list"

definition event_of :: "graph_node \<Rightarrow> string" where
  "event_of n = (if gn_type n = ''condition'' then (if evaluateCondition (gn_condition n) then ''true'' else ''false'')
     else ''success'')"

function graph_loop :: "graph \<Rightarrow> int \<Rightarrow> string \<Rightarrow> string option \<Rightarrow> string list \<Rightarrow> task list \<Rightarrow> loop_end" where
  "graph_loop g now runId current visited tasks =
     (case current of None \<Rightarrow> LoopDone visited tasks
      | Some nodeId \<Rightarrow>
        if nodeId = [] then LoopDone visited tasks
        else if length visited > MAX_GRAPH_NODES
        then LoopThrew ''workflow graph exceeded node execution limit; possible cycle'' tasks
        else (case node_at g nodeId of
            None \<Rightarrow> LoopThrew (''workflow graph node is missing: '' @ nodeId) tasks
          | Some n \<Rightarrow>
            let visited' = visited @ [gn_id n];
                running = updateGraphNodeStep now runId (gn_id n) StRunning (graphNodeRunningSummary n) None tasks
            in if gn_type n = ''approval'' then LoopPaused n visited' running
               else let done_tasks = updateGraphNodeStep now runId (gn_id n) StSucceeded (graphNodeSuccessSummary n)
                                       None running
                    in if gn_type n = ''end'' then LoopDone visited' done_tasks
                       else graph_loop g now runId (nextNodeId g (gn_id n) (event_of n)) visited' done_tasks))"
  by pat_completeness auto
termination
  by (relation "measure (\<lambda>(g, now, runId, current, visited, tasks). Suc MAX_GRAPH_NODES - length visited)") auto

declare graph_loop.simps [simp del]

definition approval_text :: "graph_node \<Rightarrow> string" where
  "approval_text n =
     (if opt_str (gn_input n) \<noteq> [] then ''Approval required: '' @ opt_str (gn_input n)
      else ''Approval required before workflow can continue.'')"

definition visited_json :: "string list \<Rightarrow> json" where
  "visited_json v = JArr (map JStr v)"

definition update_metadata :: "int \<Rightarrow> string \<Rightarrow> (string \<times> json option) list \<Rightarrow> task list \<Rightarrow> task option \<times> task list" where
  "update_metadata now key patch tasks =
     updateTaskRecord now key (\<lambda>t. Some (t\<lparr>tk_metadata := Some (spread (md (tk_metadata t)) patch)\<rparr>)) tasks"

type_synonym world = "task list \<times> flow list"

definition syncGraphFlow :: "int \<Rightarrow> task \<Rightarrow> world \<Rightarrow> task \<times> world" where
  "syncGraphFlow now t w =
     (case upsertTaskFlowFromTask now t None (opt_string (get_prop (md (tk_metadata t)) ''workflowDefinitionId''))
             [(''workflowMode'', JStr ''graph'')] (snd w) of
        (None, flows) \<Rightarrow> (t, (fst w, flows))
      | (Some f, flows) \<Rightarrow>
          let (updated, tasks) = update_metadata now (or_text (tk_runId t) (tk_taskId t))
                ((''flowId'', Some (JStr (fl_flowId f)))
                 # text_entry ''workflowDefinitionId'' (fl_definitionId f)) (fst w)
          in ((case updated of Some u \<Rightarrow> u | None \<Rightarrow> t), (tasks, flows)))"

text \<open>\<open>syncGraphFlow(a ?? b ?? findTaskRecord(runId)!)\<close>: without a record the code throws.\<close>

definition sync_first :: "int \<Rightarrow> task option list \<Rightarrow> string \<Rightarrow> task list \<Rightarrow> flow list \<Rightarrow> task result \<times> world" where
  "sync_first now candidates runId tasks flows =
     (case foldr nullish candidates (findTaskRecord runId tasks) of
        None \<Rightarrow> (Inl (Error ''TypeError''), (tasks, flows))
      | Some t \<Rightarrow> (case syncGraphFlow now t (tasks, flows) of (u, w) \<Rightarrow> (Inr u, w)))"

definition pause_at :: "int \<Rightarrow> string \<Rightarrow> graph_node \<Rightarrow> string list \<Rightarrow> task list \<Rightarrow> flow list \<Rightarrow> task result \<times> world" where
  "pause_at now runId n visited tasks flows =
     (let err = approval_text n; summary = ''Workflow paused for approval: '' @ gn_label n;
          t1 = updateGraphNodeStep now runId (gn_id n) StBlocked summary (Some err) tasks;
          (blocked, t2) = failTaskRunByRunId now runId (Some TBlocked) (Some summary) (Some err)
                            (Some ''not_applicable'') None t1;
          (withMetadata, t3) = update_metadata now runId
            [(''blockedNodeId'', Some (JStr (gn_id n))), (''blockedNodeLabel'', Some (JStr (gn_label n))),
             (''blockedAt'', Some (int_json now)), (''blockReason'', Some (JStr err)),
             (''visitedNodeIds'', Some (visited_json visited))] t2
      in sync_first now [withMetadata, blocked] runId t3 flows)"

definition completed_count :: "string \<Rightarrow> string list \<Rightarrow> task list \<Rightarrow> nat" where
  "completed_count runId visited tasks =
     (case findTaskRecord runId tasks of
        Some t \<Rightarrow> (case tk_steps t of
            Some ss \<Rightarrow> length (filter (\<lambda>s. ts_status s = StSucceeded \<or> ts_status s = StSkipped) ss)
          | None \<Rightarrow> length visited)
      | None \<Rightarrow> length visited)"

definition finish :: "int \<Rightarrow> string \<Rightarrow> string list \<Rightarrow> task list \<Rightarrow> flow list \<Rightarrow> task result \<times> world" where
  "finish now runId visited tasks flows =
     (let k = completed_count runId visited tasks;
          (completed, t1) = completeTaskRunByRunId now runId
            (Some (''Workflow graph completed '' @ count_text k @ '' node'' @ (if k = 1 then [] else ''s'') @ ''.''))
            (Some ''not_applicable'') None tasks;
          (withMetadata, t2) = update_metadata now runId
            [(''visitedNodeIds'', Some (visited_json visited)), (''completedAt'', Some (int_json now))] t1
      in sync_first now [withMetadata, completed] runId t2 flows)"

definition fail_run :: "int \<Rightarrow> string \<Rightarrow> string \<Rightarrow> task list \<Rightarrow> flow list \<Rightarrow> task result \<times> world" where
  "fail_run now runId message tasks flows =
     (let (failed, t1) = failTaskRunByRunId now runId (Some TFailed) (Some ''Workflow graph failed.'')
            (Some (''Error: '' @ message)) (Some ''not_applicable'') None tasks
      in sync_first now [failed] runId t1 flows)"

definition completeGraphFromNode :: "int \<Rightarrow> string \<Rightarrow> graph \<Rightarrow> string \<Rightarrow> world \<Rightarrow> task result \<times> world" where
  "completeGraphFromNode now runId g startNodeId w =
     (case graph_loop g now runId (Some startNodeId) [] (fst w) of
        LoopPaused n visited tasks \<Rightarrow> pause_at now runId n visited tasks (snd w)
      | LoopDone visited tasks \<Rightarrow> finish now runId visited tasks (snd w)
      | LoopThrew message tasks \<Rightarrow> fail_run now runId message tasks (snd w))"

definition source_entries :: "js_object option \<Rightarrow> js_object" where
  "source_entries s =
     (case s of None \<Rightarrow> []
      | Some ob \<Rightarrow>
        [(''sourceTask'', JObj ob)] @ json_field ''sourceTaskId'' (get_prop ob ''taskId'')
        @ json_field ''sourceTaskRunId'' (get_prop ob ''runId'') @ json_field ''sourceTaskSource'' (get_prop ob ''source'')
        @ json_field ''sourceTaskRuntime'' (get_prop ob ''runtime'')
        @ json_field ''sourceTaskKind'' (get_prop ob ''taskKind''))"

definition graph_run_params :: "int \<Rightarrow> string \<Rightarrow> graph_input \<Rightarrow> run_params" where
  "graph_run_params now runId inp =
     \<lparr>rp_runtime = ''cli'', rp_sourceId = Some (or_text (gi_sourceId inp) ''workflow-graph''),
      rp_ownerKey = nullish (gi_sessionKey inp) (map_option (\<lambda>a. ''agent:'' @ a) (gi_agentId inp)),
      rp_scopeKind = None, rp_channel = None, rp_requesterOrigin = None,
      rp_requesterSessionKey = gi_sessionKey inp, rp_childSessionKey = None, rp_sessionKey = gi_sessionKey inp,
      rp_agentId = gi_agentId inp, rp_runId = runId, rp_rootTaskId = gi_rootTaskId inp,
      rp_parentTaskId = gi_parentTaskId inp, rp_correlationId = gi_correlationId inp,
      rp_definitionId = gi_definitionId inp, rp_definitionKind = Some ''graph'', rp_workflowRunId = Some runId,
      rp_workflowNodeId = None, rp_label = Some (gi_name inp), rp_task = gi_task inp,
      rp_deliveryStatus = Some ''not_applicable'', rp_notifyPolicy = None, rp_startedAt = Some now,
      rp_lastEventAt = Some now, rp_taskKind = Some ''workflow'', rp_model = None, rp_provider = None,
      rp_loadedSkills = None, rp_loadedTools = None, rp_memoryScope = None, rp_delivery = None,
      rp_metadata = Some ([(''workflow'', JBool True), (''workflowMode'', JStr ''graph''),
        (''workflowGraphVersion'', int_json 2)]
        @ opt_field ''workflowDefinitionId'' (gi_definitionId inp) @ source_entries (gi_sourceTask inp)
        @ [(''graph'', graph_json (gi_graph inp)),
           (''stepCount'', int_json (int (length (gr_nodes (gi_graph inp))))),
           (''edgeCount'', int_json (int (length (gr_edges (gi_graph inp)))))])\<rparr>"

definition runTaskWorkflowGraph :: "int \<Rightarrow> string \<Rightarrow> json option \<Rightarrow> world \<Rightarrow> task result \<times> world" where
  "runTaskWorkflowGraph now freshId raw w =
     (case normalizeTaskWorkflowGraphInput raw of Inl e \<Rightarrow> (Inl e, w)
      | Inr inp \<Rightarrow>
        let runId = or_text (gi_runId inp) freshId;
            t1 = snd (createRunningTaskRun now (graph_run_params now runId inp) (fst w));
            t2 = snd (updateTaskRecord now runId (\<lambda>t. Some (t\<lparr>tk_notifyPolicy := gi_notifyPolicy inp,
                   tk_progressSummary := Some (''Queued workflow graph with ''
                     @ count_text (length (gr_nodes (gi_graph inp))) @ '' nodes.''),
                   tk_steps := Some (map toRegistryStep (gr_nodes (gi_graph inp)))\<rparr>)) t1)
        in completeGraphFromNode now runId (gi_graph inp) (gr_startNodeId (gi_graph inp)) (t2, snd w))"

section \<open>Resuming after an approval\<close>

record resume_input =
  ri_taskIdOrRunId :: string
  ri_decision :: string
  ri_actor :: "string option"
  ri_reason :: "string option"

definition normalizeTaskWorkflowGraphResumeInput :: "json option \<Rightarrow> resume_input result" where
  "normalizeTaskWorkflowGraphResumeInput raw =
     (case as_record raw of None \<Rightarrow> Inl (Error ''workflow graph resume params must be an object'')
      | Some r \<Rightarrow>
        (case nullish (readString (get_prop r ''taskId'')) (readString (get_prop r ''runId'')) of
           None \<Rightarrow> Inl (Error ''workflow graph resume requires taskId or runId'')
         | Some key \<Rightarrow>
           let decision = or_text (readString (get_prop r ''decision'')) ''approved''
           in if decision \<noteq> ''approved'' \<and> decision \<noteq> ''rejected''
              then Inl (Error (''invalid graph workflow approval decision: '' @ decision))
              else Inr \<lparr>ri_taskIdOrRunId = key, ri_decision = decision,
                        ri_actor = readString (get_prop r ''actor''), ri_reason = readString (get_prop r ''reason'')\<rparr>))"

definition task_run_key :: "task \<Rightarrow> string" where
  "task_run_key t = or_text (tk_runId t) (tk_taskId t)"

definition approval_json :: "int \<Rightarrow> resume_input \<Rightarrow> graph_node \<Rightarrow> json" where
  "approval_json now inp n = JObj ([(''actor'', JStr (or_text (ri_actor inp) ''operator'')),
     (''decision'', JStr (ri_decision inp)), (''nodeId'', JStr (gn_id n)), (''nodeLabel'', JStr (gn_label n)),
     (''approvedAt'', int_json now)] @ opt_field ''reason'' (ri_reason inp))"

definition decided_step :: "int \<Rightarrow> resume_input \<Rightarrow> graph_node \<Rightarrow> task_step \<Rightarrow> task_step" where
  "decided_step now inp n s =
     (if ts_id s = gn_id n
      then s\<lparr>ts_status := (if ri_decision inp = ''approved'' then StSucceeded else StSkipped),
             ts_endedAt := Some now, ts_updatedAt := Some now, ts_error := None\<rparr> else s)"

definition resumed_task :: "int \<Rightarrow> resume_input \<Rightarrow> graph_node \<Rightarrow> task \<Rightarrow> task" where
  "resumed_task now inp n t =
     (let approval = approval_json now inp n;
          old = (case as_array (get_prop (md (tk_metadata t)) ''approvals'') of None \<Rightarrow> [] | Some xs \<Rightarrow> xs)
      in t\<lparr>tk_status := TRunning, tk_endedAt := None, tk_terminalSummary := None, tk_error := None,
           tk_progressSummary := Some (''Workflow graph '' @ ri_decision inp @ '' by ''
             @ or_text (ri_actor inp) ''operator'' @ ''; continuing after '' @ gn_label n @ ''.''),
           tk_steps := Some (map (decided_step now inp n) (steps_of t)),
           tk_metadata := Some (spread (md (tk_metadata t))
             [(''approvals'', Some (JArr (old @ [approval]))), (''lastApproval'', Some approval),
              (''blockedNodeId'', None), (''blockedNodeLabel'', None), (''blockedAt'', None), (''blockReason'', None),
              (''resumedAt'', Some (int_json now))])\<rparr>)"

text \<open>What the checks of \<open>resumeTaskWorkflowGraph\<close> find: the task, its graph and the node it waits at.\<close>

definition resume_point :: "string \<Rightarrow> world \<Rightarrow> (task \<times> graph \<times> graph_node) result" where
  "resume_point key w =
     (case findTaskRecord key (fst w) of None \<Rightarrow> Inl (Error ''Workflow task not found.'')
      | Some t \<Rightarrow>
        if tk_taskKind t \<noteq> Some ''workflow''
           \<or> get_prop (md (tk_metadata t)) ''workflowGraphVersion'' \<noteq> Some (JNum (Fin 2))
        then Inl (Error ''Task is not a graph workflow.'')
        else if tk_status t \<noteq> TBlocked
        then Inl (Error (''Workflow graph is not blocked: '' @ task_status_str (tk_status t)))
        else bind_r (normalizeGraph (get_prop (md (tk_metadata t)) ''graph'')) (\<lambda>g.
        let blockedNodeId = opt_str (opt_string (get_prop (md (tk_metadata t)) ''blockedNodeId'')) in
        if blockedNodeId = [] then Inl (Error ''Blocked workflow graph has no blocked node.'')
        else (case node_at g blockedNodeId of
            None \<Rightarrow> Inl (Error (''Blocked workflow graph node is missing: '' @ blockedNodeId))
          | Some n \<Rightarrow> Inr (t, g, n))))"

definition resumeTaskWorkflowGraph :: "int \<Rightarrow> json option \<Rightarrow> world \<Rightarrow> task result \<times> world" where
  "resumeTaskWorkflowGraph now raw w =
     (case normalizeTaskWorkflowGraphResumeInput raw of Inl e \<Rightarrow> (Inl e, w)
      | Inr inp \<Rightarrow>
        (case resume_point (ri_taskIdOrRunId inp) w of Inl e \<Rightarrow> (Inl e, w)
         | Inr (t, g, n) \<Rightarrow>
           (case nextNodeId g (gn_id n) (ri_decision inp) of
              None \<Rightarrow>
                if ri_decision inp = ''rejected''
                then let (cancelled, t1) = failTaskRunByRunId now (task_run_key t) (Some TCancelled)
                           (Some (''Workflow approval rejected: '' @ gn_label n)) (ri_reason inp)
                           (Some ''not_applicable'') None (fst w)
                     in sync_first now [cancelled] (task_run_key t) t1 (snd w)
                else (Inl (Error (''Workflow graph has no '' @ ri_decision inp @ '' path from '' @ gn_id n)), w)
            | Some nxt \<Rightarrow>
                completeGraphFromNode now (task_run_key t) g nxt
                  (snd (updateTaskRecord now (task_run_key t) (\<lambda>c. Some (resumed_task now inp n c)) (fst w)), snd w))))"

end
