(* ===== verification/WorkflowValid.thy ===== *)
theory WorkflowValid
  imports WorkflowGraph
begin

text \<open>
  What the validator of graph workflows guarantees: an accepted definition is a well-formed graph,
  and the definition kept in a task's metadata is accepted again when the task is resumed.
\<close>

section \<open>Ids that normalise to themselves\<close>

definition fixed_id :: "string \<Rightarrow> bool" where
  "fixed_id s \<longleftrightarrow> s \<noteq> [] \<and> list_all is_task_id_char s \<and> hd s \<noteq> dash \<and> last s \<noteq> dash"

lemma task_id_char_no_space: "is_task_id_char c \<Longrightarrow> \<not> js_space c"
  by (auto simp: is_task_id_char_def is_id_char_def is_alnum_lower_def js_space_def dash_def colon_def Let_def)

lemma fixed_id_trim: "fixed_id s \<Longrightarrow> js_trim s = s"
  by (intro js_trim_fixed) (auto simp: fixed_id_def list_all_iff task_id_char_no_space)

lemma collapse_task_chars: "list_all is_task_id_char (collapse_task f s)"
  by (induction f s rule: collapse_task.induct) (auto simp: is_task_id_char_def is_id_char_def)

lemma collapse_task_same: "list_all is_task_id_char s \<Longrightarrow> collapse_task f s = s"
  by (induction f s rule: collapse_task.induct) auto

lemma normalize_fixed:
  assumes "fixed_id s"
  shows "normalize_id_or s f = s"
proof -
  have "collapse_task False (js_trim s) = s"
    using assms fixed_id_trim collapse_task_same by (simp add: fixed_id_def)
  moreover have "strip_leading_dashes s = s"
    unfolding strip_leading_dashes_def using assms by (intro dropWhile_hd) (simp add: fixed_id_def)
  moreover have "strip_trailing_dashes s = s"
    using assms by (intro strip_trailing_same) (simp_all add: fixed_id_def)
  ultimately show ?thesis using assms by (simp only: normalize_id_or_def str_or_def fixed_id_def if_False)
qed

lemma normalized_id_fixed:
  assumes "fixed_id f"
  shows "fixed_id (normalize_id_or s f)"
proof -
  let ?c = "collapse_task False (js_trim s)"
  let ?l = "strip_leading_dashes ?c"
  let ?t = "strip_trailing_dashes ?l"
  show ?thesis
  proof (cases "?t = []")
    case True
    then show ?thesis using assms by (simp add: normalize_id_or_def str_or_def)
  next
    case False
    obtain n where n: "?t = take n ?l" using strip_trailing_prefix by blast
    have "set ?l \<subseteq> set ?c" unfolding strip_leading_dashes_def by (auto dest: set_dropWhileD)
    moreover have "set ?t \<subseteq> set ?l" unfolding n by (rule set_take_subset)
    ultimately have "list_all is_task_id_char ?t"
      using collapse_task_chars [of False "js_trim s"] by (auto simp: list_all_iff)
    moreover have "hd ?t \<noteq> dash"
    proof -
      have "?l \<noteq> []" using False by (auto simp: strip_trailing_dashes_def)
      then have "hd ?l \<noteq> dash"
        unfolding strip_leading_dashes_def by (metis (mono_tags) hd_dropWhile)
      then show ?thesis using hd_take_ne [of n ?l] False n by simp
    qed
    moreover have "last ?t \<noteq> dash" by (rule strip_trailing_last [OF False])
    ultimately have "fixed_id ?t" using False by (simp add: fixed_id_def)
    then show ?thesis using False by (simp add: normalize_id_or_def str_or_def)
  qed
qed

lemma normalizeTaskId_fixed: "fixed_id (normalizeTaskId s)"
proof -
  have "fixed_id ''task''"
    by (simp add: fixed_id_def is_task_id_char_def is_id_char_def is_alnum_lower_def dash_def)
  then show ?thesis unfolding normalizeTaskId_def by (rule normalized_id_fixed)
qed

lemma count_text_digits: "count_text k \<noteq> [] \<and> list_all is_digit_char (count_text k)"
  by (simp add: count_text_def bigint_string_def digits_string_digits)

lemma digit_task_char: "is_digit_char c \<Longrightarrow> is_task_id_char c \<and> c \<noteq> dash"
  by (auto simp: is_digit_char_def is_task_id_char_def is_id_char_def is_alnum_lower_def dash_def Let_def)

lemma fixed_numbered: "fixed_id (''node-'' @ count_text k)" "fixed_id (''edge-'' @ count_text k)"
proof -
  have d: "list_all is_task_id_char (count_text k)" "count_text k \<noteq> []" "last (count_text k) \<noteq> dash"
    using count_text_digits [of k] digit_task_char by (auto simp: list_all_iff)
  show "fixed_id (''node-'' @ count_text k)" "fixed_id (''edge-'' @ count_text k)"
    using d by (auto simp: fixed_id_def is_task_id_char_def is_id_char_def is_alnum_lower_def dash_def)
qed

section \<open>Well-formed graphs\<close>

definition short_text :: "nat \<Rightarrow> string \<Rightarrow> bool" where
  "short_text k s \<longleftrightarrow> s \<noteq> [] \<and> \<not> js_space (hd s) \<and> length s \<le> k"

definition trimmed_text :: "string \<Rightarrow> bool" where
  "trimmed_text s \<longleftrightarrow> s \<noteq> [] \<and> js_trim s = s"

fun condition_wf :: "graph_condition \<Rightarrow> bool" where
  "condition_wf (CondEquals l r) = (trimmed_text l \<and> trimmed_text r)"
| "condition_wf _ = True"

definition node_wf :: "graph_node \<Rightarrow> bool" where
  "node_wf n \<longleftrightarrow> gn_type n \<in> set VALID_NODE_TYPES \<and> fixed_id (gn_id n) \<and> short_text 200 (gn_label n)
     \<and> pred_option (short_text MAX_NODE_TEXT_LENGTH) (gn_input n)
     \<and> pred_option (\<lambda>d. gn_type n = ''wait'' \<and> 0 < d) (gn_durationMs n)
     \<and> pred_option (\<lambda>c. gn_type n = ''condition'' \<and> condition_wf c) (gn_condition n)"

definition edge_wf :: "graph_edge \<Rightarrow> bool" where
  "edge_wf e \<longleftrightarrow> fixed_id (ge_id e) \<and> trimmed_text (ge_from e) \<and> trimmed_text (ge_to e)
     \<and> pred_option (\<lambda>on. on \<in> set VALID_EDGE_EVENTS) (ge_on e)"

definition layout_wf :: "string list \<Rightarrow> graph_layout \<Rightarrow> bool" where
  "layout_wf ids l \<longleftrightarrow> l \<noteq> [] \<and> (\<forall>(n, x, y) \<in> set l. n \<in> set ids \<and> 0 \<le> x \<and> x \<le> 2000 \<and> 0 \<le> y \<and> y \<le> 2000)"

text \<open>Each node can be left, unless it is an end, and reached, unless it starts; its kind has its paths.\<close>

definition node_connected :: "graph \<Rightarrow> graph_node \<Rightarrow> bool" where
  "node_connected g n \<longleftrightarrow>
     (gn_type n \<noteq> ''end'' \<longrightarrow> edges_from (gr_edges g) (gn_id n) \<noteq> [])
     \<and> (gn_id n \<noteq> gr_startNodeId g \<and> gn_type n \<noteq> ''start'' \<longrightarrow> edges_to (gr_edges g) (gn_id n) \<noteq> [])
     \<and> (gn_type n = ''approval'' \<longrightarrow>
         (\<exists>e \<in> set (edges_from (gr_edges g) (gn_id n)). ge_on e \<in> {Some ''approved'', Some ''next'', None}))
     \<and> (gn_type n = ''condition'' \<longrightarrow>
         (\<exists>e \<in> set (edges_from (gr_edges g) (gn_id n)). ge_on e = Some ''true'')
         \<and> (\<exists>e \<in> set (edges_from (gr_edges g) (gn_id n)). ge_on e = Some ''false''))"

definition graph_wf :: "graph \<Rightarrow> bool" where
  "graph_wf g \<longleftrightarrow>
     0 < length (gr_nodes g) \<and> length (gr_nodes g) \<le> 50 \<and> length (gr_edges g) \<le> 120
     \<and> distinct (map gn_id (gr_nodes g))
     \<and> gr_startNodeId g \<in> set (map gn_id (gr_nodes g))
     \<and> (\<forall>e \<in> set (gr_edges g). edge_wf e \<and> ge_from e \<in> set (map gn_id (gr_nodes g))
          \<and> ge_to e \<in> set (map gn_id (gr_nodes g)))
     \<and> (\<forall>n \<in> set (gr_nodes g). node_wf n \<and> node_connected g n)
     \<and> pred_option (layout_wf (map gn_id (gr_nodes g))) (gr_layout g)"

section \<open>What each check establishes\<close>

lemma readString_Some: "readString v = Some t \<Longrightarrow> trimmed_text t"
  unfolding readString_def trimmed_text_def by (drule trim_or_undef_Some) simp

lemma trimmed_hd: "trimmed_text s \<Longrightarrow> \<not> js_space (hd s)"
  using js_trim_ends(1) by (simp add: trimmed_text_def)

lemma trimmed_short: "trimmed_text s \<Longrightarrow> 0 < k \<Longrightarrow> short_text k (take k s)"
  using trimmed_hd by (auto simp: short_text_def trimmed_text_def hd_take)

lemma nullish_Some: "nullish a b = Some x \<Longrightarrow> a = Some x \<or> b = Some x"
  by (simp add: nullish_def split: option.splits)

lemma or_text_cases: "or_text a d = x \<Longrightarrow> a = Some x \<or> (a = None \<and> d = x)"
  by (simp add: or_text_def split: option.splits)

lemma node_label_trimmed: "trimmed_text (''Node '' @ count_text k)"
proof -
  have "is_digit_char (last (count_text k))" using count_text_digits [of k] by (simp add: list_all_iff)
  then have "\<not> js_space (last (count_text k))" using digit_task_char task_id_char_no_space by blast
  then show ?thesis using count_text_digits [of k]
    unfolding trimmed_text_def by (intro conjI js_trim_fixed) (auto simp: js_space_def)
qed

lemma normalizeCondition_wf:
  assumes "normalizeCondition raw = Inr (Some c)"
  shows "condition_wf c"
  using assms
  by (auto simp: normalizeCondition_def Let_def dest: readString_Some split: option.splits if_splits)

lemma readPositiveInteger_pos: "readPositiveInteger v = Some d \<Longrightarrow> 0 \<le> d"
  by (auto simp: readPositiveInteger_def split: option.splits json.splits js_number.splits if_splits)

lemma normalizeNode_wf:
  assumes "normalizeNode raw i = Inr n"
  shows "node_wf n"
proof -
  let ?k = "count_text (Suc i)"
  from assms obtain r where r: "as_record (Some raw) = Some r"
    by (auto simp: normalizeNode_def Let_def split: option.splits)
  define type where "type = or_text (readString (get_prop r ''type'')) ''task''"
  define label where "label = or_text (nullish (readString (get_prop r ''label'')) (readString (get_prop r ''name'')))
     (''Node '' @ ?k)"
  define inp where "inp = nullish (readString (get_prop r ''input''))
     (nullish (readString (get_prop r ''prompt'')) (readString (get_prop r ''message'')))"
  define dur where "dur = (if type = ''wait'' then nullish (readPositiveInteger (get_prop r ''durationMs''))
     (readPositiveInteger (get_prop r ''waitMs'')) else None)"
  from assms obtain c where ty: "type \<in> set VALID_NODE_TYPES"
    and c: "(if type = ''condition'' then normalizeCondition (get_prop r ''condition'') else Inr None) = Inr c"
    and n: "n = \<lparr>gn_id = normalize_id_or (or_text (readString (get_prop r ''id'')) label) (''node-'' @ ?k),
      gn_type = type, gn_label = take 200 label, gn_input = map_option (take MAX_NODE_TEXT_LENGTH) inp,
      gn_durationMs = (if dur = Some 0 then None else dur), gn_condition = c\<rparr>"
    by (auto simp: normalizeNode_def Let_def r bind_r_eq_Inr type_def label_def inp_def dur_def split: if_splits)
  have "trimmed_text label"
    unfolding label_def
    using node_label_trimmed readString_Some by (auto simp: or_text_def nullish_def split: option.split)
  then have "short_text 200 (take 200 label)" by (rule trimmed_short) simp
  moreover have "pred_option (short_text MAX_NODE_TEXT_LENGTH) (map_option (take MAX_NODE_TEXT_LENGTH) inp)"
    unfolding inp_def pred_option_all
    by (auto simp: MAX_NODE_TEXT_LENGTH_def intro!: trimmed_short dest!: nullish_Some readString_Some)
  moreover have "pred_option (\<lambda>d. type = ''wait'' \<and> 0 < d) (if dur = Some 0 then None else dur)"
  proof (cases dur)
    case (Some d)
    then have "type = ''wait''" "0 \<le> d"
      unfolding dur_def by (auto dest!: nullish_Some dest: readPositiveInteger_pos split: if_splits)
    then show ?thesis using Some by simp
  qed simp
  moreover have "pred_option (\<lambda>c. type = ''condition'' \<and> condition_wf c) c"
    using c normalizeCondition_wf by (auto simp: pred_option_all split: if_splits)
  ultimately show ?thesis
    using ty normalized_id_fixed [OF fixed_numbered(1)] by (simp add: node_wf_def n)
qed

lemma normalizeEdge_wf:
  assumes "normalizeEdge raw i = Inr e"
  shows "edge_wf e"
proof -
  from assms obtain r where r: "as_record (Some raw) = Some r"
    by (auto simp: normalizeEdge_def Let_def split: option.splits)
  define on where "on = nullish (readString (get_prop r ''on'')) (readString (get_prop r ''event''))"
  from assms obtain src dst where e: "readString (get_prop r ''from'') = Some src"
    "readString (get_prop r ''to'') = Some dst" "on = None \<or> the on \<in> set VALID_EDGE_EVENTS"
    "e = \<lparr>ge_id = normalize_id_or (or_text (readString (get_prop r ''id'')) (src @ ''-'' @ or_text on ''next'' @ ''-'' @ dst))
        (''edge-'' @ count_text (Suc i)), ge_from = src, ge_to = dst, ge_on = on\<rparr>"
    by (auto simp: normalizeEdge_def Let_def r bind_r_eq_Inr on_def split: option.splits if_splits)
  then show ?thesis
    using normalized_id_fixed [OF fixed_numbered(2)] readString_Some
    by (auto simp: edge_wf_def pred_option_all)
qed

lemma map_r_enumerate_wf:
  assumes "map_r (\<lambda>(i, x). f x i) (enumerate k xs) = Inr ys" and "\<And>x i y. f x i = Inr y \<Longrightarrow> P y"
  shows "(\<forall>y \<in> set ys. P y) \<and> length ys = length xs"
  using assms(1) by (induction xs arbitrary: k ys) (auto dest: assms(2) split: sum.splits)

lemma first_repeated_None: "first_repeated seen xs = None \<longleftrightarrow> distinct xs \<and> set xs \<inter> set seen = {}"
  by (induction seen xs rule: first_repeated.induct) auto

lemma missing_end_None:
  "missing_end ids es = None \<longleftrightarrow> (\<forall>e \<in> set es. ge_from e \<in> set ids \<and> ge_to e \<in> set ids)"
  by (induction ids es rule: missing_end.induct) auto

lemma first_fault_None: "first_fault s es ns = None \<longleftrightarrow> (\<forall>n \<in> set ns. node_fault s es n = None)"
  by (induction ns) (auto split: option.splits)

lemma node_fault_connected:
  "node_fault (gr_startNodeId g) (gr_edges g) n = None \<longleftrightarrow> node_connected g n"
  by (auto simp: node_fault_def node_connected_def list_ex_iff Let_def)

lemma clamp_bounds: "0 \<le> clamp_position x" "clamp_position x \<le> 2000"
  by (simp_all add: clamp_position_def)

lemma layout_entry_wf:
  "(n, x, y) \<in> set (layout_entry ids kv) \<Longrightarrow> n \<in> set ids \<and> 0 \<le> x \<and> x \<le> 2000 \<and> 0 \<le> y \<and> y \<le> 2000"
  unfolding layout_entry_def
  by (cases "as_record (Some (snd kv))")
     (auto split: option.splits if_splits json.splits js_number.splits simp: clamp_bounds)

lemma normalizeLayout_wf:
  assumes "normalizeLayout raw ids = Some l"
  shows "layout_wf ids l"
proof -
  from assms obtain ns where l: "l = concat (map (layout_entry ids) ns)" "l \<noteq> []"
    by (auto simp: normalizeLayout_def Let_def split: option.splits if_splits)
  show ?thesis unfolding layout_wf_def using l(2)
    by (auto simp: l(1) dest: layout_entry_wf)
qed

text \<open>Everything an accepted definition went through.\<close>

lemma normalizeGraph_Inr:
  assumes "normalizeGraph raw = Inr g"
  shows "\<exists>r nodesRaw edgesRaw nodes edges. as_record raw = Some r
    \<and> 0 < length nodesRaw \<and> length nodesRaw \<le> 50 \<and> length edgesRaw \<le> 120
    \<and> map_r (\<lambda>(i, x). normalizeNode x i) (enumerate 0 nodesRaw) = Inr nodes
    \<and> map_r (\<lambda>(i, x). normalizeEdge x i) (enumerate 0 edgesRaw) = Inr edges
    \<and> first_repeated [] (map gn_id nodes) = None \<and> checked_graph r nodes edges = Inr g"
proof -
  from assms obtain r where r: "as_record raw = Some r"
    by (auto simp: normalizeGraph_def split: option.splits)
  from assms r obtain nodesRaw nodes where nr: "nodesRaw \<noteq> []" "length nodesRaw \<le> MAX_GRAPH_NODES"
    and nodes: "map_r (\<lambda>(i, x). normalizeNode x i) (enumerate 0 nodesRaw) = Inr nodes"
    "first_repeated [] (map gn_id nodes) = None"
    and rest: "(let edgesRaw = (case as_array (get_prop r ''edges'') of None \<Rightarrow> [] | Some es \<Rightarrow> es) in
            if length edgesRaw > MAX_GRAPH_EDGES then Inl (Error ''workflow graph supports up to 120 edges'')
            else bind_r (map_r (\<lambda>(i, x). normalizeEdge x i) (enumerate 0 edgesRaw)) (\<lambda>edges.
            checked_graph r nodes edges)) = Inr g"
    by (auto simp: normalizeGraph_def bind_r_eq_Inr split: option.splits if_splits)
  from rest obtain edges where
    "length (case as_array (get_prop r ''edges'') of None \<Rightarrow> [] | Some es \<Rightarrow> es) \<le> MAX_GRAPH_EDGES"
    "map_r (\<lambda>(i, x). normalizeEdge x i)
       (enumerate 0 (case as_array (get_prop r ''edges'') of None \<Rightarrow> [] | Some es \<Rightarrow> es)) = Inr edges"
    "checked_graph r nodes edges = Inr g"
    by (auto simp: bind_r_eq_Inr Let_def split: if_splits)
  then show ?thesis using r nr nodes
    unfolding MAX_GRAPH_NODES_def MAX_GRAPH_EDGES_def by blast
qed

lemma checked_graph_Inr:
  assumes "checked_graph r nodes edges = Inr g"
  shows "gr_nodes g = nodes" "gr_edges g = edges" "gr_startNodeId g \<in> set (map gn_id nodes)"
    "missing_end (map gn_id nodes) edges = None" "first_fault (gr_startNodeId g) edges nodes = None"
    "gr_layout g = normalizeLayout (get_prop r ''layout'') (map gn_id nodes)"
  using assms by (auto simp: checked_graph_def Let_def split: option.splits if_splits)

lemma normalizeGraph_wf:
  assumes "normalizeGraph raw = Inr g"
  shows "graph_wf g"
proof -
  from normalizeGraph_Inr [OF assms] obtain r nodesRaw edgesRaw nodes edges where
    len: "0 < length nodesRaw" "length nodesRaw \<le> 50" "length edgesRaw \<le> 120"
    and nodes: "map_r (\<lambda>(i, x). normalizeNode x i) (enumerate 0 nodesRaw) = Inr nodes"
    and edges: "map_r (\<lambda>(i, x). normalizeEdge x i) (enumerate 0 edgesRaw) = Inr edges"
    and dist: "first_repeated [] (map gn_id nodes) = None" and g: "checked_graph r nodes edges = Inr g"
    by blast
  note c = checked_graph_Inr [OF g]
  note n = map_r_enumerate_wf [OF nodes, of node_wf, OF normalizeNode_wf]
  note e = map_r_enumerate_wf [OF edges, of edge_wf, OF normalizeEdge_wf]
  show ?thesis
    unfolding graph_wf_def
    using len n e c dist normalizeLayout_wf
    by (auto simp: first_repeated_None missing_end_None first_fault_None node_fault_connected [symmetric]
        pred_option_all)
qed


section \<open>The stored definition is accepted again\<close>

text \<open>
  The validator cuts labels and inputs to their length after trimming them, so a cut text may end in a
  blank that the next validation trims.
\<close>

definition tidy_node :: "graph_node \<Rightarrow> graph_node" where
  "tidy_node n = n\<lparr>gn_label := js_trim (gn_label n), gn_input := map_option js_trim (gn_input n)\<rparr>"

definition tidy_graph :: "graph \<Rightarrow> graph" where
  "tidy_graph g = g\<lparr>gr_nodes := map tidy_node (gr_nodes g)\<rparr>"

lemma tidy_node_simps [simp]:
  "gn_id (tidy_node n) = gn_id n" "gn_type (tidy_node n) = gn_type n"
  "gn_condition (tidy_node n) = gn_condition n"
  by (simp_all add: tidy_node_def)

lemma readString_JStr: "readString (Some (JStr s)) = (if js_trim s = [] then None else Some (js_trim s))"
  by (simp add: readString_def trim_or_undef_def Let_def)

lemma readString_None [simp]: "readString None = None"
  by (simp add: readString_def trim_or_undef_def)

lemma readString_trimmed: "trimmed_text s \<Longrightarrow> readString (Some (JStr s)) = Some s"
  by (simp add: readString_JStr trimmed_text_def)

lemma trim_length: "length (js_trim s) \<le> length s"
  unfolding js_trim_def by (metis length_dropWhile_le length_rev order_trans)

lemma short_text_trim:
  assumes "short_text k s"
  shows "js_trim s \<noteq> []" "take k (js_trim s) = js_trim s"
proof -
  obtain c r where "s = c # r" "\<not> js_space c" using assms by (cases s) (auto simp: short_text_def)
  then show "js_trim s \<noteq> []" by (simp add: js_trim_nonempty_Cons)
  show "take k (js_trim s) = js_trim s" using assms trim_length [of s] by (simp add: short_text_def)
qed

lemma readString_short: "short_text k s \<Longrightarrow> readString (Some (JStr s)) = Some (js_trim s)"
  using short_text_trim(1) by (simp add: readString_JStr)

lemma readString_fixed: "fixed_id s \<Longrightarrow> readString (Some (JStr s)) = Some s"
  by (simp add: readString_JStr fixed_id_trim) (simp add: fixed_id_def)

lemma valid_words_trimmed: "list_all trimmed_text (VALID_NODE_TYPES @ VALID_EDGE_EVENTS)"
  by code_simp

lemma readString_type: "t \<in> set VALID_NODE_TYPES \<Longrightarrow> readString (Some (JStr t)) = Some t"
  and readString_event: "t \<in> set VALID_EDGE_EVENTS \<Longrightarrow> readString (Some (JStr t)) = Some t"
  using valid_words_trimmed by (auto simp: list_all_iff readString_trimmed)

lemma readPositiveInteger_int: "0 < d \<Longrightarrow> readPositiveInteger (Some (int_json d)) = Some d"
  by (simp add: readPositiveInteger_def int_json_def)

lemma readPositiveInteger_None [simp]: "readPositiveInteger None = None"
  by (simp add: readPositiveInteger_def)

lemma as_record_JObj [simp]: "as_record (Some (JObj r)) = Some r" "as_record None = None"
  by (simp_all add: as_record_def)

lemma as_array_JArr [simp]: "as_array (Some (JArr r)) = Some r" "as_array None = None"
  by (simp_all add: as_array_def)

lemma nullish_simps [simp]: "nullish None b = b" "nullish (Some x) b = Some x" "nullish a None = a"
  by (simp_all add: nullish_def split: option.split)

lemma or_text_simps [simp]: "or_text None d = d" "or_text (Some x) d = x"
  by (simp_all add: or_text_def)

lemma condition_roundtrip:
  "pred_option condition_wf (Some c) \<Longrightarrow> normalizeCondition (Some (condition_json c)) = Inr (Some c)"
proof (cases c)
  case CondAlways
  have "readString (Some (JStr ''always'')) = Some ''always''" by code_simp
  then show ?thesis by (simp add: CondAlways normalizeCondition_def condition_json_def)
next
  case CondNever
  have "readString (Some (JStr ''never'')) = Some ''never''" by code_simp
  then show ?thesis by (simp add: CondNever normalizeCondition_def condition_json_def)
next
  case (CondEquals l r)
  assume wf: "pred_option condition_wf (Some c)"
  have "readString (Some (JStr ''equals'')) = Some ''equals''" by code_simp
  then show ?thesis using wf
    by (simp add: CondEquals normalizeCondition_def condition_json_def readString_trimmed)
qed

lemma safe_keys:
  assumes "set (map fst r) \<subseteq> set [''id'', ''type'', ''label'', ''input'', ''durationMs'', ''condition'', ''from'', ''to'',
     ''on'', ''version'', ''startNodeId'', ''nodes'', ''edges'', ''layout'']"
  shows "assertNoUnsafeGraphKeys r path = Inr ()"
proof -
  have "list_all (\<lambda>k. \<not> unsafe_key k) [''id'', ''type'', ''label'', ''input'', ''durationMs'', ''condition'', ''from'',
      ''to'', ''on'', ''version'', ''startNodeId'', ''nodes'', ''edges'', ''layout'']" by code_simp
  then have "\<forall>k \<in> set (map fst r). \<not> unsafe_key k" using assms unfolding list_all_iff by blast
  then have "find unsafe_key (map fst r) = None" by (simp only: find_None_iff) blast
  then show ?thesis by (simp add: assertNoUnsafeGraphKeys_def)
qed

lemma json_field_keys: "set (map fst (json_field k v)) \<subseteq> {k}"
  by (cases v) (auto simp: json_field_def)


lemma node_roundtrip:
  assumes wf: "node_wf n"
  shows "normalizeNode (node_json n) i = Inr (tidy_node n)"
proof -
  define r where "r = [(''id'', JStr (gn_id n)), (''type'', JStr (gn_type n)), (''label'', JStr (gn_label n))]
     @ opt_field ''input'' (gn_input n) @ json_field ''durationMs'' (map_option int_json (gn_durationMs n))
     @ json_field ''condition'' (map_option condition_json (gn_condition n))"
  have safe: "assertNoUnsafeGraphKeys r path = Inr ()" for path
    unfolding r_def using json_field_keys by (intro safe_keys) (auto 4 3 simp del: json_field_def)
  have fields: "readString (get_prop r ''id'') = Some (gn_id n)" "readString (get_prop r ''type'') = Some (gn_type n)"
    "readString (get_prop r ''label'') = Some (js_trim (gn_label n))"
    using wf unfolding node_wf_def r_def
    by (simp_all add: readString_fixed readString_type readString_short [of 200])
  have inp: "readString (get_prop r ''input'') = map_option js_trim (gn_input n)"
    "get_prop r ''prompt'' = None" "get_prop r ''message'' = None"
    using wf unfolding node_wf_def r_def by (cases "gn_input n"; simp add: readString_short [of MAX_NODE_TEXT_LENGTH])+
  have dur: "readPositiveInteger (get_prop r ''durationMs'') = gn_durationMs n" "get_prop r ''waitMs'' = None"
    using wf unfolding node_wf_def r_def by (cases "gn_durationMs n"; simp add: readPositiveInteger_int)+
  have cond: "normalizeCondition (get_prop r ''condition'') = Inr (gn_condition n)"
    using wf condition_roundtrip unfolding node_wf_def r_def
    by (cases "gn_condition n") (simp_all add: normalizeCondition_def [of None])
  have lbl: "take 200 (js_trim (gn_label n)) = js_trim (gn_label n)"
    using wf short_text_trim unfolding node_wf_def by blast
  have itx: "map_option (take MAX_NODE_TEXT_LENGTH) (map_option js_trim (gn_input n)) = map_option js_trim (gn_input n)"
    using wf short_text_trim(2) unfolding node_wf_def by (cases "gn_input n") simp_all
  have dty: "(if gn_type n = ''wait'' then gn_durationMs n else None) = gn_durationMs n" "gn_durationMs n \<noteq> Some 0"
    and cty: "(if gn_type n = ''condition'' then Inr (gn_condition n) else Inr None) = (Inr (gn_condition n) :: _ result)"
    using wf unfolding node_wf_def by (auto simp: pred_option_all)
  have "node_json n = JObj r" by (simp add: node_json_def r_def)
  moreover have "gn_type n \<in> set VALID_NODE_TYPES" "fixed_id (gn_id n)" using wf by (simp_all add: node_wf_def)
  ultimately show ?thesis
    by (simp add: normalizeNode_def Let_def safe fields inp dur cond lbl itx dty cty normalize_fixed tidy_node_def
        del: option.map_comp cong: if_cong)
qed

lemma edge_roundtrip:
  assumes wf: "edge_wf e"
  shows "normalizeEdge (edge_json e) i = Inr e"
proof -
  define r where "r = [(''id'', JStr (ge_id e)), (''from'', JStr (ge_from e)), (''to'', JStr (ge_to e))]
     @ opt_field ''on'' (ge_on e)"
  have safe: "assertNoUnsafeGraphKeys r path = Inr ()" for path
    unfolding r_def using json_field_keys by (intro safe_keys) (auto 4 3)
  have fields: "readString (get_prop r ''id'') = Some (ge_id e)" "readString (get_prop r ''from'') = Some (ge_from e)"
    "readString (get_prop r ''to'') = Some (ge_to e)" "readString (get_prop r ''on'') = ge_on e"
    "get_prop r ''event'' = None"
    using wf unfolding edge_wf_def r_def
    by (cases "ge_on e"; simp add: readString_fixed readString_trimmed readString_event)+
  have on: "ge_on e = None \<or> the (ge_on e) \<in> set VALID_EDGE_EVENTS" "fixed_id (ge_id e)"
    using wf unfolding edge_wf_def by (cases "ge_on e"; simp)+
  have "edge_json e = JObj r" by (simp add: edge_json_def r_def)
  then show ?thesis using on
    by (simp add: normalizeEdge_def Let_def safe fields normalize_fixed)
qed


lemma map_r_enumerate_same:
  "(\<And>x i. x \<in> set xs \<Longrightarrow> f (h x) i = Inr (g x))
    \<Longrightarrow> map_r (\<lambda>(i, x). f x i) (enumerate k (map h xs)) = Inr (map g xs)"
  by (induction xs arbitrary: k) auto

lemma layout_entry_json:
  assumes "n \<in> set ids" "0 \<le> x" "x \<le> 2000" "0 \<le> y" "y \<le> 2000"
  shows "layout_entry ids (n, JObj [(''x'', int_json x), (''y'', int_json y)]) = [(n, x, y)]"
proof -
  have c: "clamp_position (of_int i) = i" if "0 \<le> i" "i \<le> 2000" for i
  proof -
    have "\<lfloor>of_int i + 1 / (2::rat)\<rfloor> = i" by linarith
    then show ?thesis using that by (simp add: clamp_position_def)
  qed
  show ?thesis using assms by (simp add: layout_entry_def int_json_def c)
qed

lemma layout_roundtrip:
  assumes "layout_wf ids l"
  shows "normalizeLayout (Some (layout_json l)) ids = Some l"
proof -
  have "concat (map (layout_entry ids) (map (\<lambda>(n, x, y). (n, JObj [(''x'', int_json x), (''y'', int_json y)])) l)) = l"
    if "\<forall>(n, x, y) \<in> set l. n \<in> set ids \<and> 0 \<le> x \<and> x \<le> 2000 \<and> 0 \<le> y \<and> y \<le> 2000"
    using that by (induction l) (auto simp: layout_entry_json)
  then show ?thesis using assms unfolding layout_wf_def by (simp add: normalizeLayout_def layout_json_def Let_def del: map_map)
qed

lemma layout_option_roundtrip:
  "pred_option (layout_wf ids) l \<Longrightarrow> normalizeLayout (map_option layout_json l) ids = l"
  by (cases l) (simp_all add: layout_roundtrip normalizeLayout_def [of None])

lemma node_fault_tidy [simp]: "node_fault s es (tidy_node n) = node_fault s es n"
  by (simp only: node_fault_def tidy_node_simps)

lemma graph_roundtrip:
  assumes wf: "graph_wf g"
  shows "normalizeGraph (Some (graph_json g)) = Inr (tidy_graph g)"
proof -
  define r where "r = [(''version'', int_json 2), (''startNodeId'', JStr (gr_startNodeId g)),
     (''nodes'', JArr (map node_json (gr_nodes g))), (''edges'', JArr (map edge_json (gr_edges g)))]
     @ json_field ''layout'' (map_option layout_json (gr_layout g))"
  note w = wf [unfolded graph_wf_def]
  let ?ids = "map gn_id (gr_nodes g)"
  have safe: "assertNoUnsafeGraphKeys r path = Inr ()" for path
    unfolding r_def using json_field_keys by (intro safe_keys) (auto 4 3)
  have nodes: "map_r (\<lambda>(i, x). normalizeNode x i) (enumerate 0 (map node_json (gr_nodes g)))
      = Inr (map tidy_node (gr_nodes g))"
    using w by (intro map_r_enumerate_same node_roundtrip) blast
  have edges: "map_r (\<lambda>(i, x). normalizeEdge x i) (enumerate 0 (map edge_json (gr_edges g))) = Inr (gr_edges g)"
    using map_r_enumerate_same [of "gr_edges g" normalizeEdge edge_json "\<lambda>e. e" 0] w edge_roundtrip by simp
  have ids: "map gn_id (map tidy_node (gr_nodes g)) = ?ids" by simp
  have "fixed_id (gr_startNodeId g)"
    using w unfolding node_wf_def by auto
  then have start: "start_of r (map tidy_node (gr_nodes g)) = gr_startNodeId g"
    unfolding start_of_def r_def by (simp add: readString_fixed)
  have fault: "first_fault (gr_startNodeId g) (gr_edges g) (map tidy_node (gr_nodes g)) = None"
  proof -
    have "\<forall>n \<in> set (gr_nodes g). node_fault (gr_startNodeId g) (gr_edges g) n = None"
      using w node_fault_connected by blast
    then show ?thesis by (simp add: first_fault_None)
  qed
  have miss: "missing_end ?ids (gr_edges g) = None" using w by (auto simp: missing_end_None)
  have lay: "normalizeLayout (get_prop r ''layout'') ?ids = gr_layout g"
    unfolding r_def using w by (simp add: layout_option_roundtrip)
  have chk: "checked_graph r (map tidy_node (gr_nodes g)) (gr_edges g) = Inr (tidy_graph g)"
    unfolding checked_graph_def ids Let_def start miss lay fault
    using w by (simp add: tidy_graph_def)
  have "first_repeated [] ?ids = None" using w by (simp add: first_repeated_None)
  moreover have "get_prop r ''nodes'' = Some (JArr (map node_json (gr_nodes g)))"
    "get_prop r ''edges'' = Some (JArr (map edge_json (gr_edges g)))" by (simp_all add: r_def)
  moreover have "gr_nodes g \<noteq> []" "length (gr_nodes g) \<le> MAX_GRAPH_NODES" "length (gr_edges g) \<le> MAX_GRAPH_EDGES"
    using w by (auto simp: MAX_GRAPH_NODES_def MAX_GRAPH_EDGES_def)
  moreover have "graph_json g = JObj r" by (simp add: graph_json_def r_def)
  ultimately show ?thesis
    using nodes edges chk by (simp add: normalizeGraph_def safe ids del: map_map)
qed

lemma tidy_wf: "graph_wf g \<Longrightarrow> graph_wf (tidy_graph g)"
  by (rule normalizeGraph_wf [OF graph_roundtrip])

lemma tidy_graph_idem [simp]: "tidy_graph (tidy_graph g) = tidy_graph g"
  by (simp add: tidy_graph_def tidy_node_def option.map_comp comp_def)


section \<open>Fields that the validator means to refuse\<close>

lemma js_lower_char_no_upper:
  "\<not> (65 \<le> (of_char (js_lower_char c) :: nat) \<and> (of_char (js_lower_char c) :: nat) \<le> 90)"
proof -
  have "(of_char c :: nat) < 256" by (rule nat_of_char_less_256)
  then show ?thesis by (auto simp: js_lower_char_def Let_def)
qed

text \<open>
  The keys are compared in lower case, and three members of the set are not: no key is refused on
  account of \<open>walletGrant\<close>, \<open>toolGrant\<close> or \<open>dangerouslyForceUnsafeInstall\<close>.
\<close>

theorem workflow_grant_keys_pass:
  "unsafe_key k \<longleftrightarrow> js_lower (js_trim k) \<in> set [''script'', ''command'', ''shell'', ''exec'', ''code'', ''javascript'',
     ''args'', ''env'', ''grants'', ''permissions'']"
proof -
  have no: "js_lower s \<noteq> t" if "c \<in> set t" "65 \<le> (of_char c :: nat)" "(of_char c :: nat) \<le> 90" for s t c
    using that js_lower_char_no_upper by (auto simp: js_lower_def)
  have "js_lower s \<noteq> ''walletGrant''" "js_lower s \<noteq> ''toolGrant''" for s
    by (rule no [of "CHR ''G''"]; simp)+
  moreover have "js_lower s \<noteq> ''dangerouslyForceUnsafeInstall''" for s
    by (rule no [of "CHR ''F''"]; simp)
  ultimately show ?thesis by (auto simp: unsafe_key_def UNSAFE_GRAPH_KEYS_def)
qed

end
