(* ===== verification/WorkflowRun.thy ===== *)
theory WorkflowRun
  imports WorkflowValid
begin

text \<open>
  What a run of an accepted graph does: the path it takes, how it ends, and what the task record then
  says. Findings on the approval gate are at the end.
\<close>

section \<open>The path of a run\<close>

definition next_of :: "graph \<Rightarrow> graph_node \<Rightarrow> string option" where
  "next_of g n = nextNodeId g (gn_id n) (event_of n)"

definition passes :: "graph_node \<Rightarrow> bool" where
  "passes n \<longleftrightarrow> gn_type n \<notin> {''approval'', ''end''}"

text \<open>The nodes are the ones that the run reaches one after the other from \<open>current\<close>.\<close>

fun trail :: "graph \<Rightarrow> string option \<Rightarrow> graph_node list \<Rightarrow> bool" where
  "trail g current [] = True"
| "trail g current (n # ns) =
     ((case current of None \<Rightarrow> False | Some i \<Rightarrow> node_at g i = Some n)
      \<and> (ns = [] \<or> (passes n \<and> trail g (next_of g n) ns)))"

text \<open>A run is over after these nodes: at an end, or where no edge leads on.\<close>

definition run_over :: "graph \<Rightarrow> graph_node list \<Rightarrow> bool" where
  "run_over g ns \<longleftrightarrow> ns \<noteq> [] \<and> gn_type (last ns) \<noteq> ''approval''
     \<and> (gn_type (last ns) = ''end'' \<or> next_of g (last ns) = None)"

definition arrive :: "int \<Rightarrow> string \<Rightarrow> graph_node \<Rightarrow> task list \<Rightarrow> task list" where
  "arrive now runId n tasks = updateGraphNodeStep now runId (gn_id n) StRunning (graphNodeRunningSummary n) None tasks"

definition settle :: "int \<Rightarrow> string \<Rightarrow> graph_node \<Rightarrow> task list \<Rightarrow> task list" where
  "settle now runId n tasks =
     updateGraphNodeStep now runId (gn_id n) StSucceeded (graphNodeSuccessSummary n) None (arrive now runId n tasks)"

definition in_graph :: "graph \<Rightarrow> string option \<Rightarrow> bool" where
  "in_graph g current \<longleftrightarrow> pred_option (\<lambda>i. i \<in> set (map gn_id (gr_nodes g))) current"

lemma node_at_SomeD: "node_at g i = Some n \<Longrightarrow> n \<in> set (gr_nodes g) \<and> gn_id n = i"
  unfolding node_at_def by (drule find_SomeD) auto

lemma node_at_ex: "i \<in> set (map gn_id (gr_nodes g)) \<Longrightarrow> \<exists>n. node_at g i = Some n"
  unfolding node_at_def using find_NoneD [of "\<lambda>x. gn_id x = i" "rev (gr_nodes g)"]
  by (cases "find (\<lambda>x. gn_id x = i) (rev (gr_nodes g))") auto

lemma nextNodeId_edge:
  assumes "nextNodeId g i ev = Some j"
  shows "\<exists>e \<in> set (gr_edges g). ge_from e = i \<and> ge_to e = j"
proof -
  let ?f = "\<lambda>on. find (\<lambda>e. ge_on e = on) (edges_from (gr_edges g) i)"
  obtain e where "e \<in> set (edges_from (gr_edges g) i)" "ge_to e = j"
    using assms find_SomeD [of _ "edges_from (gr_edges g) i"]
    unfolding nextNodeId_def Let_def
    by (auto dest!: nullish_Some)
  then show ?thesis by (auto simp: edges_from_def)
qed

lemma next_in_graph: "graph_wf g \<Longrightarrow> in_graph g (nextNodeId g i ev)"
  unfolding in_graph_def graph_wf_def using nextNodeId_edge by (auto simp: pred_option_all) fastforce

lemma node_id_nonempty: "graph_wf g \<Longrightarrow> n \<in> set (gr_nodes g) \<Longrightarrow> gn_id n \<noteq> []"
  by (auto simp: graph_wf_def node_wf_def fixed_id_def)

definition loop_ok ::
  "graph \<Rightarrow> int \<Rightarrow> string \<Rightarrow> string option \<Rightarrow> string list \<Rightarrow> task list \<Rightarrow> loop_end \<Rightarrow> bool" where
  "loop_ok g now runId current visited tasks r \<longleftrightarrow>
     (\<exists>ns. trail g current ns \<and> length visited + length ns \<le> 51
      \<and> (case r of
           LoopDone v ts \<Rightarrow> v = visited @ map gn_id ns \<and> ts = fold (settle now runId) ns tasks
             \<and> (if current = None then ns = [] else run_over g ns)
         | LoopPaused n v ts \<Rightarrow> ns \<noteq> [] \<and> n = last ns \<and> gn_type n = ''approval'' \<and> v = visited @ map gn_id ns
             \<and> ts = arrive now runId n (fold (settle now runId) (butlast ns) tasks)
         | LoopThrew m ts \<Rightarrow> m = ''workflow graph exceeded node execution limit; possible cycle''
             \<and> length visited + length ns = 51 \<and> list_all passes ns \<and> ts = fold (settle now runId) ns tasks))"

lemma loop_ok_step:
  assumes n: "node_at g i = Some n" "passes n"
    and ok: "loop_ok g now runId (next_of g n) (visited @ [gn_id n]) (settle now runId n tasks) r"
  shows "loop_ok g now runId (Some i) visited tasks r"
proof -
  from ok obtain ns where ns: "trail g (next_of g n) ns" "length visited + Suc (length ns) \<le> 51"
    and c: "case r of
           LoopDone v ts \<Rightarrow> v = (visited @ [gn_id n]) @ map gn_id ns \<and> ts = fold (settle now runId) ns (settle now runId n tasks)
             \<and> (if next_of g n = None then ns = [] else run_over g ns)
         | LoopPaused n' v ts \<Rightarrow> ns \<noteq> [] \<and> n' = last ns \<and> gn_type n' = ''approval'' \<and> v = (visited @ [gn_id n]) @ map gn_id ns
             \<and> ts = arrive now runId n' (fold (settle now runId) (butlast ns) (settle now runId n tasks))
         | LoopThrew m ts \<Rightarrow> m = ''workflow graph exceeded node execution limit; possible cycle''
             \<and> length (visited @ [gn_id n]) + length ns = 51 \<and> list_all passes ns \<and> ts = fold (settle now runId) ns (settle now runId n tasks)"
    unfolding loop_ok_def by auto
  have "trail g (Some i) (n # ns)" using n ns(1) by simp
  moreover have "length visited + length (n # ns) \<le> 51" using ns(2) by simp
  moreover have "run_over g (n # ns)" if "if next_of g n = None then ns = [] else run_over g ns"
    using that n(2) by (cases ns) (auto simp: run_over_def passes_def split: if_splits)
  ultimately show ?thesis
    unfolding loop_ok_def using c n(2) by (intro exI [of _ "n # ns"]) (auto split: loop_end.splits)
qed

lemma graph_loop_ok:
  assumes "graph_wf g" "in_graph g current" "length visited \<le> 51"
  shows "loop_ok g now runId current visited tasks (graph_loop g now runId current visited tasks)"
  using assms
proof (induction g now runId current visited tasks rule: graph_loop.induct)
  case (1 g now runId current visited tasks)
  show ?case
  proof (cases current)
    case None
    then show ?thesis using "1.prems"
      by (simp add: graph_loop.simps loop_ok_def)
  next
    case (Some i)
    obtain n where n: "node_at g i = Some n" using "1.prems"(2) node_at_ex Some by (auto simp: in_graph_def)
    have ne: "i \<noteq> []" using n node_id_nonempty [OF "1.prems"(1)] node_at_SomeD by blast
    show ?thesis
    proof (cases "length visited > MAX_GRAPH_NODES")
      case True
      then have "length visited = 51" using "1.prems"(3) by (simp add: MAX_GRAPH_NODES_def)
      then show ?thesis using True ne unfolding Some
        by (subst graph_loop.simps) (simp add: loop_ok_def)
    next
      case False
      then have len: "length visited \<le> 50" by (simp add: MAX_GRAPH_NODES_def)
      consider (approval) "gn_type n = ''approval''" | (final) "gn_type n = ''end''" | (pass) "passes n"
        by (auto simp: passes_def)
      then show ?thesis
      proof cases
        case approval
        then show ?thesis using False ne n len unfolding Some
          by (subst graph_loop.simps)
             (simp add: loop_ok_def Let_def, intro exI [of _ "[n]"], simp add: arrive_def)
      next
        case final
        then show ?thesis using False ne n len unfolding Some
          by (subst graph_loop.simps)
             (simp add: loop_ok_def Let_def, intro exI [of _ "[n]"], simp add: settle_def arrive_def run_over_def)
      next
        case pass
        then have ty: "gn_type n \<noteq> ''approval''" "gn_type n \<noteq> ''end''" by (simp_all add: passes_def)
        have "graph_loop g now runId (Some i) visited tasks
            = graph_loop g now runId (next_of g n) (visited @ [gn_id n]) (settle now runId n tasks)"
          using False ne n ty by (subst graph_loop.simps) (simp add: Let_def settle_def arrive_def next_of_def)
        moreover have "loop_ok g now runId (next_of g n) (visited @ [gn_id n]) (settle now runId n tasks)
            (graph_loop g now runId (next_of g n) (visited @ [gn_id n]) (settle now runId n tasks))"
          unfolding next_of_def settle_def arrive_def
          using "1.IH" [OF Some ne False n refl refl ty(1) refl ty(2)] "1.prems"(1) next_in_graph len
          by simp
        ultimately show ?thesis using loop_ok_step [OF n pass] Some by simp
      qed
    qed
  qed
qed


section \<open>Cycles\<close>

definition edge_rel :: "graph \<Rightarrow> (string \<times> string) set" where
  "edge_rel g = set (map (\<lambda>e. (ge_from e, ge_to e)) (gr_edges g))"

lemma next_of_edge: "next_of g n = Some j \<Longrightarrow> (gn_id n, j) \<in> edge_rel g"
  unfolding next_of_def edge_rel_def by (drule nextNodeId_edge) force

lemma trail_reaches: "trail g current ns \<Longrightarrow> current = Some i \<Longrightarrow> n \<in> set ns \<Longrightarrow> (i, gn_id n) \<in> (edge_rel g)\<^sup>*"
proof (induction g current ns arbitrary: i rule: trail.induct)
  case (2 g current m ns)
  have m: "gn_id m = i" using "2.prems" node_at_SomeD by auto
  show ?case
  proof (cases "n = m")
    case False
    then have "n \<in> set ns" using "2.prems"(3) by simp
    then obtain j where "next_of g m = Some j" "(j, gn_id n) \<in> (edge_rel g)\<^sup>*"
      using "2.prems"(1) "2.IH" by (cases ns; cases "next_of g m") auto
    then show ?thesis using next_of_edge m by (metis converse_rtrancl_into_rtrancl)
  qed (simp add: m)
qed simp

lemma trail_distinct:
  "acyclic (edge_rel g) \<Longrightarrow> trail g current ns \<Longrightarrow> distinct (map gn_id ns) \<and> set ns \<subseteq> set (gr_nodes g)"
proof (induction g current ns rule: trail.induct)
  case (2 g current n ns)
  then obtain i where i: "current = Some i" "node_at g i = Some n" by (cases current) auto
  show ?case
  proof (cases "ns = []")
    case False
    then have t: "trail g (next_of g n) ns" using "2.prems" by simp
    then obtain j where j: "next_of g n = Some j" using False by (cases ns; cases "next_of g n") auto
    have "gn_id n \<noteq> gn_id m" if "m \<in> set ns" for m
    proof -
      have "(gn_id n, gn_id m) \<in> (edge_rel g)\<^sup>+"
        using trail_reaches [OF t j that] next_of_edge [OF j] by (rule rtrancl_into_trancl2 [rotated])
      then show ?thesis using "2.prems"(1) unfolding acyclic_def by auto
    qed
    then show ?thesis using "2.IH" "2.prems"(1) False t i(2) node_at_SomeD by auto
  qed (use i(2) node_at_SomeD in auto)
qed simp

lemma acyclic_trail_short:
  assumes "graph_wf g" "acyclic (edge_rel g)" "trail g current ns"
  shows "length ns \<le> 50"
proof -
  have d: "distinct (map gn_id ns)" "set ns \<subseteq> set (gr_nodes g)" using trail_distinct [OF assms(2,3)] by auto
  have "length ns = card (set ns)" using d(1) by (simp add: distinct_card distinct_map)
  also have "\<dots> \<le> card (set (gr_nodes g))" using d(2) by (intro card_mono) auto
  also have "\<dots> \<le> 50" using card_length [of "gr_nodes g"] assms(1) by (simp add: graph_wf_def)
  finally show ?thesis .
qed


section \<open>What a run leaves in the task record\<close>

definition status_of :: "task \<Rightarrow> string \<Rightarrow> step_status option" where
  "status_of t = map_of (map (\<lambda>s. (ts_id s, ts_status s)) (steps_of t))"

text \<open>The fields that an event of a run leaves as they are.\<close>

definition same_run :: "task \<Rightarrow> task \<Rightarrow> bool" where
  "same_run a b \<longleftrightarrow> tk_runId b = tk_runId a \<and> tk_taskKind b = tk_taskKind a \<and> tk_taskId b = tk_taskId a"

lemma same_run_refl [simp]: "same_run t t"
  by (simp add: same_run_def)

lemma same_run_trans [trans]: "same_run a b \<Longrightarrow> same_run b c \<Longrightarrow> same_run a c"
  by (simp add: same_run_def)

lemma trim_or_undef_fixed: "fixed_id s \<Longrightarrow> trim_or_undef (Some s) = Some s"
  by (simp add: trim_or_undef_def fixed_id_trim) (simp add: fixed_id_def)

lemma renormalized_fields [simp]:
  "tk_runId (renormalized now t) = tk_runId t" "tk_taskKind (renormalized now t) = tk_taskKind t"
  "tk_metadata (renormalized now t) = tk_metadata t" "tk_status (renormalized now t) = tk_status t"
  "tk_steps (renormalized now t) = tk_steps t"
  by (simp_all add: renormalized_def normalizeRecord_def Let_def)

lemma renormalized_taskId: "fixed_id (tk_taskId t) \<Longrightarrow> tk_taskId (renormalized now t) = tk_taskId t"
  by (simp add: renormalized_def normalizeRecord_def Let_def buildTaskId_def trim_or_undef_fixed normalizeTaskId_def
      normalize_fixed)

lemma steps_of_cong: "tk_steps a = tk_steps b \<Longrightarrow> steps_of a = steps_of b"
  by (simp add: steps_of_def)

text \<open>The record of a run within the store: the first with the run's id.\<close>

definition run_at :: "string \<Rightarrow> task list \<Rightarrow> task \<Rightarrow> task list \<Rightarrow> task list \<Rightarrow> bool" where
  "run_at runId pre t post tasks \<longleftrightarrow> tasks = pre @ t # post \<and> list_all (\<lambda>x. \<not> task_has_key runId x) pre
     \<and> trimmed_text runId \<and> tk_runId t = Some runId \<and> fixed_id (tk_taskId t)"

lemma update_first_run:
  "run_at runId pre t post tasks \<Longrightarrow> update_first (task_has_key runId) f tasks = pre @ f t # post"
proof -
  have "update_first (task_has_key runId) f (xs @ t # post) = xs @ f t # post"
    if "list_all (\<lambda>x. \<not> task_has_key runId x) xs" "tk_runId t = Some runId" for xs
    using that by (induction xs) (auto simp: task_has_key_def)
  then show "run_at runId pre t post tasks \<Longrightarrow> update_first (task_has_key runId) f tasks = pre @ f t # post"
    by (simp add: run_at_def)
qed

lemma find_run: "run_at runId pre t post tasks \<Longrightarrow> find (task_has_key runId) tasks = Some t"
proof -
  have "find (task_has_key runId) (xs @ t # post) = Some t"
    if "list_all (\<lambda>x. \<not> task_has_key runId x) xs" "tk_runId t = Some runId" for xs
    using that by (induction xs) (auto simp: task_has_key_def)
  then show "run_at runId pre t post tasks \<Longrightarrow> find (task_has_key runId) tasks = Some t"
    by (simp add: run_at_def)
qed

lemma findTaskRecord_run: "run_at runId pre t post tasks \<Longrightarrow> findTaskRecord runId tasks = Some t"
  using find_run by (simp add: findTaskRecord_def Let_def run_at_def trimmed_text_def)

lemma update_run:
  assumes run: "run_at runId pre t post tasks"
    and keep: "tk_runId (f t) = tk_runId t" "tk_taskKind (f t) = tk_taskKind t" "tk_taskId (f t) = tk_taskId t"
  shows "updateTaskRecord now runId (\<lambda>t. Some (f t)) tasks
      = (Some (renormalized now (f t)), pre @ renormalized now (f t) # post)"
    "run_at runId pre (renormalized now (f t)) post (pre @ renormalized now (f t) # post)"
    "same_run t (renormalized now (f t))"
proof -
  have "js_trim runId = runId" "runId \<noteq> []" using run by (simp_all add: run_at_def trimmed_text_def)
  then show "updateTaskRecord now runId (\<lambda>t. Some (f t)) tasks
      = (Some (renormalized now (f t)), pre @ renormalized now (f t) # post)"
    using find_run [OF run] update_first_run [OF run, of "\<lambda>_. renormalized now (f t)"]
    by (simp add: updateTaskRecord_def Let_def)
  show "run_at runId pre (renormalized now (f t)) post (pre @ renormalized now (f t) # post)"
    "same_run t (renormalized now (f t))"
    using run keep by (simp_all add: run_at_def same_run_def renormalized_taskId)
qed

lemma map_of_set_step:
  "map_of (map (\<lambda>s. (ts_id s, ts_status s)) (map (set_step now i st err) ss)) j
     = (let old = map_of (map (\<lambda>s. (ts_id s, ts_status s)) ss) j
        in if j = i \<and> old \<noteq> None then Some st else old)"
  by (induction ss) (auto simp: set_step_def Let_def)

definition put_status :: "string \<Rightarrow> step_status \<Rightarrow> (string \<Rightarrow> step_status option) \<Rightarrow> string \<Rightarrow> step_status option" where
  "put_status i st f = (\<lambda>j. if j = i \<and> f j \<noteq> None then Some st else f j)"

lemma step_run:
  assumes "run_at runId pre t post tasks"
  shows "\<exists>u. updateGraphNodeStep now runId i st summary err tasks = pre @ u # post
    \<and> run_at runId pre u post (pre @ u # post) \<and> same_run t u \<and> tk_status u = tk_status t
    \<and> tk_metadata u = tk_metadata t \<and> status_of u = put_status i st (status_of t)"
proof -
  let ?f = "\<lambda>t. t\<lparr>tk_progressSummary := Some summary, tk_steps := Some (map (set_step now i st err) (steps_of t))\<rparr>"
  note u = update_run [OF assms, of ?f now, simplified]
  have "status_of (renormalized now (?f t)) = put_status i st (status_of t)"
    by (rule ext) (simp add: status_of_def put_status_def steps_of_def [of "renormalized _ _"]
        map_of_set_step [unfolded map_map] Let_def)
  then show ?thesis
    using u by (intro exI [of _ "renormalized now (?f t)"]) (simp add: updateGraphNodeStep_def)
qed


definition mark_done :: "graph_node list \<Rightarrow> (string \<Rightarrow> step_status option) \<Rightarrow> string \<Rightarrow> step_status option" where
  "mark_done ns f = (\<lambda>j. if j \<in> gn_id ` set ns \<and> f j \<noteq> None then Some StSucceeded else f j)"

lemma mark_done_Nil [simp]: "mark_done [] f = f"
  by (simp add: mark_done_def)

lemma mark_done_Cons: "mark_done (n # ns) f = mark_done ns (put_status (gn_id n) StSucceeded f)"
  by (rule ext) (auto simp: mark_done_def put_status_def)

lemma put_status_twice: "put_status i a (put_status i b f) = put_status i a f"
  by (rule ext) (auto simp: put_status_def)

lemma settle_run:
  assumes "run_at runId pre t post tasks"
  shows "\<exists>u. settle now runId n tasks = pre @ u # post \<and> run_at runId pre u post (pre @ u # post)
    \<and> same_run t u \<and> tk_status u = tk_status t \<and> tk_metadata u = tk_metadata t
    \<and> status_of u = put_status (gn_id n) StSucceeded (status_of t)"
proof -
  obtain a where a: "arrive now runId n tasks = pre @ a # post" "run_at runId pre a post (pre @ a # post)"
    "same_run t a" "tk_status a = tk_status t" "tk_metadata a = tk_metadata t"
    "status_of a = put_status (gn_id n) StRunning (status_of t)"
    using step_run [OF assms] unfolding arrive_def by blast
  obtain u where u: "settle now runId n tasks = pre @ u # post" "run_at runId pre u post (pre @ u # post)"
    "same_run a u" "tk_status u = tk_status a" "tk_metadata u = tk_metadata a"
    "status_of u = put_status (gn_id n) StSucceeded (status_of a)"
    using step_run [OF a(2)] unfolding settle_def a(1) by blast
  then show ?thesis using a same_run_trans by (intro exI [of _ u]) (auto simp: put_status_twice)
qed

lemma settle_all_run:
  assumes "run_at runId pre t post tasks"
  shows "\<exists>u. fold (settle now runId) ns tasks = pre @ u # post \<and> run_at runId pre u post (pre @ u # post)
    \<and> same_run t u \<and> tk_status u = tk_status t \<and> tk_metadata u = tk_metadata t
    \<and> status_of u = mark_done ns (status_of t)"
  using assms
proof (induction ns arbitrary: t tasks)
  case Nil
  then show ?case by (intro exI [of _ t]) (auto simp: run_at_def)
next
  case (Cons n ns)
  obtain a where a: "settle now runId n tasks = pre @ a # post" "run_at runId pre a post (pre @ a # post)"
    "same_run t a" "tk_status a = tk_status t" "tk_metadata a = tk_metadata t"
    "status_of a = put_status (gn_id n) StSucceeded (status_of t)"
    using settle_run [OF Cons.prems] by blast
  then show ?case using Cons.IH [OF a(2)] same_run_trans by (auto simp: mark_done_Cons)
qed

subsection \<open>Metadata\<close>

lemma get_prop_put_field: "get_prop (put_field (k, v) ob) k' = (if k' = k then v else get_prop ob k')"
proof (cases v)
  case None
  then show ?thesis by (induction ob) (auto simp: put_field_def get_prop_def)
next
  case (Some w)
  have same: "k \<in> fst ` set ob \<Longrightarrow> map_of (map (\<lambda>(a, b). (a, if a = k then w else b)) ob) k = Some w"
    by (induction ob) auto
  have other: "k' \<noteq> k \<Longrightarrow> map_of (map (\<lambda>(a, b). (a, if a = k then w else b)) ob) k' = map_of ob k'"
    by (induction ob) auto
  show ?thesis
  proof (cases "k \<in> fst ` set ob")
    case True
    then have "put_field (k, v) ob = map (\<lambda>(a, b). (a, if a = k then w else b)) ob"
      using Some by (simp add: put_field_def)
    then show ?thesis using Some True same other by (cases "k' = k") (simp_all add: get_prop_def)
  next
    case False
    then have "put_field (k, v) ob = ob @ [(k, w)]" using Some by (simp add: put_field_def)
    moreover have "map_of ob k = None" using False by (simp add: map_of_eq_None_iff)
    ultimately show ?thesis using Some by (simp add: get_prop_def map_add_def split: option.split)
  qed
qed

lemma get_prop_spread:
  "get_prop (spread ob patch) k
     = (case map_of (rev patch) k of None \<Rightarrow> get_prop ob k | Some v \<Rightarrow> v)"
proof (induction patch rule: rev_induct)
  case (snoc kv patch)
  have "spread ob (patch @ [kv]) = put_field (fst kv, snd kv) (spread ob patch)" by (simp add: spread_def)
  then show ?case using snoc by (cases kv) (simp only: get_prop_put_field, simp)
qed (simp add: spread_def)

lemma md_Some [simp]: "md (Some ob) = ob"
  by (simp add: md_def)

lemma update_metadata_run:
  fixes now :: int and patch :: "(string \<times> json option) list"
  assumes run: "run_at runId pre t post tasks"
  defines "u \<equiv> renormalized now (t\<lparr>tk_metadata := Some (spread (md (tk_metadata t)) patch)\<rparr>)"
  shows "update_metadata now runId patch tasks = (Some u, pre @ u # post)"
    "run_at runId pre u post (pre @ u # post)" "same_run t u" "tk_status u = tk_status t" "tk_steps u = tk_steps t"
    "tk_metadata u = Some (spread (md (tk_metadata t)) patch)"
  using update_run [OF run, of "\<lambda>t. t\<lparr>tk_metadata := Some (spread (md (tk_metadata t)) patch)\<rparr>" now, simplified]
  unfolding update_metadata_def u_def by simp_all

lemma terminal_run:
  assumes run: "run_at runId pre t post tasks"
  shows "\<exists>u. markTaskTerminal now runId st summary err ds dl tasks = (Some u, pre @ u # post)
    \<and> run_at runId pre u post (pre @ u # post) \<and> same_run t u \<and> tk_status u = st
    \<and> tk_metadata u = tk_metadata t \<and> tk_steps u = tk_steps t"
  unfolding markTaskTerminal_def
  using update_run [OF run, of "\<lambda>t. t\<lparr>tk_status := st, tk_endedAt := Some now,
        tk_terminalSummary := nullish summary (tk_terminalSummary t),
        tk_error := nullish err (tk_error t),
        tk_deliveryStatus := (case ds of Some d \<Rightarrow> d | None \<Rightarrow> tk_deliveryStatus t),
        tk_delivery := nullish dl (tk_delivery t)\<rparr>" now, simplified]
  by (intro exI conjI) (assumption | simp)+


subsection \<open>The flow of a run\<close>

text \<open>The flow that the task names has the task's status and names it as its current task.\<close>

definition flow_agrees :: "task \<Rightarrow> flow list \<Rightarrow> bool" where
  "flow_agrees t flows \<longleftrightarrow>
     (\<exists>f. find (\<lambda>f. get_prop (md (tk_metadata t)) ''flowId'' = Some (JStr (fl_flowId f))) flows = Some f
        \<and> fl_status f = OfTask (tk_status t) \<and> fl_currentTaskId f = Some (tk_taskId t)
        \<and> fl_blockedTaskId f = (if tk_status t = TBlocked then Some (tk_taskId t) else None))"

lemma find_update_first_const: "find q xs \<noteq> None \<Longrightarrow> q c \<Longrightarrow> find q (update_first q (\<lambda>_. c) xs) = Some c"
  by (induction xs) auto

lemma upsert_flow:
  assumes "tk_taskKind t = Some ''workflow''"
  shows "\<exists>f flows'. upsertTaskFlowFromTask now t None d extra flows = (Some f, flows')
    \<and> find (\<lambda>x. fl_flowId x = fl_flowId f) flows' = Some f
    \<and> fl_status f = OfTask (tk_status t) \<and> fl_currentTaskId f = Some (tk_taskId t)
    \<and> fl_blockedTaskId f = (if tk_status t = TBlocked then Some (tk_taskId t) else None)"
proof -
  define i where "i = normalizeFlowId (or_text (metadataString t ''flowId'') (taskFlowIdForTask t))"
  define e where "e = find (\<lambda>f. fl_flowId f = i) flows"
  define f where "f = flow_from_task now t i (flow_definition_id d t) extra e"
  have id: "fl_flowId f = i" by (simp add: f_def flow_from_task_def)
  have "upsertTaskFlowFromTask now t None d extra flows
      = (Some f, if e \<noteq> None then update_first (\<lambda>f. fl_flowId f = i) (\<lambda>_. f) flows else flows @ [f])"
    using assms by (simp add: upsertTaskFlowFromTask_def shouldCreateFlowForTask_def i_def e_def f_def Let_def)
  moreover have "find (\<lambda>x. fl_flowId x = i) (if e \<noteq> None then update_first (\<lambda>f. fl_flowId f = i) (\<lambda>_. f) flows
      else flows @ [f]) = Some f"
    using find_update_first_const [of "\<lambda>f. fl_flowId f = i" flows f] id
    by (auto simp: e_def find_append)
  ultimately show ?thesis
    using id by (simp add: f_def flow_from_task_def statusFromTask_def)
qed

definition meta :: "task \<Rightarrow> string \<Rightarrow> json option" where
  "meta t k = get_prop (md (tk_metadata t)) k"

lemma sync_run:
  assumes run: "run_at runId pre t post tasks" and kind: "tk_taskKind t = Some ''workflow''"
  shows "\<exists>u flows'. syncGraphFlow now t (tasks, flows) = (u, pre @ u # post, flows')
    \<and> run_at runId pre u post (pre @ u # post) \<and> same_run t u \<and> tk_status u = tk_status t \<and> status_of u = status_of t
    \<and> (\<forall>k. k \<notin> {''flowId'', ''workflowDefinitionId''} \<longrightarrow> meta u k = meta t k)
    \<and> flow_agrees u flows'"
proof -
  obtain f flows' where f: "upsertTaskFlowFromTask now t None
      (opt_string (get_prop (md (tk_metadata t)) ''workflowDefinitionId'')) [(''workflowMode'', JStr ''graph'')] flows
      = (Some f, flows')"
    "find (\<lambda>x. fl_flowId x = fl_flowId f) flows' = Some f"
    "fl_status f = OfTask (tk_status t)" "fl_currentTaskId f = Some (tk_taskId t)"
    "fl_blockedTaskId f = (if tk_status t = TBlocked then Some (tk_taskId t) else None)"
    using upsert_flow [OF kind] by blast
  define patch where "patch = (''flowId'', Some (JStr (fl_flowId f))) # text_entry ''workflowDefinitionId'' (fl_definitionId f)"
  define u where "u = renormalized now (t\<lparr>tk_metadata := Some (spread (md (tk_metadata t)) patch)\<rparr>)"
  note m = update_metadata_run [OF run, of now patch, folded u_def]
  have key: "or_text (tk_runId t) (tk_taskId t) = runId" using run by (simp add: run_at_def)
  have sync: "syncGraphFlow now t (tasks, flows) = (u, pre @ u # post, flows')"
    unfolding syncGraphFlow_def using f(1) m(1) by (simp add: key patch_def [symmetric])
  have get: "meta u k = (case map_of (rev patch) k of None \<Rightarrow> meta t k | Some v \<Rightarrow> v)" for k
    by (simp only: meta_def m(6) get_prop_spread md_Some)
  have keep: "\<forall>k. k \<notin> {''flowId'', ''workflowDefinitionId''} \<longrightarrow> meta u k = meta t k"
    by (simp add: get patch_def text_entry_def map_add_def)
  have "meta u ''flowId'' = Some (JStr (fl_flowId f))"
    by (simp add: get patch_def text_entry_def map_add_def)
  moreover have "tk_taskId u = tk_taskId t" using m(3) by (simp add: same_run_def)
  ultimately have "flow_agrees u flows'"
    using f(2-5) m(4) unfolding flow_agrees_def meta_def
    by (intro exI [of _ f]) (simp add: eq_commute [of "fl_flowId f"])
  moreover have "status_of u = status_of t" using m(5) by (simp add: status_of_def steps_of_def)
  ultimately show ?thesis using sync keep m by blast
qed


section \<open>How a run ends\<close>

text \<open>\<open>before\<close> is the status of each step before the run, \<open>t\<close> the record after it.\<close>

type_synonym step_states = "string \<Rightarrow> step_status option"

definition ran_to_end :: "graph \<Rightarrow> graph_node list \<Rightarrow> step_states \<Rightarrow> task \<Rightarrow> bool" where
  "ran_to_end g ns before t \<longleftrightarrow> run_over g ns \<and> tk_status t = TSucceeded \<and> status_of t = mark_done ns before"

definition waits_for_approval :: "graph_node list \<Rightarrow> step_states \<Rightarrow> task \<Rightarrow> bool" where
  "waits_for_approval ns before t \<longleftrightarrow> ns \<noteq> [] \<and> gn_type (last ns) = ''approval'' \<and> tk_status t = TBlocked
     \<and> meta t ''blockedNodeId'' = Some (JStr (gn_id (last ns)))
     \<and> status_of t = put_status (gn_id (last ns)) StBlocked (mark_done (butlast ns) before)"

definition hit_the_limit :: "graph_node list \<Rightarrow> step_states \<Rightarrow> task \<Rightarrow> bool" where
  "hit_the_limit ns before t \<longleftrightarrow> length ns = 51 \<and> list_all passes ns \<and> tk_status t = TFailed \<and> status_of t = mark_done ns before"

definition run_outcome :: "graph \<Rightarrow> graph_node list \<Rightarrow> step_states \<Rightarrow> task \<Rightarrow> bool" where
  "run_outcome g ns before t \<longleftrightarrow>
     ran_to_end g ns before t \<or> waits_for_approval ns before t \<or> hit_the_limit ns before t"

text \<open>What \<open>resumeTaskWorkflowGraph\<close> needs of the record.\<close>

definition same_graph :: "task \<Rightarrow> task \<Rightarrow> bool" where
  "same_graph a b \<longleftrightarrow> same_run a b \<and> meta b ''graph'' = meta a ''graph''
     \<and> meta b ''workflowGraphVersion'' = meta a ''workflowGraphVersion''"

lemma status_of_steps: "tk_steps a = tk_steps b \<Longrightarrow> status_of a = status_of b"
  by (simp add: status_of_def steps_of_def)

lemma sync_first_run:
  assumes run: "run_at runId pre t post tasks" and kind: "tk_taskKind t = Some ''workflow''"
  shows "\<exists>u flows'. sync_first now (Some t # others) runId tasks flows = (Inr u, pre @ u # post, flows')
    \<and> run_at runId pre u post (pre @ u # post) \<and> same_graph t u \<and> tk_status u = tk_status t \<and> status_of u = status_of t
    \<and> meta u ''blockedNodeId'' = meta t ''blockedNodeId'' \<and> flow_agrees u flows'"
proof -
  obtain u flows' where u: "syncGraphFlow now t (tasks, flows) = (u, pre @ u # post, flows')"
    "run_at runId pre u post (pre @ u # post)" "same_run t u" "tk_status u = tk_status t" "status_of u = status_of t"
    "\<forall>k. k \<notin> {''flowId'', ''workflowDefinitionId''} \<longrightarrow> meta u k = meta t k" "flow_agrees u flows'"
    using sync_run [OF run kind] by blast
  have "sync_first now (Some t # others) runId tasks flows = (Inr u, pre @ u # post, flows')"
    by (simp add: sync_first_def u(1))
  moreover have "same_graph t u" "meta u ''blockedNodeId'' = meta t ''blockedNodeId''"
    using u(3,6) by (simp_all add: same_graph_def)
  ultimately show ?thesis using u by blast
qed

lemma metadata_run:
  fixes now :: int and patch :: "(string \<times> json option) list"
  assumes run: "run_at runId pre t post tasks"
    and patch: "\<forall>k \<in> {''graph'', ''workflowGraphVersion''}. map_of (rev patch) k = None"
  shows "\<exists>u. update_metadata now runId patch tasks = (Some u, pre @ u # post)
    \<and> run_at runId pre u post (pre @ u # post) \<and> same_graph t u \<and> tk_status u = tk_status t \<and> status_of u = status_of t
    \<and> (\<forall>k. meta u k = (case map_of (rev patch) k of None \<Rightarrow> meta t k | Some v \<Rightarrow> v))"
proof -
  define u where "u = renormalized now (t\<lparr>tk_metadata := Some (spread (md (tk_metadata t)) patch)\<rparr>)"
  note m = update_metadata_run [OF run, of now patch, folded u_def]
  have get: "\<forall>k. meta u k = (case map_of (rev patch) k of None \<Rightarrow> meta t k | Some v \<Rightarrow> v)"
    by (simp only: meta_def m(6) get_prop_spread md_Some) simp
  then have "same_graph t u" using m(3) patch by (simp add: same_graph_def)
  then show ?thesis using m get status_of_steps [OF m(5)] by blast
qed

lemma terminal_run':
  assumes run: "run_at runId pre t post tasks"
  shows "\<exists>u. markTaskTerminal now runId st summary err ds dl tasks = (Some u, pre @ u # post)
    \<and> run_at runId pre u post (pre @ u # post) \<and> same_graph t u \<and> tk_status u = st \<and> status_of u = status_of t
    \<and> (\<forall>k. meta u k = meta t k)"
proof -
  obtain u where u: "markTaskTerminal now runId st summary err ds dl tasks = (Some u, pre @ u # post)"
    "run_at runId pre u post (pre @ u # post)" "same_run t u" "tk_status u = st"
    "tk_metadata u = tk_metadata t" "tk_steps u = tk_steps t"
    using terminal_run [OF run] by blast
  have "\<forall>k. meta u k = meta t k" using u(5) by (simp add: meta_def)
  then show ?thesis using u status_of_steps [OF u(6)] unfolding same_graph_def by blast
qed

lemma same_graph_trans: "same_graph a b \<Longrightarrow> same_graph b c \<Longrightarrow> same_graph a c"
  unfolding same_graph_def using same_run_trans by auto

lemma same_graph_kind: "same_graph a b \<Longrightarrow> tk_taskKind b = tk_taskKind a"
  by (simp add: same_graph_def same_run_def)

text \<open>The record after a run has ended, paused or failed, with its flow.\<close>

definition left_with :: "string \<Rightarrow> task list \<Rightarrow> task \<Rightarrow> task list \<Rightarrow> task result \<times> world \<Rightarrow> task \<Rightarrow> bool" where
  "left_with runId pre t post r u \<longleftrightarrow> same_graph t u \<and> run_at runId pre u post (pre @ u # post)
     \<and> (\<exists>flows'. r = (Inr u, pre @ u # post, flows') \<and> flow_agrees u flows')"

lemma finish_run:
  assumes run: "run_at runId pre t post tasks" and kind: "tk_taskKind t = Some ''workflow''"
  shows "\<exists>u. left_with runId pre t post (finish now runId visited tasks flows) u
    \<and> tk_status u = TSucceeded \<and> status_of u = status_of t"
proof -
  define k where "k = completed_count runId visited tasks"
  obtain a where a: "completeTaskRunByRunId now runId
        (Some (''Workflow graph completed '' @ count_text k @ '' node'' @ (if k = 1 then [] else ''s'') @ ''.''))
        (Some ''not_applicable'') None tasks = (Some a, pre @ a # post)"
    "run_at runId pre a post (pre @ a # post)" "same_graph t a" "tk_status a = TSucceeded" "status_of a = status_of t"
    using terminal_run' [OF run] unfolding completeTaskRunByRunId_def by blast
  obtain b where b: "update_metadata now runId [(''visitedNodeIds'', Some (visited_json visited)),
        (''completedAt'', Some (int_json now))] (pre @ a # post) = (Some b, pre @ b # post)"
    "run_at runId pre b post (pre @ b # post)" "same_graph a b" "tk_status b = tk_status a" "status_of b = status_of a"
    using metadata_run [OF a(2), of "[(''visitedNodeIds'', Some (visited_json visited)), (''completedAt'', Some (int_json now))]"]
    by auto
  have kb: "tk_taskKind b = Some ''workflow''" using kind same_graph_kind a(3) b(3) by metis
  obtain u flows' where u: "sync_first now [Some b, Some a] runId (pre @ b # post) flows = (Inr u, pre @ u # post, flows')"
    "run_at runId pre u post (pre @ u # post)" "same_graph b u" "tk_status u = tk_status b" "status_of u = status_of b"
    "flow_agrees u flows'"
    using sync_first_run [OF b(2) kb] by blast
  have "finish now runId visited tasks flows = (Inr u, pre @ u # post, flows')"
    unfolding finish_def Let_def using a(1) b(1) u(1) by (simp add: k_def [symmetric])
  moreover have "same_graph t u" using same_graph_trans [OF a(3) same_graph_trans [OF b(3) u(3)]] .
  ultimately show ?thesis using a b u unfolding left_with_def
    by (intro exI [of _ u]) simp
qed


lemma fail_run_left:
  assumes run: "run_at runId pre t post tasks" and kind: "tk_taskKind t = Some ''workflow''"
  shows "\<exists>u. left_with runId pre t post (fail_run now runId message tasks flows) u
    \<and> tk_status u = TFailed \<and> status_of u = status_of t"
proof -
  have failed: "normalizeTerminalStatus (Some TFailed) = TFailed"
    by (simp add: normalizeTerminalStatus_def isTerminalStatus_def)
  obtain a where a: "failTaskRunByRunId now runId (Some TFailed) (Some ''Workflow graph failed.'')
      (Some (''Error: '' @ message)) (Some ''not_applicable'') None tasks = (Some a, pre @ a # post)"
    "run_at runId pre a post (pre @ a # post)" "same_graph t a" "tk_status a = TFailed" "status_of a = status_of t"
    using terminal_run' [OF run] unfolding failTaskRunByRunId_def failed by blast
  have ka: "tk_taskKind a = Some ''workflow''" using kind same_graph_kind a(3) by metis
  obtain u flows' where u: "sync_first now [Some a] runId (pre @ a # post) flows = (Inr u, pre @ u # post, flows')"
    "run_at runId pre u post (pre @ u # post)" "same_graph a u" "tk_status u = tk_status a" "status_of u = status_of a"
    "flow_agrees u flows'"
    using sync_first_run [OF a(2) ka] by blast
  have "fail_run now runId message tasks flows = (Inr u, pre @ u # post, flows')"
    unfolding fail_run_def using a(1) u(1) by simp
  moreover have "same_graph t u" using same_graph_trans [OF a(3) u(3)] .
  ultimately show ?thesis using a u unfolding left_with_def
    by (intro exI [of _ u]) simp
qed

lemma pause_left:
  assumes run: "run_at runId pre t post tasks" and kind: "tk_taskKind t = Some ''workflow''"
  shows "\<exists>u. left_with runId pre t post (pause_at now runId n visited tasks flows) u
    \<and> tk_status u = TBlocked \<and> status_of u = put_status (gn_id n) StBlocked (status_of t)
    \<and> meta u ''blockedNodeId'' = Some (JStr (gn_id n))"
proof -
  define summary where "summary = ''Workflow paused for approval: '' @ gn_label n"
  define patch where "patch = [(''blockedNodeId'', Some (JStr (gn_id n))), (''blockedNodeLabel'', Some (JStr (gn_label n))),
      (''blockedAt'', Some (int_json now)), (''blockReason'', Some (JStr (approval_text n))),
      (''visitedNodeIds'', Some (visited_json visited))]"
  have blocked: "normalizeTerminalStatus (Some TBlocked) = TBlocked"
    by (simp add: normalizeTerminalStatus_def isTerminalStatus_def)
  obtain s where s: "updateGraphNodeStep now runId (gn_id n) StBlocked summary (Some (approval_text n)) tasks = pre @ s # post"
    "run_at runId pre s post (pre @ s # post)" "same_run t s" "tk_metadata s = tk_metadata t"
    "status_of s = put_status (gn_id n) StBlocked (status_of t)"
    using step_run [OF run] by blast
  have ts: "same_graph t s" using s(3,4) by (simp add: same_graph_def meta_def)
  obtain a where a: "failTaskRunByRunId now runId (Some TBlocked) (Some summary) (Some (approval_text n))
      (Some ''not_applicable'') None (pre @ s # post) = (Some a, pre @ a # post)"
    "run_at runId pre a post (pre @ a # post)" "same_graph s a" "tk_status a = TBlocked" "status_of a = status_of s"
    using terminal_run' [OF s(2)] unfolding failTaskRunByRunId_def blocked by blast
  have patch: "\<forall>k \<in> {''graph'', ''workflowGraphVersion''}. map_of (rev patch) k = None"
    by (simp add: patch_def)
  obtain b where b: "update_metadata now runId patch (pre @ a # post) = (Some b, pre @ b # post)"
    "run_at runId pre b post (pre @ b # post)" "same_graph a b" "tk_status b = tk_status a" "status_of b = status_of a"
    "\<forall>k. meta b k = (case map_of (rev patch) k of None \<Rightarrow> meta a k | Some v \<Rightarrow> v)"
    using metadata_run [OF a(2) patch] by blast
  have mb: "meta b ''blockedNodeId'' = Some (JStr (gn_id n))" using b(6) by (simp add: patch_def)
  have kb: "tk_taskKind b = Some ''workflow''" using kind same_graph_kind ts a(3) b(3) by metis
  obtain u flows' where u: "sync_first now [Some b, Some a] runId (pre @ b # post) flows = (Inr u, pre @ u # post, flows')"
    "run_at runId pre u post (pre @ u # post)" "same_graph b u" "tk_status u = tk_status b" "status_of u = status_of b"
    "meta u ''blockedNodeId'' = meta b ''blockedNodeId''" "flow_agrees u flows'"
    using sync_first_run [OF b(2) kb] by blast
  have "pause_at now runId n visited tasks flows = (Inr u, pre @ u # post, flows')"
    unfolding pause_at_def Let_def using s(1) a(1) b(1) u(1) by (simp add: summary_def patch_def)
  moreover have "same_graph t u" using ts a(3) b(3) u(3) by (metis same_graph_trans)
  ultimately show ?thesis using u s a b mb unfolding left_with_def
    by (intro exI [of _ u]) simp
qed

lemma complete_left:
  assumes wf: "graph_wf g" and start: "in_graph g (Some start)"
    and run: "run_at runId pre t post tasks" and kind: "tk_taskKind t = Some ''workflow''"
  shows "\<exists>u ns. left_with runId pre t post (completeGraphFromNode now runId g start (tasks, flows)) u
    \<and> trail g (Some start) ns \<and> length ns \<le> 51 \<and> run_outcome g ns (status_of t) u"
proof -
  let ?r = "graph_loop g now runId (Some start) [] tasks"
  from graph_loop_ok [OF wf start, of "[]" now runId tasks] obtain ns where
    ns: "trail g (Some start) ns" "length ns \<le> 51"
    and r: "case ?r of
           LoopDone v ts \<Rightarrow> v = map gn_id ns \<and> ts = fold (settle now runId) ns tasks \<and> run_over g ns
         | LoopPaused n v ts \<Rightarrow> ns \<noteq> [] \<and> n = last ns \<and> gn_type n = ''approval'' \<and> v = map gn_id ns
             \<and> ts = arrive now runId n (fold (settle now runId) (butlast ns) tasks)
         | LoopThrew m ts \<Rightarrow> m = ''workflow graph exceeded node execution limit; possible cycle''
             \<and> length ns = 51 \<and> list_all passes ns \<and> ts = fold (settle now runId) ns tasks"
    unfolding loop_ok_def by (auto cong: loop_end.case_cong)
  have same: "same_graph a b" if "same_run a b" "tk_metadata b = tk_metadata a" for a b
    using that by (simp add: same_graph_def meta_def)
  have comp: "left_with runId pre t post res u" if "same_graph t a" "left_with runId pre a post res u" for a res u
    using that same_graph_trans unfolding left_with_def by blast
  show ?thesis
  proof (cases ?r)
    case (LoopDone v ts)
    obtain a where a: "ts = pre @ a # post" "run_at runId pre a post ts" "same_run t a" "tk_metadata a = tk_metadata t"
      "status_of a = mark_done ns (status_of t)"
      using settle_all_run [OF run, of now ns] r LoopDone by auto
    have "tk_taskKind a = Some ''workflow''" using a(3) kind by (simp add: same_run_def)
    then obtain u where u: "left_with runId pre a post (finish now runId v ts flows) u" "tk_status u = TSucceeded"
      "status_of u = status_of a"
      using finish_run [OF a(2)] by blast
    have "run_outcome g ns (status_of t) u" using u a(5) r LoopDone by (simp add: run_outcome_def ran_to_end_def)
    then show ?thesis using ns comp [OF same [OF a(3,4)] u(1)] LoopDone by (auto simp: completeGraphFromNode_def)
  next
    case (LoopPaused n v ts)
    obtain b where b: "fold (settle now runId) (butlast ns) tasks = pre @ b # post"
      "run_at runId pre b post (pre @ b # post)" "same_run t b" "tk_metadata b = tk_metadata t"
      "status_of b = mark_done (butlast ns) (status_of t)"
      using settle_all_run [OF run, of now "butlast ns"] by blast
    have "ts = arrive now runId n (pre @ b # post)" using r LoopPaused b(1) by simp
    then obtain a where a: "ts = pre @ a # post" "run_at runId pre a post (pre @ a # post)" "same_run b a"
      "tk_metadata a = tk_metadata b" "status_of a = put_status (gn_id n) StRunning (status_of b)"
      using step_run [OF b(2)] unfolding arrive_def by metis
    have ta: "same_run t a" "tk_metadata a = tk_metadata t" using a(3,4) b(3,4) same_run_trans by auto
    have "tk_taskKind a = Some ''workflow''" using ta kind by (simp add: same_run_def)
    then obtain u where u: "left_with runId pre a post (pause_at now runId n v ts flows) u" "tk_status u = TBlocked"
      "status_of u = put_status (gn_id n) StBlocked (status_of a)" "meta u ''blockedNodeId'' = Some (JStr (gn_id n))"
      using pause_left [OF a(2)] a(1) by blast
    have "ns \<noteq> []" "n = last ns" "gn_type (last ns) = ''approval''" using r LoopPaused by auto
    then have "run_outcome g ns (status_of t) u"
      using u a(5) b(5) by (simp add: run_outcome_def waits_for_approval_def put_status_twice)
    then show ?thesis using ns comp [OF same [OF ta] u(1)] LoopPaused by (auto simp: completeGraphFromNode_def)
  next
    case (LoopThrew m ts)
    obtain a where a: "ts = pre @ a # post" "run_at runId pre a post ts" "same_run t a" "tk_metadata a = tk_metadata t"
      "status_of a = mark_done ns (status_of t)"
      using settle_all_run [OF run, of now ns] r LoopThrew by auto
    have "tk_taskKind a = Some ''workflow''" using a(3) kind by (simp add: same_run_def)
    then obtain u where u: "left_with runId pre a post (fail_run now runId m ts flows) u" "tk_status u = TFailed"
      "status_of u = status_of a"
      using fail_run_left [OF a(2)] by blast
    have "run_outcome g ns (status_of t) u" using u a(5) r LoopThrew by (simp add: run_outcome_def hit_the_limit_def)
    then show ?thesis using ns comp [OF same [OF a(3,4)] u(1)] LoopThrew by (auto simp: completeGraphFromNode_def)
  qed
qed


section \<open>Starting and resuming\<close>

definition fresh_run :: "string \<Rightarrow> task list \<Rightarrow> bool" where
  "fresh_run runId tasks \<longleftrightarrow>
     list_all (\<lambda>t. \<not> task_has_key runId t \<and> tk_taskId t \<noteq> normalizeTaskId (''CLI:'' @ runId)) tasks"

definition queued_steps :: "graph \<Rightarrow> string \<Rightarrow> step_status option" where
  "queued_steps g j = (if j \<in> set (map gn_id (gr_nodes g)) then Some StQueued else None)"

lemma input_graph_wf: "normalizeTaskWorkflowGraphInput raw = Inr inp \<Longrightarrow> graph_wf (gi_graph inp)"
  unfolding normalizeTaskWorkflowGraphInput_def
  by (auto simp: bind_r_eq_Inr Let_def dest!: normalizeGraph_wf split: option.splits if_splits)

lemma start_in_graph: "graph_wf g \<Longrightarrow> in_graph g (Some (gr_startNodeId g))"
  by (simp add: in_graph_def graph_wf_def)

lemma normalizeRecord_fields [simp]:
  "tk_runId (normalizeRecord now i c u t) = tk_runId t" "tk_taskKind (normalizeRecord now i c u t) = tk_taskKind t"
  "tk_metadata (normalizeRecord now i c u t) = tk_metadata t"
  by (simp_all add: normalizeRecord_def Let_def)

lemma trimmed_prefix:
  assumes "trimmed_text r" "\<not> js_space c"
  shows "trimmed_text (c # cs @ r)"
proof -
  have "r \<noteq> []" "\<not> js_space (last r)"
    using assms js_trim_ends(2) [of r] by (auto simp: trimmed_text_def)
  then show ?thesis using assms(2) unfolding trimmed_text_def by (intro conjI js_trim_fixed) simp_all
qed

lemma cli_task_id:
  assumes "trimmed_text runId"
  shows "trim_or_undef (Some (''CLI:'' @ runId)) = Some (''CLI:'' @ runId)"
proof -
  have "\<not> js_space (CHR ''C'')" by (simp add: js_space_def)
  then have "trimmed_text (''CLI:'' @ runId)" using trimmed_prefix [OF assms, of "CHR ''C''" "''LI:''"] by simp
  then show ?thesis by (simp add: trim_or_undef_def trimmed_text_def)
qed

lemma md_compact [simp]: "md (compactRecord ob) = ob"
  by (simp add: md_def compactRecord_def)

lemma get_prop_append: "get_prop (xs @ ys) k = (case get_prop xs k of None \<Rightarrow> get_prop ys k | Some v \<Rightarrow> Some v)"
  by (simp add: get_prop_def map_add_def split: option.split)

lemma get_prop_source_entries:
  "k \<in> {''graph'', ''workflowGraphVersion''} \<Longrightarrow> get_prop (source_entries s) k = None"
  by (cases s) (auto simp: source_entries_def)

lemma created_run:
  assumes id: "trimmed_text runId" and fresh: "fresh_run runId tasks"
  shows "\<exists>t. createRunningTaskRun now (graph_run_params now runId inp) tasks = (t, tasks @ [t])
    \<and> run_at runId tasks t [] (tasks @ [t]) \<and> tk_taskKind t = Some ''workflow''
    \<and> meta t ''graph'' = Some (graph_json (gi_graph inp))
    \<and> meta t ''workflowGraphVersion'' = Some (JNum (Fin 2))"
proof -
  let ?p = "graph_run_params now runId inp"
  let ?r = "run_record now ?p"
  let ?t = "normalizeRecord now (Some (''CLI:'' @ runId)) (Some now) (tk_updatedAt ?r) ?r"
  have rid: "tk_runId ?t = Some runId" "tk_taskId ?r = ''CLI:'' @ runId"
    by (simp_all add: run_record_def graph_run_params_def Let_def sourceForRuntime_def)
  have tid: "tk_taskId ?t = normalizeTaskId (''CLI:'' @ runId)"
    unfolding normalizeRecord_def Let_def buildTaskId_def cli_task_id [OF id] option.case by (simp del: append_Cons)
  have none: "find (\<lambda>x. tk_taskId x = tk_taskId ?t \<or> (opt_str (tk_runId ?t) \<noteq> [] \<and> tk_runId x = tk_runId ?t)) tasks = None"
    using fresh unfolding find_None_iff fresh_run_def list_all_iff tid rid by (auto simp: task_has_key_def)
  have "createRunningTaskRun now ?p tasks = createTaskRecord now (Some (tk_taskId ?r)) (Some now) (tk_updatedAt ?r) ?r tasks"
    by (simp add: createRunningTaskRun_def Let_def) (simp add: graph_run_params_def)
  also have "\<dots> = (?t, tasks @ [?t])"
    unfolding createTaskRecord_def Let_def rid(2) none by simp
  finally have created: "createRunningTaskRun now ?p tasks = (?t, tasks @ [?t])" .
  have "run_at runId tasks ?t [] (tasks @ [?t])"
    using fresh id rid tid normalizeTaskId_fixed by (auto simp: run_at_def fresh_run_def list_all_iff)
  moreover have "tk_taskKind ?t = Some ''workflow''"
    by (simp add: run_record_def graph_run_params_def Let_def)
  moreover have "meta ?t ''graph'' = Some (graph_json (gi_graph inp))"
    "meta ?t ''workflowGraphVersion'' = Some (JNum (Fin 2))"
    by (simp_all add: meta_def run_record_def Let_def mergeMetadata_def md_compact graph_run_params_def
        get_prop_spread int_json_def del: append_Cons) (simp_all add: get_prop_append get_prop_source_entries)
  ultimately show ?thesis using created by blast
qed


lemma queued_steps_of:
  "map_of (map (\<lambda>s. (ts_id s, ts_status s)) (map toRegistryStep ns)) j
     = (if j \<in> set (map gn_id ns) then Some StQueued else None)"
  by (induction ns) (auto simp: toRegistryStep_def)

lemma started_run:
  assumes inp: "normalizeTaskWorkflowGraphInput raw = Inr inp" and runId: "runId = or_text (gi_runId inp) freshId"
    and id: "trimmed_text runId" and fresh: "fresh_run runId tasks"
  shows "\<exists>t ns flows'. runTaskWorkflowGraph now freshId raw (tasks, flows) = (Inr t, tasks @ [t], flows')
    \<and> run_at runId tasks t [] (tasks @ [t]) \<and> tk_taskKind t = Some ''workflow''
    \<and> meta t ''graph'' = Some (graph_json (gi_graph inp)) \<and> meta t ''workflowGraphVersion'' = Some (JNum (Fin 2))
    \<and> flow_agrees t flows' \<and> trail (gi_graph inp) (Some (gr_startNodeId (gi_graph inp))) ns \<and> length ns \<le> 51
    \<and> run_outcome (gi_graph inp) ns (queued_steps (gi_graph inp)) t"
proof -
  let ?g = "gi_graph inp"
  note wf = input_graph_wf [OF inp]
  obtain a where a: "createRunningTaskRun now (graph_run_params now runId inp) tasks = (a, tasks @ [a])"
    "run_at runId tasks a [] (tasks @ [a])" "tk_taskKind a = Some ''workflow''"
    "meta a ''graph'' = Some (graph_json ?g)" "meta a ''workflowGraphVersion'' = Some (JNum (Fin 2))"
    using created_run [OF id fresh] by blast
  define sm where "sm = ''Queued workflow graph with '' @ count_text (length (gr_nodes ?g)) @ '' nodes.''"
  let ?f = "\<lambda>t. t\<lparr>tk_notifyPolicy := gi_notifyPolicy inp, tk_progressSummary := Some sm,
      tk_steps := Some (map toRegistryStep (gr_nodes ?g))\<rparr>"
  define b where "b = renormalized now (?f a)"
  note u = update_run [OF a(2), of ?f now, simplified, folded b_def]
  have steps: "status_of b = queued_steps ?g"
    unfolding status_of_def steps_of_def b_def renormalized_fields
    by (rule ext) (simp add: queued_steps_def queued_steps_of del: map_map)
  have kb: "tk_taskKind b = Some ''workflow''" by (simp add: b_def a(3))
  have mb: "meta b k = meta a k" for k by (simp add: b_def meta_def)
  obtain t ns where t: "left_with runId tasks b [] (completeGraphFromNode now runId ?g (gr_startNodeId ?g) (tasks @ [b], flows)) t"
    "trail ?g (Some (gr_startNodeId ?g)) ns" "length ns \<le> 51" "run_outcome ?g ns (status_of b) t"
    using complete_left [OF wf start_in_graph [OF wf] u(2) kb] by blast
  have "runTaskWorkflowGraph now freshId raw (tasks, flows)
      = completeGraphFromNode now runId ?g (gr_startNodeId ?g) (tasks @ [b], flows)"
    unfolding runTaskWorkflowGraph_def using inp u(1) a(1)
    by (simp add: runId [symmetric] sm_def [symmetric] Let_def del: append_Cons)
  moreover obtain flows' where "completeGraphFromNode now runId ?g (gr_startNodeId ?g) (tasks @ [b], flows)
      = (Inr t, tasks @ [t], flows')" "flow_agrees t flows'" "run_at runId tasks t [] (tasks @ [t])"
    and same: "same_graph b t"
    using t(1) unfolding left_with_def by blast
  moreover have "tk_taskKind t = Some ''workflow''" using same_graph_kind [OF same] kb by simp
  moreover have "meta t ''graph'' = Some (graph_json ?g)" "meta t ''workflowGraphVersion'' = Some (JNum (Fin 2))"
    using same a(4,5) mb by (simp_all add: same_graph_def)
  ultimately show ?thesis using t(2-4) steps
    by (intro exI [of _ t] exI [of _ ns] exI [of _ flows']) simp
qed


subsection \<open>Past an approval\<close>

text \<open>The edges that a run may take without a decision: not those that leave an approval node.\<close>

definition open_rel :: "graph \<Rightarrow> (string \<times> string) set" where
  "open_rel g = {(i, j). (i, j) \<in> edge_rel g \<and> (\<exists>n. node_at g i = Some n \<and> gn_type n \<noteq> ''approval'')}"

lemma trail_open: "trail g current ns \<Longrightarrow> current = Some i \<Longrightarrow> n \<in> set ns \<Longrightarrow> (i, gn_id n) \<in> (open_rel g)\<^sup>*"
proof (induction g current ns arbitrary: i rule: trail.induct)
  case (2 g current m ns)
  have m: "node_at g i = Some m" "gn_id m = i" using "2.prems" node_at_SomeD by auto
  show ?case
  proof (cases "n = m")
    case False
    then have "n \<in> set ns" using "2.prems"(3) by simp
    then obtain j where j: "passes m" "next_of g m = Some j" "(j, gn_id n) \<in> (open_rel g)\<^sup>*"
      using "2.prems"(1) "2.IH" by (cases ns; cases "next_of g m") auto
    then have "(i, j) \<in> open_rel g" using next_of_edge [OF j(2)] m by (auto simp: open_rel_def passes_def)
    then show ?thesis using j(3) by (rule converse_rtrancl_into_rtrancl)
  qed (simp add: m)
qed simp

lemma trail_head: "trail g current (m # ns) \<Longrightarrow> node_at g (gn_id m) = Some m"
  using node_at_SomeD [of g "the current" m] by (cases current) simp_all

lemma trail_tail: "trail g current (m # ns) \<Longrightarrow> ns \<noteq> [] \<Longrightarrow> passes m \<and> trail g (next_of g m) ns"
  by simp

lemma trail_passes: "trail g current ns \<Longrightarrow> n \<in> set (butlast ns) \<Longrightarrow> passes n \<and> node_at g (gn_id n) = Some n"
proof (induction ns arbitrary: current)
  case (Cons m ns)
  then have ne: "ns \<noteq> []" by auto
  show ?case using trail_head [OF Cons.prems(1)] trail_tail [OF Cons.prems(1) ne] Cons.IH Cons.prems(2) ne by auto
qed simp

lemma trail_last: "trail g current ns \<Longrightarrow> ns \<noteq> [] \<Longrightarrow> node_at g (gn_id (last ns)) = Some (last ns)"
proof (induction ns arbitrary: current)
  case (Cons m ns)
  show ?case
  proof (cases "ns = []")
    case False
    then show ?thesis using trail_tail [OF Cons.prems(1) False] Cons.IH [of "next_of g m"] by simp
  qed (use trail_head [OF Cons.prems(1)] in simp)
qed simp

lemma mark_done_queued: "mark_done ns (queued_steps g) j = Some StSucceeded \<longleftrightarrow>
    j \<in> gn_id ` set ns \<and> j \<in> set (map gn_id (gr_nodes g))"
  by (auto simp: mark_done_def queued_steps_def)

lemma trail_done_open:
  assumes t: "trail g current ns" and n: "n \<in> set ns" and last: "gn_type (last ns) \<noteq> ''approval''"
  shows "node_at g (gn_id n) = Some n \<and> gn_type n \<noteq> ''approval''"
proof (cases "n = last ns")
  case True
  then show ?thesis using trail_last [OF t] n last by (cases "ns = []") auto
next
  case False
  then have "n \<in> set (butlast ns)" using n by (cases ns rule: rev_cases) auto
  then show ?thesis using trail_passes [OF t] by (simp add: passes_def)
qed


section \<open>Properties\<close>

text \<open>A small workflow: start, approval, end; the approval node has one unlabelled edge.\<close>

definition sample_graph_json :: json where
  "sample_graph_json = JObj
     [(''nodes'', JArr [JObj [(''id'', JStr ''a''), (''type'', JStr ''start'')],
                        JObj [(''id'', JStr ''b''), (''type'', JStr ''approval'')],
                        JObj [(''id'', JStr ''c''), (''type'', JStr ''end'')]]),
      (''edges'', JArr [JObj [(''from'', JStr ''a''), (''to'', JStr ''b'')],
                        JObj [(''from'', JStr ''b''), (''to'', JStr ''c'')]])]"

definition sample_graph :: graph where
  "sample_graph = (case normalizeGraph (Some sample_graph_json) of Inr g \<Rightarrow> g
     | Inl _ \<Rightarrow> \<lparr>gr_startNodeId = [], gr_nodes = [], gr_edges = [], gr_layout = None\<rparr>)"

definition sample_workflow_json :: "json" where
  "sample_workflow_json = JObj [(''runId'', JStr ''r1''), (''graph'', sample_graph_json)]"

lemma sample_graph_accepted: "normalizeGraph (Some sample_graph_json) = Inr sample_graph"
proof -
  have "is_ok (normalizeGraph (Some sample_graph_json))" by code_simp
  then show ?thesis by (cases "normalizeGraph (Some sample_graph_json)") (simp_all add: sample_graph_def)
qed

text \<open>
  C19: whatever document \<open>normalizeGraph\<close> accepts is a well-formed graph: between 1 and 50 nodes with
  distinct ids in the id alphabet and a known type, at most 120 edges between nodes of the graph, a
  start node of the graph, every node but an end left by an edge and every node but a start reached
  by one, approval and condition nodes with their paths, texts within their length.
\<close>

theorem workflow_graph_accepted: "normalizeGraph raw = Inr g \<Longrightarrow> graph_wf g"
  by (rule normalizeGraph_wf)

theorem workflow_graph_accepted_witness: "graph_wf sample_graph"
  by (rule workflow_graph_accepted [OF sample_graph_accepted])

text \<open>
  The definition that a run stores in the task's metadata is accepted when the workflow is
  resumed, and is the same graph: only blanks at the end of a label or input that was cut go.
\<close>

theorem workflow_graph_roundtrip:
  "normalizeGraph raw = Inr g \<Longrightarrow> normalizeGraph (Some (graph_json g)) = Inr (tidy_graph g)"
  by (rule graph_roundtrip [OF normalizeGraph_wf])

theorem workflow_graph_roundtrip_witness:
  "normalizeGraph (Some (graph_json sample_graph)) = Inr (tidy_graph sample_graph)"
  by (rule workflow_graph_roundtrip [OF sample_graph_accepted])

text \<open>
  C16: a run of an accepted workflow under a new run id returns the task it has added, after a path of
  at most 51 nodes that starts at the start node and takes each step along the edge of the node's
  event. Either the path ends at an end node or where no edge leads on, and the task has succeeded;
  or its last node is an approval, and the task is blocked there; or 51 nodes were passed and the task
  has failed. The nodes passed are marked as succeeded, the approval as blocked, all others are
  queued. The flow of the task has its status. No other task is touched.
\<close>

theorem workflow_run_outcome:
  assumes "normalizeTaskWorkflowGraphInput raw = Inr inp" and "runId = or_text (gi_runId inp) freshId"
    and "trimmed_text runId" and "fresh_run runId tasks"
  shows "\<exists>t ns flows'. runTaskWorkflowGraph now freshId raw (tasks, flows) = (Inr t, tasks @ [t], flows')
    \<and> tk_runId t = Some runId \<and> flow_agrees t flows'
    \<and> trail (gi_graph inp) (Some (gr_startNodeId (gi_graph inp))) ns \<and> length ns \<le> 51
    \<and> run_outcome (gi_graph inp) ns (queued_steps (gi_graph inp)) t"
  using started_run [OF assms] unfolding run_at_def by blast

definition sample_graph_input :: graph_input where
  "sample_graph_input = \<lparr>gi_runId = Some ''r1'', gi_rootTaskId = None, gi_parentTaskId = None,
     gi_correlationId = None, gi_definitionId = None, gi_agentId = None, gi_sessionKey = None,
     gi_name = ''Graph workflow'', gi_task = ''Graph workflow'', gi_sourceId = None, gi_notifyPolicy = ''done_only'',
     gi_graph = sample_graph, gi_sourceTask = None\<rparr>"

lemma sample_workflow_accepted: "normalizeTaskWorkflowGraphInput (Some sample_workflow_json) = Inr sample_graph_input"
proof -
  have r: "readString (Some (JStr ''r1'')) = Some ''r1''" by code_simp
  have "sample_graph_json \<noteq> JNull" by (simp add: sample_graph_json_def)
  then show ?thesis
    by (simp add: normalizeTaskWorkflowGraphInput_def sample_workflow_json_def sample_graph_accepted r
        sample_graph_input_def readSourceTask_def source_text_def md_def Let_def split: json.split)
qed


lemma sample_run_id: "trimmed_text ''r1''" "fresh_run ''r1'' []" "''r1'' = or_text (gi_runId sample_graph_input) ''x''"
proof -
  show "trimmed_text ''r1''" by code_simp
qed (simp_all add: fresh_run_def sample_graph_input_def)

theorem workflow_run_outcome_witness:
  "\<exists>t ns flows'. runTaskWorkflowGraph 5 ''x'' (Some sample_workflow_json) ([], []) = (Inr t, [] @ [t], flows')
    \<and> tk_runId t = Some ''r1'' \<and> flow_agrees t flows'
    \<and> trail (gi_graph sample_graph_input) (Some (gr_startNodeId (gi_graph sample_graph_input))) ns \<and> length ns \<le> 51
    \<and> run_outcome (gi_graph sample_graph_input) ns (queued_steps (gi_graph sample_graph_input)) t"
  by (rule workflow_run_outcome [OF sample_workflow_accepted sample_run_id(3,1,2)])

lemma outcome_open:
  assumes t: "trail g (Some i) ns" and out: "run_outcome g ns (queued_steps g) t"
    and j: "status_of t j = Some StSucceeded"
  shows "(i, j) \<in> (open_rel g)\<^sup>* \<and> (\<exists>n. node_at g j = Some n \<and> gn_type n \<noteq> ''approval'')"
proof -
  have "\<exists>n \<in> set ns. gn_id n = j \<and> node_at g j = Some n \<and> gn_type n \<noteq> ''approval''"
  proof (cases "ran_to_end g ns (queued_steps g) t \<or> hit_the_limit ns (queued_steps g) t")
    case True
    then obtain n where n: "n \<in> set ns" "gn_id n = j"
      using j mark_done_queued by (auto simp: ran_to_end_def hit_the_limit_def)
    have "gn_type (last ns) \<noteq> ''approval''"
      using True n(1) by (cases ns rule: rev_cases) (auto simp: ran_to_end_def run_over_def hit_the_limit_def passes_def)
    then show ?thesis using trail_done_open [OF t n(1)] n by blast
  next
    case False
    then have w: "waits_for_approval ns (queued_steps g) t" using out by (simp add: run_outcome_def)
    then have "mark_done (butlast ns) (queued_steps g) j = Some StSucceeded"
      using j by (auto simp: waits_for_approval_def put_status_def split: if_splits)
    then obtain n where n: "n \<in> set (butlast ns)" "gn_id n = j" using mark_done_queued by auto
    then show ?thesis using trail_passes [OF t n(1)] in_set_butlastD [OF n(1)] by (auto simp: passes_def)
  qed
  then show ?thesis using trail_open [OF t refl] by blast
qed

text \<open>
  C17: nothing past an approval runs without a decision: after a new run, every step marked as
  succeeded is a node that is not an approval and that is reached from the start node over edges
  none of which leaves an approval node.
\<close>

theorem workflow_nothing_past_approval:
  assumes "normalizeTaskWorkflowGraphInput raw = Inr inp" and "runId = or_text (gi_runId inp) freshId"
    and "trimmed_text runId" and "fresh_run runId tasks"
    and "runTaskWorkflowGraph now freshId raw (tasks, flows) = (Inr t, w)"
    and "status_of t j = Some StSucceeded"
  shows "(gr_startNodeId (gi_graph inp), j) \<in> (open_rel (gi_graph inp))\<^sup>*
    \<and> (\<exists>n. node_at (gi_graph inp) j = Some n \<and> gn_type n \<noteq> ''approval'')"
  using started_run [OF assms(1-4), of now flows] assms(5,6) outcome_open by auto

lemma sample_workflow_run:
  "case runTaskWorkflowGraph 5 ''x'' (Some sample_workflow_json) ([], []) of
     (Inr t, w) \<Rightarrow> status_of t ''a'' = Some StSucceeded \<and> status_of t ''b'' = Some StBlocked
        \<and> status_of t ''c'' = Some StQueued \<and> tk_status t = TBlocked \<and> tk_taskId t = ''CLI:r1''
        \<and> map_option fl_taskIds (getTaskFlowById ''flow:workflow:r1'' (snd w)) = Some [''CLI:r1'']
   | (Inl _, _) \<Rightarrow> False"
  by code_simp

theorem workflow_nothing_past_approval_witness:
  "(gr_startNodeId (gi_graph sample_graph_input), ''a'') \<in> (open_rel (gi_graph sample_graph_input))\<^sup>*
    \<and> (\<exists>n. node_at (gi_graph sample_graph_input) ''a'' = Some n \<and> gn_type n \<noteq> ''approval'')"
proof -
  obtain t w where "runTaskWorkflowGraph 5 ''x'' (Some sample_workflow_json) ([], []) = (Inr t, w)"
    "status_of t ''a'' = Some StSucceeded"
    using sample_workflow_run by (auto split: prod.splits sum.splits)
  then show ?thesis by (rule workflow_nothing_past_approval [OF sample_workflow_accepted sample_run_id(3,1,2)])
qed

lemma not_limit:
  "graph_wf g \<Longrightarrow> acyclic (edge_rel g) \<Longrightarrow> trail g current ns \<Longrightarrow> run_outcome g ns before t
    \<Longrightarrow> tk_status t = TSucceeded \<or> tk_status t = TBlocked"
  using acyclic_trail_short [of g current ns]
  by (auto simp: run_outcome_def ran_to_end_def waits_for_approval_def hit_the_limit_def)

text \<open>
  C20: a new run of an accepted workflow whose edges form no cycle never fails: its task has succeeded or
  waits for an approval.
\<close>

theorem workflow_acyclic_never_fails:
  assumes "normalizeTaskWorkflowGraphInput raw = Inr inp" and "runId = or_text (gi_runId inp) freshId"
    and "trimmed_text runId" and "fresh_run runId tasks" and "acyclic (edge_rel (gi_graph inp))"
  shows "\<exists>t w. runTaskWorkflowGraph now freshId raw (tasks, flows) = (Inr t, w)
    \<and> (tk_status t = TSucceeded \<or> tk_status t = TBlocked)"
  using started_run [OF assms(1-4), of now flows] not_limit [OF input_graph_wf [OF assms(1)] assms(5)] by blast


lemma sample_acyclic: "acyclic (edge_rel sample_graph)"
proof -
  have "list_all (\<lambda>e. (ge_from e, ge_to e) \<in> set [(''a'', ''b''), (''b'', ''c'')]) (gr_edges sample_graph)"
    by code_simp
  then have "edge_rel sample_graph \<subseteq> measure (\<lambda>s. if s = ''a'' then 0 else if s = ''b'' then 1 else 2)"
    by (auto simp: edge_rel_def list_all_iff)
  then show ?thesis using wf_acyclic [OF wf_measure] acyclic_subset by blast
qed

theorem workflow_acyclic_never_fails_witness:
  "\<exists>t w. runTaskWorkflowGraph 5 ''x'' (Some sample_workflow_json) ([], []) = (Inr t, w)
    \<and> (tk_status t = TSucceeded \<or> tk_status t = TBlocked)"
  by (rule workflow_acyclic_never_fails [OF sample_workflow_accepted sample_run_id(3,1,2)])
     (simp add: sample_graph_input_def sample_acyclic)

end
