(* ===== verification/WorkflowApproval.thy ===== *)
theory WorkflowApproval
  imports WorkflowRun
begin

text \<open>
  Workflows that wait for an approval: what a paused run leaves is enough to resume it, a decision
  continues where its edge leads, and two ways in which a refusal does not hold.
\<close>

section \<open>The point at which a run waits\<close>

lemma node_at_tidy: "node_at (tidy_graph g) i = map_option tidy_node (node_at g i)"
proof -
  have "find (\<lambda>x. gn_id x = i) (map tidy_node ns) = map_option tidy_node (find (\<lambda>x. gn_id x = i) ns)" for ns
    by (induction ns) auto
  then show ?thesis by (simp add: node_at_def tidy_graph_def rev_map)
qed

lemma tidy_edges [simp]: "gr_edges (tidy_graph g) = gr_edges g"
  by (simp add: tidy_graph_def)

lemma nextNodeId_tidy [simp]: "nextNodeId (tidy_graph g) i ev = nextNodeId g i ev"
  by (simp add: nextNodeId_def)

lemma paused_point:
  assumes run: "run_at runId pre t post tasks" and kind: "tk_taskKind t = Some ''workflow''"
    and meta: "meta t ''graph'' = Some (graph_json g)" "meta t ''workflowGraphVersion'' = Some (JNum (Fin 2))"
    and wf: "graph_wf g" and blocked: "tk_status t = TBlocked"
    and n: "meta t ''blockedNodeId'' = Some (JStr (gn_id n))" "node_at g (gn_id n) = Some n"
  shows "resume_point runId (tasks, flows) = Inr (t, tidy_graph g, tidy_node n)"
proof -
  have "gn_id n \<noteq> []" using node_id_nonempty [OF wf] node_at_SomeD [OF n(2)] by blast
  then show ?thesis
    using findTaskRecord_run [OF run] kind meta blocked n graph_roundtrip [OF wf]
    by (simp add: resume_point_def meta_def node_at_tidy opt_str_def)
qed

lemma paused_node:
  assumes "run_outcome g ns before t" "trail g current ns" "tk_status t = TBlocked"
  shows "\<exists>n. gn_type n = ''approval'' \<and> node_at g (gn_id n) = Some n
    \<and> meta t ''blockedNodeId'' = Some (JStr (gn_id n))"
proof -
  have w: "waits_for_approval ns before t"
    using assms(1,3) by (auto simp: run_outcome_def ran_to_end_def hit_the_limit_def)
  then show ?thesis using trail_last [OF assms(2)] by (auto simp: waits_for_approval_def)
qed

lemma resume_pointD:
  assumes "resume_point key (tasks, flows) = Inr (t, g, n)"
  shows "graph_wf g" "node_at g (gn_id n) = Some n" "tk_taskKind t = Some ''workflow''" "tk_status t = TBlocked"
    "findTaskRecord key tasks = Some t"
proof -
  from assms obtain i where *: "findTaskRecord key tasks = Some t" "tk_taskKind t = Some ''workflow''"
    "tk_status t = TBlocked" "normalizeGraph (get_prop (md (tk_metadata t)) ''graph'') = Inr g" "node_at g i = Some n"
    by (auto simp: resume_point_def bind_r_eq_Inr Let_def split: option.splits if_splits)
  then show "graph_wf g" "node_at g (gn_id n) = Some n" "tk_taskKind t = Some ''workflow''" "tk_status t = TBlocked"
    "findTaskRecord key tasks = Some t"
    using normalizeGraph_wf node_at_SomeD by auto
qed

section \<open>A decision\<close>

definition decided_status :: "string \<Rightarrow> step_status" where
  "decided_status d = (if d = ''approved'' then StSucceeded else StSkipped)"

lemma map_of_decided:
  "map_of (map (\<lambda>s. (ts_id s, ts_status s)) (map (decided_step now inp n) ss))
     = put_status (gn_id n) (decided_status (ri_decision inp)) (map_of (map (\<lambda>s. (ts_id s, ts_status s)) ss))"
  by (rule ext, induction ss) (auto simp: decided_step_def put_status_def decided_status_def)

lemma resumed_task_run:
  assumes run: "run_at runId pre t post tasks"
  shows "\<exists>u. updateTaskRecord now runId (\<lambda>c. Some (resumed_task now inp n c)) tasks = (Some u, pre @ u # post)
    \<and> run_at runId pre u post (pre @ u # post) \<and> same_graph t u
    \<and> status_of u = put_status (gn_id n) (decided_status (ri_decision inp)) (status_of t)"
proof -
  let ?u = "renormalized now (resumed_task now inp n t)"
  have keep: "tk_runId (resumed_task now inp n t) = tk_runId t" "tk_taskKind (resumed_task now inp n t) = tk_taskKind t"
    "tk_taskId (resumed_task now inp n t) = tk_taskId t"
    by (simp_all add: resumed_task_def Let_def)
  note u = update_run [OF run, of "resumed_task now inp n" now, OF keep]
  have steps: "tk_steps ?u = Some (map (decided_step now inp n) (steps_of t))"
    by (simp add: resumed_task_def Let_def)
  have "status_of ?u = put_status (gn_id n) (decided_status (ri_decision inp)) (status_of t)"
    unfolding status_of_def steps_of_def [of ?u] steps option.case by (rule map_of_decided)
  moreover have "meta ?u ''graph'' = meta t ''graph''" "meta ?u ''workflowGraphVersion'' = meta t ''workflowGraphVersion''"
    unfolding meta_def renormalized_fields by (simp_all add: resumed_task_def Let_def get_prop_spread)
  ultimately show ?thesis using u by (auto simp: same_graph_def)
qed

lemma resume_continues:
  assumes inp: "normalizeTaskWorkflowGraphResumeInput raw = Inr inp"
    and point: "resume_point (ri_taskIdOrRunId inp) (tasks, flows) = Inr (t, g, n)"
    and run: "run_at runId pre t post tasks"
    and nxt: "nextNodeId g (gn_id n) (ri_decision inp) = Some nxt"
  shows "\<exists>u ns flows'. resumeTaskWorkflowGraph now raw (tasks, flows) = (Inr u, pre @ u # post, flows')
    \<and> tk_runId u = Some runId \<and> flow_agrees u flows' \<and> trail g (Some nxt) ns \<and> length ns \<le> 51
    \<and> run_outcome g ns (put_status (gn_id n) (decided_status (ri_decision inp)) (status_of t)) u"
proof -
  note p = resume_pointD [OF point]
  have key: "task_run_key t = runId" using run by (simp add: run_at_def task_run_key_def)
  obtain a where a: "updateTaskRecord now runId (\<lambda>c. Some (resumed_task now inp n c)) tasks = (Some a, pre @ a # post)"
    "run_at runId pre a post (pre @ a # post)" "same_graph t a"
    "status_of a = put_status (gn_id n) (decided_status (ri_decision inp)) (status_of t)"
    using resumed_task_run [OF run] by blast
  have ka: "tk_taskKind a = Some ''workflow''" using same_graph_kind [OF a(3)] p(3) by simp
  have ig: "in_graph g (Some nxt)" using next_in_graph [OF p(1)] nxt by metis
  obtain u ns where u: "left_with runId pre a post (completeGraphFromNode now runId g nxt (pre @ a # post, flows)) u"
    "trail g (Some nxt) ns" "length ns \<le> 51" "run_outcome g ns (status_of a) u"
    using complete_left [OF p(1) ig a(2) ka] by blast
  have eq: "resumeTaskWorkflowGraph now raw (tasks, flows) = completeGraphFromNode now runId g nxt (pre @ a # post, flows)"
    unfolding resumeTaskWorkflowGraph_def by (simp add: inp point nxt key a(1))
  obtain flows' where "completeGraphFromNode now runId g nxt (pre @ a # post, flows) = (Inr u, pre @ u # post, flows')"
    "flow_agrees u flows'" "run_at runId pre u post (pre @ u # post)"
    using u(1) unfolding left_with_def by blast
  then show ?thesis using u(2-4) a(4) eq
    by (intro exI [of _ u] exI [of _ ns] exI [of _ flows']) (simp add: run_at_def)
qed

lemma approval_has_path:
  assumes "graph_wf g" "node_at g i = Some n" "gn_type n = ''approval''"
  shows "\<exists>nxt. nextNodeId g (gn_id n) ''approved'' = Some nxt"
proof -
  let ?es = "edges_from (gr_edges g) (gn_id n)"
  obtain e where e: "e \<in> set ?es" "ge_on e \<in> {Some ''approved'', Some ''next'', None}"
    using assms node_at_SomeD [OF assms(2)] unfolding graph_wf_def node_connected_def by blast
  have "find (\<lambda>e. ge_on e = on) ?es \<noteq> None" if "ge_on e = on" for on
    using e(1) that find_None_iff [of "\<lambda>e. ge_on e = on" ?es] by blast
  then show ?thesis using e(2) unfolding nextNodeId_def Let_def
    by (auto simp: nullish_def split: option.splits)
qed


lemma paused_run:
  assumes "normalizeTaskWorkflowGraphInput raw = Inr inp" and "runId = or_text (gi_runId inp) freshId"
    and "trimmed_text runId" and "fresh_run runId tasks"
    and "runTaskWorkflowGraph now freshId raw (tasks, flows) = (Inr t, w)" and "tk_status t = TBlocked"
  shows "\<exists>n flows'. w = (tasks @ [t], flows') \<and> run_at runId tasks t [] (tasks @ [t])
    \<and> gn_type n = ''approval'' \<and> node_at (gi_graph inp) (gn_id n) = Some n
    \<and> resume_point runId w = Inr (t, tidy_graph (gi_graph inp), tidy_node n)"
proof -
  from started_run [OF assms(1-4), of now flows] assms(5) obtain ns flows' where
    t: "w = (tasks @ [t], flows')" "run_at runId tasks t [] (tasks @ [t])" "tk_taskKind t = Some ''workflow''"
    "meta t ''graph'' = Some (graph_json (gi_graph inp))" "meta t ''workflowGraphVersion'' = Some (JNum (Fin 2))"
    "trail (gi_graph inp) (Some (gr_startNodeId (gi_graph inp))) ns"
    "run_outcome (gi_graph inp) ns (queued_steps (gi_graph inp)) t"
    by auto
  obtain n where n: "gn_type n = ''approval''" "node_at (gi_graph inp) (gn_id n) = Some n"
    "meta t ''blockedNodeId'' = Some (JStr (gn_id n))"
    using paused_node [OF t(7,6) assms(6)] by blast
  have "resume_point runId w = Inr (t, tidy_graph (gi_graph inp), tidy_node n)"
    unfolding t(1) by (rule paused_point [OF t(2-5) input_graph_wf [OF assms(1)] assms(6) n(3,2)])
  then show ?thesis using n t(1,2) by blast
qed

section \<open>Properties\<close>

text \<open>
  A new run that comes back blocked can be decided on: looked up under its run id, the task passes
  every check of a resumption, its stored definition is accepted again, and the node found there is the
  approval node the run stopped at.
\<close>

theorem workflow_paused_can_resume:
  assumes "normalizeTaskWorkflowGraphInput raw = Inr inp" and "runId = or_text (gi_runId inp) freshId"
    and "trimmed_text runId" and "fresh_run runId tasks"
    and "runTaskWorkflowGraph now freshId raw (tasks, flows) = (Inr t, w)" and "tk_status t = TBlocked"
  shows "\<exists>n. gn_type n = ''approval'' \<and> node_at (gi_graph inp) (gn_id n) = Some n
    \<and> resume_point runId w = Inr (t, tidy_graph (gi_graph inp), tidy_node n)"
  using paused_run [OF assms] by blast

definition sample_paused :: "task \<times> world" where
  "sample_paused = (case runTaskWorkflowGraph 5 ''x'' (Some sample_workflow_json) ([], []) of
     (Inr t, w) \<Rightarrow> (t, w) | (Inl _, w) \<Rightarrow> (hd (fst w), w))"

lemma sample_paused_run:
  "runTaskWorkflowGraph 5 ''x'' (Some sample_workflow_json) ([], []) = (Inr (fst sample_paused), snd sample_paused)"
  "tk_status (fst sample_paused) = TBlocked"
  using sample_workflow_run by (auto simp: sample_paused_def split: prod.splits sum.splits)

theorem workflow_paused_can_resume_witness:
  "\<exists>n. gn_type n = ''approval'' \<and> node_at (gi_graph sample_graph_input) (gn_id n) = Some n
    \<and> resume_point ''r1'' (snd sample_paused)
      = Inr (fst sample_paused, tidy_graph (gi_graph sample_graph_input), tidy_node n)"
  by (rule workflow_paused_can_resume
      [OF sample_workflow_accepted sample_run_id(3,1,2) sample_paused_run])

text \<open>
  A decision continues the workflow where its edge leads. If the task waits at a node and the graph
  has an edge for the decision, the resumption returns the task, with the step of the node marked as
  succeeded for an approval and as skipped for a rejection, and with the outcome of a run from the edge's
  target: the nodes passed have succeeded, or the next approval is blocked, or the limit is hit.
\<close>

theorem workflow_decision_continues:
  assumes "normalizeTaskWorkflowGraphResumeInput raw = Inr inp"
    and "resume_point (ri_taskIdOrRunId inp) (pre @ t # post, flows) = Inr (t, g, n)"
    and "run_at runId pre t post (pre @ t # post)"
    and "nextNodeId g (gn_id n) (ri_decision inp) = Some nxt"
  shows "\<exists>u ns flows'. resumeTaskWorkflowGraph now raw (pre @ t # post, flows) = (Inr u, pre @ u # post, flows')
    \<and> tk_runId u = Some runId \<and> flow_agrees u flows' \<and> trail g (Some nxt) ns \<and> length ns \<le> 51
    \<and> run_outcome g ns (put_status (gn_id n) (decided_status (ri_decision inp)) (status_of t)) u"
  by (rule resume_continues [OF assms])

definition decision_json :: "string \<Rightarrow> json" where
  "decision_json d = JObj [(''runId'', JStr ''r1''), (''decision'', JStr d)]"

definition decision_input :: "string \<Rightarrow> resume_input" where
  "decision_input d = \<lparr>ri_taskIdOrRunId = ''r1'', ri_decision = d, ri_actor = None, ri_reason = None\<rparr>"

lemma decision_accepted:
  "normalizeTaskWorkflowGraphResumeInput (Some (decision_json ''approved'')) = Inr (decision_input ''approved'')"
  "normalizeTaskWorkflowGraphResumeInput (Some (decision_json ''rejected'')) = Inr (decision_input ''rejected'')"
  by code_simp+

definition sample_node :: graph_node where
  "sample_node = tidy_node (the (node_at sample_graph ''b''))"

lemma sample_node_facts:
  "nextNodeId (tidy_graph sample_graph) (gn_id sample_node) ''approved'' = Some ''c''"
  "nextNodeId (tidy_graph sample_graph) (gn_id sample_node) ''rejected'' = Some ''c''"
  "gn_type sample_node = ''approval''"
  by code_simp+

lemma sample_point:
  "\<exists>flows. snd sample_paused = ([] @ fst sample_paused # [], flows)
     \<and> run_at ''r1'' [] (fst sample_paused) [] ([] @ fst sample_paused # [])
     \<and> resume_point ''r1'' ([] @ fst sample_paused # [], flows)
       = Inr (fst sample_paused, tidy_graph sample_graph, sample_node)"
proof -
  obtain n flows where n: "snd sample_paused = ([] @ [fst sample_paused], flows)"
    "run_at ''r1'' [] (fst sample_paused) [] ([] @ [fst sample_paused])"
    "gn_type n = ''approval''" "node_at sample_graph (gn_id n) = Some n"
    "resume_point ''r1'' (snd sample_paused) = Inr (fst sample_paused, tidy_graph sample_graph, tidy_node n)"
    using paused_run [OF sample_workflow_accepted sample_run_id(3,1,2) sample_paused_run]
    unfolding sample_graph_input_def graph_input.simps by blast
  have "list_all (\<lambda>x. if gn_type x = ''approval'' then gn_id x = ''b'' else True) (gr_nodes sample_graph)" by code_simp
  then have "gn_id n = ''b''" using n(3) node_at_SomeD [OF n(4)] by (auto simp: list_all_iff split: if_splits)
  then have "sample_node = tidy_node n" using n(4) by (simp add: sample_node_def)
  then show ?thesis using n by auto
qed

theorem workflow_decision_continues_witness:
  "\<exists>flows u ns flows'. resumeTaskWorkflowGraph 7 (Some (decision_json ''approved'')) ([] @ fst sample_paused # [], flows)
      = (Inr u, [] @ u # [], flows')
    \<and> tk_runId u = Some ''r1'' \<and> flow_agrees u flows' \<and> trail (tidy_graph sample_graph) (Some ''c'') ns
    \<and> length ns \<le> 51
    \<and> run_outcome (tidy_graph sample_graph) ns
        (put_status (gn_id sample_node) (decided_status (ri_decision (decision_input ''approved'')))
          (status_of (fst sample_paused))) u"
proof -
  obtain flows where f: "run_at ''r1'' [] (fst sample_paused) [] ([] @ fst sample_paused # [])"
    "resume_point ''r1'' ([] @ fst sample_paused # [], flows)
       = Inr (fst sample_paused, tidy_graph sample_graph, sample_node)" using sample_point by blast
  have d: "ri_taskIdOrRunId (decision_input ''approved'') = ''r1''" "ri_decision (decision_input ''approved'') = ''approved''"
    by (simp_all add: decision_input_def)
  show ?thesis
    using workflow_decision_continues [OF decision_accepted(1), of "[]" "fst sample_paused" "[]" flows
        "tidy_graph sample_graph" sample_node "''r1''" "''c''" 7] f sample_node_facts(1) unfolding d by blast
qed

text \<open>
  C18: a paused run can always be approved: the graph has an edge for it, and the resumption under the
  run id returns the run's task, with the approval's step succeeded and the outcome of a run from the
  edge's target.
\<close>

theorem workflow_approve_after_pause:
  assumes "normalizeTaskWorkflowGraphInput raw = Inr inp" and "runId = or_text (gi_runId inp) freshId"
    and "trimmed_text runId" and "fresh_run runId tasks"
    and "runTaskWorkflowGraph now freshId raw (tasks, flows) = (Inr t, w)" and "tk_status t = TBlocked"
    and "normalizeTaskWorkflowGraphResumeInput raw' = Inr dec"
    and "ri_taskIdOrRunId dec = runId" and "ri_decision dec = ''approved''"
  shows "\<exists>n nxt u ns flows'. gn_type n = ''approval'' \<and> node_at (gi_graph inp) (gn_id n) = Some n
    \<and> nextNodeId (gi_graph inp) (gn_id n) ''approved'' = Some nxt
    \<and> resumeTaskWorkflowGraph now' raw' w = (Inr u, tasks @ [u], flows') \<and> flow_agrees u flows'
    \<and> trail (tidy_graph (gi_graph inp)) (Some nxt) ns
    \<and> run_outcome (tidy_graph (gi_graph inp)) ns (put_status (gn_id n) StSucceeded (status_of t)) u"
proof -
  obtain n flows1 where n: "w = (tasks @ [t], flows1)" "run_at runId tasks t [] (tasks @ [t])"
    "gn_type n = ''approval''" "node_at (gi_graph inp) (gn_id n) = Some n"
    "resume_point runId w = Inr (t, tidy_graph (gi_graph inp), tidy_node n)"
    using paused_run [OF assms(1-6)] by blast
  obtain nxt where nxt: "nextNodeId (gi_graph inp) (gn_id n) ''approved'' = Some nxt"
    using approval_has_path [OF input_graph_wf [OF assms(1)] n(4,3)] by blast
  have point: "resume_point (ri_taskIdOrRunId dec) (tasks @ t # [], flows1)
      = Inr (t, tidy_graph (gi_graph inp), tidy_node n)" using n(5) by (simp add: n(1) assms(8))
  have nxt': "nextNodeId (tidy_graph (gi_graph inp)) (gn_id (tidy_node n)) (ri_decision dec) = Some nxt"
    using nxt by (simp add: assms(9))
  from resume_continues [OF assms(7) point n(2) nxt', of now'] obtain u ns flows' where
    "resumeTaskWorkflowGraph now' raw' w = (Inr u, tasks @ [u], flows')" "flow_agrees u flows'"
    "trail (tidy_graph (gi_graph inp)) (Some nxt) ns"
    "run_outcome (tidy_graph (gi_graph inp)) ns (put_status (gn_id n) StSucceeded (status_of t)) u"
    unfolding n(1) assms(9) decided_status_def tidy_node_simps by auto
  then show ?thesis using n(3,4) nxt by blast
qed

theorem workflow_approve_after_pause_witness:
  "\<exists>n nxt u ns flows'. gn_type n = ''approval'' \<and> node_at (gi_graph sample_graph_input) (gn_id n) = Some n
    \<and> nextNodeId (gi_graph sample_graph_input) (gn_id n) ''approved'' = Some nxt
    \<and> resumeTaskWorkflowGraph 7 (Some (decision_json ''approved'')) (snd sample_paused) = (Inr u, [] @ [u], flows')
    \<and> flow_agrees u flows'
    \<and> trail (tidy_graph (gi_graph sample_graph_input)) (Some nxt) ns
    \<and> run_outcome (tidy_graph (gi_graph sample_graph_input)) ns
        (put_status (gn_id n) StSucceeded (status_of (fst sample_paused))) u"
  by (rule workflow_approve_after_pause [OF sample_workflow_accepted sample_run_id(3,1,2) sample_paused_run
        decision_accepted(1)]) (simp_all add: decision_input_def)



text \<open>
  Cancelling the flow of a workflow that waits for an approval cancels the flow and not the
  workflow: \<open>blocked\<close> counts as ended, so the task stays blocked, and whatever a resumption found before
  the cancellation it finds after it.
\<close>

theorem workflow_cancel_leaves_approval:
  assumes "getTaskFlowById flowId flows = Some f" and "fl_taskIds f = [tk_taskId t]"
    and "findTaskRecord (tk_taskId t) tasks = Some t" and "tk_status t = TBlocked"
  shows "\<exists>f' flows'. cancelTaskFlow now flowId reason (tasks, flows) = (Some f', tasks, flows')
    \<and> fl_status f' = OfTask TCancelled
    \<and> resume_point key (tasks, flows') = resume_point key (tasks, flows)"
proof -
  have "cancel_task now reason (tk_taskId t) tasks = tasks"
    using assms(3,4) by (simp add: cancel_task_def isTerminalFlowStatus_def)
  moreover have "js_trim flowId \<noteq> []" "getTaskFlowById (js_trim flowId) flows = Some f"
    using assms(1) by (auto simp: getTaskFlowById_def Let_def split: if_splits)
  ultimately show ?thesis using assms(2)
    by (simp add: cancelTaskFlow_def Let_def cancelled_flow_def resume_point_def)
qed

theorem workflow_cancel_leaves_approval_witness:
  "\<exists>f' flows'. cancelTaskFlow 9 ''flow:workflow:r1'' None (snd sample_paused)
      = (Some f', fst (snd sample_paused), flows')
    \<and> fl_status f' = OfTask TCancelled
    \<and> resume_point ''r1'' (fst (snd sample_paused), flows') = resume_point ''r1'' (fst (snd sample_paused), snd (snd sample_paused))"
proof -
  obtain f where f: "getTaskFlowById ''flow:workflow:r1'' (snd (snd sample_paused)) = Some f"
    "fl_taskIds f = [tk_taskId (fst sample_paused)]" and i: "tk_taskId (fst sample_paused) = ''CLI:r1''"
    using sample_workflow_run by (auto simp: sample_paused_def split: prod.splits sum.splits)
  have "js_trim ''CLI:r1'' = ''CLI:r1''" by code_simp
  note i = i this
  have "fst (snd sample_paused) = [fst sample_paused]" using sample_point by auto
  then have t: "findTaskRecord (tk_taskId (fst sample_paused)) (fst (snd sample_paused)) = Some (fst sample_paused)"
    by (simp add: findTaskRecord_def task_has_key_def i)
  show ?thesis
    using workflow_cancel_leaves_approval [OF f t sample_paused_run(2), of 9 None "''r1''"] by simp
qed

end
