(* ===== verification/RateLimit.thy ===== *)
theory RateLimit
  imports Prelude "HOL-Library.AList"
begin

text \<open>
  What limits the rate of requests to the gateway: \<open>src/gateway/auth-rate-limit.ts\<close> (failed logins),
  \<open>src/gateway/control-plane-rate-limit.ts\<close> and \<open>src/gateway/mutating-admin-rpc-rate-limit.ts\<close>
  (administrative calls), and the client address they go by, from \<open>src/gateway/net.ts\<close>.

  A \<open>Map\<close> is an association list with \<open>AList.update\<close> and \<open>AList.delete\<close>. Times are integers in
  milliseconds and the clock is an argument. What \<open>src/shared/net/ip.ts\<close> and Node's \<open>net\<close> module say of
  an address rests on a package and on the runtime: reading an address, membership in a range, loopback
  and \<open>net.isIP\<close> are the fields of \<open>ip_functions\<close>.
\<close>

section \<open>Addresses\<close>

record ip_functions =
  normalizeIpAddress :: "string option \<Rightarrow> string option"
  isIpInCidr :: "string \<Rightarrow> string \<Rightarrow> bool"
  isLoopbackIpAddress :: "string \<Rightarrow> bool"
  isIP :: "string \<Rightarrow> nat"

definition index_of :: "char \<Rightarrow> string \<Rightarrow> nat option" where
  "index_of c s = (let n = length (takeWhile (\<lambda>x. x \<noteq> c) s) in if n < length s then Some n else None)"

definition last_index :: "char \<Rightarrow> string \<Rightarrow> nat option" where
  "last_index c s = map_option (\<lambda>i. length s - Suc i) (index_of c (rev s))"

definition stripOptionalPort :: "ip_functions \<Rightarrow> string \<Rightarrow> string" where
  "stripOptionalPort F ip =
     (let bracket = (if js_starts_with ip ''['' then index_of (CHR '']'') ip else None) in
      case bracket of Some e \<Rightarrow> take (e - 1) (drop 1 ip)
      | None \<Rightarrow>
        if isIP F ip \<noteq> 0 then ip
        else (case last_index (CHR '':'') ip of
            Some i \<Rightarrow>
              if CHR ''.'' \<in> set ip \<and> index_of (CHR '':'') ip = Some i \<and> isIP F (take i ip) = 4
              then take i ip else ip
          | None \<Rightarrow> ip))"

definition parseIpLiteral :: "ip_functions \<Rightarrow> string option \<Rightarrow> string option" where
  "parseIpLiteral F raw =
     (case trim_or_undef raw of None \<Rightarrow> None
      | Some trimmed \<Rightarrow>
        (case normalizeIpAddress F (Some (stripOptionalPort F trimmed)) of
           Some n \<Rightarrow> if n = [] \<or> isIP F n = 0 then None else Some n
         | None \<Rightarrow> None))"

definition isTrustedProxyAddress :: "ip_functions \<Rightarrow> string option \<Rightarrow> string list option \<Rightarrow> bool" where
  "isTrustedProxyAddress F ip trustedProxies =
     (case (normalizeIpAddress F ip, trustedProxies) of
        (Some normalized, Some ps) \<Rightarrow>
          normalized \<noteq> [] \<and> list_ex (\<lambda>p. js_trim p \<noteq> [] \<and> isIpInCidr F normalized (js_trim p)) ps
      | _ \<Rightarrow> False)"

text \<open>\<open>s.split(",")\<close>\<close>

fun split_comma :: "string \<Rightarrow> string list" where
  "split_comma [] = [[]]"
| "split_comma (c # cs) =
     (if c = CHR '','' then [] # split_comma cs
      else (case split_comma cs of [] \<Rightarrow> [[c]] | p # ps \<Rightarrow> (c # p) # ps))"

definition forwarded_chain :: "ip_functions \<Rightarrow> string option \<Rightarrow> string list" where
  "forwarded_chain F forwardedFor =
     (case forwardedFor of None \<Rightarrow> []
      | Some s \<Rightarrow> concat (map (\<lambda>e. case parseIpLiteral F (Some e) of Some n \<Rightarrow> [n] | None \<Rightarrow> []) (split_comma s)))"

definition resolveForwardedClientIp :: "ip_functions \<Rightarrow> string option \<Rightarrow> string list option \<Rightarrow> string option" where
  "resolveForwardedClientIp F forwardedFor trustedProxies =
     (if trustedProxies = None \<or> trustedProxies = Some [] then None
      else find (\<lambda>hop. \<not> isTrustedProxyAddress F (Some hop) trustedProxies) (rev (forwarded_chain F forwardedFor)))"

record client_request =
  remoteAddr :: "string option"
  forwardedFor :: "string option"
  realIp :: "string option"
  trustedProxies :: "string list option"
  allowRealIpFallback :: bool

definition resolveClientIp :: "ip_functions \<Rightarrow> client_request \<Rightarrow> string option" where
  "resolveClientIp F p =
     (case normalizeIpAddress F (remoteAddr p) of None \<Rightarrow> None
      | Some remote \<Rightarrow>
        if remote = [] then None
        else if \<not> isTrustedProxyAddress F (Some remote) (trustedProxies p) then Some remote
        else (case resolveForwardedClientIp F (forwardedFor p) (trustedProxies p) of
            Some ip \<Rightarrow> Some ip
          | None \<Rightarrow> if allowRealIpFallback p then parseIpLiteral F (realIp p) else None))"

section \<open>Failed logins\<close>


record rate_config =
  maxAttempts :: int
  windowMs :: int
  lockoutMs :: int
  exemptLoopback :: bool



record rate_entry =
  attempts :: "int list"
  lockedUntil :: "int option"

type_synonym rate_entries = "(string \<times> rate_entry) list"
















definition size_entries :: "rate_entries \<Rightarrow> nat" where
  "size_entries es = length es"

section \<open>Administrative calls\<close>

record gateway_client =
  deviceId :: "json option"
  clientIp :: "json option"
  connId :: "json option"

record bucket =
  bk_count :: int
  bk_windowStartMs :: int

type_synonym buckets = "(string \<times> bucket) list"

definition normalizePart :: "json option \<Rightarrow> string \<Rightarrow> string" where
  "normalizePart v fallback = (case v of Some (JStr s) \<Rightarrow> str_or (js_trim s) fallback | _ \<Rightarrow> fallback)"

text \<open>A client that is \<open>null\<close> has none of the three.\<close>

definition resolveControlPlaneRateLimitKey :: "gateway_client \<Rightarrow> string" where
  "resolveControlPlaneRateLimitKey c =
     (let d = normalizePart (deviceId c) ''unknown-device''; ip = normalizePart (clientIp c) ''unknown-ip'';
          conn = normalizePart (connId c) []
      in if d = ''unknown-device'' \<and> ip = ''unknown-ip'' \<and> conn \<noteq> []
         then d @ ''|'' @ ip @ ''|conn='' @ conn else d @ ''|'' @ ip)"

definition CONTROL_PLANE_RATE_LIMIT_MAX_REQUESTS :: int where "CONTROL_PLANE_RATE_LIMIT_MAX_REQUESTS = 3"
definition CONTROL_PLANE_RATE_LIMIT_WINDOW_MS :: int where "CONTROL_PLANE_RATE_LIMIT_WINDOW_MS = 60000"

record budget_result =
  bd_allowed :: bool
  bd_retryAfterMs :: int
  bd_remaining :: int
  bd_key :: string

definition consumeControlPlaneWriteBudget ::
  "int \<Rightarrow> gateway_client \<Rightarrow> buckets \<Rightarrow> budget_result \<times> buckets" where
  "consumeControlPlaneWriteBudget nowMs c bs =
     (let key = resolveControlPlaneRateLimitKey c;
          fresh = (\<lparr>bd_allowed = True, bd_retryAfterMs = 0,
              bd_remaining = CONTROL_PLANE_RATE_LIMIT_MAX_REQUESTS - 1, bd_key = key\<rparr>,
            AList.update key \<lparr>bk_count = 1, bk_windowStartMs = nowMs\<rparr> bs)
      in case map_of bs key of None \<Rightarrow> fresh
         | Some b \<Rightarrow>
           if nowMs - bk_windowStartMs b \<ge> CONTROL_PLANE_RATE_LIMIT_WINDOW_MS then fresh
           else if bk_count b \<ge> CONTROL_PLANE_RATE_LIMIT_MAX_REQUESTS
           then (\<lparr>bd_allowed = False,
                  bd_retryAfterMs = max 0 (bk_windowStartMs b + CONTROL_PLANE_RATE_LIMIT_WINDOW_MS - nowMs),
                  bd_remaining = 0, bd_key = key\<rparr>, bs)
           else (\<lparr>bd_allowed = True, bd_retryAfterMs = 0,
                  bd_remaining = max 0 (CONTROL_PLANE_RATE_LIMIT_MAX_REQUESTS - (bk_count b + 1)), bd_key = key\<rparr>,
                 AList.update key (b\<lparr>bk_count := bk_count b + 1\<rparr>) bs))"

record rpc_policy =
  maxRequests :: int
  rpcWindowMs :: int

definition MUTATING_ADMIN_RPC_RATE_LIMIT_POLICIES :: "(string \<times> rpc_policy) list" where
  "MUTATING_ADMIN_RPC_RATE_LIMIT_POLICIES =
     [(''chat.inject'', \<lparr>maxRequests = 10, rpcWindowMs = 60000\<rparr>),
      (''doctor.memory.repair.execute'', \<lparr>maxRequests = 1, rpcWindowMs = 300000\<rparr>),
      (''push.test'', \<lparr>maxRequests = 3, rpcWindowMs = 60000\<rparr>),
      (''secrets.reload'', \<lparr>maxRequests = 6, rpcWindowMs = 60000\<rparr>),
      (''web.login.start'', \<lparr>maxRequests = 3, rpcWindowMs = 300000\<rparr>),
      (''web.login.wait'', \<lparr>maxRequests = 12, rpcWindowMs = 300000\<rparr>)]"

definition isMutatingAdminRpcRateLimitedMethod :: "string \<Rightarrow> bool" where
  "isMutatingAdminRpcRateLimitedMethod m = (m \<in> set (map fst MUTATING_ADMIN_RPC_RATE_LIMIT_POLICIES))"

definition resolveMutatingAdminRpcRateLimitKey :: "string \<Rightarrow> gateway_client \<Rightarrow> string" where
  "resolveMutatingAdminRpcRateLimitKey m c =
     (let d = normalizePart (deviceId c) ''unknown-device''; ip = normalizePart (clientIp c) ''unknown-ip'';
          conn = normalizePart (connId c) []
      in if d = ''unknown-device'' \<and> ip = ''unknown-ip'' \<and> conn \<noteq> []
         then m @ ''|'' @ d @ ''|'' @ ip @ ''|conn='' @ conn else m @ ''|'' @ d @ ''|'' @ ip)"

text \<open>\<open>None\<close> is \<open>{applies: false}\<close>.\<close>

definition consumeMutatingAdminRpcBudget ::
  "int \<Rightarrow> string \<Rightarrow> gateway_client \<Rightarrow> buckets \<Rightarrow> budget_result option \<times> buckets" where
  "consumeMutatingAdminRpcBudget nowMs m c bs =
     (case map_of MUTATING_ADMIN_RPC_RATE_LIMIT_POLICIES m of None \<Rightarrow> (None, bs)
      | Some policy \<Rightarrow>
        let key = resolveMutatingAdminRpcRateLimitKey m c;
            fresh = (Some \<lparr>bd_allowed = True, bd_retryAfterMs = 0, bd_remaining = maxRequests policy - 1, bd_key = key\<rparr>,
              AList.update key \<lparr>bk_count = 1, bk_windowStartMs = nowMs\<rparr> bs)
        in case map_of bs key of None \<Rightarrow> fresh
           | Some b \<Rightarrow>
             if nowMs - bk_windowStartMs b \<ge> rpcWindowMs policy then fresh
             else if bk_count b \<ge> maxRequests policy
             then (Some \<lparr>bd_allowed = False,
                    bd_retryAfterMs = max 0 (bk_windowStartMs b + rpcWindowMs policy - nowMs),
                    bd_remaining = 0, bd_key = key\<rparr>, bs)
             else (Some \<lparr>bd_allowed = True, bd_retryAfterMs = 0,
                    bd_remaining = max 0 (maxRequests policy - (bk_count b + 1)), bd_key = key\<rparr>,
                   AList.update key (b\<lparr>bk_count := bk_count b + 1\<rparr>) bs))"


section \<open>Fixed windows\<close>

text \<open>
  The times at which the calls of one caller are let through, in a run of calls by all callers.
  \<open>consume\<close> is the limiter, \<open>same\<close> tells whether two calls are counted together.
\<close>

fun served :: "(int \<Rightarrow> 'c \<Rightarrow> 's \<Rightarrow> bool \<times> 's) \<Rightarrow> ('c \<Rightarrow> 'c \<Rightarrow> bool) \<Rightarrow> 'c \<Rightarrow> (int \<times> 'c) list \<Rightarrow> 's \<Rightarrow> int list" where
  "served consume same c [] s = []"
| "served consume same c ((t, d) # xs) s =
     (case consume t d s of (ok, s') \<Rightarrow> (if ok \<and> same c d then [t] else []) @ served consume same c xs s')"

definition count_in :: "int \<Rightarrow> int \<Rightarrow> int list \<Rightarrow> nat" where
  "count_in a b ts = length (filter (\<lambda>t. a \<le> t \<and> t < b) ts)"

lemma count_in_append [simp]: "count_in a b (xs @ ys) = count_in a b xs + count_in a b ys"
  by (simp add: count_in_def)

lemma count_in_Nil [simp]: "count_in a b [] = 0"
  by (simp add: count_in_def)

lemma count_in_single: "count_in a b [t] = (if a \<le> t \<and> t < b then 1 else 0)"
  by (simp add: count_in_def)

lemma count_in_mono: "a' \<le> a \<Longrightarrow> b \<le> b' \<Longrightarrow> count_in a b ts \<le> count_in a' b' ts"
  by (induction ts) (auto simp: count_in_def)

lemma count_in_split: "a \<le> b \<Longrightarrow> b \<le> c \<Longrightarrow> count_in a c ts = count_in a b ts + count_in b c ts"
  by (induction ts) (auto simp: count_in_def)

lemma count_in_none: "\<forall>t \<in> set ts. t < a \<or> b \<le> t \<Longrightarrow> count_in a b ts = 0"
  by (induction ts) (auto simp: count_in_def)

text \<open>
  A limiter with a bucket per key: the number of calls let through and the start of the window. A call
  after the window opens a new bucket, a call within it is let through while the count is below the
  limit, and a call of another key leaves the bucket alone.
\<close>

locale fixed_window =
  fixes consume :: "int \<Rightarrow> 'c \<Rightarrow> 's \<Rightarrow> bool \<times> 's"
    and bucket_of :: "'c \<Rightarrow> 's \<Rightarrow> (int \<times> int) option"
    and same :: "'c \<Rightarrow> 'c \<Rightarrow> bool"
    and limit :: "'c \<Rightarrow> int"
    and window :: "'c \<Rightarrow> int"
  assumes limit_pos: "same c c \<Longrightarrow> 1 \<le> limit c \<and> 0 < window c"
    and same_c: "same c d \<Longrightarrow> same c c \<and> bucket_of d s = bucket_of c s \<and> limit d = limit c \<and> window d = window c"
    and opens: "same c d \<Longrightarrow> bucket_of c s = None \<or> (\<exists>n w. bucket_of c s = Some (n, w) \<and> window c \<le> t - w)
      \<Longrightarrow> consume t d s = (ok, s') \<Longrightarrow> ok \<and> bucket_of c s' = Some (1, t)"
    and takes: "same c d \<Longrightarrow> bucket_of c s = Some (n, w) \<Longrightarrow> t - w < window c \<Longrightarrow> n < limit c
      \<Longrightarrow> consume t d s = (ok, s') \<Longrightarrow> ok \<and> bucket_of c s' = Some (n + 1, w)"
    and refuses: "same c d \<Longrightarrow> bucket_of c s = Some (n, w) \<Longrightarrow> t - w < window c \<Longrightarrow> limit c \<le> n
      \<Longrightarrow> consume t d s = (ok, s') \<Longrightarrow> \<not> ok \<and> bucket_of c s' = Some (n, w)"
    and frame: "\<not> same c d \<Longrightarrow> consume t d s = (ok, s') \<Longrightarrow> bucket_of c s' = bucket_of c s"
begin

text \<open>What is known of the times \<open>A\<close> served so far, all up to \<open>now\<close>.\<close>

definition window_inv :: "'c \<Rightarrow> 's \<Rightarrow> int list \<Rightarrow> int \<Rightarrow> bool" where
  "window_inv c s A now \<longleftrightarrow> (\<forall>a \<in> set A. a \<le> now)
     \<and> (\<forall>T. int (count_in T (T + window c) A) \<le> 2 * limit c)
     \<and> (case bucket_of c s of None \<Rightarrow> A = []
        | Some (n, w) \<Rightarrow> w \<le> now \<and> n = int (count_in w (now + 1) A) \<and> n \<le> limit c \<and> (\<forall>a \<in> set A. a < w + window c)
            \<and> (\<forall>T. w - window c < T \<longrightarrow> int (count_in T w A) \<le> limit c))"

lemma window_inv_later: "window_inv c s A now \<Longrightarrow> now \<le> t \<Longrightarrow> window_inv c s A t"
proof -
  assume i: "window_inv c s A now" and t: "now \<le> t"
  have "count_in w (t + 1) A = count_in w (now + 1) A" if "w \<le> now" for w
    using i t that count_in_split [of w "now + 1" "t + 1" A] count_in_none [of A "now + 1" "t + 1"]
    by (auto simp: window_inv_def)
  then show "window_inv c s A t" using i t by (auto simp: window_inv_def split: option.splits)
qed

lemma window_opened:
  assumes i: "window_inv c s A t" and same: "same c c"
    and old: "bucket_of c s = None \<or> (\<exists>n w. bucket_of c s = Some (n, w) \<and> window c \<le> t - w)"
    and new: "bucket_of c s' = Some (1, t)"
  shows "window_inv c s' (A @ [t]) t"
proof -
  have fresh: "\<forall>a \<in> set A. a < t"
    using i old by (cases "bucket_of c s") (auto simp: window_inv_def)
  have tail: "int (count_in T t A) \<le> limit c" if "t - window c < T" for T
  proof (cases "bucket_of c s")
    case None
    then show ?thesis using i limit_pos [OF same] by (simp add: window_inv_def)
  next
    case (Some nw)
    then obtain n w where nw: "bucket_of c s = Some (n, w)" "window c \<le> t - w" using old by (cases nw) auto
    have "count_in T t A \<le> count_in w (t + 1) A" using nw(2) that by (intro count_in_mono) auto
    then show ?thesis using i nw(1) by (simp add: window_inv_def)
  qed
  have "int (count_in T (T + window c) (A @ [t])) \<le> 2 * limit c" for T
  proof (cases "T \<le> t \<and> t < T + window c")
    case True
    then have "count_in T (T + window c) A \<le> count_in T t A"
      using count_in_split [of T t "T + window c" A] count_in_none [of A t "T + window c"] fresh by auto
    then show ?thesis using tail [of T] True limit_pos [OF same] by (simp add: count_in_single)
  next
    case False
    then show ?thesis using i by (auto simp: window_inv_def count_in_single)
  qed
  moreover have "count_in t (t + 1) (A @ [t]) = 1"
    using count_in_none [of A t "t + 1"] fresh by (auto simp: count_in_single)
  ultimately show ?thesis
    using i new tail limit_pos [OF same] by (auto simp: window_inv_def count_in_single)
qed

lemma window_taken:
  assumes i: "window_inv c s A t" and old: "bucket_of c s = Some (n, w)" "t - w < window c" "n < limit c"
    and new: "bucket_of c s' = Some (n + 1, w)"
  shows "window_inv c s' (A @ [t]) t"
proof -
  note inv = i [unfolded window_inv_def old(1), simplified]
  have bound: "int (count_in T (T + window c) (A @ [t])) \<le> 2 * limit c" for T
  proof (cases "T \<le> t \<and> t < T + window c")
    case True
    have "count_in T (T + window c) A \<le> limit c + n"
    proof (cases "T \<le> w")
      case T: True
      have "int (count_in T w A) \<le> limit c" using inv True old(2) T by (cases "T = w") auto
      moreover have "count_in w (T + window c) A \<le> count_in w (t + 1) A"
        using count_in_split [of w "t + 1" "T + window c" A] count_in_none [of A "t + 1" "T + window c"] inv True
        by auto
      moreover have "count_in T (T + window c) A = count_in T w A + count_in w (T + window c) A"
        by (rule count_in_split) (use T inv True in auto)
      moreover have "n = int (count_in w (t + 1) A)" using inv by simp
      ultimately show ?thesis by linarith
    next
      case False
      have "count_in T (T + window c) A \<le> count_in w (t + 1) A"
        using count_in_split [of T "t + 1" "T + window c" A] count_in_none [of A "t + 1" "T + window c"]
          count_in_mono [of w T "t + 1" "t + 1" A] inv True False by auto
      then show ?thesis using inv old(3) by linarith
    qed
    then show ?thesis using True old(3) by (simp add: count_in_single)
  next
    case False
    then show ?thesis using inv by (auto simp: count_in_single)
  qed
  show ?thesis
    using inv old(2,3) bound unfolding window_inv_def new by (auto simp: count_in_single)
qed

lemma served_bound:
  assumes "window_inv c s A now" and "sorted (now # map fst xs)" and "same c c"
  shows "int (count_in T (T + window c) (A @ served consume same c xs s)) \<le> 2 * limit c"
  using assms
proof (induction xs arbitrary: s A now)
  case Nil
  then show ?case by (simp add: window_inv_def)
next
  case (Cons x xs)
  obtain t d where x: "x = (t, d)" by (cases x)
  obtain ok s' where c: "consume t d s = (ok, s')" by fastforce
  have i: "window_inv c s A t" using window_inv_later Cons.prems(1,2) x by auto
  have st: "sorted (t # map fst xs)" using Cons.prems(2) x by simp
  show ?case
  proof (cases "same c d")
    case False
    then have "bucket_of c s' = bucket_of c s" using frame c by blast
    then have "window_inv c s' A t" using i by (simp add: window_inv_def)
    then show ?thesis using Cons.IH [of s' A t] st Cons.prems(3) x c False by simp
  next
    case True
    consider (opens) "bucket_of c s = None \<or> (\<exists>n w. bucket_of c s = Some (n, w) \<and> window c \<le> t - w)"
      | (takes) n w where "bucket_of c s = Some (n, w)" "t - w < window c" "n < limit c"
      | (refuses) n w where "bucket_of c s = Some (n, w)" "t - w < window c" "limit c \<le> n"
    proof (cases "bucket_of c s")
      case (Some nw)
      obtain n w where nw: "nw = (n, w)" by (cases nw)
      consider "window c \<le> t - w" | "t - w < window c" "n < limit c" | "t - w < window c" "limit c \<le> n" by linarith
      then show ?thesis using that Some nw by cases blast+
    qed blast
    then show ?thesis
    proof cases
      case opens
      have "ok" "bucket_of c s' = Some (1, t)" using fixed_window.opens [OF fixed_window_axioms True opens c] by auto
      then show ?thesis
        using Cons.IH [OF window_opened [OF i Cons.prems(3) opens] st Cons.prems(3), of s'] x c True by simp
    next
      case takes
      have "ok" "bucket_of c s' = Some (n + 1, w)"
        using fixed_window.takes [OF fixed_window_axioms True takes c] by auto
      then show ?thesis
        using Cons.IH [OF window_taken [OF i takes] st Cons.prems(3), of s'] x c True by simp
    next
      case refuses
      have "\<not> ok" "bucket_of c s' = Some (n, w)"
        using fixed_window.refuses [OF fixed_window_axioms True refuses c] by auto
      moreover from this have "window_inv c s' A t" using i refuses(1) by (simp add: window_inv_def)
      ultimately show ?thesis using Cons.IH [of s' A t] st Cons.prems(3) x c by simp
    qed
  qed
qed

lemma served_twice_limit:
  assumes "bucket_of c s = None" and "sorted (map fst xs)" and "same c c"
  shows "int (count_in T (T + window c) (served consume same c xs s)) \<le> 2 * limit c"
proof (cases xs)
  case Nil
  then show ?thesis using limit_pos [OF assms(3)] by simp
next
  case (Cons x ys)
  have "window_inv c s [] (fst x)" using assms(1) limit_pos [OF assms(3)] by (simp add: window_inv_def)
  from served_bound [OF this, of xs T] show ?thesis using assms Cons by simp
qed

end


subsection \<open>Both limiters of administrative calls\<close>

definition bucket_at :: "string \<Rightarrow> buckets \<Rightarrow> (int \<times> int) option" where
  "bucket_at key bs = map_option (\<lambda>b. (bk_count b, bk_windowStartMs b)) (map_of bs key)"

definition control_plane_step :: "int \<Rightarrow> gateway_client \<Rightarrow> buckets \<Rightarrow> bool \<times> buckets" where
  "control_plane_step t c bs = (case consumeControlPlaneWriteBudget t c bs of (r, bs') \<Rightarrow> (bd_allowed r, bs'))"

definition same_control_plane_client :: "gateway_client \<Rightarrow> gateway_client \<Rightarrow> bool" where
  "same_control_plane_client c d \<longleftrightarrow> resolveControlPlaneRateLimitKey c = resolveControlPlaneRateLimitKey d"

lemma bucket_at_update: "bucket_at k (AList.update k' b bs)
    = (if k = k' then Some (bk_count b, bk_windowStartMs b) else bucket_at k bs)"
  by (simp add: bucket_at_def update_conv)

lemma bucket_at_Some: "bucket_at k bs = Some (n, w) \<longleftrightarrow> (\<exists>b. map_of bs k = Some b \<and> bk_count b = n \<and> bk_windowStartMs b = w)"
  by (auto simp: bucket_at_def)

lemma bucket_at_None: "bucket_at k bs = None \<longleftrightarrow> map_of bs k = None"
  by (simp add: bucket_at_def)

lemmas bucket_simps = bucket_at_update bucket_at_Some bucket_at_None

interpretation control_plane: fixed_window control_plane_step
  "\<lambda>c. bucket_at (resolveControlPlaneRateLimitKey c)" same_control_plane_client
  "\<lambda>_. CONTROL_PLANE_RATE_LIMIT_MAX_REQUESTS" "\<lambda>_. CONTROL_PLANE_RATE_LIMIT_WINDOW_MS"
  by unfold_locales
    (auto simp: control_plane_step_def consumeControlPlaneWriteBudget_def same_control_plane_client_def Let_def
      bucket_simps update_conv CONTROL_PLANE_RATE_LIMIT_MAX_REQUESTS_def CONTROL_PLANE_RATE_LIMIT_WINDOW_MS_def
      split: option.splits if_splits prod.splits)

type_synonym rpc_call = "string \<times> gateway_client"

definition rpc_step :: "int \<Rightarrow> rpc_call \<Rightarrow> buckets \<Rightarrow> bool \<times> buckets" where
  "rpc_step t mc bs = (case consumeMutatingAdminRpcBudget t (fst mc) (snd mc) bs of
     (r, bs') \<Rightarrow> ((case r of None \<Rightarrow> True | Some b \<Rightarrow> bd_allowed b), bs'))"

definition rpc_key :: "rpc_call \<Rightarrow> string" where
  "rpc_key mc = resolveMutatingAdminRpcRateLimitKey (fst mc) (snd mc)"

definition same_rpc_call :: "rpc_call \<Rightarrow> rpc_call \<Rightarrow> bool" where
  "same_rpc_call mc nd \<longleftrightarrow> isMutatingAdminRpcRateLimitedMethod (fst mc) \<and> isMutatingAdminRpcRateLimitedMethod (fst nd)
     \<and> rpc_key mc = rpc_key nd"

definition rpc_policy_of :: "string \<Rightarrow> rpc_policy" where
  "rpc_policy_of m = (case map_of MUTATING_ADMIN_RPC_RATE_LIMIT_POLICIES m of Some p \<Rightarrow> p
     | None \<Rightarrow> \<lparr>maxRequests = 0, rpcWindowMs = 0\<rparr>)"

lemma limited_methods:
  "isMutatingAdminRpcRateLimitedMethod m \<Longrightarrow>
     (\<exists>p. map_of MUTATING_ADMIN_RPC_RATE_LIMIT_POLICIES m = Some p \<and> 1 \<le> maxRequests p \<and> 0 < rpcWindowMs p)
     \<and> CHR ''|'' \<notin> set m"
  by (auto simp: isMutatingAdminRpcRateLimitedMethod_def MUTATING_ADMIN_RPC_RATE_LIMIT_POLICIES_def)

lemma rpc_key_shape: "\<exists>r. rpc_key c = fst c @ CHR ''|'' # r"
  unfolding rpc_key_def resolveMutatingAdminRpcRateLimitKey_def Let_def
  by (rule exI [of _ "tl (drop (length (fst c)) (rpc_key c))"])
     (simp add: rpc_key_def resolveMutatingAdminRpcRateLimitKey_def Let_def)

lemma takeWhile_until: "c \<notin> set m \<Longrightarrow> takeWhile (\<lambda>x. x \<noteq> c) (m @ c # r) = m"
  by (induction m) auto

lemma rpc_key_method:
  assumes "same_rpc_call mc nd"
  shows "fst mc = fst nd"
proof -
  have "takeWhile (\<lambda>x. x \<noteq> CHR ''|'') (rpc_key c) = fst c" if "isMutatingAdminRpcRateLimitedMethod (fst c)" for c
  proof -
    have no: "CHR ''|'' \<notin> set (fst c)" using limited_methods [OF that] by blast
    obtain r where r: "rpc_key c = fst c @ CHR ''|'' # r" using rpc_key_shape by blast
    show ?thesis unfolding r by (rule takeWhile_until [OF no])
  qed
  then show ?thesis using assms unfolding same_rpc_call_def by metis
qed

lemma unlimited_method:
  "\<not> isMutatingAdminRpcRateLimitedMethod m \<Longrightarrow> map_of MUTATING_ADMIN_RPC_RATE_LIMIT_POLICIES m = None"
  by (simp add: isMutatingAdminRpcRateLimitedMethod_def map_of_eq_None_iff)

lemma rpc_step_limited:
  assumes "isMutatingAdminRpcRateLimitedMethod (fst d)"
  shows "rpc_step t d bs =
    (case bucket_at (rpc_key d) bs of
       None \<Rightarrow> (True, AList.update (rpc_key d) \<lparr>bk_count = 1, bk_windowStartMs = t\<rparr> bs)
     | Some (n, w) \<Rightarrow>
         if t - w \<ge> rpcWindowMs (rpc_policy_of (fst d))
         then (True, AList.update (rpc_key d) \<lparr>bk_count = 1, bk_windowStartMs = t\<rparr> bs)
         else if n \<ge> maxRequests (rpc_policy_of (fst d)) then (False, bs)
         else (True, AList.update (rpc_key d) \<lparr>bk_count = n + 1, bk_windowStartMs = w\<rparr> bs))"
proof -
  obtain p where "map_of MUTATING_ADMIN_RPC_RATE_LIMIT_POLICIES (fst d) = Some p" using limited_methods [OF assms] by blast
  then show ?thesis
    by (cases "map_of bs (rpc_key d)"; cases "the (map_of bs (rpc_key d))")
       (simp_all add: rpc_step_def consumeMutatingAdminRpcBudget_def rpc_policy_of_def rpc_key_def [symmetric] Let_def
        bucket_at_def)
qed

lemma rpc_step_unlimited: "\<not> isMutatingAdminRpcRateLimitedMethod (fst d) \<Longrightarrow> rpc_step t d bs = (True, bs)"
  by (simp add: rpc_step_def consumeMutatingAdminRpcBudget_def unlimited_method)

lemma rpc_step_frame:
  assumes "\<not> same_rpc_call c d" "isMutatingAdminRpcRateLimitedMethod (fst c)" "rpc_step t d bs = (ok, bs')"
  shows "bucket_at (rpc_key c) bs' = bucket_at (rpc_key c) bs"
proof (cases "isMutatingAdminRpcRateLimitedMethod (fst d)")
  case True
  then have "rpc_key c \<noteq> rpc_key d" using assms(1,2) by (simp add: same_rpc_call_def)
  then show ?thesis using assms(3)
    by (auto simp: rpc_step_limited [OF True] bucket_at_update split: option.splits prod.splits if_splits)
next
  case False
  then show ?thesis using assms(3) by (simp add: rpc_step_unlimited)
qed

text \<open>The bucket of a method that is not limited is never looked at.\<close>

definition rpc_bucket :: "rpc_call \<Rightarrow> buckets \<Rightarrow> (int \<times> int) option" where
  "rpc_bucket c bs = (if isMutatingAdminRpcRateLimitedMethod (fst c) then bucket_at (rpc_key c) bs else None)"

interpretation admin_rpc: fixed_window rpc_step rpc_bucket same_rpc_call
  "\<lambda>c. maxRequests (rpc_policy_of (fst c))" "\<lambda>c. rpcWindowMs (rpc_policy_of (fst c))"
proof (unfold_locales, goal_cases)
  case (1 c)
  then show ?case using limited_methods [of "fst c"] by (auto simp: same_rpc_call_def rpc_policy_of_def)
next
  case (2 c d s)
  then show ?case using rpc_key_method [OF 2] by (auto simp: same_rpc_call_def rpc_bucket_def)
next
  case (3 c d s t ok s')
  then show ?case using rpc_key_method [OF 3(1)]
    by (auto simp: same_rpc_call_def rpc_bucket_def rpc_step_limited bucket_at_update split: if_splits option.splits)
next
  case (4 c d s n w t ok s')
  then show ?case using rpc_key_method [OF 4(1)]
    by (auto simp: same_rpc_call_def rpc_bucket_def rpc_step_limited bucket_at_update split: if_splits)
next
  case (5 c d s n w t ok s')
  then show ?case using rpc_key_method [OF 5(1)]
    by (auto simp: same_rpc_call_def rpc_bucket_def rpc_step_limited bucket_at_update split: if_splits)
next
  case (6 c d t s ok s')
  then show ?case using rpc_step_frame [OF 6(1)] by (auto simp: rpc_bucket_def)
qed


section \<open>Guesses at a login\<close>




















subsection \<open>The invariant of one key\<close>


text \<open>The guesses of the window that ends at \<open>now\<close>.\<close>

definition recent :: "rate_config \<Rightarrow> int \<Rightarrow> int list \<Rightarrow> int list" where
  "recent cfg now A = filter (\<lambda>a. a > now - windowMs cfg) A"



lemma recent_append [simp]: "recent cfg t (A @ B) = recent cfg t A @ recent cfg t B"
  by (simp add: recent_def)











section \<open>Properties\<close>


text \<open>Addresses are taken as they come; the address \<open>127.0.0.1\<close> is loopback.\<close>

definition plain_ips :: ip_functions where
  "plain_ips = \<lparr>normalizeIpAddress = (\<lambda>x. x), isIpInCidr = (\<lambda>a b. a = b), isLoopbackIpAddress = (\<lambda>a. a = ''127.0.0.1''),
     isIP = (\<lambda>a. if a \<noteq> [] \<and> hd a \<in> set ''0123456789'' then 4 else 0)\<rparr>"





text \<open>
  C23: an administrative caller gets at most twice the limit of its limiter in any stretch of time as long
  as the window, whatever the other callers do: 6 writes to the control plane a minute, and for a limited
  method twice its own limit in its own window. (A window is fixed to the first call, so two of them can
  touch; within one window the limit itself holds.)
\<close>

theorem admin_call_bound:
  assumes "sorted (map fst writes)" and "map_of bs (resolveControlPlaneRateLimitKey c) = None"
    and "sorted (map fst calls)" and "map_of bs' (rpc_key (m, c)) = None" and "isMutatingAdminRpcRateLimitedMethod m"
  shows "count_in T (T + 60000) (served control_plane_step same_control_plane_client c writes bs) \<le> 6
    \<and> int (count_in T (T + rpcWindowMs (rpc_policy_of m)) (served rpc_step same_rpc_call (m, c) calls bs'))
        \<le> 2 * maxRequests (rpc_policy_of m)"
proof -
  have "int (count_in T (T + CONTROL_PLANE_RATE_LIMIT_WINDOW_MS)
      (served control_plane_step same_control_plane_client c writes bs)) \<le> 2 * CONTROL_PLANE_RATE_LIMIT_MAX_REQUESTS"
    by (rule control_plane.served_twice_limit) (use assms in \<open>simp_all add: bucket_at_def same_control_plane_client_def\<close>)
  moreover have "int (count_in T (T + rpcWindowMs (rpc_policy_of (fst (m, c)))) (served rpc_step same_rpc_call (m, c) calls bs'))
      \<le> 2 * maxRequests (rpc_policy_of (fst (m, c)))"
    by (rule admin_rpc.served_twice_limit) (use assms in \<open>simp_all add: rpc_bucket_def bucket_at_def same_rpc_call_def\<close>)
  ultimately show ?thesis
    by (simp add: CONTROL_PLANE_RATE_LIMIT_WINDOW_MS_def CONTROL_PLANE_RATE_LIMIT_MAX_REQUESTS_def)
qed

definition some_client :: gateway_client where
  "some_client = \<lparr>deviceId = Some (JStr ''d1''), clientIp = None, connId = None\<rparr>"

definition write_times :: "(int \<times> gateway_client) list" where
  "write_times = map (\<lambda>t. (t, some_client)) [1, 59998, 59999, 60000, 60001, 60002, 60003, 60004]"

theorem admin_call_bound_witness:
  "served control_plane_step same_control_plane_client some_client write_times [] = [1, 59998, 59999, 60001, 60002, 60003]
   \<and> count_in 1 (1 + 60000) (served control_plane_step same_control_plane_client some_client write_times []) \<le> 6
   \<and> int (count_in 1 (1 + rpcWindowMs (rpc_policy_of ''push.test''))
        (served rpc_step same_rpc_call (''push.test'', some_client) [(5, (''push.test'', some_client))] []))
        \<le> 2 * maxRequests (rpc_policy_of ''push.test'')"
proof (rule conjI)
  show "served control_plane_step same_control_plane_client some_client write_times [] = [1, 59998, 59999, 60001, 60002, 60003]"
    by code_simp
  have "isMutatingAdminRpcRateLimitedMethod ''push.test''" by code_simp
  then show "count_in 1 (1 + 60000) (served control_plane_step same_control_plane_client some_client write_times []) \<le> 6
   \<and> int (count_in 1 (1 + rpcWindowMs (rpc_policy_of ''push.test''))
        (served rpc_step same_rpc_call (''push.test'', some_client) [(5, (''push.test'', some_client))] []))
        \<le> 2 * maxRequests (rpc_policy_of ''push.test'')"
    by (intro admin_call_bound) (simp_all add: write_times_def)
qed

lemma split_comma_ne [simp]: "split_comma s \<noteq> []"
  by (induction s) (auto split: list.splits)

lemma split_comma_append: "split_comma (a @ CHR '','' # b) = split_comma a @ split_comma b"
proof (induction a)
  case (Cons c a)
  then show ?case by (cases "split_comma a") (auto split: list.splits)
qed simp

lemma forwarded_chain_append:
  "forwarded_chain F (Some (a @ CHR '','' # b)) = forwarded_chain F (Some a) @ forwarded_chain F (Some b)"
  by (simp add: forwarded_chain_def split_comma_append)

text \<open>
  What a client writes into \<open>X-Forwarded-For\<close> cannot change the address it is known by. If the part
  that the proxies append names a hop that is no trusted proxy, the address is the last such hop, is no
  trusted proxy itself, and is the same whatever stands before that part.
\<close>

theorem forwarded_prefix_ignored:
  assumes "forwardedFor req = Some (forged @ CHR '','' # appended)"
    and "resolveForwardedClientIp F (Some appended) (trustedProxies req) = Some hop"
    and "isTrustedProxyAddress F (Some remote) (trustedProxies req)"
    and "normalizeIpAddress F (remoteAddr req) = Some remote" and "remote \<noteq> []"
  shows "resolveClientIp F req = Some hop \<and> \<not> isTrustedProxyAddress F (Some hop) (trustedProxies req)"
proof -
  have p: "trustedProxies req \<noteq> None" "trustedProxies req \<noteq> Some []"
    using assms(2) by (auto simp: resolveForwardedClientIp_def split: if_splits)
  then have f: "find (\<lambda>h. \<not> isTrustedProxyAddress F (Some h) (trustedProxies req)) (rev (forwarded_chain F (Some appended))) = Some hop"
    using assms(2) by (auto simp: resolveForwardedClientIp_def split: if_splits)
  then have "resolveForwardedClientIp F (forwardedFor req) (trustedProxies req) = Some hop"
    using p by (simp add: resolveForwardedClientIp_def assms(1) forwarded_chain_append find_append)
  then show ?thesis using assms(3-5) find_SomeD [OF f] by (simp add: resolveClientIp_def)
qed

definition proxied :: client_request where
  "proxied = \<lparr>remoteAddr = Some ''10.0.0.1'', forwardedFor = Some ''6.6.6.6,1.2.3.4, 10.0.0.2'', realIp = None,
     trustedProxies = Some [''10.0.0.1'', ''10.0.0.2''], allowRealIpFallback = False\<rparr>"

theorem forwarded_prefix_ignored_witness:
  "resolveClientIp plain_ips proxied = Some ''1.2.3.4''
    \<and> \<not> isTrustedProxyAddress plain_ips (Some ''1.2.3.4'') (trustedProxies proxied)"
  by (rule forwarded_prefix_ignored [where forged = "''6.6.6.6''" and appended = "''1.2.3.4, 10.0.0.2''" and remote = "''10.0.0.1''"])
     (code_simp+)

end
