(* ===== verification/ToolPolicy.thy ===== *)
theory ToolPolicy
  imports SessionKey
begin

text \<open>
  Which tools an agent may call: \<open>src/agents/glob-pattern.ts\<close>, \<open>tool-policy-shared.ts\<close>,
  \<open>tool-catalog.ts\<close>, \<open>tool-policy.ts\<close>, \<open>tool-policy-match.ts\<close>, \<open>tool-policy-pipeline.ts\<close>,
  \<open>sandbox-tool-policy.ts\<close> and \<open>pi-tools.policy.ts\<close>, all under \<open>src/agents\<close>.

  A \<open>Map\<close> is an association list, \<open>Array.from(new Set(xs))\<close> the list of first occurrences. A pattern with
  a star is the regular expression the code builds from it: a star is \<open>.*\<close>, which stops at the end of a
  line. Names that an object inherits (\<open>constructor\<close>, \<open>__proto__\<close>) are looked up in the code's plain
  objects as well and make it fail; they are not treated apart here.
\<close>

section \<open>Patterns\<close>

text \<open>\<open>Array.from(new Set(xs))\<close>\<close>

definition unique :: "'a list \<Rightarrow> 'a list" where
  "unique xs = rev (remdups (rev xs))"

lemma set_unique [simp]: "set (unique xs) = set xs"
  by (simp add: unique_def)

datatype glob = GAll | GExact string | GRegex string

definition star :: char where "star = CHR ''*''"

definition line_end :: "char \<Rightarrow> bool" where
  "line_end c = (let n = of_char c :: nat in n = 10 \<or> n = 13)"

text \<open>The regular expression of a pattern, on a whole text.\<close>

fun regex_test :: "string \<Rightarrow> string \<Rightarrow> bool" where
  "regex_test [] v = (v = [])"
| "regex_test (p # ps) [] = (p = star \<and> regex_test ps [])"
| "regex_test (p # ps) (c # cs) =
     (if p = star then regex_test ps (c # cs) \<or> (\<not> line_end c \<and> regex_test (p # ps) cs)
      else c = p \<and> regex_test ps cs)"

definition compileGlobPattern :: "(string \<Rightarrow> string) \<Rightarrow> string \<Rightarrow> glob" where
  "compileGlobPattern nrm raw =
     (let n = nrm raw
      in if n = [] then GExact [] else if n = [star] then GAll
         else if star \<notin> set n then GExact n else GRegex n)"

definition compileGlobPatterns :: "(string \<Rightarrow> string) \<Rightarrow> string list \<Rightarrow> glob list" where
  "compileGlobPatterns nrm raw =
     filter (\<lambda>g. g \<noteq> GExact []) (map (compileGlobPattern nrm) raw)"

fun glob_matches :: "string \<Rightarrow> glob \<Rightarrow> bool" where
  "glob_matches v GAll = True"
| "glob_matches v (GExact x) = (v = x)"
| "glob_matches v (GRegex p) = regex_test p v"

definition matchesAnyGlobPattern :: "string \<Rightarrow> glob list \<Rightarrow> bool" where
  "matchesAnyGlobPattern v patterns = list_ex (glob_matches v) patterns"

section \<open>The catalogue of core tools\<close>

text \<open>Labels and descriptions, which are shown only, are left out.\<close>

record core_tool_definition =
  ct_id :: string
  ct_sectionId :: string
  ct_profiles :: "string list"
  ct_includeInFasedGroup :: bool

definition core_tool :: "string \<Rightarrow> string \<Rightarrow> string list \<Rightarrow> bool \<Rightarrow> core_tool_definition" where
  "core_tool i s ps g = \<lparr>ct_id = i, ct_sectionId = s, ct_profiles = ps, ct_includeInFasedGroup = g\<rparr>"

definition CORE_TOOL_DEFINITIONS :: "core_tool_definition list" where
  "CORE_TOOL_DEFINITIONS =
    [core_tool ''read'' ''fs'' [''coding''] False,
     core_tool ''write'' ''fs'' [''coding''] False,
     core_tool ''edit'' ''fs'' [''coding''] False,
     core_tool ''apply_patch'' ''fs'' [''coding''] False,
     core_tool ''exec'' ''runtime'' [''coding''] False,
     core_tool ''process'' ''runtime'' [''coding''] False,
     core_tool ''code_execution'' ''runtime'' [''coding''] True,
     core_tool ''web_search'' ''web'' [''coding''] True,
     core_tool ''web_fetch'' ''web'' [''coding''] True,
     core_tool ''x_search'' ''web'' [''coding''] True,
     core_tool ''memory_search'' ''memory'' [''wen'', ''coding''] True,
     core_tool ''memory_get'' ''memory'' [''wen'', ''coding''] True,
     core_tool ''sessions_list'' ''sessions'' [''coding'', ''messaging''] True,
     core_tool ''sessions_history'' ''sessions'' [''coding'', ''messaging''] True,
     core_tool ''sessions_send'' ''sessions'' [''coding'', ''messaging''] True,
     core_tool ''sessions_spawn'' ''sessions'' [''coding''] True,
     core_tool ''sessions_yield'' ''sessions'' [''coding''] True,
     core_tool ''subagents'' ''sessions'' [''coding''] True,
     core_tool ''session_status'' ''sessions'' [''wen'', ''minimal'', ''coding'', ''messaging''] True,
     core_tool ''browser'' ''ui'' [] True,
     core_tool ''canvas'' ''ui'' [] True,
     core_tool ''diff_view'' ''ui'' [''coding''] True,
     core_tool ''message'' ''messaging'' [''messaging''] True,
     core_tool ''cron'' ''automation'' [''coding''] True,
     core_tool ''gateway'' ''automation'' [] True,
     core_tool ''nodes'' ''nodes'' [] True,
     core_tool ''agents_list'' ''agents'' [] True,
     core_tool ''update_plan'' ''agents'' [''wen'', ''coding''] True,
     core_tool ''image'' ''media'' [''coding''] True,
     core_tool ''image_generate'' ''media'' [''coding''] True,
     core_tool ''music_generate'' ''media'' [''coding''] True,
     core_tool ''video_generate'' ''media'' [''coding''] True,
     core_tool ''tts'' ''media'' [] True]"

definition listCoreToolIdsForProfile :: "string \<Rightarrow> string list" where
  "listCoreToolIdsForProfile profile = map ct_id (filter (\<lambda>t. profile \<in> set (ct_profiles t)) CORE_TOOL_DEFINITIONS)"

record tool_policy =
  tp_allow :: "string list option"
  tp_deny :: "string list option"

definition CORE_TOOL_PROFILES :: "(string \<times> tool_policy) list" where
  "CORE_TOOL_PROFILES =
     [(''wen'', \<lparr>tp_allow = Some (listCoreToolIdsForProfile ''wen'' @ [''wen_economy_facts'', ''wen_acquisition_request'']),
                 tp_deny = None\<rparr>),
      (''minimal'', \<lparr>tp_allow = Some (listCoreToolIdsForProfile ''minimal''), tp_deny = None\<rparr>),
      (''coding'', \<lparr>tp_allow = Some (listCoreToolIdsForProfile ''coding''), tp_deny = None\<rparr>),
      (''messaging'', \<lparr>tp_allow = Some (listCoreToolIdsForProfile ''messaging''), tp_deny = None\<rparr>),
      (''full'', \<lparr>tp_allow = None, tp_deny = None\<rparr>)]"

text \<open>The groups by section, in the order of their first tool.\<close>

definition sectionIds :: "string list" where
  "sectionIds = unique (map ct_sectionId CORE_TOOL_DEFINITIONS)"

definition buildCoreToolGroupMap :: "(string \<times> string list) list" where
  "buildCoreToolGroupMap =
     (''group:fased'', map ct_id (filter ct_includeInFasedGroup CORE_TOOL_DEFINITIONS))
     # map (\<lambda>s. (''group:'' @ s, map ct_id (filter (\<lambda>t. ct_sectionId t = s) CORE_TOOL_DEFINITIONS))) sectionIds"

definition TOOL_GROUPS :: "(string \<times> string list) list" where
  "TOOL_GROUPS = buildCoreToolGroupMap"

definition resolveCoreToolProfilePolicy :: "string option \<Rightarrow> tool_policy option" where
  "resolveCoreToolProfilePolicy profile =
     (if opt_str profile = [] then None
      else (case map_of CORE_TOOL_PROFILES (opt_str profile) of None \<Rightarrow> None
        | Some p \<Rightarrow> if tp_allow p = None \<and> tp_deny p = None then None else Some p))"

definition resolveCoreToolProfiles :: "string \<Rightarrow> string list" where
  "resolveCoreToolProfiles toolId =
     (case find (\<lambda>t. ct_id t = toolId) CORE_TOOL_DEFINITIONS of None \<Rightarrow> [] | Some t \<Rightarrow> ct_profiles t)"

definition isKnownCoreToolId :: "string \<Rightarrow> bool" where
  "isKnownCoreToolId toolId = (toolId \<in> set (map ct_id CORE_TOOL_DEFINITIONS))"

section \<open>Names and groups\<close>

definition TOOL_NAME_ALIASES :: "(string \<times> string) list" where
  "TOOL_NAME_ALIASES = [(''bash'', ''exec''), (''apply-patch'', ''apply_patch'')]"

definition normalizeToolName :: "string \<Rightarrow> string" where
  "normalizeToolName name =
     (let n = js_lower (js_trim name) in case map_of TOOL_NAME_ALIASES n of Some a \<Rightarrow> a | None \<Rightarrow> n)"

definition normalizeToolList :: "string list option \<Rightarrow> string list" where
  "normalizeToolList xs = (case xs of None \<Rightarrow> [] | Some l \<Rightarrow> filter (\<lambda>n. n \<noteq> []) (map normalizeToolName l))"

definition expandToolGroups :: "string list option \<Rightarrow> string list" where
  "expandToolGroups xs =
     unique (concat (map (\<lambda>v. case map_of TOOL_GROUPS v of Some g \<Rightarrow> g | None \<Rightarrow> [v]) (normalizeToolList xs)))"

definition list_or_empty :: "string list option \<Rightarrow> string list" where
  "list_or_empty xs = (case xs of None \<Rightarrow> [] | Some l \<Rightarrow> l)"

section \<open>Matching a policy\<close>

definition compiled_policy :: "tool_policy \<Rightarrow> glob list \<times> glob list" where
  "compiled_policy p =
     (compileGlobPatterns normalizeToolName (expandToolGroups (Some (list_or_empty (tp_deny p)))),
      compileGlobPatterns normalizeToolName (expandToolGroups (Some (list_or_empty (tp_allow p)))))"

text \<open>The matcher of \<open>tool-policy-match.ts\<close>.\<close>

definition makeToolPolicyMatcher :: "tool_policy \<Rightarrow> string \<Rightarrow> bool" where
  "makeToolPolicyMatcher p name =
     (case compiled_policy p of (deny, allow) \<Rightarrow>
        let n = normalizeToolName name
        in if matchesAnyGlobPattern n deny then False
           else if n = ''apply_patch'' \<and> matchesAnyGlobPattern ''write'' deny then False
           else if allow = [] then True
           else if matchesAnyGlobPattern n allow then True
           else n = ''apply_patch'' \<and> matchesAnyGlobPattern ''write'' allow)"

text \<open>The matcher of \<open>pi-tools.policy.ts\<close>, which the tools of an agent go through.\<close>

definition makePiToolPolicyMatcher :: "tool_policy \<Rightarrow> string \<Rightarrow> bool" where
  "makePiToolPolicyMatcher p name =
     (case compiled_policy p of (deny, allow) \<Rightarrow>
        let n = normalizeToolName name
        in if matchesAnyGlobPattern n deny then False
           else if allow = [] then True
           else if matchesAnyGlobPattern n allow then True
           else n = ''apply_patch'' \<and> matchesAnyGlobPattern ''exec'' allow)"

definition isToolAllowedByPolicyName :: "string \<Rightarrow> tool_policy option \<Rightarrow> bool" where
  "isToolAllowedByPolicyName name p = (case p of None \<Rightarrow> True | Some q \<Rightarrow> makeToolPolicyMatcher q name)"

definition isPiToolAllowedByPolicyName :: "string \<Rightarrow> tool_policy option \<Rightarrow> bool" where
  "isPiToolAllowedByPolicyName name p = (case p of None \<Rightarrow> True | Some q \<Rightarrow> makePiToolPolicyMatcher q name)"

definition isToolAllowedByPolicies :: "string \<Rightarrow> tool_policy option list \<Rightarrow> bool" where
  "isToolAllowedByPolicies name ps = list_all (isToolAllowedByPolicyName name) ps"

definition isPiToolAllowedByPolicies :: "string \<Rightarrow> tool_policy option list \<Rightarrow> bool" where
  "isPiToolAllowedByPolicies name ps = list_all (isPiToolAllowedByPolicyName name) ps"

section \<open>Tools\<close>

datatype tool_execute = NoExecute | Runs | Throws string

record agent_tool =
  tl_name :: string
  tl_ownerOnly :: bool
  tl_execute :: tool_execute

definition filterToolsByPolicy :: "agent_tool list \<Rightarrow> tool_policy option \<Rightarrow> agent_tool list" where
  "filterToolsByPolicy tools p =
     (case p of None \<Rightarrow> tools | Some q \<Rightarrow> filter (\<lambda>t. makePiToolPolicyMatcher q (tl_name t)) tools)"

datatype approval_class = ControlPlane | ExecCapable | Interactive

definition OWNER_ONLY_TOOL_APPROVAL_CLASS_FALLBACKS :: "(string \<times> approval_class) list" where
  "OWNER_ONLY_TOOL_APPROVAL_CLASS_FALLBACKS =
     [(''whatsapp_login'', Interactive), (''cron'', ControlPlane), (''gateway'', ControlPlane), (''nodes'', ExecCapable)]"

definition wrapOwnerOnlyToolExecution :: "agent_tool \<Rightarrow> bool \<Rightarrow> agent_tool" where
  "wrapOwnerOnlyToolExecution t senderIsOwner =
     (if \<not> tl_ownerOnly t \<or> senderIsOwner \<or> tl_execute t = NoExecute then t
      else t\<lparr>tl_execute := Throws ''Tool restricted to owner senders.''\<rparr>)"

definition resolveOwnerOnlyToolApprovalClass :: "string \<Rightarrow> approval_class option" where
  "resolveOwnerOnlyToolApprovalClass name = map_of OWNER_ONLY_TOOL_APPROVAL_CLASS_FALLBACKS (normalizeToolName name)"

definition isOwnerOnlyToolName :: "string \<Rightarrow> bool" where
  "isOwnerOnlyToolName name = (resolveOwnerOnlyToolApprovalClass name \<noteq> None)"

definition isOwnerOnlyTool :: "agent_tool \<Rightarrow> bool" where
  "isOwnerOnlyTool t = (tl_ownerOnly t \<or> isOwnerOnlyToolName (tl_name t))"

definition applyOwnerOnlyToolPolicy :: "agent_tool list \<Rightarrow> bool \<Rightarrow> agent_tool list" where
  "applyOwnerOnlyToolPolicy tools senderIsOwner =
     (let withGuard = map (\<lambda>t. if \<not> isOwnerOnlyTool t then t else wrapOwnerOnlyToolExecution t senderIsOwner) tools
      in if senderIsOwner then withGuard else filter (\<lambda>t. \<not> isOwnerOnlyTool t) withGuard)"

definition collectExplicitAllowlist :: "tool_policy option list \<Rightarrow> string list" where
  "collectExplicitAllowlist policies =
     concat (map (\<lambda>p. case p of None \<Rightarrow> []
       | Some q \<Rightarrow> filter (\<lambda>s. s \<noteq> []) (map js_trim (list_or_empty (tp_allow q)))) policies)"

section \<open>Tools of plugins\<close>

record plugin_groups =
  pg_all :: "string list"
  pg_byPlugin :: "(string \<times> string list) list"

text \<open>\<open>byPlugin.set(id, [...(byPlugin.get(id) ?? []), name])\<close>\<close>

definition add_to_plugin :: "string \<Rightarrow> string \<Rightarrow> (string \<times> string list) list \<Rightarrow> (string \<times> string list) list" where
  "add_to_plugin i name m =
     (if i \<in> set (map fst m) then map (\<lambda>(k, ns). (k, if k = i then ns @ [name] else ns)) m else m @ [(i, [name])])"

text \<open>\<open>toolMeta\<close> gives the plugin of a tool.\<close>

definition buildPluginToolGroups :: "(agent_tool \<Rightarrow> string option) \<Rightarrow> agent_tool list \<Rightarrow> plugin_groups" where
  "buildPluginToolGroups toolMeta tools =
     foldl (\<lambda>g t. case toolMeta t of None \<Rightarrow> g
       | Some plugin \<Rightarrow>
           let name = normalizeToolName (tl_name t); i = js_lower (js_trim plugin);
               g' = g\<lparr>pg_all := pg_all g @ [name]\<rparr>
           in if i = [] then g' else g'\<lparr>pg_byPlugin := add_to_plugin i name (pg_byPlugin g')\<rparr>)
     \<lparr>pg_all = [], pg_byPlugin = []\<rparr> tools"

definition expand_entry :: "plugin_groups \<Rightarrow> string \<Rightarrow> string list" where
  "expand_entry g entry =
     (let n = normalizeToolName entry
      in if n = ''group:plugins'' then (if pg_all g \<noteq> [] then pg_all g else [n])
         else (case map_of (pg_byPlugin g) n of Some ts \<Rightarrow> if ts \<noteq> [] then ts else [n] | None \<Rightarrow> [n]))"

definition expandPluginGroups :: "string list option \<Rightarrow> plugin_groups \<Rightarrow> string list option" where
  "expandPluginGroups xs g =
     (if xs = None \<or> xs = Some [] then xs else Some (unique (concat (map (expand_entry g) (the xs)))))"

definition expandPolicyWithPluginGroups :: "tool_policy option \<Rightarrow> plugin_groups \<Rightarrow> tool_policy option" where
  "expandPolicyWithPluginGroups p g =
     map_option (\<lambda>q. \<lparr>tp_allow = expandPluginGroups (tp_allow q) g, tp_deny = expandPluginGroups (tp_deny q) g\<rparr>) p"

record allowlist_resolution =
  ar_policy :: "tool_policy option"
  ar_unknownAllowlist :: "string list"
  ar_pluginOnlyAllowlist :: bool

definition is_plugin_entry :: "plugin_groups \<Rightarrow> string \<Rightarrow> bool" where
  "is_plugin_entry g e = (e = ''group:plugins'' \<or> e \<in> set (map fst (pg_byPlugin g)) \<or> e \<in> set (pg_all g))"

definition analyzeAllowlistByToolType :: "tool_policy option \<Rightarrow> plugin_groups \<Rightarrow> string list \<Rightarrow> allowlist_resolution" where
  "analyzeAllowlistByToolType p g coreTools =
     (let plain = \<lparr>ar_policy = p, ar_unknownAllowlist = [], ar_pluginOnlyAllowlist = False\<rparr>;
          normalized = (case p of None \<Rightarrow> [] | Some q \<Rightarrow> normalizeToolList (tp_allow q))
      in if normalized = [] then plain
         else let core = (\<lambda>e. list_ex (\<lambda>t. t \<in> set coreTools) (expandToolGroups (Some [e])))
              in \<lparr>ar_policy = p,
                  ar_unknownAllowlist = unique (filter (\<lambda>e. e \<noteq> [star] \<and> \<not> core e \<and> \<not> is_plugin_entry g e) normalized),
                  ar_pluginOnlyAllowlist = list_all (\<lambda>e. e \<noteq> [star] \<and> is_plugin_entry g e) normalized\<rparr>)"

definition mergeAlsoAllowPolicy :: "tool_policy option \<Rightarrow> string list option \<Rightarrow> tool_policy option" where
  "mergeAlsoAllowPolicy p alsoAllow =
     (case (p, alsoAllow) of
        (Some q, Some further) \<Rightarrow>
          (case tp_allow q of Some a \<Rightarrow> if further = [] then p else Some (q\<lparr>tp_allow := Some (unique (a @ further))\<rparr>)
           | None \<Rightarrow> p)
      | _ \<Rightarrow> p)"


section \<open>The pipeline\<close>

definition MAX_TOOL_POLICY_WARNING_CACHE :: nat where "MAX_TOOL_POLICY_WARNING_CACHE = 256"

text \<open>The set of warnings seen and their order hold the same texts: one list, the oldest first.\<close>

definition rememberToolPolicyWarning :: "string \<Rightarrow> string list \<Rightarrow> bool \<times> string list" where
  "rememberToolPolicyWarning warning seen =
     (if warning \<in> set seen then (False, seen)
      else let kept = (if length seen \<ge> MAX_TOOL_POLICY_WARNING_CACHE then tl seen else seen)
           in (True, kept @ [warning]))"

record pipeline_step =
  ps_policy :: "tool_policy option"
  ps_label :: string
  ps_stripPluginOnlyAllowlist :: bool
  ps_suppressUnavailable :: bool
  ps_suppressAllowlist :: "string list option"

definition plain_step :: "tool_policy option \<Rightarrow> string \<Rightarrow> pipeline_step" where
  "plain_step p label = \<lparr>ps_policy = p, ps_label = label, ps_stripPluginOnlyAllowlist = True,
     ps_suppressUnavailable = False, ps_suppressAllowlist = None\<rparr>"

record pipeline_policies =
  pl_profilePolicy :: "tool_policy option"
  pl_profile :: "string option"
  pl_profileWarningAllowlist :: "string list option"
  pl_providerProfilePolicy :: "tool_policy option"
  pl_providerProfile :: "string option"
  pl_providerProfileWarningAllowlist :: "string list option"
  pl_globalPolicy :: "tool_policy option"
  pl_globalProviderPolicy :: "tool_policy option"
  pl_agentPolicy :: "tool_policy option"
  pl_agentProviderPolicy :: "tool_policy option"
  pl_groupPolicy :: "tool_policy option"
  pl_agentId :: "string option"

definition buildDefaultToolPolicyPipelineSteps :: "pipeline_policies \<Rightarrow> pipeline_step list" where
  "buildDefaultToolPolicyPipelineSteps p =
     (let agentId = js_trim (opt_str (pl_agentId p)); profile = js_trim (opt_str (pl_profile p));
          providerProfile = js_trim (opt_str (pl_providerProfile p))
      in [(plain_step (pl_profilePolicy p) (if profile \<noteq> [] then ''tools.profile ('' @ profile @ '')'' else ''tools.profile''))
            \<lparr>ps_suppressAllowlist := pl_profileWarningAllowlist p\<rparr>,
          (plain_step (pl_providerProfilePolicy p) (if providerProfile \<noteq> []
             then ''tools.byProvider.profile ('' @ providerProfile @ '')'' else ''tools.byProvider.profile''))
            \<lparr>ps_suppressAllowlist := pl_providerProfileWarningAllowlist p\<rparr>,
          plain_step (pl_globalPolicy p) ''tools.allow'',
          plain_step (pl_globalProviderPolicy p) ''tools.byProvider.allow'',
          plain_step (pl_agentPolicy p)
            (if agentId \<noteq> [] then ''agents.'' @ agentId @ ''.tools.allow'' else ''agent tools.allow''),
          plain_step (pl_agentProviderPolicy p)
            (if agentId \<noteq> [] then ''agents.'' @ agentId @ ''.tools.byProvider.allow'' else ''agent tools.byProvider.allow''),
          plain_step (pl_groupPolicy p) ''group tools.allow''])"

definition shouldWarnAboutUnknownAllowlist :: "bool \<Rightarrow> bool \<Rightarrow> bool" where
  "shouldWarnAboutUnknownAllowlist gated other = (gated \<or> other)"

definition describeUnknownAllowlistSuffix :: "bool \<Rightarrow> bool \<Rightarrow> bool \<Rightarrow> string" where
  "describeUnknownAllowlistSuffix pluginOnly gated other =
     (let preface = (if pluginOnly
            then ''Allowlist contains only plugin entries; core tools will not be available.'' else []);
          detail = (if gated \<and> other
            then ''Some entries are shipped core tools but unavailable in the current runtime/provider/model/config; ''
                 @ ''other entries won'' @ [CHR 0x27] @ ''t match any tool unless the plugin is enabled.''
            else if gated
            then ''These entries are shipped core tools but unavailable in the current runtime/provider/model/config.''
            else ''These entries won'' @ [CHR 0x27] @ ''t match any tool unless the plugin is enabled.'')
      in if preface \<noteq> [] then preface @ '' '' @ detail else detail)"

text \<open>The warning of a step about entries of its allow list that name no tool, if it has one.\<close>

definition step_warning :: "pipeline_step \<Rightarrow> allowlist_resolution \<Rightarrow> string option" where
  "step_warning s r =
     (if ar_unknownAllowlist r = [] then None
      else let quiet = map normalizeToolName (list_or_empty (ps_suppressAllowlist s));
               gated = filter isKnownCoreToolId (ar_unknownAllowlist r);
               warnable = (if ps_suppressUnavailable s then [] else filter (\<lambda>e. e \<notin> set quiet) gated);
               other = filter (\<lambda>e. \<not> isKnownCoreToolId e) (ar_unknownAllowlist r)
           in if shouldWarnAboutUnknownAllowlist (warnable \<noteq> []) (other \<noteq> [])
              then Some (''tools: '' @ ps_label s @ '' allowlist contains unknown entries ('' @ join_with '', '' (warnable @ other)
                @ ''). '' @ describeUnknownAllowlistSuffix (ar_pluginOnlyAllowlist r) (warnable \<noteq> []) (other \<noteq> []))
              else None)"

text \<open>The state of the loop: the tools left, the warnings seen and the warnings given.\<close>

type_synonym pipeline_state = "agent_tool list \<times> string list \<times> string list"

definition give_warning :: "string option \<Rightarrow> string list \<times> string list \<Rightarrow> string list \<times> string list" where
  "give_warning w st =
     (case (w, st) of (None, _) \<Rightarrow> st
      | (Some m, (seen, given)) \<Rightarrow>
          (case rememberToolPolicyWarning m seen of (new, seen') \<Rightarrow> (seen', if new then given @ [m] else given)))"

definition pipeline_apply :: "plugin_groups \<Rightarrow> string list \<Rightarrow> pipeline_step \<Rightarrow> pipeline_state \<Rightarrow> pipeline_state" where
  "pipeline_apply groups coreTools s st =
     (case st of (filtered, warnings) \<Rightarrow>
        (case ps_policy s of None \<Rightarrow> st
         | Some p \<Rightarrow>
           let resolved = analyzeAllowlistByToolType (Some p) groups coreTools;
               warnings' = (if ps_stripPluginOnlyAllowlist s then give_warning (step_warning s resolved) warnings else warnings);
               policy = (if ps_stripPluginOnlyAllowlist s then ar_policy resolved else Some p)
           in (filterToolsByPolicy filtered (expandPolicyWithPluginGroups policy groups), warnings')))"

definition applyToolPolicyPipeline ::
  "(agent_tool \<Rightarrow> string option) \<Rightarrow> pipeline_step list \<Rightarrow> agent_tool list \<Rightarrow> string list
    \<Rightarrow> agent_tool list \<times> string list \<times> string list" where
  "applyToolPolicyPipeline toolMeta steps tools seen =
     (let coreTools = filter (\<lambda>n. n \<noteq> []) (map (\<lambda>t. normalizeToolName (tl_name t)) (filter (\<lambda>t. toolMeta t = None) tools));
          groups = buildPluginToolGroups toolMeta tools
      in fold (pipeline_apply groups coreTools) steps (tools, seen, []))"

section \<open>The policies of an agent\<close>

record tool_config =
  tc_allow :: "string list option"
  tc_alsoAllow :: "string list option"
  tc_deny :: "string list option"
  tc_profile :: "string option"

definition unionAllow :: "string list option \<Rightarrow> string list option \<Rightarrow> string list option" where
  "unionAllow base extra =
     (if extra = None \<or> extra = Some [] then base
      else if base = None \<or> base = Some [] then Some (unique ([star] # the extra))
      else Some (unique (the base @ the extra)))"

definition pickSandboxToolPolicy :: "tool_config option \<Rightarrow> tool_policy option" where
  "pickSandboxToolPolicy config =
     (case config of None \<Rightarrow> None
      | Some c \<Rightarrow>
          let allow = (if tc_allow c \<noteq> None then unionAllow (tc_allow c) (tc_alsoAllow c)
                       else if tc_alsoAllow c \<noteq> None \<and> tc_alsoAllow c \<noteq> Some [] then unionAllow None (tc_alsoAllow c)
                       else None)
          in if allow = None \<and> tc_deny c = None then None
             else Some \<lparr>tp_allow = allow, tp_deny = tc_deny c\<rparr>)"

definition SUBAGENT_TOOL_DENY_ALWAYS :: "string list" where
  "SUBAGENT_TOOL_DENY_ALWAYS = [''gateway'', ''agents_list'', ''whatsapp_login'', ''session_status'', ''cron'',
     ''memory_search'', ''memory_get'', ''sessions_send'']"

definition SUBAGENT_TOOL_DENY_LEAF :: "string list" where
  "SUBAGENT_TOOL_DENY_LEAF = [''sessions_list'', ''sessions_history'', ''sessions_spawn'']"

definition resolveSubagentDenyList :: "int \<Rightarrow> int \<Rightarrow> string list" where
  "resolveSubagentDenyList depth maxSpawnDepth =
     (if depth \<ge> max 1 maxSpawnDepth then SUBAGENT_TOOL_DENY_ALWAYS @ SUBAGENT_TOOL_DENY_LEAF
      else SUBAGENT_TOOL_DENY_ALWAYS)"

definition DEFAULT_SUBAGENT_MAX_SPAWN_DEPTH :: int where "DEFAULT_SUBAGENT_MAX_SPAWN_DEPTH = 1"

text \<open>The configured policy is that of \<open>tools.subagents.tools\<close>; depths are whole numbers.\<close>

definition resolveSubagentToolPolicy :: "tool_config option \<Rightarrow> int option \<Rightarrow> int option \<Rightarrow> tool_policy" where
  "resolveSubagentToolPolicy configured maxDepth depth =
     (let maxSpawnDepth = (case maxDepth of None \<Rightarrow> DEFAULT_SUBAGENT_MAX_SPAWN_DEPTH | Some m \<Rightarrow> m);
          effectiveDepth = (case depth of Some d \<Rightarrow> if d \<ge> 0 then d else 1 | None \<Rightarrow> 1);
          allow = Option.bind configured tc_allow; alsoAllow = Option.bind configured tc_alsoAllow;
          explicitAllow = map normalizeToolName (list_or_empty allow @ list_or_empty alsoAllow);
          deny = filter (\<lambda>n. normalizeToolName n \<notin> set explicitAllow) (resolveSubagentDenyList effectiveDepth maxSpawnDepth)
                   @ list_or_empty (Option.bind configured tc_deny)
      in \<lparr>tp_allow = (if allow \<noteq> None \<and> alsoAllow \<noteq> None then Some (unique (the allow @ the alsoAllow)) else allow),
          tp_deny = Some deny\<rparr>)"

definition normalizeProviderKey :: "string \<Rightarrow> string" where
  "normalizeProviderKey v = js_lower (js_trim v)"

text \<open>Of two keys that normalise to the same, the later one is kept.\<close>

definition resolveProviderToolPolicy ::
  "(string \<times> tool_config) list option \<Rightarrow> string option \<Rightarrow> string option \<Rightarrow> tool_config option" where
  "resolveProviderToolPolicy byProvider modelProvider modelId =
     (let provider = js_trim (opt_str modelProvider) in
      if provider = [] \<or> byProvider = None \<or> byProvider = Some [] then None
      else let lookup = map_of (rev (filter (\<lambda>(k, _). k \<noteq> []) (map (\<lambda>(k, v). (normalizeProviderKey k, v)) (the byProvider))));
               normalizedProvider = normalizeProviderKey provider;
               rawModelId = js_lower (js_trim (opt_str modelId));
               fullModelId = (if rawModelId \<noteq> [] \<and> CHR ''/'' \<notin> set rawModelId
                              then normalizedProvider @ ''/'' @ rawModelId else rawModelId);
               candidates = (if fullModelId \<noteq> [] then [fullModelId] else []) @ [normalizedProvider]
           in (case find (\<lambda>k. lookup k \<noteq> None) candidates of None \<Rightarrow> None | Some k \<Rightarrow> lookup k))"

definition resolveGroupContextFromSessionKey :: "string option \<Rightarrow> string option \<times> string option" where
  "resolveGroupContextFromSessionKey sessionKey =
     (let raw = js_trim (opt_str sessionKey) in
      if raw = [] then (None, None)
      else let base = (case resolveThreadParentSessionKey (Some raw) of Some b \<Rightarrow> b | None \<Rightarrow> raw);
               parts = colon_parts base;
               body0 = (if parts \<noteq> [] \<and> hd parts = ''agent'' then drop 2 parts else parts);
               body = (if body0 \<noteq> [] \<and> hd body0 = ''subagent'' then drop 1 body0 else body0)
           in (case body of
                 ch # kind # r # rest' \<Rightarrow>
                   if kind \<noteq> ''group'' \<and> kind \<noteq> ''channel'' then (None, None)
                   else let groupId = js_trim (join_colon (r # rest'))
                        in if groupId = [] then (None, None) else (Some (js_lower (js_trim ch)), Some groupId)
               | _ \<Rightarrow> (None, None)))"

section \<open>The tools an agent is given\<close>

text \<open>
  The authorisation of \<open>createFasedAgentCodingTools\<close> in \<open>pi-tools.ts\<close>: the sender check, then the steps
  of the default pipeline, the sandbox and the sub-agent policy.
\<close>

definition authorization_steps :: "pipeline_policies \<Rightarrow> tool_policy option \<Rightarrow> tool_policy option \<Rightarrow> pipeline_step list" where
  "authorization_steps policies sandboxTools subagentPolicy =
     buildDefaultToolPolicyPipelineSteps policies
       @ [(plain_step sandboxTools ''sandbox tools.allow'')\<lparr>ps_stripPluginOnlyAllowlist := False\<rparr>,
          (plain_step subagentPolicy ''subagent tools.allow'')\<lparr>ps_stripPluginOnlyAllowlist := False\<rparr>]"

definition authorize_tools ::
  "(agent_tool \<Rightarrow> string option) \<Rightarrow> pipeline_policies \<Rightarrow> tool_policy option \<Rightarrow> tool_policy option
    \<Rightarrow> bool option \<Rightarrow> agent_tool list \<Rightarrow> string list \<Rightarrow> agent_tool list \<times> string list \<times> string list" where
  "authorize_tools toolMeta policies sandboxTools subagentPolicy senderIsOwner tools seen =
     (let isOwner = (senderIsOwner = Some True);
          byAuthorization = applyOwnerOnlyToolPolicy tools isOwner
      in applyToolPolicyPipeline toolMeta (authorization_steps policies sandboxTools subagentPolicy) byAuthorization seen)"

end
