(* ===== verification/ToolAccess.thy ===== *)
theory ToolAccess
  imports ToolPolicy
begin

text \<open>
  What the tool policies of \<open>ToolPolicy\<close> mean: the language of a pattern, the names an entry of a list
  covers, the tools a step lets through, and the pipeline as the intersection of its steps.
\<close>

section \<open>The language of a pattern\<close>

inductive glob_lang :: "string \<Rightarrow> string \<Rightarrow> bool" where
  glob_nil: "glob_lang [] []"
| glob_char: "glob_lang ps cs \<Longrightarrow> p \<noteq> star \<Longrightarrow> glob_lang (p # ps) (p # cs)"
| glob_star: "glob_lang ps cs \<Longrightarrow> list_all (\<lambda>c. \<not> line_end c) skipped \<Longrightarrow> glob_lang (star # ps) (skipped @ cs)"

declare glob_lang.intros [intro]

inductive_cases glob_lang_nilE: "glob_lang [] cs"
inductive_cases glob_lang_consE: "glob_lang (p # ps) cs"

lemma star_not_line_end [simp]: "\<not> line_end star"
  by (simp add: line_end_def star_def)

lemma glob_lang_skip:
  assumes "glob_lang (star # ps) cs" "\<not> line_end c"
  shows "glob_lang (star # ps) (c # cs)"
proof -
  from assms(1) obtain skipped cs' where "cs = skipped @ cs'" "glob_lang ps cs'" "list_all (\<lambda>c. \<not> line_end c) skipped"
    by (auto elim: glob_lang_consE)
  with assms(2) show ?thesis using glob_star[of ps cs' "c # skipped"] by simp
qed

lemma regex_test_sound: "regex_test p v \<Longrightarrow> glob_lang p v"
proof (induction p v rule: regex_test.induct)
  case (2 p ps)
  then show ?case using glob_star[of ps "[]" "[]"] by auto
next
  case (3 p ps c cs)
  show ?case
  proof (cases "p = star")
    case True
    with 3 show ?thesis using glob_star[of ps "c # cs" "[]"] by (auto intro: glob_lang_skip)
  next
    case False
    with 3 show ?thesis by auto
  qed
qed auto

lemma regex_test_skip:
  "regex_test ps cs \<Longrightarrow> list_all (\<lambda>c. \<not> line_end c) skipped \<Longrightarrow> regex_test (star # ps) (skipped @ cs)"
proof (induction skipped)
  case Nil
  then show ?case by (cases cs) auto
qed simp

lemma regex_test_complete: "glob_lang p v \<Longrightarrow> regex_test p v"
  by (induction rule: glob_lang.induct) (auto intro: regex_test_skip)

lemma regex_test_glob_lang: "regex_test p v = glob_lang p v"
  using regex_test_sound regex_test_complete by blast

lemma regex_test_plain: "star \<notin> set p \<Longrightarrow> regex_test p v = (v = p)"
  by (induction p v rule: regex_test.induct) auto

lemma regex_test_refl: "regex_test p p"
proof (induction p)
  case (Cons c p)
  show ?case
  proof (cases "c = star")
    case True
    have "regex_test (star # p) (star # p)" using regex_test_skip[OF Cons, of "[star]"] by simp
    with True show ?thesis by simp
  qed (simp add: Cons)
qed simp

section \<open>Names\<close>

lemma normalizeToolName_idem [simp]: "normalizeToolName (normalizeToolName n) = normalizeToolName n"
proof (cases "map_of TOOL_NAME_ALIASES (js_lower (js_trim n))")
  case None
  then show ?thesis by (simp add: normalizeToolName_def js_trim_lower)
next
  case (Some a)
  then have "a = ''exec'' \<or> a = ''apply_patch''"
    by (auto simp: TOOL_NAME_ALIASES_def split: if_splits)
  moreover have "normalizeToolName ''exec'' = ''exec''" by code_simp
  moreover have "normalizeToolName ''apply_patch'' = ''apply_patch''" by code_simp
  ultimately show ?thesis using Some by (auto simp: normalizeToolName_def[of n])
qed

lemma normalizeToolName_Nil [simp]: "normalizeToolName [] = []"
  by (simp add: normalizeToolName_def js_lower_def TOOL_NAME_ALIASES_def)

lemma unique_Nil_iff [simp]: "unique xs = [] \<longleftrightarrow> xs = []"
  by (simp add: unique_def)

section \<open>Entries of a list\<close>

text \<open>The names an entry covers once the groups of plugins are expanded: those of a core group, or its pattern.\<close>

definition core_covers :: "string \<Rightarrow> string \<Rightarrow> bool" where
  "core_covers x n =
     (case map_of TOOL_GROUPS x of Some g \<Rightarrow> n \<in> set g
      | None \<Rightarrow> x \<noteq> [] \<and> (x = [star] \<or> glob_lang x n))"

definition covers :: "plugin_groups \<Rightarrow> string \<Rightarrow> string \<Rightarrow> bool" where
  "covers g entry n = list_ex (\<lambda>x. core_covers (normalizeToolName x) n) (expand_entry g entry)"

definition list_covers :: "plugin_groups \<Rightarrow> string list option \<Rightarrow> string \<Rightarrow> bool" where
  "list_covers g xs n = list_ex (\<lambda>e. covers g e n) (list_or_empty xs)"

text \<open>A list that names nothing: absent, empty or blank.\<close>

definition names_nothing :: "plugin_groups \<Rightarrow> string list option \<Rightarrow> bool" where
  "names_nothing g xs = list_all (\<lambda>e. list_all (\<lambda>x. normalizeToolName x = []) (expand_entry g e)) (list_or_empty xs)"

text \<open>What a policy lets through.\<close>

definition policy_allows :: "plugin_groups \<Rightarrow> tool_policy \<Rightarrow> string \<Rightarrow> bool" where
  "policy_allows g p n =
     (\<not> list_covers g (tp_deny p) n \<and>
      (names_nothing g (tp_allow p) \<or> list_covers g (tp_allow p) n
       \<or> n = ''apply_patch'' \<and> list_covers g (tp_allow p) ''exec''))"

definition step_allows :: "plugin_groups \<Rightarrow> string \<Rightarrow> pipeline_step \<Rightarrow> bool" where
  "step_allows g n s = (case ps_policy s of None \<Rightarrow> True | Some p \<Rightarrow> policy_allows g p n)"

section \<open>Compiled lists\<close>

lemma group_members_plain:
  "list_all (\<lambda>(k, g). g \<noteq> [] \<and> list_all (\<lambda>m. normalizeToolName m = m \<and> m \<noteq> [] \<and> star \<notin> set m) g) TOOL_GROUPS"
  by code_simp

lemma group_member:
  assumes "map_of TOOL_GROUPS x = Some g" "m \<in> set g"
  shows "normalizeToolName m = m" "m \<noteq> []" "star \<notin> set m"
proof -
  have "(x, g) \<in> set TOOL_GROUPS" using assms(1) by (rule map_of_SomeD)
  with group_members_plain assms(2) show "normalizeToolName m = m" "m \<noteq> []" "star \<notin> set m"
    by (auto simp: list_all_iff)
qed

lemma group_nonempty: "map_of TOOL_GROUPS x = Some g \<Longrightarrow> g \<noteq> []"
  using group_members_plain by (auto simp: list_all_iff dest!: map_of_SomeD)

lemma group_none_Nil [simp]: "map_of TOOL_GROUPS [] = None"
  by code_simp

text \<open>The patterns an entry of an expanded list stands for.\<close>

definition entry_names :: "string \<Rightarrow> string list" where
  "entry_names x = (case map_of TOOL_GROUPS x of Some g \<Rightarrow> g | None \<Rightarrow> [x])"

lemma set_expandToolGroups:
  "set (expandToolGroups (Some xs)) = (\<Union>x \<in> {x \<in> set xs. normalizeToolName x \<noteq> []}. set (entry_names (normalizeToolName x)))"
  by (auto simp: expandToolGroups_def normalizeToolList_def entry_names_def)

lemma entry_names_normal: "m \<in> set (entry_names (normalizeToolName x)) \<Longrightarrow> normalizeToolName m = m"
  by (auto simp: entry_names_def group_member split: option.splits)

lemma compiled_matches:
  "glob_matches n (compileGlobPattern normalizeToolName m) = (if normalizeToolName m = [] then n = []
     else normalizeToolName m = [star] \<or> glob_lang (normalizeToolName m) n)"
  by (auto simp: compileGlobPattern_def Let_def regex_test_plain regex_test_glob_lang[symmetric])

lemma compiled_blank: "compileGlobPattern nrm m = GExact [] \<longleftrightarrow> nrm m = []"
  by (auto simp: compileGlobPattern_def Let_def)

lemma matchesAny_compiled:
  "matchesAnyGlobPattern n (compileGlobPatterns normalizeToolName raw)
     = (\<exists>m \<in> set raw. normalizeToolName m \<noteq> [] \<and> (normalizeToolName m = [star] \<or> glob_lang (normalizeToolName m) n))"
  by (force simp: matchesAnyGlobPattern_def compileGlobPatterns_def list_ex_iff compiled_blank compiled_matches)

lemma core_covers_entry_names:
  "core_covers x n = (\<exists>m \<in> set (entry_names x). m \<noteq> [] \<and> (m = [star] \<or> glob_lang m n))"
proof (cases "map_of TOOL_GROUPS x")
  case None
  then show ?thesis by (simp add: core_covers_def entry_names_def)
next
  case (Some g)
  have "(m \<noteq> [] \<and> (m = [star] \<or> glob_lang m n)) = (m = n)" if "m \<in> set g" for m
    using group_member[OF Some that] by (auto simp: regex_test_plain regex_test_glob_lang[symmetric])
  with Some show ?thesis by (auto simp: core_covers_def entry_names_def)
qed

lemma core_covers_nonempty: "core_covers x n \<Longrightarrow> x \<noteq> []"
  by (auto simp: core_covers_def)

lemma entry_names_nonempty:
  assumes "y \<noteq> []"
  shows "\<exists>m \<in> set (entry_names y). m \<noteq> []"
proof (cases "map_of TOOL_GROUPS y")
  case (Some g)
  with group_nonempty[OF Some] group_member(2)[OF Some] show ?thesis
    by (cases g) (auto simp: entry_names_def)
qed (simp add: entry_names_def assms)

lemma matchesAny_expanded:
  "matchesAnyGlobPattern n (compileGlobPatterns normalizeToolName (expandToolGroups (Some xs)))
     = list_ex (\<lambda>x. core_covers (normalizeToolName x) n) xs"
proof -
  have "matchesAnyGlobPattern n (compileGlobPatterns normalizeToolName (expandToolGroups (Some xs)))
     = (\<exists>x \<in> set xs. normalizeToolName x \<noteq> [] \<and> (\<exists>m \<in> set (entry_names (normalizeToolName x)).
          m \<noteq> [] \<and> (m = [star] \<or> glob_lang m n)))"
    unfolding matchesAny_compiled set_expandToolGroups using entry_names_normal by (auto 0 4)
  also have "\<dots> = (\<exists>x \<in> set xs. core_covers (normalizeToolName x) n)"
    unfolding core_covers_entry_names[symmetric] using core_covers_nonempty by blast
  finally show ?thesis by (simp add: list_ex_iff)
qed

lemma compiled_empty:
  "compileGlobPatterns normalizeToolName (expandToolGroups (Some xs)) = [] \<longleftrightarrow> list_all (\<lambda>x. normalizeToolName x = []) xs"
proof -
  have "compileGlobPatterns normalizeToolName (expandToolGroups (Some xs)) = []
     \<longleftrightarrow> (\<forall>m \<in> set (expandToolGroups (Some xs)). normalizeToolName m = [])"
    by (auto simp: compileGlobPatterns_def filter_empty_conv compiled_blank)
  also have "\<dots> \<longleftrightarrow> (\<forall>x \<in> set xs. normalizeToolName x = [])"
  proof
    assume blank: "\<forall>m \<in> set (expandToolGroups (Some xs)). normalizeToolName m = []"
    show "\<forall>x \<in> set xs. normalizeToolName x = []"
    proof (rule ccontr)
      assume "\<not> ?thesis"
      then obtain x where x: "x \<in> set xs" "normalizeToolName x \<noteq> []" by blast
      from entry_names_nonempty[OF x(2)] obtain m where m: "m \<in> set (entry_names (normalizeToolName x))" "m \<noteq> []"
        by blast
      with x have "m \<in> set (expandToolGroups (Some xs))" unfolding set_expandToolGroups by blast
      with blank entry_names_normal[OF m(1)] m(2) show False by simp
    qed
  next
    assume "\<forall>x \<in> set xs. normalizeToolName x = []"
    then have "set (expandToolGroups (Some xs)) = {}" unfolding set_expandToolGroups by blast
    then show "\<forall>m \<in> set (expandToolGroups (Some xs)). normalizeToolName m = []" by simp
  qed
  finally show ?thesis by (simp add: list_all_iff)
qed

section \<open>The matcher\<close>

lemma list_expanded_plugins:
  "list_ex P (list_or_empty (expandPluginGroups xs g)) = list_ex (\<lambda>e. list_ex P (expand_entry g e)) (list_or_empty xs)"
  by (cases xs) (auto simp: expandPluginGroups_def list_or_empty_def list_ex_iff)

lemma list_all_expanded_plugins:
  "list_all P (list_or_empty (expandPluginGroups xs g)) = list_all (\<lambda>e. list_all P (expand_entry g e)) (list_or_empty xs)"
  by (cases xs) (auto simp: expandPluginGroups_def list_or_empty_def list_all_iff)

lemma matcher_allows:
  assumes "expandPolicyWithPluginGroups (Some p) g = Some q"
  shows "makePiToolPolicyMatcher q name = policy_allows g p (normalizeToolName name)"
proof -
  from assms have q: "q = \<lparr>tp_allow = expandPluginGroups (tp_allow p) g, tp_deny = expandPluginGroups (tp_deny p) g\<rparr>"
    by (simp add: expandPolicyWithPluginGroups_def)
  show ?thesis
    unfolding makePiToolPolicyMatcher_def compiled_policy_def policy_allows_def q
    by (simp add: Let_def matchesAny_expanded compiled_empty list_expanded_plugins list_all_expanded_plugins
        list_covers_def covers_def names_nothing_def)
qed

lemma filterToolsByPolicy_allows:
  "filterToolsByPolicy tools (expandPolicyWithPluginGroups (Some p) g)
     = filter (\<lambda>t. policy_allows g p (normalizeToolName (tl_name t))) tools"
  by (cases "expandPolicyWithPluginGroups (Some p) g")
     (simp_all add: filterToolsByPolicy_def matcher_allows expandPolicyWithPluginGroups_def[of None] , simp add: expandPolicyWithPluginGroups_def)

section \<open>The pipeline\<close>

lemma analyze_keeps_policy [simp]: "ar_policy (analyzeAllowlistByToolType p g core) = p"
  by (simp add: analyzeAllowlistByToolType_def Let_def)

lemma pipeline_apply_tools:
  "fst (pipeline_apply g core s st) = filter (\<lambda>t. step_allows g (normalizeToolName (tl_name t)) s) (fst st)"
  by (auto simp: pipeline_apply_def step_allows_def Let_def filterToolsByPolicy_allows split: prod.splits option.splits)

lemma fold_pipeline_tools:
  "fst (fold (pipeline_apply g core) steps st)
     = filter (\<lambda>t. list_all (step_allows g (normalizeToolName (tl_name t))) steps) (fst st)"
  by (induction steps arbitrary: st) (simp_all add: pipeline_apply_tools conj_commute)

lemma applyToolPolicyPipeline_tools:
  "fst (applyToolPolicyPipeline toolMeta steps tools seen)
     = filter (\<lambda>t. list_all (step_allows (buildPluginToolGroups toolMeta tools) (normalizeToolName (tl_name t))) steps) tools"
  by (simp add: applyToolPolicyPipeline_def Let_def fold_pipeline_tools)

lemma wrap_owner [simp]: "wrapOwnerOnlyToolExecution t True = t"
  by (simp add: wrapOwnerOnlyToolExecution_def)

lemma wrap_keeps_owner_only [simp]: "isOwnerOnlyTool (wrapOwnerOnlyToolExecution t o') = isOwnerOnlyTool t"
  by (simp add: wrapOwnerOnlyToolExecution_def isOwnerOnlyTool_def)

lemma filter_guarded:
  "filter (\<lambda>t. \<not> isOwnerOnlyTool t) (map (\<lambda>t. if \<not> isOwnerOnlyTool t then t else wrapOwnerOnlyToolExecution t o') tools)
     = filter (\<lambda>t. \<not> isOwnerOnlyTool t) tools"
  by (induction tools) simp_all

lemma applyOwnerOnlyToolPolicy_eq:
  "applyOwnerOnlyToolPolicy tools isOwner = (if isOwner then tools else filter (\<lambda>t. \<not> isOwnerOnlyTool t) tools)"
proof (cases isOwner)
  case True
  then show ?thesis by (simp add: applyOwnerOnlyToolPolicy_def map_idI)
next
  case False
  then show ?thesis using filter_guarded[of False tools] by (simp add: applyOwnerOnlyToolPolicy_def Let_def)
qed

text \<open>The groups of the plugins whose tools the sender may see.\<close>

definition visible_groups :: "(agent_tool \<Rightarrow> string option) \<Rightarrow> bool option \<Rightarrow> agent_tool list \<Rightarrow> plugin_groups" where
  "visible_groups toolMeta senderIsOwner tools =
     buildPluginToolGroups toolMeta (applyOwnerOnlyToolPolicy tools (senderIsOwner = Some True))"

lemma authorized_iff:
  "t \<in> set (fst (authorize_tools toolMeta policies sandboxTools subagentPolicy senderIsOwner tools seen)) \<longleftrightarrow>
     t \<in> set tools \<and> (senderIsOwner = Some True \<or> \<not> isOwnerOnlyTool t) \<and>
     (\<forall>s \<in> set (authorization_steps policies sandboxTools subagentPolicy).
        step_allows (visible_groups toolMeta senderIsOwner tools) (normalizeToolName (tl_name t)) s)"
  unfolding authorize_tools_def Let_def applyToolPolicyPipeline_tools visible_groups_def
  by (auto simp: list_all_iff applyOwnerOnlyToolPolicy_eq)

text \<open>A name that is no group and no plugin stands for itself.\<close>

definition plain_name :: "plugin_groups \<Rightarrow> string \<Rightarrow> bool" where
  "plain_name g n = (n \<noteq> [] \<and> n \<noteq> ''group:plugins'' \<and> map_of (pg_byPlugin g) n = None \<and> map_of TOOL_GROUPS n = None)"

lemma covers_own_name:
  assumes "plain_name g (normalizeToolName d)"
  shows "covers g d (normalizeToolName d)"
  using assms
proof -
  have "glob_lang (normalizeToolName d) (normalizeToolName d)"
    using regex_test_refl by (rule regex_test_sound)
  with assms show ?thesis
    by (simp add: covers_def plain_name_def expand_entry_def core_covers_def)
qed

lemma denied_name:
  assumes "ps_policy s = Some p" "d \<in> set (list_or_empty (tp_deny p))" "plain_name g (normalizeToolName d)"
  shows "\<not> step_allows g (normalizeToolName d) s"
  using assms covers_own_name[OF assms(3)]
  by (auto simp: step_allows_def policy_allows_def list_covers_def list_ex_iff)

text \<open>Owner-only tools are for a sender who is known to be the owner.\<close>

definition sender_may_use :: "bool option \<Rightarrow> agent_tool \<Rightarrow> bool" where
  "sender_may_use senderIsOwner t = (if isOwnerOnlyTool t then senderIsOwner = Some True else True)"

section \<open>Properties\<close>

text \<open>A pattern list matches a name exactly when one of its entries, normalised, is the single star or
  has the name in its language: each star stands for any characters of one line, every other character
  for itself. Blank entries match nothing.\<close>

theorem glob_list_language:
  "matchesAnyGlobPattern n (compileGlobPatterns nrm raw)
     = list_ex (\<lambda>e. nrm e \<noteq> [] \<and> (nrm e = [star] \<or> glob_lang (nrm e) n)) raw"
proof -
  have "glob_matches n (compileGlobPattern nrm m) = (if nrm m = [] then n = [] else nrm m = [star] \<or> glob_lang (nrm m) n)" for m
    by (auto simp: compileGlobPattern_def Let_def regex_test_plain regex_test_glob_lang[symmetric])
  then show ?thesis
    by (force simp: matchesAnyGlobPattern_def compileGlobPatterns_def list_ex_iff compiled_blank)
qed

text \<open>C24: The tools an agent is given are, in their order, those the sender may use that every configured
  policy lets through: profile, provider, global, agent, group, sandbox and sub-agent policies only ever
  remove tools, in any order and whatever warnings were given. A policy lets a tool through when no deny
  entry covers its name and its allow list is blank or covers it.\<close>

theorem authorized_tools_exact:
  "fst (authorize_tools toolMeta policies sandboxTools subagentPolicy senderIsOwner tools seen)
     = filter (\<lambda>t. sender_may_use senderIsOwner t
           \<and> list_all (step_allows (visible_groups toolMeta senderIsOwner tools) (normalizeToolName (tl_name t)))
               (authorization_steps policies sandboxTools subagentPolicy)) tools"
  unfolding authorize_tools_def Let_def applyToolPolicyPipeline_tools visible_groups_def
  by (cases "senderIsOwner = Some True") (auto simp: applyOwnerOnlyToolPolicy_eq sender_may_use_def intro: filter_cong)

text \<open>A deny entry wins over every allow list: a tool whose name some policy of the chain denies is
  not given to the agent, however it is spelt in the entry (case, blanks, alias) and whatever the other
  policies allow. The name must not be that of a plugin or a group, which stands for other tools.\<close>

theorem denied_tool_removed:
  assumes "s \<in> set (authorization_steps policies sandboxTools subagentPolicy)" "ps_policy s = Some p"
    and "tp_deny p = Some ds" "d \<in> set ds" "normalizeToolName d = normalizeToolName (tl_name t)"
    and "plain_name (visible_groups toolMeta senderIsOwner tools) (normalizeToolName d)"
  shows "t \<notin> set (fst (authorize_tools toolMeta policies sandboxTools subagentPolicy senderIsOwner tools seen))"
  using assms denied_name[of s p d] by (auto simp: authorized_iff list_or_empty_def)

definition deny_tool :: "string \<Rightarrow> agent_tool" where
  "deny_tool n = \<lparr>tl_name = n, tl_ownerOnly = False, tl_execute = Runs\<rparr>"

definition no_policies :: pipeline_policies where
  "no_policies = \<lparr>pl_profilePolicy = None, pl_profile = None, pl_profileWarningAllowlist = None,
     pl_providerProfilePolicy = None, pl_providerProfile = None, pl_providerProfileWarningAllowlist = None,
     pl_globalPolicy = Some \<lparr>tp_allow = Some [''*''], tp_deny = Some ['' Bash'']\<rparr>, pl_globalProviderPolicy = None,
     pl_agentPolicy = Some \<lparr>tp_allow = Some [''exec'', ''read''], tp_deny = None\<rparr>, pl_agentProviderPolicy = None,
     pl_groupPolicy = None, pl_agentId = Some ''main''\<rparr>"

theorem denied_tool_removed_witness:
  "deny_tool ''exec'' \<notin> set (fst (authorize_tools (\<lambda>_. None) no_policies None None (Some True)
     [deny_tool ''exec'', deny_tool ''read''] []))"
proof (rule denied_tool_removed)
  let ?s = "plain_step (Some \<lparr>tp_allow = Some [''*''], tp_deny = Some ['' Bash'']\<rparr>) ''tools.allow''"
  show "?s \<in> set (authorization_steps no_policies None None)"
    by (simp add: authorization_steps_def buildDefaultToolPolicyPipelineSteps_def no_policies_def Let_def)
  show "ps_policy ?s = Some \<lparr>tp_allow = Some [''*''], tp_deny = Some ['' Bash'']\<rparr>" by (simp add: plain_step_def)
  show "tp_deny \<lparr>tp_allow = Some [''*''], tp_deny = Some ['' Bash'']\<rparr> = Some ['' Bash'']" by simp
  show "'' Bash'' \<in> set ['' Bash'']" by simp
  show "normalizeToolName '' Bash'' = normalizeToolName (tl_name (deny_tool ''exec''))" by code_simp
  show "plain_name (visible_groups (\<lambda>_. None) (Some True) [deny_tool ''exec'', deny_tool ''read'']) (normalizeToolName '' Bash'')"
    by code_simp
qed



section \<open>Where the matchers and the entries part\<close>

text \<open>The two matchers of the code differ on \<open>apply_patch\<close>: denying \<open>write\<close> denies it in
  \<open>tool-policy-match.ts\<close> and not in \<open>pi-tools.policy.ts\<close>.\<close>

lemma matchers_differ_on_patch:
  "\<not> makeToolPolicyMatcher \<lparr>tp_allow = None, tp_deny = Some [''write'']\<rparr> ''apply_patch''
   \<and> makePiToolPolicyMatcher \<lparr>tp_allow = None, tp_deny = Some [''write'']\<rparr> ''apply_patch''"
  by code_simp

text \<open>A deny entry that is also the id of a plugin denies the tools of the plugin and no longer the tool of that name.\<close>

lemma plugin_id_hides_denied_tool:
  "fst (applyToolPolicyPipeline (\<lambda>t. if tl_name t = ''tts_say'' then Some ''tts'' else None)
      [plain_step (Some \<lparr>tp_allow = None, tp_deny = Some [''tts'']\<rparr>) ''tools.allow'']
      [deny_tool ''tts'', deny_tool ''tts_say''] []) = [deny_tool ''tts'']"
  by code_simp

end
