(* ===== verification/ShellArgs.thy ===== *)
theory ShellArgs
  imports Prelude
begin

text \<open>
  Splitting a command into arguments, \<open>src/utils/shell-argv.ts\<close>, and the quoting of arguments from
  \<open>src/infra/exec-approvals-analysis.ts\<close>. Splitting undoes quoting.

  \<open>inSingle\<close> and \<open>inDouble\<close> of the scanners are never both set; the quote the scan is in is one value.
\<close>

datatype quote = Unquoted | InSingle | InDouble

definition squote :: char where "squote = CHR 0x27"
definition dquote :: char where "dquote = CHR 0x22"
definition bslash :: char where "bslash = CHR 0x5C"
definition newline :: char where "newline = CHR 0x0A"
definition carriage :: char where "carriage = CHR 0x0D"

definition line_break :: "char \<Rightarrow> bool" where "line_break c = (c = newline \<or> c = carriage)"

definition DOUBLE_QUOTE_ESCAPES :: "char list" where
  "DOUBLE_QUOTE_ESCAPES = [bslash, dquote, CHR ''$'', CHR 0x60, newline, carriage]"

definition push_token :: "string list \<Rightarrow> string \<Rightarrow> string list" where
  "push_token tokens buf = (if buf = [] then tokens else tokens @ [buf])"

text \<open>The scan: tokens so far, the token being read, the quote, and whether a backslash came just before.\<close>

fun split_args :: "string list \<Rightarrow> string \<Rightarrow> quote \<Rightarrow> bool \<Rightarrow> string \<Rightarrow> string list option" where
  "split_args tokens buf q esc [] = (if esc \<or> q \<noteq> Unquoted then None else Some (push_token tokens buf))"
| "split_args tokens buf q esc (c # cs) =
     (if esc then split_args tokens (buf @ [c]) q False cs
      else if q = Unquoted \<and> c = bslash then split_args tokens buf q True cs
      else if q = InSingle then
        (if c = squote then split_args tokens buf Unquoted False cs else split_args tokens (buf @ [c]) InSingle False cs)
      else if q = InDouble then
        (case cs of n # ds \<Rightarrow>
            if c = bslash \<and> n \<in> set DOUBLE_QUOTE_ESCAPES then split_args tokens (buf @ [n]) InDouble False ds
            else if c = dquote then split_args tokens buf Unquoted False cs
            else split_args tokens (buf @ [c]) InDouble False cs
         | [] \<Rightarrow> if c = dquote then split_args tokens buf Unquoted False cs
                 else split_args tokens (buf @ [c]) InDouble False cs)
      else if c = squote then split_args tokens buf InSingle False cs
      else if c = dquote then split_args tokens buf InDouble False cs
      else if js_space c then split_args (push_token tokens buf) [] Unquoted False cs
      else split_args tokens (buf @ [c]) Unquoted False cs)"

definition splitShellArgs :: "string \<Rightarrow> string list option" where
  "splitShellArgs raw = split_args [] [] Unquoted False raw"

section \<open>Quoting\<close>

text \<open>\<open>'"'"'\<close> and \<open>value.replace(/'/g, ...)\<close>\<close>

definition singleQuoteEscape :: string where
  "singleQuoteEscape = [squote, dquote, squote, dquote, squote]"

definition escape_char :: "char \<Rightarrow> string" where
  "escape_char c = (if c = squote then singleQuoteEscape else [c])"

definition shellEscapeSingleArg :: "string \<Rightarrow> string" where
  "shellEscapeSingleArg v = squote # concat (map escape_char v) @ [squote]"

definition renderQuotedArgv :: "string list \<Rightarrow> string" where
  "renderQuotedArgv argv = join_with '' '' (map shellEscapeSingleArg argv)"

lemma quote_chars [simp]:
  "squote \<noteq> dquote" "dquote \<noteq> squote" "squote \<noteq> bslash" "bslash \<noteq> squote" "dquote \<noteq> bslash" "bslash \<noteq> dquote"
  "\<not> js_space squote" "\<not> js_space dquote" "squote \<notin> set DOUBLE_QUOTE_ESCAPES"
  by code_simp+

lemma split_args_quoted:
  "split_args tokens buf InSingle False (concat (map escape_char v) @ squote # rest) = split_args tokens (buf @ v) Unquoted False rest"
proof (induction v arbitrary: buf)
  case (Cons c v)
  show ?case
  proof (cases "c = squote")
    case True
    then have "split_args tokens buf InSingle False (concat (map escape_char (c # v)) @ squote # rest)
      = split_args tokens (buf @ [squote]) InSingle False (concat (map escape_char v) @ squote # rest)"
      by (simp add: escape_char_def singleQuoteEscape_def)
    with Cons True show ?thesis by simp
  next
    case False
    with Cons show ?thesis by (simp add: escape_char_def)
  qed
qed simp

lemma split_args_arg:
  "split_args tokens buf Unquoted False (shellEscapeSingleArg v @ rest) = split_args tokens (buf @ v) Unquoted False rest"
  by (simp add: shellEscapeSingleArg_def split_args_quoted)

lemma split_args_rendered:
  "list_all (\<lambda>v. v \<noteq> []) argv \<Longrightarrow> split_args tokens [] Unquoted False (renderQuotedArgv argv) = Some (tokens @ argv)"
proof (induction argv arbitrary: tokens)
  case (Cons v argv)
  show ?case
  proof (cases argv)
    case Nil
    with Cons.prems show ?thesis using split_args_arg[of tokens "[]" v "[]"]
      by (simp add: renderQuotedArgv_def push_token_def)
  next
    case (Cons w ws)
    have "split_args tokens [] Unquoted False (renderQuotedArgv (v # argv))
      = split_args tokens v Unquoted False ('' '' @ renderQuotedArgv argv)"
      using split_args_arg[of tokens "[]" v "'' '' @ renderQuotedArgv argv"] Cons
      by (simp add: renderQuotedArgv_def del: append_Cons)
    also have "\<dots> = split_args (push_token tokens v) [] Unquoted False (renderQuotedArgv argv)"
    proof -
      have "CHR '' '' \<noteq> bslash" "CHR '' '' \<noteq> squote" "CHR '' '' \<noteq> dquote" "js_space (CHR '' '')" by code_simp+
      then show ?thesis by simp
    qed
    finally show ?thesis using Cons.IH Cons.prems by (simp add: push_token_def)
  qed
qed (simp add: renderQuotedArgv_def push_token_def)

lemma splitShellArgs_rendered: "list_all (\<lambda>v. v \<noteq> []) argv \<Longrightarrow> splitShellArgs (renderQuotedArgv argv) = Some argv"
  by (simp add: splitShellArgs_def split_args_rendered)

text \<open>No token is empty: an argument written as two quotes is lost.\<close>

lemma push_token_nonempty: "[] \<notin> set tokens \<Longrightarrow> [] \<notin> set (push_token tokens buf)"
  by (simp add: push_token_def)

lemma split_args_nonempty:
  "split_args tokens buf q esc s = Some argv \<Longrightarrow> [] \<notin> set tokens \<Longrightarrow> [] \<notin> set argv"
proof (induction "length s" arbitrary: tokens buf q esc s rule: less_induct)
  case less
  show ?case
  proof (cases s)
    case Nil
    with less.prems show ?thesis using push_token_nonempty by (auto split: if_splits)
  next
    case (Cons c cs)
    note step = less.prems(1) [unfolded Cons split_args.simps(2)]
    have IH1: "split_args t b q' e cs = Some argv \<Longrightarrow> [] \<notin> set t \<Longrightarrow> [] \<notin> set argv" for t b q' e
      using less.hyps [of cs] Cons by auto
    have IH2: "cs = n # ds \<Longrightarrow> split_args t b q' e ds = Some argv \<Longrightarrow> [] \<notin> set t \<Longrightarrow> [] \<notin> set argv" for t b q' e n ds
      using less.hyps [of ds] Cons by auto
    note t = less.prems(2) push_token_nonempty [OF less.prems(2), of buf]
    from step show ?thesis
      by (simp del: split_args.simps split: if_splits list.splits) (use IH1 IH2 t in blast)+
  qed
qed

lemma splitShellArgs_nonempty: "splitShellArgs s = Some argv \<Longrightarrow> list_all (\<lambda>v. v \<noteq> []) argv"
  using split_args_nonempty[of "[]"] by (force simp: splitShellArgs_def list_all_iff)

lemma empty_argument_lost:
  "splitShellArgs (''grep '' @ [dquote, dquote] @ '' notes'') = Some [''grep'', ''notes'']"
  by code_simp

text \<open>
  Arguments survive quoting and splitting, whatever characters they have, if none is empty.
\<close>

theorem quoted_argv_roundtrip:
  assumes "list_all (\<lambda>v. v \<noteq> []) argv"
  shows "splitShellArgs (renderQuotedArgv argv) = Some argv"
  using assms by (rule splitShellArgs_rendered)

theorem quoted_argv_roundtrip_witness:
  "splitShellArgs (renderQuotedArgv [''echo'', [squote, CHR '' '', dquote, bslash, newline, CHR ''$''], ''a|b'']) =
     Some [''echo'', [squote, CHR '' '', dquote, bslash, newline, CHR ''$''], ''a|b'']"
  by (rule quoted_argv_roundtrip) simp

end
