(* ===== verification/ExecWrappers.thy ===== *)
theory ExecWrappers
  imports Prelude "HOL-Library.Sublist"
begin

text \<open>
  Commands that run other commands, \<open>src/infra/exec-wrapper-resolution.ts\<close>: shells, multiplexers such as
  busybox, and dispatch wrappers such as env, nice or sudo.

  An argument vector is a list of texts; \<open>argv[i]?.trim()\<close> is the trimmed text or absent. The file names
  of paths are taken as the functions \<open>posix.basename\<close> and \<open>win32.basename\<close> of Node do.
\<close>

section \<open>Names of executables\<close>

definition posix_basename :: "string \<Rightarrow> string" where
  "posix_basename s = rev (takeWhile (\<lambda>c. c \<noteq> CHR ''/'') (dropWhile (\<lambda>c. c = CHR ''/'') (rev s)))"

definition backslash :: char where "backslash = CHR 0x5C"

definition win_sep :: "char \<Rightarrow> bool" where "win_sep c = (c = CHR ''/'' \<or> c = backslash)"

definition ascii_letter :: "char \<Rightarrow> bool" where
  "ascii_letter c = (let n = of_char c :: nat in (65 \<le> n \<and> n \<le> 90) \<or> (97 \<le> n \<and> n \<le> 122))"

definition win32_basename :: "string \<Rightarrow> string" where
  "win32_basename s =
     (let t = (case s of d # c # cs \<Rightarrow> if ascii_letter d \<and> c = CHR '':'' then cs else s | _ \<Rightarrow> s)
      in rev (takeWhile (\<lambda>c. \<not> win_sep c) (dropWhile win_sep (rev t))))"

definition js_ends_with :: "string \<Rightarrow> string \<Rightarrow> bool" where
  "js_ends_with s e = (length e \<le> length s \<and> drop (length s - length e) s = e)"

definition WINDOWS_EXE_SUFFIX :: string where "WINDOWS_EXE_SUFFIX = ''.exe''"

definition stripWindowsExeSuffix :: "string \<Rightarrow> string" where
  "stripWindowsExeSuffix v =
     (if js_ends_with v WINDOWS_EXE_SUFFIX then take (length v - length WINDOWS_EXE_SUFFIX) v else v)"

definition basenameLower :: "string \<Rightarrow> string" where
  "basenameLower token =
     (let win = win32_basename token; posix = posix_basename token;
          base = (if length win < length posix then win else posix)
      in js_lower (js_trim base))"

definition normalizeExecutableToken :: "string \<Rightarrow> string" where
  "normalizeExecutableToken token = stripWindowsExeSuffix (basenameLower token)"

definition POSIX_SHELL_WRAPPER_NAMES :: "string list" where
  "POSIX_SHELL_WRAPPER_NAMES = [''ash'', ''bash'', ''dash'', ''fish'', ''ksh'', ''sh'', ''zsh'']"

definition WINDOWS_CMD_WRAPPER_NAMES :: "string list" where "WINDOWS_CMD_WRAPPER_NAMES = [''cmd'']"

definition POWERSHELL_WRAPPER_NAMES :: "string list" where
  "POWERSHELL_WRAPPER_NAMES = [''powershell'', ''pwsh'']"

definition SHELL_MULTIPLEXER_WRAPPER_NAMES :: "string list" where
  "SHELL_MULTIPLEXER_WRAPPER_NAMES = [''busybox'', ''toybox'']"

definition DISPATCH_WRAPPER_NAMES :: "string list" where
  "DISPATCH_WRAPPER_NAMES = [''chrt'', ''doas'', ''env'', ''ionice'', ''nice'', ''nohup'', ''setsid'',
     ''stdbuf'', ''sudo'', ''taskset'', ''timeout'']"

definition isDispatchWrapperExecutable :: "string \<Rightarrow> bool" where
  "isDispatchWrapperExecutable token = (normalizeExecutableToken token \<in> set DISPATCH_WRAPPER_NAMES)"

definition isShellWrapperExecutable :: "string \<Rightarrow> bool" where
  "isShellWrapperExecutable token = (normalizeExecutableToken token
     \<in> set (POSIX_SHELL_WRAPPER_NAMES @ WINDOWS_CMD_WRAPPER_NAMES @ POWERSHELL_WRAPPER_NAMES))"

datatype shell_kind = Posix | Cmd | Powershell

definition findShellWrapperSpec :: "string \<Rightarrow> shell_kind option" where
  "findShellWrapperSpec baseExecutable =
     (let base = stripWindowsExeSuffix baseExecutable
      in if base \<in> set POSIX_SHELL_WRAPPER_NAMES then Some Posix
         else if base \<in> set WINDOWS_CMD_WRAPPER_NAMES then Some Cmd
         else if base \<in> set POWERSHELL_WRAPPER_NAMES then Some Powershell else None)"

text \<open>\<open>argv[i]?.trim()\<close>\<close>

definition trimmed_at :: "string list \<Rightarrow> nat \<Rightarrow> string option" where
  "trimmed_at argv i = (if i < length argv then Some (js_trim (argv ! i)) else None)"

section \<open>Multiplexers\<close>

datatype unwrap_result = NotWrapper | Blocked string | Unwrapped string "string list"

definition unwrapKnownShellMultiplexerInvocation :: "string list \<Rightarrow> unwrap_result" where
  "unwrapKnownShellMultiplexerInvocation argv =
     (if opt_str (trimmed_at argv 0) = [] then NotWrapper
      else let wrapper = normalizeExecutableToken (opt_str (trimmed_at argv 0))
           in if wrapper \<notin> set SHELL_MULTIPLEXER_WRAPPER_NAMES then NotWrapper
              else let appletIndex = (if trimmed_at argv 1 = Some ''--'' then 2 else 1);
                       applet = opt_str (trimmed_at argv appletIndex)
                   in if applet = [] \<or> \<not> isShellWrapperExecutable applet then Blocked wrapper
                      else if drop appletIndex argv = [] then Blocked wrapper
                      else Unwrapped wrapper (drop appletIndex argv))"

section \<open>Dispatch wrappers\<close>

text \<open>The options of the wrappers, all in lower case: tokens are compared lowered.\<close>

definition ENV_OPTIONS_WITH_VALUE :: "string list" where
  "ENV_OPTIONS_WITH_VALUE = [''-u'', ''--unset'', ''-c'', ''--chdir'', ''-s'', ''--split-string'',
     ''--default-signal'', ''--ignore-signal'', ''--block-signal'']"

definition ENV_INLINE_VALUE_PREFIXES :: "string list" where
  "ENV_INLINE_VALUE_PREFIXES = [''-u'', ''-c'', ''-s'', ''--unset='', ''--chdir='', ''--split-string='',
     ''--default-signal='', ''--ignore-signal='', ''--block-signal='']"

definition ENV_FLAG_OPTIONS :: "string list" where
  "ENV_FLAG_OPTIONS = [''-i'', ''--ignore-environment'', ''-0'', ''--null'']"

definition NICE_OPTIONS_WITH_VALUE :: "string list" where
  "NICE_OPTIONS_WITH_VALUE = [''-n'', ''--adjustment'', ''--priority'']"

definition STDBUF_OPTIONS_WITH_VALUE :: "string list" where
  "STDBUF_OPTIONS_WITH_VALUE = [''-i'', ''--input'', ''-o'', ''--output'', ''-e'', ''--error'']"

definition TIMEOUT_FLAG_OPTIONS :: "string list" where
  "TIMEOUT_FLAG_OPTIONS = [''--foreground'', ''--preserve-status'', ''-v'', ''--verbose'']"

definition TIMEOUT_OPTIONS_WITH_VALUE :: "string list" where
  "TIMEOUT_OPTIONS_WITH_VALUE = [''-k'', ''--kill-after'', ''-s'', ''--signal'']"

definition TRANSPARENT_DISPATCH_WRAPPERS :: "string list" where
  "TRANSPARENT_DISPATCH_WRAPPERS = [''nice'', ''nohup'', ''stdbuf'', ''timeout'']"

text \<open>\<open>/^[A-Za-z_][A-Za-z0-9_]*=.*/\<close>\<close>

definition isEnvAssignment :: "string \<Rightarrow> bool" where
  "isEnvAssignment token =
     (let name = takeWhile (\<lambda>c. ascii_letter c \<or> is_digit_char c \<or> c = CHR ''_'') token
      in name \<noteq> [] \<and> \<not> is_digit_char (hd name) \<and> length name < length token \<and> token ! length name = CHR ''='')"

definition hasEnvInlineValuePrefix :: "string \<Rightarrow> bool" where
  "hasEnvInlineValuePrefix lower = list_ex (js_starts_with lower) ENV_INLINE_VALUE_PREFIXES"

text \<open>\<open>const [flag] = lower.split("=", 2)\<close>\<close>

definition before_equals :: "string \<Rightarrow> string" where
  "before_equals s = takeWhile (\<lambda>c. c \<noteq> CHR ''='') s"

datatype directive = Continue | ConsumeNext | Stop | Invalid

text \<open>
  The scan over the arguments after the wrapper: the index of the wrapped command, or \<open>None\<close> when an
  option is not understood. \<open>expects\<close> says that the next token is the value of an option.
\<close>

fun scan_tokens :: "string list \<Rightarrow> (string \<Rightarrow> string \<Rightarrow> directive) \<Rightarrow> bool \<Rightarrow> nat \<Rightarrow> string list \<Rightarrow> nat option" where
  "scan_tokens separators onToken expects idx [] = (if expects then None else Some idx)"
| "scan_tokens separators onToken expects idx (t # ts) =
     (let token = js_trim t
      in if token = [] then scan_tokens separators onToken expects (Suc idx) ts
         else if expects then scan_tokens separators onToken False (Suc idx) ts
         else if token \<in> set separators then Some (Suc idx)
         else (case onToken token (js_lower token) of
             Stop \<Rightarrow> Some idx
           | Invalid \<Rightarrow> None
           | ConsumeNext \<Rightarrow> scan_tokens separators onToken True (Suc idx) ts
           | Continue \<Rightarrow> scan_tokens separators onToken False (Suc idx) ts))"

definition scanWrapperInvocation ::
  "string list \<Rightarrow> (string \<Rightarrow> string \<Rightarrow> directive) \<Rightarrow> (nat \<Rightarrow> string list \<Rightarrow> nat option) \<Rightarrow> string list \<Rightarrow> string list option" where
  "scanWrapperInvocation separators onToken adjustCommandIndex argv =
     (case scan_tokens separators onToken False 1 (tl argv) of None \<Rightarrow> None
      | Some idx \<Rightarrow>
          (case adjustCommandIndex idx argv of None \<Rightarrow> None
           | Some commandIndex \<Rightarrow> if commandIndex \<ge> length argv then None else Some (drop commandIndex argv)))"

definition no_adjust :: "nat \<Rightarrow> string list \<Rightarrow> nat option" where "no_adjust i argv = Some i"

definition env_token :: "string \<Rightarrow> string \<Rightarrow> directive" where
  "env_token token lower =
     (if isEnvAssignment token then Continue
      else if \<not> js_starts_with token ''-'' \<or> token = ''-'' then Stop
      else let flag = before_equals lower
           in if flag \<in> set ENV_FLAG_OPTIONS then Continue
              else if flag \<in> set ENV_OPTIONS_WITH_VALUE then (if CHR ''='' \<in> set lower then Continue else ConsumeNext)
              else if hasEnvInlineValuePrefix lower then Continue else Invalid)"

definition unwrapEnvInvocation :: "string list \<Rightarrow> string list option" where
  "unwrapEnvInvocation argv = scanWrapperInvocation [''--'', ''-''] env_token no_adjust argv"

text \<open>Whether an invocation of env changes the environment; the index is the first token looked at.\<close>

fun env_modifiers :: "bool \<Rightarrow> string list \<Rightarrow> bool" where
  "env_modifiers expects [] = False"
| "env_modifiers expects (t # ts) =
     (let token = js_trim t
      in if token = [] then env_modifiers expects ts
         else if expects then True
         else if token = ''--'' \<or> token = ''-'' then False
         else if isEnvAssignment token then True
         else if \<not> js_starts_with token ''-'' then False
         else let lower = js_lower token; flag = before_equals lower
              in if flag \<in> set ENV_FLAG_OPTIONS then True
                 else if flag \<in> set ENV_OPTIONS_WITH_VALUE
                 then (if CHR ''='' \<in> set lower then True else env_modifiers True ts)
                 else True)"

definition envInvocationUsesModifiers :: "string list \<Rightarrow> bool" where
  "envInvocationUsesModifiers argv = env_modifiers False (tl argv)"

definition dash_option :: "(string \<Rightarrow> string \<Rightarrow> directive) \<Rightarrow> string \<Rightarrow> string \<Rightarrow> directive" where
  "dash_option onFlag token lower =
     (if \<not> js_starts_with token ''-'' \<or> token = ''-'' then Stop else onFlag (before_equals lower) lower)"

definition unwrapDashOptionInvocation ::
  "(string \<Rightarrow> string \<Rightarrow> directive) \<Rightarrow> (nat \<Rightarrow> string list \<Rightarrow> nat option) \<Rightarrow> string list \<Rightarrow> string list option" where
  "unwrapDashOptionInvocation onFlag adjust argv = scanWrapperInvocation [''--''] (dash_option onFlag) adjust argv"

definition nice_flag :: "string \<Rightarrow> string \<Rightarrow> directive" where
  "nice_flag flag lower =
     (if js_starts_with lower ''-'' \<and> tl lower \<noteq> [] \<and> list_all is_digit_char (tl lower) then Continue
      else if flag \<in> set NICE_OPTIONS_WITH_VALUE
      then (if CHR ''='' \<in> set lower \<or> lower \<noteq> flag then Continue else ConsumeNext)
      else if js_starts_with lower ''-n'' \<and> length lower > 2 then Continue else Invalid)"

definition unwrapNiceInvocation :: "string list \<Rightarrow> string list option" where
  "unwrapNiceInvocation argv = unwrapDashOptionInvocation nice_flag no_adjust argv"

definition nohup_token :: "string \<Rightarrow> string \<Rightarrow> directive" where
  "nohup_token token lower =
     (if \<not> js_starts_with token ''-'' \<or> token = ''-'' then Stop
      else if lower = ''--help'' \<or> lower = ''--version'' then Continue else Invalid)"

definition unwrapNohupInvocation :: "string list \<Rightarrow> string list option" where
  "unwrapNohupInvocation argv = scanWrapperInvocation [''--''] nohup_token no_adjust argv"

definition stdbuf_flag :: "string \<Rightarrow> string \<Rightarrow> directive" where
  "stdbuf_flag flag lower =
     (if flag \<notin> set STDBUF_OPTIONS_WITH_VALUE then Invalid
      else if CHR ''='' \<in> set lower then Continue else ConsumeNext)"

definition unwrapStdbufInvocation :: "string list \<Rightarrow> string list option" where
  "unwrapStdbufInvocation argv = unwrapDashOptionInvocation stdbuf_flag no_adjust argv"

definition timeout_flag :: "string \<Rightarrow> string \<Rightarrow> directive" where
  "timeout_flag flag lower =
     (if flag \<in> set TIMEOUT_FLAG_OPTIONS then Continue
      else if flag \<in> set TIMEOUT_OPTIONS_WITH_VALUE then (if CHR ''='' \<in> set lower then Continue else ConsumeNext)
      else Invalid)"

text \<open>The duration stands before the wrapped command.\<close>

definition after_duration :: "nat \<Rightarrow> string list \<Rightarrow> nat option" where
  "after_duration commandIndex argv = (if Suc commandIndex < length argv then Some (Suc commandIndex) else None)"

definition unwrapTimeoutInvocation :: "string list \<Rightarrow> string list option" where
  "unwrapTimeoutInvocation argv = unwrapDashOptionInvocation timeout_flag after_duration argv"

definition unwrapDispatchWrapper :: "string \<Rightarrow> string list option \<Rightarrow> unwrap_result" where
  "unwrapDispatchWrapper wrapper unwrapped = (case unwrapped of Some a \<Rightarrow> Unwrapped wrapper a | None \<Rightarrow> Blocked wrapper)"

definition unwrapKnownDispatchWrapperInvocation :: "string list \<Rightarrow> unwrap_result" where
  "unwrapKnownDispatchWrapperInvocation argv =
     (if opt_str (trimmed_at argv 0) = [] then NotWrapper
      else let wrapper = normalizeExecutableToken (opt_str (trimmed_at argv 0))
           in if wrapper = ''env'' then unwrapDispatchWrapper wrapper (unwrapEnvInvocation argv)
              else if wrapper = ''nice'' then unwrapDispatchWrapper wrapper (unwrapNiceInvocation argv)
              else if wrapper = ''nohup'' then unwrapDispatchWrapper wrapper (unwrapNohupInvocation argv)
              else if wrapper = ''stdbuf'' then unwrapDispatchWrapper wrapper (unwrapStdbufInvocation argv)
              else if wrapper = ''timeout'' then unwrapDispatchWrapper wrapper (unwrapTimeoutInvocation argv)
              else if wrapper \<in> set [''chrt'', ''doas'', ''ionice'', ''setsid'', ''sudo'', ''taskset''] then Blocked wrapper
              else NotWrapper)"

section \<open>The execution plan\<close>

record execution_plan =
  pn_argv :: "string list"
  pn_wrappers :: "string list"
  pn_policyBlocked :: bool
  pn_blockedWrapper :: "string option"

definition MAX_DISPATCH_WRAPPER_DEPTH :: nat where "MAX_DISPATCH_WRAPPER_DEPTH = 4"

definition isSemanticDispatchWrapperUsage :: "string \<Rightarrow> string list \<Rightarrow> bool" where
  "isSemanticDispatchWrapperUsage wrapper argv =
     (if wrapper = ''env'' then envInvocationUsesModifiers argv else wrapper \<notin> set TRANSPARENT_DISPATCH_WRAPPERS)"

definition blockedDispatchWrapperPlan :: "string list \<Rightarrow> string list \<Rightarrow> string \<Rightarrow> execution_plan" where
  "blockedDispatchWrapperPlan argv wrappers w =
     \<lparr>pn_argv = argv, pn_wrappers = wrappers, pn_policyBlocked = True, pn_blockedWrapper = Some w\<rparr>"

definition open_plan :: "string list \<Rightarrow> string list \<Rightarrow> execution_plan" where
  "open_plan argv wrappers = \<lparr>pn_argv = argv, pn_wrappers = wrappers, pn_policyBlocked = False, pn_blockedWrapper = None\<rparr>"

text \<open>After the loop: one more wrapper than the limit blocks.\<close>

definition overflow_plan :: "nat \<Rightarrow> string list \<Rightarrow> string list \<Rightarrow> execution_plan" where
  "overflow_plan maxDepth current wrappers =
     (if length wrappers \<ge> maxDepth
      then (case unwrapKnownDispatchWrapperInvocation current of
          Blocked w \<Rightarrow> blockedDispatchWrapperPlan current wrappers w
        | Unwrapped w _ \<Rightarrow> blockedDispatchWrapperPlan current wrappers w
        | NotWrapper \<Rightarrow> open_plan current wrappers)
      else open_plan current wrappers)"

text \<open>The loop with the rounds that are left.\<close>

fun plan_loop :: "nat \<Rightarrow> nat \<Rightarrow> string list \<Rightarrow> string list \<Rightarrow> execution_plan" where
  "plan_loop maxDepth 0 current wrappers = overflow_plan maxDepth current wrappers"
| "plan_loop maxDepth (Suc left) current wrappers =
     (case unwrapKnownDispatchWrapperInvocation current of
        Blocked w \<Rightarrow> blockedDispatchWrapperPlan current wrappers w
      | NotWrapper \<Rightarrow> overflow_plan maxDepth current wrappers
      | Unwrapped w inner \<Rightarrow>
          if inner = [] then overflow_plan maxDepth current wrappers
          else if isSemanticDispatchWrapperUsage w current then blockedDispatchWrapperPlan current (wrappers @ [w]) w
          else plan_loop maxDepth left inner (wrappers @ [w]))"

definition resolveDispatchWrapperExecutionPlan :: "string list \<Rightarrow> execution_plan" where
  "resolveDispatchWrapperExecutionPlan argv =
     plan_loop MAX_DISPATCH_WRAPPER_DEPTH MAX_DISPATCH_WRAPPER_DEPTH argv []"

definition unwrapDispatchWrappersForResolution :: "string list \<Rightarrow> string list" where
  "unwrapDispatchWrappersForResolution argv = pn_argv (resolveDispatchWrapperExecutionPlan argv)"

section \<open>Inline commands of shells\<close>

definition POSIX_INLINE_COMMAND_FLAGS :: "string list" where
  "POSIX_INLINE_COMMAND_FLAGS = [''-lc'', ''-c'', ''--command'']"

definition POWERSHELL_INLINE_COMMAND_FLAGS :: "string list" where
  "POWERSHELL_INLINE_COMMAND_FLAGS = [''-c'', ''-command'', ''--command'']"

text \<open>\<open>/^-[^-]*c[^-]*$/i\<close>\<close>

definition combined_c :: "string \<Rightarrow> bool" where
  "combined_c token = (js_starts_with token ''-'' \<and> CHR ''-'' \<notin> set (tl token) \<and> CHR ''c'' \<in> set (js_lower (tl token)))"

definition non_blank :: "string option \<Rightarrow> string option" where
  "non_blank s = (if opt_str s = [] then None else s)"

fun inline_by_flags :: "string list \<Rightarrow> bool \<Rightarrow> string list \<Rightarrow> string option" where
  "inline_by_flags flags allowCombinedC [] = None"
| "inline_by_flags flags allowCombinedC (t # ts) =
     (let token = js_trim t; lower = js_lower token
      in if token = [] then inline_by_flags flags allowCombinedC ts
         else if lower = ''--'' then None
         else if lower \<in> set flags then non_blank (trimmed_at ts 0)
         else if allowCombinedC \<and> combined_c token then
           let inline = js_trim (tl (dropWhile (\<lambda>c. js_lower_char c \<noteq> CHR ''c'') token))
           in if inline \<noteq> [] then Some inline else non_blank (trimmed_at ts 0)
         else inline_by_flags flags allowCombinedC ts)"

definition extractInlineCommandByFlags :: "string list \<Rightarrow> string list \<Rightarrow> bool \<Rightarrow> string option" where
  "extractInlineCommandByFlags argv flags allowCombinedC = inline_by_flags flags allowCombinedC (tl argv)"

definition extractPosixShellInlineCommand :: "string list \<Rightarrow> string option" where
  "extractPosixShellInlineCommand argv = extractInlineCommandByFlags argv POSIX_INLINE_COMMAND_FLAGS True"

definition extractPowerShellInlineCommand :: "string list \<Rightarrow> string option" where
  "extractPowerShellInlineCommand argv = extractInlineCommandByFlags argv POWERSHELL_INLINE_COMMAND_FLAGS False"

definition extractCmdInlineCommand :: "string list \<Rightarrow> string option" where
  "extractCmdInlineCommand argv =
     (case dropWhile (\<lambda>a. js_lower (js_trim a) \<notin> set [''/c'', ''/k'']) argv of
        _ # t # ts \<Rightarrow> non_blank (Some (js_trim (join_with '' '' (t # ts))))
      | _ \<Rightarrow> None)"

definition extractShellWrapperPayload :: "string list \<Rightarrow> shell_kind \<Rightarrow> string option" where
  "extractShellWrapperPayload argv k =
     (case k of Posix \<Rightarrow> extractPosixShellInlineCommand argv | Cmd \<Rightarrow> extractCmdInlineCommand argv
      | Powershell \<Rightarrow> extractPowerShellInlineCommand argv)"

text \<open>The recursions below run at most \<open>MAX_DISPATCH_WRAPPER_DEPTH\<close> deep; the argument counts down.\<close>

fun env_manipulation :: "nat \<Rightarrow> string list \<Rightarrow> bool \<Rightarrow> bool" where
  "env_manipulation 0 argv seen = False"
| "env_manipulation (Suc left) argv seen =
     (if opt_str (trimmed_at argv 0) = [] then False
      else (case unwrapKnownDispatchWrapperInvocation argv of
          Blocked _ \<Rightarrow> False
        | Unwrapped w inner \<Rightarrow> env_manipulation left inner (seen \<or> (w = ''env'' \<and> envInvocationUsesModifiers argv))
        | NotWrapper \<Rightarrow>
            (case unwrapKnownShellMultiplexerInvocation argv of
               Blocked _ \<Rightarrow> False
             | Unwrapped _ inner \<Rightarrow> env_manipulation left inner seen
             | NotWrapper \<Rightarrow>
                 (case findShellWrapperSpec (normalizeExecutableToken (opt_str (trimmed_at argv 0))) of None \<Rightarrow> False
                  | Some k \<Rightarrow> extractShellWrapperPayload argv k \<noteq> None \<and> seen))))"

definition hasEnvManipulationBeforeShellWrapper :: "string list \<Rightarrow> bool" where
  "hasEnvManipulationBeforeShellWrapper argv = env_manipulation MAX_DISPATCH_WRAPPER_DEPTH argv False"

text \<open>\<open>None\<close> says that the command is no wrapper.\<close>

fun shell_wrapper_command :: "nat \<Rightarrow> string option \<Rightarrow> string list \<Rightarrow> string option" where
  "shell_wrapper_command 0 rawCommand argv = None"
| "shell_wrapper_command (Suc left) rawCommand argv =
     (if opt_str (trimmed_at argv 0) = [] then None
      else (case unwrapKnownDispatchWrapperInvocation argv of
          Blocked _ \<Rightarrow> None
        | Unwrapped _ inner \<Rightarrow> shell_wrapper_command left rawCommand inner
        | NotWrapper \<Rightarrow>
            (case unwrapKnownShellMultiplexerInvocation argv of
               Blocked _ \<Rightarrow> None
             | Unwrapped _ inner \<Rightarrow> shell_wrapper_command left rawCommand inner
             | NotWrapper \<Rightarrow>
                 (case findShellWrapperSpec (normalizeExecutableToken (opt_str (trimmed_at argv 0))) of None \<Rightarrow> None
                  | Some k \<Rightarrow>
                      (case extractShellWrapperPayload argv k of None \<Rightarrow> None
                       | Some payload \<Rightarrow> Some (case rawCommand of Some r \<Rightarrow> r | None \<Rightarrow> payload))))))"

definition extractShellWrapperInlineCommand :: "string list \<Rightarrow> string option" where
  "extractShellWrapperInlineCommand argv = shell_wrapper_command MAX_DISPATCH_WRAPPER_DEPTH None argv"

definition extractShellWrapperCommand :: "string list \<Rightarrow> string option \<Rightarrow> string option" where
  "extractShellWrapperCommand argv rawCommand =
     shell_wrapper_command MAX_DISPATCH_WRAPPER_DEPTH (non_blank (map_option js_trim rawCommand)) argv"

section \<open>What unwrapping keeps\<close>

lemma scanWrapper_suffix:
  "scanWrapperInvocation separators onToken adjust argv = Some inner \<Longrightarrow> inner \<noteq> [] \<and> suffix inner argv"
  by (auto simp: scanWrapperInvocation_def suffix_drop split: option.splits if_splits)

lemmas unwrap_defs = unwrapEnvInvocation_def unwrapNiceInvocation_def unwrapNohupInvocation_def
  unwrapStdbufInvocation_def unwrapTimeoutInvocation_def unwrapDashOptionInvocation_def unwrapDispatchWrapper_def

lemma unwrap_dispatch:
  assumes "unwrapKnownDispatchWrapperInvocation argv = Unwrapped w inner"
  shows "inner \<noteq> [] \<and> suffix inner argv \<and> w \<in> {''env'', ''nice'', ''nohup'', ''stdbuf'', ''timeout''}"
  using assms
  by (auto simp: unwrapKnownDispatchWrapperInvocation_def Let_def unwrap_defs dest: scanWrapper_suffix split: if_splits option.splits)

lemma not_dispatch:
  assumes "unwrapKnownDispatchWrapperInvocation argv = NotWrapper" "opt_str (trimmed_at argv 0) \<noteq> []"
  shows "\<not> isDispatchWrapperExecutable (opt_str (trimmed_at argv 0))"
  using assms
  by (auto simp: unwrapKnownDispatchWrapperInvocation_def isDispatchWrapperExecutable_def DISPATCH_WRAPPER_NAMES_def
      unwrapDispatchWrapper_def Let_def split: if_splits option.splits)

text \<open>A wrapper that does not change what the wrapped command means: nice, nohup, stdbuf, timeout, plain env.\<close>

definition transparent_unwrap :: "string list \<Rightarrow> string \<Rightarrow> string list \<Rightarrow> bool" where
  "transparent_unwrap argv w inner =
     (unwrapKnownDispatchWrapperInvocation argv = Unwrapped w inner \<and> \<not> isSemanticDispatchWrapperUsage w argv)"

inductive transparent_chain :: "string list \<Rightarrow> string list \<Rightarrow> string list \<Rightarrow> bool" where
  chain_here: "transparent_chain argv [] argv"
| chain_wrapper: "transparent_unwrap argv w inner \<Longrightarrow> transparent_chain inner ws argv' \<Longrightarrow> transparent_chain argv (w # ws) argv'"

declare transparent_chain.intros [intro]

lemma chain_snoc: "transparent_chain argv ws b \<Longrightarrow> transparent_unwrap b w inner \<Longrightarrow> transparent_chain argv (ws @ [w]) inner"
  by (induction rule: transparent_chain.induct) auto

lemma chain_suffix: "transparent_chain argv ws argv' \<Longrightarrow> suffix argv' argv"
proof (induction rule: transparent_chain.induct)
  case (chain_wrapper argv w inner ws argv')
  then show ?case using unwrap_dispatch unfolding transparent_unwrap_def by (meson suffix_order.trans)
qed simp

definition plan_sound :: "string list \<Rightarrow> nat \<Rightarrow> execution_plan \<Rightarrow> bool" where
  "plan_sound argv maxDepth p =
     (suffix (pn_argv p) argv \<and>
      (pn_policyBlocked p \<or>
       transparent_chain argv (pn_wrappers p) (pn_argv p) \<and> length (pn_wrappers p) \<le> maxDepth
       \<and> unwrapKnownDispatchWrapperInvocation (pn_argv p) = NotWrapper))"

lemmas plan_defs = plan_sound_def overflow_plan_def blockedDispatchWrapperPlan_def open_plan_def

lemma plan_loop_sound:
  assumes "transparent_chain argv wrappers current" "length wrappers + left = maxDepth"
  shows "plan_sound argv maxDepth (plan_loop maxDepth left current wrappers)"
  using assms
proof (induction left arbitrary: current wrappers)
  case 0
  then show ?case using chain_suffix by (auto simp: plan_defs split: unwrap_result.splits)
next
  case (Suc left)
  show ?case
  proof (cases "unwrapKnownDispatchWrapperInvocation current")
    case NotWrapper
    with Suc.prems chain_suffix show ?thesis by (auto simp: plan_defs)
  next
    case (Blocked w)
    with Suc.prems chain_suffix show ?thesis by (auto simp: plan_defs)
  next
    case (Unwrapped w inner)
    show ?thesis
    proof (cases "isSemanticDispatchWrapperUsage w current")
      case True
      with Unwrapped Suc.prems chain_suffix unwrap_dispatch [OF Unwrapped] show ?thesis by (auto simp: plan_defs)
    next
      case False
      then have "transparent_chain argv (wrappers @ [w]) inner"
        using Suc.prems(1) Unwrapped by (intro chain_snoc) (simp_all add: transparent_unwrap_def)
      from Suc.IH [OF this] Suc.prems(2) False Unwrapped unwrap_dispatch [OF Unwrapped] show ?thesis by simp
    qed
  qed
qed

lemma resolve_plan_sound: "plan_sound argv MAX_DISPATCH_WRAPPER_DEPTH (resolveDispatchWrapperExecutionPlan argv)"
  unfolding resolveDispatchWrapperExecutionPlan_def by (rule plan_loop_sound) auto

lemma plan_argv_suffix: "suffix (pn_argv (resolveDispatchWrapperExecutionPlan argv)) argv"
  using resolve_plan_sound by (simp add: plan_sound_def)

text \<open>The plan of a command that is not blocked is what stands behind wrappers that do not change it (nice,
  nohup, stdbuf, timeout, and env without assignments or options), at most four of them, and is no dispatch
  wrapper itself: sudo, a modifying env or a fifth wrapper never reach the allowlist under another name.\<close>

theorem wrapper_plan_transparent:
  assumes "\<not> pn_policyBlocked (resolveDispatchWrapperExecutionPlan argv)"
    and "opt_str (trimmed_at (pn_argv (resolveDispatchWrapperExecutionPlan argv)) 0) \<noteq> []"
  shows "transparent_chain argv (pn_wrappers (resolveDispatchWrapperExecutionPlan argv))
           (pn_argv (resolveDispatchWrapperExecutionPlan argv))
    \<and> length (pn_wrappers (resolveDispatchWrapperExecutionPlan argv)) \<le> 4
    \<and> \<not> isDispatchWrapperExecutable (opt_str (trimmed_at (pn_argv (resolveDispatchWrapperExecutionPlan argv)) 0))"
  using resolve_plan_sound [of argv] assms not_dispatch
  by (simp add: plan_sound_def MAX_DISPATCH_WRAPPER_DEPTH_def)

definition wrapped_command :: "string list" where
  "wrapped_command = [''/usr/bin/nice'', ''-n'', ''5'', ''env'', ''timeout'', ''-k'', ''3s'', ''10'', ''ls'', ''-l'']"

theorem wrapper_plan_transparent_witness:
  "resolveDispatchWrapperExecutionPlan wrapped_command
     = \<lparr>pn_argv = [''ls'', ''-l''], pn_wrappers = [''nice'', ''env'', ''timeout''], pn_policyBlocked = False, pn_blockedWrapper = None\<rparr>
   \<and> transparent_chain wrapped_command [''nice'', ''env'', ''timeout''] [''ls'', ''-l'']
   \<and> length [''nice'', ''env'', ''timeout''] \<le> 4 \<and> \<not> isDispatchWrapperExecutable ''ls''"
proof -
  have p: "resolveDispatchWrapperExecutionPlan wrapped_command
     = \<lparr>pn_argv = [''ls'', ''-l''], pn_wrappers = [''nice'', ''env'', ''timeout''], pn_policyBlocked = False, pn_blockedWrapper = None\<rparr>"
    by code_simp
  have t: "opt_str (trimmed_at [''ls'', ''-l''] 0) = ''ls''" by code_simp
  from wrapper_plan_transparent [of wrapped_command] show ?thesis unfolding p by (simp add: t)
qed

end
