(* ===== verification/ExecResolution.thy ===== *)
theory ExecResolution
  imports ExecWrappers
begin

text \<open>
  Which file a command runs and whether an allowlist names it, \<open>src/infra/exec-command-resolution.ts\<close>.

  The machine is a record: whether it is Windows, the functions of Node's \<open>path\<close> on it, the files
  (\<open>isExecutableFile\<close>, \<open>realpath\<close>), the current directory, the home directory
  (\<open>resolveEffectiveHomeDir\<close> of \<open>src/infra/home-dir.ts\<close> on its environment) and the process
  environment. A regular expression whose source has operators other than those the pattern
  language makes is left to \<open>regexp_test\<close>: \<open>None\<close> when \<open>new RegExp\<close> throws a \<open>SyntaxError\<close>.
\<close>

section \<open>The machine\<close>

record exec_env =
  env_PATH :: "string option"
  env_Path :: "string option"
  env_PATHEXT :: "string option"
  env_Pathext :: "string option"

record exec_host =
  is_win32 :: bool
  isExecutableFile :: "string \<Rightarrow> bool"
  tryRealpath :: "string \<Rightarrow> string option"
  path_isAbsolute :: "string \<Rightarrow> bool"
  path_resolve :: "string \<Rightarrow> string \<Rightarrow> string"
  path_join :: "string \<Rightarrow> string \<Rightarrow> string"
  path_basename :: "string \<Rightarrow> string"
  path_dirname :: "string \<Rightarrow> string"
  path_extname :: "string \<Rightarrow> string"
  path_delimiter :: char
  process_cwd :: string
  home_dir :: "string option"
  process_env :: exec_env
  regexp_test :: "string \<Rightarrow> string \<Rightarrow> bool option"

definition has_path_sep :: "string \<Rightarrow> bool" where
  "has_path_sep s = (CHR ''/'' \<in> set s \<or> backslash \<in> set s)"

text \<open>\<open>input.replace(/^~(?=$|[\\/])/, home)\<close> where the home directory is known\<close>

definition expandHomePrefix :: "exec_host \<Rightarrow> string \<Rightarrow> string" where
  "expandHomePrefix H input =
     (case (input, home_dir H) of
        (c # rest, Some home) \<Rightarrow>
          if c = CHR ''~'' \<and> (rest = [] \<or> win_sep (hd rest)) then home @ rest else input
      | _ \<Rightarrow> input)"

section \<open>Resolution\<close>

record command_resolution =
  cr_rawExecutable :: string
  cr_resolvedPath :: "string option"
  cr_executableName :: string
  cr_effectiveArgv :: "string list"
  cr_wrapperChain :: "string list"
  cr_policyBlocked :: bool
  cr_blockedWrapper :: "string option"

definition DEFAULT_SAFE_BINS :: "string list" where
  "DEFAULT_SAFE_BINS = [''jq'', ''cut'', ''uniq'', ''head'', ''tail'', ''tr'', ''wc'']"

definition parseFirstToken :: "string \<Rightarrow> string option" where
  "parseFirstToken command =
     (case js_trim command of [] \<Rightarrow> None
      | first # rest \<Rightarrow>
          if first = CHR 0x22 \<or> first = CHR 0x27 then
            let inner = takeWhile (\<lambda>c. c \<noteq> first) rest
            in if inner \<noteq> [] \<and> length inner < length rest then Some inner else Some rest
          else Some (takeWhile (\<lambda>c. \<not> js_space c) (first # rest)))"

text \<open>\<open>s.split(d)\<close> on one character\<close>

fun split_char :: "char \<Rightarrow> string \<Rightarrow> string list" where
  "split_char d [] = [[]]"
| "split_char d (c # cs) =
     (if c = d then [] # split_char d cs
      else (case split_char d cs of [] \<Rightarrow> [[c]] | p # ps \<Rightarrow> (c # p) # ps))"

definition first_some :: "'a option list \<Rightarrow> 'a option" where
  "first_some xs = (case find (\<lambda>x. x \<noteq> None) xs of Some x \<Rightarrow> x | None \<Rightarrow> None)"

definition base_dir :: "exec_host \<Rightarrow> string option \<Rightarrow> string" where
  "base_dir H cwd = (if js_trim (opt_str cwd) \<noteq> [] then js_trim (opt_str cwd) else process_cwd H)"

definition path_extensions :: "exec_host \<Rightarrow> exec_env option \<Rightarrow> string \<Rightarrow> string list" where
  "path_extensions H env expanded =
     (if \<not> is_win32 H then [[]]
      else if path_extname H expanded \<noteq> [] then [[]]
      else map js_lower (split_char (CHR '';'') (case first_some
             [Option.bind env env_PATHEXT, Option.bind env env_Pathext, env_PATHEXT (process_env H), env_Pathext (process_env H)]
           of Some e \<Rightarrow> e | None \<Rightarrow> ''.EXE;.CMD;.BAT;.COM'')))"

definition resolveExecutablePath :: "exec_host \<Rightarrow> string option \<Rightarrow> exec_env option \<Rightarrow> string \<Rightarrow> string option" where
  "resolveExecutablePath H cwd env rawExecutable =
     (let expanded = expandHomePrefix H rawExecutable in
      if has_path_sep expanded then
        (if path_isAbsolute H expanded then (if isExecutableFile H expanded then Some expanded else None)
         else let candidate = path_resolve H (base_dir H cwd) expanded
              in if isExecutableFile H candidate then Some candidate else None)
      else
        let envPath = opt_str (first_some [Option.bind env env_PATH, Option.bind env env_Path,
                                 env_PATH (process_env H), env_Path (process_env H)]);
            entries = filter (\<lambda>e. e \<noteq> []) (split_char (path_delimiter H) envPath)
        in find (isExecutableFile H)
             (concat (map (\<lambda>entry. map (\<lambda>ext. path_join H entry (expanded @ ext)) (path_extensions H env expanded)) entries)))"

definition resolveCommandResolution ::
  "exec_host \<Rightarrow> string option \<Rightarrow> exec_env option \<Rightarrow> string \<Rightarrow> command_resolution option" where
  "resolveCommandResolution H cwd env command =
     (case parseFirstToken command of None \<Rightarrow> None
      | Some raw \<Rightarrow>
          if raw = [] then None
          else let resolved = resolveExecutablePath H cwd env raw
               in Some \<lparr>cr_rawExecutable = raw, cr_resolvedPath = resolved,
                    cr_executableName = (case resolved of Some p \<Rightarrow> if p = [] then raw else path_basename H p | None \<Rightarrow> raw),
                    cr_effectiveArgv = [raw], cr_wrapperChain = [], cr_policyBlocked = False, cr_blockedWrapper = None\<rparr>)"

definition resolveCommandResolutionFromArgv ::
  "exec_host \<Rightarrow> string option \<Rightarrow> exec_env option \<Rightarrow> string list \<Rightarrow> command_resolution option" where
  "resolveCommandResolutionFromArgv H cwd env argv =
     (let plan = resolveDispatchWrapperExecutionPlan argv;
          raw = opt_str (trimmed_at (pn_argv plan) 0)
      in if raw = [] then None
         else let resolved = resolveExecutablePath H cwd env raw
              in Some \<lparr>cr_rawExecutable = raw, cr_resolvedPath = resolved,
                   cr_executableName = (case resolved of Some p \<Rightarrow> if p = [] then raw else path_basename H p | None \<Rightarrow> raw),
                   cr_effectiveArgv = pn_argv plan, cr_wrapperChain = pn_wrappers plan,
                   cr_policyBlocked = pn_policyBlocked plan, cr_blockedWrapper = pn_blockedWrapper plan\<rparr>)"

section \<open>Allowlist patterns\<close>

text \<open>\<open>value.replace(/\\\\/g, "/")\<close> with two backslashes, and with one on Windows\<close>

fun replace_double_backslash :: "string \<Rightarrow> string" where
  "replace_double_backslash (c # d # cs) =
     (if c = backslash \<and> d = backslash then CHR ''/'' # replace_double_backslash cs
      else c # replace_double_backslash (d # cs))"
| "replace_double_backslash cs = cs"

definition normalizeMatchTarget :: "exec_host \<Rightarrow> string \<Rightarrow> string" where
  "normalizeMatchTarget H v =
     (if is_win32 H
      then let stripped = (case v of a # b # c # d # rest \<Rightarrow>
                 if a = backslash \<and> b = backslash \<and> (c = CHR ''?'' \<or> c = CHR ''.'') \<and> d = backslash then rest else v
               | _ \<Rightarrow> v)
           in js_lower (map (\<lambda>c. if c = backslash then CHR ''/'' else c) stripped)
      else js_lower (replace_double_backslash v))"

text \<open>
  The source of the expression made of a pattern. The replacement that should escape the other
  characters matches texts of four characters only, so a single character is taken as it is.
\<close>

fun glob_source :: "string \<Rightarrow> string" where
  "glob_source (c # cs) =
     (if c = CHR ''*'' then
        (case cs of d # ds \<Rightarrow> if d = CHR ''*'' then ''.*'' @ glob_source ds else ''[^/]*'' @ glob_source cs
         | [] \<Rightarrow> ''[^/]*'')
      else if c = CHR ''?'' then CHR ''.'' # glob_source cs
      else c # glob_source cs)"
| "glob_source [] = []"

definition globToRegExp :: "string \<Rightarrow> string" where
  "globToRegExp pattern = ''^'' @ glob_source pattern @ ''$''"

text \<open>The expression, where the pattern has no other operators than the dot.\<close>

datatype rx = RxLit char | RxAny | RxLine | RxSegment

fun glob_items :: "string \<Rightarrow> rx list" where
  "glob_items (c # cs) =
     (if c = CHR ''*'' then
        (case cs of d # ds \<Rightarrow> if d = CHR ''*'' then RxLine # glob_items ds else RxSegment # glob_items cs
         | [] \<Rightarrow> [RxSegment])
      else if c = CHR ''?'' \<or> c = CHR ''.'' then RxAny # glob_items cs
      else RxLit c # glob_items cs)"
| "glob_items [] = []"

definition regex_operator :: "char \<Rightarrow> bool" where
  "regex_operator c = (c \<in> set ''+^${}()|[]'' \<or> c = backslash)"

definition line_terminator :: "char \<Rightarrow> bool" where
  "line_terminator c = (let n = of_char c :: nat in n = 10 \<or> n = 13)"

fun rx_match :: "rx list \<Rightarrow> string \<Rightarrow> bool" where
  "rx_match [] s = (s = [])"
| "rx_match (RxLit c # r) [] = False"
| "rx_match (RxLit c # r) (d # s) = (c = d \<and> rx_match r s)"
| "rx_match (RxAny # r) [] = False"
| "rx_match (RxAny # r) (d # s) = (\<not> line_terminator d \<and> rx_match r s)"
| "rx_match (RxLine # r) [] = rx_match r []"
| "rx_match (RxLine # r) (d # s) = (rx_match r (d # s) \<or> (\<not> line_terminator d \<and> rx_match (RxLine # r) s))"
| "rx_match (RxSegment # r) [] = rx_match r []"
| "rx_match (RxSegment # r) (d # s) = (rx_match r (d # s) \<or> (d \<noteq> CHR ''/'' \<and> rx_match (RxSegment # r) s))"

definition regex_matches :: "exec_host \<Rightarrow> string \<Rightarrow> string \<Rightarrow> bool result" where
  "regex_matches H pattern target =
     (if list_ex regex_operator pattern
      then (case regexp_test H (globToRegExp pattern) target of
          None \<Rightarrow> Inl (Error ''Invalid regular expression'') | Some b \<Rightarrow> Inr b)
      else Inr (rx_match (glob_items pattern) target))"

definition matchesPattern :: "exec_host \<Rightarrow> string \<Rightarrow> string \<Rightarrow> bool result" where
  "matchesPattern H pattern target =
     (let trimmed = js_trim pattern in
      if trimmed = [] then Inr False
      else let expanded = expandHomePrefix H trimmed;
               hasWildcard = list_ex (\<lambda>c. c = CHR ''*'' \<or> c = CHR ''?'') expanded;
               real = (\<lambda>p. case tryRealpath H p of Some r \<Rightarrow> r | None \<Rightarrow> p);
               p0 = (if is_win32 H \<and> \<not> hasWildcard then real expanded else expanded);
               t0 = (if is_win32 H \<and> \<not> hasWildcard then real target else target)
           in regex_matches H (normalizeMatchTarget H p0) (normalizeMatchTarget H t0))"

definition resolveAllowlistCandidatePath :: "exec_host \<Rightarrow> command_resolution option \<Rightarrow> string option \<Rightarrow> string option" where
  "resolveAllowlistCandidatePath H resolution cwd =
     (case resolution of None \<Rightarrow> None
      | Some r \<Rightarrow>
          if opt_str (cr_resolvedPath r) \<noteq> [] then cr_resolvedPath r
          else let raw = js_trim (cr_rawExecutable r); expanded = expandHomePrefix H raw
               in if raw = [] \<or> \<not> has_path_sep expanded then None
                  else if path_isAbsolute H expanded then Some expanded
                  else Some (path_resolve H (base_dir H cwd) expanded))"

record allowlist_entry =
  ae_id :: "string option"
  ae_pattern :: string
  ae_lastUsedAt :: "int option"
  ae_lastUsedCommand :: "string option"
  ae_lastResolvedPath :: "string option"

text \<open>The loop over the entries: the first whose pattern names a path and matches.\<close>

fun first_matching :: "exec_host \<Rightarrow> string \<Rightarrow> allowlist_entry list \<Rightarrow> allowlist_entry option result" where
  "first_matching H target [] = Inr None"
| "first_matching H target (e # es) =
     (let pattern = js_trim (ae_pattern e) in
      if pattern = [] \<or> \<not> (has_path_sep pattern \<or> CHR ''~'' \<in> set pattern) then first_matching H target es
      else (case matchesPattern H pattern target of Inl err \<Rightarrow> Inl err
            | Inr b \<Rightarrow> if b then Inr (Some e) else first_matching H target es))"

definition bare_wildcard :: "allowlist_entry \<Rightarrow> bool" where
  "bare_wildcard e = (js_trim (ae_pattern e) = ''*'')"

definition matchAllowlist ::
  "exec_host \<Rightarrow> allowlist_entry list \<Rightarrow> command_resolution option \<Rightarrow> allowlist_entry option result" where
  "matchAllowlist H entries resolution =
     (case (find bare_wildcard entries, resolution) of
        (Some e, Some _) \<Rightarrow> Inr (Some e)
      | (_, None) \<Rightarrow> Inr None
      | (None, Some r) \<Rightarrow>
          (case cr_resolvedPath r of None \<Rightarrow> Inr None
           | Some p \<Rightarrow> if p = [] then Inr None else first_matching H p entries))"

section \<open>Options of a command\<close>

datatype argv_token =
    TEmpty string
  | TTerminator string
  | TStdin string
  | TPositional string
  | TLong string string "string option"
  | TCluster string string "string list"

definition parseExecArgvToken :: "string \<Rightarrow> argv_token" where
  "parseExecArgvToken raw =
     (if raw = [] then TEmpty raw
      else if raw = ''--'' then TTerminator raw
      else if raw = ''-'' then TStdin raw
      else if \<not> js_starts_with raw ''-'' then TPositional raw
      else if js_starts_with raw ''--'' then
        let flag = takeWhile (\<lambda>c. c \<noteq> CHR ''='') raw
        in if length flag < length raw then TLong raw flag (Some (drop (Suc (length flag)) raw)) else TLong raw raw None
      else TCluster raw (tl raw) (map (\<lambda>c. [CHR ''-'', c]) (tl raw)))"

end
