(* ===== verification/ShellAnalysis.thy ===== *)
theory ShellAnalysis
  imports ShellArgs ExecResolution
begin

text \<open>
  How a shell command is taken apart before it is compared with the allowlist, and put together again
  with quoted arguments: \<open>src/infra/exec-approvals-analysis.ts\<close>.

  Each scanner is a loop over the characters that are left: one step takes a character and the rest
  and gives the new state and the rest to go on with, or the reason to refuse the command.
\<close>

section \<open>Pipelines\<close>

record heredoc =
  hd_delimiter :: string
  hd_stripTabs :: bool
  hd_quoted :: bool

record pipeline_scan =
  sp_segments :: "string list"
  sp_buf :: string
  sp_quote :: quote
  sp_escaped :: bool
  sp_emptySegment :: bool
  sp_pending :: "heredoc list"
  sp_inBody :: bool
  sp_line :: string

definition scan_start :: pipeline_scan where
  "scan_start = \<lparr>sp_segments = [], sp_buf = [], sp_quote = Unquoted, sp_escaped = False, sp_emptySegment = False,
     sp_pending = [], sp_inBody = False, sp_line = []\<rparr>"

text \<open>Here a backslash escapes fewer characters between double quotes than in \<open>shell-argv.ts\<close>.\<close>

definition ANALYSIS_QUOTE_ESCAPES :: "char list" where
  "ANALYSIS_QUOTE_ESCAPES = [bslash, dquote, CHR ''$'', CHR 0x60]"

definition backtick :: char where "backtick = CHR 0x60"

definition DISALLOWED_PIPELINE_TOKENS :: "char list" where
  "DISALLOWED_PIPELINE_TOKENS = [CHR ''>'', CHR ''<'', backtick, newline, carriage, CHR ''('', CHR '')'']"

definition push_part :: "pipeline_scan \<Rightarrow> pipeline_scan" where
  "push_part st =
     (let trimmed = js_trim (sp_buf st)
      in st\<lparr>sp_segments := (if trimmed = [] then sp_segments st else sp_segments st @ [trimmed]), sp_buf := []\<rparr>)"

definition keep :: "string \<Rightarrow> pipeline_scan \<Rightarrow> pipeline_scan" where
  "keep t st = st\<lparr>sp_buf := sp_buf st @ t, sp_emptySegment := False\<rparr>"

subsection \<open>Here-documents\<close>

text \<open>The delimiter between quotes: its text and how many characters it takes with the closing quote.\<close>

fun quoted_delimiter :: "char \<Rightarrow> string \<Rightarrow> (string \<times> nat) option" where
  "quoted_delimiter q [] = None"
| "quoted_delimiter q (c # cs) =
     (if line_break c then None
      else (case cs of d # ds \<Rightarrow>
            if q = dquote \<and> c = bslash then map_option (\<lambda>(t, n). (d # t, n + 2)) (quoted_delimiter q ds)
            else if c = q then Some ([], 1)
            else map_option (\<lambda>(t, n). (c # t, n + 1)) (quoted_delimiter q cs)
          | [] \<Rightarrow> if c = q then Some ([], 1) else None))"

definition delimiter_char :: "char \<Rightarrow> bool" where
  "delimiter_char c = (\<not> js_space c \<and> c \<notin> set ''|&;<>'')"

text \<open>The delimiter at the head of a text: its text, the characters it takes and whether it is quoted.\<close>

definition parseHeredocDelimiter :: "string \<Rightarrow> (string \<times> nat \<times> bool) option" where
  "parseHeredocDelimiter source =
     (let blanks = takeWhile (\<lambda>c. c = CHR '' '' \<or> c = CHR 0x09) source; s = drop (length blanks) source
      in case s of [] \<Rightarrow> None
         | first # rest \<Rightarrow>
             if first = squote \<or> first = dquote
             then map_option (\<lambda>(t, n). (t, length blanks + 1 + n, True)) (quoted_delimiter first rest)
             else let word = takeWhile delimiter_char s
                  in if word = [] then None else Some (word, length blanks + length word, False))"

text \<open>\<open>isEscapedInHeredocLine\<close>: an odd number of backslashes just before.\<close>

definition odd_backslashes :: "string \<Rightarrow> bool" where
  "odd_backslashes earlier = odd (length (takeWhile (\<lambda>c. c = bslash) (rev earlier)))"

fun expansion_from :: "string \<Rightarrow> string \<Rightarrow> bool" where
  "expansion_from earlier [] = False"
| "expansion_from earlier (c # cs) =
     (if c = backtick \<and> \<not> odd_backslashes earlier then True
      else if c = CHR ''$'' \<and> \<not> odd_backslashes earlier \<and> cs \<noteq> [] \<and> (hd cs = CHR ''('' \<or> hd cs = CHR ''{'') then True
      else expansion_from (earlier @ [c]) cs)"

definition hasUnquotedHeredocExpansionToken :: "string \<Rightarrow> bool" where
  "hasUnquotedHeredocExpansionToken line = expansion_from [] line"

definition heredoc_line :: "heredoc \<Rightarrow> string \<Rightarrow> string" where
  "heredoc_line h line = (if hd_stripTabs h then dropWhile (\<lambda>c. c = CHR 0x09) line else line)"

definition skip_newline :: "char \<Rightarrow> string \<Rightarrow> string" where
  "skip_newline c rest = (if c = carriage \<and> rest \<noteq> [] \<and> hd rest = newline then tl rest else rest)"

type_synonym scan_result = "string + (pipeline_scan \<times> string)"

definition body_step :: "pipeline_scan \<Rightarrow> char \<Rightarrow> string \<Rightarrow> scan_result" where
  "body_step st c rest =
     (if line_break c then
        (case sp_pending st of
           [] \<Rightarrow> Inr (st\<lparr>sp_line := [], sp_inBody := False\<rparr>, skip_newline c rest)
         | h # others \<Rightarrow>
             if heredoc_line h (sp_line st) = hd_delimiter h
             then Inr (st\<lparr>sp_pending := others, sp_line := [], sp_inBody := others \<noteq> []\<rparr>, skip_newline c rest)
             else if \<not> hd_quoted h \<and> hasUnquotedHeredocExpansionToken (sp_line st)
             then Inl ''command substitution in unquoted heredoc''
             else Inr (st\<lparr>sp_line := []\<rparr>, skip_newline c rest))
      else Inr (st\<lparr>sp_line := sp_line st @ [c]\<rparr>, rest))"

subsection \<open>The scan\<close>

definition double_step :: "pipeline_scan \<Rightarrow> char \<Rightarrow> string \<Rightarrow> scan_result" where
  "double_step st c rest =
     (let next = (case rest of [] \<Rightarrow> None | n # _ \<Rightarrow> Some n) in
      if c = bslash \<and> next \<noteq> None \<and> line_break (the next) then Inl ''unsupported shell token: newline''
      else if c = bslash \<and> next \<noteq> None \<and> the next \<in> set ANALYSIS_QUOTE_ESCAPES
      then Inr (keep [c, the next] st, tl rest)
      else if c = CHR ''$'' \<and> next = Some (CHR ''('') then Inl ''unsupported shell token: $()''
      else if c = backtick then Inl (''unsupported shell token: '' @ [backtick])
      else if line_break c then Inl ''unsupported shell token: newline''
      else Inr (keep [c] (if c = dquote then st\<lparr>sp_quote := Unquoted\<rparr> else st), rest))"

text \<open>After \<open><<\<close>; \<open>rest\<close> is what follows.\<close>

definition heredoc_step :: "pipeline_scan \<Rightarrow> string \<Rightarrow> pipeline_scan \<times> string" where
  "heredoc_step st rest =
     (let st1 = keep ''<<'' st; strip = (rest \<noteq> [] \<and> hd rest = CHR ''-'');
          st2 = (if strip then keep ''-'' st1 else st1);
          after = (if strip then tl rest else rest)
      in case parseHeredocDelimiter after of
           None \<Rightarrow> (st2, rest)
         | Some (delimiter, n, quoted) \<Rightarrow>
             (keep (take n after)
                (st2\<lparr>sp_pending := sp_pending st2 @ [\<lparr>hd_delimiter = delimiter, hd_stripTabs = strip, hd_quoted = quoted\<rparr>]\<rparr>),
              drop n after))"

definition plain_step_char :: "pipeline_scan \<Rightarrow> char \<Rightarrow> string \<Rightarrow> scan_result" where
  "plain_step_char st c rest =
     (let next = (case rest of [] \<Rightarrow> None | n # _ \<Rightarrow> Some n) in
      if c = squote then Inr (keep [c] (st\<lparr>sp_quote := InSingle\<rparr>), rest)
      else if c = dquote then Inr (keep [c] (st\<lparr>sp_quote := InDouble\<rparr>), rest)
      else if line_break c \<and> sp_pending st \<noteq> [] then Inr (st\<lparr>sp_inBody := True, sp_line := []\<rparr>, skip_newline c rest)
      else if c = CHR ''|'' \<and> next = Some (CHR ''|'') then Inl ''unsupported shell token: ||''
      else if c = CHR ''|'' \<and> next = Some (CHR ''&'') then Inl ''unsupported shell token: |&''
      else if c = CHR ''|'' then Inr (push_part (st\<lparr>sp_emptySegment := True\<rparr>), rest)
      else if c = CHR ''&'' \<or> c = CHR '';'' then Inl (''unsupported shell token: '' @ [c])
      else if c = CHR ''<'' \<and> next = Some (CHR ''<'') then Inr (heredoc_step st (tl rest))
      else if c \<in> set DISALLOWED_PIPELINE_TOKENS then Inl (''unsupported shell token: '' @ [c])
      else if c = CHR ''$'' \<and> next = Some (CHR ''('') then Inl ''unsupported shell token: $()''
      else Inr (keep [c] st, rest))"

definition pipeline_char :: "pipeline_scan \<Rightarrow> char \<Rightarrow> string \<Rightarrow> scan_result" where
  "pipeline_char st c rest =
     (if sp_inBody st then body_step st c rest
      else if sp_escaped st then Inr (keep [c] (st\<lparr>sp_escaped := False\<rparr>), rest)
      else if sp_quote st = Unquoted \<and> c = bslash then Inr (keep [c] (st\<lparr>sp_escaped := True\<rparr>), rest)
      else if sp_quote st = InSingle
      then Inr (keep [c] (if c = squote then st\<lparr>sp_quote := Unquoted\<rparr> else st), rest)
      else if sp_quote st = InDouble then double_step st c rest
      else plain_step_char st c rest)"

lemma length_skip_newline: "length (skip_newline c rest) \<le> length rest"
  by (simp add: skip_newline_def)

lemma heredoc_step_rest: "length (snd (heredoc_step st rest)) \<le> length rest"
  by (auto simp: heredoc_step_def Let_def split: option.splits)

lemma body_step_rest: "body_step st c rest = Inr (st', rest') \<Longrightarrow> length rest' \<le> length rest"
  by (auto simp: body_step_def length_skip_newline split: if_splits list.splits)

lemma double_step_rest: "double_step st c rest = Inr (st', rest') \<Longrightarrow> length rest' \<le> length rest"
  by (auto simp: double_step_def Let_def split: if_splits)

lemma plain_step_rest: "plain_step_char st c rest = Inr (st', rest') \<Longrightarrow> length rest' \<le> length rest"
  using heredoc_step_rest [of st "tl rest"] length_skip_newline [of c rest]
  by (auto simp: plain_step_char_def Let_def split: if_splits)

lemma pipeline_char_rest: "pipeline_char st c rest = Inr (st', rest') \<Longrightarrow> length rest' \<le> length rest"
  unfolding pipeline_char_def
  by (auto split: if_splits dest: body_step_rest double_step_rest plain_step_rest)

function scan_pipeline :: "pipeline_scan \<Rightarrow> string \<Rightarrow> string + pipeline_scan" where
  "scan_pipeline st [] = Inr st"
| "scan_pipeline st (c # rest) =
     (case pipeline_char st c rest of Inl e \<Rightarrow> Inl e | Inr (st', rest') \<Rightarrow> scan_pipeline st' rest')"
  by pat_completeness auto

termination
  by (relation "measure (\<lambda>(st, s). length s)") (auto dest: pipeline_char_rest simp: less_Suc_eq_le)

text \<open>The last line of a here-document may end the command.\<close>

definition last_heredoc :: "pipeline_scan \<Rightarrow> pipeline_scan" where
  "last_heredoc st =
     (case sp_pending st of [] \<Rightarrow> st
      | h # others \<Rightarrow>
          if sp_inBody st \<and> heredoc_line h (sp_line st) = hd_delimiter h
          then st\<lparr>sp_pending := others, sp_inBody := (if others = [] then False else sp_inBody st)\<rparr> else st)"

definition splitShellPipeline :: "string \<Rightarrow> string + string list" where
  "splitShellPipeline command =
     (case scan_pipeline scan_start command of
        Inl e \<Rightarrow> Inl e
      | Inr st0 \<Rightarrow>
          let st = last_heredoc st0
          in if sp_pending st \<noteq> [] \<or> sp_inBody st then Inl ''unterminated heredoc''
             else if sp_escaped st \<or> sp_quote st \<noteq> Unquoted then Inl ''unterminated shell quote/escape''
             else let segments = sp_segments (push_part st)
                  in if segments = [] then Inl ''empty command''
                     else if sp_emptySegment st then Inl ''empty pipeline segment''
                     else Inr segments)"

section \<open>Chains\<close>

datatype chain_op = AndThen | OrElse | Semi

record chain_scan =
  sc_parts :: "(string \<times> chain_op option) list"
  sc_buf :: string
  sc_quote :: quote
  sc_escaped :: bool
  sc_foundChain :: bool
  sc_invalidChain :: bool

definition chain_start :: chain_scan where
  "chain_start = \<lparr>sc_parts = [], sc_buf = [], sc_quote = Unquoted, sc_escaped = False, sc_foundChain = False,
     sc_invalidChain = False\<rparr>"

definition chain_keep :: "string \<Rightarrow> chain_scan \<Rightarrow> chain_scan" where
  "chain_keep t st = st\<lparr>sc_buf := sc_buf st @ t\<rparr>"

definition chain_push :: "chain_op \<Rightarrow> chain_scan \<Rightarrow> chain_scan" where
  "chain_push op st =
     (let trimmed = js_trim (sc_buf st); st' = st\<lparr>sc_buf := [], sc_foundChain := True\<rparr>
      in if trimmed = [] then st'\<lparr>sc_invalidChain := True\<rparr>
         else st'\<lparr>sc_parts := sc_parts st @ [(trimmed, Some op)]\<rparr>)"

text \<open>\<open>None\<close> is the \<open>break\<close> on an escaped line end between double quotes.\<close>

definition chain_char :: "chain_scan \<Rightarrow> char \<Rightarrow> string \<Rightarrow> (chain_scan \<times> string) option" where
  "chain_char st c rest =
     (let next = (case rest of [] \<Rightarrow> None | n # _ \<Rightarrow> Some n) in
      if sc_escaped st then Some (chain_keep [c] (st\<lparr>sc_escaped := False\<rparr>), rest)
      else if sc_quote st = Unquoted \<and> c = bslash then Some (chain_keep [c] (st\<lparr>sc_escaped := True\<rparr>), rest)
      else if sc_quote st = InSingle
      then Some (chain_keep [c] (if c = squote then st\<lparr>sc_quote := Unquoted\<rparr> else st), rest)
      else if sc_quote st = InDouble then
        (if c = bslash \<and> next \<noteq> None \<and> line_break (the next) then None
         else if c = bslash \<and> next \<noteq> None \<and> the next \<in> set ANALYSIS_QUOTE_ESCAPES
         then Some (chain_keep [c, the next] st, tl rest)
         else Some (chain_keep [c] (if c = dquote then st\<lparr>sc_quote := Unquoted\<rparr> else st), rest))
      else if c = squote then Some (chain_keep [c] (st\<lparr>sc_quote := InSingle\<rparr>), rest)
      else if c = dquote then Some (chain_keep [c] (st\<lparr>sc_quote := InDouble\<rparr>), rest)
      else if c = CHR ''&'' \<and> next = Some (CHR ''&'') then Some (chain_push AndThen st, tl rest)
      else if c = CHR ''|'' \<and> next = Some (CHR ''|'') then Some (chain_push OrElse st, tl rest)
      else if c = CHR '';'' then Some (chain_push Semi st, rest)
      else Some (chain_keep [c] st, rest))"

lemma chain_char_rest: "chain_char st c rest = Some (st', rest') \<Longrightarrow> length rest' \<le> length rest"
  by (auto simp: chain_char_def Let_def split: if_splits)

function scan_chain :: "chain_scan \<Rightarrow> string \<Rightarrow> chain_scan" where
  "scan_chain st [] = st"
| "scan_chain st (c # rest) =
     (case chain_char st c rest of None \<Rightarrow> st\<lparr>sc_invalidChain := True\<rparr> | Some (st', rest') \<Rightarrow> scan_chain st' rest')"
  by pat_completeness auto

termination
  by (relation "measure (\<lambda>(st, s). length s)") (auto dest: chain_char_rest simp: less_Suc_eq_le)

definition splitCommandChainWithOperators :: "string \<Rightarrow> (string \<times> chain_op option) list option" where
  "splitCommandChainWithOperators command =
     (let st = scan_chain chain_start command; trimmed = js_trim (sc_buf st)
      in if \<not> sc_foundChain st \<or> trimmed = [] \<or> sc_invalidChain st then None
         else Some (sc_parts st @ [(trimmed, None)]))"

definition splitCommandChain :: "string \<Rightarrow> string list option" where
  "splitCommandChain command = map_option (map fst) (splitCommandChainWithOperators command)"

section \<open>Windows\<close>

definition isWindowsPlatform :: "string option \<Rightarrow> bool" where
  "isWindowsPlatform platform = js_starts_with (js_lower (js_trim (opt_str platform))) ''win''"

definition WINDOWS_UNSUPPORTED_TOKENS :: "char list" where
  "WINDOWS_UNSUPPORTED_TOKENS = ''&|<>^()%!'' @ [newline, carriage]"

definition findWindowsUnsupportedToken :: "string \<Rightarrow> string option" where
  "findWindowsUnsupportedToken command =
     map_option (\<lambda>c. if line_break c then ''newline'' else [c])
       (find (\<lambda>c. c \<in> set WINDOWS_UNSUPPORTED_TOKENS) command)"

fun windows_tokens :: "string list \<Rightarrow> string \<Rightarrow> bool \<Rightarrow> string \<Rightarrow> string list option" where
  "windows_tokens tokens buf inDouble [] = (if inDouble then None else Some (push_token tokens buf))"
| "windows_tokens tokens buf inDouble (c # cs) =
     (if c = dquote then windows_tokens tokens buf (\<not> inDouble) cs
      else if \<not> inDouble \<and> js_space c then windows_tokens (push_token tokens buf) [] inDouble cs
      else windows_tokens tokens (buf @ [c]) inDouble cs)"

definition tokenizeWindowsSegment :: "string \<Rightarrow> string list option" where
  "tokenizeWindowsSegment segment =
     (case windows_tokens [] [] False segment of Some (t # ts) \<Rightarrow> Some (t # ts) | _ \<Rightarrow> None)"

section \<open>The analysis\<close>

record segment =
  sg_raw :: string
  sg_argv :: "string list"
  sg_resolution :: "command_resolution option"

text \<open>An analysis that is not ok has a reason and no segments.\<close>

record analysis =
  an_segments :: "segment list"
  an_chains :: "segment list list option"

type_synonym resolver = "string list \<Rightarrow> command_resolution option"

definition the_segment :: "resolver \<Rightarrow> string \<Rightarrow> string list \<Rightarrow> segment" where
  "the_segment resolve raw argv = \<lparr>sg_raw = raw, sg_argv = argv, sg_resolution = resolve argv\<rparr>"

fun parseSegmentsFromParts :: "resolver \<Rightarrow> string list \<Rightarrow> segment list option" where
  "parseSegmentsFromParts resolve [] = Some []"
| "parseSegmentsFromParts resolve (raw # parts) =
     (case splitShellArgs raw of None \<Rightarrow> None
      | Some argv \<Rightarrow>
          if argv = [] then None
          else map_option (\<lambda>ss. the_segment resolve raw argv # ss) (parseSegmentsFromParts resolve parts))"

definition analyzeWindowsShellCommand :: "resolver \<Rightarrow> string \<Rightarrow> string + analysis" where
  "analyzeWindowsShellCommand resolve command =
     (case findWindowsUnsupportedToken command of
        Some t \<Rightarrow> Inl (''unsupported windows shell token: '' @ t)
      | None \<Rightarrow>
          (case tokenizeWindowsSegment command of None \<Rightarrow> Inl ''unable to parse windows command''
           | Some argv \<Rightarrow> Inr \<lparr>an_segments = [the_segment resolve command argv], an_chains = None\<rparr>))"

text \<open>The segments of one part of a chain.\<close>

definition part_segments :: "resolver \<Rightarrow> string \<Rightarrow> string + segment list" where
  "part_segments resolve part =
     (case splitShellPipeline part of Inl e \<Rightarrow> Inl e
      | Inr pieces \<Rightarrow>
          (case parseSegmentsFromParts resolve pieces of None \<Rightarrow> Inl ''unable to parse shell segment'' | Some ss \<Rightarrow> Inr ss))"

fun parts_segments :: "resolver \<Rightarrow> string list \<Rightarrow> string + segment list list" where
  "parts_segments resolve [] = Inr []"
| "parts_segments resolve (p # ps) =
     (case part_segments resolve p of Inl e \<Rightarrow> Inl e
      | Inr ss \<Rightarrow> (case parts_segments resolve ps of Inl e \<Rightarrow> Inl e | Inr sss \<Rightarrow> Inr (ss # sss)))"

definition analyzeShellCommand :: "resolver \<Rightarrow> string option \<Rightarrow> string \<Rightarrow> string + analysis" where
  "analyzeShellCommand resolve platform command =
     (if isWindowsPlatform platform then analyzeWindowsShellCommand resolve command
      else (case splitCommandChain command of
          Some parts \<Rightarrow>
            (case parts_segments resolve parts of Inl e \<Rightarrow> Inl e
             | Inr sss \<Rightarrow> Inr \<lparr>an_segments = concat sss, an_chains = Some sss\<rparr>)
        | None \<Rightarrow>
            (case part_segments resolve command of Inl e \<Rightarrow> Inl e
             | Inr ss \<Rightarrow> Inr \<lparr>an_segments = ss, an_chains = None\<rparr>)))"

definition analyzeArgvCommand :: "resolver \<Rightarrow> string list \<Rightarrow> string + analysis" where
  "analyzeArgvCommand resolve argv0 =
     (let argv = filter (\<lambda>e. js_trim e \<noteq> []) argv0
      in if argv = [] then Inl ''empty argv''
         else Inr \<lparr>an_segments = [the_segment resolve (join_with '' '' argv) argv], an_chains = None\<rparr>)"

section \<open>Rebuilding a command\<close>

text \<open>The segments of a part are rendered in order, counted over the whole command.\<close>

fun render_segments :: "(string \<Rightarrow> nat \<Rightarrow> string + string) \<Rightarrow> nat \<Rightarrow> string list \<Rightarrow> string + string list" where
  "render_segments render n [] = Inr []"
| "render_segments render n (raw # raws) =
     (case render raw n of Inl e \<Rightarrow> Inl e
      | Inr t \<Rightarrow> (case render_segments render (Suc n) raws of Inl e \<Rightarrow> Inl e | Inr ts \<Rightarrow> Inr (t # ts)))"

definition op_text :: "chain_op \<Rightarrow> string" where
  "op_text op = (case op of AndThen \<Rightarrow> ''&&'' | OrElse \<Rightarrow> ''||'' | Semi \<Rightarrow> '';'')"

fun rebuild_parts ::
  "(string \<Rightarrow> nat \<Rightarrow> string + string) \<Rightarrow> nat \<Rightarrow> string \<Rightarrow> (string \<times> chain_op option) list \<Rightarrow> string + (string \<times> nat)" where
  "rebuild_parts render n out [] = Inr (out, n)"
| "rebuild_parts render n out ((part, op) # parts) =
     (case splitShellPipeline part of Inl e \<Rightarrow> Inl e
      | Inr pieces \<Rightarrow>
          (case render_segments render n pieces of Inl e \<Rightarrow> Inl e
           | Inr ts \<Rightarrow>
               rebuild_parts render (n + length pieces)
                 (out @ join_with '' | '' ts @ (case op of Some o' \<Rightarrow> '' '' @ op_text o' @ '' '' | None \<Rightarrow> [])) parts))"

definition rebuildShellCommandFromSource ::
  "string option \<Rightarrow> (string \<Rightarrow> nat \<Rightarrow> string + string) \<Rightarrow> string \<Rightarrow> string + (string \<times> nat)" where
  "rebuildShellCommandFromSource platform render command =
     (if isWindowsPlatform platform then Inl ''unsupported platform''
      else let source = js_trim command
           in if source = [] then Inl ''empty command''
              else rebuild_parts render 0 []
                     (case splitCommandChainWithOperators source of Some c \<Rightarrow> c | None \<Rightarrow> [(source, None)]))"

definition buildSafeShellCommand :: "string option \<Rightarrow> string \<Rightarrow> string + string" where
  "buildSafeShellCommand platform command =
     (case rebuildShellCommandFromSource platform
        (\<lambda>raw _. case splitShellArgs raw of
             Some (a # as) \<Rightarrow> Inr (join_with '' '' (map shellEscapeSingleArg (a # as)))
           | _ \<Rightarrow> Inl ''unable to parse shell segment'') command of
        Inl e \<Rightarrow> Inl e | Inr (cmd, _) \<Rightarrow> Inr cmd)"

definition resolvePlannedSegmentArgv :: "segment \<Rightarrow> string list option" where
  "resolvePlannedSegmentArgv s =
     (if (case sg_resolution s of Some r \<Rightarrow> cr_policyBlocked r | None \<Rightarrow> False) then None
      else let base = (case sg_resolution s of
                 Some r \<Rightarrow> if cr_effectiveArgv r \<noteq> [] then cr_effectiveArgv r else sg_argv s
               | None \<Rightarrow> sg_argv s);
               executable = (case sg_resolution s of Some r \<Rightarrow> js_trim (opt_str (cr_resolvedPath r)) | None \<Rightarrow> [])
           in if base = [] then None
              else if executable \<noteq> [] then Some (executable # tl base) else Some base)"

datatype satisfied_by = ByAllowlist | BySafeBins | BySkills

definition renderSafeBinSegmentArgv :: "segment \<Rightarrow> string option" where
  "renderSafeBinSegmentArgv s =
     (case resolvePlannedSegmentArgv s of Some (a # as) \<Rightarrow> Some (renderQuotedArgv (a # as)) | _ \<Rightarrow> None)"

definition check_count :: "nat \<Rightarrow> string + (string \<times> nat) \<Rightarrow> string + string" where
  "check_count n r =
     (case r of Inl e \<Rightarrow> Inl e | Inr (cmd, k) \<Rightarrow> if k \<noteq> n then Inl ''segment count mismatch'' else Inr cmd)"

definition buildSafeBinsShellCommand ::
  "string option \<Rightarrow> string \<Rightarrow> segment list \<Rightarrow> satisfied_by option list \<Rightarrow> string + string" where
  "buildSafeBinsShellCommand platform command segments segmentSatisfiedBy =
     (if length segments \<noteq> length segmentSatisfiedBy then Inl ''segment metadata mismatch''
      else check_count (length segments) (rebuildShellCommandFromSource platform
        (\<lambda>raw i. if i \<ge> length segments then Inl ''segment mapping failed''
           else if segmentSatisfiedBy ! i \<noteq> Some BySafeBins then Inr (js_trim raw)
           else (case renderSafeBinSegmentArgv (segments ! i) of
               Some t \<Rightarrow> Inr t | None \<Rightarrow> Inl ''segment execution plan unavailable'')) command))"

definition render_planned :: "segment list \<Rightarrow> string \<Rightarrow> nat \<Rightarrow> string + string" where
  "render_planned segments raw i =
     (if i \<ge> length segments then Inl ''segment mapping failed''
      else (case resolvePlannedSegmentArgv (segments ! i) of
          Some argv \<Rightarrow> Inr (renderQuotedArgv argv) | None \<Rightarrow> Inl ''segment execution plan unavailable''))"

definition buildEnforcedShellCommand :: "string option \<Rightarrow> string \<Rightarrow> segment list \<Rightarrow> string + string" where
  "buildEnforcedShellCommand platform command segments =
     check_count (length segments) (rebuildShellCommandFromSource platform (render_planned segments) command)"

end
