(* ===== verification/SafeBins.thy ===== *)
theory SafeBins
  imports ExecResolution "HOL-Library.AList" "HOL-Library.List_Lexorder" "HOL-Library.Char_ord"
begin

text \<open>
  Commands that may run on standard input without an allowlist entry: which arguments they may have
  (\<open>src/infra/exec-safe-bin-policy-profiles.ts\<close>, \<open>exec-safe-bin-policy-validator.ts\<close>) and from which
  directories they must come (\<open>exec-safe-bin-trust.ts\<close>).

  Sets and maps of texts are lists in insertion order. Limits are rational numbers, as JSON has them.
  \<open>localeCompare\<close>, which only orders the flags of a configured profile, is an argument that sorts.
\<close>

section \<open>Profiles\<close>

record safe_bin_profile =
  bp_minPositional :: "int option"
  bp_maxPositional :: "int option"
  bp_allowedValueFlags :: "string list"
  bp_deniedFlags :: "string list"
  bp_knownLongFlags :: "string list"
  bp_longFlagPrefixMap :: "(string \<times> string option) list"

record safe_bin_fixture =
  fx_minPositional :: "rat option"
  fx_maxPositional :: "rat option"
  fx_allowedValueFlags :: "string list option"
  fx_deniedFlags :: "string list option"

definition toFlagSet :: "string list option \<Rightarrow> string list" where
  "toFlagSet flags = (case flags of None \<Rightarrow> [] | Some fs \<Rightarrow> distinct_texts fs)"

definition collectKnownLongFlags :: "string list \<Rightarrow> string list \<Rightarrow> string list" where
  "collectKnownLongFlags allowed denied = distinct_texts (filter (\<lambda>f. js_starts_with f ''--'') (allowed @ denied))"

text \<open>A prefix of two flags belongs to none.\<close>

definition add_prefix :: "string \<Rightarrow> string \<Rightarrow> (string \<times> string option) list \<Rightarrow> (string \<times> string option) list" where
  "add_prefix flag pfx m =
     (case map_of m pfx of None \<Rightarrow> AList.update pfx (Some flag) m
      | Some owner \<Rightarrow> if owner \<noteq> Some flag then AList.update pfx None m else m)"

definition add_flag_prefixes :: "string \<Rightarrow> (string \<times> string option) list \<Rightarrow> (string \<times> string option) list" where
  "add_flag_prefixes flag m =
     (if \<not> js_starts_with flag ''--'' \<or> length flag \<le> 2 then m
      else fold (\<lambda>n. add_prefix flag (take n flag)) [3..<Suc (length flag)] m)"

definition buildLongFlagPrefixMap :: "string list \<Rightarrow> (string \<times> string option) list" where
  "buildLongFlagPrefixMap knownLongFlags = fold add_flag_prefixes knownLongFlags []"

definition js_trunc :: "rat \<Rightarrow> int" where
  "js_trunc r = (if r \<ge> 0 then \<lfloor>r\<rfloor> else \<lceil>r\<rceil>)"

definition compileSafeBinProfile :: "safe_bin_fixture \<Rightarrow> safe_bin_profile" where
  "compileSafeBinProfile fx =
     (let allowed = toFlagSet (fx_allowedValueFlags fx); denied = toFlagSet (fx_deniedFlags fx);
          known = collectKnownLongFlags allowed denied
      in \<lparr>bp_minPositional = map_option js_trunc (fx_minPositional fx), bp_maxPositional = map_option js_trunc (fx_maxPositional fx),
          bp_allowedValueFlags = allowed, bp_deniedFlags = denied, bp_knownLongFlags = known,
          bp_longFlagPrefixMap = buildLongFlagPrefixMap known\<rparr>)"

definition compileSafeBinProfiles :: "(string \<times> safe_bin_fixture) list \<Rightarrow> (string \<times> safe_bin_profile) list" where
  "compileSafeBinProfiles fixtures = map (\<lambda>(name, fx). (name, compileSafeBinProfile fx)) fixtures"

definition fixture :: "rat option \<Rightarrow> rat option \<Rightarrow> string list option \<Rightarrow> string list option \<Rightarrow> safe_bin_fixture" where
  "fixture mn mx allowed denied = \<lparr>fx_minPositional = mn, fx_maxPositional = mx, fx_allowedValueFlags = allowed, fx_deniedFlags = denied\<rparr>"

definition SAFE_BIN_PROFILE_FIXTURES :: "(string \<times> safe_bin_fixture) list" where
  "SAFE_BIN_PROFILE_FIXTURES =
    [(''jq'', fixture None (Some 1) (Some [''--arg'', ''--argjson'', ''--argstr''])
        (Some [''--argfile'', ''--rawfile'', ''--slurpfile'', ''--from-file'', ''--library-path'', ''-L'', ''-f''])),
     (''grep'', fixture None (Some 0)
        (Some [''--regexp'', ''--max-count'', ''--after-context'', ''--before-context'', ''--context'', ''--devices'',
          ''--binary-files'', ''--exclude'', ''--include'', ''--label'', ''-e'', ''-m'', ''-A'', ''-B'', ''-C'', ''-D''])
        (Some [''--file'', ''--exclude-from'', ''--dereference-recursive'', ''--directories'', ''--recursive'', ''-f'', ''-d'', ''-r'', ''-R''])),
     (''cut'', fixture None (Some 0)
        (Some [''--bytes'', ''--characters'', ''--fields'', ''--delimiter'', ''--output-delimiter'', ''-b'', ''-c'', ''-f'', ''-d'']) None),
     (''sort'', fixture None (Some 0)
        (Some [''--key'', ''--field-separator'', ''--buffer-size'', ''--parallel'', ''--batch-size'', ''-k'', ''-t'', ''-S''])
        (Some [''--compress-program'', ''--files0-from'', ''--output'', ''--random-source'', ''--temporary-directory'', ''-T'', ''-o''])),
     (''uniq'', fixture None (Some 0)
        (Some [''--skip-fields'', ''--skip-chars'', ''--check-chars'', ''--group'', ''-f'', ''-s'', ''-w'']) None),
     (''head'', fixture None (Some 0) (Some [''--lines'', ''--bytes'', ''-n'', ''-c'']) None),
     (''tail'', fixture None (Some 0)
        (Some [''--lines'', ''--bytes'', ''--sleep-interval'', ''--max-unchanged-stats'', ''--pid'', ''-n'', ''-c'']) None),
     (''tr'', fixture (Some 1) (Some 2) None None),
     (''wc'', fixture None (Some 0) None (Some [''--files0-from'']))]"

definition SAFE_BIN_PROFILES :: "(string \<times> safe_bin_profile) list" where
  "SAFE_BIN_PROFILES = compileSafeBinProfiles SAFE_BIN_PROFILE_FIXTURES"

definition normalizeSafeBinProfileName :: "string \<Rightarrow> string option" where
  "normalizeSafeBinProfileName raw = (let name = js_lower (js_trim raw) in if name = [] then None else Some name)"

definition normalizeFixtureLimit :: "rat option \<Rightarrow> rat option" where
  "normalizeFixtureLimit raw =
     (case raw of None \<Rightarrow> None | Some r \<Rightarrow> if js_trunc r \<ge> 0 then Some (of_int (js_trunc r)) else None)"

definition normalizeFixtureFlags :: "(string list \<Rightarrow> string list) \<Rightarrow> string list option \<Rightarrow> string list option" where
  "normalizeFixtureFlags localeSort flags =
     (case flags of None \<Rightarrow> None
      | Some fs \<Rightarrow>
          let normalized = localeSort (distinct_texts (filter (\<lambda>f. f \<noteq> []) (map js_trim fs)))
          in if normalized = [] then None else Some normalized)"

definition normalizeSafeBinProfileFixture :: "(string list \<Rightarrow> string list) \<Rightarrow> safe_bin_fixture \<Rightarrow> safe_bin_fixture" where
  "normalizeSafeBinProfileFixture localeSort fx =
     (let mn = normalizeFixtureLimit (fx_minPositional fx); mx = normalizeFixtureLimit (fx_maxPositional fx)
      in fixture mn (case (mn, mx) of (Some a, Some b) \<Rightarrow> if b < a then Some a else Some b | _ \<Rightarrow> mx)
           (normalizeFixtureFlags localeSort (fx_allowedValueFlags fx)) (normalizeFixtureFlags localeSort (fx_deniedFlags fx)))"

definition normalizeSafeBinProfileFixtures ::
  "(string list \<Rightarrow> string list) \<Rightarrow> (string \<times> safe_bin_fixture) list option \<Rightarrow> (string \<times> safe_bin_fixture) list" where
  "normalizeSafeBinProfileFixtures localeSort fixtures =
     (case fixtures of None \<Rightarrow> []
      | Some fs \<Rightarrow> fold (\<lambda>(raw, fx) m. case normalizeSafeBinProfileName raw of None \<Rightarrow> m
            | Some name \<Rightarrow> AList.update name (normalizeSafeBinProfileFixture localeSort fx) m) fs [])"

text \<open>\<open>{ ...a, ...b }\<close>\<close>

definition resolveSafeBinProfiles ::
  "(string list \<Rightarrow> string list) \<Rightarrow> (string \<times> safe_bin_fixture) list option \<Rightarrow> (string \<times> safe_bin_profile) list" where
  "resolveSafeBinProfiles localeSort fixtures =
     (let normalized = normalizeSafeBinProfileFixtures localeSort fixtures
      in if normalized = [] then SAFE_BIN_PROFILES
         else fold (\<lambda>(k, v). AList.update k v) (compileSafeBinProfiles normalized) SAFE_BIN_PROFILES)"

section \<open>Arguments\<close>

definition drive_path :: "string \<Rightarrow> bool" where
  "drive_path s = (case s of a # b # c # _ \<Rightarrow> ascii_letter a \<and> b = CHR '':'' \<and> win_sep c | _ \<Rightarrow> False)"

definition isPathLikeToken :: "string \<Rightarrow> bool" where
  "isPathLikeToken v =
     (let t = js_trim v in
      if t = [] \<or> t = ''-'' then False
      else if js_starts_with t ''./'' \<or> js_starts_with t ''../'' \<or> js_starts_with t ''~'' then True
      else if js_starts_with t ''/'' then True
      else drive_path t)"

definition hasGlobToken :: "string \<Rightarrow> bool" where
  "hasGlobToken v = list_ex (\<lambda>c. c \<in> set ''*?[]'') v"

definition isSafeLiteralToken :: "string \<Rightarrow> bool" where
  "isSafeLiteralToken v = (if v = [] \<or> v = ''-'' then True else \<not> hasGlobToken v \<and> \<not> isPathLikeToken v)"

definition isInvalidValueToken :: "string option \<Rightarrow> bool" where
  "isInvalidValueToken v = (case v of None \<Rightarrow> True | Some t \<Rightarrow> t = [] \<or> \<not> isSafeLiteralToken t)"

definition resolveCanonicalLongFlag :: "safe_bin_profile \<Rightarrow> string \<Rightarrow> string option" where
  "resolveCanonicalLongFlag p flag =
     (if \<not> js_starts_with flag ''--'' \<or> length flag \<le> 2 then None
      else if flag \<in> set (bp_knownLongFlags p) then Some flag
      else (case map_of (bp_longFlagPrefixMap p) flag of Some (Some f) \<Rightarrow> Some f | _ \<Rightarrow> None))"

definition next_arg :: "string list \<Rightarrow> string option" where
  "next_arg rest = (case rest of [] \<Rightarrow> None | a # _ \<Rightarrow> Some a)"

text \<open>How many of the following arguments an option takes, or \<open>None\<close> when it is refused.\<close>

definition consumeLongOptionToken :: "safe_bin_profile \<Rightarrow> string list \<Rightarrow> string \<Rightarrow> string option \<Rightarrow> nat option" where
  "consumeLongOptionToken p rest flag inlineValue =
     (case resolveCanonicalLongFlag p flag of None \<Rightarrow> None
      | Some canonical \<Rightarrow>
          if canonical \<in> set (bp_deniedFlags p) then None
          else let expectsValue = canonical \<in> set (bp_allowedValueFlags p)
               in (case inlineValue of
                     Some v \<Rightarrow> if \<not> expectsValue then None else if isSafeLiteralToken v then Some 0 else None
                   | None \<Rightarrow> if \<not> expectsValue then Some 0
                             else if isInvalidValueToken (next_arg rest) then None else Some 1))"

fun consumeShortOptionClusterToken :: "safe_bin_profile \<Rightarrow> string list \<Rightarrow> string \<Rightarrow> nat option" where
  "consumeShortOptionClusterToken p rest [] = None"
| "consumeShortOptionClusterToken p rest (c # cluster) =
     (let flag = [CHR ''-'', c] in
      if flag \<in> set (bp_deniedFlags p) then None
      else if flag \<notin> set (bp_allowedValueFlags p) then consumeShortOptionClusterToken p rest cluster
      else if cluster \<noteq> [] then (if isSafeLiteralToken cluster then Some 0 else None)
      else if isInvalidValueToken (next_arg rest) then None else Some 1)"

definition validatePositionalCount :: "string list \<Rightarrow> safe_bin_profile \<Rightarrow> bool" where
  "validatePositionalCount positional p =
     (let n = int (length positional) in
      if n < (case bp_minPositional p of Some m \<Rightarrow> m | None \<Rightarrow> 0) then False
      else (case bp_maxPositional p of None \<Rightarrow> True | Some m \<Rightarrow> n \<le> m))"

text \<open>After the terminator every argument is positional.\<close>

fun positional_rest :: "string list \<Rightarrow> string list \<Rightarrow> string list option" where
  "positional_rest positional [] = Some positional"
| "positional_rest positional (a # as) =
     (if a = [] \<or> a = ''-'' then positional_rest positional as
      else if isSafeLiteralToken a then positional_rest (positional @ [a]) as else None)"

text \<open>The positional arguments of the loop, or \<open>None\<close> when an argument is refused.\<close>

function positional_args :: "safe_bin_profile \<Rightarrow> string list \<Rightarrow> string list \<Rightarrow> string list option" where
  "positional_args p positional [] = Some positional"
| "positional_args p positional (a # rest) =
     (case parseExecArgvToken a of
        TEmpty _ \<Rightarrow> positional_args p positional rest
      | TStdin _ \<Rightarrow> positional_args p positional rest
      | TTerminator _ \<Rightarrow> positional_rest positional rest
      | TPositional raw \<Rightarrow> if isSafeLiteralToken raw then positional_args p (positional @ [raw]) rest else None
      | TLong _ flag inlineValue \<Rightarrow>
          (case consumeLongOptionToken p rest flag inlineValue of None \<Rightarrow> None
           | Some n \<Rightarrow> positional_args p positional (drop n rest))
      | TCluster _ cluster _ \<Rightarrow>
          (case consumeShortOptionClusterToken p rest cluster of None \<Rightarrow> None
           | Some n \<Rightarrow> positional_args p positional (drop n rest)))"
  by pat_completeness auto

termination
  by (relation "measure (\<lambda>(p, positional, args). length args)") auto

definition validateSafeBinArgv :: "string list \<Rightarrow> safe_bin_profile \<Rightarrow> bool" where
  "validateSafeBinArgv args p =
     (case positional_args p [] args of None \<Rightarrow> False | Some positional \<Rightarrow> validatePositionalCount positional p)"

section \<open>Trusted directories\<close>

definition DEFAULT_SAFE_BIN_TRUSTED_DIRS :: "string list" where
  "DEFAULT_SAFE_BIN_TRUSTED_DIRS = [''/bin'', ''/usr/bin'']"

definition normalizeTrustedDir :: "exec_host \<Rightarrow> string \<Rightarrow> string option" where
  "normalizeTrustedDir H v = (let t = js_trim v in if t = [] then None else Some (path_resolve H (process_cwd H) t))"

definition normalizeTrustedSafeBinDirs :: "string list option \<Rightarrow> string list" where
  "normalizeTrustedSafeBinDirs entries =
     (case entries of None \<Rightarrow> [] | Some es \<Rightarrow> distinct_texts (filter (\<lambda>e. e \<noteq> []) (map js_trim es)))"

definition resolveTrustedSafeBinDirs :: "exec_host \<Rightarrow> string list \<Rightarrow> string list" where
  "resolveTrustedSafeBinDirs H entries =
     sort (distinct_texts (filter (\<lambda>d. d \<noteq> []) (List.map_filter (normalizeTrustedDir H) entries)))"

definition buildTrustedSafeBinDirs :: "exec_host \<Rightarrow> string list option \<Rightarrow> string list option \<Rightarrow> string list" where
  "buildTrustedSafeBinDirs H baseDirs extraDirs =
     resolveTrustedSafeBinDirs H
       (normalizeTrustedSafeBinDirs (Some (case baseDirs of Some b \<Rightarrow> b | None \<Rightarrow> DEFAULT_SAFE_BIN_TRUSTED_DIRS))
        @ normalizeTrustedSafeBinDirs (Some (case extraDirs of Some e \<Rightarrow> e | None \<Rightarrow> [])))"

definition isTrustedSafeBinPath :: "exec_host \<Rightarrow> string list option \<Rightarrow> string \<Rightarrow> bool" where
  "isTrustedSafeBinPath H trustedDirs resolvedPath =
     (let dirs = (case trustedDirs of Some d \<Rightarrow> d | None \<Rightarrow> buildTrustedSafeBinDirs H None None)
      in path_dirname H (path_resolve H (process_cwd H) resolvedPath) \<in> set dirs)"


section \<open>Abbreviated options\<close>

lemma starts_with_prefix: "js_starts_with s p = prefix p s"
  by (auto simp: js_starts_with_def prefix_def) (metis append_take_drop_id)

text \<open>What adding a flag does to the owner of one of its beginnings; doing it again changes nothing.\<close>

definition claim_prefix :: "string \<Rightarrow> string option option \<Rightarrow> string option option" where
  "claim_prefix flag x = (case x of None \<Rightarrow> Some (Some flag) | Some owner \<Rightarrow> if owner = Some flag then Some owner else Some None)"

lemma claim_prefix_twice [simp]: "claim_prefix flag (claim_prefix flag x) = claim_prefix flag x"
  by (simp add: claim_prefix_def split: option.splits)

lemma map_of_add_prefix: "map_of (add_prefix flag pfx m) q = (if q = pfx then claim_prefix flag (map_of m q) else map_of m q)"
  by (auto simp: add_prefix_def claim_prefix_def update_conv' split: option.splits)

lemma map_of_fold_prefixes:
  "map_of (fold (\<lambda>n. add_prefix flag (take n flag)) ns m) q
     = (if q \<in> (\<lambda>n. take n flag) ` set ns then claim_prefix flag (map_of m q) else map_of m q)"
  by (induction ns arbitrary: m) (auto simp: map_of_add_prefix)

text \<open>A beginning of a flag with at least one character after the dashes.\<close>

definition abbreviates :: "string \<Rightarrow> string \<Rightarrow> bool" where
  "abbreviates q flag = (js_starts_with flag ''--'' \<and> 3 \<le> length q \<and> prefix q flag)"

lemma abbreviations: "js_starts_with flag ''--'' \<Longrightarrow> (q \<in> (\<lambda>n. take n flag) ` set [3..<Suc (length flag)]) = abbreviates q flag"
proof
  assume flag: "js_starts_with flag ''--''"
  show "abbreviates q flag" if "q \<in> (\<lambda>n. take n flag) ` set [3..<Suc (length flag)]"
    using that flag by (auto simp: abbreviates_def take_is_prefix simp del: upt_Suc)
  show "q \<in> (\<lambda>n. take n flag) ` set [3..<Suc (length flag)]" if "abbreviates q flag"
  proof -
    from that have "3 \<le> length q" "q = take (length q) flag" "length q \<le> length flag"
      by (auto simp: abbreviates_def prefix_def)
    then show ?thesis by (intro image_eqI [of _ _ "length q"]) (auto simp del: upt_Suc)
  qed
qed

lemma map_of_add_flag: "map_of (add_flag_prefixes flag m) q = (if abbreviates q flag then claim_prefix flag (map_of m q) else map_of m q)"
proof (cases "js_starts_with flag ''--'' \<and> 2 < length flag")
  case True
  then have "map_of (add_flag_prefixes flag m) q = map_of (fold (\<lambda>n. add_prefix flag (take n flag)) [3..<Suc (length flag)] m) q"
    by (simp add: add_flag_prefixes_def del: upt_Suc)
  with True show ?thesis using abbreviations [of flag q] by (simp only: map_of_fold_prefixes)
next
  case False
  then show ?thesis by (auto simp: add_flag_prefixes_def abbreviates_def dest: prefix_length_le)
qed

definition abbreviated_by :: "string list \<Rightarrow> string \<Rightarrow> string set" where
  "abbreviated_by flags q = {g \<in> set flags. abbreviates q g}"

lemma map_of_prefix_map:
  "(map_of (buildLongFlagPrefixMap flags) q = None \<longleftrightarrow> abbreviated_by flags q = {}) \<and>
   (\<forall>f. map_of (buildLongFlagPrefixMap flags) q = Some (Some f) \<longleftrightarrow> abbreviated_by flags q = {f})"
proof (induction flags rule: rev_induct)
  case Nil
  show ?case by (simp add: buildLongFlagPrefixMap_def abbreviated_by_def)
next
  case (snoc g flags)
  have set: "abbreviated_by (flags @ [g]) q = (if abbreviates q g then insert g (abbreviated_by flags q) else abbreviated_by flags q)"
    by (auto simp: abbreviated_by_def)
  have map: "map_of (buildLongFlagPrefixMap (flags @ [g])) q
    = (if abbreviates q g then claim_prefix g (map_of (buildLongFlagPrefixMap flags) q) else map_of (buildLongFlagPrefixMap flags) q)"
    by (simp add: buildLongFlagPrefixMap_def map_of_add_flag)
  show ?case
  proof (cases "map_of (buildLongFlagPrefixMap flags) q")
    case (Some owner)
    then show ?thesis using snoc unfolding set map
      by (cases owner) (auto simp: claim_prefix_def split: if_splits)
  qed (use snoc in \<open>auto simp: set map claim_prefix_def\<close>)
qed

text \<open>
  C30: a long option of a safe bin is read as GNU \<open>getopt\<close> would read it among the flags of the profile: a
  flag of the profile stands for itself, and a beginning of one for the only flag it begins.
\<close>

theorem safe_bin_abbreviation:
  "resolveCanonicalLongFlag (compileSafeBinProfile fx) flag = Some f \<longleftrightarrow>
     js_starts_with flag ''--'' \<and> 2 < length flag \<and>
     (let known = set (toFlagSet (fx_allowedValueFlags fx)) \<union> set (toFlagSet (fx_deniedFlags fx))
      in if flag \<in> known then f = flag
         else {g \<in> known. js_starts_with g flag} = {f})"
proof -
  let ?known = "collectKnownLongFlags (toFlagSet (fx_allowedValueFlags fx)) (toFlagSet (fx_deniedFlags fx))"
  let ?all = "set (toFlagSet (fx_allowedValueFlags fx)) \<union> set (toFlagSet (fx_deniedFlags fx))"
  show ?thesis
  proof (cases "js_starts_with flag ''--'' \<and> 2 < length flag")
    case True
    have known: "(flag \<in> set ?known) = (flag \<in> ?all)" using True by (auto simp: collectKnownLongFlags_def)
    have "js_starts_with g ''--''" if "prefix flag g" for g
      using True that prefix_order.trans unfolding starts_with_prefix by blast
    then have "abbreviated_by ?known flag = {g \<in> ?all. js_starts_with g flag}"
      using True by (auto simp: abbreviated_by_def abbreviates_def collectKnownLongFlags_def starts_with_prefix)
    with True known map_of_prefix_map [of ?known flag] show ?thesis
      by (auto simp: resolveCanonicalLongFlag_def compileSafeBinProfile_def Let_def split: option.splits)
  qed (auto simp: resolveCanonicalLongFlag_def)
qed

section \<open>Accepted arguments\<close>

lemma token_of_plain:
  "\<not> js_starts_with a ''-'' \<Longrightarrow> parseExecArgvToken a = (if a = [] then TEmpty a else TPositional a)"
  by (auto simp: parseExecArgvToken_def js_starts_with_def)

lemma consume_long_value:
  "consumeLongOptionToken p rest flag v = Some n \<Longrightarrow> n \<le> 1 \<and> (n = 1 \<longrightarrow> rest \<noteq> [] \<and> isSafeLiteralToken (hd rest))"
  by (cases rest) (auto simp: consumeLongOptionToken_def next_arg_def isInvalidValueToken_def Let_def split: option.splits if_splits)

lemma consume_cluster_value:
  "consumeShortOptionClusterToken p rest cluster = Some n \<Longrightarrow> n \<le> 1 \<and> (n = 1 \<longrightarrow> rest \<noteq> [] \<and> isSafeLiteralToken (hd rest))"
  by (induction p rest cluster rule: consumeShortOptionClusterToken.induct)
    (auto simp: next_arg_def isInvalidValueToken_def Let_def split: option.splits if_splits list.splits)

lemma positional_rest_literal:
  "positional_rest positional as = Some r \<Longrightarrow> a \<in> set as \<Longrightarrow> isSafeLiteralToken a"
  by (induction positional as rule: positional_rest.induct) (auto simp: isSafeLiteralToken_def split: if_splits)

lemma drop_literal:
  assumes "n \<le> (1::nat)" "n = 1 \<longrightarrow> rest \<noteq> [] \<and> isSafeLiteralToken (hd rest)" "b \<in> set rest"
  shows "b \<in> set (drop n rest) \<or> isSafeLiteralToken b"
proof (cases n)
  case (Suc m)
  with assms show ?thesis by (cases rest) auto
qed (use assms in simp)

lemma positional_args_literal:
  assumes "positional_args p positional args = Some r" "b \<in> set args" "\<not> js_starts_with b ''-''"
  shows "isSafeLiteralToken b"
  using assms(1,2)
proof (induction p positional args rule: positional_args.induct)
  case (2 p positional a rest)
  note IH = 2(1-5) and ok = 2(6) and b = 2(7)
  show ?case
  proof (cases "b = a")
    case True
    then show ?thesis using ok assms(3) token_of_plain [of a] by (auto simp: isSafeLiteralToken_def split: if_splits)
  next
    case False
    then have rest: "b \<in> set rest" using b by simp
    show ?thesis
    proof (cases "parseExecArgvToken a")
      case (TTerminator x)
      then show ?thesis using ok rest positional_rest_literal by auto
    next
      case (TLong x flag v)
      then obtain n where n: "consumeLongOptionToken p rest flag v = Some n" "positional_args p positional (drop n rest) = Some r"
        using ok by (auto split: option.splits)
      from drop_literal [of n rest b] consume_long_value [OF n(1)] rest show ?thesis
        using IH(4) [OF TLong n(1) n(2)] by blast
    next
      case (TCluster x cluster fs)
      then obtain n where n: "consumeShortOptionClusterToken p rest cluster = Some n" "positional_args p positional (drop n rest) = Some r"
        using ok by (auto split: option.splits)
      from drop_literal [of n rest b] consume_cluster_value [OF n(1)] rest show ?thesis
        using IH(5) [OF TCluster n(1) n(2)] by blast
    qed (use ok rest IH in \<open>auto split: if_splits\<close>)
  qed
qed simp

lemma positional_after_plain:
  "list_all (\<lambda>x. \<not> js_starts_with x ''-'') pre \<Longrightarrow> positional_args p positional (pre @ rest) = Some r \<Longrightarrow>
     \<exists>positional'. positional_args p positional' rest = Some r"
proof (induction pre arbitrary: positional)
  case (Cons a pre)
  then show ?case by (auto simp: token_of_plain split: if_splits)
qed auto

text \<open>
  C29: in an accepted call of a safe bin no argument other than an option names a path from the root, the
  home or the current directory, or has a glob character.
\<close>

theorem safe_bin_arguments_literal:
  assumes "validateSafeBinArgv args p" "b \<in> set args" "\<not> js_starts_with b ''-''"
  shows "\<not> isPathLikeToken b \<and> \<not> hasGlobToken b"
proof -
  from assms(1) obtain r where "positional_args p [] args = Some r"
    by (auto simp: validateSafeBinArgv_def split: option.splits)
  from positional_args_literal [OF this assms(2,3)] have "isSafeLiteralToken b" .
  moreover have "b \<noteq> ''-''" using assms(3) by (auto simp: js_starts_with_def)
  moreover have "\<not> isPathLikeToken []" "\<not> hasGlobToken []" by code_simp+
  ultimately show ?thesis by (auto simp: isSafeLiteralToken_def split: if_splits)
qed

definition sort_profile :: safe_bin_profile where
  "sort_profile = compileSafeBinProfile (fixture None (Some 0) (Some [''--key'', ''--sep'', ''-k'']) (Some [''--output'', ''-o'']))"

definition sort_call :: "string list" where
  "sort_call = [''-k'', ''2'', ''--se'', '':'', ''--key=4'']"

theorem safe_bin_arguments_literal_witness:
  "validateSafeBinArgv sort_call sort_profile \<and> \<not> isPathLikeToken '':'' \<and> \<not> hasGlobToken '':''"
proof -
  have a: "validateSafeBinArgv sort_call sort_profile" by code_simp
  have "\<not> isPathLikeToken '':'' \<and> \<not> hasGlobToken '':''"
    by (rule safe_bin_arguments_literal [OF a]) code_simp+
  with a show ?thesis by simp
qed

text \<open>
  The first option of an accepted call, if it is a long one, is a flag of the profile that is not
  denied, written in full or abbreviated.
\<close>

theorem safe_bin_option_known:
  assumes "validateSafeBinArgv (pre @ a # rest) p" "list_all (\<lambda>x. \<not> js_starts_with x ''-'') pre"
    and "js_starts_with a ''--''" "a \<noteq> ''--''"
  shows "\<exists>f. resolveCanonicalLongFlag p (takeWhile (\<lambda>c. c \<noteq> CHR ''='') a) = Some f \<and> f \<notin> set (bp_deniedFlags p)"
proof -
  from assms(1) obtain r where "positional_args p [] (pre @ a # rest) = Some r"
    by (auto simp: validateSafeBinArgv_def split: option.splits)
  with positional_after_plain [OF assms(2)] obtain q where q: "positional_args p q (a # rest) = Some r" by blast
  let ?flag = "takeWhile (\<lambda>c. c \<noteq> CHR ''='') a"
  have whole: "a = ?flag" if "\<not> length ?flag < length a"
    using that takeWhile_dropWhile_id [of "\<lambda>c. c \<noteq> CHR ''=''" a]
    by (metis append_Nil2 append_eq_conv_conj length_takeWhile_le linorder_not_le order.antisym take_all)
  have "\<exists>v. parseExecArgvToken a = TLong a ?flag v"
    using assms(3,4) whole by (cases a) (auto simp: parseExecArgvToken_def js_starts_with_def Let_def)
  with q show ?thesis
    by (auto simp: consumeLongOptionToken_def split: option.splits if_splits)
qed

theorem safe_bin_option_known_witness:
  "validateSafeBinArgv sort_call sort_profile \<and> \<not> validateSafeBinArgv [''--out=x''] sort_profile"
proof -
  have "\<not> validateSafeBinArgv ([] @ ''--out=x'' # []) sort_profile"
  proof
    assume a: "validateSafeBinArgv ([] @ ''--out=x'' # []) sort_profile"
    have "resolveCanonicalLongFlag sort_profile (takeWhile (\<lambda>c. c \<noteq> CHR ''='') ''--out=x'') = Some ''--output''"
      "''--output'' \<in> set (bp_deniedFlags sort_profile)" "js_starts_with ''--out=x'' ''--''" by code_simp+
    with safe_bin_option_known [OF a] show False by simp
  qed
  moreover have "validateSafeBinArgv sort_call sort_profile" by code_simp
  ultimately show ?thesis by simp
qed

end
