(* ===== verification/ExecAllowlist.thy ===== *)
theory ExecAllowlist
  imports ShellAnalysis SafeBins
begin

text \<open>
  Whether every command of a shell line is allowed by the allowlist, as a safe bin or as the program of a
  skill, and which patterns an answer "allow always" adds: \<open>src/infra/exec-approvals-allowlist.ts\<close>.

  An expression of the allowlist may throw, so the evaluation is a \<open>result\<close>; \<open>every\<close> stops at the
  first segment that is not satisfied. The maps of profiles and of trusted programs are association lists
  (a name of \<open>Object.prototype\<close> is a missing key).
\<close>

section \<open>Safe bins\<close>

fun hasShellLineContinuation :: "string \<Rightarrow> bool" where
  "hasShellLineContinuation (c # d # cs) = (c = bslash \<and> line_break d \<or> hasShellLineContinuation (d # cs))"
| "hasShellLineContinuation cs = False"

definition normalizeSafeBins :: "string list option \<Rightarrow> string list" where
  "normalizeSafeBins entries =
     (case entries of None \<Rightarrow> []
      | Some es \<Rightarrow> distinct_texts (filter (\<lambda>e. e \<noteq> []) (map (\<lambda>e. js_lower (js_trim e)) es)))"

text \<open>The argument is \<open>undefined\<close>, \<open>null\<close> or a list.\<close>

definition resolveSafeBins :: "string list option option \<Rightarrow> string list" where
  "resolveSafeBins entries =
     (case entries of None \<Rightarrow> normalizeSafeBins (Some DEFAULT_SAFE_BINS)
      | Some es \<Rightarrow> normalizeSafeBins (Some (case es of Some l \<Rightarrow> l | None \<Rightarrow> [])))"

record skill_bin =
  sk_name :: string
  sk_resolvedPath :: string

record exec_policy =
  ep_allowlist :: "allowlist_entry list"
  ep_safeBins :: "string list"
  ep_safeBinProfiles :: "(string \<times> safe_bin_profile) list option"
  ep_cwd :: "string option"
  ep_platform :: "string option"
  ep_trustedSafeBinDirs :: "string list option"
  ep_skillBins :: "skill_bin list"
  ep_autoAllowSkills :: bool

text \<open>\<open>process.platform\<close>, as far as it tells Windows from the others\<close>

definition process_platform :: "exec_host \<Rightarrow> string" where
  "process_platform H = (if is_win32 H then ''win32'' else ''linux'')"

definition isSafeBinUsage :: "exec_host \<Rightarrow> exec_policy \<Rightarrow> string list \<Rightarrow> command_resolution option \<Rightarrow> bool" where
  "isSafeBinUsage H P argv resolution =
     (if isWindowsPlatform (Some (case ep_platform P of Some p \<Rightarrow> p | None \<Rightarrow> process_platform H)) then False
      else if ep_safeBins P = [] then False
      else (case resolution of None \<Rightarrow> False
        | Some r \<Rightarrow>
            let execName = js_lower (cr_executableName r) in
            if execName = [] then False
            else if execName \<notin> set (ep_safeBins P) then False
            else if opt_str (cr_resolvedPath r) = [] then False
            else if \<not> isTrustedSafeBinPath H (ep_trustedSafeBinDirs P) (opt_str (cr_resolvedPath r)) then False
            else (case map_of (case ep_safeBinProfiles P of Some m \<Rightarrow> m | None \<Rightarrow> SAFE_BIN_PROFILES) execName of
                    None \<Rightarrow> False
                  | Some profile \<Rightarrow> validateSafeBinArgv (tl argv) profile)))"

section \<open>Programs of skills\<close>

definition normalizeSkillBinName :: "string \<Rightarrow> string option" where
  "normalizeSkillBinName v = (let t = js_lower (js_trim v) in if t = [] then None else Some t)"

definition normalizeSkillBinResolvedPath :: "exec_host \<Rightarrow> string \<Rightarrow> string option" where
  "normalizeSkillBinResolvedPath H v =
     (let t = js_trim v in
      if t = [] then None
      else let r = path_resolve H (process_cwd H) t
           in Some (if is_win32 H then js_lower (map (\<lambda>c. if c = backslash then CHR ''/'' else c) r) else r))"

definition trust_entry :: "exec_host \<Rightarrow> skill_bin \<Rightarrow> (string \<times> string list) list \<Rightarrow> (string \<times> string list) list" where
  "trust_entry H e m =
     (case (normalizeSkillBinName (sk_name e), normalizeSkillBinResolvedPath H (sk_resolvedPath e)) of
        (Some n, Some p) \<Rightarrow>
          if p = [] then m
          else AList.update n ((case map_of m n of Some ps \<Rightarrow> ps | None \<Rightarrow> []) @ [p]) m
      | _ \<Rightarrow> m)"

definition buildSkillBinTrustIndex :: "exec_host \<Rightarrow> skill_bin list \<Rightarrow> (string \<times> string list) list" where
  "buildSkillBinTrustIndex H entries = fold (trust_entry H) entries []"

definition isSkillAutoAllowedSegment :: "exec_host \<Rightarrow> bool \<Rightarrow> (string \<times> string list) list \<Rightarrow> segment \<Rightarrow> bool" where
  "isSkillAutoAllowedSegment H allowSkills trust s =
     (if \<not> allowSkills then False
      else (case sg_resolution s of None \<Rightarrow> False
        | Some r \<Rightarrow>
            if opt_str (cr_resolvedPath r) = [] then False
            else let raw = js_trim (cr_rawExecutable r) in
            if raw = [] \<or> has_path_sep raw then False
            else (case (normalizeSkillBinName (cr_executableName r),
                        normalizeSkillBinResolvedPath H (opt_str (cr_resolvedPath r))) of
                    (Some n, Some p) \<Rightarrow> p \<noteq> [] \<and> (case map_of trust n of Some ps \<Rightarrow> p \<in> set ps | None \<Rightarrow> False)
                  | _ \<Rightarrow> False)))"

section \<open>The segments of a command\<close>

record evaluation =
  el_satisfied :: bool
  el_matches :: "allowlist_entry list"
  el_by :: "satisfied_by option list"

definition policy_blocked :: "segment \<Rightarrow> bool" where
  "policy_blocked s = (case sg_resolution s of Some r \<Rightarrow> cr_policyBlocked r | None \<Rightarrow> False)"

definition effective_argv :: "segment \<Rightarrow> string list" where
  "effective_argv s =
     (case sg_resolution s of Some r \<Rightarrow> if cr_effectiveArgv r \<noteq> [] then cr_effectiveArgv r else sg_argv s | None \<Rightarrow> sg_argv s)"

definition candidate_resolution :: "exec_host \<Rightarrow> string option \<Rightarrow> segment \<Rightarrow> command_resolution option" where
  "candidate_resolution H cwd s =
     (case (resolveAllowlistCandidatePath H (sg_resolution s) cwd, sg_resolution s) of
        (Some p, Some r) \<Rightarrow> if p \<noteq> [] then Some (r\<lparr>cr_resolvedPath := Some p\<rparr>) else Some r
      | _ \<Rightarrow> sg_resolution s)"

text \<open>Why a segment that is not blocked may run, and the entry that matched.\<close>

definition segment_verdict ::
  "exec_host \<Rightarrow> exec_policy \<Rightarrow> segment \<Rightarrow> (allowlist_entry option \<times> satisfied_by option) result" where
  "segment_verdict H P s =
     (case matchAllowlist H (ep_allowlist P) (candidate_resolution H (ep_cwd P) s) of Inl e \<Rightarrow> Inl e
      | Inr m \<Rightarrow>
          let trust = buildSkillBinTrustIndex H (ep_skillBins P);
              allowSkills = (ep_autoAllowSkills P \<and> trust \<noteq> []);
              safe = isSafeBinUsage H P (effective_argv s) (sg_resolution s);
              skillAllow = isSkillAutoAllowedSegment H allowSkills trust s
          in Inr (m, if m \<noteq> None then Some ByAllowlist else if safe then Some BySafeBins
                     else if skillAllow then Some BySkills else None))"

definition opt_list :: "'a option \<Rightarrow> 'a list" where
  "opt_list x = (case x of None \<Rightarrow> [] | Some a \<Rightarrow> [a])"

fun evaluateSegments :: "exec_host \<Rightarrow> exec_policy \<Rightarrow> segment list \<Rightarrow> evaluation result" where
  "evaluateSegments H P [] = Inr \<lparr>el_satisfied = True, el_matches = [], el_by = []\<rparr>"
| "evaluateSegments H P (s # ss) =
     (if policy_blocked s then Inr \<lparr>el_satisfied = False, el_matches = [], el_by = [None]\<rparr>
      else (case segment_verdict H P s of Inl e \<Rightarrow> Inl e
        | Inr (m, by) \<Rightarrow>
            if by = None then Inr \<lparr>el_satisfied = False, el_matches = opt_list m, el_by = [None]\<rparr>
            else (case evaluateSegments H P ss of Inl e \<Rightarrow> Inl e
              | Inr r \<Rightarrow> Inr (r\<lparr>el_matches := opt_list m @ el_matches r, el_by := by # el_by r\<rparr>))))"

definition no_evaluation :: evaluation where
  "no_evaluation = \<lparr>el_satisfied = False, el_matches = [], el_by = []\<rparr>"

fun evaluate_groups :: "exec_host \<Rightarrow> exec_policy \<Rightarrow> bool \<Rightarrow> segment list list \<Rightarrow> evaluation result" where
  "evaluate_groups H P hasChains [] = Inr \<lparr>el_satisfied = True, el_matches = [], el_by = []\<rparr>"
| "evaluate_groups H P hasChains (g # gs) =
     (case evaluateSegments H P g of Inl e \<Rightarrow> Inl e
      | Inr r \<Rightarrow>
          if \<not> el_satisfied r then Inr (if hasChains then no_evaluation else r)
          else (case evaluate_groups H P hasChains gs of Inl e \<Rightarrow> Inl e
            | Inr r' \<Rightarrow>
                if \<not> el_satisfied r' then Inr r'
                else Inr (r'\<lparr>el_matches := el_matches r @ el_matches r', el_by := el_by r @ el_by r'\<rparr>)))"

definition evaluateExecAllowlist :: "exec_host \<Rightarrow> exec_policy \<Rightarrow> string + analysis \<Rightarrow> evaluation result" where
  "evaluateExecAllowlist H P analysis =
     (case analysis of Inl _ \<Rightarrow> Inr no_evaluation
      | Inr a \<Rightarrow>
          if an_segments a = [] then Inr no_evaluation
          else evaluate_groups H P (an_chains a \<noteq> None)
                 (case an_chains a of Some gs \<Rightarrow> gs | None \<Rightarrow> [an_segments a]))"

section \<open>Shell commands\<close>

record allowlist_analysis =
  al_analysisOk :: bool
  al_satisfied :: bool
  al_matches :: "allowlist_entry list"
  al_segments :: "segment list"
  al_by :: "satisfied_by option list"

definition analysisFailure :: allowlist_analysis where
  "analysisFailure = \<lparr>al_analysisOk = False, al_satisfied = False, al_matches = [], al_segments = [], al_by = []\<rparr>"

text \<open>One part of a chain: its segments and their evaluation.\<close>

definition evaluate_part :: "exec_host \<Rightarrow> exec_policy \<Rightarrow> exec_env option \<Rightarrow> string \<Rightarrow> allowlist_analysis result" where
  "evaluate_part H P env part =
     (let analysis = analyzeShellCommand (resolveCommandResolutionFromArgv H (ep_cwd P) env) (ep_platform P) part
      in case analysis of Inl _ \<Rightarrow> Inr analysisFailure
         | Inr a \<Rightarrow>
             (case evaluateExecAllowlist H P analysis of Inl e \<Rightarrow> Inl e
              | Inr r \<Rightarrow> Inr \<lparr>al_analysisOk = True, al_satisfied = el_satisfied r, al_matches = el_matches r,
                             al_segments = an_segments a, al_by = el_by r\<rparr>))"

definition add_part :: "allowlist_analysis \<Rightarrow> allowlist_analysis \<Rightarrow> allowlist_analysis" where
  "add_part r r' = r'\<lparr>al_matches := al_matches r @ al_matches r', al_segments := al_segments r @ al_segments r',
     al_by := al_by r @ al_by r'\<rparr>"

text \<open>An analysis that fails discards what was collected.\<close>

fun evaluate_parts :: "exec_host \<Rightarrow> exec_policy \<Rightarrow> exec_env option \<Rightarrow> string list \<Rightarrow> allowlist_analysis result" where
  "evaluate_parts H P env [] =
     Inr \<lparr>al_analysisOk = True, al_satisfied = True, al_matches = [], al_segments = [], al_by = []\<rparr>"
| "evaluate_parts H P env (p # ps) =
     (case evaluate_part H P env p of Inl e \<Rightarrow> Inl e
      | Inr r \<Rightarrow>
          if \<not> al_analysisOk r \<or> \<not> al_satisfied r then Inr r
          else (case evaluate_parts H P env ps of Inl e \<Rightarrow> Inl e
            | Inr r' \<Rightarrow> Inr (if \<not> al_analysisOk r' then analysisFailure else add_part r r')))"

definition evaluateShellAllowlist :: "exec_host \<Rightarrow> exec_policy \<Rightarrow> exec_env option \<Rightarrow> string \<Rightarrow> allowlist_analysis result" where
  "evaluateShellAllowlist H P env command =
     (if hasShellLineContinuation command then Inr analysisFailure
      else (case (if isWindowsPlatform (ep_platform P) then None else splitCommandChain command) of
          None \<Rightarrow> evaluate_part H P env command
        | Some parts \<Rightarrow> evaluate_parts H P env parts))"

section \<open>Allow always\<close>

definition hasSegmentExecutableMatch :: "segment \<Rightarrow> (string \<Rightarrow> bool) \<Rightarrow> bool" where
  "hasSegmentExecutableMatch s matches =
     list_ex (\<lambda>c. js_trim (opt_str c) \<noteq> [] \<and> matches (js_trim (opt_str c)))
       [map_option cr_executableName (sg_resolution s), map_option cr_rawExecutable (sg_resolution s), next_arg (sg_argv s)]"

definition isShellWrapperSegment :: "segment \<Rightarrow> bool" where
  "isShellWrapperSegment s = hasSegmentExecutableMatch s isShellWrapperExecutable"

definition isDispatchWrapperSegment :: "segment \<Rightarrow> bool" where
  "isDispatchWrapperSegment s = hasSegmentExecutableMatch s isDispatchWrapperExecutable"

definition add_text :: "string \<Rightarrow> string list \<Rightarrow> string list" where
  "add_text p out = (if p \<in> set out then out else out @ [p])"

text \<open>The first argument counts the depth down from three.\<close>

fun collectAllowAlwaysPatterns ::
  "nat \<Rightarrow> exec_host \<Rightarrow> string option \<Rightarrow> exec_env option \<Rightarrow> string option \<Rightarrow> segment \<Rightarrow> string list \<Rightarrow> string list" where
  "collectAllowAlwaysPatterns 0 H cwd env platform s out = out"
| "collectAllowAlwaysPatterns (Suc left) H cwd env platform s out =
     (let resolve = resolveCommandResolutionFromArgv H cwd env;
          inner = (\<lambda>argv. the_segment resolve (join_with '' '' argv) argv) in
      if isDispatchWrapperSegment s then
        (case unwrapKnownDispatchWrapperInvocation (sg_argv s) of
           Unwrapped w argv \<Rightarrow> if argv = [] then out else collectAllowAlwaysPatterns left H cwd env platform (inner argv) out
         | _ \<Rightarrow> out)
      else (case unwrapKnownShellMultiplexerInvocation (sg_argv s) of
          Blocked w \<Rightarrow> out
        | Unwrapped w argv \<Rightarrow> collectAllowAlwaysPatterns left H cwd env platform (inner argv) out
        | NotWrapper \<Rightarrow>
            (let candidate = opt_str (resolveAllowlistCandidatePath H (sg_resolution s) cwd) in
             if candidate = [] then out
             else if \<not> isShellWrapperSegment s then add_text candidate out
             else let inline = opt_str (extractShellWrapperInlineCommand (sg_argv s)) in
                  if inline = [] then out
                  else (case analyzeShellCommand resolve platform inline of Inl _ \<Rightarrow> out
                    | Inr a \<Rightarrow> fold (collectAllowAlwaysPatterns left H cwd env platform) (an_segments a) out))))"

definition resolveAllowAlwaysPatterns ::
  "exec_host \<Rightarrow> string option \<Rightarrow> exec_env option \<Rightarrow> string option \<Rightarrow> segment list \<Rightarrow> string list" where
  "resolveAllowAlwaysPatterns H cwd env platform segments =
     fold (collectAllowAlwaysPatterns 3 H cwd env platform) segments []"

section \<open>What is allowed\<close>

text \<open>The file a segment would run, as the allowlist sees it.\<close>

definition candidate_path :: "exec_host \<Rightarrow> string option \<Rightarrow> segment \<Rightarrow> string" where
  "candidate_path H cwd s = opt_str (resolveAllowlistCandidatePath H (sg_resolution s) cwd)"

definition entry_allows :: "exec_host \<Rightarrow> string option \<Rightarrow> segment \<Rightarrow> allowlist_entry \<Rightarrow> bool" where
  "entry_allows H cwd s e =
     (sg_resolution s \<noteq> None \<and>
      (bare_wildcard e \<or>
       (let pattern = js_trim (ae_pattern e)
        in pattern \<noteq> [] \<and> (has_path_sep pattern \<or> CHR ''~'' \<in> set pattern) \<and> candidate_path H cwd s \<noteq> [] \<and>
           matchesPattern H pattern (candidate_path H cwd s) = Inr True)))"

definition skill_allows :: "exec_host \<Rightarrow> exec_policy \<Rightarrow> segment \<Rightarrow> bool" where
  "skill_allows H P s =
     (let trust = buildSkillBinTrustIndex H (ep_skillBins P)
      in isSkillAutoAllowedSegment H (ep_autoAllowSkills P \<and> trust \<noteq> []) trust s)"

text \<open>A segment may run: it is not blocked, and an entry, the safe bins or a skill allow it.\<close>

definition segment_allowed :: "exec_host \<Rightarrow> exec_policy \<Rightarrow> segment \<Rightarrow> bool" where
  "segment_allowed H P s =
     (\<not> policy_blocked s \<and>
      ((\<exists>e \<in> set (ep_allowlist P). entry_allows H (ep_cwd P) s e) \<or>
       isSafeBinUsage H P (effective_argv s) (sg_resolution s) \<or> skill_allows H P s))"

lemma first_matching_exact:
  "first_matching H t es = Inr m \<Longrightarrow>
     (\<forall>e. m = Some e \<longrightarrow> e \<in> set es) \<and>
     (m \<noteq> None) = (\<exists>e \<in> set es. let p = js_trim (ae_pattern e) in
        p \<noteq> [] \<and> (has_path_sep p \<or> CHR ''~'' \<in> set p) \<and> matchesPattern H p t = Inr True)"
  by (induction H t es arbitrary: m rule: first_matching.induct) (auto simp: Let_def split: if_splits sum.splits)

lemma candidate_of:
  assumes "sg_resolution s = Some r"
  shows "\<exists>r'. candidate_resolution H cwd s = Some r' \<and> opt_str (cr_resolvedPath r') = candidate_path H cwd s"
proof (cases "candidate_path H cwd s = []")
  case True
  then have "opt_str (cr_resolvedPath r) = []"
    using assms by (auto simp: candidate_path_def resolveAllowlistCandidatePath_def split: if_splits)
  then show ?thesis using True assms
    by (auto simp: candidate_resolution_def candidate_path_def split: option.splits)
next
  case False
  then obtain p where "resolveAllowlistCandidatePath H (Some r) cwd = Some p" "p \<noteq> []"
    using assms by (cases "resolveAllowlistCandidatePath H (Some r) cwd") (auto simp: candidate_path_def opt_str_def)
  then show ?thesis using assms by (simp add: candidate_resolution_def candidate_path_def)
qed

lemma matchAllowlist_exact:
  assumes "matchAllowlist H es (candidate_resolution H cwd s) = Inr m"
  shows "(m \<noteq> None) = (\<exists>e \<in> set es. entry_allows H cwd s e)"
    and "m = Some e \<Longrightarrow> e \<in> set es"
proof -
  have both: "(m \<noteq> None) = (\<exists>e \<in> set es. entry_allows H cwd s e) \<and> (\<forall>e. m = Some e \<longrightarrow> e \<in> set es)"
  proof (cases "sg_resolution s")
    case None
    then have "candidate_resolution H cwd s = None"
      by (simp add: candidate_resolution_def split: option.split)
    with None assms show ?thesis by (auto simp: matchAllowlist_def entry_allows_def split: option.splits)
  next
    case (Some r)
    from candidate_of [OF this] obtain r' where r': "candidate_resolution H cwd s = Some r'"
      "opt_str (cr_resolvedPath r') = candidate_path H cwd s" by blast
    show ?thesis
    proof (cases "find bare_wildcard es")
      case None
      then have nobare: "\<not> bare_wildcard e" if "e \<in> set es" for e using that by (auto simp: find_None_iff)
      show ?thesis
      proof (cases "candidate_path H cwd s = []")
        case True
        with r' None assms have "m = None" by (auto simp: matchAllowlist_def opt_str_def split: option.splits)
        with True nobare show ?thesis by (auto simp: entry_allows_def)
      next
        case False
        with r' have p: "cr_resolvedPath r' = Some (candidate_path H cwd s)" by (cases "cr_resolvedPath r'") (auto simp: opt_str_def)
        with r'(1) None False assms have "first_matching H (candidate_path H cwd s) es = Inr m"
          by (simp add: matchAllowlist_def)
        from first_matching_exact [OF this] False nobare Some show ?thesis
          by (auto simp: entry_allows_def Let_def)
      qed
    next
      case (Some e)
      with r' assms have "m = Some e" by (simp add: matchAllowlist_def)
      with Some \<open>sg_resolution s = Some r\<close> show ?thesis by (auto simp: entry_allows_def find_Some_iff)
    qed
  qed
  show "(m \<noteq> None) = (\<exists>e \<in> set es. entry_allows H cwd s e)" using both by blast
  show "m = Some e \<Longrightarrow> e \<in> set es" using both by blast
qed

lemma verdict_exact:
  assumes "segment_verdict H P s = Inr (m, by)" "\<not> policy_blocked s"
  shows "(by \<noteq> None) = segment_allowed H P s" "set (opt_list m) \<subseteq> set (ep_allowlist P)"
proof -
  from assms(1) have m: "matchAllowlist H (ep_allowlist P) (candidate_resolution H (ep_cwd P) s) = Inr m"
    by (auto simp: segment_verdict_def Let_def split: sum.splits)
  show "(by \<noteq> None) = segment_allowed H P s"
    using assms matchAllowlist_exact(1) [OF m]
    by (auto simp: segment_verdict_def segment_allowed_def skill_allows_def Let_def split: sum.splits if_splits)
  show "set (opt_list m) \<subseteq> set (ep_allowlist P)"
    using matchAllowlist_exact(2) [OF m] by (auto simp: opt_list_def split: option.splits)
qed

text \<open>What an evaluation says of the segments it looked at.\<close>

definition evaluation_sound :: "exec_policy \<Rightarrow> segment list \<Rightarrow> bool \<Rightarrow> allowlist_entry list \<Rightarrow> satisfied_by option list \<Rightarrow> bool" where
  "evaluation_sound P ss satisfied ms bys =
     (set ms \<subseteq> set (ep_allowlist P) \<and> (satisfied \<longrightarrow> length bys = length ss \<and> None \<notin> set bys))"

lemma evaluateSegments_exact:
  "evaluateSegments H P ss = Inr r \<Longrightarrow>
     el_satisfied r = list_all (segment_allowed H P) ss \<and> evaluation_sound P ss (el_satisfied r) (el_matches r) (el_by r)"
proof (induction H P ss arbitrary: r rule: evaluateSegments.induct)
  case (2 H P s ss)
  show ?case
  proof (cases "policy_blocked s")
    case False
    with 2(2) obtain m by' where v: "segment_verdict H P s = Inr (m, by')" by (auto split: sum.splits)
    note x = verdict_exact [OF v False]
    show ?thesis
    proof (cases by')
      case None
      with 2(2) False v x show ?thesis by (auto simp: evaluation_sound_def)
    next
      case (Some b)
      with 2(2) False v obtain r' where r': "evaluateSegments H P ss = Inr r'"
        "r = r'\<lparr>el_matches := opt_list m @ el_matches r', el_by := by' # el_by r'\<rparr>" by (auto split: sum.splits)
      from 2(1) [OF False v refl _ r'(1)] Some x r'(2) show ?thesis by (auto simp: evaluation_sound_def)
    qed
  qed (use 2(2) in \<open>auto simp: evaluation_sound_def segment_allowed_def\<close>)
qed (auto simp: evaluation_sound_def)

lemma evaluate_groups_exact:
  "evaluate_groups H P hasChains gs = Inr r \<Longrightarrow>
     el_satisfied r = list_all (segment_allowed H P) (concat gs) \<and>
     evaluation_sound P (concat gs) (el_satisfied r) (el_matches r) (el_by r)"
proof (induction H P hasChains gs arbitrary: r rule: evaluate_groups.induct)
  case (2 H P hasChains g gs)
  from 2(2) obtain r1 where r1: "evaluateSegments H P g = Inr r1" by (cases "evaluateSegments H P g") auto
  note x1 = evaluateSegments_exact [OF r1]
  show ?case
  proof (cases "el_satisfied r1")
    case True
    with 2(2) r1 obtain r2 where r2: "evaluate_groups H P hasChains gs = Inr r2"
      by (cases "evaluate_groups H P hasChains gs") auto
    from 2(1) [OF r1 _ this] True 2(2) r1 r2 x1 show ?thesis by (auto simp: evaluation_sound_def split: if_splits)
  next
    case False
    with 2(2) r1 x1 show ?thesis by (auto simp: evaluation_sound_def no_evaluation_def split: if_splits)
  qed
qed (auto simp: evaluation_sound_def)

subsection \<open>Whole commands\<close>

text \<open>A segment the analysis makes: its resolution is that of its arguments, none of which is empty.\<close>

definition segment_from :: "resolver \<Rightarrow> segment \<Rightarrow> bool" where
  "segment_from R s = (sg_resolution s = R (sg_argv s) \<and> sg_argv s \<noteq> [] \<and> list_all (\<lambda>t. t \<noteq> []) (sg_argv s))"

lemma parse_parts_from:
  "parseSegmentsFromParts R parts = Some ss \<Longrightarrow> list_all (segment_from R) ss \<and> length ss = length parts"
proof (induction parts arbitrary: ss)
  case (Cons raw parts)
  then obtain argv ss' where a: "splitShellArgs raw = Some argv" "argv \<noteq> []"
    "parseSegmentsFromParts R parts = Some ss'" "ss = the_segment R raw argv # ss'"
    by (auto split: option.splits if_splits)
  with Cons.IH [OF a(3)] splitShellArgs_nonempty [OF a(1)] show ?case
    by (simp add: segment_from_def the_segment_def)
qed simp

lemma split_pipeline_nonempty: "splitShellPipeline c = Inr pieces \<Longrightarrow> pieces \<noteq> []"
  by (auto simp: splitShellPipeline_def Let_def split: sum.splits if_splits)

lemma part_segments_from: "part_segments R part = Inr ss \<Longrightarrow> list_all (segment_from R) ss \<and> ss \<noteq> []"
  using parse_parts_from split_pipeline_nonempty
  by (fastforce simp: part_segments_def split: sum.splits option.splits)

lemma parts_segments_from:
  "parts_segments R parts = Inr sss \<Longrightarrow> list_all (segment_from R) (concat sss) \<and> (parts \<noteq> [] \<longrightarrow> concat sss \<noteq> [])"
  by (induction parts arbitrary: sss) (auto dest: part_segments_from split: sum.splits)

lemma windows_tokens_nonempty:
  "windows_tokens tokens buf q s = Some argv \<Longrightarrow> [] \<notin> set tokens \<Longrightarrow> [] \<notin> set argv"
  by (induction tokens buf q s rule: windows_tokens.induct) (auto simp: push_token_nonempty split: if_splits)

lemma chain_parts_nonempty: "splitCommandChain command = Some parts \<Longrightarrow> parts \<noteq> []"
  by (auto simp: splitCommandChain_def splitCommandChainWithOperators_def Let_def split: if_splits)

lemma analysis_from:
  assumes "analyzeShellCommand R platform command = Inr a"
  shows "list_all (segment_from R) (an_segments a)" "an_segments a \<noteq> []"
    "concat (case an_chains a of Some gs \<Rightarrow> gs | None \<Rightarrow> [an_segments a]) = an_segments a"
proof -
  have "list_all (segment_from R) (an_segments a) \<and> an_segments a \<noteq> [] \<and>
    concat (case an_chains a of Some gs \<Rightarrow> gs | None \<Rightarrow> [an_segments a]) = an_segments a"
  proof (cases "isWindowsPlatform platform")
    case True
    with assms obtain argv where argv: "tokenizeWindowsSegment command = Some argv"
      "a = \<lparr>an_segments = [the_segment R command argv], an_chains = None\<rparr>"
      by (auto simp: analyzeShellCommand_def analyzeWindowsShellCommand_def split: option.splits)
    from argv(1) have "argv \<noteq> [] \<and> [] \<notin> set argv"
      using windows_tokens_nonempty [of "[]" "[]" False command]
      by (auto simp: tokenizeWindowsSegment_def split: option.splits list.splits)
    with argv(2) show ?thesis by (auto simp: segment_from_def the_segment_def list_all_iff)
  next
    case False
    with assms show ?thesis
      by (auto simp: analyzeShellCommand_def split: option.splits sum.splits
          dest: part_segments_from parts_segments_from chain_parts_nonempty)
  qed
  then show "list_all (segment_from R) (an_segments a)" "an_segments a \<noteq> []"
    "concat (case an_chains a of Some gs \<Rightarrow> gs | None \<Rightarrow> [an_segments a]) = an_segments a" by blast+
qed

definition analysis_sound :: "exec_host \<Rightarrow> exec_policy \<Rightarrow> exec_env option \<Rightarrow> allowlist_analysis \<Rightarrow> bool" where
  "analysis_sound H P env r =
     (if \<not> al_analysisOk r then r = analysisFailure
      else al_satisfied r = list_all (segment_allowed H P) (al_segments r) \<and>
        evaluation_sound P (al_segments r) (al_satisfied r) (al_matches r) (al_by r) \<and>
        list_all (segment_from (resolveCommandResolutionFromArgv H (ep_cwd P) env)) (al_segments r))"

lemma evaluate_part_sound:
  assumes "evaluate_part H P env part = Inr r"
  shows "analysis_sound H P env r" "al_analysisOk r \<Longrightarrow> al_segments r \<noteq> []"
proof -
  let ?analysis = "analyzeShellCommand (resolveCommandResolutionFromArgv H (ep_cwd P) env) (ep_platform P) part"
  have "analysis_sound H P env r \<and> (al_analysisOk r \<longrightarrow> al_segments r \<noteq> [])"
  proof (cases ?analysis)
    case (Inl e)
    with assms show ?thesis by (auto simp: evaluate_part_def analysis_sound_def analysisFailure_def)
  next
    case (Inr a)
    note R = analysis_from [OF Inr]
    from assms Inr obtain e where e: "evaluateExecAllowlist H P (Inr a) = Inr e"
      "r = \<lparr>al_analysisOk = True, al_satisfied = el_satisfied e, al_matches = el_matches e, al_segments = an_segments a, al_by = el_by e\<rparr>"
      by (auto simp: evaluate_part_def split: sum.splits)
    from e(1) R(2) have "evaluate_groups H P (an_chains a \<noteq> None)
      (case an_chains a of Some gs \<Rightarrow> gs | None \<Rightarrow> [an_segments a]) = Inr e" by (simp add: evaluateExecAllowlist_def)
    from evaluate_groups_exact [OF this] e(2) R show ?thesis
      by (auto simp: analysis_sound_def)
  qed
  then show "analysis_sound H P env r" "al_analysisOk r \<Longrightarrow> al_segments r \<noteq> []" by blast+
qed

lemma add_part_sound:
  assumes "analysis_sound H P env r" "al_analysisOk r" "al_satisfied r" "analysis_sound H P env r'" "al_analysisOk r'"
  shows "analysis_sound H P env (add_part r r')"
  using assms by (auto simp: analysis_sound_def add_part_def evaluation_sound_def)

lemma evaluate_parts_sound:
  "evaluate_parts H P env parts = Inr r \<Longrightarrow>
     analysis_sound H P env r \<and> (parts \<noteq> [] \<longrightarrow> al_analysisOk r \<longrightarrow> al_segments r \<noteq> [])"
proof (induction parts arbitrary: r)
  case Nil
  then show ?case by (auto simp: analysis_sound_def evaluation_sound_def)
next
  case (Cons p ps)
  from Cons.prems obtain r1 where r1: "evaluate_part H P env p = Inr r1" by (cases "evaluate_part H P env p") auto
  note x1 = evaluate_part_sound [OF r1]
  show ?case
  proof (cases "al_analysisOk r1 \<and> al_satisfied r1")
    case True
    with Cons.prems r1 obtain r2 where r2: "evaluate_parts H P env ps = Inr r2"
      "r = (if \<not> al_analysisOk r2 then analysisFailure else add_part r1 r2)" by (cases "evaluate_parts H P env ps") auto
    from Cons.IH [OF r2(1)] have s2: "analysis_sound H P env r2" by blast
    show ?thesis
    proof (cases "al_analysisOk r2")
      case ok: True
      with r2(2) True x1 add_part_sound [OF x1(1) _ _ s2 ok] show ?thesis by (simp add: add_part_def)
    qed (use r2(2) in \<open>simp add: analysis_sound_def analysisFailure_def\<close>)
  next
    case False
    with Cons.prems r1 x1 show ?thesis by auto
  qed
qed

lemma failure_sound: "analysis_sound H P env analysisFailure \<and> \<not> al_analysisOk analysisFailure"
  by (simp add: analysis_sound_def analysisFailure_def)

lemma shell_allowlist_cases:
  assumes "evaluateShellAllowlist H P env command = Inr r"
  shows "r = analysisFailure \<or> evaluate_part H P env command = Inr r \<or>
    (\<exists>parts. parts \<noteq> [] \<and> evaluate_parts H P env parts = Inr r)"
proof (cases "hasShellLineContinuation command")
  case False
  let ?c = "if isWindowsPlatform (ep_platform P) then None else splitCommandChain command"
  show ?thesis
  proof (cases ?c)
    case None
    with assms False show ?thesis by (simp add: evaluateShellAllowlist_def)
  next
    case (Some parts)
    then have "parts \<noteq> []" using chain_parts_nonempty by (metis option.distinct(1))
    moreover have "evaluate_parts H P env parts = Inr r" using assms False Some by (simp add: evaluateShellAllowlist_def)
    ultimately show ?thesis by blast
  qed
qed (use assms in \<open>simp add: evaluateShellAllowlist_def\<close>)

lemma shell_allowlist_sound:
  assumes "evaluateShellAllowlist H P env command = Inr r"
  shows "analysis_sound H P env r" "al_analysisOk r \<Longrightarrow> al_segments r \<noteq> []"
proof -
  have "analysis_sound H P env r \<and> (al_analysisOk r \<longrightarrow> al_segments r \<noteq> [])"
    using shell_allowlist_cases [OF assms] failure_sound evaluate_part_sound evaluate_parts_sound by blast
  then show "analysis_sound H P env r" "al_analysisOk r \<Longrightarrow> al_segments r \<noteq> []" by blast+
qed

end
