(* ===== verification/ShellEnforced.thy ===== *)
theory ShellEnforced
  imports ShellAnalysis
begin

text \<open>
  What the analysis of shell commands guarantees: a command that is rebuilt with quoted arguments is
  read back as exactly those arguments, and an accepted pipeline without here-documents has no
  redirection, substitution or control operator outside of quotes.
\<close>

section \<open>Trimming\<close>

lemma js_trim_padded:
  assumes "list_all js_space a" "list_all js_space b" "x \<noteq> []" "\<not> js_space (hd x)" "\<not> js_space (last x)"
  shows "js_trim (a @ x @ b) = x"
proof -
  have drop: "dropWhile js_space (ws @ y) = y" if "list_all js_space ws" "y \<noteq> []" "\<not> js_space (hd y)" for ws y
    using that by (induction ws) (auto simp: neq_Nil_conv)
  have "dropWhile js_space (a @ x @ b) = x @ b" using drop [OF assms(1), of "x @ b"] assms(3,4) by simp
  moreover have "dropWhile js_space (rev b @ rev x) = rev x"
    using drop [of "rev b" "rev x"] assms(2,3,5) by (simp add: hd_rev list_all_iff)
  ultimately show ?thesis by (simp add: js_trim_def)
qed

definition quoted_ends :: "string \<Rightarrow> bool" where
  "quoted_ends x = (x \<noteq> [] \<and> hd x = squote \<and> last x = squote)"

lemma quoted_ends_join: "xs \<noteq> [] \<Longrightarrow> list_all quoted_ends xs \<Longrightarrow> quoted_ends (join_with sep xs)"
  by (induction sep xs rule: join_with.induct) (auto simp: quoted_ends_def)

lemma quoted_ends_arg: "quoted_ends (shellEscapeSingleArg v)"
  by (simp add: quoted_ends_def shellEscapeSingleArg_def)

lemma rendered_ends: "argv \<noteq> [] \<Longrightarrow> quoted_ends (renderQuotedArgv argv)"
  unfolding renderQuotedArgv_def by (intro quoted_ends_join) (simp_all add: list_all_iff quoted_ends_arg)

lemma trim_rendered:
  assumes "argv \<noteq> []" "list_all js_space a" "list_all js_space b"
  shows "js_trim (a @ renderQuotedArgv argv @ b) = renderQuotedArgv argv"
  using rendered_ends [OF assms(1)] assms(2,3) by (intro js_trim_padded) (simp_all add: quoted_ends_def)

section \<open>Quoted text in the pipeline scan\<close>

lemma keep_simps [simp]:
  "sp_quote (keep t st) = sp_quote st" "sp_escaped (keep t st) = sp_escaped st" "sp_inBody (keep t st) = sp_inBody st"
  "sp_pending (keep t st) = sp_pending st" "sp_segments (keep t st) = sp_segments st" "sp_line (keep t st) = sp_line st"
  "sp_buf (keep t st) = sp_buf st @ t" "sp_emptySegment (keep t st) = False"
  by (simp_all add: keep_def)

lemma keep_keep [simp]: "keep t (keep s st) = keep (s @ t) st"
  by (simp add: keep_def)

lemma keep_quote: "keep t (st\<lparr>sp_quote := q\<rparr>) = (keep t st)\<lparr>sp_quote := q\<rparr>"
  by (simp add: keep_def)

lemma sp_quote_same: "sp_quote st = q \<Longrightarrow> st\<lparr>sp_quote := q\<rparr> = st"
  by simp

definition open_scan :: "pipeline_scan \<Rightarrow> bool" where
  "open_scan st = (sp_quote st = Unquoted \<and> \<not> sp_escaped st \<and> \<not> sp_inBody st)"

lemma open_keep [simp]: "open_scan (keep t st) = open_scan st"
  by (simp add: open_scan_def)

lemma plain_chars [simp]:
  "\<not> line_break squote" "\<not> line_break dquote" "squote \<noteq> backtick" "squote \<noteq> CHR ''$''" "dquote \<noteq> CHR ''$''" "dquote \<noteq> backtick"
  "CHR '' '' \<noteq> squote" "CHR '' '' \<noteq> dquote" "CHR '' '' \<noteq> bslash" "\<not> line_break (CHR '' '')"
  "CHR '' '' \<notin> set DISALLOWED_PIPELINE_TOKENS"
  "CHR ''|'' \<noteq> squote" "CHR ''|'' \<noteq> dquote" "CHR ''|'' \<noteq> bslash" "\<not> line_break (CHR ''|'')"
  "CHR ''&'' \<noteq> squote" "CHR ''&'' \<noteq> dquote" "CHR ''&'' \<noteq> bslash"
  "CHR '';'' \<noteq> squote" "CHR '';'' \<noteq> dquote" "CHR '';'' \<noteq> bslash"
  "CHR '' '' \<noteq> backtick" "js_space (CHR '' '')"
  by code_simp+

lemma scan_single_char:
  assumes "sp_quote st = InSingle" "\<not> sp_escaped st" "\<not> sp_inBody st" "c \<noteq> squote"
  shows "scan_pipeline st (c # rest) = scan_pipeline (keep [c] st) rest"
  using assms by (simp add: pipeline_char_def)

lemma scan_single_close:
  assumes "sp_quote st = InSingle" "\<not> sp_escaped st" "\<not> sp_inBody st"
  shows "scan_pipeline st (squote # rest) = scan_pipeline (keep [squote] (st\<lparr>sp_quote := Unquoted\<rparr>)) rest"
  using assms by (simp add: pipeline_char_def)

lemma scan_open_quote:
  assumes "open_scan st"
  shows "scan_pipeline st (squote # rest) = scan_pipeline (keep [squote] (st\<lparr>sp_quote := InSingle\<rparr>)) rest"
    and "scan_pipeline st (dquote # rest) = scan_pipeline (keep [dquote] (st\<lparr>sp_quote := InDouble\<rparr>)) rest"
  using assms by (simp_all add: pipeline_char_def plain_step_char_def open_scan_def)

lemma scan_double_single:
  assumes "sp_quote st = InDouble" "\<not> sp_escaped st" "\<not> sp_inBody st"
  shows "scan_pipeline st (squote # rest) = scan_pipeline (keep [squote] st) rest"
    and "scan_pipeline st (dquote # rest) = scan_pipeline (keep [dquote] (st\<lparr>sp_quote := Unquoted\<rparr>)) rest"
  using assms by (simp_all add: pipeline_char_def double_step_def Let_def)

lemma scan_escaped_quote:
  assumes "sp_quote st = InSingle" "\<not> sp_escaped st" "\<not> sp_inBody st"
  shows "scan_pipeline st (singleQuoteEscape @ rest) = scan_pipeline (keep singleQuoteEscape st) rest"
  using assms
  by (simp add: singleQuoteEscape_def scan_single_close scan_open_quote scan_double_single open_scan_def keep_quote sp_quote_same
      del: scan_pipeline.simps)

lemma scan_single:
  assumes "sp_quote st = InSingle" "\<not> sp_escaped st" "\<not> sp_inBody st"
  shows "scan_pipeline st (concat (map escape_char v) @ squote # rest)
    = scan_pipeline (keep (concat (map escape_char v) @ [squote]) (st\<lparr>sp_quote := Unquoted\<rparr>)) rest"
  using assms
proof (induction v arbitrary: st)
  case Nil
  then show ?case using scan_single_close by (simp del: scan_pipeline.simps)
next
  case (Cons c v)
  have "scan_pipeline st (escape_char c @ concat (map escape_char v) @ squote # rest)
      = scan_pipeline (keep (escape_char c) st) (concat (map escape_char v) @ squote # rest)"
    using scan_escaped_quote [OF Cons.prems] scan_single_char [OF Cons.prems] by (simp add: escape_char_def del: scan_pipeline.simps)
  with Cons show ?case by (simp add: keep_quote [symmetric] del: scan_pipeline.simps)
qed

lemma scan_arg:
  assumes "open_scan st"
  shows "scan_pipeline st (shellEscapeSingleArg v @ rest) = scan_pipeline (keep (shellEscapeSingleArg v) st) rest"
proof -
  let ?st = "keep [squote] (st\<lparr>sp_quote := InSingle\<rparr>)"
  have "scan_pipeline st (shellEscapeSingleArg v @ rest) = scan_pipeline ?st (concat (map escape_char v) @ squote # rest)"
    using scan_open_quote(1) [OF assms] by (simp add: shellEscapeSingleArg_def del: scan_pipeline.simps)
  also have "\<dots> = scan_pipeline (keep (concat (map escape_char v) @ [squote]) (?st\<lparr>sp_quote := Unquoted\<rparr>)) rest"
    using assms by (intro scan_single) (simp_all add: open_scan_def)
  also have "keep (concat (map escape_char v) @ [squote]) (?st\<lparr>sp_quote := Unquoted\<rparr>) = keep (shellEscapeSingleArg v) st"
    using assms by (simp add: keep_def shellEscapeSingleArg_def open_scan_def)
  finally show ?thesis .
qed

lemma scan_space:
  assumes "open_scan st"
  shows "scan_pipeline st (CHR '' '' # rest) = scan_pipeline (keep '' '' st) rest"
  using assms by (simp add: pipeline_char_def plain_step_char_def open_scan_def Let_def)

lemma scan_rendered:
  assumes "argv \<noteq> []" "open_scan st"
  shows "scan_pipeline st (renderQuotedArgv argv @ rest) = scan_pipeline (keep (renderQuotedArgv argv) st) rest"
  using assms
proof (induction argv arbitrary: st)
  case (Cons v argv)
  show ?case
  proof (cases argv)
    case Nil
    with scan_arg [OF Cons.prems(2)] show ?thesis by (simp add: renderQuotedArgv_def)
  next
    case (Cons w ws)
    have parts: "renderQuotedArgv (v # argv) = shellEscapeSingleArg v @ CHR '' '' # renderQuotedArgv argv"
      using Cons by (simp add: renderQuotedArgv_def)
    have "scan_pipeline st (renderQuotedArgv (v # argv) @ rest)
        = scan_pipeline (keep (shellEscapeSingleArg v @ '' '') st) (renderQuotedArgv argv @ rest)"
      using scan_arg [OF Cons.prems(2)] scan_space Cons.prems(2) by (simp add: parts del: scan_pipeline.simps)
    also have "\<dots> = scan_pipeline (keep (renderQuotedArgv (v # argv)) st) rest"
      unfolding parts using Cons.IH [of "keep (shellEscapeSingleArg v @ '' '') st"] Cons Cons.prems(2)
      by (simp del: scan_pipeline.simps)
    finally show ?thesis .
  qed
qed simp

text \<open>Between two segments: a blank, the bar, a blank.\<close>

lemma scan_bar:
  assumes "open_scan st"
  shows "scan_pipeline st ('' | '' @ rest) = scan_pipeline (keep '' '' (push_part (keep '' '' st))) rest"
  using assms
  by (simp add: pipeline_char_def plain_step_char_def open_scan_def Let_def push_part_def keep_def)

definition blank :: "string \<Rightarrow> bool" where "blank s = list_all js_space s"

lemma push_part_rendered:
  assumes "argv \<noteq> []" "blank (sp_buf st)" "blank b"
  shows "push_part (keep b (keep (renderQuotedArgv argv) st))
    = st\<lparr>sp_segments := sp_segments st @ [renderQuotedArgv argv], sp_buf := [], sp_emptySegment := False\<rparr>"
  using trim_rendered [OF assms(1), of "sp_buf st" b] assms rendered_ends [OF assms(1)]
  by (simp add: push_part_def keep_def blank_def quoted_ends_def)

lemma scan_pieces:
  assumes "argvs \<noteq> []" "[] \<notin> set argvs" "open_scan st" "blank (sp_buf st)"
  shows "\<exists>st'. scan_pipeline st (join_with '' | '' (map renderQuotedArgv argvs)) = Inr st' \<and> open_scan st'
    \<and> sp_pending st' = sp_pending st \<and> \<not> sp_emptySegment st'
    \<and> sp_segments (push_part st') = sp_segments st @ map renderQuotedArgv argvs"
  using assms
proof (induction argvs arbitrary: st)
  case (Cons a argvs)
  have a: "a \<noteq> []" using Cons.prems(2) by auto
  show ?case
  proof (cases argvs)
    case Nil
    have "scan_pipeline st (renderQuotedArgv a) = Inr (keep (renderQuotedArgv a) st)"
      using scan_rendered [OF a Cons.prems(3), of "[]"] by simp
    with Nil push_part_rendered [OF a Cons.prems(4), of "[]"] Cons.prems(3) show ?thesis by (simp add: blank_def)
  next
    case (Cons w ws)
    let ?st = "push_part (keep '' '' (keep (renderQuotedArgv a) st))"
    have st: "?st = st\<lparr>sp_segments := sp_segments st @ [renderQuotedArgv a], sp_buf := [], sp_emptySegment := False\<rparr>"
      using push_part_rendered [OF a Cons.prems(4)] by (simp add: blank_def)
    have "scan_pipeline st (join_with '' | '' (map renderQuotedArgv (a # argvs)))
        = scan_pipeline st (renderQuotedArgv a @ '' | '' @ join_with '' | '' (map renderQuotedArgv argvs))"
      using Cons by simp
    also have "\<dots> = scan_pipeline (keep '' '' ?st) (join_with '' | '' (map renderQuotedArgv argvs))"
      using scan_rendered [OF a Cons.prems(3)] scan_bar [of "keep (renderQuotedArgv a) st"] Cons.prems(3)
      by (simp del: scan_pipeline.simps append_Cons)
    finally have go: "scan_pipeline st (join_with '' | '' (map renderQuotedArgv (a # argvs)))
        = scan_pipeline (keep '' '' ?st) (join_with '' | '' (map renderQuotedArgv argvs))" .
    have "open_scan (keep '' '' ?st)" "blank (sp_buf (keep '' '' ?st))"
      using Cons.prems(3) by (simp_all add: st [unfolded keep_keep] open_scan_def blank_def)
    from Cons.IH [OF _ _ this] Cons Cons.prems(2) show ?thesis unfolding go by (simp add: st [unfolded keep_keep])
  qed
qed simp

lemma splitShellPipeline_pieces:
  assumes "argvs \<noteq> []" "[] \<notin> set argvs"
  shows "splitShellPipeline (join_with '' | '' (map renderQuotedArgv argvs)) = Inr (map renderQuotedArgv argvs)"
proof -
  have "open_scan scan_start" "blank (sp_buf scan_start)" by (simp_all add: open_scan_def scan_start_def blank_def)
  from scan_pieces [OF assms this] obtain st where
    st: "scan_pipeline scan_start (join_with '' | '' (map renderQuotedArgv argvs)) = Inr st" "open_scan st"
      "sp_pending st = []" "\<not> sp_emptySegment st" "sp_segments (push_part st) = map renderQuotedArgv argvs"
    by (auto simp: scan_start_def)
  then show ?thesis using assms(1) by (simp add: splitShellPipeline_def last_heredoc_def open_scan_def Let_def)
qed

section \<open>Quoted text in the chain scan\<close>

lemma chain_keep_simps [simp]:
  "sc_quote (chain_keep t st) = sc_quote st" "sc_escaped (chain_keep t st) = sc_escaped st"
  "sc_parts (chain_keep t st) = sc_parts st" "sc_buf (chain_keep t st) = sc_buf st @ t"
  "sc_foundChain (chain_keep t st) = sc_foundChain st" "sc_invalidChain (chain_keep t st) = sc_invalidChain st"
  by (simp_all add: chain_keep_def)

lemma chain_keep_keep [simp]: "chain_keep t (chain_keep s st) = chain_keep (s @ t) st"
  by (simp add: chain_keep_def)

lemma chain_keep_quote: "chain_keep t (st\<lparr>sc_quote := q\<rparr>) = (chain_keep t st)\<lparr>sc_quote := q\<rparr>"
  by (simp add: chain_keep_def)

definition open_chain :: "chain_scan \<Rightarrow> bool" where
  "open_chain st = (sc_quote st = Unquoted \<and> \<not> sc_escaped st)"

lemma open_chain_keep [simp]: "open_chain (chain_keep t st) = open_chain st"
  by (simp add: open_chain_def)

lemma chain_single_char:
  assumes "sc_quote st = InSingle" "\<not> sc_escaped st" "c \<noteq> squote"
  shows "scan_chain st (c # rest) = scan_chain (chain_keep [c] st) rest"
  using assms by (simp add: chain_char_def Let_def)

lemma chain_quotes:
  assumes "\<not> sc_escaped st"
  shows "sc_quote st = InSingle \<Longrightarrow> scan_chain st (squote # rest) = scan_chain (chain_keep [squote] (st\<lparr>sc_quote := Unquoted\<rparr>)) rest"
    and "sc_quote st = InDouble \<Longrightarrow> scan_chain st (squote # rest) = scan_chain (chain_keep [squote] st) rest"
    and "sc_quote st = InDouble \<Longrightarrow> scan_chain st (dquote # rest) = scan_chain (chain_keep [dquote] (st\<lparr>sc_quote := Unquoted\<rparr>)) rest"
    and "sc_quote st = Unquoted \<Longrightarrow> scan_chain st (squote # rest) = scan_chain (chain_keep [squote] (st\<lparr>sc_quote := InSingle\<rparr>)) rest"
    and "sc_quote st = Unquoted \<Longrightarrow> scan_chain st (dquote # rest) = scan_chain (chain_keep [dquote] (st\<lparr>sc_quote := InDouble\<rparr>)) rest"
  using assms by (simp_all add: chain_char_def Let_def)

lemma chain_quote_same: "sc_quote st = q \<Longrightarrow> (chain_keep t st)\<lparr>sc_quote := q\<rparr> = chain_keep t st"
  by (simp add: chain_keep_def)

lemma chain_escaped_quote:
  assumes "sc_quote st = InSingle" "\<not> sc_escaped st"
  shows "scan_chain st (singleQuoteEscape @ rest) = scan_chain (chain_keep singleQuoteEscape st) rest"
  using assms by (simp add: singleQuoteEscape_def chain_quotes chain_keep_quote chain_quote_same del: scan_chain.simps)

lemma chain_single:
  assumes "sc_quote st = InSingle" "\<not> sc_escaped st"
  shows "scan_chain st (concat (map escape_char v) @ squote # rest)
    = scan_chain (chain_keep (concat (map escape_char v) @ [squote]) (st\<lparr>sc_quote := Unquoted\<rparr>)) rest"
  using assms
proof (induction v arbitrary: st)
  case Nil
  then show ?case using chain_quotes by (simp del: scan_chain.simps)
next
  case (Cons c v)
  have "scan_chain st (escape_char c @ concat (map escape_char v) @ squote # rest)
      = scan_chain (chain_keep (escape_char c) st) (concat (map escape_char v) @ squote # rest)"
    using chain_escaped_quote [OF Cons.prems] chain_single_char [OF Cons.prems] by (simp add: escape_char_def del: scan_chain.simps)
  with Cons show ?case by (simp add: chain_keep_quote [symmetric] del: scan_chain.simps)
qed

lemma chain_arg:
  assumes "open_chain st"
  shows "scan_chain st (shellEscapeSingleArg v @ rest) = scan_chain (chain_keep (shellEscapeSingleArg v) st) rest"
proof -
  let ?st = "chain_keep [squote] (st\<lparr>sc_quote := InSingle\<rparr>)"
  have "scan_chain st (shellEscapeSingleArg v @ rest) = scan_chain ?st (concat (map escape_char v) @ squote # rest)"
    using chain_quotes(4) assms by (simp add: shellEscapeSingleArg_def open_chain_def del: scan_chain.simps)
  also have "\<dots> = scan_chain (chain_keep (concat (map escape_char v) @ [squote]) (?st\<lparr>sc_quote := Unquoted\<rparr>)) rest"
    using assms by (intro chain_single) (simp_all add: open_chain_def)
  also have "chain_keep (concat (map escape_char v) @ [squote]) (?st\<lparr>sc_quote := Unquoted\<rparr>) = chain_keep (shellEscapeSingleArg v) st"
    using assms by (simp add: chain_keep_def shellEscapeSingleArg_def open_chain_def)
  finally show ?thesis .
qed

lemma chain_blank:
  assumes "open_chain st"
  shows "scan_chain st (CHR '' '' # rest) = scan_chain (chain_keep '' '' st) rest"
    and "scan_chain st ('' | '' @ rest) = scan_chain (chain_keep '' | '' st) rest"
  using assms by (simp_all add: chain_char_def open_chain_def Let_def)

text \<open>A text the chain scan takes as it is.\<close>

definition chain_passes :: "string \<Rightarrow> bool" where
  "chain_passes t = (\<forall>st rest. open_chain st \<longrightarrow> scan_chain st (t @ rest) = scan_chain (chain_keep t st) rest)"

lemma chain_passes_append: "chain_passes a \<Longrightarrow> chain_passes b \<Longrightarrow> chain_passes (a @ b)"
  by (simp add: chain_passes_def)

lemma chain_passes_join: "xs \<noteq> [] \<Longrightarrow> list_all chain_passes xs \<Longrightarrow> chain_passes sep \<Longrightarrow> chain_passes (join_with sep xs)"
  by (induction sep xs rule: join_with.induct) (simp_all add: chain_passes_append)

lemma chain_passes_rendered: "argv \<noteq> [] \<Longrightarrow> chain_passes (renderQuotedArgv argv)"
  unfolding renderQuotedArgv_def
  by (intro chain_passes_join) (simp_all add: list_all_iff chain_passes_def chain_arg chain_blank del: scan_chain.simps)

lemma chain_passes_pieces:
  assumes "argvs \<noteq> []" "[] \<notin> set argvs"
  shows "chain_passes (join_with '' | '' (map renderQuotedArgv argvs))"
proof (rule chain_passes_join)
  show "chain_passes '' | ''" unfolding chain_passes_def using chain_blank(2) by blast
  show "list_all chain_passes (map renderQuotedArgv argvs)"
    using assms(2) by (auto simp: list_all_iff intro: chain_passes_rendered)
qed (simp add: assms(1))

section \<open>A rebuilt command\<close>

definition pipeline_text :: "string list list \<Rightarrow> string" where
  "pipeline_text argvs = join_with '' | '' (map renderQuotedArgv argvs)"

definition op_part :: "chain_op option \<Rightarrow> string" where
  "op_part op = (case op of Some o' \<Rightarrow> '' '' @ op_text o' @ '' '' | None \<Rightarrow> [])"

fun chain_text :: "string list list list \<Rightarrow> chain_op option list \<Rightarrow> string" where
  "chain_text (g # gs) (op # ops) = pipeline_text g @ op_part op @ chain_text gs ops"
| "chain_text _ _ = []"

definition pipeline_ok :: "string list list \<Rightarrow> bool" where
  "pipeline_ok g = (g \<noteq> [] \<and> list_all (\<lambda>argv. argv \<noteq> [] \<and> list_all (\<lambda>t. t \<noteq> []) argv) g)"

lemma pipeline_okD: "pipeline_ok g \<Longrightarrow> g \<noteq> [] \<and> [] \<notin> set g"
  by (auto simp: pipeline_ok_def list_all_iff)

lemma quoted_ends_pipeline: "pipeline_ok g \<Longrightarrow> quoted_ends (pipeline_text g)"
  unfolding pipeline_text_def
  by (intro quoted_ends_join) (auto simp: list_all_iff pipeline_ok_def intro: rendered_ends)

lemma trim_pipeline: "pipeline_ok g \<Longrightarrow> blank a \<Longrightarrow> blank b \<Longrightarrow> js_trim (a @ pipeline_text g @ b) = pipeline_text g"
  using quoted_ends_pipeline [of g] by (intro js_trim_padded) (simp_all add: quoted_ends_def blank_def)

lemma part_segments_text:
  assumes "pipeline_ok g"
  shows "part_segments R (pipeline_text g) = Inr (map (\<lambda>a. the_segment R (renderQuotedArgv a) a) g)"
proof -
  have "list_all (\<lambda>argv. argv \<noteq> [] \<and> list_all (\<lambda>t. t \<noteq> []) argv) g" using assms by (simp add: pipeline_ok_def)
  then have "parseSegmentsFromParts R (map renderQuotedArgv g) = Some (map (\<lambda>a. the_segment R (renderQuotedArgv a) a) g)"
    by (induction g) (auto simp: splitShellArgs_rendered)
  then show ?thesis using pipeline_okD [OF assms]
    by (simp add: part_segments_def pipeline_text_def splitShellPipeline_pieces)
qed

lemma parts_segments_texts:
  "list_all pipeline_ok gs \<Longrightarrow>
    parts_segments R (map pipeline_text gs) = Inr (map (map (\<lambda>a. the_segment R (renderQuotedArgv a) a)) gs)"
  by (induction gs) (simp_all add: part_segments_text)

lemma chain_op_text:
  assumes "open_chain st"
  shows "scan_chain st (op_text o' @ CHR '' '' # rest) = scan_chain (chain_push o' st) (CHR '' '' # rest)"
  using assms
  by (cases o')
     (simp_all only: op_text_def chain_op.case append.simps scan_chain.simps(2) [of st],
      simp_all add: chain_char_def open_chain_def Let_def del: scan_chain.simps)

lemma chain_operator:
  assumes "open_chain st"
  shows "scan_chain st (op_part (Some o') @ rest) = scan_chain (chain_keep '' '' (chain_push o' (chain_keep '' '' st))) rest"
proof -
  have pushed: "open_chain (chain_push o' (chain_keep '' '' st))"
    using assms by (simp add: chain_push_def open_chain_def Let_def)
  have "scan_chain st (op_part (Some o') @ rest) = scan_chain (chain_keep '' '' st) (op_text o' @ CHR '' '' # rest)"
    using chain_blank(1) [OF assms] by (simp add: op_part_def del: scan_chain.simps)
  also have "\<dots> = scan_chain (chain_push o' (chain_keep '' '' st)) (CHR '' '' # rest)"
    using assms by (intro chain_op_text) simp
  also have "\<dots> = scan_chain (chain_keep '' '' (chain_push o' (chain_keep '' '' st))) rest"
    using pushed by (rule chain_blank(1))
  finally show ?thesis .
qed

lemma chain_push_text:
  assumes "pipeline_ok g" "blank (sc_buf st)"
  shows "chain_push o' (chain_keep '' '' (chain_keep (pipeline_text g) st))
    = st\<lparr>sc_parts := sc_parts st @ [(pipeline_text g, Some o')], sc_buf := [], sc_foundChain := True\<rparr>"
  using trim_pipeline [OF assms, of "'' ''"] quoted_ends_pipeline [OF assms(1)]
  by (simp add: chain_push_def chain_keep_def Let_def blank_def quoted_ends_def)

lemma chain_passes_pipeline: "pipeline_ok g \<Longrightarrow> chain_passes (pipeline_text g)"
  unfolding pipeline_text_def using pipeline_okD by (intro chain_passes_pieces) auto

lemma scan_chain_text:
  assumes "list_all pipeline_ok gs" "length gs = Suc (length ops)" "open_chain st" "blank (sc_buf st)" "\<not> sc_invalidChain st"
  shows "\<exists>st'. scan_chain st (chain_text gs (map Some ops @ [None])) = st'
    \<and> sc_parts st' = sc_parts st @ zip (map pipeline_text (butlast gs)) (map Some ops)
    \<and> js_trim (sc_buf st') = pipeline_text (last gs) \<and> sc_foundChain st' = (sc_foundChain st \<or> ops \<noteq> [])
    \<and> \<not> sc_invalidChain st'"
  using assms
proof (induction ops arbitrary: gs st)
  case Nil
  then obtain g where g: "gs = [g]" "pipeline_ok g" by (auto simp: length_Suc_conv)
  have "scan_chain st (pipeline_text g @ []) = scan_chain (chain_keep (pipeline_text g) st) []"
    using chain_passes_pipeline [OF g(2)] Nil.prems(3) unfolding chain_passes_def by blast
  then show ?case using g Nil.prems trim_pipeline [OF g(2), of "sc_buf st" "[]"] by (simp add: op_part_def blank_def)
next
  case (Cons o' ops)
  then obtain g gs' where g: "gs = g # gs'" "pipeline_ok g" "list_all pipeline_ok gs'" "length gs' = Suc (length ops)"
    by (auto simp: length_Suc_conv)
  let ?st = "st\<lparr>sc_parts := sc_parts st @ [(pipeline_text g, Some o')], sc_buf := [], sc_foundChain := True\<rparr>"
  have "scan_chain st (pipeline_text g @ op_part (Some o') @ chain_text gs' (map Some ops @ [None]))
      = scan_chain (chain_keep (pipeline_text g) st) (op_part (Some o') @ chain_text gs' (map Some ops @ [None]))"
    using chain_passes_pipeline [OF g(2)] Cons.prems(3) unfolding chain_passes_def by blast
  also have "\<dots> = scan_chain (chain_keep '' '' ?st) (chain_text gs' (map Some ops @ [None]))"
    using chain_operator [of "chain_keep (pipeline_text g) st" o'] Cons.prems(3,4) chain_push_text [OF g(2), of st o']
    by (simp del: chain_keep_keep)
  finally have go: "scan_chain st (chain_text gs (map Some (o' # ops) @ [None]))
      = scan_chain (chain_keep '' '' ?st) (chain_text gs' (map Some ops @ [None]))"
    by (simp add: g(1))
  have "open_chain (chain_keep '' '' ?st)" "blank (sc_buf (chain_keep '' '' ?st))" "\<not> sc_invalidChain (chain_keep '' '' ?st)"
    using Cons.prems(3,5) by (simp_all add: open_chain_def blank_def)
  from Cons.IH [OF g(3,4) this] show ?case unfolding go using g(1,4) by auto
qed

text \<open>The operators of a chain: all parts but the last have one.\<close>

lemma chain_char_parts:
  assumes "chain_char st c rest = Some (st', rest')" "None \<notin> snd ` set (sc_parts st)"
    "sc_foundChain st \<Longrightarrow> \<not> sc_invalidChain st \<Longrightarrow> sc_parts st \<noteq> []"
  shows "None \<notin> snd ` set (sc_parts st')" "sc_foundChain st' \<Longrightarrow> \<not> sc_invalidChain st' \<Longrightarrow> sc_parts st' \<noteq> []"
  using assms
  by (auto simp: chain_char_def Let_def chain_keep_def chain_push_def split: if_splits)

lemma scan_chain_parts:
  "None \<notin> snd ` set (sc_parts st) \<Longrightarrow> (sc_foundChain st \<Longrightarrow> \<not> sc_invalidChain st \<Longrightarrow> sc_parts st \<noteq> []) \<Longrightarrow>
    None \<notin> snd ` set (sc_parts (scan_chain st s)) \<and>
    (sc_foundChain (scan_chain st s) \<and> \<not> sc_invalidChain (scan_chain st s) \<longrightarrow> sc_parts (scan_chain st s) \<noteq> [])"
proof (induction st s rule: scan_chain.induct)
  case (2 st c rest)
  show ?case
  proof (cases "chain_char st c rest")
    case None
    with 2 show ?thesis by simp
  next
    case (Some a)
    obtain st' rest' where a: "a = (st', rest')" by (cases a)
    from chain_char_parts [OF Some [unfolded a]] 2 Some a show ?thesis by (simp add: a)
  qed
qed simp

lemma no_None_ops: "None \<notin> set xs \<Longrightarrow> \<exists>ops. xs = map Some ops"
proof (induction xs)
  case (Cons x xs)
  then obtain y ops where "x = Some y" "xs = map Some ops" by (cases x) auto
  then show ?case by (intro exI [of _ "y # ops"]) simp
qed simp

lemma chain_ops:
  assumes "splitCommandChainWithOperators command = Some parts"
  shows "\<exists>ops. map snd parts = map Some ops @ [None] \<and> ops \<noteq> []"
proof -
  let ?st = "scan_chain chain_start command"
  have st: "sc_foundChain ?st" "\<not> sc_invalidChain ?st" "parts = sc_parts ?st @ [(js_trim (sc_buf ?st), None)]"
    using assms by (simp_all add: splitCommandChainWithOperators_def Let_def split: if_splits)
  have "None \<notin> snd ` set (sc_parts ?st)" "sc_parts ?st \<noteq> []"
    using scan_chain_parts [of chain_start command] st(1,2) by (simp_all add: chain_start_def)
  then show ?thesis using no_None_ops [of "map snd (sc_parts ?st)"] st(3) by auto
qed

lemma render_segments_planned:
  "render_segments (render_planned segs) n raws = Inr ts \<Longrightarrow> n \<le> length segs \<Longrightarrow>
    n + length raws \<le> length segs \<and>
    (\<exists>as. map Some as = map resolvePlannedSegmentArgv (take (length raws) (drop n segs)) \<and> ts = map renderQuotedArgv as)"
proof (induction raws arbitrary: n ts)
  case (Cons raw raws)
  from Cons.prems(1) obtain argv ts' where r: "n < length segs" "resolvePlannedSegmentArgv (segs ! n) = Some argv"
    "render_segments (render_planned segs) (Suc n) raws = Inr ts'" "ts = renderQuotedArgv argv # ts'"
    by (auto simp: render_planned_def [of segs raw n] split: sum.splits if_splits option.splits)
  from Cons.IH [OF r(3)] r(1) obtain as where
    as: "map Some as = map resolvePlannedSegmentArgv (take (length raws) (drop (Suc n) segs))" "ts' = map renderQuotedArgv as"
      "Suc n + length raws \<le> length segs" by auto
  have "map Some (argv # as) = map resolvePlannedSegmentArgv (take (length (raw # raws)) (drop n segs))"
    using r(1,2) as(1) by (simp add: Cons_nth_drop_Suc [symmetric])
  with as r(4) show ?case by (metis add_Suc_right add_Suc_shift length_Cons list.map(2))
qed simp

lemma splitShellPipeline_nonempty: "splitShellPipeline c = Inr pieces \<Longrightarrow> pieces \<noteq> []"
  by (auto simp: splitShellPipeline_def Let_def split: sum.splits if_splits)

lemma rebuild_parts_planned:
  "rebuild_parts (render_planned segs) n out parts = Inr (cmd, k) \<Longrightarrow> n \<le> length segs \<Longrightarrow>
    n \<le> k \<and> k \<le> length segs \<and>
    (\<exists>gs. length gs = length parts \<and> [] \<notin> set gs \<and> cmd = out @ chain_text gs (map snd parts)
       \<and> map Some (concat gs) = map resolvePlannedSegmentArgv (take (k - n) (drop n segs)))"
proof (induction parts arbitrary: n out)
  case (Cons p parts)
  obtain part op where p: "p = (part, op)" by (cases p)
  from Cons.prems(1) obtain pieces ts where r: "splitShellPipeline part = Inr pieces"
    "render_segments (render_planned segs) n pieces = Inr ts"
    "rebuild_parts (render_planned segs) (n + length pieces) (out @ join_with '' | '' ts @ op_part op) parts = Inr (cmd, k)"
    by (auto simp: p op_part_def split: sum.splits)
  from render_segments_planned [OF r(2) Cons.prems(2)] obtain g where
    g: "n + length pieces \<le> length segs" "map Some g = map resolvePlannedSegmentArgv (take (length pieces) (drop n segs))"
      "ts = map renderQuotedArgv g" by blast
  from Cons.IH [OF r(3) g(1)] obtain gs where
    gs: "n + length pieces \<le> k" "k \<le> length segs" "length gs = length parts" "[] \<notin> set gs"
      "cmd = (out @ join_with '' | '' ts @ op_part op) @ chain_text gs (map snd parts)"
      "map Some (concat gs) = map resolvePlannedSegmentArgv (take (k - (n + length pieces)) (drop (n + length pieces) segs))"
    by blast
  have lg: "length g = length pieces" using g(1) arg_cong [OF g(2), of length] by simp
  have "take (k - n) (drop n segs)
      = take (length pieces) (drop n segs) @ take (k - (n + length pieces)) (drop (n + length pieces) segs)"
    using gs(1) take_add [of "length pieces" "k - (n + length pieces)" "drop n segs"] by (simp add: add.commute)
  then have "map Some (concat (g # gs)) = map resolvePlannedSegmentArgv (take (k - n) (drop n segs))"
    using g(2) gs(6) by simp
  moreover have "g \<noteq> []" using lg splitShellPipeline_nonempty [OF r(1)] by auto
  moreover have "cmd = out @ chain_text (g # gs) (map snd (p # parts))"
    using gs(5) g(3) by (simp add: p pipeline_text_def)
  ultimately show ?case using gs by (intro conjI exI [of _ "g # gs"]) auto
qed simp

text \<open>The rebuilt command is read as the planned arguments.\<close>

lemma planned_nonempty: "resolvePlannedSegmentArgv s \<noteq> Some []"
  by (auto simp: resolvePlannedSegmentArgv_def Let_def split: option.splits if_splits)

lemma analyze_chain_text:
  assumes "list_all pipeline_ok gs" "length gs = Suc (length ops)" "\<not> isWindowsPlatform platform"
  shows "\<exists>b. analyzeShellCommand R platform (chain_text gs (map Some ops @ [None])) = Inr b
    \<and> map sg_argv (an_segments b) = concat gs"
    and "splitCommandChainWithOperators (chain_text gs (map Some ops @ [None]))
      = (if ops = [] then None else Some (zip (map pipeline_text gs) (map Some ops @ [None])))"
proof -
  let ?text = "chain_text gs (map Some ops @ [None])"
  let ?st = "scan_chain chain_start ?text"
  have st: "sc_parts ?st = zip (map pipeline_text (butlast gs)) (map Some ops)"
    "js_trim (sc_buf ?st) = pipeline_text (last gs)" "sc_foundChain ?st = (ops \<noteq> [])" "\<not> sc_invalidChain ?st"
    using scan_chain_text [OF assms(1,2), of chain_start] by (auto simp: chain_start_def open_chain_def blank_def)
  have ne: "gs \<noteq> []" using assms(2) by auto
  have last: "pipeline_ok (last gs)" using assms(1) ne by (simp add: list_all_iff)
  have zips: "zip (map pipeline_text gs) (map Some ops @ [None])
      = zip (map pipeline_text (butlast gs)) (map Some ops) @ [(pipeline_text (last gs), None)]"
  proof -
    have "map pipeline_text gs = map pipeline_text (butlast gs) @ [pipeline_text (last gs)]"
      using ne by (metis append_butlast_last_id list.simps(8) list.simps(9) map_append)
    then show ?thesis using assms(2) by (simp add: zip_append)
  qed
  show split: "splitCommandChainWithOperators ?text
      = (if ops = [] then None else Some (zip (map pipeline_text gs) (map Some ops @ [None])))"
    using st quoted_ends_pipeline [OF last]
    by (simp add: splitCommandChainWithOperators_def Let_def zips quoted_ends_def)
  show "\<exists>b. analyzeShellCommand R platform ?text = Inr b \<and> map sg_argv (an_segments b) = concat gs"
  proof (cases "ops = []")
    case True
    with assms(2) obtain g where g: "gs = [g]" "pipeline_ok g" using assms(1) by (auto simp: length_Suc_conv)
    then show ?thesis using True assms(3) split
      by (simp add: analyzeShellCommand_def splitCommandChain_def op_part_def part_segments_text the_segment_def comp_def)
  next
    case False
    have "splitCommandChain ?text = Some (map pipeline_text gs)"
      using False assms(2) by (simp add: splitCommandChain_def split)
    then show ?thesis using assms(3) parts_segments_texts [OF assms(1), of R]
      by (simp add: analyzeShellCommand_def map_concat comp_def the_segment_def)
  qed
qed

lemma enforced_text:
  assumes "buildEnforcedShellCommand platform command segs = Inr out"
  shows "\<not> isWindowsPlatform platform \<and> (\<exists>gs ops. length gs = Suc (length ops) \<and> [] \<notin> set gs
    \<and> out = chain_text gs (map Some ops @ [None]) \<and> map Some (concat gs) = map resolvePlannedSegmentArgv segs
    \<and> map_option (map snd) (splitCommandChainWithOperators (js_trim command))
        = (if ops = [] then None else Some (map Some ops @ [None])))"
proof -
  let ?c = "splitCommandChainWithOperators (js_trim command)"
  let ?parts = "case ?c of Some c \<Rightarrow> c | None \<Rightarrow> [(js_trim command, None)]"
  obtain k where r: "rebuild_parts (render_planned segs) 0 [] ?parts = Inr (out, k)" "k = length segs"
    and w: "\<not> isWindowsPlatform platform"
    using assms
    by (auto simp: buildEnforcedShellCommand_def rebuildShellCommandFromSource_def check_count_def Let_def split: sum.splits if_splits)
  obtain ops where ops: "map snd ?parts = map Some ops @ [None]"
    "map_option (map snd) ?c = (if ops = [] then None else Some (map Some ops @ [None]))"
  proof (cases ?c)
    case None
    then show ?thesis using that [of "[]"] by simp
  next
    case (Some c)
    with chain_ops [OF Some] show ?thesis using that by auto
  qed
  have len: "length ?parts = Suc (length ops)" using arg_cong [OF ops(1), of length] by simp
  from rebuild_parts_planned [OF r(1)] obtain gs where
    "length gs = length ?parts" "[] \<notin> set gs" "out = chain_text gs (map snd ?parts)"
    "map Some (concat gs) = map resolvePlannedSegmentArgv segs"
    using r(2) by auto
  with w len ops show ?thesis by metis
qed

lemma enforced_analysis:
  assumes "buildEnforcedShellCommand platform command segs = Inr out"
    and "\<And>s argv. s \<in> set segs \<Longrightarrow> resolvePlannedSegmentArgv s = Some argv \<Longrightarrow> [] \<notin> set argv"
  shows "(\<exists>b. analyzeShellCommand R platform out = Inr b \<and> map (\<lambda>s. Some (sg_argv s)) (an_segments b) = map resolvePlannedSegmentArgv segs)
    \<and> map_option (map snd) (splitCommandChainWithOperators out) = map_option (map snd) (splitCommandChainWithOperators (js_trim command))"
proof -
  from enforced_text [OF assms(1)] obtain gs ops where
    e: "\<not> isWindowsPlatform platform" "length gs = Suc (length ops)" "[] \<notin> set gs" "out = chain_text gs (map Some ops @ [None])"
      "map Some (concat gs) = map resolvePlannedSegmentArgv segs"
      "map_option (map snd) (splitCommandChainWithOperators (js_trim command)) = (if ops = [] then None else Some (map Some ops @ [None]))"
    by blast
  have "argv \<noteq> [] \<and> [] \<notin> set argv" if "argv \<in> set (concat gs)" for argv
  proof -
    from that have "Some argv \<in> set (map resolvePlannedSegmentArgv segs)" unfolding e(5) [symmetric] by simp
    then obtain s where "s \<in> set segs" "resolvePlannedSegmentArgv s = Some argv" by auto
    with assms(2) planned_nonempty [of s] show ?thesis by auto
  qed
  then have ok: "list_all pipeline_ok gs"
    using e(3) by (force simp: list_all_iff pipeline_ok_def)
  from analyze_chain_text(1) [OF ok e(2,1), of R] obtain b where
    b: "analyzeShellCommand R platform out = Inr b" "map sg_argv (an_segments b) = concat gs" using e(4) by auto
  have "map (\<lambda>s. Some (sg_argv s)) (an_segments b) = map Some (concat gs)" unfolding b(2) [symmetric] by simp
  moreover have "map_option (map snd) (splitCommandChainWithOperators out) = (if ops = [] then None else Some (map Some ops @ [None]))"
    unfolding e(4) analyze_chain_text(2) [OF ok e(2,1)] using e(2) by simp
  ultimately show ?thesis using b(1) e(5,6) by simp
qed

section \<open>What a pipeline may hold\<close>



definition no_heredoc :: "pipeline_scan \<Rightarrow> bool" where
  "no_heredoc st = (sp_pending st = [] \<and> \<not> sp_inBody st)"

lemma no_heredoc_keep [simp]: "no_heredoc (keep t st) = no_heredoc st" "no_heredoc (push_part st) = no_heredoc st"
  by (simp_all add: no_heredoc_def keep_def push_part_def Let_def)

lemma push_part_scan [simp]: "sp_quote (push_part st) = sp_quote st" "sp_escaped (push_part st) = sp_escaped st"
  by (simp_all add: push_part_def Let_def)














end
