(* ===== verification/ExecApprovals.thy ===== *)
theory ExecApprovals
  imports ExecResolution SessionKey "HOL-Library.AList"
begin

text \<open>
  The file of exec approvals: \<open>src/infra/exec-approvals.ts\<close>. Who may run commands on a host, whether to
  ask first, and the allowlist, for each agent; the answers that change the allowlist.

  A policy in the file is text that may be anything; a resolved policy is one of the values the code
  knows. The entries of an allowlist that was read are whatever the JSON has; those of a normalised file
  are objects with a pattern, so the two kinds of file are two instances of one record. The identifiers
  drawn for entries without one, and the clock, are arguments. The objects of the JSON file are association
  lists; the agents of the file are objects.
\<close>

section \<open>Policies\<close>

datatype exec_security = SecDeny | SecAllowlist | SecFull
datatype exec_ask = AskOff | AskOnMiss | AskAlways

definition security_of :: "string \<Rightarrow> exec_security option" where
  "security_of s = (if s = ''allowlist'' then Some SecAllowlist else if s = ''full'' then Some SecFull
     else if s = ''deny'' then Some SecDeny else None)"

definition ask_of :: "string \<Rightarrow> exec_ask option" where
  "ask_of s = (if s = ''always'' then Some AskAlways else if s = ''off'' then Some AskOff
     else if s = ''on-miss'' then Some AskOnMiss else None)"

record policy_fields =
  pf_security :: "string option"
  pf_ask :: "string option"
  pf_askFallback :: "string option"
  pf_autoAllowSkills :: "bool option"

definition no_fields :: policy_fields where
  "no_fields = \<lparr>pf_security = None, pf_ask = None, pf_askFallback = None, pf_autoAllowSkills = None\<rparr>"

record exec_defaults =
  rp_security :: exec_security
  rp_ask :: exec_ask
  rp_askFallback :: exec_security
  rp_autoAllowSkills :: bool

definition DEFAULT_SECURITY :: exec_security where "DEFAULT_SECURITY = SecDeny"
definition DEFAULT_ASK :: exec_ask where "DEFAULT_ASK = AskOnMiss"
definition DEFAULT_ASK_FALLBACK :: exec_security where "DEFAULT_ASK_FALLBACK = SecDeny"
definition DEFAULT_AUTO_ALLOW_SKILLS :: bool where "DEFAULT_AUTO_ALLOW_SKILLS = False"

definition normalizeSecurity :: "string option \<Rightarrow> exec_security \<Rightarrow> exec_security" where
  "normalizeSecurity v fallback = (case Option.bind v security_of of Some s \<Rightarrow> s | None \<Rightarrow> fallback)"

definition normalizeAsk :: "string option \<Rightarrow> exec_ask \<Rightarrow> exec_ask" where
  "normalizeAsk v fallback = (case Option.bind v ask_of of Some s \<Rightarrow> s | None \<Rightarrow> fallback)"

fun security_rank :: "exec_security \<Rightarrow> nat" where
  "security_rank SecDeny = 0" | "security_rank SecAllowlist = 1" | "security_rank SecFull = 2"

fun ask_rank :: "exec_ask \<Rightarrow> nat" where
  "ask_rank AskOff = 0" | "ask_rank AskOnMiss = 1" | "ask_rank AskAlways = 2"

definition minSecurity :: "exec_security \<Rightarrow> exec_security \<Rightarrow> exec_security" where
  "minSecurity a b = (if security_rank a \<le> security_rank b then a else b)"

definition maxAsk :: "exec_ask \<Rightarrow> exec_ask \<Rightarrow> exec_ask" where
  "maxAsk a b = (if ask_rank b \<le> ask_rank a then a else b)"

definition requiresExecApproval :: "exec_ask \<Rightarrow> exec_security \<Rightarrow> bool \<Rightarrow> bool \<Rightarrow> bool" where
  "requiresExecApproval ask security analysisOk allowlistSatisfied =
     (ask = AskAlways \<or> (ask = AskOnMiss \<and> security = SecAllowlist \<and> (\<not> analysisOk \<or> \<not> allowlistSatisfied)))"

section \<open>The file\<close>

text \<open>An element of an allowlist that was read: \<open>RawBadPattern\<close> is an object whose pattern is no text.\<close>

datatype raw_item = RawString string | RawEntry allowlist_entry | RawObject | RawBadPattern | RawNull | RawScalar

datatype raw_allowlist = RawArray "raw_item list" | RawText string | RawValue

record 'l approvals_agent =
  aa_policy :: policy_fields
  aa_allowlist :: "'l option"

record 'l approvals_file =
  af_version :: int
  af_socketPath :: "string option"
  af_token :: "string option"
  af_defaults :: policy_fields
  af_agents :: "(string \<times> 'l approvals_agent) list"

type_synonym raw_file = "raw_allowlist approvals_file"
type_synonym entries_file = "allowlist_entry list approvals_file"

definition empty_file :: "'l approvals_file" where
  "empty_file = \<lparr>af_version = 1, af_socketPath = None, af_token = None, af_defaults = no_fields, af_agents = []\<rparr>"

definition pattern_entry :: "string \<Rightarrow> allowlist_entry" where
  "pattern_entry p = \<lparr>ae_id = None, ae_pattern = p, ae_lastUsedAt = None, ae_lastUsedCommand = None, ae_lastResolvedPath = None\<rparr>"

subsection \<open>Normalising\<close>

definition normalizeAllowlistPattern :: "string \<Rightarrow> string option" where
  "normalizeAllowlistPattern v = (let t = js_trim v in if t = [] then None else Some (js_lower t))"

definition type_error :: js_error where "type_error = Error ''TypeError''"

text \<open>\<open>pushEntry\<close> over the elements of an allowlist: keys seen and entries kept.\<close>

fun push_items :: "raw_item list \<Rightarrow> string list \<times> allowlist_entry list \<Rightarrow> (string list \<times> allowlist_entry list) result" where
  "push_items [] acc = Inr acc"
| "push_items (i # is) (seen, out) =
     (case i of
        RawNull \<Rightarrow> Inl type_error
      | RawBadPattern \<Rightarrow> Inl type_error
      | RawEntry e \<Rightarrow>
          (case normalizeAllowlistPattern (ae_pattern e) of
             Some k \<Rightarrow> if k \<in> set seen then push_items is (seen, out) else push_items is (seen @ [k], out @ [e])
           | None \<Rightarrow> push_items is (seen, out))
      | _ \<Rightarrow> push_items is (seen, out))"

definition push_allowlist ::
  "raw_allowlist option \<Rightarrow> string list \<times> allowlist_entry list \<Rightarrow> (string list \<times> allowlist_entry list) result" where
  "push_allowlist l acc =
     (case l of None \<Rightarrow> Inr acc | Some (RawArray is) \<Rightarrow> push_items is acc | Some (RawText _) \<Rightarrow> Inr acc
      | Some RawValue \<Rightarrow> Inl type_error)"

definition or_second :: "'a option \<Rightarrow> 'a option \<Rightarrow> 'a option" where
  "or_second a b = (case a of Some x \<Rightarrow> Some x | None \<Rightarrow> b)"

definition merge_fields :: "policy_fields \<Rightarrow> policy_fields \<Rightarrow> policy_fields" where
  "merge_fields a b = \<lparr>pf_security = or_second (pf_security a) (pf_security b), pf_ask = or_second (pf_ask a) (pf_ask b),
     pf_askFallback = or_second (pf_askFallback a) (pf_askFallback b),
     pf_autoAllowSkills = or_second (pf_autoAllowSkills a) (pf_autoAllowSkills b)\<rparr>"

definition mergeLegacyAgent ::
  "raw_allowlist approvals_agent \<Rightarrow> raw_allowlist approvals_agent \<Rightarrow> raw_allowlist approvals_agent result" where
  "mergeLegacyAgent current legacy =
     bind_r (push_allowlist (aa_allowlist current) ([], [])) (\<lambda>acc.
     bind_r (push_allowlist (aa_allowlist legacy) acc) (\<lambda>(seen, out).
       Inr \<lparr>aa_policy = merge_fields (aa_policy current) (aa_policy legacy),
            aa_allowlist = (if out = [] then None else Some (RawArray (map RawEntry out)))\<rparr>))"

definition coerce_item :: "raw_item \<Rightarrow> allowlist_entry option" where
  "coerce_item i =
     (case i of
        RawString s \<Rightarrow> if js_trim s = [] then None else Some (pattern_entry (js_trim s))
      | RawEntry e \<Rightarrow> if js_trim (ae_pattern e) = [] then None else Some e
      | _ \<Rightarrow> None)"

text \<open>A list that is left unchanged keeps all of its elements, so only a list that was empty stays empty.\<close>

definition coerceAllowlistEntries :: "raw_allowlist option \<Rightarrow> allowlist_entry list option" where
  "coerceAllowlistEntries l =
     (case l of
        Some (RawArray is) \<Rightarrow>
          if is = [] then Some []
          else let kept = List.map_filter coerce_item is in if kept = [] then None else Some kept
      | _ \<Rightarrow> None)"

text \<open>\<open>uuid\<close> gives the identifier drawn at a position.\<close>

definition ensureAllowlistIds :: "(nat \<Rightarrow> string) \<Rightarrow> allowlist_entry list option \<Rightarrow> allowlist_entry list option" where
  "ensureAllowlistIds uuid l =
     map_option (\<lambda>es. map (\<lambda>(i, e). if opt_str (ae_id e) \<noteq> [] then e else e\<lparr>ae_id := Some (uuid i)\<rparr>) (enumerate 0 es)) l"

definition normalize_agent ::
  "(string \<Rightarrow> nat \<Rightarrow> string) \<Rightarrow> string \<times> raw_allowlist approvals_agent \<Rightarrow> string \<times> allowlist_entry list approvals_agent" where
  "normalize_agent uuid ka =
     (fst ka, \<lparr>aa_policy = aa_policy (snd ka),
        aa_allowlist = ensureAllowlistIds (uuid (fst ka)) (coerceAllowlistEntries (aa_allowlist (snd ka)))\<rparr>)"

text \<open>The agent \<open>default\<close> of older files is merged into the default agent.\<close>

definition move_legacy_default ::
  "(string \<times> raw_allowlist approvals_agent) list \<Rightarrow> (string \<times> raw_allowlist approvals_agent) list result" where
  "move_legacy_default agents =
     (case map_of agents ''default'' of None \<Rightarrow> Inr agents
      | Some legacy \<Rightarrow>
          bind_r (case map_of agents DEFAULT_AGENT_ID of Some main \<Rightarrow> mergeLegacyAgent main legacy | None \<Rightarrow> Inr legacy)
            (\<lambda>a. Inr (AList.delete ''default'' (AList.update DEFAULT_AGENT_ID a agents))))"

definition normalizeExecApprovals :: "(string \<Rightarrow> nat \<Rightarrow> string) \<Rightarrow> raw_file \<Rightarrow> entries_file result" where
  "normalizeExecApprovals uuid f =
     bind_r (move_legacy_default (af_agents f)) (\<lambda>agents.
       Inr \<lparr>af_version = 1, af_socketPath = trim_or_undef (af_socketPath f), af_token = trim_or_undef (af_token f),
            af_defaults = af_defaults f, af_agents = map (normalize_agent uuid) agents\<rparr>)"

text \<open>A file is read as \<open>None\<close> when it is missing or no JSON; whatever goes wrong gives the empty file.\<close>

definition loadExecApprovals :: "(string \<Rightarrow> nat \<Rightarrow> string) \<Rightarrow> raw_file option \<Rightarrow> entries_file" where
  "loadExecApprovals uuid parsed =
     (case parsed of None \<Rightarrow> empty_file
      | Some f \<Rightarrow> if af_version f \<noteq> 1 then empty_file
                 else (case normalizeExecApprovals uuid f of Inl _ \<Rightarrow> empty_file | Inr n \<Rightarrow> n))"

definition as_raw :: "entries_file \<Rightarrow> raw_file" where
  "as_raw f = \<lparr>af_version = af_version f, af_socketPath = af_socketPath f, af_token = af_token f, af_defaults = af_defaults f,
     af_agents = map (\<lambda>(k, a). (k, \<lparr>aa_policy = aa_policy a, aa_allowlist = map_option (\<lambda>es. RawArray (map RawEntry es)) (aa_allowlist a)\<rparr>))
       (af_agents f)\<rparr>"

subsection \<open>The policy of an agent\<close>

text \<open>What the caller would have where the file says nothing.\<close>

record policy_overrides =
  ov_security :: "exec_security option"
  ov_ask :: "exec_ask option"
  ov_askFallback :: "exec_security option"
  ov_autoAllowSkills :: "bool option"

definition or_default :: "'a option \<Rightarrow> 'a \<Rightarrow> 'a" where
  "or_default x d = (case x of Some y \<Rightarrow> y | None \<Rightarrow> d)"

definition resolve_fields :: "policy_fields \<Rightarrow> exec_defaults \<Rightarrow> exec_defaults" where
  "resolve_fields p d =
     \<lparr>rp_security = normalizeSecurity (pf_security p) (rp_security d), rp_ask = normalizeAsk (pf_ask p) (rp_ask d),
      rp_askFallback = normalizeSecurity (pf_askFallback p) (rp_askFallback d),
      rp_autoAllowSkills = or_default (pf_autoAllowSkills p) (rp_autoAllowSkills d)\<rparr>"

definition fallback_policy :: "policy_overrides \<Rightarrow> exec_defaults" where
  "fallback_policy o' =
     \<lparr>rp_security = or_default (ov_security o') DEFAULT_SECURITY, rp_ask = or_default (ov_ask o') DEFAULT_ASK,
      rp_askFallback = or_default (ov_askFallback o') DEFAULT_ASK_FALLBACK,
      rp_autoAllowSkills = or_default (ov_autoAllowSkills o') DEFAULT_AUTO_ALLOW_SKILLS\<rparr>"

record resolved_approvals =
  ra_defaults :: exec_defaults
  ra_agent :: exec_defaults
  ra_sources :: "string list"
  ra_allowlist :: "allowlist_entry list"
  ra_file :: entries_file

definition no_agent :: "'l approvals_agent" where
  "no_agent = \<lparr>aa_policy = no_fields, aa_allowlist = None\<rparr>"

definition agent_at :: "'l approvals_file \<Rightarrow> string \<Rightarrow> 'l approvals_agent" where
  "agent_at f k = or_default (map_of (af_agents f) k) no_agent"

definition sourceFor :: "string \<Rightarrow> string \<Rightarrow> bool \<Rightarrow> bool \<Rightarrow> bool \<Rightarrow> string" where
  "sourceFor agentKey key inAgent inWildcard inDefaults =
     (if inAgent then ''agents.'' @ agentKey @ ''.'' @ key
      else if inWildcard then ''agents.*.'' @ key
      else if inDefaults then ''defaults.'' @ key else ''fallback.'' @ key)"

definition policy_sources :: "string \<Rightarrow> policy_fields \<Rightarrow> policy_fields \<Rightarrow> policy_fields \<Rightarrow> string list" where
  "policy_sources agentKey a w d =
     [sourceFor agentKey ''security'' (pf_security a \<noteq> None) (pf_security w \<noteq> None) (pf_security d \<noteq> None),
      sourceFor agentKey ''ask'' (pf_ask a \<noteq> None) (pf_ask w \<noteq> None) (pf_ask d \<noteq> None),
      sourceFor agentKey ''askFallback'' (pf_askFallback a \<noteq> None) (pf_askFallback w \<noteq> None) (pf_askFallback d \<noteq> None),
      sourceFor agentKey ''autoAllowSkills'' (pf_autoAllowSkills a \<noteq> None) (pf_autoAllowSkills w \<noteq> None)
        (pf_autoAllowSkills d \<noteq> None)]"

definition resolve_normalized :: "entries_file \<Rightarrow> string option \<Rightarrow> policy_overrides \<Rightarrow> resolved_approvals" where
  "resolve_normalized f aid overrides =
     (let agentKey = or_default aid DEFAULT_AGENT_ID;
          agent = agent_at f agentKey; wildcard = agent_at f ''*'';
          defaults = resolve_fields (af_defaults f) (fallback_policy overrides)
      in \<lparr>ra_defaults = defaults,
          ra_agent = resolve_fields (merge_fields (aa_policy agent) (aa_policy wildcard)) defaults,
          ra_sources = policy_sources agentKey (aa_policy agent) (aa_policy wildcard) (af_defaults f),
          ra_allowlist = or_default (aa_allowlist wildcard) [] @ or_default (aa_allowlist agent) [],
          ra_file = f\<rparr>)"

definition resolveExecApprovalsFromFile ::
  "(string \<Rightarrow> nat \<Rightarrow> string) \<Rightarrow> raw_file \<Rightarrow> string option \<Rightarrow> policy_overrides \<Rightarrow> resolved_approvals result" where
  "resolveExecApprovalsFromFile uuid f aid overrides =
     bind_r (normalizeExecApprovals uuid f) (\<lambda>n. Inr (resolve_normalized n aid overrides))"

subsection \<open>Answers\<close>

definition set_allowlist :: "entries_file \<Rightarrow> string \<Rightarrow> allowlist_entry list \<Rightarrow> entries_file" where
  "set_allowlist f target es =
     f\<lparr>af_agents := AList.update target ((agent_at f target)\<lparr>aa_allowlist := Some es\<rparr>) (af_agents f)\<rparr>"

definition recordAllowlistUse ::
  "(nat \<Rightarrow> string) \<Rightarrow> int \<Rightarrow> entries_file \<Rightarrow> string option \<Rightarrow> allowlist_entry \<Rightarrow> string \<Rightarrow> string option \<Rightarrow> entries_file" where
  "recordAllowlistUse uuid now f aid entry command resolvedPath =
     (let target = or_default aid DEFAULT_AGENT_ID; allowlist = or_default (aa_allowlist (agent_at f target)) []
      in set_allowlist f target (map (\<lambda>(i, item).
           if ae_pattern item = ae_pattern entry
           then \<lparr>ae_id = Some (or_default (ae_id item) (uuid i)), ae_pattern = ae_pattern item, ae_lastUsedAt = Some now,
                 ae_lastUsedCommand = Some command, ae_lastResolvedPath = resolvedPath\<rparr>
           else item) (enumerate 0 allowlist)))"

definition addAllowlistEntry :: "string \<Rightarrow> int \<Rightarrow> entries_file \<Rightarrow> string option \<Rightarrow> string \<Rightarrow> entries_file" where
  "addAllowlistEntry uuid now f aid pattern =
     (let target = or_default aid DEFAULT_AGENT_ID; allowlist = or_default (aa_allowlist (agent_at f target)) [];
          trimmed = js_trim pattern
      in if trimmed = [] then f
         else if list_ex (\<lambda>e. ae_pattern e = trimmed) allowlist then f
         else set_allowlist f target (allowlist @ [(pattern_entry trimmed)\<lparr>ae_id := Some uuid, ae_lastUsedAt := Some now\<rparr>]))"

section \<open>What the file grants\<close>

lemma agent_at_set [simp]:
  "agent_at (set_allowlist f t es) k = (if k = t then (agent_at f t)\<lparr>aa_allowlist := Some es\<rparr> else agent_at f k)"
  by (simp add: agent_at_def set_allowlist_def update_conv' or_default_def)

lemma defaults_set [simp]: "af_defaults (set_allowlist f t es) = af_defaults f"
  by (simp add: set_allowlist_def)

text \<open>Answers change the allowlist of an agent only.\<close>

lemma agent_set_policy [simp]: "aa_policy (agent_at (set_allowlist f t es) k) = aa_policy (agent_at f k)"
  by simp

definition fields_grant :: "policy_fields \<Rightarrow> bool" where
  "fields_grant p = (pf_security p = Some ''full'')"

lemma normalize_full: "normalizeSecurity v d = SecFull \<Longrightarrow> v = Some ''full'' \<or> d = SecFull"
  by (auto simp: normalizeSecurity_def security_of_def split: option.splits if_splits bind_splits)

text \<open>
  An agent has full rights only where the file says \<open>full\<close> for the agent, for every agent or as the
  default, or where the caller's own setting does. A missing or misspelt value grants nothing.
\<close>

theorem exec_full_needs_grant:
  assumes "rp_security (ra_agent (resolve_normalized f aid ov)) = SecFull"
  shows "fields_grant (aa_policy (agent_at f (or_default aid DEFAULT_AGENT_ID))) \<or> fields_grant (aa_policy (agent_at f ''*''))
    \<or> fields_grant (af_defaults f) \<or> ov_security ov = Some SecFull"
proof -
  let ?a = "aa_policy (agent_at f (or_default aid DEFAULT_AGENT_ID))" and ?w = "aa_policy (agent_at f ''*'')"
  from assms have "normalizeSecurity (or_second (pf_security ?a) (pf_security ?w))
      (normalizeSecurity (pf_security (af_defaults f)) (or_default (ov_security ov) DEFAULT_SECURITY)) = SecFull"
    by (simp add: resolve_normalized_def resolve_fields_def merge_fields_def fallback_policy_def Let_def)
  from normalize_full [OF this] show ?thesis
    by (auto simp: fields_grant_def or_second_def or_default_def DEFAULT_SECURITY_def dest: normalize_full split: option.splits)
qed

definition trusting_file :: entries_file where
  "trusting_file = empty_file\<lparr>af_defaults := no_fields\<lparr>pf_security := Some ''deny''\<rparr>,
     af_agents := [(''*'', \<lparr>aa_policy = no_fields\<lparr>pf_security := Some ''full''\<rparr>, aa_allowlist = None\<rparr>)]\<rparr>"

definition no_overrides :: policy_overrides where
  "no_overrides = \<lparr>ov_security = None, ov_ask = None, ov_askFallback = None, ov_autoAllowSkills = None\<rparr>"

theorem exec_full_needs_grant_witness:
  "fields_grant (aa_policy (agent_at trusting_file ''ops'')) \<or> fields_grant (aa_policy (agent_at trusting_file ''*''))
    \<or> fields_grant (af_defaults trusting_file)"
proof -
  have "rp_security (ra_agent (resolve_normalized trusting_file (Some ''ops'') no_overrides)) = SecFull" by code_simp
  from exec_full_needs_grant [OF this] show ?thesis by (simp add: or_default_def no_overrides_def)
qed

definition unreadable_approvals :: "(string \<Rightarrow> nat \<Rightarrow> string) \<Rightarrow> raw_file option \<Rightarrow> bool" where
  "unreadable_approvals uuid parsed =
     (case parsed of None \<Rightarrow> True | Some f \<Rightarrow> af_version f \<noteq> 1 \<or> \<not> is_ok (normalizeExecApprovals uuid f))"

text \<open>
  A file that is missing, is no JSON, has another version or cannot be normalised grants nothing: the
  policy is the caller's, or to deny, and the allowlist is empty.
\<close>

theorem exec_unreadable_file_denies:
  assumes "unreadable_approvals uuid parsed"
  shows "ra_agent (resolve_normalized (loadExecApprovals uuid parsed) aid ov) = fallback_policy ov
    \<and> ra_allowlist (resolve_normalized (loadExecApprovals uuid parsed) aid ov) = []
    \<and> rp_security (fallback_policy ov) = or_default (ov_security ov) SecDeny"
proof -
  have "loadExecApprovals uuid parsed = empty_file"
    using assms by (auto simp: unreadable_approvals_def loadExecApprovals_def split: option.splits sum.splits)
  then show ?thesis
    by (simp add: resolve_normalized_def resolve_fields_def merge_fields_def agent_at_def empty_file_def no_agent_def
        no_fields_def normalizeSecurity_def normalizeAsk_def or_default_def or_second_def fallback_policy_def DEFAULT_SECURITY_def Let_def)
qed

definition corrupt_file :: raw_file where
  "corrupt_file = empty_file\<lparr>af_agents := [(''main'', \<lparr>aa_policy = no_fields, aa_allowlist = Some (RawArray [RawNull])\<rparr>),
     (''default'', \<lparr>aa_policy = no_fields\<lparr>pf_security := Some ''full''\<rparr>, aa_allowlist = None\<rparr>)]\<rparr>"

theorem exec_unreadable_file_denies_witness:
  "rp_security (ra_agent (resolve_normalized (loadExecApprovals (\<lambda>k n. ''id'') (Some corrupt_file)) None no_overrides)) = SecDeny"
proof -
  have "unreadable_approvals (\<lambda>k n. ''id'') (Some corrupt_file)" by code_simp
  from exec_unreadable_file_denies [OF this, of None no_overrides] show ?thesis by (simp add: no_overrides_def or_default_def)
qed

subsection \<open>Answers\<close>

lemma enumerate_map_same: "(\<And>i x. g (f (i, x)) = g x) \<Longrightarrow> map g (map f (enumerate n xs)) = map g xs"
  by (induction xs arbitrary: n) auto

text \<open>
  Recording the use of an entry changes no pattern and no policy, of this agent or another: it never
  widens what may run.
\<close>

theorem exec_record_use_keeps_patterns:
  "map ae_pattern (ra_allowlist (resolve_normalized (recordAllowlistUse uuid now f aid entry command path) b ov))
     = map ae_pattern (ra_allowlist (resolve_normalized f b ov)) \<and>
   ra_agent (resolve_normalized (recordAllowlistUse uuid now f aid entry command path) b ov) = ra_agent (resolve_normalized f b ov)"
proof -
  have "map ae_pattern (or_default (aa_allowlist (agent_at (recordAllowlistUse uuid now f aid entry command path) k)) [])
      = map ae_pattern (or_default (aa_allowlist (agent_at f k)) [])" for k
    by (simp add: recordAllowlistUse_def Let_def or_default_def [of "Some _"] enumerate_map_same del: map_map)
  then have "map ae_pattern (ra_allowlist (resolve_normalized (recordAllowlistUse uuid now f aid entry command path) b ov))
     = map ae_pattern (ra_allowlist (resolve_normalized f b ov))" by (simp add: resolve_normalized_def Let_def)
  then show ?thesis by (simp add: resolve_normalized_def recordAllowlistUse_def Let_def)
qed

lemma add_entry_present:
  assumes "js_trim pattern \<noteq> []"
  shows "js_trim pattern \<in> ae_pattern ` set (ra_allowlist (resolve_normalized (addAllowlistEntry uuid now f aid pattern) aid ov))"
  using assms by (force simp: addAllowlistEntry_def resolve_normalized_def Let_def or_default_def [of "Some _"] pattern_entry_def list_ex_iff)

text \<open>An answer for one agent adds nothing for another, and changes no policy.\<close>

lemma add_entry_scope:
  assumes "a \<noteq> ''*''" "a \<noteq> b"
  shows "ra_allowlist (resolve_normalized (addAllowlistEntry uuid now f (Some a) pattern) (Some b) ov)
      = ra_allowlist (resolve_normalized f (Some b) ov)"
    and "ra_agent (resolve_normalized (addAllowlistEntry uuid now f (Some a) pattern) (Some b) ov)
      = ra_agent (resolve_normalized f (Some b) ov)"
  using assms by (simp_all add: addAllowlistEntry_def resolve_normalized_def Let_def or_default_def)

section \<open>Normal files\<close>

lemma ids_kept: "list_all (\<lambda>e. opt_str (ae_id e) \<noteq> []) es \<Longrightarrow> ensureAllowlistIds uuid (Some es) = Some es"
proof -
  have "list_all (\<lambda>e. opt_str (ae_id e) \<noteq> []) es \<Longrightarrow>
    map (\<lambda>(i, e). if opt_str (ae_id e) \<noteq> [] then e else e\<lparr>ae_id := Some (uuid i)\<rparr>) (enumerate n es) = es" for n
    by (induction es arbitrary: n) auto
  then show "list_all (\<lambda>e. opt_str (ae_id e) \<noteq> []) es \<Longrightarrow> ensureAllowlistIds uuid (Some es) = Some es"
    by (simp add: ensureAllowlistIds_def)
qed

definition normal_entries :: "allowlist_entry list option \<Rightarrow> bool" where
  "normal_entries l = (case l of None \<Rightarrow> True
     | Some es \<Rightarrow> list_all (\<lambda>e. opt_str (ae_id e) \<noteq> [] \<and> js_trim (ae_pattern e) \<noteq> []) es)"

lemma coerce_nonblank: "coerce_item i = Some e \<Longrightarrow> js_trim (ae_pattern e) \<noteq> []"
  by (auto simp: coerce_item_def pattern_entry_def split: raw_item.splits if_splits)

lemma map_filter_coerced: "list_all (\<lambda>e. js_trim (ae_pattern e) \<noteq> []) (List.map_filter coerce_item is)"
  by (induction "is") (auto simp: List.map_filter_simps coerce_nonblank split: option.splits)

lemma ensured_normal:
  assumes "list_all (\<lambda>e. js_trim (ae_pattern e) \<noteq> []) es" "\<And>i. uuid i \<noteq> []"
  shows "normal_entries (ensureAllowlistIds uuid (Some es))"
proof -
  have "list_all (\<lambda>e. js_trim (ae_pattern e) \<noteq> []) es \<Longrightarrow>
    list_all (\<lambda>e. opt_str (ae_id e) \<noteq> [] \<and> js_trim (ae_pattern e) \<noteq> [])
      (map (\<lambda>(i, e). if opt_str (ae_id e) \<noteq> [] then e else e\<lparr>ae_id := Some (uuid i)\<rparr>) (enumerate n es))" for n
    by (induction es arbitrary: n) (auto simp: opt_str_def assms(2))
  with assms(1) show ?thesis by (simp add: normal_entries_def ensureAllowlistIds_def)
qed

lemma coerced_normal:
  assumes "\<And>i. uuid i \<noteq> []"
  shows "normal_entries (ensureAllowlistIds uuid (coerceAllowlistEntries l))"
proof -
  have "coerceAllowlistEntries l = None \<or> (\<exists>es. coerceAllowlistEntries l = Some es \<and> list_all (\<lambda>e. js_trim (ae_pattern e) \<noteq> []) es)"
    using map_filter_coerced by (auto simp: coerceAllowlistEntries_def Let_def split: option.split raw_allowlist.split)
  then show ?thesis
  proof
    assume "coerceAllowlistEntries l = None"
    then show ?thesis by (simp add: normal_entries_def ensureAllowlistIds_def)
  next
    assume "\<exists>es. coerceAllowlistEntries l = Some es \<and> list_all (\<lambda>e. js_trim (ae_pattern e) \<noteq> []) es"
    then show ?thesis using ensured_normal [where uuid = uuid, OF _ assms] by auto
  qed
qed

lemma coerce_normal:
  assumes "normal_entries (Some es)"
  shows "coerceAllowlistEntries (Some (RawArray (map RawEntry es))) = Some es"
proof -
  have "normal_entries (Some es) \<Longrightarrow> List.map_filter coerce_item (map RawEntry es) = es"
    by (induction es) (auto simp: List.map_filter_simps coerce_item_def normal_entries_def)
  with assms show ?thesis by (simp add: coerceAllowlistEntries_def Let_def)
qed

lemma normalize_agent_normal:
  assumes "normal_entries (aa_allowlist a)"
  shows "normalize_agent uuid (k, \<lparr>aa_policy = aa_policy a, aa_allowlist = map_option (\<lambda>es. RawArray (map RawEntry es)) (aa_allowlist a)\<rparr>) = (k, a)"
proof (cases "aa_allowlist a")
  case None
  then show ?thesis by (simp add: normalize_agent_def coerceAllowlistEntries_def ensureAllowlistIds_def)
next
  case (Some es)
  with assms have "list_all (\<lambda>e. opt_str (ae_id e) \<noteq> []) es" by (auto simp: normal_entries_def list_all_iff)
  with Some assms show ?thesis by (simp add: normalize_agent_def coerce_normal ids_kept)
qed

lemma trim_or_undef_twice [simp]: "trim_or_undef (trim_or_undef x) = trim_or_undef x"
  by (auto simp: trim_or_undef_def Let_def split: option.splits)

lemma legacy_moved:
  "move_legacy_default agents = Inr agents' \<Longrightarrow> map_of agents' ''default'' = None"
  by (auto simp: move_legacy_default_def bind_r_eq_Inr delete_conv' split: option.splits)

lemma map_of_normalized: "map_of (map (normalize_agent uuid) agents) k = None \<longleftrightarrow> map_of agents k = None"
  by (induction agents) (auto simp: normalize_agent_def)

lemma map_of_as_raw: "map_of (af_agents (as_raw n)) k = None \<longleftrightarrow> map_of (af_agents n) k = None"
proof -
  have "map_of (map (\<lambda>(k, a). (k, g a)) as) k = None \<longleftrightarrow> map_of as k = None"
    for g :: "allowlist_entry list approvals_agent \<Rightarrow> raw_allowlist approvals_agent" and as
    by (induction as) auto
  then show ?thesis by (simp add: as_raw_def)
qed

text \<open>
  A normalised file is normal. Normalising it again, as every load, save and resolution does, changes
  nothing and draws no identifiers.
\<close>

theorem exec_approvals_normal:
  assumes "normalizeExecApprovals uuid f = Inr n" "\<And>k i. uuid k i \<noteq> []"
  shows "normalizeExecApprovals uuid' (as_raw n) = Inr n"
proof -
  from assms(1) obtain agents where agents: "move_legacy_default (af_agents f) = Inr agents"
    "n = \<lparr>af_version = 1, af_socketPath = trim_or_undef (af_socketPath f), af_token = trim_or_undef (af_token f),
       af_defaults = af_defaults f, af_agents = map (normalize_agent uuid) agents\<rparr>"
    by (auto simp: normalizeExecApprovals_def bind_r_eq_Inr)
  have "map_of (af_agents (as_raw n)) ''default'' = None"
    using legacy_moved [OF agents(1)] agents(2) by (simp add: map_of_as_raw map_of_normalized)
  then have "move_legacy_default (af_agents (as_raw n)) = Inr (af_agents (as_raw n))" by (simp add: move_legacy_default_def)
  moreover have "normalize_agent uuid' (k, \<lparr>aa_policy = aa_policy a,
      aa_allowlist = map_option (\<lambda>es. RawArray (map RawEntry es)) (aa_allowlist a)\<rparr>) = (k, a)" if "(k, a) \<in> set (af_agents n)" for k a
    by (rule normalize_agent_normal) (use that agents(2) coerced_normal assms(2) in \<open>auto simp: normalize_agent_def\<close>)
  then have "map (normalize_agent uuid') (af_agents (as_raw n)) = af_agents n"
    by (auto simp: as_raw_def intro!: map_idI)
  ultimately show ?thesis using agents(2)
    by (simp add: normalizeExecApprovals_def) (simp add: as_raw_def)
qed

definition older_file :: raw_file where
  "older_file = empty_file\<lparr>af_token := Some '' t '', af_agents := [(''default'',
     \<lparr>aa_policy = no_fields, aa_allowlist = Some (RawArray [RawString '' /bin/ls '', RawNull, RawEntry (pattern_entry ''~/bin/*'')])\<rparr>)]\<rparr>"

theorem exec_approvals_normal_witness:
  "\<exists>n. normalizeExecApprovals (\<lambda>k i. ''id'') older_file = Inr n \<and> normalizeExecApprovals (\<lambda>k i. ''other'') (as_raw n) = Inr n
     \<and> map fst (af_agents n) = [''main'']"
proof -
  have "is_ok (normalizeExecApprovals (\<lambda>k i. ''id'') older_file)" by code_simp
  then obtain n where n: "normalizeExecApprovals (\<lambda>k i. ''id'') older_file = Inr n"
    by (cases "normalizeExecApprovals (\<lambda>k i. ''id'') older_file") auto
  have "map_option (\<lambda>n. map fst (af_agents n)) (case normalizeExecApprovals (\<lambda>k i. ''id'') older_file of Inr n \<Rightarrow> Some n | Inl _ \<Rightarrow> None)
    = Some [''main'']" by code_simp
  with n have "map fst (af_agents n) = [''main'']" by simp
  with exec_approvals_normal [OF n, of "\<lambda>k i. ''other''"] n show ?thesis by simp
qed

end
