(* ===== verification/ExecGateway.thy ===== *)
theory ExecGateway
  imports ExecAllowlist ShellEnforced ExecApprovals
begin

text \<open>
  Whether a command runs. On a node: \<open>src/node-host/exec-policy.ts\<close>. On the gateway:
  \<open>resolveExecHostApprovalContext\<close> of \<open>src/agents/bash-tools.exec-host-shared.ts\<close> and
  \<open>processGatewayAllowlist\<close> of \<open>src/agents/bash-tools.exec-host-gateway.ts\<close>, before a question is asked and
  after it is answered.

  Whether the command looks obfuscated (\<open>detectCommandObfuscation\<close>, a table of regular expressions) is an
  argument, as are the answer, the clock and the identifiers drawn. The registration of the question, the
  process and the notices are not modelled.
\<close>

section \<open>A node\<close>

datatype deny_event = SecurityDeny | ApprovalRequired | AllowlistMiss

record system_run_decision =
  sd_analysisOk :: bool
  sd_allowlistSatisfied :: bool
  sd_shellWrapperBlocked :: bool
  sd_windowsShellWrapperBlocked :: bool
  sd_requiresAsk :: bool
  sd_approvedByAsk :: bool
  sd_denied :: "(deny_event \<times> string) option"

datatype approval_decision = AllowOnce | AllowAlways

definition resolveExecApprovalDecision :: "string \<Rightarrow> approval_decision option" where
  "resolveExecApprovalDecision v =
     (if v = ''allow-once'' then Some AllowOnce else if v = ''allow-always'' then Some AllowAlways else None)"

definition formatSystemRunAllowlistMissMessage :: "bool \<Rightarrow> bool \<Rightarrow> string" where
  "formatSystemRunAllowlistMissMessage shellWrapperBlocked windowsShellWrapperBlocked =
     (if windowsShellWrapperBlocked
      then ''SYSTEM_RUN_DENIED: allowlist miss (Windows shell wrappers like cmd.exe /c require approval; approve once/always or run with --ask on-miss|always)''
      else if shellWrapperBlocked
      then ''SYSTEM_RUN_DENIED: allowlist miss (shell wrappers like sh/bash/zsh -c require approval; approve once/always or run with --ask on-miss|always)''
      else ''SYSTEM_RUN_DENIED: allowlist miss'')"

record system_run =
  sr_security :: exec_security
  sr_ask :: exec_ask
  sr_analysisOk :: bool
  sr_allowlistSatisfied :: bool
  sr_approvalDecision :: "approval_decision option"
  sr_approved :: bool
  sr_isWindows :: bool
  sr_cmdInvocation :: bool
  sr_shellWrapperInvocation :: bool

definition evaluateSystemRunPolicy :: "system_run \<Rightarrow> system_run_decision" where
  "evaluateSystemRunPolicy r =
     (let shellBlocked = (sr_security r = SecAllowlist \<and> sr_shellWrapperInvocation r);
          windowsBlocked = (shellBlocked \<and> sr_isWindows r \<and> sr_cmdInvocation r);
          ok = (if shellBlocked then False else sr_analysisOk r);
          satisfied = (if shellBlocked then False else sr_allowlistSatisfied r);
          approved = (sr_approvalDecision r \<noteq> None \<or> sr_approved r);
          decide = (\<lambda>asks denied. \<lparr>sd_analysisOk = ok, sd_allowlistSatisfied = satisfied, sd_shellWrapperBlocked = shellBlocked,
            sd_windowsShellWrapperBlocked = windowsBlocked, sd_requiresAsk = asks, sd_approvedByAsk = approved, sd_denied = denied\<rparr>)
      in if sr_security r = SecDeny then decide False (Some (SecurityDeny, ''SYSTEM_RUN_DISABLED: security=deny''))
         else let requiresAsk = requiresExecApproval (sr_ask r) (sr_security r) ok satisfied
         in if requiresAsk \<and> \<not> approved
            then decide requiresAsk (Some (ApprovalRequired, ''SYSTEM_RUN_DENIED: approval required''))
            else if sr_security r = SecAllowlist \<and> (\<not> ok \<or> \<not> satisfied) \<and> \<not> approved
            then decide requiresAsk (Some (AllowlistMiss, formatSystemRunAllowlistMissMessage shellBlocked windowsBlocked))
            else decide requiresAsk None)"

section \<open>The gateway\<close>

record host_context =
  hc_approvals :: resolved_approvals
  hc_security :: exec_security
  hc_ask :: exec_ask
  hc_askFallback :: exec_security

definition resolveExecHostApprovalContext ::
  "(string \<Rightarrow> nat \<Rightarrow> string) \<Rightarrow> entries_file \<Rightarrow> string \<Rightarrow> string option \<Rightarrow> exec_security \<Rightarrow> exec_ask \<Rightarrow> host_context result" where
  "resolveExecHostApprovalContext uuid f host aid security ask =
     bind_r (resolveExecApprovalsFromFile uuid (as_raw f) aid
       \<lparr>ov_security = Some security, ov_ask = Some ask, ov_askFallback = None, ov_autoAllowSkills = None\<rparr>) (\<lambda>a.
       if rp_security (ra_agent a) = SecDeny then Inl (Error (''exec denied: host='' @ host @ '' security=deny''))
       else Inr \<lparr>hc_approvals = a, hc_security = rp_security (ra_agent a),
              hc_ask = (if rp_ask (ra_agent a) = AskOff then AskOff else maxAsk ask (rp_ask (ra_agent a))),
              hc_askFallback = rp_askFallback (ra_agent a)\<rparr>)"

record gateway_call =
  gw_command :: string
  gw_workdir :: string
  gw_env :: exec_env
  gw_security :: exec_security
  gw_ask :: exec_ask
  gw_safeBins :: "string list"
  gw_safeBinProfiles :: "(string \<times> safe_bin_profile) list"
  gw_agentId :: "string option"
  gw_trustedSafeBinDirs :: "string list option"

definition gateway_policy :: "exec_host \<Rightarrow> gateway_call \<Rightarrow> allowlist_entry list \<Rightarrow> exec_policy" where
  "gateway_policy H g allowlist =
     \<lparr>ep_allowlist = allowlist, ep_safeBins = gw_safeBins g, ep_safeBinProfiles = Some (gw_safeBinProfiles g),
      ep_cwd = Some (gw_workdir g), ep_platform = Some (process_platform H), ep_trustedSafeBinDirs = gw_trustedSafeBinDirs g,
      ep_skillBins = [], ep_autoAllowSkills = False\<rparr>"

text \<open>What is known when the question is asked.\<close>

record pending_exec =
  pe_context :: host_context
  pe_eval :: allowlist_analysis
  pe_analysisOk :: bool
  pe_satisfied :: bool
  pe_enforced :: "string option"
  pe_obfuscated :: bool

definition js_starts_heredoc :: "segment \<Rightarrow> bool" where
  "js_starts_heredoc s = list_ex (\<lambda>t. js_starts_with t ''<<'') (sg_argv s)"

definition requires_heredoc_approval :: "pending_exec \<Rightarrow> bool" where
  "requires_heredoc_approval p =
     (hc_security (pe_context p) = SecAllowlist \<and> pe_analysisOk p \<and> pe_satisfied p \<and> list_ex js_starts_heredoc (al_segments (pe_eval p)))"

definition requires_ask :: "pending_exec \<Rightarrow> bool" where
  "requires_ask p =
     (requiresExecApproval (hc_ask (pe_context p)) (hc_security (pe_context p)) (pe_analysisOk p) (pe_satisfied p) \<or>
      requires_heredoc_approval p \<or> pe_obfuscated p)"

text \<open>The use of each pattern that matched is recorded once.\<close>

fun first_by_pattern :: "string list \<Rightarrow> allowlist_entry list \<Rightarrow> allowlist_entry list" where
  "first_by_pattern seen [] = []"
| "first_by_pattern seen (e # es) =
     (if ae_pattern e \<in> set seen then first_by_pattern seen es else e # first_by_pattern (ae_pattern e # seen) es)"

definition first_resolved_path :: "segment list \<Rightarrow> string option" where
  "first_resolved_path ss = (case ss of [] \<Rightarrow> None | s # _ \<Rightarrow> Option.bind (sg_resolution s) cr_resolvedPath)"

definition recordMatchedAllowlistUse ::
  "(nat \<Rightarrow> string) \<Rightarrow> int \<Rightarrow> gateway_call \<Rightarrow> allowlist_analysis \<Rightarrow> entries_file \<Rightarrow> entries_file" where
  "recordMatchedAllowlistUse uuid now g r f =
     fold (\<lambda>m f. recordAllowlistUse uuid now f (gw_agentId g) m (gw_command g) (first_resolved_path (al_segments r)))
       (first_by_pattern [] (al_matches r)) f"

text \<open>The command runs, with the enforced text if there is one, or an answer is waited for.\<close>

datatype gateway_step = RunNow "string option" entries_file | WaitForAnswer pending_exec

definition enforced_command :: "exec_host \<Rightarrow> gateway_call \<Rightarrow> exec_security \<Rightarrow> allowlist_analysis \<Rightarrow> bool \<Rightarrow> string option result" where
  "enforced_command H g security r satisfied =
     (if security = SecAllowlist \<and> al_analysisOk r \<and> satisfied
      then (case buildEnforcedShellCommand (Some (process_platform H)) (gw_command g) (al_segments r) of
          Inl e \<Rightarrow> Inl (Error (''exec denied: allowlist execution plan unavailable ('' @ e @ '')''))
        | Inr c \<Rightarrow> if c = [] then Inl (Error ''exec denied: allowlist execution plan unavailable (undefined)'') else Inr (Some c))
      else Inr None)"

definition gateway_pending ::
  "exec_host \<Rightarrow> (string \<Rightarrow> nat \<Rightarrow> string) \<Rightarrow> entries_file \<Rightarrow> gateway_call \<Rightarrow> bool \<Rightarrow> pending_exec result" where
  "gateway_pending H uuid f g obfuscated =
     bind_r (resolveExecHostApprovalContext uuid f ''gateway'' (gw_agentId g) (gw_security g) (gw_ask g)) (\<lambda>c.
     bind_r (evaluateShellAllowlist H (gateway_policy H g (ra_allowlist (hc_approvals c))) (Some (gw_env g)) (gw_command g)) (\<lambda>r.
       let satisfied = (if hc_security c = SecAllowlist \<and> al_analysisOk r then al_satisfied r else False)
       in bind_r (enforced_command H g (hc_security c) r satisfied) (\<lambda>enforced.
         Inr \<lparr>pe_context = c, pe_eval = r, pe_analysisOk = al_analysisOk r, pe_satisfied = satisfied,
              pe_enforced = enforced, pe_obfuscated = obfuscated\<rparr>)))"

definition processGatewayAllowlist ::
  "exec_host \<Rightarrow> (string \<Rightarrow> nat \<Rightarrow> string) \<Rightarrow> int \<Rightarrow> entries_file \<Rightarrow> gateway_call \<Rightarrow> bool \<Rightarrow> gateway_step result" where
  "processGatewayAllowlist H uuid now f g obfuscated =
     bind_r (gateway_pending H uuid f g obfuscated) (\<lambda>p.
       if requires_ask p then Inr (WaitForAnswer p)
       else if hc_security (pe_context p) = SecAllowlist \<and> (\<not> pe_analysisOk p \<or> \<not> pe_satisfied p)
       then Inl (Error ''exec denied: allowlist miss'')
       else Inr (RunNow (pe_enforced p)
         (recordMatchedAllowlistUse (uuid (or_default (gw_agentId g) DEFAULT_AGENT_ID)) now g (pe_eval p) (ra_file (hc_approvals (pe_context p))))))"

subsection \<open>The answer\<close>

datatype exec_outcome = Denied string | Ran "string option" entries_file

text \<open>Whether the question was answered with yes, and the reason for a no.\<close>

definition answer_verdict :: "pending_exec \<Rightarrow> string option \<Rightarrow> bool \<times> string option" where
  "answer_verdict p decision =
     (if decision = Some ''deny'' then (False, Some ''user-denied'')
      else if opt_str decision = [] then
        (if pe_obfuscated p then (False, Some ''approval-timeout (obfuscation-detected)'')
         else (case hc_askFallback (pe_context p) of
             SecFull \<Rightarrow> (True, None)
           | SecAllowlist \<Rightarrow> if \<not> pe_analysisOk p \<or> \<not> pe_satisfied p then (False, Some ''approval-timeout (allowlist-miss)'')
                            else (True, None)
           | SecDeny \<Rightarrow> (False, Some ''approval-timeout'')))
      else if decision = Some ''allow-once'' then (True, None)
      else if decision = Some ''allow-always'' then (True, None)
      else (False, None))"

definition denied_reason :: "pending_exec \<Rightarrow> string option \<Rightarrow> string option" where
  "denied_reason p decision =
     (let (approved, reason) = answer_verdict p decision
      in if hc_security (pe_context p) = SecAllowlist \<and> (\<not> pe_analysisOk p \<or> \<not> pe_satisfied p) \<and> \<not> approved
         then Some (or_default reason ''allowlist-miss'') else reason)"

definition allow_always_patterns :: "exec_host \<Rightarrow> gateway_call \<Rightarrow> pending_exec \<Rightarrow> string list" where
  "allow_always_patterns H g p =
     resolveAllowAlwaysPatterns H (Some (gw_workdir g)) (Some (gw_env g)) (Some (process_platform H)) (al_segments (pe_eval p))"

text \<open>The file after the answer; \<open>draw n\<close> is the identifier of the entry added for the pattern at place \<open>n\<close>.\<close>

definition file_after_answer ::
  "exec_host \<Rightarrow> (nat \<Rightarrow> string) \<Rightarrow> int \<Rightarrow> gateway_call \<Rightarrow> pending_exec \<Rightarrow> string option \<Rightarrow> entries_file" where
  "file_after_answer H draw now g p decision =
     (let f = ra_file (hc_approvals (pe_context p))
      in if decision = Some ''allow-always'' \<and> hc_security (pe_context p) = SecAllowlist
         then fold (\<lambda>(n, pattern) f. if pattern = [] then f else addAllowlistEntry (draw n) now f (gw_agentId g) pattern)
                (enumerate 0 (allow_always_patterns H g p)) f
         else f)"

definition answer_gateway ::
  "exec_host \<Rightarrow> (nat \<Rightarrow> string) \<Rightarrow> int \<Rightarrow> gateway_call \<Rightarrow> pending_exec \<Rightarrow> string option \<Rightarrow> exec_outcome" where
  "answer_gateway H draw now g p decision =
     (case denied_reason p decision of Some reason \<Rightarrow> Denied reason
      | None \<Rightarrow> Ran (pe_enforced p)
          (recordMatchedAllowlistUse draw now g (pe_eval p) (file_after_answer H draw now g p decision)))"

section \<open>A node runs what is allowed\<close>

text \<open>
  A node runs a command exactly when running is not denied and either it was approved, or no question is
  always asked and the host trusts everything or the allowlist is satisfied by a command that is no shell
  wrapper.
\<close>

theorem node_runs_exactly:
  "sd_denied (evaluateSystemRunPolicy r) = None \<longleftrightarrow>
     sr_security r \<noteq> SecDeny \<and>
     ((\<exists>d. sr_approvalDecision r = Some d) \<or> sr_approved r \<or>
      sr_ask r \<noteq> AskAlways \<and>
      (sr_security r = SecFull \<or> sr_analysisOk r \<and> sr_allowlistSatisfied r \<and> \<not> sr_shellWrapperInvocation r))"
  by (cases "sr_security r"; cases "sr_ask r") (auto simp: evaluateSystemRunPolicy_def requiresExecApproval_def Let_def)

section \<open>The gateway runs what is allowed\<close>

lemma planned_tokens:
  assumes "segment_from (resolveCommandResolutionFromArgv H cwd env) s" "resolvePlannedSegmentArgv s = Some argv"
  shows "[] \<notin> set argv"
proof -
  have effective: "[] \<notin> set (cr_effectiveArgv r)" if "sg_resolution s = Some r" for r
  proof -
    have "cr_effectiveArgv r = pn_argv (resolveDispatchWrapperExecutionPlan (sg_argv s))"
      using that assms(1) by (auto simp: segment_from_def resolveCommandResolutionFromArgv_def Let_def split: if_splits)
    then have "set (cr_effectiveArgv r) \<subseteq> set (sg_argv s)" using plan_argv_suffix set_mono_suffix by metis
    then show ?thesis using assms(1) by (auto simp: segment_from_def list_all_iff)
  qed
  have base: "[] \<notin> set (sg_argv s)" using assms(1) by (auto simp: segment_from_def list_all_iff)
  obtain base where b: "[] \<notin> set base" "argv = base \<or> (\<exists>e. e \<noteq> [] \<and> argv = e # tl base)"
    using assms(2) effective base
    by (auto simp: resolvePlannedSegmentArgv_def Let_def split: option.splits if_splits)
  then show ?thesis by (cases base) auto
qed

text \<open>What a gateway call has to do with the allowlist: the policy, the evaluation, and the enforced text.\<close>

lemma gateway_pendingD:
  assumes "gateway_pending H uuid f g obfuscated = Inr p" "hc_security (pe_context p) = SecAllowlist"
  shows "evaluateShellAllowlist H (gateway_policy H g (ra_allowlist (hc_approvals (pe_context p)))) (Some (gw_env g)) (gw_command g)
      = Inr (pe_eval p)"
    and "pe_analysisOk p = al_analysisOk (pe_eval p)"
    and "pe_satisfied p = (al_analysisOk (pe_eval p) \<and> al_satisfied (pe_eval p))"
    and "pe_enforced p \<noteq> None \<longleftrightarrow> pe_satisfied p"
    and "pe_enforced p = Some out \<Longrightarrow>
       buildEnforcedShellCommand (Some (process_platform H)) (gw_command g) (al_segments (pe_eval p)) = Inr out"
  using assms
  by (auto simp: gateway_pending_def bind_r_eq_Inr enforced_command_def Let_def split: if_splits sum.splits)

text \<open>
  The commands a shell starts for a text are those of allowed segments of another: each is a segment with
  its program replaced by the file that was found and its transparent wrappers left out.
\<close>

definition starts_allowed :: "exec_host \<Rightarrow> exec_policy \<Rightarrow> exec_env option \<Rightarrow> string \<Rightarrow> string \<Rightarrow> bool" where
  "starts_allowed H P env command out =
     (case (analyzeShellCommand (resolveCommandResolutionFromArgv H (ep_cwd P) env) (Some (process_platform H)) out,
            evaluateShellAllowlist H P env command) of
        (Inr a, Inr r) \<Rightarrow>
          al_segments r \<noteq> [] \<and> list_all (segment_allowed H P) (al_segments r) \<and>
          map (\<lambda>s. Some (sg_argv s)) (an_segments a) = map resolvePlannedSegmentArgv (al_segments r) \<and>
          map_option (map snd) (splitCommandChainWithOperators out)
            = map_option (map snd) (splitCommandChainWithOperators (js_trim command))
      | _ \<Rightarrow> False)"

lemma enforced_starts_allowed:
  assumes "evaluateShellAllowlist H P env command = Inr r" "al_analysisOk r" "al_satisfied r"
    and "buildEnforcedShellCommand (Some (process_platform H)) command (al_segments r) = Inr out"
  shows "starts_allowed H P env command out"
proof -
  let ?R = "resolveCommandResolutionFromArgv H (ep_cwd P) env"
  from shell_allowlist_sound [OF assms(1)] assms(2,3) have r: "al_segments r \<noteq> []"
    "list_all (segment_allowed H P) (al_segments r)" "list_all (segment_from ?R) (al_segments r)"
    by (auto simp: analysis_sound_def)
  have tokens: "\<And>s argv. s \<in> set (al_segments r) \<Longrightarrow> resolvePlannedSegmentArgv s = Some argv \<Longrightarrow> [] \<notin> set argv"
    using planned_tokens r(3) by (auto simp: list_all_iff)
  have "(\<exists>b. analyzeShellCommand ?R (Some (process_platform H)) out = Inr b
      \<and> map (\<lambda>s. Some (sg_argv s)) (an_segments b) = map resolvePlannedSegmentArgv (al_segments r))
    \<and> map_option (map snd) (splitCommandChainWithOperators out) = map_option (map snd) (splitCommandChainWithOperators (js_trim command))"
    by (rule enforced_analysis [OF assms(4)]) (rule tokens)
  with r assms(1) show ?thesis by (auto simp: starts_allowed_def)
qed

text \<open>
  C26: where a host is in allowlist mode, a command the gateway runs without asking is replaced by its
  enforced text. Taken apart again, that text starts just the commands of the segments that were evaluated, in
  the same pipelines and chains, and each of them is named by an entry of the allowlist or is a call of a safe
  bin.
\<close>

theorem gateway_runs_only_allowed:
  assumes "processGatewayAllowlist H uuid now f g obfuscated = Inr (RunNow x f')"
    and "resolveExecHostApprovalContext uuid f ''gateway'' (gw_agentId g) (gw_security g) (gw_ask g) = Inr c"
    and "hc_security c = SecAllowlist"
  shows "\<exists>out. x = Some out \<and>
    starts_allowed H (gateway_policy H g (ra_allowlist (hc_approvals c))) (Some (gw_env g)) (gw_command g) out"
proof -
  from assms(1) obtain p where p: "gateway_pending H uuid f g obfuscated = Inr p" "\<not> requires_ask p"
    "\<not> (hc_security (pe_context p) = SecAllowlist \<and> (\<not> pe_analysisOk p \<or> \<not> pe_satisfied p))" "x = pe_enforced p"
    by (auto simp: processGatewayAllowlist_def bind_r_eq_Inr split: if_splits)
  from p(1) assms(2) have c: "pe_context p = c"
    by (auto simp: gateway_pending_def bind_r_eq_Inr Let_def)
  note d = gateway_pendingD [OF p(1), unfolded c, OF assms(3)]
  from p(3) c assms(3) d obtain out where "x = Some out" "al_analysisOk (pe_eval p)" "al_satisfied (pe_eval p)"
    "pe_enforced p = Some out" using p(4) by auto
  with enforced_starts_allowed [OF d(1) _ _ d(5)] show ?thesis by blast
qed

text \<open>A machine with two programs, and a file that lets the default agent search.\<close>

definition posix_dirname :: "string \<Rightarrow> string" where
  "posix_dirname p = rev (tl (dropWhile (\<lambda>c. c \<noteq> CHR ''/'') (rev p)))"

definition unix_env :: exec_env where
  "unix_env = \<lparr>env_PATH = Some ''/usr/bin:/bin'', env_Path = None, env_PATHEXT = None, env_Pathext = None\<rparr>"

definition unix_host :: exec_host where
  "unix_host = \<lparr>is_win32 = False, isExecutableFile = (\<lambda>p. p = ''/usr/bin/rg'' \<or> p = ''/usr/bin/head''), tryRealpath = (\<lambda>p. None),
     path_isAbsolute = (\<lambda>p. js_starts_with p ''/''), path_resolve = (\<lambda>d p. if js_starts_with p ''/'' then p else d @ ''/'' @ p),
     path_join = (\<lambda>d p. d @ ''/'' @ p), path_basename = posix_basename, path_dirname = posix_dirname, path_extname = (\<lambda>p. []),
     path_delimiter = CHR '':'', process_cwd = ''/work'', home_dir = Some ''/home/op'', process_env = unix_env, regexp_test = (\<lambda>r t. None)\<rparr>"

definition search_call :: gateway_call where
  "search_call = \<lparr>gw_command = ''rg TODO | head -n 5 && nohup rg x'', gw_workdir = ''/work'', gw_env = unix_env,
     gw_security = SecAllowlist, gw_ask = AskOnMiss, gw_safeBins = [''head''],
     gw_safeBinProfiles = [(''head'', compileSafeBinProfile (fixture None (Some 0) (Some [''-n'']) None))],
     gw_agentId = None, gw_trustedSafeBinDirs = Some [''/usr/bin'']\<rparr>"

definition search_file :: entries_file where
  "search_file = empty_file\<lparr>af_agents := [(''main'', \<lparr>aa_policy = no_fields, aa_allowlist = Some [pattern_entry ''/usr/bin/rg'']\<rparr>)]\<rparr>"

definition some_id :: "string \<Rightarrow> nat \<Rightarrow> string" where "some_id k n = ''id''"

definition enforced_now :: "gateway_step result \<Rightarrow> string option" where
  "enforced_now r = (case r of Inr (RunNow x _) \<Rightarrow> x | _ \<Rightarrow> None)"

theorem gateway_runs_only_allowed_witness:
  "enforced_now (processGatewayAllowlist unix_host some_id 7 search_file search_call False)
     = Some ([squote] @ ''/usr/bin/rg'' @ [squote, CHR '' '', squote] @ ''TODO'' @ [squote] @ '' | '' @ [squote] @ ''/usr/bin/head''
        @ [squote, CHR '' '', squote] @ ''-n'' @ [squote, CHR '' '', squote] @ ''5'' @ [squote] @ '' && '' @ [squote] @ ''/usr/bin/rg''
        @ [squote, CHR '' '', squote] @ ''x'' @ [squote])
   \<and> (\<exists>P out. enforced_now (processGatewayAllowlist unix_host some_id 7 search_file search_call False) = Some out
        \<and> starts_allowed unix_host P (Some unix_env) (gw_command search_call) out)"
  (is "?text \<and> ?allowed")
proof -
  have enf: ?text by code_simp
  then obtain x f' where run: "processGatewayAllowlist unix_host some_id 7 search_file search_call False = Inr (RunNow x f')"
    by (auto simp: enforced_now_def split: sum.splits gateway_step.splits)
  have "(case resolveExecHostApprovalContext some_id search_file ''gateway'' (gw_agentId search_call) (gw_security search_call)
      (gw_ask search_call) of Inr c \<Rightarrow> hc_security c = SecAllowlist | Inl _ \<Rightarrow> False)" by code_simp
  then obtain c where c: "resolveExecHostApprovalContext some_id search_file ''gateway'' (gw_agentId search_call) (gw_security search_call)
      (gw_ask search_call) = Inr c" "hc_security c = SecAllowlist" by (auto split: sum.splits)
  have "gw_env search_call = unix_env" by (simp add: search_call_def)
  with gateway_runs_only_allowed [OF run c] run enf show ?thesis by (auto simp: enforced_now_def)
qed

text \<open>
  After the question, a command runs exactly when it was allowed, or nobody answered, it does not look
  obfuscated and the fallback lets it pass, or the answer was not understood and the host trusts everything or
  the allowlist is satisfied.
\<close>

theorem gateway_answer_exact:
  "(\<exists>x f. answer_gateway H draw now g p decision = Ran x f) \<longleftrightarrow>
     (if decision \<in> {Some ''allow-once'', Some ''allow-always''} then True
      else if decision = Some ''deny'' then False
      else if opt_str decision = []
      then \<not> pe_obfuscated p \<and> (hc_askFallback (pe_context p) = SecFull \<or>
             hc_askFallback (pe_context p) = SecAllowlist \<and> pe_analysisOk p \<and> pe_satisfied p)
      else hc_security (pe_context p) \<in> {SecFull, SecDeny} \<or> pe_analysisOk p \<and> pe_satisfied p)"
  by (cases "hc_security (pe_context p)")
    (auto simp: answer_gateway_def denied_reason_def answer_verdict_def opt_str_def or_default_def split: option.splits exec_security.splits)

text \<open>A host that denies runs nothing and asks nothing.\<close>

lemma gateway_denied:
  assumes "rp_security (ra_agent a) = SecDeny"
    and "resolveExecApprovalsFromFile uuid (as_raw f) (gw_agentId g)
      \<lparr>ov_security = Some (gw_security g), ov_ask = Some (gw_ask g), ov_askFallback = None, ov_autoAllowSkills = None\<rparr> = Inr a"
  shows "processGatewayAllowlist H uuid now f g obfuscated = Inl (Error ''exec denied: host=gateway security=deny'')"
  using assms by (simp add: processGatewayAllowlist_def gateway_pending_def resolveExecHostApprovalContext_def)

section \<open>Allow always\<close>



lemma lower_operator [simp]: "regex_operator (js_lower_char c) = regex_operator c"
  by (cases c) (auto simp: regex_operator_def backslash_def js_lower_char_code)

lemma lower_line_end [simp]: "line_terminator (js_lower_char c) = line_terminator c"
  by (auto simp: line_terminator_def js_lower_char_def Let_def)







text \<open>
  A path with an operator is no pattern for itself: the pattern recorded for the program \<open>g++\<close> is an
  expression that cannot be compiled (two operators in a row), and from then on every command that is compared
  with it makes the evaluation throw.
\<close>

lemma plus_pattern_throws:
  assumes "regexp_test H ''^/usr/bin/g++$'' t' = None" "t' = js_lower (replace_double_backslash t)" "\<not> is_win32 H"
  shows "first_matching H t (pattern_entry ''/usr/bin/g++'' # es) = Inl (Error ''Invalid regular expression'')"
proof -
  have "js_trim ''/usr/bin/g++'' = ''/usr/bin/g++''" "has_path_sep ''/usr/bin/g++''" "list_ex regex_operator ''/usr/bin/g++''"
    "replace_double_backslash ''/usr/bin/g++'' = ''/usr/bin/g++''" "js_lower ''/usr/bin/g++'' = ''/usr/bin/g++''"
    "globToRegExp ''/usr/bin/g++'' = ''^/usr/bin/g++$''" by code_simp+
  moreover have "expandHomePrefix H ''/usr/bin/g++'' = ''/usr/bin/g++''"
    by (simp add: expandHomePrefix_def split: option.split)
  ultimately show ?thesis using assms
    by (simp add: pattern_entry_def matchesPattern_def normalizeMatchTarget_def regex_matches_def Let_def)
qed

end
