(* ===== verification/CronQueue.thy ===== *)
theory CronQueue
  imports Prelude "HOL-Library.AList"
begin

text \<open>
  The queue of task runs, \<open>src/cron/task-run-queue.ts\<close>: runs made of steps that workers lease, complete,
  retry and recover. The SQLite ledger behind it gives each operation the list of runs and keeps what the
  operation leaves in it, one operation at a time; here an operation is a function on the list.

  A step is named by its place in its run, as the code holds the object it has found. Times, attempts and
  delays are integers, as the code stores them; those of a stored policy may be missing. The code
  also writes the policy it has read back into the step, in normal form, whenever it looks at it: here the
  policy is put into normal form where it is read, and written back where a step is found or created.
  Descriptive fields of a step that no operation looks at are kept as one object.
\<close>

section \<open>Runs and steps\<close>

datatype queue_status = QQueued | QRunning | QOk | QError | QSkipped | QBlocked | QCanceled | QRecovered

datatype retry_on = OnError | OnLeaseExpired | OnErrorOrLeaseExpired

record retry_policy =
  tp_maxAttempts :: "int option"
  tp_retryDelayMs :: "int option"
  tp_backoffMultiplier :: "rat option"
  tp_retryOn :: "retry_on option"

text \<open>The policy in normal form\<close>

record step_policy =
  np_maxAttempts :: int
  np_retryDelayMs :: int
  np_backoffMultiplier :: rat
  np_retryOn :: retry_on

record resume_state =
  rm_resumable :: bool
  rm_reason :: string
  rm_checkpointKeys :: "string list"
  rm_updatedAtMs :: int

datatype step_kind = PhaseStep | GraphNodeStep

record cron_step =
  qs_id :: string
  qs_kind :: "step_kind option"
  qs_graphNodeId :: "string option"
  qs_graphNodeDependsOn :: "string list option"
  qs_graphNodeFields :: js_object
  qs_status :: queue_status
  qs_attempt :: int
  qs_maxAttempts :: "int option"
  qs_retryPolicy :: "retry_policy option"
  qs_nextRetryAtMs :: "int option"
  qs_resume :: "resume_state option"
  qs_createdAtMs :: int
  qs_startedAtMs :: "int option"
  qs_completedAtMs :: "int option"
  qs_leaseOwner :: "string option"
  qs_leaseExpiresAtMs :: "int option"
  qs_checkpoint :: "js_object option"
  qs_error :: "string option"

record repair_replay =
  rr_runId :: string
  rr_parentRunId :: string
  rr_graphRevision :: int
  rr_parentRevision :: int
  rr_repairRevision :: int
  rr_repairAttempt :: int
  rr_maxRepairAttempts :: int
  rr_repairedAtMs :: int
  rr_reusedNodeIds :: "string list"
  rr_invalidatedNodeIds :: "string list"
  rr_requeuedNodeIds :: "string list"
  rr_reason :: string

record queue_run =
  qr_runId :: string
  qr_jobId :: string
  qr_jobName :: string
  qr_agentId :: "string option"
  qr_sessionKey :: "string option"
  qr_trigger :: string
  qr_status :: queue_status
  qr_createdAtMs :: int
  qr_updatedAtMs :: int
  qr_queuedAtMs :: int
  qr_startedAtMs :: "int option"
  qr_completedAtMs :: "int option"
  qr_cancelRequestedAtMs :: "int option"
  qr_recoveredAtMs :: "int option"
  qr_error :: "string option"
  qr_skipReason :: "string option"
  qr_graphRevision :: "rat option"
  qr_parentRevision :: "rat option"
  qr_repairRevision :: "rat option"
  qr_repairReplay :: "repair_replay option"
  qr_result :: "js_object option"
  qr_steps :: "cron_step list"

section \<open>Retry policies\<close>

definition WORKER_STEP_ID :: string where "WORKER_STEP_ID = ''run-tool-or-model''"
definition COLLECT_STEP_ID :: string where "COLLECT_STEP_ID = ''collect''"
definition PLAN_ANALYSIS_STEP_ID :: string where "PLAN_ANALYSIS_STEP_ID = ''plan-analysis''"
definition SYNTHESIZE_STEP_ID :: string where "SYNTHESIZE_STEP_ID = ''synthesize''"
definition LEGACY_WORKER_STEP_ID :: string where "LEGACY_WORKER_STEP_ID = ''execute''"
definition GRAPH_STEP_PREFIX :: string where "GRAPH_STEP_PREFIX = ''graph:''"

definition PHASE_STEP_IDS :: "string list" where
  "PHASE_STEP_IDS = [''reserve'', ''preflight'', ''prepare-session'', COLLECT_STEP_ID, PLAN_ANALYSIS_STEP_ID, WORKER_STEP_ID,
     SYNTHESIZE_STEP_ID, ''evaluate'', ''deliver'', ''finalize'']"

definition RESETTABLE_PHASE_STEP_IDS :: "string list" where
  "RESETTABLE_PHASE_STEP_IDS = filter (\<lambda>i. i \<noteq> ''reserve'') PHASE_STEP_IDS"

definition MAX_STEP_RETRY_DELAY_MS :: int where "MAX_STEP_RETRY_DELAY_MS = 5 * 60000"

definition retried_policy :: step_policy where
  "retried_policy = \<lparr>np_maxAttempts = 3, np_retryDelayMs = 1000, np_backoffMultiplier = 2, np_retryOn = OnErrorOrLeaseExpired\<rparr>"

definition defaultRetryPolicyForStepId :: "string \<Rightarrow> step_policy" where
  "defaultRetryPolicyForStepId i =
     (if js_starts_with i GRAPH_STEP_PREFIX then retried_policy
      else if i = WORKER_STEP_ID \<or> i = LEGACY_WORKER_STEP_ID then retried_policy
      else if i = ''deliver'' \<or> i = PLAN_ANALYSIS_STEP_ID \<or> i = SYNTHESIZE_STEP_ID then retried_policy
      else if i = COLLECT_STEP_ID then retried_policy
      else \<lparr>np_maxAttempts = 1, np_retryDelayMs = 0, np_backoffMultiplier = 1, np_retryOn = OnError\<rparr>)"

definition cronTaskRunQueueGraphStepId :: "string \<Rightarrow> string" where
  "cronTaskRunQueueGraphStepId nodeId = GRAPH_STEP_PREFIX @ js_trim nodeId"

text \<open>The value if it is there and passes the test, else the other.\<close>

definition checked_number :: "'a option \<Rightarrow> ('a \<Rightarrow> bool) \<Rightarrow> 'a \<Rightarrow> 'a" where
  "checked_number v test other = (case v of Some r \<Rightarrow> if test r then r else other | None \<Rightarrow> other)"

definition normalizeStepPolicy :: "cron_step \<Rightarrow> step_policy" where
  "normalizeStepPolicy s =
     (let fb = defaultRetryPolicyForStepId (qs_id s); p = qs_retryPolicy s
      in \<lparr>np_maxAttempts = checked_number (Option.bind p tp_maxAttempts) (\<lambda>n. n > 0)
             (checked_number (qs_maxAttempts s) (\<lambda>n. n > 0) (np_maxAttempts fb)),
          np_retryDelayMs = checked_number (Option.bind p tp_retryDelayMs) (\<lambda>n. n \<ge> 0) (np_retryDelayMs fb),
          np_backoffMultiplier = checked_number (Option.bind p tp_backoffMultiplier) (\<lambda>r. r \<ge> 1) (np_backoffMultiplier fb),
          np_retryOn = (case Option.bind p tp_retryOn of Some r \<Rightarrow> r | None \<Rightarrow> np_retryOn fb)\<rparr>)"

definition written_policy :: "step_policy \<Rightarrow> retry_policy" where
  "written_policy p = \<lparr>tp_maxAttempts = Some (np_maxAttempts p), tp_retryDelayMs = Some (np_retryDelayMs p),
     tp_backoffMultiplier = Some (np_backoffMultiplier p), tp_retryOn = Some (np_retryOn p)\<rparr>"

definition with_policy :: "step_policy \<Rightarrow> cron_step \<Rightarrow> cron_step" where
  "with_policy p s = s\<lparr>qs_retryPolicy := Some (written_policy p), qs_maxAttempts := Some (np_maxAttempts p)\<rparr>"

definition js_round :: "rat \<Rightarrow> int" where
  "js_round r = \<lfloor>r + 1 / 2\<rfloor>"

definition stepRetryDelayMs :: "cron_step \<Rightarrow> int" where
  "stepRetryDelayMs s =
     (let p = normalizeStepPolicy s; base = max 0 (np_retryDelayMs p)
      in if base \<le> 0 \<or> qs_attempt s \<le> 1 then 0
         else min MAX_STEP_RETRY_DELAY_MS (js_round (of_int base * max 1 (np_backoffMultiplier p) ^ nat (max 0 (qs_attempt s - 2)))))"

definition due :: "int option \<Rightarrow> int \<Rightarrow> bool" where
  "due t now = (case t of None \<Rightarrow> True | Some u \<Rightarrow> u \<le> now)"

text \<open>\<open>(step.leaseExpiresAtMs ?? Infinity) <= nowMs\<close>\<close>

definition lease_expired :: "cron_step \<Rightarrow> int \<Rightarrow> bool" where
  "lease_expired s now = (case qs_leaseExpiresAtMs s of None \<Rightarrow> False | Some t \<Rightarrow> t \<le> now)"

definition stepCanRetryAfterError :: "cron_step \<Rightarrow> int \<Rightarrow> bool" where
  "stepCanRetryAfterError s now =
     (let p = normalizeStepPolicy s
      in if np_retryOn p \<notin> {OnError, OnErrorOrLeaseExpired} \<or> qs_status s \<noteq> QError \<or> np_maxAttempts p \<le> qs_attempt s then False
         else due (qs_nextRetryAtMs s) now)"

definition stepCanResumeExpiredLease :: "cron_step \<Rightarrow> int \<Rightarrow> bool" where
  "stepCanResumeExpiredLease s now =
     (let p = normalizeStepPolicy s
      in np_retryOn p \<in> {OnLeaseExpired, OnErrorOrLeaseExpired} \<and> qs_status s = QRunning \<and> lease_expired s now \<and>
         qs_attempt s < np_maxAttempts p)"

definition stepIsRunnable :: "cron_step \<Rightarrow> int \<Rightarrow> bool" where
  "stepIsRunnable s now =
     (let leaseExpired = stepCanResumeExpiredLease s now; retryableError = stepCanRetryAfterError s now
      in if qs_status s \<noteq> QQueued \<and> \<not> leaseExpired \<and> \<not> retryableError then False
         else if qs_status s = QQueued \<and> \<not> due (qs_nextRetryAtMs s) now then False
         else qs_attempt s < np_maxAttempts (normalizeStepPolicy s) \<or> leaseExpired)"

section \<open>Checkpoints\<close>

definition checkpointKeys :: "js_object option \<Rightarrow> string list" where
  "checkpointKeys c = (case c of None \<Rightarrow> [] | Some kvs \<Rightarrow> filter (\<lambda>k. js_trim k \<noteq> []) (map fst kvs))"

definition resumeStateForStep :: "js_object option \<Rightarrow> int \<Rightarrow> string option \<Rightarrow> resume_state" where
  "resumeStateForStep checkpoint now reason =
     (let keys = checkpointKeys checkpoint
      in \<lparr>rm_resumable = keys \<noteq> [],
          rm_reason = (case reason of Some r \<Rightarrow> r
             | None \<Rightarrow> if keys \<noteq> [] then ''Checkpoint data is available for the next worker lease.''
                       else ''No checkpoint data has been recorded for this step.''),
          rm_checkpointKeys = keys, rm_updatedAtMs = now\<rparr>)"

text \<open>\<open>{ ...a, ...b }\<close>\<close>

definition spread_fields :: "js_object option \<Rightarrow> js_object \<Rightarrow> js_object" where
  "spread_fields a b = fold (\<lambda>(k, v). AList.update k v) b (case a of Some kvs \<Rightarrow> kvs | None \<Rightarrow> [])"

definition jint :: "int \<Rightarrow> json" where "jint i = JNum (Fin (of_int i))"

definition set_resume :: "int \<Rightarrow> string option \<Rightarrow> cron_step \<Rightarrow> cron_step" where
  "set_resume now reason s = s\<lparr>qs_resume := Some (resumeStateForStep (qs_checkpoint s) now reason)\<rparr>"

section \<open>New runs\<close>

record cron_node =
  cn_id :: string
  cn_label :: string
  cn_kind :: string
  cn_dependsOn :: "string list option"
  cn_optional :: "bool option"
  cn_sourceRole :: "string option"
  cn_sourcePriority :: "rat option"
  cn_sourceFreshness :: "string option"
  cn_sourceExpectedOutputType :: "string option"
  cn_trustedSourceId :: "string option"

record cron_graph =
  cg_graphRevision :: "rat option"
  cg_parentRevision :: "rat option"
  cg_repairRevision :: "rat option"
  cg_nodes :: "cron_node list"

record graph_repair =
  rp_nodeId :: string
  rp_applied :: bool
  rp_applyReason :: "string option"
  rp_reason :: string

text \<open>What of a job the queue reads: its names, the graph of its planner and its state.\<close>

record cron_job =
  cj_id :: string
  cj_name :: string
  cj_agentId :: "string option"
  cj_sessionKey :: "string option"
  cj_graph :: "cron_graph option"
  cj_lastRunId :: "string option"
  cj_lastReplayParentRunId :: "string option"
  cj_lastGraphRepairs :: "graph_repair list"
  cj_repairRevision :: "rat option"
  cj_graphRepairAttempts :: "rat option"

definition blank_step :: "string \<Rightarrow> int \<Rightarrow> cron_step" where
  "blank_step i now =
     (let p = defaultRetryPolicyForStepId i
      in \<lparr>qs_id = i, qs_kind = None, qs_graphNodeId = None, qs_graphNodeDependsOn = None, qs_graphNodeFields = [],
          qs_status = QQueued, qs_attempt = 0, qs_maxAttempts = Some (np_maxAttempts p),
          qs_retryPolicy = Some (written_policy p), qs_nextRetryAtMs = None,
          qs_resume = Some (resumeStateForStep None now None), qs_createdAtMs = now, qs_startedAtMs = None,
          qs_completedAtMs = None, qs_leaseOwner = None, qs_leaseExpiresAtMs = None, qs_checkpoint = None, qs_error = None\<rparr>)"

definition defaultPhaseStep :: "int \<Rightarrow> string \<Rightarrow> cron_step" where
  "defaultPhaseStep now i =
     (let reserve = (i = ''reserve''); fixed = (reserve \<or> i = ''finalize'')
      in (blank_step i now)\<lparr>qs_kind := Some PhaseStep, qs_status := (if reserve then QOk else QQueued),
           qs_attempt := (if reserve then 1 else 0), qs_startedAtMs := (if reserve then Some now else None),
           qs_completedAtMs := (if reserve then Some now else None),
           qs_resume := Some (resumeStateForStep None now (if fixed then Some (i @ '' step does not resume.'') else None))\<rparr>)"

definition node_fields :: "cron_node \<Rightarrow> js_object" where
  "node_fields n = json_field ''graphNodeKind'' (Some (JStr (cn_kind n))) @ json_field ''graphNodeLabel'' (Some (JStr (cn_label n))) @
     json_field ''graphNodeOptional'' (map_option JBool (cn_optional n)) @ opt_field ''graphNodeSourceRole'' (cn_sourceRole n) @
     json_field ''graphNodeSourcePriority'' (map_option (\<lambda>r. JNum (Fin r)) (cn_sourcePriority n)) @
     opt_field ''graphNodeSourceFreshness'' (cn_sourceFreshness n) @
     opt_field ''graphNodeSourceExpectedOutputType'' (cn_sourceExpectedOutputType n) @
     opt_field ''graphNodeTrustedSourceId'' (cn_trustedSourceId n)"

definition node_step :: "int \<Rightarrow> cron_node \<Rightarrow> cron_step" where
  "node_step now n =
     (blank_step (cronTaskRunQueueGraphStepId (cn_id n)) now)\<lparr>qs_kind := Some GraphNodeStep, qs_graphNodeId := Some (cn_id n),
        qs_graphNodeDependsOn := cn_dependsOn n, qs_graphNodeFields := node_fields n,
        qs_checkpoint := Some ((''phase'', JStr ''graph-node'') # (''graphNodeId'', JStr (cn_id n)) # node_fields n),
        qs_resume := Some (resumeStateForStep (Some [(''graphNodeId'', JStr (cn_id n)), (''graphNodeKind'', JStr (cn_kind n)),
            (''graphNodeLabel'', JStr (cn_label n))]) now (Some ''Graph node step is waiting for dependencies.''))\<rparr>"

definition defaultGraphNodeSteps :: "cron_job \<Rightarrow> int \<Rightarrow> cron_step list" where
  "defaultGraphNodeSteps job now = (case cj_graph job of None \<Rightarrow> [] | Some g \<Rightarrow> map (node_step now) (cg_nodes g))"

text \<open>\<open>xs.findIndex(test)\<close>\<close>

fun first_index :: "('a \<Rightarrow> bool) \<Rightarrow> 'a list \<Rightarrow> nat option" where
  "first_index P [] = None"
| "first_index P (x # xs) = (if P x then Some 0 else map_option Suc (first_index P xs))"

definition defaultSteps :: "cron_job \<Rightarrow> int \<Rightarrow> cron_step list" where
  "defaultSteps job now =
     (let phases = map (defaultPhaseStep now) PHASE_STEP_IDS; nodes = defaultGraphNodeSteps job now
      in if nodes = [] then phases
         else (case first_index (\<lambda>s. qs_id s = COLLECT_STEP_ID) phases of
             None \<Rightarrow> nodes @ phases
           | Some i \<Rightarrow> take (Suc i) phases @ nodes @ drop (Suc i) phases))"

definition positiveInteger :: "rat option \<Rightarrow> int \<Rightarrow> int" where
  "positiveInteger v fb = (case v of Some r \<Rightarrow> if r > 0 then \<lfloor>r\<rfloor> else fb | None \<Rightarrow> fb)"

subsection \<open>Repairs of a graph\<close>

text \<open>One pass of the loop: the nodes that depend on an affected node become affected.\<close>

fun affect_pass :: "cron_node list \<Rightarrow> string list \<Rightarrow> string list" where
  "affect_pass [] affected = affected"
| "affect_pass (n # ns) affected =
     (if cn_id n \<in> set affected then affect_pass ns affected
      else if list_ex (\<lambda>d. d \<in> set affected) (case cn_dependsOn n of Some ds \<Rightarrow> ds | None \<Rightarrow> [])
      then affect_pass ns (affected @ [cn_id n]) else affect_pass ns affected)"

lemma affect_pass_grows: "set affected \<subseteq> set (affect_pass ns affected)"
  by (induction ns affected rule: affect_pass.induct) auto

lemma affect_pass_ids: "set (affect_pass ns affected) \<subseteq> set affected \<union> cn_id ` set ns"
  by (induction ns affected rule: affect_pass.induct) auto

lemma affect_pass_changes: "affect_pass ns affected \<noteq> affected \<Longrightarrow> \<exists>n \<in> set ns. cn_id n \<notin> set affected \<and> cn_id n \<in> set (affect_pass ns affected)"
proof (induction ns affected rule: affect_pass.induct)
  case (2 n ns affected)
  then show ?case using affect_pass_grows [of "affected @ [cn_id n]" ns] by (auto split: if_splits)
qed simp

function affect_loop :: "cron_node list \<Rightarrow> string list \<Rightarrow> string list" where
  "affect_loop ns affected =
     (let next_affected = affect_pass ns affected in if next_affected = affected then affected else affect_loop ns next_affected)"
  by pat_completeness auto

termination
proof (relation "measure (\<lambda>(ns, affected). card (cn_id ` set ns - set affected))")
  fix ns affected x
  assume x: "x = affect_pass ns affected" "x \<noteq> affected"
  with affect_pass_changes obtain n where "n \<in> set ns" "cn_id n \<notin> set affected" "cn_id n \<in> set x" by metis
  with x(1) affect_pass_grows have "cn_id ` set ns - set x \<subset> cn_id ` set ns - set affected" by blast
  then show "((ns, x), ns, affected) \<in> measure (\<lambda>(ns, affected). card (cn_id ` set ns - set affected))"
    by (simp add: psubset_card_mono)
qed simp

declare affect_loop.simps [simp del]

definition graphNodeDescendantsInclusive :: "cron_graph \<Rightarrow> string list \<Rightarrow> string list" where
  "graphNodeDescendantsInclusive g seeds = affect_loop (cg_nodes g) (distinct_texts (filter (\<lambda>i. i \<noteq> []) seeds))"

text \<open>The run whose graph was repaired.\<close>

definition previousRunForRepairReplay :: "queue_run list \<Rightarrow> cron_job \<Rightarrow> queue_run option" where
  "previousRunForRepairReplay runs job =
     (case (case cj_lastRunId job of Some i \<Rightarrow> Some i | None \<Rightarrow> cj_lastReplayParentRunId job) of
        None \<Rightarrow> None
      | Some i \<Rightarrow> if i = [] then None else find (\<lambda>r. qr_runId r = i) runs)"

definition step_node :: "cron_step \<Rightarrow> string" where
  "step_node s = opt_str (qs_graphNodeId s)"

definition node_done :: "cron_step \<Rightarrow> bool" where
  "node_done s = (qs_status s = QOk \<or> qs_status s = QSkipped)"

text \<open>The finished graph steps of a run by node; of two for one node the last counts.\<close>

definition previous_graph_step :: "queue_run \<Rightarrow> string \<Rightarrow> cron_step option" where
  "previous_graph_step run node =
     (case rev (filter (\<lambda>s. step_node s \<noteq> [] \<and> node_done s \<and> step_node s = node) (qr_steps run)) of [] \<Rightarrow> None | s # _ \<Rightarrow> Some s)"

datatype replay_action = ReplayLeave | ReplayReuse cron_step js_object | ReplayInvalidate

definition replay_action_of :: "string list \<Rightarrow> queue_run \<Rightarrow> cron_step \<Rightarrow> replay_action" where
  "replay_action_of invalidated prev s =
     (if step_node s = [] then ReplayLeave
      else if step_node s \<in> set invalidated then ReplayInvalidate
      else (case previous_graph_step prev (step_node s) of None \<Rightarrow> ReplayLeave
        | Some p \<Rightarrow> (case qs_checkpoint p of None \<Rightarrow> ReplayLeave | Some c \<Rightarrow> ReplayReuse p c)))"

record revisions =
  rv_graph :: int
  rv_parent :: int
  rv_repair :: int

definition revision_fields :: "revisions \<Rightarrow> js_object" where
  "revision_fields v = [(''graphRevision'', jint (rv_graph v)), (''parentRevision'', jint (rv_parent v)), (''repairRevision'', jint (rv_repair v))]"

text \<open>
  The keys of an invalidated checkpoint when its resume state is made: those of the node's checkpoint, then those added.
  A key without a value counts here, though it is not stored.
\<close>

definition INVALIDATED_KEYS :: "string list" where
  "INVALIDATED_KEYS = [''phase'', ''graphNodeId'', ''graphNodeKind'', ''graphNodeLabel'', ''graphNodeOptional'', ''graphNodeSourceRole'',
     ''graphNodeSourcePriority'', ''graphNodeSourceFreshness'', ''graphNodeSourceExpectedOutputType'', ''graphNodeTrustedSourceId'',
     ''invalidatedByRepair'', ''invalidatedFromRunId'', ''graphRevision'', ''parentRevision'', ''repairRevision'', ''repairNode'']"

definition replay_step :: "string list \<Rightarrow> string list \<Rightarrow> queue_run \<Rightarrow> revisions \<Rightarrow> int \<Rightarrow> cron_step \<Rightarrow> cron_step" where
  "replay_step invalidated repairNodeIds prev v now s =
     (case replay_action_of invalidated prev s of
        ReplayLeave \<Rightarrow> s
      | ReplayReuse p c \<Rightarrow>
          set_resume now (Some ''Checkpoint reused from the parent run because this graph node was not affected by repair.'')
            (s\<lparr>qs_status := qs_status p, qs_attempt := 0, qs_startedAtMs := Some now, qs_completedAtMs := Some now,
               qs_checkpoint := Some (spread_fields (Some c) ([(''reusedFromRunId'', JStr (qr_runId prev)), (''reusedAtMs'', jint now)] @ revision_fields v))\<rparr>)
      | ReplayInvalidate \<Rightarrow>
          s\<lparr>qs_checkpoint := Some (spread_fields (qs_checkpoint s)
                 ([(''invalidatedByRepair'', JBool True), (''invalidatedFromRunId'', JStr (qr_runId prev))] @ revision_fields v @
                  json_field ''repairNode'' (if step_node s \<in> set repairNodeIds then Some (JBool True) else None))),
              qs_resume := Some \<lparr>rm_resumable = True, rm_reason = ''Checkpoint invalidated by graph repair; this node will run again.'',
                 rm_checkpointKeys = INVALIDATED_KEYS, rm_updatedAtMs = now\<rparr>\<rparr>)"

definition applyRepairReplayToSteps ::
  "cron_job \<Rightarrow> queue_run \<Rightarrow> string \<Rightarrow> int \<Rightarrow> cron_step list \<Rightarrow> (cron_step list \<times> repair_replay) option" where
  "applyRepairReplayToSteps job prev runId now steps =
     (let repairs = filter rp_applied (cj_lastGraphRepairs job); ids = filter (\<lambda>i. i \<noteq> []) (map rp_nodeId repairs)
      in case cj_graph job of None \<Rightarrow> None
         | Some g \<Rightarrow>
             if repairs = [] \<or> ids = [] then None
             else let invalidated = graphNodeDescendantsInclusive g ids;
                      rev = positiveInteger (cg_graphRevision g) 1;
                      v = \<lparr>rv_graph = rev, rv_parent = positiveInteger (cg_parentRevision g) (max 1 (rev - 1)),
                           rv_repair = positiveInteger (cg_repairRevision g) (positiveInteger (cj_repairRevision job) 1)\<rparr>;
                      reused = filter (\<lambda>s. case replay_action_of invalidated prev s of ReplayReuse _ _ \<Rightarrow> True | _ \<Rightarrow> False) steps;
                      redone = filter (\<lambda>s. replay_action_of invalidated prev s = ReplayInvalidate) steps
                  in Some (map (replay_step invalidated ids prev v now) steps,
                       \<lparr>rr_runId = runId, rr_parentRunId = qr_runId prev, rr_graphRevision = rv_graph v, rr_parentRevision = rv_parent v,
                        rr_repairRevision = rv_repair v, rr_repairAttempt = positiveInteger (cj_graphRepairAttempts job) 1,
                        rr_maxRepairAttempts = 2, rr_repairedAtMs = now, rr_reusedNodeIds = map step_node reused,
                        rr_invalidatedNodeIds = map step_node redone, rr_requeuedNodeIds = map step_node redone,
                        rr_reason = join_with ''; '' (map (\<lambda>r. case rp_applyReason r of Some t \<Rightarrow> t | None \<Rightarrow> rp_reason r) repairs)\<rparr>))"

section \<open>Operations\<close>

definition present :: "string option \<Rightarrow> bool" where "present s = (opt_str s \<noteq> [])"

definition canceled :: "queue_run \<Rightarrow> bool" where
  "canceled r = (qr_status r = QCanceled \<or> at_ms (qr_cancelRequestedAtMs r))"

text \<open>The first run with the id is updated; \<open>update\<close> also gives the result.\<close>

fun update_queue_run :: "string \<Rightarrow> (queue_run \<Rightarrow> queue_run \<times> 'a) \<Rightarrow> 'a \<Rightarrow> queue_run list \<Rightarrow> queue_run list \<times> 'a" where
  "update_queue_run i f missing [] = ([], missing)"
| "update_queue_run i f missing (r # rs) =
     (if qr_runId r = i then (let (r', x) = f r in (r' # rs, x))
      else let (rs', x) = update_queue_run i f missing rs in (r # rs', x))"

definition findOrCreateStep :: "queue_run \<Rightarrow> string \<Rightarrow> int \<Rightarrow> queue_run \<times> nat" where
  "findOrCreateStep r i now =
     (case first_index (\<lambda>s. qs_id s = i) (qr_steps r) of
        None \<Rightarrow> (r\<lparr>qr_steps := qr_steps r @ [blank_step i now]\<rparr>, length (qr_steps r))
      | Some k \<Rightarrow>
          let s = qr_steps r ! k; s' = with_policy (normalizeStepPolicy s) s
          in (r\<lparr>qr_steps := (qr_steps r)[k := (if qs_resume s' = None then set_resume now None s' else s')]\<rparr>, k))"

definition findOrCreateWorkerStep :: "queue_run \<Rightarrow> int \<Rightarrow> queue_run \<times> nat" where
  "findOrCreateWorkerStep r now =
     (if first_index (\<lambda>s. qs_id s = LEGACY_WORKER_STEP_ID) (qr_steps r) \<noteq> None
      then findOrCreateStep r LEGACY_WORKER_STEP_ID now else findOrCreateStep r WORKER_STEP_ID now)"

definition is_graph_step :: "cron_step \<Rightarrow> bool" where
  "is_graph_step s = (qs_kind s = Some GraphNodeStep \<or> step_node s \<noteq> [])"

definition graphNodeSteps :: "queue_run \<Rightarrow> cron_step list" where
  "graphNodeSteps r = filter is_graph_step (qr_steps r)"

definition graphNodeDependenciesMet :: "queue_run \<Rightarrow> cron_step \<Rightarrow> bool" where
  "graphNodeDependenciesMet r s =
     list_all (\<lambda>d. case find (\<lambda>t. qs_graphNodeId t = Some d) (qr_steps r) of None \<Rightarrow> False | Some t \<Rightarrow> node_done t)
       (case qs_graphNodeDependsOn s of Some ds \<Rightarrow> ds | None \<Rightarrow> [])"

definition graphNodesComplete :: "queue_run \<Rightarrow> bool" where
  "graphNodesComplete r = (graphNodeSteps r \<noteq> [] \<and> list_all node_done (graphNodeSteps r))"

definition findRunnableGraphNodeStep :: "queue_run \<Rightarrow> int \<Rightarrow> nat option" where
  "findRunnableGraphNodeStep r now =
     (if list_ex (\<lambda>s. qs_status s = QRunning \<and> \<not> stepCanResumeExpiredLease s now) (graphNodeSteps r) then None
      else first_index (\<lambda>s. is_graph_step s \<and> stepIsRunnable s now \<and> graphNodeDependenciesMet r s) (qr_steps r))"

text \<open>A phase that may be leased, or else must be done before what comes after it.\<close>

definition phase_then :: "string \<Rightarrow> int \<Rightarrow> (queue_run \<Rightarrow> queue_run \<times> nat option) \<Rightarrow> queue_run \<Rightarrow> queue_run \<times> nat option" where
  "phase_then i now continue r =
     (let (r1, k) = findOrCreateStep r i now; s = qr_steps r1 ! k
      in if stepIsRunnable s now then (r1, Some k) else if \<not> node_done s then (r1, None) else continue r1)"

definition deliver_phase :: "int \<Rightarrow> queue_run \<Rightarrow> queue_run \<times> nat option" where
  "deliver_phase now r =
     (let (r1, e) = findOrCreateStep r ''evaluate'' now
      in if \<not> node_done (qr_steps r1 ! e) then (r1, None)
         else let (r2, d) = findOrCreateStep r1 ''deliver'' now
              in (r2, if stepIsRunnable (qr_steps r2 ! d) now then Some d else None))"

definition worker_phase :: "nat \<Rightarrow> int \<Rightarrow> queue_run \<Rightarrow> queue_run \<times> nat option" where
  "worker_phase w now r =
     (if stepIsRunnable (qr_steps r ! w) now then (r, Some w)
      else if qs_status (qr_steps r ! w) \<noteq> QOk then (r, None)
      else phase_then SYNTHESIZE_STEP_ID now (deliver_phase now) r)"

definition graph_phase :: "nat \<Rightarrow> int \<Rightarrow> queue_run \<Rightarrow> queue_run \<times> nat option" where
  "graph_phase w now r =
     (case findRunnableGraphNodeStep r now of Some g \<Rightarrow> (r, Some g)
      | None \<Rightarrow>
          if graphNodeSteps r \<noteq> [] \<and> \<not> graphNodesComplete r then (r, None)
          else phase_then PLAN_ANALYSIS_STEP_ID now (worker_phase w now) r)"

definition findRunnableQueueStep :: "queue_run \<Rightarrow> int \<Rightarrow> queue_run \<times> nat option" where
  "findRunnableQueueStep r now =
     (let (r0, w) = findOrCreateWorkerStep r now; ws = qr_steps r0 ! w
      in if present (qr_skipReason r0) then (r0, Some w)
         else if qs_status ws = QRunning \<and> \<not> stepCanResumeExpiredLease ws now then (r0, None)
         else if stepIsRunnable ws now \<and> 0 < qs_attempt ws then (r0, Some w)
         else phase_then COLLECT_STEP_ID now (graph_phase w now) r0)"

definition change_step :: "nat \<Rightarrow> (cron_step \<Rightarrow> cron_step) \<Rightarrow> queue_run \<Rightarrow> queue_run" where
  "change_step k f r = r\<lparr>qr_steps := (qr_steps r)[k := f (qr_steps r ! k)]\<rparr>"

definition or_now :: "int option \<Rightarrow> int \<Rightarrow> int option" where
  "or_now t now = (case t of None \<Rightarrow> Some now | Some u \<Rightarrow> Some u)"

subsection \<open>Enqueue, start, lease\<close>

definition new_run :: "queue_run list \<Rightarrow> cron_job \<Rightarrow> string \<Rightarrow> string \<Rightarrow> string option \<Rightarrow> int \<Rightarrow> queue_run" where
  "new_run runs job runId trigger skipReason now =
     (let steps = defaultSteps job now; truthy = (\<lambda>v. case v of Some r \<Rightarrow> if r = (0::rat) then None else Some r | None \<Rightarrow> None);
          replay = (case previousRunForRepairReplay runs job of None \<Rightarrow> None
            | Some prev \<Rightarrow> applyRepairReplayToSteps job prev runId now steps)
      in \<lparr>qr_runId = runId, qr_jobId = cj_id job, qr_jobName = cj_name job, qr_agentId = cj_agentId job, qr_sessionKey = cj_sessionKey job,
          qr_trigger = trigger, qr_status = QQueued, qr_createdAtMs = now, qr_updatedAtMs = now, qr_queuedAtMs = now,
          qr_startedAtMs = None, qr_completedAtMs = None, qr_cancelRequestedAtMs = None, qr_recoveredAtMs = None, qr_error = None,
          qr_skipReason = skipReason, qr_graphRevision = truthy (Option.bind (cj_graph job) cg_graphRevision),
          qr_parentRevision = truthy (Option.bind (cj_graph job) cg_parentRevision),
          qr_repairRevision = truthy (Option.bind (cj_graph job) cg_repairRevision),
          qr_repairReplay = map_option snd replay, qr_result = None,
          qr_steps = (case replay of Some (steps', _) \<Rightarrow> steps' | None \<Rightarrow> steps)\<rparr>)"

definition enqueueCronTaskRunQueueItem ::
  "cron_job \<Rightarrow> string \<Rightarrow> string \<Rightarrow> string option \<Rightarrow> int \<Rightarrow> queue_run list \<Rightarrow> queue_run list result" where
  "enqueueCronTaskRunQueueItem job runId trigger skipReason now runs =
     (case find (\<lambda>r. qr_runId r = runId) runs of
        Some r \<Rightarrow>
          if qr_jobId r \<noteq> cj_id job \<or> qr_trigger r \<noteq> trigger
          then Inl (Error ''Cron task run queue runId conflicts with a different job or trigger'')
          else Inr (fst (update_queue_run runId (\<lambda>r. (r\<lparr>qr_updatedAtMs := now, qr_skipReason := skipReason\<rparr>, ())) () runs))
      | None \<Rightarrow> Inr (runs @ [new_run runs job runId trigger skipReason now]))"

definition lease_end :: "int \<Rightarrow> int \<Rightarrow> int" where
  "lease_end now leaseMs = now + max 1000 leaseMs"

definition take_step :: "int \<Rightarrow> int \<Rightarrow> string \<Rightarrow> cron_step \<Rightarrow> cron_step" where
  "take_step now leaseMs owner s =
     s\<lparr>qs_status := QRunning, qs_attempt := qs_attempt s + 1, qs_startedAtMs := Some now, qs_completedAtMs := None,
       qs_leaseOwner := Some owner, qs_leaseExpiresAtMs := Some (lease_end now leaseMs), qs_nextRetryAtMs := None, qs_error := None\<rparr>"

definition merge_checkpoint :: "js_object option \<Rightarrow> cron_step \<Rightarrow> cron_step" where
  "merge_checkpoint c s = (case c of None \<Rightarrow> s | Some kvs \<Rightarrow> s\<lparr>qs_checkpoint := Some (spread_fields (qs_checkpoint s) kvs)\<rparr>)"

definition run_started :: "int \<Rightarrow> queue_run \<Rightarrow> queue_run" where
  "run_started now r = r\<lparr>qr_status := QRunning, qr_startedAtMs := or_now (qr_startedAtMs r) now, qr_updatedAtMs := now\<rparr>"

definition start_run :: "string \<Rightarrow> int \<Rightarrow> int \<Rightarrow> string option \<Rightarrow> js_object option \<Rightarrow> queue_run \<Rightarrow> queue_run \<times> unit" where
  "start_run stepId now ms owner c r =
     (if at_ms (qr_cancelRequestedAtMs r) then (r, ())
      else let (r1, k) = findOrCreateStep (run_started now r) stepId now
           in (change_step k (\<lambda>s. set_resume now None (merge_checkpoint c (take_step now ms (case owner of Some w \<Rightarrow> w | None \<Rightarrow> ''local'') s))) r1, ()))"

definition startCronTaskRunQueueStep ::
  "string \<Rightarrow> string \<Rightarrow> int \<Rightarrow> int \<Rightarrow> string option \<Rightarrow> js_object option \<Rightarrow> queue_run list \<Rightarrow> queue_run list" where
  "startCronTaskRunQueueStep runId stepId now leaseMs owner checkpoint runs =
     fst (update_queue_run runId (start_run stepId now leaseMs owner checkpoint) () runs)"

record queue_lease =
  lz_runId :: string
  lz_jobId :: string
  lz_stepId :: string
  lz_trigger :: string
  lz_attempt :: int
  lz_skipReason :: "string option"
  lz_checkpoint :: "js_object option"

record lease_params =
  lp_nowMs :: int
  lp_leaseMs :: int
  lp_leaseOwner :: "string option"
  lp_runIds :: "string list option"
  lp_maxRuns :: int

definition lease_run :: "lease_params \<Rightarrow> queue_run \<Rightarrow> queue_run \<times> queue_lease option" where
  "lease_run P r =
     (let now = lp_nowMs P in
      if (case lp_runIds P of Some ids \<Rightarrow> qr_runId r \<notin> set ids | None \<Rightarrow> False) then (r, None)
      else if canceled r
      then (r\<lparr>qr_status := QCanceled, qr_completedAtMs := or_now (qr_completedAtMs r) now, qr_updatedAtMs := now\<rparr>, None)
      else if qr_status r \<noteq> QQueued \<and> qr_status r \<noteq> QRunning then (r, None)
      else (case findRunnableQueueStep r now of
          (r1, None) \<Rightarrow> (r1, None)
        | (r1, Some k) \<Rightarrow>
            let r2 = change_step k (\<lambda>s. set_resume now (Some (if checkpointKeys (qs_checkpoint s) \<noteq> []
                      then ''Worker lease resumed with checkpoint data.'' else ''Worker lease started without checkpoint data.''))
                   (take_step now (lp_leaseMs P) (case lp_leaseOwner P of Some w \<Rightarrow> w | None \<Rightarrow> ''local-worker'') s)) (run_started now r1);
                s = qr_steps r2 ! k
            in (r2, Some \<lparr>lz_runId = qr_runId r2, lz_jobId = qr_jobId r2, lz_stepId = qs_id s, lz_trigger = qr_trigger r2,
                  lz_attempt = qs_attempt s, lz_skipReason = qr_skipReason r2, lz_checkpoint = qs_checkpoint s\<rparr>)))"

text \<open>The loop stops when enough leases are given: \<open>left\<close> counts them down.\<close>

fun lease_runs :: "lease_params \<Rightarrow> nat \<Rightarrow> queue_run list \<Rightarrow> queue_run list \<times> queue_lease list" where
  "lease_runs P left [] = ([], [])"
| "lease_runs P left (r # rs) =
     (if left = 0 then (r # rs, [])
      else let (r', l) = lease_run P r; (rs', ls) = lease_runs P (if l = None then left else left - 1) rs
           in (r' # rs', (case l of None \<Rightarrow> ls | Some x \<Rightarrow> x # ls)))"

definition leaseCronTaskRunQueueExecuteSteps :: "lease_params \<Rightarrow> queue_run list \<Rightarrow> queue_run list \<times> queue_lease list" where
  "leaseCronTaskRunQueueExecuteSteps P runs = lease_runs P (nat (max 1 (lp_maxRuns P))) runs"

subsection \<open>Retry, checkpoint, complete, finish\<close>

datatype retry_outcome = Retry | Terminal

definition drop_lease :: "cron_step \<Rightarrow> cron_step" where
  "drop_lease s = s\<lparr>qs_leaseOwner := None, qs_leaseExpiresAtMs := None\<rparr>"

definition stepId_step :: "queue_run \<Rightarrow> string \<Rightarrow> int \<Rightarrow> queue_run \<times> nat" where
  "stepId_step r stepId now =
     (if stepId = WORKER_STEP_ID \<or> stepId = LEGACY_WORKER_STEP_ID then findOrCreateWorkerStep r now else findOrCreateStep r stepId now)"

definition retry_run :: "string \<Rightarrow> int \<Rightarrow> string \<Rightarrow> js_object option \<Rightarrow> queue_run \<Rightarrow> queue_run \<times> retry_outcome" where
  "retry_run stepId now err checkpoint r =
     (if canceled r then (r, Terminal)
      else let (r1, k) = stepId_step r stepId now;
               failed = (\<lambda>s. set_resume now (Some ''Failure checkpoint saved for retry.'')
                  (merge_checkpoint checkpoint (drop_lease (s\<lparr>qs_error := Some err, qs_completedAtMs := Some now\<rparr>))));
               r2 = (change_step k failed r1)\<lparr>qr_updatedAtMs := now\<rparr>; s = qr_steps r2 ! k
           in if qs_attempt s < np_maxAttempts (normalizeStepPolicy s)
              then ((change_step k (\<lambda>s. s\<lparr>qs_nextRetryAtMs := Some (now + stepRetryDelayMs s), qs_status := QQueued\<rparr>) r2)
                     \<lparr>qr_status := QQueued, qr_error := Some err\<rparr>, Retry)
              else ((change_step k (\<lambda>s. s\<lparr>qs_nextRetryAtMs := None, qs_status := QError\<rparr>) r2)
                     \<lparr>qr_status := QError, qr_completedAtMs := Some now, qr_error := Some err\<rparr>, Terminal))"

definition retryCronTaskRunQueueStep ::
  "string \<Rightarrow> string \<Rightarrow> int \<Rightarrow> string \<Rightarrow> js_object option \<Rightarrow> queue_run list \<Rightarrow> queue_run list \<times> retry_outcome" where
  "retryCronTaskRunQueueStep runId stepId now err checkpoint runs = update_queue_run runId (retry_run stepId now err checkpoint) Terminal runs"

definition retryCronTaskRunQueueExecuteStep ::
  "string \<Rightarrow> int \<Rightarrow> string \<Rightarrow> js_object option \<Rightarrow> queue_run list \<Rightarrow> queue_run list \<times> retry_outcome" where
  "retryCronTaskRunQueueExecuteStep runId now err checkpoint runs = retryCronTaskRunQueueStep runId WORKER_STEP_ID now err checkpoint runs"

definition checkpoint_run :: "string \<Rightarrow> int \<Rightarrow> int option \<Rightarrow> js_object \<Rightarrow> queue_run \<Rightarrow> queue_run" where
  "checkpoint_run stepId now leaseMs checkpoint r =
     (if canceled r then r
      else let (r1, k) = findOrCreateStep r stepId now;
               save = (\<lambda>s. set_resume now (Some ''Checkpoint recorded for resume.'') (merge_checkpoint (Some checkpoint) s));
               extend = (\<lambda>s. case leaseMs of Some ms \<Rightarrow> if qs_status s = QRunning then s\<lparr>qs_leaseExpiresAtMs := Some (lease_end now ms)\<rparr> else s
                          | None \<Rightarrow> s)
           in (change_step k (\<lambda>s. extend (save s)) r1)\<lparr>qr_updatedAtMs := now\<rparr>)"

definition checkpointCronTaskRunQueueStep ::
  "string \<Rightarrow> string \<Rightarrow> int \<Rightarrow> int option \<Rightarrow> js_object \<Rightarrow> queue_run list \<Rightarrow> queue_run list" where
  "checkpointCronTaskRunQueueStep runId stepId now leaseMs checkpoint runs =
     fst (update_queue_run runId (\<lambda>r. (checkpoint_run stepId now leaseMs checkpoint r, ())) () runs)"

definition complete_run :: "string \<Rightarrow> int \<Rightarrow> queue_status \<Rightarrow> string option \<Rightarrow> js_object option \<Rightarrow> queue_run \<Rightarrow> queue_run" where
  "complete_run stepId now status err checkpoint r =
     (if canceled r then r
      else let (r1, k) = findOrCreateStep r stepId now
           in (change_step k (\<lambda>s. set_resume now (Some (if status = QOk then ''Step completed; checkpoint retained for audit.''
                    else ''Step completed with checkpoint data retained.''))
                (merge_checkpoint checkpoint (drop_lease (s\<lparr>qs_status := status, qs_completedAtMs := Some now, qs_nextRetryAtMs := None,
                   qs_error := err\<rparr>)))) r1)\<lparr>qr_updatedAtMs := now\<rparr>)"

definition completeCronTaskRunQueueStep ::
  "string \<Rightarrow> string \<Rightarrow> int \<Rightarrow> queue_status \<Rightarrow> string option \<Rightarrow> js_object option \<Rightarrow> queue_run list \<Rightarrow> queue_run list" where
  "completeCronTaskRunQueueStep runId stepId now status err checkpoint runs =
     fst (update_queue_run runId (\<lambda>r. (complete_run stepId now status err checkpoint r, ())) () runs)"

definition finish_queue_run :: "int \<Rightarrow> queue_status \<Rightarrow> string option \<Rightarrow> js_object option \<Rightarrow> queue_run \<Rightarrow> queue_run" where
  "finish_queue_run now status err res r =
     (if canceled r then r
      else let r0 = r\<lparr>qr_status := status, qr_completedAtMs := Some now, qr_updatedAtMs := now, qr_error := err, qr_result := res\<rparr>;
               (r1, k) = findOrCreateStep r0 ''finalize'' now
           in change_step k (\<lambda>s. set_resume now (Some ''Finalize step completed.'')
                (s\<lparr>qs_status := status, qs_attempt := max 1 (qs_attempt s), qs_startedAtMs := or_now (qs_startedAtMs s) now,
                   qs_completedAtMs := Some now, qs_nextRetryAtMs := None\<rparr>)) r1)"

definition finishCronTaskRunQueueItem ::
  "string \<Rightarrow> int \<Rightarrow> queue_status \<Rightarrow> string option \<Rightarrow> js_object option \<Rightarrow> queue_run list \<Rightarrow> queue_run list" where
  "finishCronTaskRunQueueItem runId now status err res runs =
     fst (update_queue_run runId (\<lambda>r. (finish_queue_run now status err res r, ())) () runs)"

subsection \<open>Cancel, retry, recover\<close>

datatype control_result = ControlOk string | ControlRefused string

definition end_step :: "int \<Rightarrow> queue_status \<Rightarrow> string option \<Rightarrow> string \<Rightarrow> cron_step \<Rightarrow> cron_step" where
  "end_step now status err reason s =
     (if qs_status s = QQueued \<or> qs_status s = QRunning
      then set_resume now (Some reason) (drop_lease (s\<lparr>qs_status := status, qs_completedAtMs := Some now, qs_nextRetryAtMs := None, qs_error := err\<rparr>))
      else s)"

definition status_text :: "queue_status \<Rightarrow> string" where
  "status_text q = (case q of QQueued \<Rightarrow> ''queued'' | QRunning \<Rightarrow> ''running'' | QOk \<Rightarrow> ''ok'' | QError \<Rightarrow> ''error''
     | QSkipped \<Rightarrow> ''skipped'' | QBlocked \<Rightarrow> ''blocked'' | QCanceled \<Rightarrow> ''canceled'' | QRecovered \<Rightarrow> ''recovered'')"

definition cancel_run :: "int \<Rightarrow> string option \<Rightarrow> queue_run \<Rightarrow> queue_run \<times> control_result" where
  "cancel_run now reason r =
     (if qr_status r = QOk \<or> qr_status r = QError
      then (r, ControlRefused (''Run is already terminal: '' @ status_text (qr_status r) @ ''.''))
      else (r\<lparr>qr_status := QCanceled, qr_cancelRequestedAtMs := Some now, qr_completedAtMs := Some now, qr_updatedAtMs := now,
              qr_error := reason, qr_steps := map (end_step now QCanceled reason ''Run was canceled.'') (qr_steps r)\<rparr>,
            ControlOk ''Run canceled.''))"

definition cancelCronTaskRunQueueItem ::
  "string \<Rightarrow> int \<Rightarrow> string option \<Rightarrow> queue_run list \<Rightarrow> queue_run list \<times> control_result" where
  "cancelCronTaskRunQueueItem runId now reason runs =
     update_queue_run runId (cancel_run now reason) (ControlRefused ''Run not found.'') runs"

definition resetStepForRetry :: "int \<Rightarrow> string option \<Rightarrow> bool \<Rightarrow> cron_step \<Rightarrow> cron_step" where
  "resetStepForRetry now reason preserveCheckpoint s0 =
     (let s1 = drop_lease ((with_policy (normalizeStepPolicy s0) s0)\<lparr>qs_status := QQueued, qs_attempt := 0, qs_startedAtMs := None,
            qs_completedAtMs := None, qs_nextRetryAtMs := None, qs_error := None\<rparr>);
          s2 = (if \<not> preserveCheckpoint then s1\<lparr>qs_checkpoint := None\<rparr>
                else if present reason
                then merge_checkpoint (Some [(''retryReason'', JStr (opt_str reason)), (''retriedAtMs'', jint now)]) s1 else s1)
      in set_resume now (Some (if preserveCheckpoint \<and> checkpointKeys (qs_checkpoint s2) \<noteq> []
            then ''Manual retry queued with existing checkpoint data.'' else ''Manual retry queued from the beginning.'')) s2)"

definition reset_phase :: "int \<Rightarrow> string option \<Rightarrow> string \<Rightarrow> queue_run \<Rightarrow> queue_run" where
  "reset_phase now reason i r =
     (let (r1, k) = findOrCreateStep r i now in change_step k (resetStepForRetry now reason (i = WORKER_STEP_ID)) r1)"

definition retry_item :: "int \<Rightarrow> string option \<Rightarrow> queue_run \<Rightarrow> queue_run \<times> control_result" where
  "retry_item now reason r =
     (if qr_status r = QQueued \<or> qr_status r = QRunning then (r, ControlRefused (''Run is already '' @ status_text (qr_status r) @ ''.''))
      else if qr_status r = QOk then (r, ControlRefused ''Run already completed successfully.'')
      else let r0 = r\<lparr>qr_status := QQueued, qr_updatedAtMs := now, qr_completedAtMs := None, qr_cancelRequestedAtMs := None,
                 qr_recoveredAtMs := None, qr_error := None, qr_result := None, qr_skipReason := None\<rparr>;
               r1 = fold (reset_phase now reason) RESETTABLE_PHASE_STEP_IDS r0;
               r2 = r1\<lparr>qr_steps := map (\<lambda>s. if is_graph_step s then resetStepForRetry now reason False s else s) (qr_steps r1)\<rparr>
           in (case first_index (\<lambda>s. qs_id s = LEGACY_WORKER_STEP_ID) (qr_steps r2) of
                 None \<Rightarrow> r2 | Some k \<Rightarrow> change_step k (resetStepForRetry now reason True) r2,
               ControlOk ''Run queued for retry.''))"

definition retryCronTaskRunQueueItem ::
  "string \<Rightarrow> int \<Rightarrow> string option \<Rightarrow> queue_run list \<Rightarrow> queue_run list \<times> control_result" where
  "retryCronTaskRunQueueItem runId now reason runs = update_queue_run runId (retry_item now reason) (ControlRefused ''Run not found.'') runs"

definition expired_step :: "int \<Rightarrow> cron_step \<Rightarrow> bool" where
  "expired_step now s = (qs_status s = QRunning \<and> lease_expired s now)"

definition attempts_left :: "cron_step \<Rightarrow> bool" where
  "attempts_left s = (qs_attempt s < np_maxAttempts (normalizeStepPolicy s))"

definition requeue_step :: "int \<Rightarrow> string \<Rightarrow> string option \<Rightarrow> int option \<Rightarrow> string \<Rightarrow> string \<Rightarrow> cron_step \<Rightarrow> cron_step" where
  "requeue_step now mark err again withData withoutData s =
     (let s' = merge_checkpoint (Some [(mark, jint now)]) (drop_lease (s\<lparr>qs_status := QQueued, qs_completedAtMs := None,
          qs_nextRetryAtMs := again, qs_error := err\<rparr>))
      in set_resume now (Some (if checkpointKeys (qs_checkpoint s') \<noteq> [] then withData else withoutData)) s')"

definition clear_lease :: "int \<Rightarrow> string option \<Rightarrow> queue_run \<Rightarrow> queue_run \<times> control_result" where
  "clear_lease now reason r =
     (if \<not> list_ex (expired_step now) (qr_steps r) then (r, ControlRefused ''Run has no expired lease.'')
      else if \<not> list_ex (\<lambda>s. expired_step now s \<and> attempts_left s) (qr_steps r)
      then (r, ControlRefused ''Expired lease has exhausted its retry policy.'')
      else (r\<lparr>qr_status := QQueued, qr_updatedAtMs := now, qr_completedAtMs := None, qr_recoveredAtMs := None, qr_error := reason,
              qr_steps := map (\<lambda>s. if expired_step now s \<and> attempts_left s
                then requeue_step now ''clearedLeaseAtMs'' reason None ''Expired lease cleared; next worker can resume from checkpoint.''
                       ''Expired lease cleared; no checkpoint data is available.'' s
                else s) (qr_steps r)\<rparr>, ControlOk ''Expired lease cleared.''))"

definition clearExpiredCronTaskRunQueueLease ::
  "string \<Rightarrow> int \<Rightarrow> string option \<Rightarrow> queue_run list \<Rightarrow> queue_run list \<times> control_result" where
  "clearExpiredCronTaskRunQueueLease runId now reason runs =
     update_queue_run runId (clear_lease now reason) (ControlRefused ''Run not found.'') runs"

definition recover_item :: "int \<Rightarrow> string \<Rightarrow> queue_run \<Rightarrow> queue_run" where
  "recover_item now reason r =
     (if qr_status r = QOk \<or> qr_status r = QError then r
      else r\<lparr>qr_status := QRecovered, qr_recoveredAtMs := Some now, qr_completedAtMs := Some now, qr_updatedAtMs := now,
             qr_error := Some reason, qr_steps := map (end_step now QRecovered (Some reason) ''Run was marked recovered.'') (qr_steps r)\<rparr>)"

definition recoverCronTaskRunQueueItem :: "string \<Rightarrow> int \<Rightarrow> string \<Rightarrow> queue_run list \<Rightarrow> queue_run list" where
  "recoverCronTaskRunQueueItem runId now reason runs = fst (update_queue_run runId (\<lambda>r. (recover_item now reason r, ())) () runs)"

definition recover_leases :: "int \<Rightarrow> string \<Rightarrow> queue_run \<Rightarrow> queue_run" where
  "recover_leases now reason r =
     (if qr_status r \<noteq> QRunning \<or> \<not> list_ex (expired_step now) (qr_steps r) then r
      else if list_ex (\<lambda>s. expired_step now s \<and> stepCanResumeExpiredLease s now) (qr_steps r)
      then r\<lparr>qr_status := QQueued, qr_updatedAtMs := now, qr_error := Some reason,
             qr_steps := map (\<lambda>s. if expired_step now s \<and> stepCanResumeExpiredLease s now
               then requeue_step now ''leaseExpiredAtMs'' (Some reason) (Some (now + stepRetryDelayMs s))
                      ''Expired lease requeued with checkpoint data.'' ''Expired lease requeued without checkpoint data.'' s
               else s) (qr_steps r)\<rparr>
      else r\<lparr>qr_status := QRecovered, qr_recoveredAtMs := Some now, qr_completedAtMs := Some now, qr_updatedAtMs := now,
             qr_error := Some reason,
             qr_steps := map (\<lambda>s. if expired_step now s
               then set_resume now (Some ''Expired lease was recovered.'') (drop_lease (s\<lparr>qs_status := QRecovered,
                      qs_completedAtMs := Some now, qs_nextRetryAtMs := None, qs_error := Some reason\<rparr>))
               else s) (qr_steps r)\<rparr>)"

definition recoverExpiredCronTaskRunQueueLeases :: "int \<Rightarrow> string \<Rightarrow> queue_run list \<Rightarrow> queue_run list" where
  "recoverExpiredCronTaskRunQueueLeases now reason runs = map (recover_leases now reason) runs"

definition removeCronTaskRunQueueItems :: "string list \<Rightarrow> queue_run list \<Rightarrow> queue_run list \<times> nat" where
  "removeCronTaskRunQueueItems runIds runs =
     (let wanted = filter (\<lambda>i. i \<noteq> []) (map js_trim runIds)
      in if wanted = [] then (runs, 0)
         else let kept = filter (\<lambda>r. qr_runId r \<notin> set wanted) runs in (kept, length runs - length kept))"

end
