(* ===== verification/CronLease.thy ===== *)
theory CronLease
  imports CronQueue
begin

text \<open>
  What the queue of task runs guarantees: which steps a lease may name, in which order the steps of a run are
  leased, that a canceled run stays canceled, that an expired lease is given again, and what a repaired graph
  makes run again. And two ways in which a lease does not exclude others.
\<close>

section \<open>Repaired graphs\<close>

definition node_deps :: "cron_node \<Rightarrow> string list" where
  "node_deps n = (case cn_dependsOn n of Some ds \<Rightarrow> ds | None \<Rightarrow> [])"

definition dependents :: "cron_node list \<Rightarrow> (string \<times> string) set" where
  "dependents ns = {(d, cn_id n) | d n. n \<in> set ns \<and> d \<in> set (node_deps n)}"

lemma affect_pass_step:
  "affect_pass (n # ns) affected =
     (if cn_id n \<notin> set affected \<and> list_ex (\<lambda>d. d \<in> set affected) (node_deps n) then affect_pass ns (affected @ [cn_id n])
      else affect_pass ns affected)"
  by (simp add: node_deps_def)

lemma affect_pass_reaches:
  "set ns \<subseteq> set all \<Longrightarrow> set (affect_pass ns affected) \<subseteq> (dependents all)\<^sup>* `` set affected"
proof (induction ns arbitrary: affected)
  case (Cons n ns)
  show ?case
  proof (cases "cn_id n \<notin> set affected \<and> list_ex (\<lambda>d. d \<in> set affected) (node_deps n)")
    case True
    then obtain d where "d \<in> set affected" "(d, cn_id n) \<in> dependents all"
      using Cons.prems by (auto simp: dependents_def list_ex_iff)
    then have "set (affected @ [cn_id n]) \<subseteq> (dependents all)\<^sup>* `` set affected" by auto
    then have "(dependents all)\<^sup>* `` set (affected @ [cn_id n]) \<subseteq> (dependents all)\<^sup>* `` set affected"
      by (auto intro: rtrancl_trans)
    with Cons.IH [of "affected @ [cn_id n]"] Cons.prems True show ?thesis unfolding affect_pass_step by (simp del: set_append)
  next
    case False
    then have "affect_pass (n # ns) affected = affect_pass ns affected" by (simp only: affect_pass_step if_False)
    with Cons show ?thesis by simp
  qed
qed auto

lemma affect_pass_closed:
  "affect_pass ns affected = affected \<Longrightarrow> n \<in> set ns \<Longrightarrow> d \<in> set (node_deps n) \<Longrightarrow> d \<in> set affected \<Longrightarrow> cn_id n \<in> set affected"
proof (induction ns)
  case (Cons m ns)
  show ?case
  proof (cases "cn_id m \<notin> set affected \<and> list_ex (\<lambda>d. d \<in> set affected) (node_deps m)")
    case True
    then have "cn_id m \<in> set (affect_pass (m # ns) affected)"
      using affect_pass_grows [of "affected @ [cn_id m]" ns] by (simp add: affect_pass_step del: affect_pass.simps)
    with True Cons.prems(1) show ?thesis by simp
  next
    case False
    with Cons show ?thesis by (auto simp: affect_pass_step list_ex_iff simp del: affect_pass.simps)
  qed
qed simp

lemma affect_loop_exact: "set (affect_loop ns affected) = (dependents ns)\<^sup>* `` set affected"
proof (induction ns affected rule: affect_loop.induct)
  case (1 ns affected)
  show ?case
  proof (cases "affect_pass ns affected = affected")
    case True
    have closed: "y \<in> set affected" if "(x, y) \<in> (dependents ns)\<^sup>*" "x \<in> set affected" for x y
      using that by (induction rule: rtrancl_induct) (auto simp: dependents_def dest: affect_pass_closed [OF True])
    show ?thesis using True closed by (subst affect_loop.simps) auto
  next
    case False
    have "(dependents ns)\<^sup>* `` set (affect_pass ns affected) = (dependents ns)\<^sup>* `` set affected"
      using affect_pass_reaches [of ns ns affected] affect_pass_grows [of affected ns] by (blast intro: rtrancl_trans)
    with 1 [OF refl False] False show ?thesis by (subst affect_loop.simps) (simp add: Let_def)
  qed
qed

text \<open>
  What a repair of a graph invalidates is exactly the repaired nodes and every node that depends on one of
  them, directly or through others, whatever cycles or unknown nodes the graph has.
\<close>

theorem cron_repair_descendants:
  "set (graphNodeDescendantsInclusive g seeds) = {i. \<exists>s \<in> set seeds. s \<noteq> [] \<and> (s, i) \<in> (dependents (cg_nodes g))\<^sup>*}"
  by (auto simp: graphNodeDescendantsInclusive_def affect_loop_exact)

section \<open>Finding a step\<close>

lemma first_index_Some: "first_index Q xs = Some k \<Longrightarrow> k < length xs \<and> Q (xs ! k) \<and> (\<forall>j<k. \<not> Q (xs ! j))"
proof (induction xs arbitrary: k)
  case (Cons x xs)
  then show ?case by (auto simp: less_Suc_eq_0_disj split: if_splits)
qed simp

lemma first_index_None: "first_index Q xs = None \<longleftrightarrow> (\<forall>x \<in> set xs. \<not> Q x)"
  by (induction xs) auto

lemma find_first_index: "find Q xs = map_option ((!) xs) (first_index Q xs)"
  by (induction xs) (auto simp: option.map_comp comp_def)

lemma policy_facts: "0 < np_maxAttempts (normalizeStepPolicy s)" "0 \<le> np_retryDelayMs (normalizeStepPolicy s)"
  "1 \<le> np_backoffMultiplier (normalizeStepPolicy s)"
proof -
  have fb: "0 < np_maxAttempts (defaultRetryPolicyForStepId i)" "0 \<le> np_retryDelayMs (defaultRetryPolicyForStepId i)"
    "1 \<le> np_backoffMultiplier (defaultRetryPolicyForStepId i)" for i
    by (simp_all add: defaultRetryPolicyForStepId_def retried_policy_def)
  show "0 < np_maxAttempts (normalizeStepPolicy s)" "0 \<le> np_retryDelayMs (normalizeStepPolicy s)"
    "1 \<le> np_backoffMultiplier (normalizeStepPolicy s)"
    using fb by (auto simp: normalizeStepPolicy_def checked_number_def Let_def split: option.splits)
qed

text \<open>Reading the policy again gives the policy that was written back.\<close>

lemma policy_of_stored:
  "0 < np_maxAttempts p \<Longrightarrow> 0 \<le> np_retryDelayMs p \<Longrightarrow> 1 \<le> np_backoffMultiplier p \<Longrightarrow> normalizeStepPolicy (with_policy p s) = p"
  by (simp add: normalizeStepPolicy_def with_policy_def written_policy_def checked_number_def Let_def)

lemma policy_written [simp]: "normalizeStepPolicy (with_policy (normalizeStepPolicy s) s) = normalizeStepPolicy s"
  by (rule policy_of_stored [OF policy_facts])

text \<open>Two versions of a step that no decision tells apart.\<close>

definition same_step :: "cron_step \<Rightarrow> cron_step \<Rightarrow> bool" where
  "same_step s t = (qs_id s = qs_id t \<and> qs_kind s = qs_kind t \<and> qs_graphNodeId s = qs_graphNodeId t \<and>
     qs_graphNodeDependsOn s = qs_graphNodeDependsOn t \<and> qs_status s = qs_status t \<and> qs_attempt s = qs_attempt t \<and>
     qs_nextRetryAtMs s = qs_nextRetryAtMs t \<and> qs_leaseExpiresAtMs s = qs_leaseExpiresAtMs t \<and> qs_leaseOwner s = qs_leaseOwner t \<and>
     qs_checkpoint s = qs_checkpoint t \<and> normalizeStepPolicy s = normalizeStepPolicy t)"

lemma same_step_refl [simp]: "same_step s s"
  by (simp add: same_step_def)

lemma same_step_trans: "same_step s t \<Longrightarrow> same_step t u \<Longrightarrow> same_step s u"
  by (simp add: same_step_def)

lemma same_step_decisions:
  assumes "same_step s t"
  shows "stepIsRunnable s now = stepIsRunnable t now" "stepCanResumeExpiredLease s now = stepCanResumeExpiredLease t now"
    "node_done s = node_done t" "is_graph_step s = is_graph_step t" "qs_id s = qs_id t" "qs_status s = qs_status t"
    "qs_attempt s = qs_attempt t" "qs_graphNodeId s = qs_graphNodeId t" "qs_graphNodeDependsOn s = qs_graphNodeDependsOn t"
  using assms
  by (simp_all add: same_step_def stepIsRunnable_def stepCanResumeExpiredLease_def stepCanRetryAfterError_def lease_expired_def
      node_done_def is_graph_step_def step_node_def Let_def)

lemma with_policy_same [simp]:
  "same_step s (with_policy (normalizeStepPolicy s) s)" "same_step s (set_resume now reason (with_policy (normalizeStepPolicy s) s))"
proof -
  show "same_step s (with_policy (normalizeStepPolicy s) s)" by (simp add: same_step_def) (simp add: with_policy_def)
  have "normalizeStepPolicy (set_resume now reason t) = normalizeStepPolicy t" for t
    by (simp add: normalizeStepPolicy_def set_resume_def)
  then show "same_step s (set_resume now reason (with_policy (normalizeStepPolicy s) s))"
    by (simp add: same_step_def) (simp add: set_resume_def with_policy_def)
qed

text \<open>A run in which steps were looked at, and missing ones created.\<close>

definition looked_at :: "int \<Rightarrow> queue_run \<Rightarrow> queue_run \<Rightarrow> bool" where
  "looked_at now r r' =
     (\<exists>ids. length (qr_steps r') = length (qr_steps r) + length ids \<and>
        list_all2 same_step (qr_steps r @ map (\<lambda>i. blank_step i now) ids) (qr_steps r') \<and>
        distinct ids \<and> (\<forall>i \<in> set ids. \<forall>s \<in> set (qr_steps r). qs_id s \<noteq> i) \<and> r' = r\<lparr>qr_steps := qr_steps r'\<rparr>)"

lemma list_all2_same_refl [simp]: "list_all2 same_step xs xs"
  by (simp add: list_all2_refl)

lemma looked_at_refl: "looked_at now r r"
  unfolding looked_at_def by (intro exI [of _ "[]"]) simp

lemma same_ids: "list_all2 same_step xs ys \<Longrightarrow> map qs_id xs = map qs_id ys"
  by (induction rule: list_all2_induct) (auto simp: same_step_def)

lemma looked_at_trans:
  assumes "looked_at now r r'" "looked_at now r' r''"
  shows "looked_at now r r''"
proof -
  from assms obtain is1 is2 where a: "list_all2 same_step (qr_steps r @ map (\<lambda>i. blank_step i now) is1) (qr_steps r')"
    "\<forall>i \<in> set is1. \<forall>s \<in> set (qr_steps r). qs_id s \<noteq> i" "r' = r\<lparr>qr_steps := qr_steps r'\<rparr>"
    "list_all2 same_step (qr_steps r' @ map (\<lambda>i. blank_step i now) is2) (qr_steps r'')"
    "\<forall>i \<in> set is2. \<forall>s \<in> set (qr_steps r'). qs_id s \<noteq> i" "r'' = r'\<lparr>qr_steps := qr_steps r''\<rparr>"
    and dist: "distinct is1" "distinct is2"
    by (auto simp: looked_at_def)
  have "list_all2 same_step (qr_steps r @ map (\<lambda>i. blank_step i now) (is1 @ is2)) (qr_steps r' @ map (\<lambda>i. blank_step i now) is2)"
    using a(1) by (simp add: list_all2_appendI flip: append_assoc)
  then have "list_all2 same_step (qr_steps r @ map (\<lambda>i. blank_step i now) (is1 @ is2)) (qr_steps r'')"
    using a(4) same_step_trans by (rule list_all2_trans [rotated]) auto
  moreover have "qs_id ` set (qr_steps r) \<subseteq> qs_id ` set (qr_steps r')"
    using same_ids [OF a(1)] by (metis list.set_map map_append set_append sup_ge1)
  then have "\<forall>i \<in> set (is1 @ is2). \<forall>s \<in> set (qr_steps r). qs_id s \<noteq> i" using a(2,5) by (fastforce simp: image_subset_iff)
  moreover have "is1 = map qs_id (drop (length (qr_steps r)) (qr_steps r'))"
    using same_ids [OF a(1)] by (simp add: drop_map [symmetric] comp_def blank_step_def Let_def) (metis append_eq_conv_conj length_map)
  then have "set is1 \<inter> set is2 = {}" using a(5) by (auto dest: in_set_dropD)
  then have "distinct (is1 @ is2)" using dist by auto
  moreover have "r'' = r\<lparr>qr_steps := qr_steps r''\<rparr>" using a(3,6) by (metis queue_run.surjective queue_run.update_convs(22))
  ultimately show ?thesis unfolding looked_at_def using list_all2_lengthD by (metis length_append length_map)
qed

text \<open>The step an operation gets when it asks for one by its id.\<close>

definition step_of :: "queue_run \<Rightarrow> string \<Rightarrow> int \<Rightarrow> cron_step" where
  "step_of r i now = (case find (\<lambda>s. qs_id s = i) (qr_steps r) of Some s \<Rightarrow> s | None \<Rightarrow> blank_step i now)"

definition worker_id :: "queue_run \<Rightarrow> string" where
  "worker_id r = (if LEGACY_WORKER_STEP_ID \<in> set (map qs_id (qr_steps r)) then LEGACY_WORKER_STEP_ID else WORKER_STEP_ID)"

lemma same_step_sym: "same_step s t \<Longrightarrow> same_step t s"
  by (simp add: same_step_def)





lemma findOrCreateStep_looks:
  assumes "findOrCreateStep r i now = (r', k)"
  shows "looked_at now r r'" "k < length (qr_steps r')" "same_step (step_of r i now) (qr_steps r' ! k)"
proof -
  have "looked_at now r r' \<and> k < length (qr_steps r') \<and> same_step (step_of r i now) (qr_steps r' ! k)"
  proof (cases "first_index (\<lambda>s. qs_id s = i) (qr_steps r)")
    case None
    with assms have e: "r' = r\<lparr>qr_steps := qr_steps r @ [blank_step i now]\<rparr>" "k = length (qr_steps r)"
      by (auto simp: findOrCreateStep_def)
    have "looked_at now r r'" unfolding looked_at_def e using None by (intro exI [of _ "[i]"]) (auto simp: first_index_None)
    then show ?thesis using None by (simp add: e step_of_def find_first_index)
  next
    case (Some j)
    define s where "s = qr_steps r ! j"
    define s' where "s' = (let t = with_policy (normalizeStepPolicy s) s in if qs_resume t = None then set_resume now None t else t)"
    from Some assms have e: "r' = r\<lparr>qr_steps := (qr_steps r)[k := s']\<rparr>" "k = j"
      by (auto simp: findOrCreateStep_def s'_def s_def Let_def)
    have j: "j < length (qr_steps r)" using Some first_index_Some by blast
    have same: "same_step s s'" by (simp add: s'_def Let_def)
    then have "list_all2 same_step (qr_steps r) ((qr_steps r)[j := s'])"
      using j by (auto simp: list_all2_conv_all_nth nth_list_update s_def)
    then have "looked_at now r r'" unfolding looked_at_def e by (intro exI [of _ "[]"]) simp
    with j same show ?thesis by (simp add: e step_of_def find_first_index Some s_def)
  qed
  then show "looked_at now r r'" "k < length (qr_steps r')" "same_step (step_of r i now) (qr_steps r' ! k)" by auto
qed

lemma map_ids_looked: "looked_at now r r' \<Longrightarrow> \<exists>ids. map qs_id (qr_steps r') = map qs_id (qr_steps r) @ ids"
proof -
  assume "looked_at now r r'"
  then obtain ids where "list_all2 same_step (qr_steps r @ map (\<lambda>i. blank_step i now) ids) (qr_steps r')" by (auto simp: looked_at_def)
  from same_ids [OF this] show ?thesis by (metis map_append)
qed

lemma first_index_mem: "first_index (\<lambda>s. qs_id s = i) xs \<noteq> None \<longleftrightarrow> i \<in> set (map qs_id xs)"
  using first_index_None [of "\<lambda>s. qs_id s = i" xs] by auto

lemma findOrCreateWorkerStep_eq: "findOrCreateWorkerStep r now = findOrCreateStep r (worker_id r) now"
  unfolding findOrCreateWorkerStep_def worker_id_def first_index_mem by simp

subsection \<open>The order of the steps\<close>






lemma blank_not_graph [simp]: "\<not> is_graph_step (blank_step i now)"
  by (simp add: is_graph_step_def blank_step_def step_node_def opt_str_def Let_def)








subsection \<open>What is leased\<close>

text \<open>The step at a place is, but for its policy and resume state, the given one.\<close>

definition chosen :: "int \<Rightarrow> queue_run \<Rightarrow> queue_run \<Rightarrow> nat \<Rightarrow> cron_step \<Rightarrow> bool" where
  "chosen now r r' k s = (looked_at now r r' \<and> k < length (qr_steps r') \<and> same_step s (qr_steps r' ! k))"






lemma chosen_trans: "looked_at now r r1 \<Longrightarrow> same_step s s' \<Longrightarrow> chosen now r1 r' k s' \<Longrightarrow> chosen now r r' k s"
  unfolding chosen_def using looked_at_trans same_step_trans by blast






lemma looked_at_fields:
  assumes "looked_at now r r'"
  shows "qr_skipReason r' = qr_skipReason r" "qr_runId r' = qr_runId r" "qr_jobId r' = qr_jobId r" "qr_trigger r' = qr_trigger r"
    "qr_status r' = qr_status r" "qr_cancelRequestedAtMs r' = qr_cancelRequestedAtMs r"
proof -
  from assms have "r' = r\<lparr>qr_steps := qr_steps r'\<rparr>" by (auto simp: looked_at_def)
  then show "qr_skipReason r' = qr_skipReason r" "qr_runId r' = qr_runId r" "qr_jobId r' = qr_jobId r" "qr_trigger r' = qr_trigger r"
    "qr_status r' = qr_status r" "qr_cancelRequestedAtMs r' = qr_cancelRequestedAtMs r"
    by (metis queue_run.select_convs queue_run.surjective queue_run.update_convs(22))+
qed








lemma take_step_facts [simp]:
  "qs_id (set_resume now reason (take_step now ms w s)) = qs_id s"
  "qs_attempt (set_resume now reason (take_step now ms w s)) = qs_attempt s + 1"
  "qs_status (set_resume now reason (take_step now ms w s)) = QRunning"
  "qs_leaseExpiresAtMs (set_resume now reason (take_step now ms w s)) = Some (lease_end now ms)"
  by (simp_all add: set_resume_def take_step_def)




text \<open>A job without a graph.\<close>

definition plain_job :: cron_job where
  "plain_job = \<lparr>cj_id = ''j'', cj_name = ''n'', cj_agentId = None, cj_sessionKey = None, cj_graph = None, cj_lastRunId = None,
     cj_lastReplayParentRunId = None, cj_lastGraphRepairs = [], cj_repairRevision = None, cj_graphRepairAttempts = None\<rparr>"

definition plain_lease :: "int \<Rightarrow> lease_params" where
  "plain_lease now = \<lparr>lp_nowMs = now, lp_leaseMs = 5000, lp_leaseOwner = None, lp_runIds = None, lp_maxRuns = 2\<rparr>"



lemma step_of_id [simp]: "qs_id (step_of r i now) = i"
  by (auto simp: step_of_def blank_step_def Let_def find_Some_iff split: option.splits)







subsection \<open>Leases that ran out\<close>








text \<open>A run whose main step was given out at 10 for five seconds.\<close>

definition started_cron_run :: queue_run where
  "started_cron_run = hd (startCronTaskRunQueueStep ''r'' WORKER_STEP_ID 10 5000 None None [new_run [] plain_job ''r'' ''manual'' None 5])"


subsection \<open>Runs to be skipped\<close>

text \<open>
  A run with a reason to be skipped is given out whatever the state of its step: a lease that has not run out does
  not exclude another, and no number of attempts ends it.
\<close>

lemma skipped_run_leased:
  assumes "present (qr_skipReason r)" "\<not> canceled r" "qr_status r \<in> {QQueued, QRunning}" "lp_runIds P = None"
  shows "\<exists>r' l. lease_run P r = (r', Some l) \<and> lz_stepId l = worker_id r \<and> lz_attempt l = qs_attempt (step_of r (worker_id r) (lp_nowMs P)) + 1"
proof -
  obtain r0 w where f: "findOrCreateStep r (worker_id r) (lp_nowMs P) = (r0, w)" by (cases "findOrCreateStep r (worker_id r) (lp_nowMs P)")
  note l = findOrCreateStep_looks [OF f] and d = same_step_decisions [OF findOrCreateStep_looks(3) [OF f]]
  have "findRunnableQueueStep r (lp_nowMs P) = (r0, Some w)"
    using assms(1) f looked_at_fields(1) [OF l(1)] by (auto simp: findRunnableQueueStep_def findOrCreateWorkerStep_eq Let_def)
  with assms l(2) d(5,7) show ?thesis by (auto simp: lease_run_def Let_def change_step_def run_started_def)
qed

subsection \<open>Reports that come late\<close>

text \<open>
  No operation compares the worker that reports with the one that holds the lease. Here the step that was given out at 10
  is given to a second worker at 6000, until 11000; at 6500 the first reports a failure, and at 7500 a third gets
  the step while the second still works on it.
\<close>

definition named_lease :: "int \<Rightarrow> string \<Rightarrow> lease_params" where
  "named_lease now w = (plain_lease now)\<lparr>lp_leaseOwner := Some w\<rparr>"

lemma late_report_breaks_lease:
  "(let second = fst (lease_run (named_lease 6000 ''b'') started_cron_run); late = fst (retry_run WORKER_STEP_ID 6500 ''e'' None second);
        third = fst (lease_run (named_lease 7500 ''c'') late)
    in map (\<lambda>r. (qs_status (step_of r WORKER_STEP_ID 0), qs_leaseOwner (step_of r WORKER_STEP_ID 0), qs_leaseExpiresAtMs (step_of r WORKER_STEP_ID 0)))
         [second, third]) =
   [(QRunning, Some ''b'', Some 11000), (QRunning, Some ''c'', Some 12500)]"
  by code_simp

section \<open>Canceled runs\<close>















lemma change_step_id [simp]: "qr_runId (change_step k f r) = qr_runId r"
  by (simp add: change_step_def)


















end
