(* ===== verification/DevicePairing.thy ===== *)
theory DevicePairing
  imports Prelude "HOL-Library.AList" "HOL-Library.List_Lexorder" "HOL-Library.Char_ord"
begin

text \<open>
  Pairing of devices with the gateway: \<open>src/infra/device-pairing.ts\<close> with \<open>infra/pairing-files.ts\<close>,
  \<open>infra/pairing-pending.ts\<close>, \<open>shared/device-auth.ts\<close> and \<open>shared/operator-scope-compat.ts\<close>.

  The lock serialises the operations, so each is a function on the two files. A file that is missing or cannot
  be parsed is read as empty. An operation reads the clock once; the ids of requests and the tokens, which come
  from the system's random numbers, are arguments. The plain objects of the files are association lists in the
  order of their keys; a device or role named like an inherited property of objects is left out.
\<close>

section \<open>Data\<close>

record pair_request =
  rq_deviceId :: string
  rq_publicKey :: string
  rq_displayName :: "string option"
  rq_platform :: "string option"
  rq_deviceFamily :: "string option"
  rq_clientId :: "string option"
  rq_clientMode :: "string option"
  rq_role :: "string option"
  rq_scopes :: "string list option"
  rq_remoteIp :: "string option"
  rq_silent :: "bool option"

record device_request =
  dq_requestId :: string
  dq_deviceId :: string
  dq_publicKey :: string
  dq_displayName :: "string option"
  dq_platform :: "string option"
  dq_deviceFamily :: "string option"
  dq_clientId :: "string option"
  dq_clientMode :: "string option"
  dq_role :: "string option"
  dq_roles :: "string list option"
  dq_scopes :: "string list option"
  dq_remoteIp :: "string option"
  dq_silent :: "bool option"
  dq_isRepair :: bool
  dq_ts :: int

record device_token =
  dt_token :: string
  dt_role :: string
  dt_scopes :: "string list"
  dt_createdAtMs :: int
  dt_rotatedAtMs :: "int option"
  dt_revokedAtMs :: "int option"
  dt_lastUsedAtMs :: "int option"

record paired_device =
  pd_deviceId :: string
  pd_publicKey :: string
  pd_displayName :: "string option"
  pd_platform :: "string option"
  pd_deviceFamily :: "string option"
  pd_clientId :: "string option"
  pd_clientMode :: "string option"
  pd_role :: "string option"
  pd_roles :: "string list option"
  pd_scopes :: "string list option"
  pd_approvedScopes :: "string list option"
  pd_remoteIp :: "string option"
  pd_tokens :: "(string \<times> device_token) list option"
  pd_createdAtMs :: int
  pd_approvedAtMs :: int

record device_state =
  ds_pending :: "(string \<times> device_request) list"
  ds_paired :: "(string \<times> paired_device) list"

text \<open>The two files; \<open>None\<close> for one that is missing or unreadable.\<close>

record device_files =
  df_pending :: "(string \<times> device_request) list option"
  df_paired :: "(string \<times> paired_device) list option"

definition DEVICE_PENDING_TTL_MS :: int where
  "DEVICE_PENDING_TTL_MS = 5 * 60 * 1000"

definition pruneExpiredPending :: "('a \<Rightarrow> int) \<Rightarrow> int \<Rightarrow> int \<Rightarrow> (string \<times> 'a) list \<Rightarrow> (string \<times> 'a) list" where
  "pruneExpiredPending ts now ttl pendingById = filter (\<lambda>(i, q). \<not> now - ts q > ttl) pendingById"

definition loadDeviceState :: "int \<Rightarrow> device_files \<Rightarrow> device_state" where
  "loadDeviceState now f =
     \<lparr>ds_pending = pruneExpiredPending dq_ts now DEVICE_PENDING_TTL_MS (case df_pending f of Some p \<Rightarrow> p | None \<Rightarrow> []),
      ds_paired = (case df_paired f of Some p \<Rightarrow> p | None \<Rightarrow> [])\<rparr>"

definition persistDeviceState :: "device_state \<Rightarrow> device_files" where
  "persistDeviceState s = \<lparr>df_pending = Some (ds_pending s), df_paired = Some (ds_paired s)\<rparr>"

section \<open>Roles and scopes\<close>

definition merge_texts :: "string list option list \<Rightarrow> string list option" where
  "merge_texts items =
     (let texts = distinct_texts (filter (\<lambda>t. t \<noteq> []) (map js_trim (concat (map (\<lambda>i. case i of Some xs \<Rightarrow> xs | None \<Rightarrow> []) items))))
      in if texts = [] then None else Some texts)"

text \<open>A role that stands alone among the lists of roles.\<close>

definition one_role :: "string option \<Rightarrow> string list option" where
  "one_role r = map_option (\<lambda>t. [t]) r"

definition mergeRoles :: "string list option list \<Rightarrow> string list option" where
  "mergeRoles items = merge_texts items"

definition mergeScopes :: "string list option list \<Rightarrow> string list option" where
  "mergeScopes items = merge_texts items"

definition normalizeDeviceRole :: "string option \<Rightarrow> string option" where
  "normalizeDeviceRole role = trim_or_undef role"

definition normalizeDeviceAuthScopes :: "string list option \<Rightarrow> string list" where
  "normalizeDeviceAuthScopes scopes =
     (case scopes of None \<Rightarrow> [] | Some xs \<Rightarrow> sort (distinct_texts (filter (\<lambda>t. t \<noteq> []) (map js_trim xs))))"

definition scopesAllow :: "string list \<Rightarrow> string list \<Rightarrow> bool" where
  "scopesAllow requested allowed =
     (if requested = [] then True else if allowed = [] then False else list_all (\<lambda>s. s \<in> set allowed) requested)"

definition ADMIN_SCOPE :: string where "ADMIN_SCOPE = ''operator.admin''"
definition READ_SCOPE :: string where "READ_SCOPE = ''operator.read''"
definition WRITE_SCOPE :: string where "WRITE_SCOPE = ''operator.write''"
definition APPROVALS_SCOPE :: string where "APPROVALS_SCOPE = ''operator.approvals''"
definition PAIRING_SCOPE :: string where "PAIRING_SCOPE = ''operator.pairing''"

definition DEVICE_SCOPE_IMPLICATIONS :: "string \<Rightarrow> string list" where
  "DEVICE_SCOPE_IMPLICATIONS s =
     (if s = ADMIN_SCOPE then [READ_SCOPE, WRITE_SCOPE, APPROVALS_SCOPE, PAIRING_SCOPE]
      else if s = WRITE_SCOPE then [READ_SCOPE] else [])"

definition implied_scopes :: "string set" where
  "implied_scopes = {READ_SCOPE, WRITE_SCOPE, APPROVALS_SCOPE, PAIRING_SCOPE}"

lemma implications_known: "set (DEVICE_SCOPE_IMPLICATIONS s) \<subseteq> implied_scopes"
  by (auto simp: DEVICE_SCOPE_IMPLICATIONS_def implied_scopes_def)

text \<open>The loop over the queue of scopes; the last is taken, what it implies is added behind.\<close>

function expand_loop :: "string list \<Rightarrow> string list \<Rightarrow> string list" where
  "expand_loop expanded queue =
     (if queue = [] then expanded
      else let scope = last queue; implied = filter (\<lambda>i. i \<notin> set expanded) (if scope = [] then [] else DEVICE_SCOPE_IMPLICATIONS scope)
           in expand_loop (expanded @ implied) (butlast queue @ implied))"
  by pat_completeness auto

termination
proof (relation "measures [\<lambda>(expanded, queue). card (implied_scopes - set expanded), \<lambda>(expanded, queue). length queue]")
  fix expanded queue scope implied
  assume q: "queue \<noteq> []" "scope = last queue"
    "implied = filter (\<lambda>i. i \<notin> set expanded) (if scope = [] then [] else DEVICE_SCOPE_IMPLICATIONS scope)"
  show "((expanded @ implied, butlast queue @ implied), expanded, queue)
      \<in> measures [\<lambda>(expanded, queue). card (implied_scopes - set expanded), \<lambda>(expanded, queue). length queue]"
  proof (cases "implied = []")
    case False
    then obtain i where "i \<in> set implied" by (cases implied) auto
    with q(3) implications_known have "i \<in> implied_scopes" "i \<notin> set expanded" by (auto split: if_splits)
    with \<open>i \<in> set implied\<close> have "implied_scopes - set (expanded @ implied) \<subset> implied_scopes - set expanded" by auto
    moreover have "finite implied_scopes" by (simp add: implied_scopes_def)
    ultimately have "card (implied_scopes - set (expanded @ implied)) < card (implied_scopes - set expanded)"
      by (intro psubset_card_mono) auto
    then show ?thesis by simp
  qed (use q in simp)
qed simp

declare expand_loop.simps [simp del]

definition expandScopeImplications :: "string list \<Rightarrow> string list" where
  "expandScopeImplications scopes = expand_loop (distinct_texts scopes) scopes"

definition scopesAllowWithImplications :: "string list \<Rightarrow> string list \<Rightarrow> bool" where
  "scopesAllowWithImplications requested allowed = scopesAllow (expandScopeImplications requested) (expandScopeImplications allowed)"

definition normalizeScopeList :: "string list \<Rightarrow> string list" where
  "normalizeScopeList scopes = distinct_texts (filter (\<lambda>t. t \<noteq> []) (map js_trim scopes))"

definition operatorScopeSatisfied :: "string \<Rightarrow> string set \<Rightarrow> bool" where
  "operatorScopeSatisfied requested granted =
     (if ADMIN_SCOPE \<in> granted \<and> js_starts_with requested ''operator.'' then True
      else if requested = READ_SCOPE then READ_SCOPE \<in> granted \<or> WRITE_SCOPE \<in> granted
      else if requested = WRITE_SCOPE then WRITE_SCOPE \<in> granted
      else requested \<in> granted)"

definition roleScopesAllow :: "string \<Rightarrow> string list \<Rightarrow> string list \<Rightarrow> bool" where
  "roleScopesAllow role requestedScopes allowedScopes =
     (let requested = normalizeScopeList requestedScopes; allowed = normalizeScopeList allowedScopes
      in if requested = [] then True
         else if allowed = [] then False
         else if js_trim role \<noteq> ''operator'' then list_all (\<lambda>s. s \<in> set allowed) requested
         else list_all (\<lambda>s. operatorScopeSatisfied s (set allowed)) requested)"

section \<open>Requests\<close>

definition normalizeDeviceId :: "string \<Rightarrow> string" where
  "normalizeDeviceId i = js_trim i"

definition mergePendingDevicePairingRequest :: "device_request \<Rightarrow> pair_request \<Rightarrow> bool \<Rightarrow> int \<Rightarrow> device_request" where
  "mergePendingDevicePairingRequest old new isRepair now =
     old\<lparr>dq_displayName := or_else (rq_displayName new) (dq_displayName old), dq_platform := or_else (rq_platform new) (dq_platform old),
         dq_deviceFamily := or_else (rq_deviceFamily new) (dq_deviceFamily old), dq_clientId := or_else (rq_clientId new) (dq_clientId old),
         dq_clientMode := or_else (rq_clientMode new) (dq_clientMode old),
         dq_role := or_else (normalizeDeviceRole (dq_role old)) (normalizeDeviceRole (rq_role new)),
         dq_roles := mergeRoles [dq_roles old, one_role (dq_role old), one_role (rq_role new)],
         dq_scopes := mergeScopes [dq_scopes old, rq_scopes new], dq_remoteIp := or_else (rq_remoteIp new) (dq_remoteIp old),
         dq_silent := Some (dq_silent old = Some True \<and> rq_silent new = Some True),
         dq_isRepair := (dq_isRepair old \<or> isRepair), dq_ts := now\<rparr>"

definition new_device_request :: "pair_request \<Rightarrow> string \<Rightarrow> string \<Rightarrow> bool \<Rightarrow> int \<Rightarrow> device_request" where
  "new_device_request new deviceId requestId isRepair now =
     \<lparr>dq_requestId = requestId, dq_deviceId = deviceId, dq_publicKey = rq_publicKey new, dq_displayName = rq_displayName new,
      dq_platform = rq_platform new, dq_deviceFamily = rq_deviceFamily new, dq_clientId = rq_clientId new,
      dq_clientMode = rq_clientMode new, dq_role = rq_role new,
      dq_roles = (case rq_role new of None \<Rightarrow> None | Some r \<Rightarrow> if r = [] then None else Some [r]),
      dq_scopes = rq_scopes new, dq_remoteIp = rq_remoteIp new, dq_silent = rq_silent new, dq_isRepair = isRepair, dq_ts = now\<rparr>"

text \<open>The request, and whether it is new.\<close>

definition requestDevicePairing ::
  "pair_request \<Rightarrow> string \<Rightarrow> int \<Rightarrow> device_files \<Rightarrow> (device_files \<times> device_request \<times> bool) result" where
  "requestDevicePairing req requestId now f =
     (let s = loadDeviceState now f; deviceId = normalizeDeviceId (rq_deviceId req)
      in if deviceId = [] then Inl (Error ''deviceId required'')
         else let isRepair = (map_of (ds_paired s) deviceId \<noteq> None)
              in case find (\<lambda>p. dq_deviceId p = deviceId) (map snd (ds_pending s)) of
                   Some old \<Rightarrow>
                     let merged = mergePendingDevicePairingRequest old req isRepair now
                     in Inr (persistDeviceState (s\<lparr>ds_pending := AList.update (dq_requestId old) merged (ds_pending s)\<rparr>), merged, False)
                 | None \<Rightarrow>
                     let q = new_device_request req deviceId requestId isRepair now
                     in Inr (persistDeviceState (s\<lparr>ds_pending := AList.update requestId q (ds_pending s)\<rparr>), q, True))"

definition token_map :: "paired_device option \<Rightarrow> (string \<times> device_token) list" where
  "token_map d = (case Option.bind d pd_tokens of Some ts \<Rightarrow> ts | None \<Rightarrow> [])"

definition approved_token :: "device_request \<Rightarrow> paired_device option \<Rightarrow> string list option \<Rightarrow> string \<Rightarrow> string \<Rightarrow> int \<Rightarrow> device_token" where
  "approved_token p old approvedScopes role token now =
     (let oldToken = map_of (token_map old) role; requestedScopes = normalizeDeviceAuthScopes (dq_scopes p)
      in \<lparr>dt_token = token, dt_role = role,
          dt_scopes = (if requestedScopes \<noteq> [] then requestedScopes
             else normalizeDeviceAuthScopes (or_else (map_option dt_scopes oldToken)
               (or_else approvedScopes (or_else (Option.bind old pd_approvedScopes) (Option.bind old pd_scopes))))),
          dt_createdAtMs = (case oldToken of Some t \<Rightarrow> dt_createdAtMs t | None \<Rightarrow> now),
          dt_rotatedAtMs = (if oldToken \<noteq> None then Some now else None), dt_revokedAtMs = None,
          dt_lastUsedAtMs = Option.bind oldToken dt_lastUsedAtMs\<rparr>)"

definition approved_device :: "device_request \<Rightarrow> paired_device option \<Rightarrow> string \<Rightarrow> int \<Rightarrow> paired_device" where
  "approved_device p old token now =
     (let roles = mergeRoles [Option.bind old pd_roles, one_role (Option.bind old pd_role), dq_roles p, one_role (dq_role p)];
          approvedScopes = mergeScopes [or_else (Option.bind old pd_approvedScopes) (Option.bind old pd_scopes), dq_scopes p];
          tokens = (case normalizeDeviceRole (dq_role p) of
             Some role \<Rightarrow> AList.update role (approved_token p old approvedScopes role token now) (token_map old)
           | None \<Rightarrow> token_map old)
      in \<lparr>pd_deviceId = dq_deviceId p, pd_publicKey = dq_publicKey p, pd_displayName = dq_displayName p, pd_platform = dq_platform p,
          pd_deviceFamily = dq_deviceFamily p, pd_clientId = dq_clientId p, pd_clientMode = dq_clientMode p, pd_role = dq_role p,
          pd_roles = roles, pd_scopes = approvedScopes, pd_approvedScopes = approvedScopes, pd_remoteIp = dq_remoteIp p,
          pd_tokens = Some tokens, pd_createdAtMs = (case old of Some d \<Rightarrow> pd_createdAtMs d | None \<Rightarrow> now), pd_approvedAtMs = now\<rparr>)"

definition approveDevicePairing :: "string \<Rightarrow> string \<Rightarrow> int \<Rightarrow> device_files \<Rightarrow> device_files \<times> paired_device option" where
  "approveDevicePairing requestId token now f =
     (let s = loadDeviceState now f
      in case map_of (ds_pending s) requestId of
           None \<Rightarrow> (f, None)
         | Some p \<Rightarrow>
             let d = approved_device p (map_of (ds_paired s) (dq_deviceId p)) token now
             in (persistDeviceState \<lparr>ds_pending = AList.delete requestId (ds_pending s),
                   ds_paired = AList.update (pd_deviceId d) d (ds_paired s)\<rparr>, Some d))"

definition rejectDevicePairing :: "string \<Rightarrow> int \<Rightarrow> device_files \<Rightarrow> device_files \<times> string option" where
  "rejectDevicePairing requestId now f =
     (let s = loadDeviceState now f
      in case map_of (ds_pending s) requestId of
           None \<Rightarrow> (f, None)
         | Some p \<Rightarrow> (persistDeviceState (s\<lparr>ds_pending := AList.delete requestId (ds_pending s)\<rparr>), Some (dq_deviceId p)))"

section \<open>Paired devices\<close>

definition paired_at :: "int \<Rightarrow> device_files \<Rightarrow> string \<Rightarrow> paired_device option" where
  "paired_at now f deviceId = map_of (ds_paired (loadDeviceState now f)) (normalizeDeviceId deviceId)"

definition getPairedDevice :: "string \<Rightarrow> int \<Rightarrow> device_files \<Rightarrow> paired_device option" where
  "getPairedDevice deviceId now f = paired_at now f deviceId"

definition put_device :: "string \<Rightarrow> paired_device \<Rightarrow> device_state \<Rightarrow> device_files" where
  "put_device key d s = persistDeviceState (s\<lparr>ds_paired := AList.update key d (ds_paired s)\<rparr>)"

definition drop_device :: "string \<Rightarrow> device_state \<Rightarrow> device_files" where
  "drop_device key s = persistDeviceState (s\<lparr>ds_paired := AList.delete key (ds_paired s)\<rparr>)"

definition removePairedDevice :: "string \<Rightarrow> int \<Rightarrow> device_files \<Rightarrow> device_files \<times> string option" where
  "removePairedDevice deviceId now f =
     (let s = loadDeviceState now f; i = normalizeDeviceId deviceId
      in if i = [] \<or> map_of (ds_paired s) i = None then (f, None) else (drop_device i s, Some i))"

definition clearDevicePairing :: "string \<Rightarrow> int \<Rightarrow> device_files \<Rightarrow> device_files \<times> bool" where
  "clearDevicePairing deviceId now f =
     (let s = loadDeviceState now f; i = normalizeDeviceId deviceId
      in if map_of (ds_paired s) i = None then (f, False) else (drop_device i s, True))"

text \<open>What a caller may patch: a field is absent, or set (to no value too).\<close>

record device_patch =
  dx_publicKey :: "string option"
  dx_displayName :: "string option option"
  dx_platform :: "string option option"
  dx_deviceFamily :: "string option option"
  dx_clientId :: "string option option"
  dx_clientMode :: "string option option"
  dx_role :: "string option option"
  dx_scopes :: "string list option option"
  dx_remoteIp :: "string option option"
  dx_tokens :: "(string \<times> device_token) list option option"

definition flat :: "'a option option \<Rightarrow> 'a option" where
  "flat x = Option.bind x id"

definition patched_device :: "paired_device \<Rightarrow> device_patch \<Rightarrow> paired_device" where
  "patched_device d x =
     d\<lparr>pd_publicKey := (case dx_publicKey x of Some k \<Rightarrow> k | None \<Rightarrow> pd_publicKey d),
       pd_displayName := assign_field (dx_displayName x) (pd_displayName d), pd_platform := assign_field (dx_platform x) (pd_platform d),
       pd_deviceFamily := assign_field (dx_deviceFamily x) (pd_deviceFamily d), pd_clientId := assign_field (dx_clientId x) (pd_clientId d),
       pd_clientMode := assign_field (dx_clientMode x) (pd_clientMode d), pd_role := or_else (flat (dx_role x)) (pd_role d),
       pd_roles := mergeRoles [pd_roles d, one_role (pd_role d), one_role (flat (dx_role x))],
       pd_scopes := mergeScopes [pd_scopes d, flat (dx_scopes x)], pd_remoteIp := assign_field (dx_remoteIp x) (pd_remoteIp d),
       pd_tokens := assign_field (dx_tokens x) (pd_tokens d)\<rparr>"

definition updatePairedDeviceMetadata :: "string \<Rightarrow> device_patch \<Rightarrow> int \<Rightarrow> device_files \<Rightarrow> device_files" where
  "updatePairedDeviceMetadata deviceId patch now f =
     (case paired_at now f deviceId of
        None \<Rightarrow> f
      | Some d \<Rightarrow> put_device deviceId (patched_device d patch) (loadDeviceState now f))"

section \<open>Tokens\<close>

datatype verify_result = TokenOk | TokenRefused string

definition verifyDeviceToken :: "string \<Rightarrow> string \<Rightarrow> string \<Rightarrow> string list \<Rightarrow> int \<Rightarrow> device_files \<Rightarrow> device_files \<times> verify_result" where
  "verifyDeviceToken deviceId token rawRole scopes now f =
     (case paired_at now f deviceId of
        None \<Rightarrow> (f, TokenRefused ''device-not-paired'')
      | Some d \<Rightarrow>
          (case normalizeDeviceRole (Some rawRole) of
             None \<Rightarrow> (f, TokenRefused ''role-missing'')
           | Some role \<Rightarrow>
               (case map_of (token_map (Some d)) role of
                  None \<Rightarrow> (f, TokenRefused ''token-missing'')
                | Some e \<Rightarrow>
                    if at_ms (dt_revokedAtMs e) then (f, TokenRefused ''token-revoked'')
                    else if token \<noteq> dt_token e then (f, TokenRefused ''token-mismatch'')
                    else if \<not> roleScopesAllow role (normalizeDeviceAuthScopes (Some scopes)) (dt_scopes e)
                    then (f, TokenRefused ''scope-mismatch'')
                    else (put_device (pd_deviceId d)
                            (d\<lparr>pd_tokens := Some (AList.update role (e\<lparr>dt_lastUsedAtMs := Some now\<rparr>) (token_map (Some d)))\<rparr>)
                            (loadDeviceState now f), TokenOk))))"

definition buildDeviceAuthToken :: "string \<Rightarrow> string list \<Rightarrow> device_token option \<Rightarrow> int \<Rightarrow> int option \<Rightarrow> string \<Rightarrow> device_token" where
  "buildDeviceAuthToken role scopes old now rotatedAtMs token =
     \<lparr>dt_token = token, dt_role = role, dt_scopes = scopes,
      dt_createdAtMs = (case old of Some t \<Rightarrow> dt_createdAtMs t | None \<Rightarrow> now), dt_rotatedAtMs = rotatedAtMs, dt_revokedAtMs = None,
      dt_lastUsedAtMs = Option.bind old dt_lastUsedAtMs\<rparr>"

definition put_token :: "paired_device \<Rightarrow> string \<Rightarrow> device_token \<Rightarrow> int \<Rightarrow> device_files \<Rightarrow> device_files" where
  "put_token d role t now f =
     put_device (pd_deviceId d) (d\<lparr>pd_tokens := Some (AList.update role t (token_map (Some d)))\<rparr>) (loadDeviceState now f)"

definition ensureDeviceToken :: "string \<Rightarrow> string \<Rightarrow> string list \<Rightarrow> string \<Rightarrow> int \<Rightarrow> device_files \<Rightarrow> device_files \<times> device_token option" where
  "ensureDeviceToken deviceId rawRole scopes token now f =
     (case (paired_at now f deviceId, normalizeDeviceRole (Some rawRole)) of
        (Some d, Some role) \<Rightarrow>
          let requestedScopes = normalizeDeviceAuthScopes (Some scopes); old = map_of (token_map (Some d)) role
          in if (case old of Some e \<Rightarrow> \<not> at_ms (dt_revokedAtMs e) \<and> roleScopesAllow role requestedScopes (dt_scopes e) | None \<Rightarrow> False)
             then (f, old)
             else let t = buildDeviceAuthToken role requestedScopes old now (if old \<noteq> None then Some now else None) token
                  in (put_token d role t now f, Some t)
      | _ \<Rightarrow> (f, None))"

definition rotateDeviceToken :: "string \<Rightarrow> string \<Rightarrow> string list option \<Rightarrow> string \<Rightarrow> int \<Rightarrow> device_files \<Rightarrow> device_files \<times> device_token option" where
  "rotateDeviceToken deviceId rawRole scopes token now f =
     (case (paired_at now f deviceId, normalizeDeviceRole (Some rawRole)) of
        (Some d, Some role) \<Rightarrow>
          let old = map_of (token_map (Some d)) role;
              requestedScopes = normalizeDeviceAuthScopes (or_else scopes (or_else (map_option dt_scopes old) (pd_scopes d)));
              approvedScopes = normalizeDeviceAuthScopes (or_else (pd_approvedScopes d) (or_else (pd_scopes d) (map_option dt_scopes old)))
          in if \<not> scopesAllowWithImplications requestedScopes approvedScopes then (f, None)
             else let t = buildDeviceAuthToken role requestedScopes old now (Some now) token in (put_token d role t now f, Some t)
      | _ \<Rightarrow> (f, None))"

definition revokeDeviceToken :: "string \<Rightarrow> string \<Rightarrow> int \<Rightarrow> device_files \<Rightarrow> device_files \<times> device_token option" where
  "revokeDeviceToken deviceId rawRole now f =
     (case (paired_at now f deviceId, normalizeDeviceRole (Some rawRole)) of
        (Some d, Some role) \<Rightarrow>
          (case map_of (token_map (Some d)) role of
             None \<Rightarrow> (f, None)
           | Some e \<Rightarrow> let e' = e\<lparr>dt_revokedAtMs := Some now\<rparr> in (put_token d role e' now f, Some e'))
      | _ \<Rightarrow> (f, None))"

end
