(* ===== verification/GatewayAccess.thy ===== *)
theory GatewayAccess
  imports DevicePairing RateLimit
begin

text \<open>
  What a device may do at the gateway: which method a role and its scopes may call
  (\<open>src/gateway/method-scopes.ts\<close>, \<open>gateway/role-policy.ts\<close>, \<open>shared/gateway-method-policy.ts\<close>,
  \<open>authorizeGatewayMethod\<close> and the gates before a handler in \<open>gateway/server-methods.ts\<close>), and the part of the handshake of
  \<open>gateway/server/ws-connection/message-handler.ts\<close> that pairs a device and gives it a token.

  The scopes that plugins declare for their own methods are the parameter \<open>plugin_scopes\<close>. Of the handshake, what
  was found out before (who the client is, whether its signature is good, how it signed in) is the request; the clock
  is read once, the ids and tokens that may be needed are given with it.
\<close>

section \<open>Methods and scopes\<close>

datatype gateway_role = OperatorRole | NodeRole

definition role_text :: "gateway_role \<Rightarrow> string" where
  "role_text r = (case r of OperatorRole \<Rightarrow> ''operator'' | NodeRole \<Rightarrow> ''node'')"

definition parseGatewayRole :: "string \<Rightarrow> gateway_role option" where
  "parseGatewayRole r = (if r = ''operator'' then Some OperatorRole else if r = ''node'' then Some NodeRole else None)"

definition NODE_ROLE_METHODS :: "string list" where
  "NODE_ROLE_METHODS =
     [''node.invoke.result'', ''node.event'', ''node.pending.drain'', ''node.pending.pull'', ''node.pending.ack'',
      ''node.canvas.capability.refresh'', ''skills.bins'']"

definition approvals_methods :: "string list" where
  "approvals_methods =
     [''exec.approval.get'', ''exec.approval.list'', ''exec.approval.request'', ''exec.approval.waitDecision'',
      ''exec.approval.resolve'']"

definition pairing_methods :: "string list" where
  "pairing_methods =
     [''node.pair.request'', ''node.pair.list'', ''node.pair.approve'', ''node.pair.reject'', ''node.pair.remove'',
      ''node.pair.verify'', ''device.pair.list'', ''device.pair.approve'', ''device.pair.reject'',
      ''device.pair.remove'', ''device.token.rotate'', ''device.token.revoke'', ''node.rename'']"

definition read_methods :: "string list" where
  "read_methods =
     [''health'', ''diagnostics.stability'', ''doctor.memory.inventory'', ''doctor.memory.repair.preview'',
      ''doctor.memory.status'', ''doctor.memory.validate'', ''doctor.memory.wiki.status'', ''logs.tail'',
      ''channels.status'', ''status'', ''usage.status'', ''usage.cost'', ''tts.status'', ''tts.providers'',
      ''tts.personas'', ''models.auth.status'', ''models.authStatus'', ''models.catalog.status'', ''models.list'',
      ''plugins.marketplace.list'', ''plugins.marketplace.info'', ''plugins.marketplace.update.preview'',
      ''webhookTriggers.list'', ''hooks.list'', ''commands.list'', ''tools.catalog'', ''tools.effective'',
      ''services.capabilities'', ''services.webSearch.providers'', ''services.webSearch.test'', ''tasks.list'',
      ''tasks.detail'', ''tasks.audit'', ''tasks.workflow.preview'', ''tasks.workflow.graph.preview'',
      ''tasks.workflow.definitions.list'', ''tasks.workflow.templates.list'', ''tasks.standingOrders.list'',
      ''tasks.flow.list'', ''tasks.flow.detail'', ''agents.list'', ''agent.identity.get'',
      ''acpx.pushTest.auditHistory'', ''acpx.pushTest.preview'', ''skills.status'', ''skills.file.get'',
      ''update.status'', ''voicewake.get'', ''voicewake.routing.get'', ''sessions.list'', ''sessions.subscribe'',
      ''sessions.unsubscribe'', ''sessions.messages.subscribe'', ''sessions.messages.unsubscribe'',
      ''sessions.preview'', ''sessions.resolve'', ''sessions.compaction.list'', ''sessions.compaction.get'',
      ''sessions.usage'', ''sessions.usage.timeseries'', ''sessions.usage.logs'', ''cron.list'', ''cron.status'',
      ''cron.runDetail'', ''cron.runs'', ''cron.sources.list'', ''gateway.identity.get'', ''system-presence'',
      ''last-heartbeat'', ''node.list'', ''node.describe'', ''chat.history'', ''config.get'', ''config.schema.lookup'',
      ''talk.config'', ''agents.files.list'', ''agents.files.get'']"

definition write_methods :: "string list" where
  "write_methods =
     [''send'', ''poll'', ''agent'', ''agent.wait'', ''wake'', ''talk.mode'', ''tts.enable'', ''tts.disable'',
      ''tts.convert'', ''tts.setProvider'', ''voicewake.set'', ''voicewake.routing.set'', ''channels.start'',
      ''channels.stop'', ''node.invoke'', ''node.pending.enqueue'', ''cron.queue.cancel'', ''cron.queue.retry'',
      ''cron.queue.clearStale'', ''tasks.cancel'', ''tasks.retry'', ''tasks.notify'', ''tasks.maintenance'',
      ''webhookTriggers.test'', ''tasks.workflow.run'', ''tasks.workflow.resume'', ''tasks.workflow.graph.run'',
      ''tasks.workflow.graph.resume'', ''tasks.workflow.definitions.save'', ''tasks.workflow.definitions.remove'',
      ''tasks.standingOrders.save'', ''tasks.standingOrders.remove'', ''tasks.standingOrders.propose'',
      ''tasks.flow.cancel'', ''chat.send'', ''chat.abort'', ''sessions.compaction.branch'', ''browser.request'',
      ''push.test'', ''acpx.pushTest.execute'']"

definition admin_methods :: "string list" where
  "admin_methods =
     [''channels.logout'', ''models.auth.interactive.start'', ''models.auth.configure'', ''models.auth.store'',
      ''models.auth.clear'', ''agents.create'', ''agents.update'', ''agents.delete'', ''plugins.marketplace.install'',
      ''plugins.marketplace.restart'', ''plugins.marketplace.runtimeHelper.set'',
      ''plugins.marketplace.adminRpcGrant.set'', ''plugins.marketplace.update'', ''plugins.marketplace.uninstall'',
      ''webhookTriggers.upsert'', ''webhookTriggers.remove'', ''hooks.setEnabled'', ''services.gmail.setup'',
      ''services.component.install'', ''services.component.restart'', ''skills.create'', ''skills.copy'',
      ''skills.install'', ''skills.file.set'', ''skills.update'', ''secrets.reload'', ''cron.add'', ''cron.update'',
      ''cron.repair'', ''cron.sources.update'', ''cron.sources.remove'', ''cron.remove'', ''cron.run'',
      ''sessions.patch'', ''sessions.reset'', ''sessions.delete'', ''sessions.compact'',
      ''sessions.compaction.restore'', ''connect'', ''chat.inject'', ''doctor.memory.repair.execute'',
      ''doctor.memory.wiki.rebuild'', ''web.login.start'', ''web.login.wait'', ''set-heartbeats'', ''system-event'',
      ''agents.files.set'']"

definition METHOD_SCOPE_GROUPS :: "(string \<times> string list) list" where
  "METHOD_SCOPE_GROUPS = [(APPROVALS_SCOPE, approvals_methods), (PAIRING_SCOPE, pairing_methods), (READ_SCOPE, read_methods), (WRITE_SCOPE, write_methods), (ADMIN_SCOPE, admin_methods)]"

text \<open>A map made from a list of pairs: the last pair of a key counts.\<close>

definition METHOD_SCOPE_BY_NAME :: "string \<Rightarrow> string option" where
  "METHOD_SCOPE_BY_NAME m = map_of (rev (concat (map (\<lambda>(scope, ms). map (\<lambda>m. (m, scope)) ms) METHOD_SCOPE_GROUPS))) m"

definition RESERVED_ADMIN_GATEWAY_METHOD_PREFIXES :: "string list" where
  "RESERVED_ADMIN_GATEWAY_METHOD_PREFIXES = [''exec.approvals.'', ''config.'', ''wizard.'', ''update.'']"

definition isReservedAdminGatewayMethod :: "string \<Rightarrow> bool" where
  "isReservedAdminGatewayMethod m = list_ex (\<lambda>p. js_starts_with m p) RESERVED_ADMIN_GATEWAY_METHOD_PREFIXES"

definition resolveReservedGatewayMethodScope :: "string \<Rightarrow> string option" where
  "resolveReservedGatewayMethodScope m = (if isReservedAdminGatewayMethod m then Some ADMIN_SCOPE else None)"

text \<open>The scope a plugin's method gets when the plugin asks for one, and whether it was replaced.\<close>

definition normalizePluginGatewayMethodScope :: "string \<Rightarrow> string option \<Rightarrow> string option \<times> bool" where
  "normalizePluginGatewayMethodScope m scope =
     (case (resolveReservedGatewayMethodScope m, scope) of
        (Some reserved, Some s) \<Rightarrow> if s = [] \<or> s = reserved then (scope, False) else (Some reserved, True)
      | _ \<Rightarrow> (scope, False))"

definition resolveScopedMethod :: "(string \<Rightarrow> string option) \<Rightarrow> string \<Rightarrow> string option" where
  "resolveScopedMethod plugin_scopes m =
     (case METHOD_SCOPE_BY_NAME m of Some s \<Rightarrow> Some s
      | None \<Rightarrow> (case resolveReservedGatewayMethodScope m of Some s \<Rightarrow> Some s | None \<Rightarrow> plugin_scopes m))"

definition isNodeRoleMethod :: "string \<Rightarrow> bool" where
  "isNodeRoleMethod m = (m \<in> set NODE_ROLE_METHODS)"

definition isRoleAuthorizedForMethod :: "gateway_role \<Rightarrow> string \<Rightarrow> bool" where
  "isRoleAuthorizedForMethod role m = (if isNodeRoleMethod m then role = NodeRole else role = OperatorRole)"

definition required_scope :: "(string \<Rightarrow> string option) \<Rightarrow> string \<Rightarrow> string" where
  "required_scope plugin_scopes m = (case resolveScopedMethod plugin_scopes m of Some s \<Rightarrow> s | None \<Rightarrow> ADMIN_SCOPE)"

text \<open>\<open>None\<close> when the call is allowed, else the scope that is missing.\<close>

definition authorizeOperatorScopesForMethod :: "(string \<Rightarrow> string option) \<Rightarrow> string \<Rightarrow> string list \<Rightarrow> string option" where
  "authorizeOperatorScopesForMethod plugin_scopes m scopes =
     (let required = required_scope plugin_scopes m
      in if ADMIN_SCOPE \<in> set scopes then None
         else if required = READ_SCOPE then (if READ_SCOPE \<in> set scopes \<or> WRITE_SCOPE \<in> set scopes then None else Some READ_SCOPE)
         else if required \<in> set scopes then None else Some required)"

definition resolveLeastPrivilegeOperatorScopesForMethod :: "(string \<Rightarrow> string option) \<Rightarrow> string \<Rightarrow> string list" where
  "resolveLeastPrivilegeOperatorScopesForMethod plugin_scopes m =
     (case resolveScopedMethod plugin_scopes m of Some s \<Rightarrow> [s] | None \<Rightarrow> [])"

definition isGatewayMethodClassified :: "(string \<Rightarrow> string option) \<Rightarrow> string \<Rightarrow> bool" where
  "isGatewayMethodClassified plugin_scopes m = (isNodeRoleMethod m \<or> resolveScopedMethod plugin_scopes m \<noteq> None)"

record method_client =
  mc_role :: "string option"
  mc_scopes :: "string list option"

text \<open>\<open>None\<close> when the client may call the method; a call from inside has no client.\<close>

definition authorizeGatewayMethod :: "(string \<Rightarrow> string option) \<Rightarrow> string \<Rightarrow> method_client option \<Rightarrow> string option" where
  "authorizeGatewayMethod plugin_scopes m client =
     (case client of None \<Rightarrow> None
      | Some c \<Rightarrow>
          if m = ''health'' then None
          else let raw = (case mc_role c of Some r \<Rightarrow> r | None \<Rightarrow> ''operator''); scopes = (case mc_scopes c of Some s \<Rightarrow> s | None \<Rightarrow> [])
          in (case parseGatewayRole raw of
                None \<Rightarrow> Some (''unauthorized role: '' @ raw)
              | Some role \<Rightarrow>
                  if \<not> isRoleAuthorizedForMethod role m then Some (''unauthorized role: '' @ role_text role)
                  else if role = NodeRole then None
                  else if ADMIN_SCOPE \<in> set scopes then None
                  else map_option (\<lambda>s. ''missing scope: '' @ s) (authorizeOperatorScopesForMethod plugin_scopes m scopes)))"

definition CONTROL_PLANE_WRITE_METHODS :: "string list" where
  "CONTROL_PLANE_WRITE_METHODS = [''config.apply'', ''config.patch'', ''hooks.setEnabled'', ''update.run'']"

text \<open>What comes before the handler of a request: the authorisation, then the two budgets.\<close>

datatype gate_result = Unauthorized string | OutOfBudget int | Admitted

definition handleGatewayRequest ::
  "(string \<Rightarrow> string option) \<Rightarrow> int \<Rightarrow> string \<Rightarrow> method_client option \<Rightarrow> gateway_client \<Rightarrow> buckets \<times> buckets \<Rightarrow>
     (buckets \<times> buckets) \<times> gate_result" where
  "handleGatewayRequest plugin_scopes now m client who bs =
     (case authorizeGatewayMethod plugin_scopes m client of
        Some e \<Rightarrow> (bs, Unauthorized e)
      | None \<Rightarrow>
          let (write, writes) = (if m \<in> set CONTROL_PLANE_WRITE_METHODS
                then (case consumeControlPlaneWriteBudget now who (fst bs) of (b, bs') \<Rightarrow> (Some b, bs')) else (None, fst bs))
          in (case write of
                Some b \<Rightarrow> if \<not> bd_allowed b then ((writes, snd bs), OutOfBudget (bd_retryAfterMs b))
                   else (case consumeMutatingAdminRpcBudget now m who (snd bs) of
                      (Some a, calls) \<Rightarrow> ((writes, calls), if bd_allowed a then Admitted else OutOfBudget (bd_retryAfterMs a))
                    | (None, calls) \<Rightarrow> ((writes, calls), Admitted))
              | None \<Rightarrow> (case consumeMutatingAdminRpcBudget now m who (snd bs) of
                      (Some a, calls) \<Rightarrow> ((writes, calls), if bd_allowed a then Admitted else OutOfBudget (bd_retryAfterMs a))
                    | (None, calls) \<Rightarrow> ((writes, calls), Admitted))))"

lemma unauthorized_takes_no_budget: "snd (handleGatewayRequest plugin_scopes now m client who bs) = Unauthorized e \<Longrightarrow>
    fst (handleGatewayRequest plugin_scopes now m client who bs) = bs"
  by (auto simp: handleGatewayRequest_def split: option.splits prod.splits if_splits)

lemma admitted_authorized: "snd (handleGatewayRequest plugin_scopes now m client who bs) = Admitted \<Longrightarrow>
    authorizeGatewayMethod plugin_scopes m client = None"
  by (auto simp: handleGatewayRequest_def split: option.splits prod.splits if_splits)

section \<open>The handshake\<close>

datatype pairing_reason = NotPaired | RoleUpgrade | ScopeUpgrade | MetadataUpgrade

record connect_request =
  cr_deviceId :: string
  cr_publicKey :: string
  cr_displayName :: "string option"
  cr_platform :: "string option"
  cr_deviceFamily :: "string option"
  cr_clientId :: "string option"
  cr_clientMode :: "string option"
  cr_role :: gateway_role
  cr_scopes :: "string list"
  cr_remoteIp :: "string option"
  cr_isLocalClient :: bool
  cr_hasBrowserOriginHeader :: bool
  cr_isControlUi :: bool
  cr_isWebchat :: bool
  cr_skipPairing :: bool

record fresh_secrets =
  fs_requestId :: "pairing_reason \<Rightarrow> string"
  fs_token :: "pairing_reason \<Rightarrow> string"
  fs_connectToken :: string

definition shouldAllowSilentLocalPairing :: "connect_request \<Rightarrow> pairing_reason \<Rightarrow> bool" where
  "shouldAllowSilentLocalPairing c reason =
     (cr_isLocalClient c \<and> (\<not> cr_hasBrowserOriginHeader c \<or> cr_isControlUi c \<or> cr_isWebchat c) \<and>
      (reason = NotPaired \<or> reason = ScopeUpgrade))"

definition normalizeDeviceMetadataForAuth :: "string option \<Rightarrow> string" where
  "normalizeDeviceMetadataForAuth v = (case v of None \<Rightarrow> [] | Some s \<Rightarrow> js_lower (js_trim s))"

text \<open>Whether the platform or the family differs from the one that was approved.\<close>

definition metadata_mismatch :: "connect_request \<Rightarrow> paired_device \<Rightarrow> bool" where
  "metadata_mismatch c d =
     (let platform = normalizeDeviceMetadataForAuth (pd_platform d); family = normalizeDeviceMetadataForAuth (pd_deviceFamily d)
      in (platform \<noteq> [] \<and> normalizeDeviceMetadataForAuth (cr_platform c) \<noteq> platform) \<or>
         (family \<noteq> [] \<and> normalizeDeviceMetadataForAuth (cr_deviceFamily c) \<noteq> family))"

definition pairing_metadata :: "connect_request \<Rightarrow> pairing_reason \<Rightarrow> pair_request" where
  "pairing_metadata c reason =
     \<lparr>rq_deviceId = cr_deviceId c, rq_publicKey = cr_publicKey c, rq_displayName = cr_displayName c, rq_platform = cr_platform c,
      rq_deviceFamily = cr_deviceFamily c, rq_clientId = cr_clientId c, rq_clientMode = cr_clientMode c,
      rq_role = Some (role_text (cr_role c)), rq_scopes = Some (cr_scopes c), rq_remoteIp = cr_remoteIp c,
      rq_silent = Some (shouldAllowSilentLocalPairing c reason)\<rparr>"

definition access_metadata :: "connect_request \<Rightarrow> device_patch" where
  "access_metadata c =
     \<lparr>dx_publicKey = None, dx_displayName = Some (cr_displayName c), dx_platform = None, dx_deviceFamily = None,
      dx_clientId = Some (cr_clientId c), dx_clientMode = Some (cr_clientMode c), dx_role = Some (Some (role_text (cr_role c))),
      dx_scopes = Some (Some (cr_scopes c)), dx_remoteIp = Some (cr_remoteIp c), dx_tokens = None\<rparr>"

text \<open>The files afterwards, and whether the handshake may go on.\<close>

definition requirePairing :: "connect_request \<Rightarrow> fresh_secrets \<Rightarrow> int \<Rightarrow> pairing_reason \<Rightarrow> device_files \<Rightarrow> (device_files \<times> bool) result" where
  "requirePairing c fs now reason f =
     bind_r (requestDevicePairing (pairing_metadata c reason) (fs_requestId fs reason) now f)
       (\<lambda>(f1, q, created).
          if dq_silent q = Some True then Inr (fst (approveDevicePairing (dq_requestId q) (fs_token fs reason) now f1), True)
          else Inr (f1, False))"

definition paired_roles :: "paired_device \<Rightarrow> string list" where
  "paired_roles d = (case pd_roles d of Some rs \<Rightarrow> rs
     | None \<Rightarrow> (case pd_role d of Some r \<Rightarrow> if r = [] then [] else [r] | None \<Rightarrow> []))"

definition paired_scopes :: "paired_device \<Rightarrow> string list" where
  "paired_scopes d = (case pd_scopes d of Some ss \<Rightarrow> ss | None \<Rightarrow> (case pd_approvedScopes d of Some ss \<Rightarrow> ss | None \<Rightarrow> []))"

text \<open>A step that needs a new pairing when the condition holds, and goes on otherwise or when the pairing is granted.\<close>

definition pairing_gate ::
  "bool \<Rightarrow> connect_request \<Rightarrow> fresh_secrets \<Rightarrow> int \<Rightarrow> pairing_reason \<Rightarrow> device_files \<Rightarrow> (device_files \<times> bool) result" where
  "pairing_gate needed c fs now reason f = (if needed then requirePairing c fs now reason f else Inr (f, True))"

definition and_then :: "(device_files \<times> bool) result \<Rightarrow> (device_files \<Rightarrow> (device_files \<times> bool) result) \<Rightarrow> (device_files \<times> bool) result" where
  "and_then r next = bind_r r (\<lambda>(f, ok). if ok then next f else Inr (f, False))"

definition scope_upgrade :: "connect_request \<Rightarrow> paired_device \<Rightarrow> bool" where
  "scope_upgrade c d =
     (cr_scopes c \<noteq> [] \<and> (paired_scopes d = [] \<or> \<not> roleScopesAllow (role_text (cr_role c)) (cr_scopes c) (paired_scopes d)))"

definition pair_connection :: "connect_request \<Rightarrow> fresh_secrets \<Rightarrow> int \<Rightarrow> device_files \<Rightarrow> (device_files \<times> bool) result" where
  "pair_connection c fs now f =
     (case getPairedDevice (cr_deviceId c) now f of
        Some d \<Rightarrow>
          if pd_publicKey d = cr_publicKey c
          then and_then (pairing_gate (metadata_mismatch c d) c fs now MetadataUpgrade f)
                 (\<lambda>f. and_then (pairing_gate (role_text (cr_role c) \<notin> set (paired_roles d)) c fs now RoleUpgrade f)
                 (\<lambda>f. and_then (pairing_gate (scope_upgrade c d) c fs now ScopeUpgrade f)
                 (\<lambda>f. Inr (updatePairedDeviceMetadata (cr_deviceId c) (access_metadata c) now f, True))))
          else requirePairing c fs now NotPaired f
      | None \<Rightarrow> requirePairing c fs now NotPaired f)"

text \<open>The device token when the connection is accepted.\<close>

datatype handshake = Connected "device_token option" | PairingRequired

definition connect_device :: "connect_request \<Rightarrow> fresh_secrets \<Rightarrow> int \<Rightarrow> device_files \<Rightarrow> (device_files \<times> handshake) result" where
  "connect_device c fs now f =
     bind_r (if cr_skipPairing c then Inr (f, True) else pair_connection c fs now f)
       (\<lambda>(f1, ok).
          if \<not> ok then Inr (f1, PairingRequired)
          else let (f2, t) = ensureDeviceToken (cr_deviceId c) (role_text (cr_role c)) (cr_scopes c) (fs_connectToken fs) now f1
               in Inr (f2, Connected t))"

end
