(* ===== verification/DeviceAccess.thy ===== *)
theory DeviceAccess
  imports GatewayAccess
begin

text \<open>
  What pairing guarantees: a token that was revoked or replaced never works again, and what a device may do
  at the gateway was approved for it; with some ways in which the code grants more than it shows or checks.
\<close>

section \<open>Runs of operations\<close>

datatype device_op =
    AskPairing pair_request string int
  | Approve string string int
  | Reject string int
  | RemoveDevice string int
  | ClearDevice string int
  | Metadata string device_patch int
  | Verify string string string "string list" int
  | Ensure string string "string list" string int
  | Rotate string string "string list option" string int
  | Revoke string string int
  | Connect connect_request fresh_secrets int

definition files_or :: "device_files \<Rightarrow> ('a \<Rightarrow> device_files) \<Rightarrow> 'a result \<Rightarrow> device_files" where
  "files_or f g r = (case r of Inl _ \<Rightarrow> f | Inr x \<Rightarrow> g x)"

fun device_step :: "device_op \<Rightarrow> device_files \<Rightarrow> device_files" where
  "device_step (AskPairing q i now) f = files_or f fst (requestDevicePairing q i now f)"
| "device_step (Approve i t now) f = fst (approveDevicePairing i t now f)"
| "device_step (Reject i now) f = fst (rejectDevicePairing i now f)"
| "device_step (RemoveDevice i now) f = fst (removePairedDevice i now f)"
| "device_step (ClearDevice i now) f = fst (clearDevicePairing i now f)"
| "device_step (Metadata i x now) f = updatePairedDeviceMetadata i x now f"
| "device_step (Verify i t r ss now) f = fst (verifyDeviceToken i t r ss now f)"
| "device_step (Ensure i r ss t now) f = fst (ensureDeviceToken i r ss t now f)"
| "device_step (Rotate i r ss t now) f = fst (rotateDeviceToken i r ss t now f)"
| "device_step (Revoke i r now) f = fst (revokeDeviceToken i r now f)"
| "device_step (Connect c fs now) f = files_or f fst (connect_device c fs now f)"

section \<open>Files\<close>

definition paired_list :: "device_files \<Rightarrow> (string \<times> paired_device) list" where
  "paired_list f = (case df_paired f of Some p \<Rightarrow> p | None \<Rightarrow> [])"

definition pending_list :: "device_files \<Rightarrow> (string \<times> device_request) list" where
  "pending_list f = (case df_pending f of Some p \<Rightarrow> p | None \<Rightarrow> [])"

lemma load_paired [simp]: "ds_paired (loadDeviceState now f) = paired_list f"
  by (simp add: loadDeviceState_def paired_list_def)

lemma persist_lists [simp]: "paired_list (persistDeviceState s) = ds_paired s" "pending_list (persistDeviceState s) = ds_pending s"
  by (simp_all add: persistDeviceState_def paired_list_def pending_list_def)

lemma put_device_paired [simp]: "map_of (paired_list (put_device k d (loadDeviceState now f))) = (map_of (paired_list f))(k \<mapsto> d)"
  by (simp add: put_device_def update_conv')

lemma drop_device_paired [simp]: "map_of (paired_list (drop_device k (loadDeviceState now f))) = (map_of (paired_list f))(k := None)"
  by (simp add: drop_device_def delete_conv')

lemma paired_at_eq: "paired_at now f i = map_of (paired_list f) (js_trim i)"
  by (simp add: paired_at_def normalizeDeviceId_def)

text \<open>A property of the device kept at a key, if there is one.\<close>

definition at_key :: "(paired_device \<Rightarrow> bool) \<Rightarrow> string \<Rightarrow> device_files \<Rightarrow> bool" where
  "at_key Q k f = (case map_of (paired_list f) k of None \<Rightarrow> True | Some d \<Rightarrow> Q d)"

text \<open>A device is kept under its id; the keys with blanks around them, which no lookup finds, are not looked at.\<close>

definition keyed :: "device_files \<Rightarrow> bool" where
  "keyed f = (\<forall>k d. map_of (paired_list f) k = Some d \<and> js_trim k = k \<longrightarrow> pd_deviceId d = k)"

lemma keyed_at: "keyed f \<Longrightarrow> paired_at now f i = Some d \<Longrightarrow> pd_deviceId d = js_trim i"
  by (simp add: keyed_def paired_at_eq)

section \<open>Dead tokens\<close>

text \<open>The token is not one with which the device could sign in under the role.\<close>

definition dead_token :: "string \<Rightarrow> string \<Rightarrow> paired_device \<Rightarrow> bool" where
  "dead_token role t d = (case map_of (token_map (Some d)) role of None \<Rightarrow> True | Some e \<Rightarrow> at_ms (dt_revokedAtMs e) \<or> dt_token e \<noteq> t)"

definition dead :: "string \<Rightarrow> string \<Rightarrow> string \<Rightarrow> device_files \<Rightarrow> bool" where
  "dead k role t f = (keyed f \<and> at_key (dead_token role t) k f)"

lemma token_map_set [simp]: "token_map (Some (d\<lparr>pd_tokens := Some ts\<rparr>)) = ts"
  by (simp add: token_map_def)

lemma dead_token_update:
  "dead_token role t (d\<lparr>pd_tokens := Some (AList.update r e (token_map (Some d)))\<rparr>) =
     (if r = role then at_ms (dt_revokedAtMs e) \<or> dt_token e \<noteq> t else dead_token role t d)"
  by (simp add: dead_token_def update_conv')

text \<open>Keeping a device under its id keeps the files in order; what holds of it holds at its key.\<close>

lemma keyed_put: "keyed f \<Longrightarrow> pd_deviceId d = k \<Longrightarrow> keyed (put_device k d (loadDeviceState now f))"
  by (simp add: keyed_def)

lemma at_key_put: "at_key Q k f \<Longrightarrow> (k' = k \<Longrightarrow> Q d) \<Longrightarrow> at_key Q k (put_device k' d (loadDeviceState now f))"
  by (simp add: at_key_def)

lemma dead_put_token:
  assumes "dead k role t f" "paired_at now f i = Some d" "r = role \<Longrightarrow> js_trim i = k \<Longrightarrow> at_ms (dt_revokedAtMs e) \<or> dt_token e \<noteq> t"
  shows "dead k role t (put_token d r e now f)"
proof -
  have id: "pd_deviceId d = js_trim i" using assms(1,2) keyed_at by (auto simp: dead_def)
  have "js_trim i = k \<Longrightarrow> dead_token role t d" using assms(1,2) by (simp add: dead_def at_key_def paired_at_eq)
  then show ?thesis using assms id unfolding dead_def put_token_def
    by (auto intro!: keyed_put at_key_put simp: dead_token_update)
qed

lemma dead_ensure:
  assumes "dead k role t f" "t \<noteq> new"
  shows "dead k role t (fst (ensureDeviceToken i r ss new now f))"
  using assms
  by (auto simp: ensureDeviceToken_def Let_def buildDeviceAuthToken_def intro!: dead_put_token split: option.splits)

lemma dead_rotate:
  assumes "dead k role t f" "t \<noteq> new"
  shows "dead k role t (fst (rotateDeviceToken i r ss new now f))"
  using assms
  by (auto simp: rotateDeviceToken_def Let_def buildDeviceAuthToken_def intro!: dead_put_token split: option.splits)

lemma dead_revoke:
  assumes "dead k role t f" "now \<noteq> 0"
  shows "dead k role t (fst (revokeDeviceToken i r now f))"
  using assms by (auto simp: revokeDeviceToken_def Let_def at_ms_def intro!: dead_put_token split: option.splits)

lemma dead_verify:
  assumes "dead k role t f"
  shows "dead k role t (fst (verifyDeviceToken i tk r ss now f))"
proof (cases "snd (verifyDeviceToken i tk r ss now f) = TokenOk")
  case True
  then obtain d rr e where d: "paired_at now f i = Some d" "normalizeDeviceRole (Some r) = Some rr" "map_of (token_map (Some d)) rr = Some e"
    and out: "fst (verifyDeviceToken i tk r ss now f) = put_token d rr (e\<lparr>dt_lastUsedAtMs := Some now\<rparr>) now f"
    by (auto simp: verifyDeviceToken_def put_token_def split: option.splits if_splits)
  show ?thesis unfolding out
  proof (rule dead_put_token [OF assms d(1)])
    assume "rr = role" "js_trim i = k"
    then show "at_ms (dt_revokedAtMs (e\<lparr>dt_lastUsedAtMs := Some now\<rparr>)) \<or> dt_token (e\<lparr>dt_lastUsedAtMs := Some now\<rparr>) \<noteq> t"
      using assms d by (simp add: dead_def at_key_def paired_at_eq dead_token_def)
  qed
next
  case False
  then have "fst (verifyDeviceToken i tk r ss now f) = f"
    by (auto simp: verifyDeviceToken_def split: option.splits if_splits)
  with assms show ?thesis by simp
qed

lemma same_paired: "paired_list f' = paired_list f \<Longrightarrow> dead k role t f' = dead k role t f"
  by (simp add: dead_def keyed_def at_key_def)

lemma request_paired: "requestDevicePairing q i now f = Inr (f', x) \<Longrightarrow> paired_list f' = paired_list f"
  by (auto simp: requestDevicePairing_def Let_def split: if_splits option.splits)

lemma reject_paired: "paired_list (fst (rejectDevicePairing i now f)) = paired_list f"
  by (auto simp: rejectDevicePairing_def Let_def split: option.splits)

lemma dead_drop: "dead k role t f \<Longrightarrow> dead k role t (drop_device i (loadDeviceState now f))"
  by (simp add: dead_def keyed_def at_key_def)

lemma dead_remove: "dead k role t f \<Longrightarrow> dead k role t (fst (removePairedDevice i now f))"
  by (simp add: removePairedDevice_def Let_def dead_drop)

lemma dead_clear: "dead k role t f \<Longrightarrow> dead k role t (fst (clearDevicePairing i now f))"
  by (simp add: clearDevicePairing_def Let_def dead_drop)

lemma dead_metadata:
  assumes "dead k role t f" "js_trim k = k" "dx_tokens x = None"
  shows "dead k role t (updatePairedDeviceMetadata i x now f)"
proof (cases "paired_at now f i")
  case (Some d)
  have id: "pd_deviceId d = js_trim i" using assms(1) Some keyed_at by (auto simp: dead_def)
  have tok: "dead_token role t (patched_device d x) = dead_token role t d"
    using assms(3) by (simp add: dead_token_def token_map_def patched_device_def assign_field_def)
  have "keyed (put_device i (patched_device d x) (loadDeviceState now f))"
    using assms(1) id by (auto simp: dead_def keyed_def patched_device_def)
  moreover have "at_key (dead_token role t) k (put_device i (patched_device d x) (loadDeviceState now f))"
    using assms(1,2) Some tok by (intro at_key_put) (auto simp: dead_def at_key_def paired_at_eq)
  ultimately show ?thesis using Some by (simp add: updatePairedDeviceMetadata_def dead_def)
qed (use assms in \<open>simp add: updatePairedDeviceMetadata_def\<close>)

lemma approve_paired:
  "map_of (paired_list (fst (approveDevicePairing i t now f))) =
     (case map_of (ds_pending (loadDeviceState now f)) i of None \<Rightarrow> map_of (paired_list f)
      | Some p \<Rightarrow> (map_of (paired_list f))(dq_deviceId p \<mapsto> approved_device p (map_of (paired_list f) (dq_deviceId p)) t now))"
proof -
  have "pd_deviceId (approved_device p d t now) = dq_deviceId p" for p d by (simp add: approved_device_def Let_def)
  then show ?thesis by (simp add: approveDevicePairing_def Let_def update_conv' split: option.splits)
qed

lemma dead_token_approved:
  assumes "t \<noteq> new" "\<And>d. old = Some d \<Longrightarrow> dead_token role t d"
  shows "dead_token role t (approved_device p old new now)"
  using assms
  by (cases old) (auto simp: dead_token_def approved_device_def token_map_def Let_def update_conv' approved_token_def split: option.splits)

lemma dead_approve:
  assumes "dead k role t f" "t \<noteq> new"
  shows "dead k role t (fst (approveDevicePairing i new now f))"
proof (cases "map_of (ds_pending (loadDeviceState now f)) i")
  case (Some p)
  have "pd_deviceId (approved_device p d new now) = dq_deviceId p" for d by (simp add: approved_device_def Let_def)
  moreover have "dq_deviceId p = k \<Longrightarrow> map_of (paired_list f) k = Some d \<Longrightarrow> dead_token role t d" for d
    using assms(1) by (simp add: dead_def at_key_def)
  ultimately show ?thesis
    using assms dead_token_approved [OF assms(2)] by (auto simp: dead_def keyed_def at_key_def approve_paired Some)
qed (use assms in \<open>simp add: dead_def keyed_def at_key_def approve_paired\<close>)

section \<open>The handshake\<close>

text \<open>A request that may not be granted silently is not, and leaves the paired devices alone.\<close>

lemma requirePairing_refused:
  assumes "requirePairing c fs now reason f = Inr (f', False)"
  shows "paired_list f' = paired_list f"
  using assms request_paired by (fastforce simp: requirePairing_def bind_r_eq_Inr split: if_splits)

lemma request_silent: "requestDevicePairing q i now f = Inr (f', p, created) \<Longrightarrow> dq_silent p = Some True \<Longrightarrow> rq_silent q = Some True"
  by (auto simp: requestDevicePairing_def Let_def mergePendingDevicePairingRequest_def new_device_request_def split: if_splits option.splits)

lemma requirePairing_granted:
  assumes "requirePairing c fs now reason f = Inr (f', True)"
  shows "shouldAllowSilentLocalPairing c reason"
  using assms by (auto simp: requirePairing_def bind_r_eq_Inr pairing_metadata_def split: if_splits dest!: request_silent)

lemma never_silent: "requirePairing c fs now MetadataUpgrade f \<noteq> Inr (f', True)" "requirePairing c fs now RoleUpgrade f \<noteq> Inr (f', True)"
  using requirePairing_granted by (fastforce simp: shouldAllowSilentLocalPairing_def)+

text \<open>The ways a connection is paired: anew, not at all, or as the known device within its scopes or with new ones.\<close>

lemma pair_connection_cases:
  assumes "pair_connection c fs now f = Inr (f', ok)"
  obtains "requirePairing c fs now NotPaired f = Inr (f', ok)"
  | "\<not> ok" "paired_list f' = paired_list f"
  | d f3 where "ok" "getPairedDevice (cr_deviceId c) now f = Some d" "pd_publicKey d = cr_publicKey c"
      "role_text (cr_role c) \<in> set (paired_roles d)" "\<not> metadata_mismatch c d"
      "if scope_upgrade c d then requirePairing c fs now ScopeUpgrade f = Inr (f3, True) else f3 = f"
      "f' = updatePairedDeviceMetadata (cr_deviceId c) (access_metadata c) now f3"
proof (cases "\<exists>d. getPairedDevice (cr_deviceId c) now f = Some d \<and> pd_publicKey d = cr_publicKey c")
  case False
  with assms that(1) show thesis by (auto simp: pair_connection_def split: option.splits if_splits)
next
  case True
  then obtain d where d: "getPairedDevice (cr_deviceId c) now f = Some d" "pd_publicKey d = cr_publicKey c" by blast
  consider (refused) reason where "requirePairing c fs now reason f = Inr (f', False)" "\<not> ok"
    | (through) f3 where "role_text (cr_role c) \<in> set (paired_roles d)" "\<not> metadata_mismatch c d"
      "if scope_upgrade c d then requirePairing c fs now ScopeUpgrade f = Inr (f3, True) else f3 = f"
      "f' = updatePairedDeviceMetadata (cr_deviceId c) (access_metadata c) now f3" ok
    using assms d never_silent
    by (auto simp: pair_connection_def and_then_def pairing_gate_def bind_r_eq_Inr split: if_splits)
  then show thesis
  proof cases
    case refused
    with that(2) requirePairing_refused show thesis by blast
  next
    case through
    with that(3) d show thesis by blast
  qed
qed

lemma dead_requirePairing:
  assumes "dead k role t f" "t \<notin> range (fs_token fs)" "requirePairing c fs now reason f = Inr (f', ok)"
  shows "dead k role t f'"
proof -
  obtain f1 q cr where q: "requestDevicePairing (pairing_metadata c reason) (fs_requestId fs reason) now f = Inr (f1, q, cr)"
    using assms(3) by (auto simp: requirePairing_def bind_r_eq_Inr)
  have "dead k role t f1" using assms(1) request_paired [OF q] same_paired by blast
  moreover have "t \<noteq> fs_token fs reason" using assms(2) by auto
  ultimately show ?thesis using assms(3) q by (auto simp: requirePairing_def intro!: dead_approve split: if_splits)
qed

lemma dead_pair:
  assumes "dead k role t f" "js_trim k = k" "t \<notin> range (fs_token fs)" "pair_connection c fs now f = Inr (f1, ok)"
  shows "dead k role t f1"
  using assms(4)
proof (cases rule: pair_connection_cases)
  case 1
  with assms(1,3) show ?thesis by (rule dead_requirePairing)
next
  case 2
  with assms(1) same_paired show ?thesis by blast
next
  case (3 d f3)
  then have "dead k role t f3" using assms(1,3) dead_requirePairing by (auto split: if_splits)
  then show ?thesis using assms(2) unfolding 3(7) by (rule dead_metadata) (simp add: access_metadata_def)
qed

text \<open>The handshake, then the token.\<close>

lemma connect_parts:
  assumes "connect_device c fs now f = Inr (f', h)"
  obtains f1 ok where "(if cr_skipPairing c then Inr (f, True) else pair_connection c fs now f) = Inr (f1, ok)"
    "f' = (if ok then fst (ensureDeviceToken (cr_deviceId c) (role_text (cr_role c)) (cr_scopes c) (fs_connectToken fs) now f1) else f1)"
    "h = (if ok then Connected (snd (ensureDeviceToken (cr_deviceId c) (role_text (cr_role c)) (cr_scopes c) (fs_connectToken fs) now f1))
          else PairingRequired)"
proof -
  obtain f1 ok where r: "(if cr_skipPairing c then Inr (f, True) else pair_connection c fs now f) = Inr (f1, ok)"
    using assms by (cases "if cr_skipPairing c then Inr (f, True) else pair_connection c fs now f") (auto simp: connect_device_def simp del: split_paired_All)
  show thesis using assms r by (intro that [OF r]) (auto simp: connect_device_def Let_def split: prod.splits if_splits)
qed

lemma dead_connect:
  assumes "dead k role t f" "js_trim k = k" "t \<notin> range (fs_token fs)" "t \<noteq> fs_connectToken fs" "connect_device c fs now f = Inr (f', h)"
  shows "dead k role t f'"
proof -
  obtain f1 ok where f1: "(if cr_skipPairing c then Inr (f, True) else pair_connection c fs now f) = Inr (f1, ok)"
    and f': "f' = (if ok then fst (ensureDeviceToken (cr_deviceId c) (role_text (cr_role c)) (cr_scopes c) (fs_connectToken fs) now f1) else f1)"
    by (rule connect_parts [OF assms(5)])
  have "dead k role t f1" using f1 assms(1) dead_pair [OF assms(1,2,3)] by (auto split: if_splits)
  then show ?thesis using assms(4) dead_ensure by (simp add: f')
qed

section \<open>Revoked tokens\<close>

text \<open>The tokens an operation may make, and an operation that leaves tokens to the others.\<close>

fun minted :: "device_op \<Rightarrow> string set" where
  "minted (Approve i t now) = {t}"
| "minted (Ensure i r ss t now) = {t}"
| "minted (Rotate i r ss t now) = {t}"
| "minted (Connect c fs now) = insert (fs_connectToken fs) (range (fs_token fs))"
| "minted op = {}"

fun plain_op :: "device_op \<Rightarrow> bool" where
  "plain_op (Metadata i x now) = (dx_tokens x = None)"
| "plain_op (Revoke i r now) = (now \<noteq> 0)"
| "plain_op op = True"

lemma dead_step: "plain_op op \<Longrightarrow> t \<notin> minted op \<Longrightarrow> js_trim k = k \<Longrightarrow> dead k role t f \<Longrightarrow> dead k role t (device_step op f)"
proof (induction op)
  case (AskPairing q i now)
  have "paired_list (device_step (AskPairing q i now) f) = paired_list f"
    by (cases "requestDevicePairing q i now f") (auto simp: files_or_def dest: request_paired)
  with AskPairing show ?case using same_paired by blast
next
  case (Reject i now)
  then show ?case using same_paired [OF reject_paired] by simp
next
  case (Connect c fs now)
  then show ?case using dead_connect
    by (cases "connect_device c fs now f") (auto simp: files_or_def)
qed (simp_all add: dead_approve dead_remove dead_clear dead_metadata dead_verify dead_ensure dead_rotate dead_revoke)

lemma dead_run:
  "\<forall>op \<in> set ops. plain_op op \<and> t \<notin> minted op \<Longrightarrow> js_trim k = k \<Longrightarrow> dead k role t f \<Longrightarrow> dead k role t (fold device_step ops f)"
  by (induction ops arbitrary: f) (simp_all add: dead_step)

lemma dead_refused: "dead (js_trim i) role t f \<Longrightarrow> normalizeDeviceRole (Some r) = Some role \<Longrightarrow> snd (verifyDeviceToken i t r ss now f) \<noteq> TokenOk"
  by (auto simp: verifyDeviceToken_def dead_def at_key_def dead_token_def paired_at_eq split: option.splits if_splits)

lemma revoke_dead:
  assumes "keyed f" "revokeDeviceToken i r now f = (f', Some e)" "now \<noteq> 0" "normalizeDeviceRole (Some r) = Some role"
  shows "dead (js_trim i) role t f'"
proof -
  obtain d e0 where d: "paired_at now f i = Some d" "f' = put_token d role (e0\<lparr>dt_revokedAtMs := Some now\<rparr>) now f"
    using assms(2,4) by (auto simp: revokeDeviceToken_def Let_def split: option.splits)
  have id: "pd_deviceId d = js_trim i" using keyed_at [OF assms(1) d(1)] .
  let ?d = "d\<lparr>pd_tokens := Some (AList.update role (e0\<lparr>dt_revokedAtMs := Some now\<rparr>) (token_map (Some d)))\<rparr>"
  have "dead_token role t ?d" using assms(3) by (simp add: dead_token_update at_ms_def)
  moreover have "keyed (put_device (js_trim i) ?d (loadDeviceState now f))" using assms(1) id by (intro keyed_put) simp_all
  ultimately show ?thesis by (simp add: d(2) put_token_def id dead_def at_key_def)
qed

text \<open>
  C37: a revoked device token never works again. After a token of a device has been revoked, whatever operations follow,
  new requests, approvals, handshakes, rotations and removals included, the token that was revoked is refused for that device and
  role at any time, as long as the random numbers do not repeat it.
\<close>

theorem device_revoked_token_refused:
  assumes "keyed f" "revokeDeviceToken i r now f = (f', Some e)" "now \<noteq> 0"
    and "\<forall>op \<in> set ops. plain_op op \<and> dt_token e \<notin> minted op"
    and "js_trim i' = js_trim i" "js_trim r' = js_trim r"
  shows "snd (verifyDeviceToken i' (dt_token e) r' ss later (fold device_step ops f')) \<noteq> TokenOk"
proof -
  obtain role where role: "normalizeDeviceRole (Some r) = Some role"
    using assms(2) by (auto simp: revokeDeviceToken_def split: option.splits)
  have "dead (js_trim i) role (dt_token e) (fold device_step ops f')"
    by (rule dead_run [OF assms(4) _ revoke_dead [OF assms(1,2,3) role]]) simp
  moreover have "normalizeDeviceRole (Some r') = Some role" using role assms(6) by (simp add: normalizeDeviceRole_def trim_or_undef_def)
  ultimately show ?thesis using assms(5) dead_refused by metis
qed

section \<open>What was approved\<close>

definition approved_of :: "paired_device \<Rightarrow> string set" where
  "approved_of d = set (case pd_approvedScopes d of Some ss \<Rightarrow> ss | None \<Rightarrow> [])"

definition plain_text :: "string \<Rightarrow> bool" where
  "plain_text s = (s \<noteq> [] \<and> js_trim s = s)"

text \<open>Everything the device holds is covered by what was approved for it.\<close>

definition device_ok :: "paired_device \<Rightarrow> bool" where
  "device_ok d =
     ((\<forall>s \<in> approved_of d. plain_text s) \<and> (\<forall>s \<in> set (paired_scopes d). plain_text s \<and> operatorScopeSatisfied s (approved_of d)) \<and>
      (\<forall>r e. map_of (token_map (Some d)) r = Some e \<longrightarrow> (\<forall>s \<in> set (dt_scopes e). plain_text s \<and> operatorScopeSatisfied s (approved_of d))))"

definition scopes_ok :: "device_files \<Rightarrow> bool" where
  "scopes_ok f = (\<forall>k d. map_of (paired_list f) k = Some d \<longrightarrow> device_ok d)"

subsection \<open>Scopes\<close>

lemma satisfied_member: "s \<in> A \<Longrightarrow> operatorScopeSatisfied s A"
  by (auto simp: operatorScopeSatisfied_def)

lemma satisfied_self: "operatorScopeSatisfied s {s}"
  by (rule satisfied_member) simp

lemma satisfied_mono: "operatorScopeSatisfied s A \<Longrightarrow> A \<subseteq> B \<Longrightarrow> operatorScopeSatisfied s B"
  by (auto simp: operatorScopeSatisfied_def split: if_splits)

lemma scope_prefixes: "js_starts_with ADMIN_SCOPE ''operator.''" "js_starts_with READ_SCOPE ''operator.''"
  "js_starts_with WRITE_SCOPE ''operator.''" "js_starts_with APPROVALS_SCOPE ''operator.''" "js_starts_with PAIRING_SCOPE ''operator.''"
  "ADMIN_SCOPE \<noteq> READ_SCOPE" "ADMIN_SCOPE \<noteq> WRITE_SCOPE" "READ_SCOPE \<noteq> WRITE_SCOPE"
  by (simp_all add: js_starts_with_def ADMIN_SCOPE_def READ_SCOPE_def WRITE_SCOPE_def APPROVALS_SCOPE_def PAIRING_SCOPE_def)

text \<open>What is satisfied by scopes that are satisfied is satisfied.\<close>

lemma satisfied_trans:
  assumes "operatorScopeSatisfied s B" "\<And>b. b \<in> B \<Longrightarrow> operatorScopeSatisfied b A"
  shows "operatorScopeSatisfied s A"
  using assms(1) assms(2) [of ADMIN_SCOPE] assms(2) [of READ_SCOPE] assms(2) [of WRITE_SCOPE] assms(2) [of s] scope_prefixes
  unfolding operatorScopeSatisfied_def by (auto split: if_splits)

lemma set_kept_texts: "set (case if distinct_texts xs = [] then None else Some (distinct_texts xs) of Some ss \<Rightarrow> ss | None \<Rightarrow> []) = set xs"
  using set_distinct_texts [of xs] by (cases "distinct_texts xs = []") simp_all

lemma set_texts: "set (case merge_texts items of Some ss \<Rightarrow> ss | None \<Rightarrow> []) =
    {t. t \<noteq> [] \<and> (\<exists>xs. Some xs \<in> set items \<and> t \<in> js_trim ` set xs)}"
proof -
  have "set (case merge_texts items of Some ss \<Rightarrow> ss | None \<Rightarrow> []) =
     set (filter (\<lambda>t. t \<noteq> []) (map js_trim (concat (map (\<lambda>i. case i of Some xs \<Rightarrow> xs | None \<Rightarrow> []) items))))"
    unfolding merge_texts_def Let_def by (rule set_kept_texts)
  then show ?thesis by (force split: option.splits)
qed

lemma set_normalized: "set (normalizeDeviceAuthScopes x) = {t. t \<noteq> [] \<and> (\<exists>xs. x = Some xs \<and> t \<in> js_trim ` set xs)}"
  by (auto simp: normalizeDeviceAuthScopes_def split: option.splits)

lemma set_scope_list: "set (normalizeScopeList xs) = {t. t \<noteq> [] \<and> t \<in> js_trim ` set xs}"
  by (auto simp: normalizeScopeList_def)

lemma plain_trimmed: "t \<noteq> [] \<Longrightarrow> t = js_trim s \<Longrightarrow> plain_text t"
  by (simp add: plain_text_def)

lemma set_plain: "\<forall>s \<in> set xs. plain_text s \<Longrightarrow> {t. t \<noteq> [] \<and> t \<in> js_trim ` set xs} = set xs"
  by (force simp: plain_text_def)

text \<open>A role's check: every scope asked for is covered by those allowed.\<close>

lemma roleScopesAllow_satisfied:
  assumes "roleScopesAllow role xs ys" "s \<in> set (normalizeScopeList xs)" "\<forall>y \<in> set ys. plain_text y"
  shows "operatorScopeSatisfied s (set ys)"
proof -
  have "set (normalizeScopeList ys) = set ys" using assms(3) by (simp add: set_scope_list set_plain)
  with assms(1,2) show ?thesis
    by (auto simp: roleScopesAllow_def Let_def list_all_iff satisfied_member split: if_splits)
qed

lemma implication_satisfied: "i \<in> set (DEVICE_SCOPE_IMPLICATIONS s) \<Longrightarrow> operatorScopeSatisfied i {s}"
  using scope_prefixes by (auto simp: DEVICE_SCOPE_IMPLICATIONS_def operatorScopeSatisfied_def split: if_splits)

lemma expand_loop_satisfied:
  "\<forall>s \<in> set expanded \<union> set queue. operatorScopeSatisfied s A \<Longrightarrow>
   set expanded \<subseteq> set (expand_loop expanded queue) \<and> (\<forall>s \<in> set (expand_loop expanded queue). operatorScopeSatisfied s A)"
proof (induction expanded queue rule: expand_loop.induct)
  case (1 expanded queue)
  show ?case
  proof (cases "queue = []")
    case True
    with 1 show ?thesis by (subst (1 2) expand_loop.simps) simp
  next
    case False
    let ?i = "filter (\<lambda>i. i \<notin> set expanded) (if last queue = [] then [] else DEVICE_SCOPE_IMPLICATIONS (last queue))"
    have last: "operatorScopeSatisfied (last queue) A" using 1(2) False by simp
    have "\<forall>s \<in> set ?i. operatorScopeSatisfied s A"
    proof
      fix i assume "i \<in> set ?i"
      then have "operatorScopeSatisfied i {last queue}" by (intro implication_satisfied) (auto split: if_splits)
      then show "operatorScopeSatisfied i A" by (rule satisfied_trans) (simp add: last)
    qed
    moreover have "set (butlast queue) \<subseteq> set queue" by (auto dest: in_set_butlastD)
    ultimately have "\<forall>s \<in> set (expanded @ ?i) \<union> set (butlast queue @ ?i). operatorScopeSatisfied s A" using 1(2) by auto
    from 1(1) [OF False refl refl this] show ?thesis using False by (subst (1 2) expand_loop.simps) (simp add: Let_def)
  qed
qed

lemma expand_satisfied: "s \<in> set (expandScopeImplications xs) \<Longrightarrow> operatorScopeSatisfied s (set xs)"
  using expand_loop_satisfied [of "distinct_texts xs" xs "set xs"] satisfied_member by (auto simp: expandScopeImplications_def)

lemma expand_includes: "set xs \<subseteq> set (expandScopeImplications xs)"
  using expand_loop_satisfied [of "distinct_texts xs" xs "set xs"] satisfied_member by (auto simp: expandScopeImplications_def)

lemma implications_satisfied: "scopesAllowWithImplications xs ys \<Longrightarrow> s \<in> set xs \<Longrightarrow> operatorScopeSatisfied s (set ys)"
  using expand_includes [of xs] expand_satisfied [of s ys]
  by (fastforce simp: scopesAllowWithImplications_def scopesAllow_def list_all_iff split: if_splits)

subsection \<open>Operations keep what was approved\<close>

lemma ok_put: "scopes_ok f \<Longrightarrow> device_ok d \<Longrightarrow> scopes_ok (put_device k d (loadDeviceState now f))"
  by (simp add: scopes_ok_def)

lemma ok_drop: "scopes_ok f \<Longrightarrow> scopes_ok (drop_device k (loadDeviceState now f))"
  by (simp add: scopes_ok_def)

lemma ok_same: "paired_list f' = paired_list f \<Longrightarrow> scopes_ok f' = scopes_ok f"
  by (simp add: scopes_ok_def)

lemma ok_at: "scopes_ok f \<Longrightarrow> paired_at now f i = Some d \<Longrightarrow> device_ok d"
  by (simp add: scopes_ok_def paired_at_eq)

lemma approved_tokens [simp]: "approved_of (d\<lparr>pd_tokens := ts\<rparr>) = approved_of d" "paired_scopes (d\<lparr>pd_tokens := ts\<rparr>) = paired_scopes d"
  by (simp add: approved_of_def) (cases "pd_scopes d"; simp add: paired_scopes_def)

definition token_ok :: "paired_device \<Rightarrow> device_token \<Rightarrow> bool" where
  "token_ok d e = (\<forall>s \<in> set (dt_scopes e). plain_text s \<and> operatorScopeSatisfied s (approved_of d))"

lemma device_ok_token: "device_ok d \<Longrightarrow> map_of (token_map (Some d)) r = Some e \<Longrightarrow> token_ok d e"
  by (auto simp: device_ok_def token_ok_def)

lemma ok_put_token: "scopes_ok f \<Longrightarrow> paired_at now f i = Some d \<Longrightarrow> token_ok d e \<Longrightarrow> scopes_ok (put_token d r e now f)"
  unfolding put_token_def
  by (rule ok_put) (auto dest!: ok_at simp: device_ok_def token_ok_def update_conv' split: if_splits)

lemma plain_normalized: "\<forall>s \<in> set (normalizeDeviceAuthScopes x). plain_text s"
  by (auto simp: set_normalized plain_text_def)

lemma normalized_plain: "\<forall>s \<in> set xs. plain_text s \<Longrightarrow> set (normalizeDeviceAuthScopes (Some xs)) = set xs"
  by (simp add: set_normalized set_plain)

lemma ok_revoke: "scopes_ok f \<Longrightarrow> scopes_ok (fst (revokeDeviceToken i r now f))"
  by (auto simp: revokeDeviceToken_def Let_def split: option.splits intro!: ok_put_token dest: ok_at [THEN device_ok_token])
    (auto simp: token_ok_def dest!: ok_at device_ok_token)

lemma ok_verify: "scopes_ok f \<Longrightarrow> scopes_ok (fst (verifyDeviceToken i tk r ss now f))"
proof (cases "snd (verifyDeviceToken i tk r ss now f) = TokenOk")
  case True
  assume ok: "scopes_ok f"
  from True obtain d rr e where d: "paired_at now f i = Some d" "map_of (token_map (Some d)) rr = Some e"
    and out: "fst (verifyDeviceToken i tk r ss now f) = put_token d rr (e\<lparr>dt_lastUsedAtMs := Some now\<rparr>) now f"
    by (auto simp: verifyDeviceToken_def put_token_def split: option.splits if_splits)
  have "token_ok d e" using device_ok_token [OF ok_at [OF ok d(1)] d(2)] .
  then show ?thesis unfolding out by (intro ok_put_token [OF ok d(1)]) (simp add: token_ok_def)
next
  case False
  then have "fst (verifyDeviceToken i tk r ss now f) = f"
    by (auto simp: verifyDeviceToken_def split: option.splits if_splits)
  then show "scopes_ok f \<Longrightarrow> ?thesis" by simp
qed

text \<open>Without approved scopes a device holds none.\<close>

lemma nothing_approved: "device_ok d \<Longrightarrow> pd_approvedScopes d = None \<Longrightarrow>
    paired_scopes d = [] \<and> (\<forall>r e. map_of (token_map (Some d)) r = Some e \<longrightarrow> dt_scopes e = [])"
proof -
  assume "device_ok d" "pd_approvedScopes d = None"
  moreover from this have "approved_of d = {}" by (simp add: approved_of_def)
  ultimately have none: "s \<notin> set (paired_scopes d)" "map_of (token_map (Some d)) r = Some e \<Longrightarrow> s \<notin> set (dt_scopes e)" for s r e
    by (auto simp: device_ok_def operatorScopeSatisfied_def split: if_splits)
  have "dt_scopes e = []" if "map_of (token_map (Some d)) r = Some e" for r e
    using none(2) [OF that] by (cases "dt_scopes e") auto
  with none(1) show ?thesis by (cases "paired_scopes d") auto
qed

lemma ok_rotate: 
  assumes ok: "scopes_ok f"
  shows "scopes_ok (fst (rotateDeviceToken i r ss t now f))"
proof (cases "\<exists>d role. paired_at now f i = Some d \<and> normalizeDeviceRole (Some r) = Some role")
  case True
  then obtain d role where d: "paired_at now f i = Some d" "normalizeDeviceRole (Some r) = Some role" by blast
  let ?old = "map_of (token_map (Some d)) role"
  let ?asked = "normalizeDeviceAuthScopes (or_else ss (or_else (map_option dt_scopes ?old) (pd_scopes d)))"
  let ?had = "normalizeDeviceAuthScopes (or_else (pd_approvedScopes d) (or_else (pd_scopes d) (map_option dt_scopes ?old)))"
  have dok: "device_ok d" using ok_at [OF ok d(1)] .
  have had: "set ?had \<subseteq> approved_of d"
  proof (cases "pd_approvedScopes d")
    case None
    with nothing_approved [OF dok] have "paired_scopes d = []" "?old = Some e \<Longrightarrow> dt_scopes e = []" for e by auto
    then have "?had = []" using None
      by (cases ?old; cases "pd_scopes d") (auto simp: or_else_def normalizeDeviceAuthScopes_def paired_scopes_def distinct_texts_def)
    then show ?thesis by simp
  next
    case (Some ss')
    then show ?thesis using dok normalized_plain [of ss'] by (simp add: or_else_def approved_of_def device_ok_def)
  qed
  show ?thesis
  proof (cases "scopesAllowWithImplications ?asked ?had")
    case True
    have "token_ok d (buildDeviceAuthToken role ?asked ?old now (Some now) t)"
      using plain_normalized implications_satisfied [OF True] satisfied_mono [OF _ had] by (auto simp: token_ok_def buildDeviceAuthToken_def)
    with ok_put_token [OF ok d(1)] d True show ?thesis by (simp add: rotateDeviceToken_def Let_def)
  next
    case False
    with ok d show ?thesis by (simp add: rotateDeviceToken_def Let_def)
  qed
qed (use ok in \<open>auto simp: rotateDeviceToken_def split: option.splits\<close>)

lemma approved_of_approved:
  "approved_of (approved_device p old t now) =
     {s. s \<noteq> [] \<and> (\<exists>xs. Some xs \<in> {or_else (Option.bind old pd_approvedScopes) (Option.bind old pd_scopes), dq_scopes p} \<and> s \<in> js_trim ` set xs)}"
  by (simp add: approved_of_def approved_device_def Let_def mergeScopes_def set_texts)

lemma approved_grows:
  assumes "device_ok d"
  shows "approved_of d \<subseteq> approved_of (approved_device p (Some d) t now)"
proof (cases "pd_approvedScopes d")
  case (Some ss)
  then have "\<forall>s \<in> set ss. plain_text s" using assms by (simp add: device_ok_def approved_of_def)
  then have "set ss \<subseteq> {t. t \<noteq> [] \<and> t \<in> js_trim ` set ss}" using set_plain [of ss] by simp
  then show ?thesis unfolding approved_of_approved using Some by (auto simp: approved_of_def or_else_def)
qed (simp add: approved_of_def)

lemma asked_approved: "set (normalizeDeviceAuthScopes (dq_scopes p)) \<subseteq> approved_of (approved_device p old t now)"
  unfolding approved_of_approved set_normalized by auto

lemma approved_plain: "\<forall>s \<in> approved_of (approved_device p old t now). plain_text s"
  unfolding approved_of_approved by (auto simp: plain_text_def)

lemma approved_token_ok:
  assumes "\<And>d. old = Some d \<Longrightarrow> device_ok d"
  shows "token_ok (approved_device p old t now)
    (approved_token p old (mergeScopes [or_else (Option.bind old pd_approvedScopes) (Option.bind old pd_scopes), dq_scopes p]) role t now)"
proof -
  let ?x = "or_else (Option.bind old pd_approvedScopes) (Option.bind old pd_scopes)"
  let ?m = "mergeScopes [?x, dq_scopes p]" and ?A = "approved_of (approved_device p old t now)"
  have m: "set (normalizeDeviceAuthScopes (or_else ?m ?x)) \<subseteq> ?A"
  proof (cases ?m)
    case None
    have "set (case ?m of Some ss \<Rightarrow> ss | None \<Rightarrow> []) = ?A" unfolding approved_of_approved mergeScopes_def set_texts by simp
    then have "?A = {}" using None by simp
    moreover have "set (normalizeDeviceAuthScopes ?x) \<subseteq> ?A" unfolding approved_of_approved set_normalized by auto
    ultimately have "set (normalizeDeviceAuthScopes ?x) = {}" by simp
    then show ?thesis using None by (simp add: or_else_def)
  next
    case (Some ss)
    have "set ss = ?A" using set_texts [of "[?x, dq_scopes p]"] Some unfolding approved_of_approved mergeScopes_def by simp
    then have "set (normalizeDeviceAuthScopes (Some ss)) = ?A" using normalized_plain [of ss] approved_plain by simp
    then show ?thesis using Some by (simp add: or_else_def)
  qed
  have o: "operatorScopeSatisfied s ?A \<and> plain_text s"
    if e: "map_of (token_map old) role = Some e" "s \<in> set (normalizeDeviceAuthScopes (Some (dt_scopes e)))" for e s
  proof -
    obtain d where d: "old = Some d" using e(1) by (cases old) (simp_all add: token_map_def)
    then have "token_ok d e" using assms device_ok_token e(1) by blast
    with e(2) normalized_plain [of "dt_scopes e"] have "operatorScopeSatisfied s (approved_of d)" "plain_text s" by (auto simp: token_ok_def)
    with satisfied_mono approved_grows [OF assms [OF d]] d show ?thesis by blast
  qed
  have scopes: "\<forall>s \<in> set xs. plain_text s \<and> operatorScopeSatisfied s ?A" if "set xs \<subseteq> ?A" for xs
    using that approved_plain satisfied_member by blast
  let ?t = "approved_token p old ?m role t now"
  consider "dt_scopes ?t = normalizeDeviceAuthScopes (dq_scopes p)"
    | e where "map_of (token_map old) role = Some e" "dt_scopes ?t = normalizeDeviceAuthScopes (Some (dt_scopes e))"
    | "dt_scopes ?t = normalizeDeviceAuthScopes (or_else ?m ?x)"
    by (cases "map_of (token_map old) role"; cases "normalizeDeviceAuthScopes (dq_scopes p) = []")
      (simp_all add: approved_token_def Let_def or_else_simps)
  then show ?thesis
  proof cases
    case 1
    with scopes [OF asked_approved [of p old t now]] show ?thesis by (simp add: token_ok_def)
  next
    case (2 e)
    with o show ?thesis by (simp add: token_ok_def)
  next
    case 3
    with scopes [OF m] show ?thesis by (simp add: token_ok_def)
  qed
qed

lemma approved_device_ok:
  assumes "\<And>d. old = Some d \<Longrightarrow> device_ok d"
  shows "device_ok (approved_device p old t now)"
proof -
  let ?d = "approved_device p old t now"
  let ?m = "mergeScopes [or_else (Option.bind old pd_approvedScopes) (Option.bind old pd_scopes), dq_scopes p]"
  have "set (paired_scopes ?d) = approved_of ?d"
    by (cases ?m) (simp_all add: paired_scopes_def approved_of_def approved_device_def Let_def)
  moreover have "token_ok ?d e" if e: "map_of (token_map (Some ?d)) r = Some e" for r e
  proof (cases "map_of (token_map old) r = Some e")
    case True
    then obtain d where d: "old = Some d" by (cases old) (simp_all add: token_map_def)
    then have "token_ok d e" using True assms device_ok_token by blast
    then show ?thesis using satisfied_mono approved_grows [OF assms [OF d]] d by (auto simp: token_ok_def)
  next
    case False
    have "token_map (Some ?d) = (case normalizeDeviceRole (dq_role p) of
        Some role \<Rightarrow> AList.update role (approved_token p old ?m role t now) (token_map old) | None \<Rightarrow> token_map old)"
      by (simp add: token_map_def approved_device_def Let_def)
    with e False obtain role where "e = approved_token p old ?m role t now"
      by (auto simp: update_conv' split: option.splits if_splits)
    then show ?thesis using approved_token_ok [OF assms] by simp
  qed
  ultimately show ?thesis using approved_plain [of p old t now] satisfied_member by (auto simp: device_ok_def token_ok_def)
qed

lemma ok_approve: "scopes_ok f \<Longrightarrow> scopes_ok (fst (approveDevicePairing i t now f))"
  unfolding scopes_ok_def approve_paired by (auto split: option.splits if_splits intro!: approved_device_ok)

lemma ok_requirePairing:
  assumes "scopes_ok f" "requirePairing c fs now reason f = Inr (f', ok)"
  shows "scopes_ok f'"
proof -
  obtain f1 q cr where q: "requestDevicePairing (pairing_metadata c reason) (fs_requestId fs reason) now f = Inr (f1, q, cr)"
    using assms(2) by (auto simp: requirePairing_def bind_r_eq_Inr)
  have "scopes_ok f1" using assms(1) request_paired [OF q] ok_same by blast
  then show ?thesis using assms(2) q by (auto simp: requirePairing_def intro!: ok_approve split: if_splits)
qed

text \<open>A pairing that is granted at once approves what was asked for.\<close>

lemma map_of_filter: "map_of xs k = Some v \<Longrightarrow> Q (k, v) \<Longrightarrow> map_of (filter Q xs) k = Some v"
  by (induction xs) (auto split: if_splits)

lemma request_made:
  assumes "requestDevicePairing q i now f = Inr (f', p, created)"
  shows "(\<exists>old again. p = mergePendingDevicePairingRequest old q again now) \<or> (\<exists>again. p = new_device_request q (js_trim (rq_deviceId q)) i again now)"
  using assms unfolding requestDevicePairing_def Let_def normalizeDeviceId_def by (auto split: if_splits option.splits)

lemma request_scopes:
  assumes "requestDevicePairing q i now f = Inr (f', p, created)"
  shows "(\<exists>old. dq_scopes p = mergeScopes [old, rq_scopes q]) \<or> dq_scopes p = rq_scopes q"
  using request_made [OF assms]
proof (elim disjE exE)
  fix old again assume "p = mergePendingDevicePairingRequest old q again now"
  then have "dq_scopes p = mergeScopes [dq_scopes old, rq_scopes q]" by (simp add: mergePendingDevicePairingRequest_def)
  then show ?thesis by blast
qed (simp add: new_device_request_def)

lemma request_stored:
  assumes "requestDevicePairing q i now f = Inr (f', p, created)"
  shows "map_of (ds_pending (loadDeviceState now f')) (dq_requestId p) = Some p" "dq_deviceId p = js_trim (rq_deviceId q)"
    "{s. s \<noteq> [] \<and> (\<exists>xs. rq_scopes q = Some xs \<and> s \<in> js_trim ` set xs)} \<subseteq> set (normalizeDeviceAuthScopes (dq_scopes p))"
proof -
  have "map_of (pending_list f') (dq_requestId p) = Some p \<and> dq_ts p = now"
    using assms by (auto simp: requestDevicePairing_def Let_def update_conv' mergePendingDevicePairingRequest_def new_device_request_def
        split: if_splits option.splits)
  then show "map_of (ds_pending (loadDeviceState now f')) (dq_requestId p) = Some p"
    by (auto simp: loadDeviceState_def pruneExpiredPending_def pending_list_def DEVICE_PENDING_TTL_MS_def intro!: map_of_filter)
  show "dq_deviceId p = js_trim (rq_deviceId q)"
    using assms by (auto simp: requestDevicePairing_def Let_def mergePendingDevicePairingRequest_def new_device_request_def normalizeDeviceId_def
        split: if_splits option.splits dest!: find_SomeD)
  show "{s. s \<noteq> [] \<and> (\<exists>xs. rq_scopes q = Some xs \<and> s \<in> js_trim ` set xs)} \<subseteq> set (normalizeDeviceAuthScopes (dq_scopes p))"
  proof
    fix s assume s: "s \<in> {s. s \<noteq> [] \<and> (\<exists>xs. rq_scopes q = Some xs \<and> s \<in> js_trim ` set xs)}"
    consider old where "dq_scopes p = mergeScopes [old, rq_scopes q]" | "dq_scopes p = rq_scopes q"
      using request_scopes [OF assms] by blast
    then show "s \<in> set (normalizeDeviceAuthScopes (dq_scopes p))"
    proof cases
      case (1 old)
      have "s \<in> set (case mergeScopes [old, rq_scopes q] of Some ss \<Rightarrow> ss | None \<Rightarrow> [])"
        using s unfolding mergeScopes_def set_texts by auto
      moreover have "js_trim s = s" using s by auto
      ultimately show ?thesis using s 1 unfolding set_normalized
        by (cases "mergeScopes [old, rq_scopes q]") (auto intro: image_eqI [where x = s])
    qed (use s in \<open>simp add: set_normalized\<close>)
  qed
qed

lemma requirePairing_approves:
  assumes "requirePairing c fs now reason f = Inr (f', True)"
  shows "\<exists>d. paired_at now f' (cr_deviceId c) = Some d \<and> set (normalizeScopeList (cr_scopes c)) \<subseteq> approved_of d"
proof -
  obtain f1 q cr where q: "requestDevicePairing (pairing_metadata c reason) (fs_requestId fs reason) now f = Inr (f1, q, cr)"
    and f': "f' = fst (approveDevicePairing (dq_requestId q) (fs_token fs reason) now f1)"
    using assms by (auto simp: requirePairing_def bind_r_eq_Inr split: if_splits)
  note r = request_stored [OF q]
  let ?d = "approved_device q (map_of (paired_list f1) (dq_deviceId q)) (fs_token fs reason) now"
  have "paired_at now f' (cr_deviceId c) = Some ?d" using r(2) by (simp add: paired_at_eq f' approve_paired r(1) pairing_metadata_def)
  moreover have "set (normalizeScopeList (cr_scopes c)) \<subseteq> approved_of ?d"
    using r(3) asked_approved [of q] by (force simp: set_scope_list pairing_metadata_def)
  ultimately show ?thesis by blast
qed

subsection \<open>Connections\<close>

text \<open>What a device that has been let in asked for is covered by what was approved for it.\<close>

definition covered :: "connect_request \<Rightarrow> int \<Rightarrow> device_files \<Rightarrow> bool" where
  "covered c now f = (\<exists>d. paired_at now f (cr_deviceId c) = Some d \<and>
     (\<forall>s \<in> set (normalizeScopeList (cr_scopes c)). operatorScopeSatisfied s (approved_of d)))"

lemma patched_ok:
  assumes "device_ok d" "\<forall>s \<in> set (normalizeScopeList (cr_scopes c)). operatorScopeSatisfied s (approved_of d)"
  shows "device_ok (patched_device d (access_metadata c))" "approved_of (patched_device d (access_metadata c)) = approved_of d"
proof -
  let ?p = "patched_device d (access_metadata c)"
  show a: "approved_of ?p = approved_of d" by (simp add: approved_of_def patched_device_def)
  have t: "token_map (Some ?p) = token_map (Some d)" by (simp add: token_map_def patched_device_def access_metadata_def assign_field_def)
  have sc: "pd_scopes ?p = mergeScopes [pd_scopes d, Some (cr_scopes c)]" "pd_approvedScopes ?p = pd_approvedScopes d"
    by (simp_all add: patched_device_def access_metadata_def flat_def)
  have "plain_text s \<and> operatorScopeSatisfied s (approved_of d)"
    if s: "s \<in> set (case mergeScopes [pd_scopes d, Some (cr_scopes c)] of Some ss \<Rightarrow> ss | None \<Rightarrow> [])" for s
  proof -
    obtain ys where ys: "Some ys \<in> {pd_scopes d, Some (cr_scopes c)}" "s \<noteq> []" "s \<in> js_trim ` set ys"
      using s unfolding mergeScopes_def set_texts by auto
    then consider xs where "pd_scopes d = Some xs" "s \<noteq> []" "s \<in> js_trim ` set xs" | "s \<noteq> []" "s \<in> js_trim ` set (cr_scopes c)"
      by (cases "pd_scopes d = Some ys") auto
    then show ?thesis
    proof cases
      case (1 xs)
      then have "s \<in> set xs" using assms(1) set_plain [of xs] by (auto simp: device_ok_def paired_scopes_def)
      with 1 assms(1) show ?thesis by (simp add: device_ok_def paired_scopes_def)
    next
      case 2
      then show ?thesis using assms(2) by (auto simp: set_scope_list plain_text_def)
    qed
  qed
  moreover have "plain_text s \<and> operatorScopeSatisfied s (approved_of d)" if "s \<in> approved_of d" for s
    using assms(1) that satisfied_member by (auto simp: device_ok_def)
  ultimately have "\<forall>s \<in> set (paired_scopes ?p). plain_text s \<and> operatorScopeSatisfied s (approved_of d)"
    unfolding paired_scopes_def sc approved_of_def by (auto split: option.splits)
  then show "device_ok ?p" using assms(1) unfolding device_ok_def a t by blast
qed

lemma metadata_covered:
  assumes "scopes_ok f" "covered c now f" "js_trim (cr_deviceId c) = cr_deviceId c"
  shows "scopes_ok (updatePairedDeviceMetadata (cr_deviceId c) (access_metadata c) now f)"
    "covered c now (updatePairedDeviceMetadata (cr_deviceId c) (access_metadata c) now f)"
proof -
  obtain d where d: "paired_at now f (cr_deviceId c) = Some d"
    "\<forall>s \<in> set (normalizeScopeList (cr_scopes c)). operatorScopeSatisfied s (approved_of d)"
    using assms(2) by (auto simp: covered_def)
  note ok = patched_ok [OF ok_at [OF assms(1) d(1)] d(2)]
  have u: "updatePairedDeviceMetadata (cr_deviceId c) (access_metadata c) now f =
      put_device (cr_deviceId c) (patched_device d (access_metadata c)) (loadDeviceState now f)"
    by (simp add: updatePairedDeviceMetadata_def d(1))
  show "scopes_ok (updatePairedDeviceMetadata (cr_deviceId c) (access_metadata c) now f)"
    unfolding u by (rule ok_put [OF assms(1) ok(1)])
  show "covered c now (updatePairedDeviceMetadata (cr_deviceId c) (access_metadata c) now f)"
    unfolding u covered_def paired_at_eq using d(2) ok(2) assms(3) by simp
qed

lemma granted_covered: "requirePairing c fs now reason f = Inr (f', True) \<Longrightarrow> covered c now f'"
  using requirePairing_approves [of c fs now reason f f'] by (auto simp: covered_def intro: satisfied_member)

lemma pair_connection_covered:
  assumes "scopes_ok f" "js_trim (cr_deviceId c) = cr_deviceId c" "pair_connection c fs now f = Inr (f', ok)"
  shows "scopes_ok f' \<and> (ok \<longrightarrow> covered c now f')"
  using assms(3)
proof (cases rule: pair_connection_cases)
  case 1
  with ok_requirePairing [OF assms(1) 1] granted_covered show ?thesis by (cases ok) auto
next
  case 2
  with assms(1) ok_same show ?thesis by blast
next
  case (3 d f3)
  have "scopes_ok f3 \<and> covered c now f3"
  proof (cases "scope_upgrade c d")
    case True
    with 3(6) have "requirePairing c fs now ScopeUpgrade f = Inr (f3, True)" by simp
    with ok_requirePairing [OF assms(1)] granted_covered show ?thesis by blast
  next
    case False
    have d: "paired_at now f (cr_deviceId c) = Some d" "device_ok d"
      using 3(2) ok_at [OF assms(1)] by (auto simp: getPairedDevice_def)
    have "operatorScopeSatisfied s (approved_of d)" if s: "s \<in> set (normalizeScopeList (cr_scopes c))" for s
    proof -
      have "cr_scopes c \<noteq> []" using s by (auto simp: set_scope_list)
      with False have "roleScopesAllow (role_text (cr_role c)) (cr_scopes c) (paired_scopes d)" by (simp add: scope_upgrade_def)
      moreover have held: "\<forall>y \<in> set (paired_scopes d). plain_text y \<and> operatorScopeSatisfied y (approved_of d)"
        using d(2) unfolding device_ok_def by blast
      ultimately have "operatorScopeSatisfied s (set (paired_scopes d))" using roleScopesAllow_satisfied [OF _ s] by blast
      then show ?thesis by (rule satisfied_trans) (use held in blast)
    qed
    then have "covered c now f" using d(1) unfolding covered_def by blast
    moreover have "f3 = f" using 3(6) False by simp
    ultimately show ?thesis using assms(1) by simp
  qed
  then show ?thesis using metadata_covered [OF _ _ assms(2)] unfolding 3(7) by blast
qed

lemma scope_list_normalized: "set (normalizeDeviceAuthScopes (Some xs)) = set (normalizeScopeList xs)"
  by (simp add: set_normalized set_scope_list)

lemma ensure_covered:
  assumes "scopes_ok f" "covered c now f" "keyed f" "ensureDeviceToken (cr_deviceId c) (role_text (cr_role c)) (cr_scopes c) t now f = (f', e)"
  shows "scopes_ok f'" "\<exists>d k. paired_at now f' (cr_deviceId c) = Some d \<and> e = Some k \<and> token_ok d k \<and>
      (\<forall>s \<in> set (normalizeScopeList (cr_scopes c)). operatorScopeSatisfied s (approved_of d))"
proof -
  obtain d where d: "paired_at now f (cr_deviceId c) = Some d"
    "\<forall>s \<in> set (normalizeScopeList (cr_scopes c)). operatorScopeSatisfied s (approved_of d)"
    using assms(2) by (auto simp: covered_def)
  have role: "normalizeDeviceRole (Some (role_text (cr_role c))) = Some (role_text (cr_role c))"
    by (cases "cr_role c") (simp_all add: normalizeDeviceRole_def trim_or_undef_def role_text_def js_trim_def js_space_def)
  let ?old = "map_of (token_map (Some d)) (role_text (cr_role c))"
  let ?new = "buildDeviceAuthToken (role_text (cr_role c)) (normalizeDeviceAuthScopes (Some (cr_scopes c))) ?old now (if ?old \<noteq> None then Some now else None) t"
  have new: "token_ok d ?new"
    using d(2) plain_normalized [of "Some (cr_scopes c)"] by (simp add: token_ok_def buildDeviceAuthToken_def scope_list_normalized)
  have cases: "(f' = f \<and> e = ?old \<and> ?old \<noteq> None) \<or> (f' = put_token d (role_text (cr_role c)) ?new now f \<and> e = Some ?new)"
  proof -
    have "ensureDeviceToken (cr_deviceId c) (role_text (cr_role c)) (cr_scopes c) t now f =
      (if case ?old of Some e \<Rightarrow> \<not> at_ms (dt_revokedAtMs e) \<and>
            roleScopesAllow (role_text (cr_role c)) (normalizeDeviceAuthScopes (Some (cr_scopes c))) (dt_scopes e) | None \<Rightarrow> False
       then (f, ?old) else (put_token d (role_text (cr_role c)) ?new now f, Some ?new))"
      unfolding ensureDeviceToken_def d(1) role Let_def by (simp only: prod.case option.case)
    with assms(4) show ?thesis by (cases ?old) (auto simp only: option.case if_False fst_conv snd_conv prod.inject option.distinct split: if_splits)
  qed
  show "scopes_ok f'" using cases assms(1) ok_put_token [OF assms(1) d(1) new] by auto
  have id: "pd_deviceId d = js_trim (cr_deviceId c)" using keyed_at [OF assms(3) d(1)] .
  from cases show "\<exists>d k. paired_at now f' (cr_deviceId c) = Some d \<and> e = Some k \<and> token_ok d k \<and>
      (\<forall>s \<in> set (normalizeScopeList (cr_scopes c)). operatorScopeSatisfied s (approved_of d))"
  proof
    assume "f' = f \<and> e = ?old \<and> ?old \<noteq> None"
    then obtain k where "e = Some k" "?old = Some k" by auto
    with device_ok_token [OF ok_at [OF assms(1) d(1)]] d \<open>f' = f \<and> e = ?old \<and> ?old \<noteq> None\<close> show ?thesis by auto
  next
    assume "f' = put_token d (role_text (cr_role c)) ?new now f \<and> e = Some ?new"
    with new d(2) show ?thesis by (auto simp: paired_at_eq put_token_def id token_ok_def)
  qed
qed

text \<open>
  The operations others can ask for: those of the gateway's methods and handshakes that pair the device. What only the
  handshake uses (giving a token, noting the client's data) is left out.
\<close>

fun offered :: "device_op \<Rightarrow> bool" where
  "offered (Ensure i r ss t now) = False"
| "offered (Metadata i x now) = False"
| "offered (Revoke i r now) = (now \<noteq> 0)"
| "offered (Connect c fs now) = (\<not> cr_skipPairing c \<and> js_trim (cr_deviceId c) = cr_deviceId c)"
| "offered op = True"

lemma offered_plain: "offered op \<Longrightarrow> plain_op op"
  by (cases op) auto

lemma finite_reasons: "finite (range (f :: pairing_reason \<Rightarrow> string))"
proof -
  have "(UNIV :: pairing_reason set) = {NotPaired, RoleUpgrade, ScopeUpgrade, MetadataUpgrade}" using pairing_reason.exhaust by blast
  then show ?thesis by (metis finite.emptyI finite.insertI finite_imageI)
qed

lemma finite_minted: "finite (minted op)"
  by (cases op) (simp_all add: finite_reasons)

text \<open>What leaves a fresh token dead keeps the devices under their ids.\<close>

lemma keyed_from_dead:
  assumes "finite M" "keyed f" "\<And>t. t \<notin> M \<Longrightarrow> dead [] [] t f \<Longrightarrow> dead [] [] t f'"
  shows "keyed f'"
proof -
  define X where "X = M \<union> (case map_of (paired_list f) [] of None \<Rightarrow> {} | Some d \<Rightarrow> (case map_of (token_map (Some d)) [] of None \<Rightarrow> {} | Some e \<Rightarrow> {dt_token e}))"
  have "finite X" unfolding X_def using assms(1) by (auto split: option.splits)
  then obtain t where "t \<notin> X" using ex_new_if_finite infinite_UNIV_listI by blast
  then have "dead [] [] t f" "t \<notin> M"
    using assms(2) by (auto simp: X_def dead_def at_key_def dead_token_def split: option.splits)
  with assms(3) show ?thesis by (simp add: dead_def)
qed

lemma keyed_step: "plain_op op \<Longrightarrow> keyed f \<Longrightarrow> keyed (device_step op f)"
  by (rule keyed_from_dead [of "minted op" f]) (simp_all add: dead_step finite_minted)

lemma keyed_pair: "keyed f \<Longrightarrow> pair_connection c fs now f = Inr (f', ok) \<Longrightarrow> keyed f'"
  by (rule keyed_from_dead [of "range (fs_token fs)" f]) (auto intro: dead_pair simp: finite_reasons)

lemma connect_covered:
  assumes "scopes_ok f" "keyed f" "\<not> cr_skipPairing c" "js_trim (cr_deviceId c) = cr_deviceId c" "connect_device c fs now f = Inr (f', h)"
  shows "scopes_ok f'" "h = Connected t \<Longrightarrow> \<exists>d k. paired_at now f' (cr_deviceId c) = Some d \<and> t = Some k \<and> token_ok d k \<and>
      (\<forall>s \<in> set (normalizeScopeList (cr_scopes c)). operatorScopeSatisfied s (approved_of d))"
proof -
  obtain f1 ok where p: "pair_connection c fs now f = Inr (f1, ok)"
    and f': "f' = (if ok then fst (ensureDeviceToken (cr_deviceId c) (role_text (cr_role c)) (cr_scopes c) (fs_connectToken fs) now f1) else f1)"
    and h: "h = (if ok then Connected (snd (ensureDeviceToken (cr_deviceId c) (role_text (cr_role c)) (cr_scopes c) (fs_connectToken fs) now f1)) else PairingRequired)"
    using assms(3) by (rule_tac connect_parts [OF assms(5)]) simp
  have f1: "scopes_ok f1" "ok \<Longrightarrow> covered c now f1" using pair_connection_covered [OF assms(1,4) p] by auto
  have k1: "keyed f1" using keyed_pair [OF assms(2) p] .
  show "scopes_ok f'" using f1 ensure_covered(1) [OF f1(1) f1(2) k1 surjective_pairing] by (auto simp: f')
  show "h = Connected t \<Longrightarrow> \<exists>d k. paired_at now f' (cr_deviceId c) = Some d \<and> t = Some k \<and> token_ok d k \<and>
      (\<forall>s \<in> set (normalizeScopeList (cr_scopes c)). operatorScopeSatisfied s (approved_of d))"
    using ensure_covered [OF f1(1) f1(2) k1 surjective_pairing] by (auto simp: f' h split: if_splits)
qed

lemma scopes_step: "offered op \<Longrightarrow> keyed f \<Longrightarrow> scopes_ok f \<Longrightarrow> scopes_ok (device_step op f)"
proof (induction op)
  case (AskPairing q i now)
  have "paired_list (device_step (AskPairing q i now) f) = paired_list f"
    by (cases "requestDevicePairing q i now f") (auto simp: files_or_def dest: request_paired)
  with AskPairing show ?case using ok_same by blast
next
  case (Reject i now)
  then show ?case using ok_same [OF reject_paired] by simp
next
  case (Connect c fs now)
  then show ?case using connect_covered(1)
    by (cases "connect_device c fs now f") (auto simp: files_or_def)
qed (simp_all add: ok_approve ok_drop ok_verify ok_rotate ok_revoke removePairedDevice_def clearDevicePairing_def Let_def)

lemma scopes_run: "\<forall>op \<in> set ops. offered op \<Longrightarrow> keyed f \<Longrightarrow> scopes_ok f \<Longrightarrow> keyed (fold device_step ops f) \<and> scopes_ok (fold device_step ops f)"
  by (induction ops arbitrary: f) (simp_all add: scopes_step keyed_step offered_plain)

definition no_devices :: device_files where
  "no_devices = \<lparr>df_pending = None, df_paired = None\<rparr>"

lemma no_devices_ok [simp]: "keyed no_devices" "scopes_ok no_devices"
  by (simp_all add: no_devices_def keyed_def scopes_ok_def paired_list_def)

section \<open>Calls\<close>

lemma plain_scopes: "s \<in> {ADMIN_SCOPE, READ_SCOPE, WRITE_SCOPE, APPROVALS_SCOPE, PAIRING_SCOPE} \<Longrightarrow> js_trim s = s \<and> s \<noteq> []"
  by (auto simp: ADMIN_SCOPE_def READ_SCOPE_def WRITE_SCOPE_def APPROVALS_SCOPE_def PAIRING_SCOPE_def js_trim_def js_space_def)

text \<open>The scopes a plugin may declare are those of the gateway.\<close>

definition operator_scopes :: "(string \<Rightarrow> string option) \<Rightarrow> bool" where
  "operator_scopes plugin_scopes = (\<forall>m s. plugin_scopes m = Some s \<longrightarrow> s \<in> {ADMIN_SCOPE, READ_SCOPE, WRITE_SCOPE, APPROVALS_SCOPE, PAIRING_SCOPE})"

lemma known_scope:
  assumes "METHOD_SCOPE_BY_NAME m = Some s"
  shows "s \<in> {ADMIN_SCOPE, READ_SCOPE, WRITE_SCOPE, APPROVALS_SCOPE, PAIRING_SCOPE}"
proof -
  have "(m, s) \<in> set (rev (concat (map (\<lambda>(scope, ms). map (\<lambda>m. (m, scope)) ms) METHOD_SCOPE_GROUPS)))"
    using assms unfolding METHOD_SCOPE_BY_NAME_def by (rule map_of_SomeD)
  then have "s \<in> fst ` set METHOD_SCOPE_GROUPS" by force
  then show ?thesis by (auto simp: METHOD_SCOPE_GROUPS_def)
qed

lemma required_known: "operator_scopes plugin_scopes \<Longrightarrow> required_scope plugin_scopes m \<in> {ADMIN_SCOPE, READ_SCOPE, WRITE_SCOPE, APPROVALS_SCOPE, PAIRING_SCOPE}"
  using known_scope [of m]
  by (auto simp: required_scope_def resolveScopedMethod_def resolveReservedGatewayMethodScope_def operator_scopes_def split: option.splits)

lemma authorized_scope:
  assumes "authorizeGatewayMethod plugin_scopes m (Some \<lparr>mc_role = Some ''operator'', mc_scopes = Some scopes\<rparr>) = None"
    "operator_scopes plugin_scopes" "m \<noteq> ''health''"
  obtains s where "s \<in> set scopes" "s \<in> {ADMIN_SCOPE, READ_SCOPE, WRITE_SCOPE, APPROVALS_SCOPE, PAIRING_SCOPE}"
    "operatorScopeSatisfied (required_scope plugin_scopes m) {s}"
proof (cases "ADMIN_SCOPE \<in> set scopes")
  case True
  with required_known [OF assms(2), of m] scope_prefixes show thesis by (intro that [of ADMIN_SCOPE]) (auto simp: operatorScopeSatisfied_def)
next
  case False
  then have "authorizeOperatorScopesForMethod plugin_scopes m scopes = None"
    using assms(1,3) by (auto simp: authorizeGatewayMethod_def parseGatewayRole_def split: if_splits)
  with False have "required_scope plugin_scopes m \<in> set scopes \<or> (required_scope plugin_scopes m = READ_SCOPE \<and> WRITE_SCOPE \<in> set scopes)"
    by (auto simp: authorizeOperatorScopesForMethod_def Let_def split: if_splits)
  then show thesis
  proof
    assume "required_scope plugin_scopes m \<in> set scopes"
    then show thesis by (rule that [OF _ required_known [OF assms(2)] satisfied_self])
  next
    assume "required_scope plugin_scopes m = READ_SCOPE \<and> WRITE_SCOPE \<in> set scopes"
    then show thesis by (intro that [of WRITE_SCOPE]) (auto simp: operatorScopeSatisfied_def)
  qed
qed

text \<open>
  C35: nothing beyond what was approved. After any operations of the gateway on the devices, when a device has been let in by pairing
  and may call a method as an operator, the scope that the method needs is covered by the scopes that were
  approved for this device.
\<close>

theorem device_call_needs_approval:
  assumes "\<forall>op \<in> set ops. offered op"
    and "connect_device c fs now (fold device_step ops no_devices) = Inr (f', Connected t)"
    and "\<not> cr_skipPairing c" "js_trim (cr_deviceId c) = cr_deviceId c"
    and "operator_scopes plugin_scopes" "m \<noteq> ''health''"
    and "snd (handleGatewayRequest plugin_scopes later m (Some \<lparr>mc_role = Some ''operator'', mc_scopes = Some (cr_scopes c)\<rparr>) who bs) = Admitted"
  shows "\<exists>d. getPairedDevice (cr_deviceId c) now f' = Some d \<and> operatorScopeSatisfied (required_scope plugin_scopes m) (approved_of d)"
proof -
  note ok = scopes_run [OF assms(1) no_devices_ok]
  obtain d where d: "paired_at now f' (cr_deviceId c) = Some d"
    "\<forall>s \<in> set (normalizeScopeList (cr_scopes c)). operatorScopeSatisfied s (approved_of d)"
    using connect_covered(2) [OF conjunct2 [OF ok] conjunct1 [OF ok] assms(3,4,2) refl] by blast
  obtain s where s: "s \<in> set (cr_scopes c)" "s \<in> {ADMIN_SCOPE, READ_SCOPE, WRITE_SCOPE, APPROVALS_SCOPE, PAIRING_SCOPE}"
    "operatorScopeSatisfied (required_scope plugin_scopes m) {s}"
    by (rule authorized_scope [OF admitted_authorized [OF assms(7)] assms(5,6)])
  have "s \<in> set (normalizeScopeList (cr_scopes c))" using s(1) plain_scopes [OF s(2)] by (force simp: set_scope_list)
  then have "operatorScopeSatisfied (required_scope plugin_scopes m) (approved_of d)"
    using satisfied_trans [OF s(3)] d(2) by blast
  with d(1) show ?thesis by (auto simp: getPairedDevice_def)
qed

section \<open>Approval\<close>

text \<open>Every device was there before, with the same approved scopes.\<close>

definition same_approved :: "device_files \<Rightarrow> device_files \<Rightarrow> bool" where
  "same_approved f f' = (\<forall>k d'. js_trim k = k \<longrightarrow> map_of (paired_list f') k = Some d' \<longrightarrow>
     (\<exists>d. map_of (paired_list f) k = Some d \<and> approved_of d' = approved_of d))"

lemma same_approved_list: "paired_list f' = paired_list f \<Longrightarrow> same_approved f f'"
  by (simp add: same_approved_def)

lemma same_approved_trans: "same_approved f f1 \<Longrightarrow> same_approved f1 f2 \<Longrightarrow> same_approved f f2"
  by (fastforce simp: same_approved_def)

lemma same_approved_token:
  assumes "keyed f" "paired_at now f i = Some d"
  shows "same_approved f (put_token d r e now f)"
  using keyed_at [OF assms] assms(2) by (auto simp: same_approved_def put_token_def paired_at_eq)

lemma same_approved_drop: "same_approved f (drop_device k (loadDeviceState now f))"
  by (simp add: same_approved_def)

lemma same_approved_ensure: "keyed f \<Longrightarrow> same_approved f (fst (ensureDeviceToken i r ss t now f))"
  by (auto simp: ensureDeviceToken_def Let_def same_approved_list intro!: same_approved_token split: option.splits)

lemma same_approved_metadata:
  assumes "js_trim (cr_deviceId c) = cr_deviceId c"
  shows "same_approved f (updatePairedDeviceMetadata (cr_deviceId c) (access_metadata c) now f)"
proof -
  have "approved_of (patched_device d (access_metadata c)) = approved_of d" for d by (simp add: approved_of_def patched_device_def)
  then show ?thesis using assms
    by (auto simp: updatePairedDeviceMetadata_def same_approved_def paired_at_eq split: option.splits)
qed

lemma same_approved_connect:
  assumes "keyed f" "\<not> cr_isLocalClient c" "\<not> cr_skipPairing c" "js_trim (cr_deviceId c) = cr_deviceId c" "connect_device c fs now f = Inr (f', h)"
  shows "same_approved f f'"
proof -
  obtain f1 ok where p: "pair_connection c fs now f = Inr (f1, ok)"
    and f': "f' = (if ok then fst (ensureDeviceToken (cr_deviceId c) (role_text (cr_role c)) (cr_scopes c) (fs_connectToken fs) now f1) else f1)"
    using assms(3) by (rule_tac connect_parts [OF assms(5)]) simp
  have never: "requirePairing c fs now reason f \<noteq> Inr (f2, True)" for reason f2
    using requirePairing_granted assms(2) by (auto simp: shouldAllowSilentLocalPairing_def)
  from p have "same_approved f f1"
  proof (cases rule: pair_connection_cases)
    case 1
    then show ?thesis using never requirePairing_refused same_approved_list by (cases ok) auto
  next
    case 2
    then show ?thesis using same_approved_list by blast
  next
    case (3 d f3)
    then have "f3 = f" using never by (auto split: if_splits)
    with 3(7) same_approved_metadata [OF assms(4)] show ?thesis by simp
  qed
  moreover have "same_approved f1 f'" using same_approved_ensure [OF keyed_pair [OF assms(1) p]] by (simp add: f' same_approved_list)
  ultimately show ?thesis by (rule same_approved_trans)
qed

text \<open>Operations in which nobody approves anything: no approval, and connections from other machines only.\<close>

fun unapproving :: "device_op \<Rightarrow> bool" where
  "unapproving (Approve i t now) = False"
| "unapproving (Connect c fs now) = (\<not> cr_isLocalClient c)"
| "unapproving op = True"

lemma same_approved_verify: "keyed f \<Longrightarrow> same_approved f (fst (verifyDeviceToken i tk r ss now f))"
  by (auto simp: verifyDeviceToken_def same_approved_list put_token_def [symmetric] split: option.splits intro!: same_approved_token)

lemma same_approved_step: "offered op \<Longrightarrow> unapproving op \<Longrightarrow> keyed f \<Longrightarrow> same_approved f (device_step op f)"
proof (induction op)
  case (AskPairing q i now)
  have "paired_list (device_step (AskPairing q i now) f) = paired_list f"
    by (cases "requestDevicePairing q i now f") (auto simp: files_or_def dest: request_paired)
  then show ?case by (rule same_approved_list)
next
  case (Connect c fs now)
  then show ?case using same_approved_connect
    by (cases "connect_device c fs now f") (auto simp: files_or_def same_approved_list)
next
  case (Rotate i r ss t now)
  then show ?case by (auto simp: rotateDeviceToken_def Let_def same_approved_list intro!: same_approved_token split: option.splits)
next
  case (Revoke i r now)
  then show ?case by (auto simp: revokeDeviceToken_def Let_def same_approved_list intro!: same_approved_token split: option.splits)
qed (simp_all add: same_approved_verify removePairedDevice_def clearDevicePairing_def same_approved_drop same_approved_list reject_paired Let_def)

text \<open>
  C36: no device approves itself. As long as nobody approves a request, nothing that devices on other machines do, asking,
  connecting with any claims, having tokens verified or rotated, pairs a device or adds to the scopes that are approved for one.
\<close>

theorem device_no_self_approval:
  assumes "keyed f" "\<forall>op \<in> set ops. offered op \<and> unapproving op"
    and "getPairedDevice i now (fold device_step ops f) = Some d'"
  shows "\<exists>d. getPairedDevice i now f = Some d \<and> approved_of d' = approved_of d"
proof -
  have "keyed f \<Longrightarrow> same_approved f (fold device_step ops f)"
    using assms(2)
  proof (induction ops arbitrary: f)
    case (Cons op ops)
    then have "same_approved f (device_step op f)" "same_approved (device_step op f) (fold device_step ops (device_step op f))"
      using same_approved_step keyed_step offered_plain by auto
    then show ?case using same_approved_trans by simp
  qed (simp add: same_approved_list)
  with assms(1,3) show ?thesis by (auto simp: same_approved_def getPairedDevice_def paired_at_eq)
qed

section \<open>Examples\<close>

definition ask :: "string list \<Rightarrow> pair_request" where
  "ask scopes = \<lparr>rq_deviceId = ''dev'', rq_publicKey = ''key'', rq_displayName = None, rq_platform = None, rq_deviceFamily = None,
     rq_clientId = None, rq_clientMode = None, rq_role = Some ''operator'', rq_scopes = Some scopes, rq_remoteIp = None, rq_silent = None\<rparr>"

definition local_connect :: "string list \<Rightarrow> connect_request" where
  "local_connect scopes = \<lparr>cr_deviceId = ''dev'', cr_publicKey = ''key'', cr_displayName = None, cr_platform = None, cr_deviceFamily = None,
     cr_clientId = None, cr_clientMode = None, cr_role = OperatorRole, cr_scopes = scopes, cr_remoteIp = None, cr_isLocalClient = True,
     cr_hasBrowserOriginHeader = False, cr_isControlUi = False, cr_isWebchat = False, cr_skipPairing = False\<rparr>"

definition some_secrets :: fresh_secrets where
  "some_secrets = \<lparr>fs_requestId = (\<lambda>_. ''r9''), fs_token = (\<lambda>_. ''t9''), fs_connectToken = ''t8''\<rparr>"

text \<open>A device that was approved to read.\<close>

definition reader_ops :: "device_op list" where
  "reader_ops = [AskPairing (ask [READ_SCOPE]) ''r1'' 10, Approve ''r1'' ''t1'' 20]"

definition reader_files :: device_files where
  "reader_files = fold device_step reader_ops no_devices"

lemma reader_keyed: "keyed reader_files"
  unfolding reader_files_def by (rule conjunct1 [OF scopes_run]) (simp_all add: reader_ops_def)

theorem device_revoked_token_refused_witness:
  "snd (verifyDeviceToken ''dev'' ''t1'' ''operator'' [] 50 (fold device_step [Rotate ''dev'' ''operator'' None ''t2'' 40]
      (fst (revokeDeviceToken ''dev'' ''operator'' 30 reader_files)))) \<noteq> TokenOk"
proof -
  obtain e where e: "snd (revokeDeviceToken ''dev'' ''operator'' 30 reader_files) = Some e" "dt_token e = ''t1''"
  proof -
    have "map_option dt_token (snd (revokeDeviceToken ''dev'' ''operator'' 30 reader_files)) = Some ''t1''" by code_simp
    then show thesis using that by auto
  qed
  have r: "revokeDeviceToken ''dev'' ''operator'' 30 reader_files = (fst (revokeDeviceToken ''dev'' ''operator'' 30 reader_files), Some e)"
    using e(1) by (metis prod.collapse)
  from device_revoked_token_refused [OF reader_keyed r, of "[Rotate ''dev'' ''operator'' None ''t2'' 40]" "''dev''" "''operator''" "[]" 50]
  show ?thesis by (simp add: e(2))
qed

theorem device_call_needs_approval_witness:
  "\<exists>f' d. getPairedDevice ''dev'' 30 f' = Some d \<and> operatorScopeSatisfied (required_scope (\<lambda>_. None) ''status'') (approved_of d) \<and>
     map_r (\<lambda>h. case h of Connected _ \<Rightarrow> Inr ''in'' | PairingRequired \<Rightarrow> Inl (Error ''out''))
       (case connect_device (local_connect [READ_SCOPE]) some_secrets 30 no_devices of Inr (_, h) \<Rightarrow> [h] | Inl _ \<Rightarrow> []) = Inr [''in'']"
proof -
  let ?c = "local_connect [READ_SCOPE]"
  have run: "map_r (\<lambda>h. case h of Connected _ \<Rightarrow> Inr ''in'' | PairingRequired \<Rightarrow> Inl (Error ''out''))
       (case connect_device ?c some_secrets 30 no_devices of Inr (_, h) \<Rightarrow> [h] | Inl _ \<Rightarrow> []) = Inr [''in'']" by code_simp
  then obtain f' t where t: "connect_device ?c some_secrets 30 no_devices = Inr (f', Connected t)"
    by (auto split: sum.splits prod.splits handshake.splits)
  have a: "snd (handleGatewayRequest (\<lambda>_. None) 40 ''status'' (Some \<lparr>mc_role = Some ''operator'', mc_scopes = Some (cr_scopes ?c)\<rparr>)
      \<lparr>deviceId = None, clientIp = None, connId = None\<rparr> ([], [])) = Admitted"
    by code_simp
  have i: "js_trim (cr_deviceId ?c) = cr_deviceId ?c" by code_simp
  have "\<exists>d. getPairedDevice (cr_deviceId ?c) 30 f' = Some d \<and> operatorScopeSatisfied (required_scope (\<lambda>_. None) ''status'') (approved_of d)"
    by (rule device_call_needs_approval [of "[]" ?c some_secrets 30 f' t, OF _ _ _ i _ _ a])
      (simp_all add: t, simp_all add: local_connect_def operator_scopes_def)
  with run show ?thesis by (auto simp: local_connect_def)
qed

theorem device_no_self_approval_witness:
  "\<exists>d d'. getPairedDevice ''dev'' 40 (fold device_step [AskPairing (ask [ADMIN_SCOPE]) ''r2'' 30] reader_files) = Some d' \<and>
     getPairedDevice ''dev'' 40 reader_files = Some d \<and> approved_of d' = approved_of d"
proof -
  have "map_option pd_deviceId (getPairedDevice ''dev'' 40 (fold device_step [AskPairing (ask [ADMIN_SCOPE]) ''r2'' 30] reader_files)) = Some ''dev''"
    by code_simp
  then obtain d' where d': "getPairedDevice ''dev'' 40 (fold device_step [AskPairing (ask [ADMIN_SCOPE]) ''r2'' 30] reader_files) = Some d'" by auto
  from device_no_self_approval [OF reader_keyed _ this] d' show ?thesis by auto
qed

subsection \<open>More than was shown or checked\<close>

text \<open>
  A request that waits takes up what the same device asks for later, under the same id and without a new notice:
  the approval of a request to read grants what was asked for in the meantime.
\<close>

lemma pending_request_grows:
  "(let f1 = device_step (AskPairing (ask [READ_SCOPE]) ''r1'' 10) no_devices; f2 = device_step (AskPairing (ask [ADMIN_SCOPE]) ''r2'' 20) f1
    in map_option pd_approvedScopes (snd (approveDevicePairing ''r1'' ''t1'' 30 f2))) = Some (Some [READ_SCOPE, ADMIN_SCOPE])"
  by code_simp

text \<open>The token that the handshake gives out is not compared with what was approved.\<close>

lemma ensure_unchecked:
  "map_option dt_scopes (snd (ensureDeviceToken ''dev'' ''operator'' [ADMIN_SCOPE] ''t2'' 30 reader_files)) = Some [ADMIN_SCOPE]"
  by code_simp

text \<open>After a revocation the next handshake gives a new token out.\<close>

lemma revoked_given_again:
  "map_option dt_token (snd (ensureDeviceToken ''dev'' ''operator'' [READ_SCOPE] ''t2'' 40 (fst (revokeDeviceToken ''dev'' ''operator'' 30 reader_files)))) = Some ''t2''"
  by code_simp

text \<open>The data of a device that is named with blanks around its id are written where nothing reads them.\<close>

lemma metadata_lost:
  "(let f = updatePairedDeviceMetadata '' dev'' ((access_metadata (local_connect []))\<lparr>dx_displayName := Some (Some ''n'')\<rparr>) 30 reader_files
    in (map_option pd_displayName (getPairedDevice ''dev'' 30 f), map fst (paired_list f))) = (Some None, [''dev'', '' dev''])"
  by code_simp

end
