(* ===== verification/PairingStore.thy ===== *)
theory PairingStore
  imports AccessPolicy SessionKey "HOL-Library.AList" "HOL-Library.Word"
begin

text \<open>
  The pairing store of the channels: \<open>src/pairing/pairing-store.ts\<close>. A stranger who writes to a
  channel leaves a pairing request with a code; when the owner approves the code, the stranger's id
  goes into the allow list of the account.

  The credentials directory is the state: for each file name what the file holds. Names ending in
  \<open>-pairing.json\<close> and \<open>-allowFrom.json\<close> never meet, so there is one map for each. A file that is
  absent or cannot be opened is \<open>NoDoc\<close>; one whose text does not parse, or parses to a value without
  the expected array, is \<open>BadDoc\<close>; every reader takes both for an empty list. An operation runs under
  the lock of its file and is one step; taking the lock creates a missing file. A thrown error is
  \<open>Inl\<close>.

  A time is the text of \<open>toISOString\<close> at some millisecond (\<open>Iso\<close>) or another text left in the file
  (\<open>OtherTime\<close>), which \<open>Date.parse\<close> may or may not read: \<open>pe_date\<close>, like the collation \<open>pe_before\<close>
  behind \<open>localeCompare\<close> and the adapters of the channel plugins \<open>pe_adapter\<close>, is a parameter. The draws of
  \<open>crypto.randomInt(0, 32)\<close> are a sequence of 5-bit words.
\<close>

section \<open>Data\<close>

datatype stamp = Iso int | OtherTime string

record pairing_request =
  pr_id :: string
  pr_code :: string
  pr_createdAt :: stamp
  pr_lastSeenAt :: stamp
  pr_meta :: "(string \<times> string) list option"

datatype 'a doc = NoDoc | BadDoc | Doc "'a list"

record pairing_disk =
  pk_requests :: "string \<Rightarrow> pairing_request doc"
  pk_allow :: "string \<Rightarrow> allow_entry doc"

record pairing_env =
  pe_adapter :: "string \<Rightarrow> (string \<Rightarrow> string) option"
  pe_date :: "string \<Rightarrow> int option"
  pe_before :: "stamp \<Rightarrow> stamp \<Rightarrow> bool"

definition PAIRING_CODE_LENGTH :: nat where "PAIRING_CODE_LENGTH = 8"
definition PAIRING_CODE_ALPHABET :: string where
  "PAIRING_CODE_ALPHABET = ''ABCDEFGHJKLMNPQRSTUVWXYZ23456789''"
definition PAIRING_PENDING_TTL_MS :: int where "PAIRING_PENDING_TTL_MS = 60 * 60 * 1000"
definition PAIRING_PENDING_MAX :: nat where "PAIRING_PENDING_MAX = 3"

text \<open>\<open>s.toUpperCase()\<close> on Latin-1; the micro sign and the y with diaeresis, whose capitals lie outside it, stay.\<close>

definition js_upper_char :: "char \<Rightarrow> string" where
  "js_upper_char c =
     (let n = of_char c :: nat
      in if n = 223 then ''SS''
         else if (97 \<le> n \<and> n \<le> 122) \<or> (224 \<le> n \<and> n \<le> 254 \<and> n \<noteq> 247) then [char_of (n - 32)] else [c])"

definition js_upper :: "string \<Rightarrow> string" where
  "js_upper s = concat (map js_upper_char s)"

section \<open>File names\<close>

definition unsafe_in_name :: "char \<Rightarrow> bool" where
  "unsafe_in_name c = (c \<in> set [CHR 0x5C, CHR ''/'', CHR '':'', CHR ''*'', CHR ''?'', CHR 0x22, CHR ''<'', CHR ''>'', CHR ''|''])"

fun replace_dots :: "string \<Rightarrow> string" where
  "replace_dots (a # b # s) =
     (if a = CHR ''.'' \<and> b = CHR ''.'' then CHR ''_'' # replace_dots s else a # replace_dots (b # s))"
| "replace_dots s = s"

definition safe_name :: "string \<Rightarrow> string" where
  "safe_name raw = replace_dots (map (\<lambda>c. if unsafe_in_name c then CHR ''_'' else c) raw)"

definition safeChannelKey :: "string \<Rightarrow> string result" where
  "safeChannelKey channel =
     (let raw = js_lower (js_trim channel)
      in if raw = [] then Inl (Error ''invalid pairing channel'')
         else let safe = safe_name raw
              in if safe = [] \<or> safe = ''_'' then Inl (Error ''invalid pairing channel'') else Inr safe)"

definition safeAccountKey :: "string \<Rightarrow> string result" where
  "safeAccountKey accountId =
     (let raw = js_lower (js_trim accountId)
      in if raw = [] then Inl (Error ''invalid pairing account id'')
         else let safe = safe_name raw
              in if safe = [] \<or> safe = ''_'' then Inl (Error ''invalid pairing account id'') else Inr safe)"

definition resolvePairingPath :: "string \<Rightarrow> string result" where
  "resolvePairingPath channel = bind_r (safeChannelKey channel) (\<lambda>base. Inr (base @ ''-pairing.json''))"

definition resolveAllowFromPath :: "string \<Rightarrow> string option \<Rightarrow> string result" where
  "resolveAllowFromPath channel accountId =
     bind_r (safeChannelKey channel) (\<lambda>base.
       let normalizedAccountId = js_trim (opt_str accountId)
       in if normalizedAccountId = [] then Inr (base @ ''-allowFrom.json'')
          else bind_r (safeAccountKey normalizedAccountId) (\<lambda>key. Inr (base @ ''-'' @ key @ ''-allowFrom.json'')))"

section \<open>Reading and pruning requests\<close>

definition doc_items :: "'a doc \<Rightarrow> 'a list" where
  "doc_items f = (case f of Doc xs \<Rightarrow> xs | _ \<Rightarrow> [])"

definition ensureJsonFile :: "'a doc \<Rightarrow> 'a doc" where
  "ensureJsonFile f = (case f of NoDoc \<Rightarrow> Doc [] | _ \<Rightarrow> f)"

definition readPairingRequests :: "string \<Rightarrow> pairing_disk \<Rightarrow> pairing_request list" where
  "readPairingRequests path d = doc_items (pk_requests d path)"

definition parseTimestamp :: "pairing_env \<Rightarrow> stamp \<Rightarrow> int option" where
  "parseTimestamp env v = (case v of Iso t \<Rightarrow> Some t | OtherTime s \<Rightarrow> if s = [] then None else pe_date env s)"

definition isExpired :: "pairing_env \<Rightarrow> int \<Rightarrow> pairing_request \<Rightarrow> bool" where
  "isExpired env now entry =
     (case parseTimestamp env (pr_createdAt entry) of
        None \<Rightarrow> True
      | Some createdAt \<Rightarrow> createdAt = 0 \<or> now - createdAt > PAIRING_PENDING_TTL_MS)"

definition pruneExpiredRequests :: "pairing_env \<Rightarrow> pairing_request list \<Rightarrow> int \<Rightarrow> pairing_request list \<times> bool" where
  "pruneExpiredRequests env reqs now =
     (filter (\<lambda>r. \<not> isExpired env now r) reqs, list_ex (isExpired env now) reqs)"

definition readPrunedPairingRequests :: "pairing_env \<Rightarrow> int \<Rightarrow> string \<Rightarrow> pairing_disk \<Rightarrow> pairing_request list \<times> bool" where
  "readPrunedPairingRequests env now path d = pruneExpiredRequests env (readPairingRequests path d) now"

definition resolveLastSeenAt :: "pairing_env \<Rightarrow> pairing_request \<Rightarrow> int" where
  "resolveLastSeenAt env entry =
     (case or_else (parseTimestamp env (pr_lastSeenAt entry)) (parseTimestamp env (pr_createdAt entry)) of
        Some t \<Rightarrow> t | None \<Rightarrow> 0)"

definition pruneExcessRequests :: "pairing_env \<Rightarrow> pairing_request list \<Rightarrow> nat \<Rightarrow> pairing_request list \<times> bool" where
  "pruneExcessRequests env reqs maxPending =
     (if maxPending = 0 \<or> length reqs \<le> maxPending then (reqs, False)
      else let sorted = sort_key (resolveLastSeenAt env) reqs
           in (drop (length sorted - maxPending) sorted, True))"

section \<open>Codes\<close>

definition randomCode :: "(nat \<Rightarrow> 5 word) \<Rightarrow> string" where
  "randomCode draw = map (\<lambda>i. PAIRING_CODE_ALPHABET ! unat (draw i)) [0..<PAIRING_CODE_LENGTH]"

fun unique_code :: "nat \<Rightarrow> nat \<Rightarrow> string list \<Rightarrow> (nat \<Rightarrow> 5 word) \<Rightarrow> string result" where
  "unique_code 0 attempt existing draw = Inl (Error ''failed to generate unique pairing code'')"
| "unique_code (Suc left) attempt existing draw =
     (let code = randomCode (\<lambda>i. draw (attempt * PAIRING_CODE_LENGTH + i))
      in if code \<notin> set existing then Inr code else unique_code left (Suc attempt) existing draw)"

definition generateUniqueCode :: "string list \<Rightarrow> (nat \<Rightarrow> 5 word) \<Rightarrow> string result" where
  "generateUniqueCode existing draw = unique_code 500 0 existing draw"

section \<open>Accounts and entries\<close>

definition normalizePairingAccountId :: "string option \<Rightarrow> string" where
  "normalizePairingAccountId accountId = js_lower (js_trim (opt_str accountId))"

definition meta_account :: "pairing_request \<Rightarrow> string" where
  "meta_account entry = opt_str (case pr_meta entry of None \<Rightarrow> None | Some m \<Rightarrow> map_of m ''accountId'')"

definition requestMatchesAccountId :: "pairing_request \<Rightarrow> string \<Rightarrow> bool" where
  "requestMatchesAccountId entry normalizedAccountId =
     (normalizedAccountId = [] \<or> js_lower (js_trim (meta_account entry)) = normalizedAccountId)"

definition shouldIncludeLegacyAllowFromEntries :: "string \<Rightarrow> bool" where
  "shouldIncludeLegacyAllowFromEntries normalizedAccountId =
     (normalizedAccountId = [] \<or> normalizedAccountId = DEFAULT_ACCOUNT_ID)"

definition pairing_normalizeId :: "allow_entry \<Rightarrow> string" where
  "pairing_normalizeId v = js_trim (entry_string v)"

definition normalizeAllowEntry :: "pairing_env \<Rightarrow> string \<Rightarrow> string \<Rightarrow> string" where
  "normalizeAllowEntry env channel entry =
     (let trimmed = js_trim entry
      in if trimmed = [] then []
         else if trimmed = ''*'' then []
         else js_trim (case pe_adapter env channel of None \<Rightarrow> trimmed | Some adapt \<Rightarrow> adapt trimmed))"

fun dedupe_from :: "string list \<Rightarrow> string list \<Rightarrow> string list" where
  "dedupe_from seen [] = []"
| "dedupe_from seen (entry # entries) =
     (let normalized = js_trim entry
      in if normalized = [] \<or> normalized \<in> set seen then dedupe_from seen entries
         else normalized # dedupe_from (normalized # seen) entries)"

definition dedupePreserveOrder :: "string list \<Rightarrow> string list" where
  "dedupePreserveOrder entries = dedupe_from [] entries"

definition normalizeAllowFromList :: "pairing_env \<Rightarrow> string \<Rightarrow> allow_entry list \<Rightarrow> string list" where
  "normalizeAllowFromList env channel list =
     dedupePreserveOrder (filter (\<lambda>s. s \<noteq> []) (map (\<lambda>v. normalizeAllowEntry env channel (entry_string v)) list))"

definition normalizeAllowFromInput :: "pairing_env \<Rightarrow> string \<Rightarrow> allow_entry \<Rightarrow> string" where
  "normalizeAllowFromInput env channel entry = normalizeAllowEntry env channel (pairing_normalizeId entry)"

section \<open>Reading the allow lists\<close>

definition readAllowFromStateForPathWithExists ::
  "pairing_env \<Rightarrow> string \<Rightarrow> string \<Rightarrow> pairing_disk \<Rightarrow> string list \<times> bool" where
  "readAllowFromStateForPathWithExists env channel path d =
     (normalizeAllowFromList env channel (doc_items (pk_allow d path)), pk_allow d path \<noteq> NoDoc)"

definition readAllowFromStateForPath :: "pairing_env \<Rightarrow> string \<Rightarrow> string \<Rightarrow> pairing_disk \<Rightarrow> string list" where
  "readAllowFromStateForPath env channel path d = fst (readAllowFromStateForPathWithExists env channel path d)"

definition readAllowFromStateForPathSyncWithExists ::
  "pairing_env \<Rightarrow> string \<Rightarrow> string \<Rightarrow> pairing_disk \<Rightarrow> string list \<times> bool" where
  "readAllowFromStateForPathSyncWithExists env channel path d =
     (case pk_allow d path of
        NoDoc \<Rightarrow> ([], False)
      | BadDoc \<Rightarrow> ([], True)
      | Doc list \<Rightarrow> (normalizeAllowFromList env channel list, True))"

definition readAllowFromStateForPathSync :: "pairing_env \<Rightarrow> string \<Rightarrow> string \<Rightarrow> pairing_disk \<Rightarrow> string list" where
  "readAllowFromStateForPathSync env channel path d = fst (readAllowFromStateForPathSyncWithExists env channel path d)"

definition readNonDefaultAccountAllowFrom ::
  "pairing_env \<Rightarrow> string \<Rightarrow> string \<Rightarrow> pairing_disk \<Rightarrow> js_error + string list" where
  "readNonDefaultAccountAllowFrom env channel accountId d =
     bind_r (resolveAllowFromPath channel (Some accountId)) (\<lambda>p. Inr (readAllowFromStateForPath env channel p d))"

definition readNonDefaultAccountAllowFromSync ::
  "pairing_env \<Rightarrow> string \<Rightarrow> string \<Rightarrow> pairing_disk \<Rightarrow> js_error + string list" where
  "readNonDefaultAccountAllowFromSync env channel accountId d =
     bind_r (resolveAllowFromPath channel (Some accountId)) (\<lambda>p. Inr (readAllowFromStateForPathSync env channel p d))"

definition readLegacyChannelAllowFromStore :: "pairing_env \<Rightarrow> string \<Rightarrow> pairing_disk \<Rightarrow> js_error + string list" where
  "readLegacyChannelAllowFromStore env channel d =
     bind_r (resolveAllowFromPath channel None) (\<lambda>p. Inr (readAllowFromStateForPath env channel p d))"

definition readLegacyChannelAllowFromStoreSync :: "pairing_env \<Rightarrow> string \<Rightarrow> pairing_disk \<Rightarrow> js_error + string list" where
  "readLegacyChannelAllowFromStoreSync env channel d =
     bind_r (resolveAllowFromPath channel None) (\<lambda>p. Inr (readAllowFromStateForPathSync env channel p d))"

definition readChannelAllowFromStore ::
  "pairing_env \<Rightarrow> string \<Rightarrow> string \<Rightarrow> pairing_disk \<Rightarrow> js_error + string list" where
  "readChannelAllowFromStore env channel accountId d =
     (let resolvedAccountId = str_or (js_lower (js_trim accountId)) DEFAULT_ACCOUNT_ID
      in if \<not> shouldIncludeLegacyAllowFromEntries resolvedAccountId
         then readNonDefaultAccountAllowFrom env channel resolvedAccountId d
         else bind_r (resolveAllowFromPath channel (Some resolvedAccountId)) (\<lambda>scopedPath.
           let scopedEntries = readAllowFromStateForPath env channel scopedPath d
           in bind_r (resolveAllowFromPath channel None) (\<lambda>legacyPath.
             let legacyEntries = readAllowFromStateForPath env channel legacyPath d
             in Inr (dedupePreserveOrder (scopedEntries @ legacyEntries)))))"

definition readChannelAllowFromStoreSync ::
  "pairing_env \<Rightarrow> string \<Rightarrow> string \<Rightarrow> pairing_disk \<Rightarrow> js_error + string list" where
  "readChannelAllowFromStoreSync env channel accountId d =
     (let resolvedAccountId = str_or (js_lower (js_trim accountId)) DEFAULT_ACCOUNT_ID
      in if \<not> shouldIncludeLegacyAllowFromEntries resolvedAccountId
         then readNonDefaultAccountAllowFromSync env channel resolvedAccountId d
         else bind_r (resolveAllowFromPath channel (Some resolvedAccountId)) (\<lambda>scopedPath.
           let scopedEntries = readAllowFromStateForPathSync env channel scopedPath d
           in bind_r (resolveAllowFromPath channel None) (\<lambda>legacyPath.
             let legacyEntries = readAllowFromStateForPathSync env channel legacyPath d
             in Inr (dedupePreserveOrder (scopedEntries @ legacyEntries)))))"

section \<open>Changing the allow lists\<close>

definition set_allow :: "string \<Rightarrow> allow_entry doc \<Rightarrow> pairing_disk \<Rightarrow> pairing_disk" where
  "set_allow path f d = d\<lparr>pk_allow := (pk_allow d)(path := f)\<rparr>"

definition readAllowFromState ::
  "pairing_env \<Rightarrow> string \<Rightarrow> allow_entry \<Rightarrow> string \<Rightarrow> pairing_disk \<Rightarrow> string list \<times> string option" where
  "readAllowFromState env channel entry path d =
     (let current = normalizeAllowFromList env channel (doc_items (pk_allow d path));
          normalized = normalizeAllowFromInput env channel entry
      in (current, if normalized = [] then None else Some normalized))"

definition writeAllowFromState :: "string \<Rightarrow> string list \<Rightarrow> pairing_disk \<Rightarrow> pairing_disk" where
  "writeAllowFromState path allowFrom d = set_allow path (Doc (texts allowFrom)) d"

definition updateAllowFromStoreEntry ::
  "pairing_env \<Rightarrow> string \<Rightarrow> allow_entry \<Rightarrow> string option \<Rightarrow> (string list \<Rightarrow> string \<Rightarrow> string list option) \<Rightarrow> pairing_disk
    \<Rightarrow> pairing_disk \<times> (js_error + bool \<times> string list)" where
  "updateAllowFromStoreEntry env channel entry accountId apply d =
     (case resolveAllowFromPath channel accountId of
        Inl e \<Rightarrow> (d, Inl e)
      | Inr path \<Rightarrow>
          (let d1 = set_allow path (ensureJsonFile (pk_allow d path)) d;
               (current, normalized) = readAllowFromState env channel entry path d1
           in case normalized of
                None \<Rightarrow> (d1, Inr (False, current))
              | Some n \<Rightarrow>
                  (case apply current n of
                     None \<Rightarrow> (d1, Inr (False, current))
                   | Some next \<Rightarrow> (writeAllowFromState path next d1, Inr (True, next)))))"

definition addChannelAllowFromStoreEntry ::
  "pairing_env \<Rightarrow> string \<Rightarrow> allow_entry \<Rightarrow> string option \<Rightarrow> pairing_disk \<Rightarrow> pairing_disk \<times> (js_error + bool \<times> string list)" where
  "addChannelAllowFromStoreEntry env channel entry accountId =
     updateAllowFromStoreEntry env channel entry accountId
       (\<lambda>current normalized. if normalized \<in> set current then None else Some (current @ [normalized]))"

definition removeChannelAllowFromStoreEntry ::
  "pairing_env \<Rightarrow> string \<Rightarrow> allow_entry \<Rightarrow> string option \<Rightarrow> pairing_disk \<Rightarrow> pairing_disk \<times> (js_error + bool \<times> string list)" where
  "removeChannelAllowFromStoreEntry env channel entry accountId =
     updateAllowFromStoreEntry env channel entry accountId
       (\<lambda>current normalized.
          let next = filter (\<lambda>e. e \<noteq> normalized) current
          in if length next = length current then None else Some next)"

section \<open>Pairing requests\<close>

definition set_requests :: "string \<Rightarrow> pairing_request doc \<Rightarrow> pairing_disk \<Rightarrow> pairing_disk" where
  "set_requests path f d = d\<lparr>pk_requests := (pk_requests d)(path := f)\<rparr>"

text \<open>\<open>list.toSorted(compare)\<close>: a stable sort.\<close>

fun stable_insert :: "('a \<Rightarrow> 'a \<Rightarrow> bool) \<Rightarrow> 'a \<Rightarrow> 'a list \<Rightarrow> 'a list" where
  "stable_insert le x [] = [x]"
| "stable_insert le x (y # ys) = (if le x y then x # y # ys else y # stable_insert le x ys)"

definition stable_sort :: "('a \<Rightarrow> 'a \<Rightarrow> bool) \<Rightarrow> 'a list \<Rightarrow> 'a list" where
  "stable_sort le xs = foldr (stable_insert le) xs []"

definition listChannelPairingRequests ::
  "pairing_env \<Rightarrow> string \<Rightarrow> string option \<Rightarrow> int \<Rightarrow> pairing_disk \<Rightarrow> pairing_disk \<times> (js_error + pairing_request list)" where
  "listChannelPairingRequests env channel accountId now d =
     (case resolvePairingPath channel of
        Inl e \<Rightarrow> (d, Inl e)
      | Inr path \<Rightarrow>
          (let d1 = set_requests path (ensureJsonFile (pk_requests d path)) d;
               (prunedExpired, expiredRemoved) = readPrunedPairingRequests env now path d1;
               (pruned, cappedRemoved) = pruneExcessRequests env prunedExpired PAIRING_PENDING_MAX;
               d2 = (if expiredRemoved \<or> cappedRemoved then set_requests path (Doc pruned) d1 else d1);
               normalizedAccountId = normalizePairingAccountId accountId;
               filtered = (if normalizedAccountId \<noteq> []
                           then filter (\<lambda>e. requestMatchesAccountId e normalizedAccountId) pruned else pruned)
           in (d2, Inr (stable_sort (\<lambda>a b. pe_before env (pr_createdAt a) (pr_createdAt b)) filtered))))"

definition request_meta :: "(string \<times> string option) list option \<Rightarrow> string \<Rightarrow> (string \<times> string) list" where
  "request_meta meta normalizedAccountId =
     (let baseMeta = (case meta of None \<Rightarrow> []
            | Some kvs \<Rightarrow> filter (\<lambda>(k, v). v \<noteq> []) (map (\<lambda>(k, v). (k, js_trim (opt_str v))) kvs))
      in AList.update ''accountId'' normalizedAccountId baseMeta)"

fun find_index :: "('a \<Rightarrow> bool) \<Rightarrow> 'a list \<Rightarrow> nat option" where
  "find_index p [] = None"
| "find_index p (x # xs) = (if p x then Some 0 else map_option Suc (find_index p xs))"

definition upsertChannelPairingRequest ::
  "pairing_env \<Rightarrow> string \<Rightarrow> allow_entry \<Rightarrow> string \<Rightarrow> (string \<times> string option) list option \<Rightarrow> (nat \<Rightarrow> 5 word) \<Rightarrow> int
    \<Rightarrow> pairing_disk \<Rightarrow> pairing_disk \<times> (js_error + string \<times> bool)" where
  "upsertChannelPairingRequest env channel rawId accountId meta0 draw now d =
     (case resolvePairingPath channel of
        Inl e \<Rightarrow> (d, Inl e)
      | Inr path \<Rightarrow>
          (let d1 = set_requests path (ensureJsonFile (pk_requests d path)) d;
               id = pairing_normalizeId rawId;
               normalizedAccountId = str_or (normalizePairingAccountId (Some accountId)) DEFAULT_ACCOUNT_ID;
               meta = request_meta meta0 normalizedAccountId;
               (reqs, expiredRemoved) = pruneExpiredRequests env (readPairingRequests path d1) now;
               existingCodes = map (\<lambda>r. js_upper (js_trim (pr_code r))) reqs
           in case find_index (\<lambda>r. pr_id r = id \<and> requestMatchesAccountId r normalizedAccountId) reqs of
                Some existingIdx \<Rightarrow>
                  (let existing = reqs ! existingIdx; existingCode = js_trim (pr_code existing)
                   in case (if existingCode \<noteq> [] then Inr existingCode else generateUniqueCode existingCodes draw) of
                        Inl e \<Rightarrow> (d1, Inl e)
                      | Inr code \<Rightarrow>
                          (let next = \<lparr>pr_id = id, pr_code = code, pr_createdAt = pr_createdAt existing,
                                 pr_lastSeenAt = Iso now, pr_meta = Some meta\<rparr>;
                               (capped, _) = pruneExcessRequests env (reqs[existingIdx := next]) PAIRING_PENDING_MAX
                           in (set_requests path (Doc capped) d1, Inr (code, False))))
              | None \<Rightarrow>
                  (let (capped, cappedRemoved) = pruneExcessRequests env reqs PAIRING_PENDING_MAX
                   in if PAIRING_PENDING_MAX > 0 \<and> length capped \<ge> PAIRING_PENDING_MAX
                      then ((if expiredRemoved \<or> cappedRemoved then set_requests path (Doc capped) d1 else d1),
                            Inr ([], False))
                      else case generateUniqueCode existingCodes draw of
                        Inl e \<Rightarrow> (d1, Inl e)
                      | Inr code \<Rightarrow>
                          (set_requests path (Doc (capped @ [\<lparr>pr_id = id, pr_code = code, pr_createdAt = Iso now,
                              pr_lastSeenAt = Iso now, pr_meta = Some meta\<rparr>])) d1, Inr (code, True)))))"

definition approveChannelPairingCode ::
  "pairing_env \<Rightarrow> string \<Rightarrow> string \<Rightarrow> string option \<Rightarrow> int \<Rightarrow> pairing_disk
    \<Rightarrow> pairing_disk \<times> (js_error + pairing_request option)" where
  "approveChannelPairingCode env channel rawCode accountId now d =
     (let code = js_upper (js_trim rawCode)
      in if code = [] then (d, Inr None)
         else case resolvePairingPath channel of
           Inl e \<Rightarrow> (d, Inl e)
         | Inr path \<Rightarrow>
             (let d1 = set_requests path (ensureJsonFile (pk_requests d path)) d;
                  (pruned, removed) = readPrunedPairingRequests env now path d1;
                  normalizedAccountId = normalizePairingAccountId accountId
              in case find_index (\<lambda>r. js_upper (pr_code r) = code \<and> requestMatchesAccountId r normalizedAccountId) pruned of
                   None \<Rightarrow> ((if removed then set_requests path (Doc pruned) d1 else d1), Inr None)
                 | Some idx \<Rightarrow>
                     (let entry = pruned ! idx;
                          d2 = set_requests path (Doc (take idx pruned @ drop (Suc idx) pruned)) d1;
                          (d3, added) = addChannelAllowFromStoreEntry env channel (EntryText (pr_id entry))
                            (or_else (trim_or_undef accountId) (trim_or_undef (Some (meta_account entry)))) d2
                      in (d3, bind_r added (\<lambda>_. Inr (Some entry))))))"

end
