(* ===== verification/PairingGrants.thy ===== *)
theory PairingGrants
  imports PairingStore
begin

text \<open>
  What the pairing store promises: who gets into an allow list and why, how many requests wait and
  under which codes, and that a stranger whose code is approved in time may write.
\<close>

section \<open>Strings and lists\<close>

declare js_trim_lower [simp]

lemma find_index_Some: "find_index p xs = Some i \<Longrightarrow> i < length xs \<and> p (xs ! i)"
  by (induction xs arbitrary: i) (auto split: if_splits)

lemma find_index_None: "find_index p xs = None \<longleftrightarrow> (\<forall>x \<in> set xs. \<not> p x)"
  by (induction xs) auto

lemma set_dedupe_from: "set (dedupe_from seen xs) = js_trim ` set xs - insert [] (set seen)"
  by (induction xs arbitrary: seen) (auto simp: Let_def)

lemma set_dedupe [simp]: "set (dedupePreserveOrder xs) = js_trim ` set xs - {[]}"
  by (simp add: dedupePreserveOrder_def set_dedupe_from)

lemma distinct_dedupe_from: "distinct (dedupe_from seen xs)"
  by (induction xs arbitrary: seen) (auto simp: Let_def set_dedupe_from)

lemma doc_items_ensure [simp]: "doc_items (ensureJsonFile f) = doc_items f"
  by (simp add: doc_items_def ensureJsonFile_def split: doc.split)

lemma doc_items_Doc [simp]: "doc_items (Doc xs) = xs" "doc_items NoDoc = []" "doc_items BadDoc = []"
  by (simp_all add: doc_items_def)

lemma disk_simps [simp]:
  "pk_allow (set_requests p f d) = pk_allow d" "pk_requests (set_allow p g d) = pk_requests d"
  "pk_allow (set_allow p g d) q = (if q = p then g else pk_allow d q)"
  "pk_requests (set_requests p f d) q = (if q = p then f else pk_requests d q)"
  "pk_requests (writeAllowFromState p xs d) = pk_requests d"
  "pk_allow (writeAllowFromState p xs d) q = (if q = p then Doc (texts xs) else pk_allow d q)"
  by (simp_all add: set_requests_def set_allow_def writeAllowFromState_def)

section \<open>Entries\<close>

lemma trim_normalize [simp]: "js_trim (normalizeAllowEntry env ch e) = normalizeAllowEntry env ch e"
  by (simp add: normalizeAllowEntry_def Let_def)

lemma normalize_trimmed [simp]: "normalizeAllowEntry env ch (js_trim e) = normalizeAllowEntry env ch e"
  by (simp add: normalizeAllowEntry_def Let_def)

lemma normalize_star [simp]: "normalizeAllowEntry env ch ''*'' = []" "normalizeAllowEntry env ch [] = []"
proof -
  have "js_trim ''*'' = ''*''" by code_simp
  then show "normalizeAllowEntry env ch ''*'' = []" "normalizeAllowEntry env ch [] = []"
    by (simp_all add: normalizeAllowEntry_def Let_def)
qed

lemma set_normalized_list [simp]:
  "set (normalizeAllowFromList env ch l) = (\<lambda>v. normalizeAllowEntry env ch (entry_string v)) ` set l - {[]}"
proof -
  have "js_trim ` {s \<in> (\<lambda>v. normalizeAllowEntry env ch (entry_string v)) ` set l. s \<noteq> []}
      = {s \<in> (\<lambda>v. normalizeAllowEntry env ch (entry_string v)) ` set l. s \<noteq> []}"
    by (rule trans [OF image_cong [OF refl, where g = "\<lambda>s. s"]]) auto
  then show ?thesis by (auto simp: normalizeAllowFromList_def)
qed

lemma entry_text [simp]: "entry_string (EntryText s) = s"
  by (simp add: entry_string_def)

lemma input_normalized [simp]: "normalizeAllowFromInput env ch e = normalizeAllowEntry env ch (entry_string e)"
  by (simp add: normalizeAllowFromInput_def pairing_normalizeId_def)

text \<open>
  An entry is steady when normalising it a second time keeps it, or refuses it. The adapters strip one
  prefix, so an id without a doubled prefix is steady; without an adapter every entry is.
\<close>

definition steady_entry :: "pairing_env \<Rightarrow> string \<Rightarrow> string \<Rightarrow> bool" where
  "steady_entry env ch e =
     (normalizeAllowEntry env ch (normalizeAllowEntry env ch e) \<in> {normalizeAllowEntry env ch e, []})"

definition steady_file :: "pairing_env \<Rightarrow> string \<Rightarrow> pairing_disk \<Rightarrow> string \<Rightarrow> bool" where
  "steady_file env ch d p = list_all (\<lambda>v. steady_entry env ch (entry_string v)) (doc_items (pk_allow d p))"

lemma steady_normalized: "steady_entry env ch e \<Longrightarrow> steady_entry env ch (normalizeAllowEntry env ch e)"
  by (auto simp: steady_entry_def)

lemma steady_without_adapter: "pe_adapter env ch = None \<Longrightarrow> steady_entry env ch e"
  by (auto simp: steady_entry_def normalizeAllowEntry_def Let_def)

section \<open>The allow list of a file\<close>

definition granted :: "pairing_env \<Rightarrow> string \<Rightarrow> pairing_disk \<Rightarrow> string \<Rightarrow> string set" where
  "granted env ch d p = set (readAllowFromStateForPath env ch p d)"

lemma granted_eq:
  "granted env ch d p = (\<lambda>v. normalizeAllowEntry env ch (entry_string v)) ` set (doc_items (pk_allow d p)) - {[]}"
  by (simp add: granted_def readAllowFromStateForPath_def readAllowFromStateForPathWithExists_def)

lemma granted_cong: "doc_items (pk_allow d p) = doc_items (pk_allow d' p) \<Longrightarrow> granted env ch d p = granted env ch d' p"
  by (simp add: granted_eq)

lemma granted_requests [simp]: "granted env ch (set_requests q f d) p = granted env ch d p"
  by (simp add: granted_eq)

lemma granted_write:
  "granted env ch (writeAllowFromState q xs d) p =
     (if p = q then normalizeAllowEntry env ch ` set xs - {[]} else granted env ch d p)"
  by (auto simp: granted_eq image_image)

lemma steady_granted:
  assumes "steady_file env ch d p" "x \<in> granted env ch d p"
  shows "steady_entry env ch x" "normalizeAllowEntry env ch x \<in> {x, []}"
  using assms by (auto simp: steady_file_def granted_eq list_all_iff steady_entry_def)

lemma steady_write:
  "steady_file env ch (writeAllowFromState q xs d) p =
     (if p = q then list_all (steady_entry env ch) xs else steady_file env ch d p)"
  by (simp add: steady_file_def list_all_iff)

lemma allow_update_cases:
  assumes "resolveAllowFromPath ch acct = Inr q"
    and "\<And>d1. granted env ch d1 = granted env ch d \<Longrightarrow> pk_requests d1 = pk_requests d \<Longrightarrow> P d1"
    and "\<And>d1 next. granted env ch d1 = granted env ch d \<Longrightarrow> pk_requests d1 = pk_requests d
      \<Longrightarrow> normalizeAllowEntry env ch (entry_string e) \<noteq> []
      \<Longrightarrow> apply (normalizeAllowFromList env ch (doc_items (pk_allow d q))) (normalizeAllowEntry env ch (entry_string e)) = Some next
      \<Longrightarrow> P (writeAllowFromState q next d1)"
  shows "P (fst (updateAllowFromStoreEntry env ch e acct apply d))"
proof -
  let ?d1 = "set_allow q (ensureJsonFile (pk_allow d q)) d"
  have 1: "granted env ch ?d1 = granted env ch d" "pk_requests ?d1 = pk_requests d"
    by (auto intro!: ext granted_cong)
  show ?thesis
    using assms(1) assms(2) [OF 1] assms(3) [OF 1]
    by (auto simp: updateAllowFromStoreEntry_def readAllowFromState_def Let_def split: option.splits)
qed

lemma requests_update [simp]: "pk_requests (fst (updateAllowFromStoreEntry env ch e acct apply d)) = pk_requests d"
  by (auto simp: updateAllowFromStoreEntry_def readAllowFromState_def Let_def split: sum.splits option.splits)

lemma update_no_path: "resolveAllowFromPath ch acct = Inl e' \<Longrightarrow> updateAllowFromStoreEntry env ch e acct apply d = (d, Inl e')"
  by (simp add: updateAllowFromStoreEntry_def)

text \<open>The entry an addition can bring to the file \<open>p\<close>: one that survives reading.\<close>

definition grantable :: "pairing_env \<Rightarrow> string \<Rightarrow> string option \<Rightarrow> string \<Rightarrow> string \<Rightarrow> string set" where
  "grantable env ch acct e p =
     {n. resolveAllowFromPath ch acct = Inr p \<and> n = normalizeAllowEntry env ch e \<and> n \<noteq> []
       \<and> normalizeAllowEntry env ch n = n}"

lemma granted_add:
  assumes "steady_file env ch d p" "steady_entry env ch (entry_string e)"
  shows "granted env ch (fst (addChannelAllowFromStoreEntry env ch e acct d)) p \<subseteq>
    granted env ch d p \<union> grantable env ch acct (entry_string e) p"
proof (cases "resolveAllowFromPath ch acct")
  case (Inr q)
  show ?thesis
    unfolding addChannelAllowFromStoreEntry_def
  proof (rule allow_update_cases [OF Inr], goal_cases)
    case (2 d1 next')
    let ?n = "normalizeAllowEntry env ch (entry_string e)"
    have next': "next' = normalizeAllowFromList env ch (doc_items (pk_allow d q)) @ [?n]" using 2(4) by (simp split: if_splits)
    show ?case
    proof (cases "p = q")
      case True
      have "x \<in> granted env ch d q \<union> grantable env ch acct (entry_string e) q"
        if x: "x \<in> normalizeAllowEntry env ch ` set next' - {[]}" for x
      proof -
        obtain y where y: "y \<in> set next'" "x = normalizeAllowEntry env ch y" "x \<noteq> []" using x by auto
        from y(1) consider "y = ?n" | "y \<in> granted env ch d q" by (auto simp: next' granted_eq)
        then show ?thesis
        proof cases
          case 1
          then show ?thesis using y assms(2) Inr by (auto simp: grantable_def steady_entry_def)
        next
          case 2
          then show ?thesis using y steady_granted(2) [of env ch d q y] assms(1) True by auto
        qed
      qed
      then show ?thesis using 2(1) True by (auto simp: granted_write)
    qed (use 2(1) in \<open>auto simp: granted_write\<close>)
  qed auto
qed (simp add: addChannelAllowFromStoreEntry_def update_no_path)

lemma granted_remove:
  assumes "steady_file env ch d p"
  shows "granted env ch (fst (removeChannelAllowFromStoreEntry env ch e acct d)) p \<subseteq> granted env ch d p"
proof (cases "resolveAllowFromPath ch acct")
  case (Inr q)
  show ?thesis
    unfolding removeChannelAllowFromStoreEntry_def
  proof (rule allow_update_cases [OF Inr], goal_cases)
    case (2 d1 next')
    have next': "set next' \<subseteq> granted env ch d q" using 2(4) by (auto simp: Let_def granted_eq split: if_splits)
    have "normalizeAllowEntry env ch y \<in> granted env ch d q"
      if "y \<in> set next'" "normalizeAllowEntry env ch y \<noteq> []" "p = q" for y
      using that next' steady_granted(2) [of env ch d q y] assms by auto
    with 2(1) show ?case by (auto simp: granted_write)
  qed auto
qed (simp add: removeChannelAllowFromStoreEntry_def update_no_path)

lemma steady_ensured: "steady_file env ch (set_allow q (ensureJsonFile (pk_allow d q)) d) p = steady_file env ch d p"
  by (simp add: steady_file_def)

lemma steady_current:
  "steady_file env ch d q \<Longrightarrow> list_all (steady_entry env ch) (normalizeAllowFromList env ch (doc_items (pk_allow d q)))"
  by (auto simp: steady_file_def list_all_iff dest: steady_normalized)

lemma steady_update:
  assumes "steady_file env ch d p" "steady_file env ch d p \<Longrightarrow> resolveAllowFromPath ch acct = Inr p \<Longrightarrow>
      \<forall>next. apply (normalizeAllowFromList env ch (doc_items (pk_allow d p))) (normalizeAllowEntry env ch (entry_string e)) = Some next
        \<longrightarrow> list_all (steady_entry env ch) next"
  shows "steady_file env ch (fst (updateAllowFromStoreEntry env ch e acct apply d)) p"
  using assms
  by (auto simp: updateAllowFromStoreEntry_def readAllowFromState_def Let_def steady_write steady_ensured
      split: sum.split option.split)

lemma steady_add:
  assumes "steady_file env ch d p" "steady_entry env ch (entry_string e)"
  shows "steady_file env ch (fst (addChannelAllowFromStoreEntry env ch e acct d)) p"
  unfolding addChannelAllowFromStoreEntry_def
  using steady_current [OF assms(1)] steady_normalized [OF assms(2)] by (intro steady_update assms) auto

lemma steady_remove:
  assumes "steady_file env ch d p"
  shows "steady_file env ch (fst (removeChannelAllowFromStoreEntry env ch e acct d)) p"
  unfolding removeChannelAllowFromStoreEntry_def
  using steady_current [OF assms(1)] by (intro steady_update assms) (auto simp: Let_def list_all_iff split: if_splits)

lemma granted_after_add:
  assumes "resolveAllowFromPath ch acct = Inr p" "n = normalizeAllowEntry env ch (entry_string e)"
    and "n \<noteq> []" "normalizeAllowEntry env ch n = n"
  shows "n \<in> granted env ch (fst (addChannelAllowFromStoreEntry env ch e acct d)) p"
proof (cases "n \<in> granted env ch d p")
  case True
  then show ?thesis
    using assms(1-3) by (auto simp: addChannelAllowFromStoreEntry_def updateAllowFromStoreEntry_def
        readAllowFromState_def Let_def granted_eq)
next
  case False
  then have "n \<notin> set (normalizeAllowFromList env ch (doc_items (pk_allow d p)))" by (simp add: granted_eq)
  then show ?thesis
    using assms by (simp add: addChannelAllowFromStoreEntry_def updateAllowFromStoreEntry_def
        readAllowFromState_def Let_def granted_write)
qed

lemma other_files:
  assumes "resolveAllowFromPath ch acct = Inr p" "q \<noteq> p"
  shows "pk_allow (fst (addChannelAllowFromStoreEntry env ch e acct d)) q = pk_allow d q"
  using assms by (simp add: addChannelAllowFromStoreEntry_def updateAllowFromStoreEntry_def Let_def split_beta
      split: option.split)

section \<open>Traces\<close>

text \<open>
  What happens to the files of one channel: a stranger asks, the owner approves a code or lists the
  requests, and the owner edits an allow list. Every event is one step of the directory.
\<close>

datatype pairing_event =
    AskPairing allow_entry string "(string \<times> string option) list option" "nat \<Rightarrow> 5 word" int
  | ApproveCode string "string option" int
  | ListRequests "string option" int
  | AddAllowed allow_entry "string option"
  | RemoveAllowed allow_entry "string option"

definition pairing_step :: "pairing_env \<Rightarrow> string \<Rightarrow> pairing_event \<Rightarrow> pairing_disk \<Rightarrow> pairing_disk" where
  "pairing_step env ch ev d =
     (case ev of
        AskPairing i a m draw now \<Rightarrow> fst (upsertChannelPairingRequest env ch i a m draw now d)
      | ApproveCode c a now \<Rightarrow> fst (approveChannelPairingCode env ch c a now d)
      | ListRequests a now \<Rightarrow> fst (listChannelPairingRequests env ch a now d)
      | AddAllowed e a \<Rightarrow> fst (addChannelAllowFromStoreEntry env ch e a d)
      | RemoveAllowed e a \<Rightarrow> fst (removeChannelAllowFromStoreEntry env ch e a d))"

definition pairing_run :: "pairing_env \<Rightarrow> string \<Rightarrow> pairing_event list \<Rightarrow> pairing_disk \<Rightarrow> pairing_disk" where
  "pairing_run env ch = fold (pairing_step env ch)"

definition empty_disk :: pairing_disk where
  "empty_disk = \<lparr>pk_requests = (\<lambda>_. NoDoc), pk_allow = (\<lambda>_. NoDoc)\<rparr>"

lemmas pairing_step_simps [simp] = pairing_step_def [of _ _ "AskPairing i a m draw now" for i a m draw now, simplified]
  pairing_step_def [of _ _ "ApproveCode c a now" for c a now, simplified]
  pairing_step_def [of _ _ "ListRequests a now" for a now, simplified]
  pairing_step_def [of _ _ "AddAllowed e a" for e a, simplified]
  pairing_step_def [of _ _ "RemoveAllowed e a" for e a, simplified]

text \<open>A store fed by events: what it holds was there at the start, or an event of the trace brought it.\<close>

locale event_store =
  fixes step :: "'ev \<Rightarrow> 's \<Rightarrow> 's" and holds :: "'s \<Rightarrow> 'x set" and gives :: "'s \<Rightarrow> 'ev \<Rightarrow> 'x set"
  assumes step_holds: "holds (step ev s) \<subseteq> holds s \<union> gives s ev"
begin

lemma origin:
  assumes "x \<in> holds (fold step es s)" "x \<notin> holds s"
  shows "\<exists>es1 ev es2. es = es1 @ ev # es2 \<and> x \<in> gives (fold step es1 s) ev"
  using assms(1)
proof (induction es rule: rev_induct)
  case (snoc ev es)
  show ?case
  proof (cases "x \<in> holds (fold step es s)")
    case True
    then show ?thesis using snoc.IH by (metis append.assoc append_Cons)
  next
    case False
    then have "x \<in> gives (fold step es s) ev" using snoc.prems step_holds by fastforce
    then show ?thesis by blast
  qed
qed (use assms(2) in simp)

end

section \<open>Pending requests\<close>

definition requests_of :: "string \<Rightarrow> pairing_disk \<Rightarrow> pairing_request list" where
  "requests_of ch d = (case resolvePairingPath ch of Inl _ \<Rightarrow> [] | Inr p \<Rightarrow> readPairingRequests p d)"

definition request_account :: "string \<Rightarrow> string" where
  "request_account a = str_or (normalizePairingAccountId (Some a)) DEFAULT_ACCOUNT_ID"

lemma requests_of_Inr: "resolvePairingPath ch = Inr p \<Longrightarrow> requests_of ch d = doc_items (pk_requests d p)"
  by (simp add: requests_of_def readPairingRequests_def)

lemma requests_of_update [simp]:
  "requests_of ch (fst (updateAllowFromStoreEntry env ch' e acct apply d)) = requests_of ch d"
  by (simp add: requests_of_def readPairingRequests_def split: sum.split)

lemma requests_of_add [simp]:
  "requests_of ch (fst (addChannelAllowFromStoreEntry env ch' e acct d)) = requests_of ch d"
  "requests_of ch (fst (removeChannelAllowFromStoreEntry env ch' e acct d)) = requests_of ch d"
  by (simp_all add: addChannelAllowFromStoreEntry_def removeChannelAllowFromStoreEntry_def)

definition fresh :: "pairing_env \<Rightarrow> int \<Rightarrow> pairing_request list \<Rightarrow> pairing_request list" where
  "fresh env now rs = filter (\<lambda>r. \<not> isExpired env now r) rs"

definition capped :: "pairing_env \<Rightarrow> pairing_request list \<Rightarrow> pairing_request list" where
  "capped env rs = fst (pruneExcessRequests env rs PAIRING_PENDING_MAX)"

lemma prune_fresh: "pruneExpiredRequests env rs now = (fresh env now rs, list_ex (isExpired env now) rs)"
  by (simp add: pruneExpiredRequests_def fresh_def)

lemma set_fresh: "set (fresh env now rs) = {r \<in> set rs. \<not> isExpired env now r}"
  by (simp add: fresh_def)

lemma length_fresh: "length (fresh env now rs) \<le> length rs"
  by (simp add: fresh_def)

lemma set_capped: "set (capped env rs) \<subseteq> set rs"
  by (auto simp: capped_def pruneExcessRequests_def Let_def dest: in_set_dropD)

lemma length_capped: "length (capped env rs) \<le> PAIRING_PENDING_MAX"
  by (auto simp: capped_def pruneExcessRequests_def Let_def PAIRING_PENDING_MAX_def)

lemma capped_id: "length rs \<le> PAIRING_PENDING_MAX \<Longrightarrow> capped env rs = rs"
  by (simp add: capped_def pruneExcessRequests_def)

text \<open>The requests after a request, an approval and a listing.\<close>

definition asked :: "string \<Rightarrow> string \<Rightarrow> (string \<times> string option) list option \<Rightarrow> int \<Rightarrow> string \<Rightarrow> stamp \<Rightarrow> pairing_request" where
  "asked i a m now code created =
     \<lparr>pr_id = i, pr_code = code, pr_createdAt = created, pr_lastSeenAt = Iso now,
      pr_meta = Some (request_meta m (request_account a))\<rparr>"

abbreviation asks :: "string \<Rightarrow> string \<Rightarrow> pairing_request \<Rightarrow> bool" where
  "asks i a r \<equiv> pr_id r = i \<and> requestMatchesAccountId r (request_account a)"

lemma upsert_requests_cases:
  fixes rawId :: allow_entry and d :: pairing_disk and env :: pairing_env and now :: int and a :: string
    and m :: "(string \<times> string option) list option" and draw :: "nat \<Rightarrow> 5 word"
  assumes "resolvePairingPath ch = Inr p"
  defines "rs \<equiv> requests_of ch d" and "i \<equiv> pairing_normalizeId rawId"
  defines "reqs \<equiv> fresh env now rs"
  defines "res \<equiv> upsertChannelPairingRequest env ch rawId a m draw now d"
  assumes keep: "\<And>e. snd res \<in> {Inl e, Inr ([], False)} \<Longrightarrow> P rs (snd res)"
    and prune: "length (capped env reqs) = PAIRING_PENDING_MAX \<Longrightarrow> P (capped env reqs) (Inr ([], False))"
    and again: "\<And>k code. k < length reqs \<Longrightarrow> asks i a (reqs ! k)
      \<Longrightarrow> js_trim (pr_code (reqs ! k)) \<noteq> [] \<and> code = js_trim (pr_code (reqs ! k))
          \<or> js_trim (pr_code (reqs ! k)) = [] \<and> generateUniqueCode (map (\<lambda>r. js_upper (js_trim (pr_code r))) reqs) draw = Inr code
      \<Longrightarrow> P (capped env (reqs[k := asked i a m now code (pr_createdAt (reqs ! k))])) (Inr (code, False))"
    and new: "\<And>code. \<forall>r \<in> set reqs. \<not> asks i a r \<Longrightarrow> length (capped env reqs) < PAIRING_PENDING_MAX
      \<Longrightarrow> generateUniqueCode (map (\<lambda>r. js_upper (js_trim (pr_code r))) reqs) draw = Inr code
      \<Longrightarrow> P (capped env reqs @ [asked i a m now code (Iso now)]) (Inr (code, True))"
  shows "P (requests_of ch (fst res)) (snd res)"
proof -
  let ?d1 = "set_requests p (ensureJsonFile (pk_requests d p)) d"
  have rs: "readPairingRequests p ?d1 = rs" "doc_items (pk_requests d p) = rs"
    by (simp_all add: rs_def requests_of_Inr [OF assms(1)] readPairingRequests_def)
  have max_pos: "PAIRING_PENDING_MAX > 0" by (simp add: PAIRING_PENDING_MAX_def)
  define over where "over xs = snd (pruneExcessRequests env xs PAIRING_PENDING_MAX)" for xs
  have excess: "pruneExcessRequests env xs PAIRING_PENDING_MAX = (capped env xs, over xs)" for xs
    by (simp add: capped_def over_def)
  note defs = res_def upsertChannelPairingRequest_def assms(1) Let_def rs prune_fresh reqs_def [symmetric] i_def [symmetric]
    request_account_def [symmetric] excess
  show ?thesis
  proof (cases "find_index (asks i a) reqs")
    case None
    then have fa: "\<forall>r \<in> set reqs. \<not> asks i a r" by (simp add: find_index_None)
    show ?thesis
    proof (cases "length (capped env reqs) < PAIRING_PENDING_MAX")
      case True
      then show ?thesis using None keep new [OF fa True]
        by (auto simp: defs requests_of_Inr [OF assms(1)] asked_def split: sum.splits)
    next
      case False
      then have full: "length (capped env reqs) = PAIRING_PENDING_MAX" using length_capped [of env reqs] by simp
      show ?thesis using None keep prune [OF full] full
        by (auto simp: defs requests_of_Inr [OF assms(1)] max_pos)
    qed
  next
    case (Some k)
    then have k: "k < length reqs" "asks i a (reqs ! k)" using find_index_Some [OF Some] by auto
    let ?kept = "js_trim (pr_code (reqs ! k))"
    let ?next = "\<lambda>code. capped env (reqs[k := asked i a m now code (pr_createdAt (reqs ! k))])"
    define choice where "choice = (if ?kept \<noteq> [] then Inr ?kept
      else generateUniqueCode (map (\<lambda>r. js_upper (js_trim (pr_code r))) reqs) draw)"
    have res: "res = (case choice of Inl e \<Rightarrow> (?d1, Inl e)
        | Inr code \<Rightarrow> (set_requests p (Doc (?next code)) ?d1, Inr (code, False)))"
      by (simp add: defs Some choice_def asked_def split: sum.split)
    show ?thesis
    proof (cases choice)
      case (Inl e)
      then have "snd res \<in> {Inl e, Inr ([], False)}" "requests_of ch (fst res) = rs"
        by (simp_all add: res requests_of_Inr [OF assms(1)] rs)
      then show ?thesis using keep by metis
    next
      case (Inr code)
      then have "P (?next code) (Inr (code, False))"
        by (intro again [OF k]) (auto simp: choice_def split: if_splits)
      then show ?thesis using Inr by (simp add: res requests_of_Inr [OF assms(1)])
    qed
  qed
qed

definition code_matches :: "string \<Rightarrow> string option \<Rightarrow> pairing_request \<Rightarrow> bool" where
  "code_matches c acct r \<longleftrightarrow> js_upper (pr_code r) = js_upper (js_trim c)
     \<and> requestMatchesAccountId r (normalizePairingAccountId acct)"

definition approval_account :: "string option \<Rightarrow> pairing_request \<Rightarrow> string option" where
  "approval_account acct r = or_else (trim_or_undef acct) (trim_or_undef (Some (meta_account r)))"

lemma approve_cases:
  fixes env :: pairing_env and d :: pairing_disk and c :: string and acct :: "string option" and now :: int
  assumes "resolvePairingPath ch = Inr p"
  defines "F \<equiv> fresh env now (requests_of ch d)"
  defines "res \<equiv> approveChannelPairingCode env ch c acct now d"
  obtains (refused) "snd res = Inr None" "pk_allow (fst res) = pk_allow d"
      "requests_of ch (fst res) \<in> {requests_of ch d, F}"
      "js_upper (js_trim c) = [] \<or> (\<forall>r \<in> set F. \<not> code_matches c acct r)"
  | (approved) k d2 where "k < length F" "code_matches c acct (F ! k)"
      "requests_of ch (fst res) = take k F @ drop (Suc k) F" "pk_allow d2 = pk_allow d"
      "fst res = fst (addChannelAllowFromStoreEntry env ch (EntryText (pr_id (F ! k))) (approval_account acct (F ! k)) d2)"
      "snd res = bind_r (snd (addChannelAllowFromStoreEntry env ch (EntryText (pr_id (F ! k)))
          (approval_account acct (F ! k)) d2)) (\<lambda>_. Inr (Some (F ! k)))"
proof (cases "js_upper (js_trim c) = []")
  case True
  then show thesis by (intro refused) (simp_all add: res_def approveChannelPairingCode_def)
next
  case False
  let ?d1 = "set_requests p (ensureJsonFile (pk_requests d p)) d"
  have rs: "readPairingRequests p ?d1 = requests_of ch d" "doc_items (pk_requests d p) = requests_of ch d"
    by (simp_all add: requests_of_Inr [OF assms(1)] readPairingRequests_def)
  note defs = res_def approveChannelPairingCode_def assms(1) Let_def readPrunedPairingRequests_def rs prune_fresh
    F_def [symmetric] code_matches_def [symmetric] approval_account_def [symmetric]
  show thesis
  proof (cases "find_index (code_matches c acct) F")
    case None
    then have "\<forall>r \<in> set F. \<not> code_matches c acct r" by (simp add: find_index_None)
    moreover have "res = ((if list_ex (isExpired env now) (requests_of ch d) then set_requests p (Doc F) ?d1 else ?d1), Inr None)"
      using None False by (simp add: defs)
    moreover have "requests_of ch ?d1 = requests_of ch d" by (simp add: requests_of_Inr [OF assms(1)])
    moreover have "requests_of ch (set_requests p (Doc F) ?d1) = F" by (simp add: requests_of_Inr [OF assms(1)])
    ultimately show thesis by (intro refused) simp_all
  next
    case (Some k)
    let ?d2 = "set_requests p (Doc (take k F @ drop (Suc k) F)) ?d1"
    note found = find_index_Some [OF Some]
    have res: "res = (fst (addChannelAllowFromStoreEntry env ch (EntryText (pr_id (F ! k))) (approval_account acct (F ! k)) ?d2),
        bind_r (snd (addChannelAllowFromStoreEntry env ch (EntryText (pr_id (F ! k))) (approval_account acct (F ! k)) ?d2))
          (\<lambda>_. Inr (Some (F ! k))))"
      using False Some by (simp add: defs split_beta)
    show thesis
    proof (rule approved [of k ?d2])
      show "k < length F" "code_matches c acct (F ! k)" using found by simp_all
      show "requests_of ch (fst res) = take k F @ drop (Suc k) F"
        by (simp add: res) (simp add: requests_of_Inr [OF assms(1)])
      show "fst res = fst (addChannelAllowFromStoreEntry env ch (EntryText (pr_id (F ! k))) (approval_account acct (F ! k)) ?d2)"
        "snd res = bind_r (snd (addChannelAllowFromStoreEntry env ch (EntryText (pr_id (F ! k)))
          (approval_account acct (F ! k)) ?d2)) (\<lambda>_. Inr (Some (F ! k)))"
        by (simp_all only: res fst_conv snd_conv)
      show "pk_allow ?d2 = pk_allow d" by simp
    qed
  qed
qed

lemma list_requests:
  assumes "resolvePairingPath ch = Inr p"
  shows "requests_of ch (fst (listChannelPairingRequests env ch acct now d))
      \<in> {requests_of ch d, capped env (fresh env now (requests_of ch d))}"
    and "pk_allow (fst (listChannelPairingRequests env ch acct now d)) = pk_allow d"
proof -
  define over where "over xs = snd (pruneExcessRequests env xs PAIRING_PENDING_MAX)" for xs
  have excess: "pruneExcessRequests env xs PAIRING_PENDING_MAX = (capped env xs, over xs)" for xs
    by (simp add: capped_def over_def)
  let ?d1 = "set_requests p (ensureJsonFile (pk_requests d p)) d"
  have rs: "readPairingRequests p ?d1 = requests_of ch d" "doc_items (pk_requests d p) = requests_of ch d"
    by (simp_all add: requests_of_Inr [OF assms(1)] readPairingRequests_def)
  note defs = listChannelPairingRequests_def assms Let_def readPrunedPairingRequests_def rs prune_fresh excess
  have "requests_of ch ?d1 = requests_of ch d" by (simp add: requests_of_Inr [OF assms(1)])
  moreover have "requests_of ch (set_requests p (Doc xs) ?d1) = xs" for xs by (simp add: requests_of_Inr [OF assms(1)])
  ultimately show "requests_of ch (fst (listChannelPairingRequests env ch acct now d))
      \<in> {requests_of ch d, capped env (fresh env now (requests_of ch d))}"
    by (simp add: defs)
  show "pk_allow (fst (listChannelPairingRequests env ch acct now d)) = pk_allow d"
    by (simp add: defs)
qed

lemma upsert_allow [simp]: "pk_allow (fst (upsertChannelPairingRequest env ch i a m draw now d)) = pk_allow d"
  by (simp add: upsertChannelPairingRequest_def Let_def split_beta split: sum.split option.split)

lemma list_allow [simp]: "pk_allow (fst (listChannelPairingRequests env ch acct now d)) = pk_allow d"
proof (cases "resolvePairingPath ch")
  case (Inr p)
  then show ?thesis by (rule list_requests(2))
qed (simp add: listChannelPairingRequests_def)

text \<open>A channel without a valid name: every operation on its requests fails, and nothing changes.\<close>

lemma no_pairing_path:
  assumes "resolvePairingPath ch = Inl e"
  shows "fst (approveChannelPairingCode env ch c acct now d) = d"
    and "fst (upsertChannelPairingRequest env ch i a m draw now d) = d"
    and "fst (listChannelPairingRequests env ch acct now d) = d"
    and "requests_of ch d = []"
  using assms by (simp_all add: approveChannelPairingCode_def upsertChannelPairingRequest_def
      listChannelPairingRequests_def requests_of_def Let_def)

section \<open>Where a request comes from\<close>

definition pending :: "string \<Rightarrow> pairing_disk \<Rightarrow> (string \<times> string) set" where
  "pending ch d = (\<lambda>r. (pr_id r, js_lower (js_trim (meta_account r)))) ` set (requests_of ch d)"

definition asks_of :: "pairing_event \<Rightarrow> (string \<times> string) set" where
  "asks_of ev = (case ev of AskPairing i a m draw now \<Rightarrow> {(pairing_normalizeId i, request_account a)} | _ \<Rightarrow> {})"

lemma request_account_normal [simp]:
  "js_lower (js_trim (request_account a)) = request_account a" "request_account a \<noteq> []"
proof -
  have "js_lower (js_trim ''default'') = ''default''" by code_simp
  then show "js_lower (js_trim (request_account a)) = request_account a" "request_account a \<noteq> []"
    by (simp_all add: request_account_def str_or_def normalizePairingAccountId_def DEFAULT_ACCOUNT_ID_def)
qed

lemma asked_simps [simp]:
  "pr_id (asked i a m now c t) = i" "pr_code (asked i a m now c t) = c" "pr_createdAt (asked i a m now c t) = t"
  "meta_account (asked i a m now c t) = request_account a"
  by (simp_all add: asked_def meta_account_def request_meta_def update_Some_unfold opt_str_def AList.update_conv')

lemma pending_step:
  "pending ch (pairing_step env ch ev d) \<subseteq> pending ch d \<union> asks_of ev"
proof (cases "resolvePairingPath ch")
  case (Inl e)
  then show ?thesis by (simp add: pending_def no_pairing_path)
next
  case (Inr p)
  show ?thesis
  proof (cases ev)
    case (AskPairing i a m draw now)
    let ?F = "fresh env now (requests_of ch d)"
    have "(\<lambda>rs res. (\<lambda>r. (pr_id r, js_lower (js_trim (meta_account r)))) ` set rs \<subseteq> pending ch d \<union> {(pairing_normalizeId i, request_account a)})
      (requests_of ch (fst (upsertChannelPairingRequest env ch i a m draw now d)))
      (snd (upsertChannelPairingRequest env ch i a m draw now d))"
    proof (rule upsert_requests_cases [OF Inr], goal_cases)
      case (3 k code)
      have "set (capped env (?F[k := asked (pairing_normalizeId i) a m now code (pr_createdAt (?F ! k))]))
          \<subseteq> insert (asked (pairing_normalizeId i) a m now code (pr_createdAt (?F ! k))) (set ?F)"
        by (rule subset_trans [OF set_capped set_update_subset_insert])
      then show ?case by (auto simp: pending_def set_fresh)
    qed (use set_capped [of env ?F] in \<open>auto simp: pending_def set_fresh\<close>)
    then show ?thesis by (simp add: AskPairing asks_of_def pending_def)
  next
    case (ApproveCode c acct now)
    let ?F = "fresh env now (requests_of ch d)"
    show ?thesis
      by (rule approve_cases [OF Inr, where env = env and now = now and d = d and c = c and acct = acct])
        (auto simp: ApproveCode pending_def set_fresh dest!: in_set_takeD in_set_dropD)
  next
    case (ListRequests acct now)
    show ?thesis
      using list_requests(1) [OF Inr, of env acct now d] set_capped [of env "fresh env now (requests_of ch d)"]
      by (auto simp: ListRequests pending_def set_fresh)
  qed (auto simp: pending_def)
qed

interpretation requests: event_store "pairing_step env ch" "pending ch" "\<lambda>_. asks_of" for env ch
  by unfold_locales (rule pending_step)

section \<open>Where a grant comes from\<close>

lemma account_key_normal: "safeAccountKey (js_lower (js_trim a)) = safeAccountKey (js_trim a)"
  by (simp add: safeAccountKey_def)

lemma allow_path_normal [simp]:
  "resolveAllowFromPath ch (Some (js_lower (js_trim a))) = resolveAllowFromPath ch (Some a)"
  by (simp add: resolveAllowFromPath_def account_key_normal opt_str_def Let_def cong: if_cong)

lemma approval_path:
  assumes "code_matches c acct r" "js_trim (meta_account r) \<noteq> []"
  shows "resolveAllowFromPath ch (approval_account acct r) = resolveAllowFromPath ch (Some (meta_account r))"
proof (cases "js_trim (opt_str acct) = []")
  case True
  then show ?thesis
    using assms(2) allow_path_normal [of ch "meta_account r"] allow_path_normal [of ch "js_trim (meta_account r)"]
    by (auto simp: approval_account_def or_else_def trim_or_undef_def opt_str_def Let_def split: option.splits)
next
  case False
  then obtain x where x: "acct = Some x" "js_trim x \<noteq> []" by (auto simp: opt_str_def split: option.splits)
  then have "js_lower (js_trim (meta_account r)) = js_lower (js_trim x)"
    using assms(1) by (simp add: code_matches_def requestMatchesAccountId_def normalizePairingAccountId_def opt_str_def)
  then have "resolveAllowFromPath ch (Some (meta_account r)) = resolveAllowFromPath ch (Some x)"
    by (metis allow_path_normal)
  moreover have "resolveAllowFromPath ch (approval_account acct r) = resolveAllowFromPath ch (Some x)"
    using x allow_path_normal [of ch x] allow_path_normal [of ch "js_trim x"]
    by (simp add: approval_account_def trim_or_undef_def or_else_def)
  ultimately show ?thesis by simp
qed

definition grants_of :: "pairing_env \<Rightarrow> string \<Rightarrow> string \<Rightarrow> pairing_disk \<Rightarrow> pairing_event \<Rightarrow> string set" where
  "grants_of env ch p d ev =
     (case ev of
        AddAllowed e acct \<Rightarrow> grantable env ch acct (entry_string e) p
      | ApproveCode c acct now \<Rightarrow>
          (case snd (approveChannelPairingCode env ch c acct now d) of
             Inr (Some r) \<Rightarrow>
               {n. r \<in> set (fresh env now (requests_of ch d)) \<and> code_matches c acct r
                   \<and> n \<in> grantable env ch (approval_account acct r) (pr_id r) p}
           | _ \<Rightarrow> {})
      | _ \<Rightarrow> {})"

text \<open>
  A directory is steady at a file when its entries and the ids that wait are. Of a directory that is
  not, or after an event with an entry that is not, nothing is claimed: the store then holds anything.
\<close>

definition steady_ids :: "pairing_env \<Rightarrow> string \<Rightarrow> pairing_disk \<Rightarrow> bool" where
  "steady_ids env ch d = (\<forall>i \<in> fst ` pending ch d. steady_entry env ch i)"

definition steady_event :: "pairing_env \<Rightarrow> string \<Rightarrow> pairing_event \<Rightarrow> bool" where
  "steady_event env ch ev =
     (case ev of
        AskPairing i a m draw now \<Rightarrow> steady_entry env ch (pairing_normalizeId i)
      | AddAllowed e acct \<Rightarrow> steady_entry env ch (entry_string e)
      | _ \<Rightarrow> True)"

definition steady_store :: "pairing_env \<Rightarrow> string \<Rightarrow> string \<Rightarrow> pairing_disk \<Rightarrow> string set" where
  "steady_store env ch p d = (if steady_file env ch d p \<and> steady_ids env ch d then granted env ch d p else UNIV)"

definition steady_grants :: "pairing_env \<Rightarrow> string \<Rightarrow> string \<Rightarrow> pairing_disk \<Rightarrow> pairing_event \<Rightarrow> string set" where
  "steady_grants env ch p d ev = (if steady_event env ch ev then grants_of env ch p d ev else UNIV)"

lemma add_result_ok:
  "resolveAllowFromPath ch acct = Inr p \<Longrightarrow> \<exists>x. snd (addChannelAllowFromStoreEntry env ch e acct d) = Inr x"
  by (auto simp: addChannelAllowFromStoreEntry_def updateAllowFromStoreEntry_def Let_def split_beta split: option.split)

lemma granted_same_allow: "pk_allow d = pk_allow d' \<Longrightarrow> granted env ch d = granted env ch d'"
  by (auto intro!: ext granted_cong)

lemma steady_same:
  assumes "pk_allow d1 = pk_allow d"
  shows "granted env ch d1 p = granted env ch d p" "steady_file env ch d1 p = steady_file env ch d p"
  using granted_same_allow [OF assms] by (simp_all add: steady_file_def assms)

lemma granted_approve:
  fixes c :: string and acct :: "string option" and now :: int
  assumes st: "steady_file env ch d p" "steady_ids env ch d"
  defines "d' \<equiv> fst (approveChannelPairingCode env ch c acct now d)"
  shows "granted env ch d' p \<subseteq> granted env ch d p \<union> grants_of env ch p d (ApproveCode c acct now) \<and> steady_file env ch d' p"
proof (cases "resolvePairingPath ch")
  case (Inl e)
  then show ?thesis using st by (simp add: d'_def no_pairing_path)
next
  case (Inr q)
  show ?thesis
  proof (rule approve_cases [OF Inr, where env = env and now = now and d = d and c = c and acct = acct], goal_cases)
    case 1
    then show ?case using st steady_same [OF 1(2)] by (simp add: d'_def)
  next
    case (2 k d2)
    let ?r = "fresh env now (requests_of ch d) ! k"
    let ?acct = "approval_account acct ?r"
    have "?r \<in> set (fresh env now (requests_of ch d))" using 2(1) by simp
    then have "pr_id ?r \<in> fst ` pending ch d" by (simp add: pending_def set_fresh image_image)
    then have id: "steady_entry env ch (entry_string (EntryText (pr_id ?r)))" using st(2) unfolding steady_ids_def entry_text by blast
    have d2: "granted env ch d2 p = granted env ch d p" "steady_file env ch d2 p"
      using steady_same [OF 2(4)] st(1) by simp_all
    have "grantable env ch ?acct (pr_id ?r) p \<subseteq> grants_of env ch p d (ApproveCode c acct now)"
    proof
      fix n assume n: "n \<in> grantable env ch ?acct (pr_id ?r) p"
      then obtain x where "snd (addChannelAllowFromStoreEntry env ch (EntryText (pr_id ?r)) ?acct d2) = Inr x"
        using add_result_ok by (fastforce simp: grantable_def)
      then have "snd (approveChannelPairingCode env ch c acct now d) = Inr (Some ?r)" using 2(6) by simp
      then show "n \<in> grants_of env ch p d (ApproveCode c acct now)" using n 2(1,2) by (simp add: grants_of_def)
    qed
    then show ?case
      using granted_add [OF d2(2) id, of ?acct] steady_add [OF d2(2) id, of ?acct] d2(1) 2(5)
      by (auto simp: d'_def)
  qed
qed

lemma granted_step:
  assumes st: "steady_file env ch d p" "steady_ids env ch d" "steady_event env ch ev"
  shows "granted env ch (pairing_step env ch ev d) p \<subseteq> granted env ch d p \<union> grants_of env ch p d ev
    \<and> steady_file env ch (pairing_step env ch ev d) p"
proof (cases ev)
  case (AskPairing i a m draw now)
  then show ?thesis using st by (simp add: steady_same [OF upsert_allow])
next
  case (ListRequests acct now)
  then show ?thesis using st by (simp add: steady_same [OF list_allow])
next
  case (AddAllowed e acct)
  then have "steady_entry env ch (entry_string e)" using st(3) by (simp add: steady_event_def)
  then show ?thesis using granted_add [OF st(1)] steady_add [OF st(1)] by (simp add: AddAllowed grants_of_def)
next
  case (RemoveAllowed e acct)
  then show ?thesis using granted_remove [OF st(1), of e acct] steady_remove [OF st(1), of e acct] by auto
next
  case (ApproveCode c acct now)
  then show ?thesis using granted_approve [OF st(1,2), of c acct now] by simp
qed

lemma steady_ids_step:
  assumes "steady_ids env ch d" "steady_event env ch ev"
  shows "steady_ids env ch (pairing_step env ch ev d)"
proof -
  have "fst ` pending ch (pairing_step env ch ev d) \<subseteq> fst ` pending ch d \<union> fst ` asks_of ev"
    using pending_step [of ch env ev d] by auto
  moreover have "\<forall>i \<in> fst ` asks_of ev. steady_entry env ch i"
    using assms(2) by (auto simp: asks_of_def steady_event_def split: pairing_event.splits)
  ultimately show ?thesis using assms(1) unfolding steady_ids_def by blast
qed

lemma steady_run:
  assumes "steady_file env ch d p" "steady_ids env ch d" "list_all (steady_event env ch) es"
  shows "steady_file env ch (pairing_run env ch es d) p \<and> steady_ids env ch (pairing_run env ch es d)"
  using assms
proof (induction es arbitrary: d)
  case (Cons ev es)
  then show ?case using granted_step [of env ch d p ev] steady_ids_step [of env ch d ev] by (simp add: pairing_run_def)
qed (simp add: pairing_run_def)

lemma steady_store_step:
  "steady_store env ch p (pairing_step env ch ev d) \<subseteq> steady_store env ch p d \<union> steady_grants env ch p d ev"
  using granted_step [of env ch d p ev] steady_ids_step [of env ch d ev]
  by (auto simp: steady_store_def steady_grants_def)

interpretation grants: event_store "pairing_step env ch" "steady_store env ch p" "steady_grants env ch p" for env ch p
  by unfold_locales (rule steady_store_step)

text \<open>
  C38: Nobody enters an allow list unasked. An entry that a file holds after any sequence of events of
  the channel, and did not hold before, was either added to that file by the owner, or is the
  normalised id of a request: someone asked for the account of that file, and later, while the request
  had not expired, the owner approved its code. And it is never the wildcard. The entries and ids are
  steady (normalising twice keeps or refuses them), and no requests wait at the start.
\<close>

theorem pairing_grant_provenance:
  assumes "steady_file env ch d0 p" "requests_of ch d0 = []" "list_all (steady_event env ch) es"
    and "e \<in> granted env ch (pairing_run env ch es d0) p" "e \<notin> granted env ch d0 p"
  shows "e \<noteq> ''*'' \<and>
    ((\<exists>entry acct. AddAllowed entry acct \<in> set es \<and> resolveAllowFromPath ch acct = Inr p
        \<and> e = normalizeAllowEntry env ch (entry_string entry))
     \<or> (\<exists>es1 c acct now es2 i a m draw t r.
          es = es1 @ ApproveCode c acct now # es2 \<and> AskPairing i a m draw t \<in> set es1
          \<and> snd (approveChannelPairingCode env ch c acct now (pairing_run env ch es1 d0)) = Inr (Some r)
          \<and> js_upper (pr_code r) = js_upper (js_trim c) \<and> \<not> isExpired env now r
          \<and> pr_id r = pairing_normalizeId i \<and> e = normalizeAllowEntry env ch (pr_id r)
          \<and> resolveAllowFromPath ch (Some (request_account a)) = Inr p))"
proof -
  have ids: "steady_ids env ch d0" using assms(2) by (simp add: steady_ids_def pending_def)
  have "e \<in> steady_store env ch p (fold (pairing_step env ch) es d0)" "e \<notin> steady_store env ch p d0"
    using steady_run [OF assms(1) ids assms(3)] assms(1,4,5) ids by (simp_all add: steady_store_def pairing_run_def)
  from grants.origin [OF this] obtain es1 ev es2
    where split: "es = es1 @ ev # es2" and "e \<in> steady_grants env ch p (pairing_run env ch es1 d0) ev"
    by (auto simp: pairing_run_def)
  then have give: "e \<in> grants_of env ch p (pairing_run env ch es1 d0) ev"
    using assms(3) by (simp add: steady_grants_def)
  have "normalizeAllowEntry env ch e = e" "e \<noteq> []"
    using give by (auto simp: grants_of_def grantable_def split: pairing_event.splits sum.splits option.splits)
  then have star: "e \<noteq> ''*''" by auto
  from give consider
      (add) entry acct where "ev = AddAllowed entry acct" "e \<in> grantable env ch acct (entry_string entry) p"
    | (approve) c acct now r where "ev = ApproveCode c acct now"
        "snd (approveChannelPairingCode env ch c acct now (pairing_run env ch es1 d0)) = Inr (Some r)"
        "r \<in> set (fresh env now (requests_of ch (pairing_run env ch es1 d0)))" "code_matches c acct r"
        "e \<in> grantable env ch (approval_account acct r) (pr_id r) p"
    by (auto simp: grants_of_def split: pairing_event.splits sum.splits option.splits)
  then show ?thesis
  proof cases
    case add
    then show ?thesis using star split by (auto simp: grantable_def)
  next
    case approve
    let ?acc = "js_lower (js_trim (meta_account r))"
    have "(pr_id r, ?acc) \<in> pending ch (fold (pairing_step env ch) es1 d0)"
      using approve(3) by (auto simp: pending_def set_fresh pairing_run_def)
    moreover have "(pr_id r, ?acc) \<notin> pending ch d0" using assms(2) by (simp add: pending_def)
    ultimately obtain xs ask ys where "es1 = xs @ ask # ys" "(pr_id r, ?acc) \<in> asks_of ask"
      using requests.origin [of "(pr_id r, ?acc)" ch env es1 d0] by blast
    then have "ask \<in> set es1" "(pr_id r, ?acc) \<in> asks_of ask" by simp_all
    then obtain i a m draw t where ask: "AskPairing i a m draw t \<in> set es1" "pr_id r = pairing_normalizeId i" "?acc = request_account a"
      by (auto simp: asks_of_def split: pairing_event.splits)
    have "?acc \<noteq> []" by (simp only: ask(3) request_account_normal not_False_eq_True)
    then have "js_trim (meta_account r) \<noteq> []" by simp
    then have "resolveAllowFromPath ch (approval_account acct r) = resolveAllowFromPath ch (Some (request_account a))"
      using approval_path [OF approve(4)] allow_path_normal [of ch "meta_account r"] ask(3) by simp
    then show ?thesis
      using star split approve ask(1,2) by (fastforce simp: grantable_def set_fresh code_matches_def)
  qed
qed

definition plain_env :: pairing_env where
  "plain_env = \<lparr>pe_adapter = (\<lambda>_. None), pe_date = (\<lambda>_. None), pe_before = (\<lambda>_ _. True)\<rparr>"

definition sample_grant :: "pairing_event list" where
  "sample_grant = [AskPairing (EntryText '' u1 '') ''Work'' None (\<lambda>_. 0) 1000, ApproveCode ''aaaaaaaa'' None 2000]"

lemma sample_grant_run:
  "''u1'' \<in> granted plain_env ''telegram'' (pairing_run plain_env ''telegram'' sample_grant empty_disk) ''telegram-work-allowFrom.json''"
  by code_simp

theorem pairing_grant_provenance_witness:
  "\<exists>i a m draw t. AskPairing i a m draw t \<in> set sample_grant
     \<and> ''u1'' = normalizeAllowEntry plain_env ''telegram'' (pairing_normalizeId i)
     \<and> resolveAllowFromPath ''telegram'' (Some (request_account a)) = Inr ''telegram-work-allowFrom.json''"
proof -
  have steady: "steady_file plain_env ''telegram'' empty_disk ''telegram-work-allowFrom.json''"
    "list_all (steady_event plain_env ''telegram'') sample_grant"
    by (simp_all add: steady_file_def empty_disk_def sample_grant_def steady_event_def steady_without_adapter plain_env_def)
  have none: "requests_of ''telegram'' empty_disk = []"
    "''u1'' \<notin> granted plain_env ''telegram'' empty_disk ''telegram-work-allowFrom.json''"
    by (simp_all add: requests_of_def readPairingRequests_def empty_disk_def granted_eq split: sum.split)
  from pairing_grant_provenance [OF steady(1) none(1) steady(2) sample_grant_run none(2)] show ?thesis
  proof (elim conjE disjE exE)
    fix entry acct
    assume "AddAllowed entry acct \<in> set sample_grant"
    then show ?thesis by (simp add: sample_grant_def)
  next
    fix es1 c acct now es2 i a m draw t r
    assume "sample_grant = es1 @ ApproveCode c acct now # es2" "AskPairing i a m draw t \<in> set es1"
      and "pr_id r = pairing_normalizeId i" "''u1'' = normalizeAllowEntry plain_env ''telegram'' (pr_id r)"
      and path: "resolveAllowFromPath ''telegram'' (Some (request_account a)) = Inr ''telegram-work-allowFrom.json''"
    then show ?thesis using path by (metis Un_iff set_append)
  qed
qed

section \<open>What the store does not promise\<close>

text \<open>
  The adapters of the channels strip one prefix: the one of Telegram is
  \<open>entry.replace(/^(telegram|tg):/i, "")\<close>. An entry with the prefix twice is not steady, and so the
  wildcard gets past the test that refuses it: it is written as \<open>tg:*\<close> and read as \<open>*\<close>.
\<close>

definition telegram_normalizeAllowEntry :: "string \<Rightarrow> string" where
  "telegram_normalizeAllowEntry entry =
     (if js_lower (take 9 entry) = ''telegram:'' then drop 9 entry
      else if js_lower (take 3 entry) = ''tg:'' then drop 3 entry else entry)"

definition telegram_env :: pairing_env where
  "telegram_env = plain_env\<lparr>pe_adapter := (\<lambda>_. Some telegram_normalizeAllowEntry)\<rparr>"

lemma wildcard_refused_once:
  "granted telegram_env ''telegram'' (pairing_run telegram_env ''telegram'' [AddAllowed (EntryText ''tg:*'') None] empty_disk)
     ''telegram-allowFrom.json'' = {}"
  by code_simp

lemma wildcard_through_prefix:
  "granted telegram_env ''telegram'' (pairing_run telegram_env ''telegram'' [AddAllowed (EntryText ''tg:tg:*'') None] empty_disk)
     ''telegram-allowFrom.json'' = {''*''}"
  by code_simp

text \<open>
  A request may name an account that no file name can be made of. The approval of its code takes the
  request out of the file first and fails after that: the owner sees an error, and the request is gone.
\<close>

lemma approval_lost:
  "let d = pairing_run plain_env ''telegram'' [AskPairing (EntryText ''u1'') ''/'' None (\<lambda>_. 0) 1000] empty_disk;
       res = approveChannelPairingCode plain_env ''telegram'' ''AAAAAAAA'' None 2000 d
   in length (requests_of ''telegram'' d) = 1
     \<and> snd res = Inl (Error ''invalid pairing account id'') \<and> requests_of ''telegram'' (fst res) = []"
  by code_simp

text \<open>The synchronous readers agree with the others.\<close>

lemma sync_reads_agree:
  "readChannelAllowFromStoreSync env ch a d = readChannelAllowFromStore env ch a d"
  "readLegacyChannelAllowFromStoreSync env ch d = readLegacyChannelAllowFromStore env ch d"
proof -
  have nil: "normalizeAllowFromList env ch [] = []" by (simp add: normalizeAllowFromList_def dedupePreserveOrder_def)
  have "readAllowFromStateForPathSync env ch p d = readAllowFromStateForPath env ch p d" for p
    by (simp add: readAllowFromStateForPathSync_def readAllowFromStateForPath_def readAllowFromStateForPathSyncWithExists_def
        readAllowFromStateForPathWithExists_def nil split: doc.split)
  then show "readChannelAllowFromStoreSync env ch a d = readChannelAllowFromStore env ch a d"
    "readLegacyChannelAllowFromStoreSync env ch d = readLegacyChannelAllowFromStore env ch d"
    by (simp_all add: readChannelAllowFromStoreSync_def readChannelAllowFromStore_def readNonDefaultAccountAllowFromSync_def
        readNonDefaultAccountAllowFrom_def readLegacyChannelAllowFromStoreSync_def readLegacyChannelAllowFromStore_def
        Let_def cong: if_cong)
qed

section \<open>File names stay in the directory\<close>

fun has_dots :: "string \<Rightarrow> bool" where
  "has_dots (a # b # s) = (a = CHR ''.'' \<and> b = CHR ''.'' \<or> has_dots (b # s))"
| "has_dots s = False"

lemma no_dots_left: "\<not> has_dots (replace_dots s)"
proof (induction s rule: replace_dots.induct)
  case (1 a b s)
  show ?case
  proof (cases "a = CHR ''.'' \<and> b = CHR ''.''")
    case True
    then show ?thesis using 1(1) by (cases "replace_dots s") auto
  next
    case False
    have "\<exists>c t. replace_dots (b # s) = c # t \<and> (c = b \<or> c = CHR ''_'')" by (cases s) auto
    then obtain c t where "replace_dots (b # s) = c # t" "c = b \<or> c = CHR ''_''" by blast
    then show ?thesis using 1(2) False by auto
  qed
qed auto

lemma has_dots_append:
  "t \<noteq> [] \<Longrightarrow> hd t \<noteq> CHR ''.'' \<Longrightarrow> has_dots (s @ t) \<longleftrightarrow> has_dots s \<or> has_dots t"
proof (induction s)
  case (Cons a s)
  then show ?case by (cases s; cases t) auto
next
  case Nil
  then show ?case by (cases t) auto
qed

lemma set_replace_dots: "set (replace_dots s) \<subseteq> insert (CHR ''_'') (set s)"
  by (induction s rule: replace_dots.induct) auto

definition contained_name :: "string \<Rightarrow> bool" where
  "contained_name p = (\<not> has_dots p \<and> (\<forall>c \<in> set p. \<not> unsafe_in_name c))"

lemma safe_name_contained: "contained_name (safe_name raw)"
proof -
  have "\<not> unsafe_in_name (CHR ''_'')" by code_simp
  then show ?thesis
    using set_replace_dots [of "map (\<lambda>c. if unsafe_in_name c then CHR ''_'' else c) raw"]
    by (auto simp: contained_name_def safe_name_def no_dots_left)
qed

lemma contained_append:
  "contained_name s \<Longrightarrow> contained_name t \<Longrightarrow> t \<noteq> [] \<Longrightarrow> hd t \<noteq> CHR ''.'' \<Longrightarrow> contained_name (s @ t)"
  by (auto simp: contained_name_def has_dots_append)

lemma store_files_contained:
  "resolveAllowFromPath ch acct = Inr p \<Longrightarrow> contained_name p"
  "resolvePairingPath ch = Inr p \<Longrightarrow> contained_name p"
proof -
  have ends: "contained_name ''-allowFrom.json''" "contained_name ''-pairing.json''" by code_simp+
  have dash: "contained_name (''-'' @ k @ ''-allowFrom.json'')" if "contained_name k" for k
  proof -
    have "contained_name (k @ ''-allowFrom.json'')" using contained_append [OF that ends(1)] by simp
    then have "contained_name (''-'' @ (k @ ''-allowFrom.json''))"
      by (cases "k @ ''-allowFrom.json''") (auto simp: contained_name_def unsafe_in_name_def)
    then show ?thesis by simp
  qed
  have keys: "safeChannelKey x = Inr k \<Longrightarrow> contained_name k" "safeAccountKey x = Inr k \<Longrightarrow> contained_name k" for x k
    using safe_name_contained by (auto simp: safeChannelKey_def safeAccountKey_def Let_def split: if_splits)
  show "resolvePairingPath ch = Inr p \<Longrightarrow> contained_name p"
    using keys(1) contained_append [OF _ ends(2)] by (auto simp: resolvePairingPath_def bind_r_eq_Inr)
  show "resolveAllowFromPath ch acct = Inr p \<Longrightarrow> contained_name p"
    using keys contained_append [OF _ ends(1)] contained_append [OF _ dash]
    by (auto simp: resolveAllowFromPath_def bind_r_eq_Inr Let_def split: if_splits)
qed

end
