(* ===== verification/PairingCodes.thy ===== *)
theory PairingCodes
  imports PairingGrants
begin

text \<open>
  The requests of a channel: at most three wait, one for each sender and account, under codes that tell
  them apart; a request waits until its code is approved or its hour is over; and an approval in time lets
  the sender in.
\<close>

section \<open>Codes\<close>

definition code_ok :: "string \<Rightarrow> bool" where
  "code_ok c = (length c = PAIRING_CODE_LENGTH \<and> set c \<subseteq> set PAIRING_CODE_ALPHABET)"

lemma alphabet_chars: "c \<in> set PAIRING_CODE_ALPHABET \<Longrightarrow> js_upper_char c = [c] \<and> \<not> js_space c"
proof -
  have "list_all (\<lambda>c. js_upper_char c = [c] \<and> \<not> js_space c) PAIRING_CODE_ALPHABET" by code_simp
  then show "c \<in> set PAIRING_CODE_ALPHABET \<Longrightarrow> js_upper_char c = [c] \<and> \<not> js_space c" by (simp add: list_all_iff)
qed

lemma code_ok_plain:
  assumes "code_ok c"
  shows "js_trim c = c" "js_upper c = c" "c \<noteq> []"
proof -
  have all: "\<forall>x \<in> set c. x \<in> set PAIRING_CODE_ALPHABET" using assms by (auto simp: code_ok_def)
  then show "js_trim c = c" using alphabet_chars by (intro trim_no_space) (auto simp: list_all_iff)
  have "concat (map js_upper_char c) = concat (map (\<lambda>x. [x]) c)"
    using all alphabet_chars by (intro arg_cong [of _ _ concat] map_cong) blast+
  then show "js_upper c = c" by (simp add: js_upper_def)
  show "c \<noteq> []" using assms by (auto simp: code_ok_def PAIRING_CODE_LENGTH_def)
qed

lemma random_code_ok: "code_ok (randomCode draw)"
proof -
  have "unat (w :: 5 word) < length PAIRING_CODE_ALPHABET" for w
    using unsigned_less [where ?'b = 5 and ?'a = nat, of w] by (simp add: PAIRING_CODE_ALPHABET_def)
  then show ?thesis by (auto simp: code_ok_def randomCode_def)
qed

lemma unique_code_ok: "unique_code n k existing draw = Inr c \<Longrightarrow> code_ok c \<and> c \<notin> set existing"
  by (induction n k existing draw rule: unique_code.induct) (auto simp: Let_def random_code_ok split: if_splits)

lemma generated_code_ok: "generateUniqueCode existing draw = Inr c \<Longrightarrow> code_ok c \<and> c \<notin> set existing"
  by (auto simp: generateUniqueCode_def dest: unique_code_ok)

section \<open>The invariant\<close>

definition request_ok :: "pairing_request \<Rightarrow> bool" where
  "request_ok r = (code_ok (pr_code r) \<and> js_lower (js_trim (meta_account r)) = meta_account r \<and> meta_account r \<noteq> [])"

abbreviation asker :: "pairing_request \<Rightarrow> string \<times> string" where
  "asker r \<equiv> (pr_id r, meta_account r)"

definition tidy :: "pairing_request list \<Rightarrow> bool" where
  "tidy rs = (length rs \<le> PAIRING_PENDING_MAX \<and> distinct (map pr_code rs) \<and> distinct (map asker rs)
     \<and> list_all request_ok rs)"

lemma tidy_capped: "tidy rs \<Longrightarrow> capped env rs = rs"
  by (simp add: tidy_def capped_id)

lemma tidy_fresh: "tidy rs \<Longrightarrow> tidy (fresh env now rs)"
  using length_fresh [of env now rs]
  by (auto simp: tidy_def set_fresh list_all_iff) (simp_all add: fresh_def distinct_map_filter)

lemma remove_nth_append: "k < length xs \<Longrightarrow> xs = take k xs @ xs ! k # drop (Suc k) xs"
  by (rule id_take_nth_drop)

lemma tidy_remove: "tidy rs \<Longrightarrow> tidy (take k rs @ drop (Suc k) rs)"
proof (cases "k < length rs")
  case True
  assume t: "tidy rs"
  define as bs where "as = take k rs" and "bs = drop (Suc k) rs"
  have rs: "rs = as @ rs ! k # bs" using remove_nth_append [OF True] by (simp add: as_def bs_def)
  from t have "tidy (as @ rs ! k # bs)" using rs by simp
  then show ?thesis by (fold as_def bs_def) (auto simp: tidy_def)
qed simp

lemma asks_asker:
  "request_ok r \<Longrightarrow> asks i a r \<longleftrightarrow> asker r = (i, request_account a)"
  by (auto simp: request_ok_def requestMatchesAccountId_def)

lemma asked_ok: "code_ok c \<Longrightarrow> request_ok (asked i a m now c t)"
  by (simp add: request_ok_def)

lemma tidy_again:
  assumes "tidy rs" "k < length rs" "asks i a (rs ! k)" "c = js_trim (pr_code (rs ! k))"
  shows "tidy (rs[k := asked i a m now c t])"
proof -
  have ok: "request_ok (rs ! k)" using assms(1,2) by (auto simp: tidy_def list_all_length)
  then have c: "c = pr_code (rs ! k)" using assms(4) code_ok_plain(1) by (simp add: request_ok_def)
  have same: "asker (asked i a m now c t) = asker (rs ! k)" using ok assms(3) asks_asker [of "rs ! k" i a] by auto
  have "map pr_code (rs[k := asked i a m now c t]) = map pr_code rs"
    "map asker (rs[k := asked i a m now c t]) = map asker rs"
    using c same assms(2) by (simp_all add: map_update list_update_same_conv)
  moreover have "list_all request_ok (rs[k := asked i a m now c t])"
    using assms(1,2) ok c asked_ok [of c i a m now t]
    by (auto simp: tidy_def list_all_length nth_list_update request_ok_def)
  ultimately show ?thesis using assms(1) by (simp add: tidy_def)
qed

lemma tidy_new:
  assumes "tidy rs" "length rs < PAIRING_PENDING_MAX" "\<forall>r \<in> set rs. \<not> asks i a r"
    and "generateUniqueCode (map (\<lambda>r. js_upper (js_trim (pr_code r))) rs) draw = Inr c"
  shows "tidy (rs @ [asked i a m now c t])"
proof -
  have c: "code_ok c" "c \<notin> set (map (\<lambda>r. js_upper (js_trim (pr_code r))) rs)"
    using generated_code_ok [OF assms(4)] by auto
  have ok: "request_ok r" if "r \<in> set rs" for r using assms(1) that by (auto simp: tidy_def list_all_iff)
  have "js_upper (js_trim (pr_code r)) = pr_code r" if "r \<in> set rs" for r
    using ok [OF that] code_ok_plain by (simp add: request_ok_def)
  then have "c \<notin> pr_code ` set rs" using c(2) by (force simp: image_iff)
  moreover have "(i, request_account a) \<notin> asker ` set rs"
  proof
    assume "(i, request_account a) \<in> asker ` set rs"
    then obtain r where "r \<in> set rs" "asker r = (i, request_account a)" by fastforce
    then show False using assms(3) asks_asker [OF ok, of r i a] by blast
  qed
  ultimately show ?thesis using assms(1,2) c(1) by (auto simp: tidy_def asked_ok)
qed

lemma tidy_ask:
  assumes "tidy (requests_of ch d)"
  shows "tidy (requests_of ch (fst (upsertChannelPairingRequest env ch i a m draw now d)))"
proof (cases "resolvePairingPath ch")
  case (Inr p)
  let ?F = "fresh env now (requests_of ch d)"
  have F: "tidy ?F" "capped env ?F = ?F" using assms by (simp_all add: tidy_fresh tidy_capped)
  have kept: "js_trim (pr_code (?F ! k)) \<noteq> []" if "k < length ?F" for k
    using F(1) that code_ok_plain by (auto simp: tidy_def list_all_length request_ok_def)
  have "(\<lambda>rs res. tidy rs) (requests_of ch (fst (upsertChannelPairingRequest env ch i a m draw now d)))
      (snd (upsertChannelPairingRequest env ch i a m draw now d))"
  proof (rule upsert_requests_cases [OF Inr], goal_cases)
    case (3 k code)
    then have "tidy (?F[k := asked (pairing_normalizeId i) a m now code (pr_createdAt (?F ! k))])"
      using kept by (intro tidy_again [OF F(1)]) auto
    then show ?case by (simp add: tidy_capped)
  next
    case (4 code)
    then show ?case using tidy_new [OF F(1)] F(2) by auto
  qed (use assms F in simp_all)
  then show ?thesis .
qed (simp add: no_pairing_path tidy_def)

lemma tidy_step:
  assumes "tidy (requests_of ch d)"
  shows "tidy (requests_of ch (pairing_step env ch ev d))"
proof (cases "resolvePairingPath ch")
  case (Inl e)
  then show ?thesis by (simp add: no_pairing_path tidy_def)
next
  case (Inr p)
  note F = tidy_fresh [OF assms]
  show ?thesis
  proof (cases ev)
    case (AskPairing i a m draw now)
    then show ?thesis using tidy_ask [OF assms] by simp
  next
    case (ApproveCode c acct now)
    show ?thesis
    proof (rule approve_cases [OF Inr, where env = env and now = now and d = d and c = c and acct = acct], goal_cases)
      case 1
      then show ?case using assms F by (auto simp: ApproveCode)
    next
      case (2 k d2)
      then show ?case using tidy_remove [OF F] by (simp add: ApproveCode)
    qed
  next
    case (ListRequests acct now)
    then show ?thesis
      using list_requests(1) [OF Inr, of env acct now d] assms F by (auto simp: tidy_capped)
  qed (use assms in simp_all)
qed

lemma tidy_empty: "tidy (requests_of ch empty_disk)"
  by (simp add: tidy_def requests_of_def readPairingRequests_def empty_disk_def split: sum.split)

lemma tidy_run: "tidy (requests_of ch d) \<Longrightarrow> tidy (requests_of ch (pairing_run env ch es d))"
  by (induction es arbitrary: d) (auto simp: pairing_run_def tidy_step)

text \<open>
  C40: However many strangers ask, and whatever the owner does in between, at most three requests of a
  channel wait at any time, no two of them with the same code and no two of the same sender for the same
  account; every code has eight letters of the alphabet, so it is its own trimmed upper case form.
\<close>

theorem pairing_pending_bounded:
  "let rs = requests_of ch (pairing_run env ch es empty_disk)
   in length rs \<le> 3 \<and> distinct (map pr_code rs)
    \<and> distinct (map (\<lambda>r. (pr_id r, meta_account r)) rs)
    \<and> list_all (\<lambda>c. length c = 8 \<and> set c \<subseteq> set PAIRING_CODE_ALPHABET \<and> js_upper (js_trim c) = c) (map pr_code rs)"
proof -
  have "tidy (requests_of ch (pairing_run env ch es empty_disk))" by (intro tidy_run tidy_empty)
  then show ?thesis
    by (auto simp: tidy_def list_all_iff request_ok_def code_ok_plain PAIRING_PENDING_MAX_def Let_def)
      (auto simp: code_ok_def PAIRING_CODE_LENGTH_def)
qed

section \<open>A request waits for its approval\<close>

definition waits :: "string \<Rightarrow> string \<Rightarrow> string \<Rightarrow> int \<Rightarrow> pairing_request list \<Rightarrow> bool" where
  "waits code i acc t rs = (\<exists>r \<in> set rs. pr_code r = code \<and> asker r = (i, acc) \<and> pr_createdAt r = Iso t)"

text \<open>An event no later than \<open>limit\<close> that does not approve this code.\<close>

definition quiet :: "string \<Rightarrow> int \<Rightarrow> pairing_event \<Rightarrow> bool" where
  "quiet code limit ev =
     (case ev of
        AskPairing i a m draw now \<Rightarrow> now \<le> limit
      | ApproveCode c acct now \<Rightarrow> now \<le> limit \<and> js_upper (js_trim c) \<noteq> code
      | ListRequests acct now \<Rightarrow> now \<le> limit
      | _ \<Rightarrow> True)"

lemma waits_fresh:
  assumes "waits code i acc t rs" "t \<noteq> 0" "now \<le> t + PAIRING_PENDING_TTL_MS"
  shows "waits code i acc t (fresh env now rs)"
  using assms by (fastforce simp: waits_def set_fresh isExpired_def parseTimestamp_def)

lemma waits_mono: "waits code i acc t rs \<Longrightarrow> set rs \<subseteq> set rs' \<Longrightarrow> waits code i acc t rs'"
  by (auto simp: waits_def)

lemma waits_again:
  assumes "waits code i acc t rs" "tidy rs" "k < length rs" "asks i' a (rs ! k)"
  shows "waits code i acc t (rs[k := asked i' a m now (js_trim (pr_code (rs ! k))) (pr_createdAt (rs ! k))])"
proof -
  obtain r where r: "r \<in> set rs" "pr_code r = code" "asker r = (i, acc)" "pr_createdAt r = Iso t"
    using assms(1) by (auto simp: waits_def)
  then obtain j where j: "j < length rs" "r = rs ! j" by (auto simp: in_set_conv_nth)
  have ok: "request_ok (rs ! k)" using assms(2,3) by (auto simp: tidy_def list_all_length)
  let ?x = "asked i' a m now (js_trim (pr_code (rs ! k))) (pr_createdAt (rs ! k))"
  show ?thesis
  proof (cases "j = k")
    case True
    have "?x \<in> set (rs[k := ?x])" using assms(3) by (simp add: set_update_memI)
    moreover have "pr_code ?x = code" using ok r(2) j True code_ok_plain(1) by (simp add: request_ok_def)
    moreover have "asker ?x = (i, acc)" using asks_asker [OF ok, of i' a] assms(4) r(3) j True by auto
    ultimately show ?thesis using r(4) j True unfolding waits_def by (intro bexI [of _ ?x]) auto
  next
    case False
    then have "rs[k := ?x] ! j = r" using j by simp
    then have "r \<in> set (rs[k := ?x])" using j by (metis length_list_update nth_mem)
    then show ?thesis using r(2-4) unfolding waits_def by blast
  qed
qed

lemma waits_ask:
  assumes "waits code i acc t (requests_of ch d)" "tidy (requests_of ch d)" "t \<noteq> 0" "now \<le> t + PAIRING_PENDING_TTL_MS"
  shows "waits code i acc t (requests_of ch (fst (upsertChannelPairingRequest env ch i' a m draw now d)))"
proof (cases "resolvePairingPath ch")
  case (Inr p)
  let ?F = "fresh env now (requests_of ch d)"
  have F: "tidy ?F" "capped env ?F = ?F" "waits code i acc t ?F"
    using assms waits_fresh by (simp_all add: tidy_fresh tidy_capped)
  have "(\<lambda>rs res. waits code i acc t rs) (requests_of ch (fst (upsertChannelPairingRequest env ch i' a m draw now d)))
      (snd (upsertChannelPairingRequest env ch i' a m draw now d))"
  proof (rule upsert_requests_cases [OF Inr], goal_cases)
    case (3 k c)
    have kept: "js_trim (pr_code (?F ! k)) \<noteq> []"
      using F(1) 3(1) code_ok_plain by (auto simp: tidy_def list_all_length request_ok_def)
    then have c: "c = js_trim (pr_code (?F ! k))" using 3(3) by blast
    show ?case unfolding c
      using tidy_again [OF F(1) 3(1,2) refl] waits_again [OF F(3,1) 3(1,2)] by (simp add: tidy_capped)
  next
    case (4 c)
    then show ?case unfolding F(2) by (intro waits_mono [OF F(3)]) auto
  qed (use assms(1) F in simp_all)
  then show ?thesis .
qed (use assms in \<open>simp add: no_pairing_path\<close>)

lemma waits_step:
  assumes w: "waits code i acc t (requests_of ch d)" and tidy: "tidy (requests_of ch d)" and "t \<noteq> 0"
    and "quiet code (t + PAIRING_PENDING_TTL_MS) ev"
  shows "waits code i acc t (requests_of ch (pairing_step env ch ev d))"
proof (cases "resolvePairingPath ch")
  case (Inl e)
  then show ?thesis using w by (simp add: no_pairing_path waits_def)
next
  case (Inr p)
  note F = tidy_fresh [OF tidy] waits_fresh [OF w assms(3)]
  show ?thesis
  proof (cases ev)
    case (AskPairing i a m draw now)
    then show ?thesis using waits_ask [OF w tidy assms(3)] assms(4) by (simp add: quiet_def)
  next
    case (ApproveCode c acct now)
    have now: "now \<le> t + PAIRING_PENDING_TTL_MS" "js_upper (js_trim c) \<noteq> code" using assms(4) ApproveCode by (simp_all add: quiet_def)
    show ?thesis
    proof (rule approve_cases [OF Inr, where env = env and now = now and d = d and c = c and acct = acct], goal_cases)
      case 1
      then show ?case using w F(2) [OF now(1)] by (auto simp: ApproveCode)
    next
      case (2 k d2)
      let ?F = "fresh env now (requests_of ch d)"
      have "request_ok (?F ! k)" using F(1) 2(1) by (auto simp: tidy_def list_all_length)
      then have "pr_code (?F ! k) \<noteq> code" using 2(2) now(2) code_ok_plain(2) by (auto simp: code_matches_def request_ok_def)
      moreover have "set ?F \<subseteq> insert (?F ! k) (set (take k ?F @ drop (Suc k) ?F))"
        by (subst remove_nth_append [OF 2(1)]) auto
      moreover note F(2) [OF now(1), of env]
      ultimately have "waits code i acc t (take k ?F @ drop (Suc k) ?F)" unfolding waits_def by blast
      then show ?case using 2(3) by (simp add: ApproveCode)
    qed
  next
    case (ListRequests acct now)
    then have "now \<le> t + PAIRING_PENDING_TTL_MS" using assms(4) by (simp add: quiet_def)
    then show ?thesis using list_requests(1) [OF Inr, of env acct now d] w F by (auto simp: ListRequests tidy_capped)
  qed (use w in simp_all)
qed

lemma waits_run:
  assumes "waits code i acc t (requests_of ch d)" "tidy (requests_of ch d)" "t \<noteq> 0"
    and "list_all (quiet code (t + PAIRING_PENDING_TTL_MS)) es"
  shows "waits code i acc t (requests_of ch (pairing_run env ch es d))"
  using assms
proof (induction es arbitrary: d)
  case (Cons ev es)
  have "waits code i acc t (requests_of ch (pairing_step env ch ev d))"
    using Cons.prems by (intro waits_step) simp_all
  then show ?case using Cons.IH tidy_step [OF Cons.prems(2)] Cons.prems(3,4) by (simp add: pairing_run_def)
qed (simp add: pairing_run_def)

lemma waits_asked:
  assumes "upsertChannelPairingRequest env ch i a m draw t d = (d1, Inr (code, True))"
  shows "waits code (pairing_normalizeId i) (request_account a) t (requests_of ch d1)"
proof (cases "resolvePairingPath ch")
  case (Inr p)
  have "(\<lambda>rs res. \<forall>c. res = Inr (c, True) \<longrightarrow> waits c (pairing_normalizeId i) (request_account a) t rs)
      (requests_of ch (fst (upsertChannelPairingRequest env ch i a m draw t d)))
      (snd (upsertChannelPairingRequest env ch i a m draw t d))"
    by (rule upsert_requests_cases [OF Inr]) (auto simp: waits_def)
  then show ?thesis using assms by simp
qed (use assms in \<open>simp add: upsertChannelPairingRequest_def\<close>)

section \<open>An approval in time lets the sender in\<close>

lemma approve_waiting:
  assumes w: "waits code i acc t (requests_of ch d)" and tidy: "tidy (requests_of ch d)"
    and t: "t \<noteq> 0" "now \<le> t + PAIRING_PENDING_TTL_MS"
    and acct: "normalizePairingAccountId acct \<in> {[], acc}"
    and path: "resolveAllowFromPath ch (Some acc) = Inr p"
    and n: "n = normalizeAllowEntry env ch i" "n \<noteq> []" "normalizeAllowEntry env ch n = n"
  defines "res \<equiv> approveChannelPairingCode env ch code acct now d"
  shows "(\<exists>r. snd res = Inr (Some r) \<and> pr_id r = i \<and> pr_code r = code)
    \<and> n \<in> granted env ch (fst res) p \<and> (\<forall>q. q \<noteq> p \<longrightarrow> pk_allow (fst res) q = pk_allow d q)
    \<and> \<not> list_ex (\<lambda>r. pr_code r = code) (requests_of ch (fst res))"
proof -
  let ?F = "fresh env now (requests_of ch d)"
  obtain r where r: "r \<in> set ?F" "pr_code r = code" "asker r = (i, acc)"
    using waits_fresh [OF w t] by (auto simp: waits_def)
  have F: "tidy ?F" using tidy by (rule tidy_fresh)
  have ok: "request_ok x" if "x \<in> set ?F" for x using F that by (auto simp: tidy_def list_all_iff)
  have code: "js_upper (js_trim code) = code" "code \<noteq> []" using ok [OF r(1)] r(2) code_ok_plain by (auto simp: request_ok_def)
  have only: "x = r" if "x \<in> set ?F" "pr_code x = code" for x
    using F that r(1,2) by (auto simp: tidy_def distinct_map inj_on_def)
  have match: "code_matches code acct r"
    using ok [OF r(1)] r(2,3) acct code code_ok_plain by (auto simp: code_matches_def requestMatchesAccountId_def request_ok_def)
  obtain q where q: "resolvePairingPath ch = Inr q"
    using path by (cases "safeChannelKey ch") (auto simp: resolvePairingPath_def resolveAllowFromPath_def)
  show ?thesis
  proof (rule approve_cases [OF q, where env = env and now = now and d = d and c = code and acct = acct], goal_cases)
    case 1
    then show ?case using match r(1) code by auto
  next
    case (2 k d2)
    have "pr_code (?F ! k) = code"
      using 2(1,2) ok [of "?F ! k"] code code_ok_plain(2) by (simp add: code_matches_def request_ok_def)
    then have k: "?F ! k = r" using only 2(1) by simp
    have acc: "js_trim (meta_account r) \<noteq> []" "meta_account r = acc"
      using ok [OF r(1)] r(3) by (auto simp: request_ok_def js_lower_def)
    have p: "resolveAllowFromPath ch (approval_account acct r) = Inr p"
      using approval_path [OF match acc(1)] acc(2) path by simp
    obtain x where x: "snd (addChannelAllowFromStoreEntry env ch (EntryText (pr_id r)) (approval_account acct r) d2) = Inr x"
      using add_result_ok [OF p] by blast
    have "n \<in> granted env ch (fst res) p"
      unfolding res_def 2(5) k using granted_after_add [OF p, of n env "EntryText (pr_id r)" d2] n r(3) by simp
    moreover have "snd res = Inr (Some r)" using 2(6) k x by (simp add: res_def)
    moreover have "pk_allow (fst res) y = pk_allow d y" if "y \<noteq> p" for y
      unfolding res_def 2(5) k using other_files [OF p that] 2(4) by simp
    moreover have "\<not> list_ex (\<lambda>r. pr_code r = code) (requests_of ch (fst res))"
    proof -
      have "distinct (map pr_code ?F)" using F by (simp add: tidy_def)
      then have "distinct (map pr_code (take k ?F @ ?F ! k # drop (Suc k) ?F))"
        using remove_nth_append [OF 2(1)] by simp
      then have "pr_code (?F ! k) \<notin> pr_code ` set (take k ?F @ drop (Suc k) ?F)" by auto
      then show ?thesis using 2(3) k r(2) unfolding res_def list_ex_iff by (metis image_eqI)
    qed
    ultimately show ?case using r(2,3) by auto
  qed
qed

lemma approve_used:
  assumes "tidy (requests_of ch d)" "\<not> list_ex (\<lambda>r. pr_code r = code) (requests_of ch d)"
    and "code_ok code" "resolvePairingPath ch = Inr q"
  shows "snd (approveChannelPairingCode env ch code acct now d) = Inr None"
proof (rule approve_cases [OF assms(4), where env = env and now = now and d = d and c = code and acct = acct], goal_cases)
  case (2 k d2)
  let ?r = "fresh env now (requests_of ch d) ! k"
  have r: "?r \<in> set (requests_of ch d)" using nth_mem [OF 2(1)] by (simp add: set_fresh)
  then have "request_ok ?r" using assms(1) by (simp add: tidy_def list_all_iff)
  then have "pr_code ?r = code"
    using 2(2) assms(3) by (simp add: code_matches_def request_ok_def code_ok_plain)
  then show ?case using r assms(2) by (auto simp: list_ex_iff)
qed

lemma store_reads_file:
  assumes "resolveAllowFromPath ch (Some (request_account a)) = Inr p"
  shows "\<exists>l. readChannelAllowFromStore env ch a d = Inr l \<and> granted env ch d p \<subseteq> set l"
proof -
  have acc: "str_or (js_lower (js_trim a)) DEFAULT_ACCOUNT_ID = request_account a"
    by (simp add: request_account_def normalizePairingAccountId_def opt_str_def)
  obtain legacy where legacy: "resolveAllowFromPath ch None = Inr legacy"
    using assms by (cases "safeChannelKey ch") (auto simp: resolveAllowFromPath_def opt_str_def)
  have trimmed: "js_trim x = x" "x \<noteq> []" if "x \<in> granted env ch d p" for x
    using that by (auto simp: granted_eq)
  show ?thesis
    using trimmed
    by (auto simp: readChannelAllowFromStore_def acc readNonDefaultAccountAllowFrom_def assms legacy Let_def
        granted_def [symmetric] image_iff) (metis UnI1)
qed

text \<open>
  C39: The way in works. Someone asks for an account and is given a code; whatever happens on the channel
  in the following hour short of an approval of this code (other strangers asking, other approvals, the
  owner editing the lists), the owner's approval within the hour, for this account or for none in particular,
  returns the request, and from then on the account's list contains the sender, so that a direct
  message is let in. No other file of the store changes, and the code cannot be used again.
\<close>

theorem pairing_approval_in_time:
  fixes i :: allow_entry
  assumes ask: "upsertChannelPairingRequest env ch i a m draw t (pairing_run env ch es0 empty_disk) = (d1, Inr (code, True))"
    and quiet: "list_all (quiet code (t + PAIRING_PENDING_TTL_MS)) es" and time: "t \<noteq> 0" "now \<le> t + PAIRING_PENDING_TTL_MS"
    and acct: "normalizePairingAccountId acct \<in> {[], request_account a}"
    and path: "resolveAllowFromPath ch (Some (request_account a)) = Inr p"
    and id: "normalizeAllowEntry env ch (pairing_normalizeId i) = n" "n \<noteq> []" "normalizeAllowEntry env ch n = n"
    and sender: "\<forall>l. n \<in> set l \<longrightarrow> ok l"
    and dm: "\<not> ap_isGroup P" "ap_dmPolicy P \<in> {None, Some ''pairing''}"
  defines "d2 \<equiv> pairing_run env ch es d1"
  defines "res \<equiv> approveChannelPairingCode env ch code acct now d2"
  shows "(\<exists>r. snd res = Inr (Some r) \<and> pr_id r = pairing_normalizeId i)
    \<and> (\<exists>l. readChannelAllowFromStore env ch a (fst res) = Inr l \<and> n \<in> set l
        \<and> ac_decision (fst (resolveDmGroupAccessWithLists (P\<lparr>ap_storeAllowFrom := Some (texts l)\<rparr>) ok)) = AllowAccess)
    \<and> (\<forall>q. q \<noteq> p \<longrightarrow> pk_allow (fst res) q = pk_allow d2 q)
    \<and> snd (approveChannelPairingCode env ch code None later (fst res)) = Inr None"
proof -
  have d1: "d1 = fst (upsertChannelPairingRequest env ch i a m draw t (pairing_run env ch es0 empty_disk))" using ask by simp
  have tidy1: "tidy (requests_of ch d1)" unfolding d1 by (intro tidy_ask tidy_run tidy_empty)
  then have tidy2: "tidy (requests_of ch d2)" unfolding d2_def by (rule tidy_run)
  have waits: "waits code (pairing_normalizeId i) (request_account a) t (requests_of ch d2)"
    unfolding d2_def using waits_asked [OF ask] tidy1 time(1) quiet by (rule waits_run)
  note res = approve_waiting [OF waits tidy2 time acct path id(1) [symmetric] id(2,3), folded res_def]
  obtain l where l: "readChannelAllowFromStore env ch a (fst res) = Inr l" "n \<in> set l"
    using store_reads_file [OF path, of env "fst res"] res by auto
  have n: "js_trim n = n" using id(1) by auto
  obtain q where q: "resolvePairingPath ch = Inr q"
    using path by (cases "safeChannelKey ch") (auto simp: resolvePairingPath_def resolveAllowFromPath_def)
  have "n \<in> set (dm_list (P\<lparr>ap_storeAllowFrom := Some (texts l)\<rparr>))"
    using l(2) n id(2) dm(2) by (force simp: dm_list_def normalizeStringEntries_def)
  then have "ac_decision (fst (resolveDmGroupAccessWithLists (P\<lparr>ap_storeAllowFrom := Some (texts l)\<rparr>) ok)) = AllowAccess"
    using sender dm by (auto simp: with_lists_eq resolveDmGroupAccessDecision_def Let_def)
  moreover have "snd (approveChannelPairingCode env ch code None later (fst res)) = Inr None"
  proof (rule approve_used)
    show "tidy (requests_of ch (fst res))"
      using tidy_step [OF tidy2, of env "ApproveCode code acct now"] by (simp add: res_def)
    show "\<not> list_ex (\<lambda>r. pr_code r = code) (requests_of ch (fst res))" using res by simp
    show "code_ok code" using waits tidy2 by (auto simp: waits_def tidy_def list_all_iff request_ok_def)
    show "resolvePairingPath ch = Inr (q)" by (rule q)
  qed
  ultimately show ?thesis using res l by blast
qed

definition sample_dm :: access_params where
  "sample_dm = \<lparr>ap_isGroup = False, ap_dmPolicy = None, ap_groupPolicy = None, ap_allowFrom = None,
     ap_groupAllowFrom = None, ap_storeAllowFrom = None, ap_fallback = None\<rparr>"

abbreviation ask_sample :: "pairing_disk \<times> (js_error + string \<times> bool)" where
  "ask_sample \<equiv> upsertChannelPairingRequest plain_env ''telegram'' (EntryText ''u1'') ''Work'' None (\<lambda>_. 0) 1000
     (pairing_run plain_env ''telegram'' [] empty_disk)"

theorem pairing_approval_in_time_witness:
  "\<exists>l. readChannelAllowFromStore plain_env ''telegram'' ''Work''
       (fst (approveChannelPairingCode plain_env ''telegram'' ''AAAAAAAA'' (Some ''work'') 3601000
         (pairing_run plain_env ''telegram'' [AskPairing (EntryText ''u2'') ''Work'' None (\<lambda>_. 1) 5000] (fst ask_sample)))) = Inr l
     \<and> ''u1'' \<in> set l"
proof -
  have "snd ask_sample = Inr (''AAAAAAAA'', True)" by code_simp
  then have ask: "ask_sample = (fst ask_sample, Inr (''AAAAAAAA'', True))" by (metis prod.collapse)
  have facts: "list_all (quiet ''AAAAAAAA'' (1000 + PAIRING_PENDING_TTL_MS)) [AskPairing (EntryText ''u2'') ''Work'' None (\<lambda>_. 1) 5000]"
    "(1000 :: int) \<noteq> 0" "(3601000 :: int) \<le> 1000 + PAIRING_PENDING_TTL_MS"
    by (simp_all add: quiet_def PAIRING_PENDING_TTL_MS_def)
  have acct: "normalizePairingAccountId (Some ''work'') \<in> {[], request_account ''Work''}"
    "resolveAllowFromPath ''telegram'' (Some (request_account ''Work'')) = Inr ''telegram-work-allowFrom.json''"
    "normalizeAllowEntry plain_env ''telegram'' (pairing_normalizeId (EntryText ''u1'')) = ''u1''"
    "normalizeAllowEntry plain_env ''telegram'' ''u1'' = ''u1''"
    by code_simp+
  have dm: "\<forall>l. ''u1'' \<in> set l \<longrightarrow> ''u1'' \<in> set l" "\<not> ap_isGroup sample_dm" "ap_dmPolicy sample_dm \<in> {None, Some ''pairing''}"
    by (simp_all add: sample_dm_def)
  show ?thesis
    using pairing_approval_in_time [OF ask facts acct(1,2,3) _ acct(4) dm] by blast
qed

text \<open>The three places are shared by the accounts of a channel: strangers of one account keep another account from pairing.\<close>

lemma accounts_share_places:
  "snd (upsertChannelPairingRequest plain_env ''telegram'' (EntryText ''friend'') ''home'' None (\<lambda>_. 9) 2000
     (pairing_run plain_env ''telegram'' [AskPairing (EntryText ''s1'') ''work'' None (\<lambda>_. 1) 1000,
        AskPairing (EntryText ''s2'') ''work'' None (\<lambda>_. 2) 1000, AskPairing (EntryText ''s3'') ''work'' None (\<lambda>_. 3) 1000] empty_disk))
   = Inr ([], False)"
  by code_simp

end
