(* ===== verification/Spec2Isabelle.thy ===== *)
theory Spec2Isabelle
  imports SendLedger SubmissionLedger SettlementLedger WalletPolicy CommandQueue Routing AccessPolicy
    WorkflowApproval RateLimit ToolAccess ExecGateway CronLease DeviceAccess PairingCodes
begin

text \<open>
  Verification library for the core logic of fased, an assistant gateway that moves money, runs
  commands and answers messages (TypeScript, \<open>src/src\<close>).

  \<^bold>\<open>Parts and theories.\<close>
  \<^item> \<open>Prelude\<close>: JavaScript strings, results of functions that throw, JSON values, state files, lists
    updated by key. \<open>BigInts\<close>: \<open>BigInt\<close> texts as integers. \<open>CanonicalJson\<close>: the canonical text that
    every intent digest hashes (\<open>canonicalJson\<close> of the three ledgers).
  \<^item> \<open>LedgerContract\<close>: the interface the ledgers share as the locale \<open>state_ledger\<close> (a state per key, a
    step per operation, the transitions a step may make), with what follows for every run of steps;
    and the table of claims held in the process and by file locks.
  \<^item> \<open>SendLedger\<close>: \<open>wallet/wallet-send-execution-ledger.ts\<close>, the record of wallet sends.
    \<open>SubmissionLedger\<close>: \<open>wallet/external-submission-ledger.ts\<close>, submissions to outside services.
    \<open>SettlementLedger\<close>: \<open>federation/marketplace-settlement-ledger.ts\<close>, what is done to the money of a
    marketplace order. Each has the loader with every check, the printer, the operations, the
    well-formedness that the loader accepts and each operation keeps, and an interpretation of
    \<open>state_ledger\<close> on the operations.
  \<^item> \<open>WalletUsage\<close> and \<open>WalletPolicy\<close>: \<open>wallet/wallet-policy.ts\<close> with \<open>wallet/solana-address.ts\<close>: the
    daily usage ledger and its caps; the policy file, its presets and updates, admission of a
    transaction and of a tool call.
  \<^item> \<open>CommandQueue\<close>: \<open>process/command-queue.ts\<close>: lanes that run commands with bounded concurrency, as a
    step relation whose reachable states are studied by rule induction.
  \<^item> \<open>SessionKey\<close>: \<open>routing/session-key.ts\<close>, \<open>routing/account-id.ts\<close>, \<open>sessions/session-key-utils.ts\<close>.
    \<open>Routing\<close>: \<open>routing/resolve-route.ts\<close>, \<open>routing/bindings.ts\<close>: which agent and which session a
    message goes to.
  \<^item> \<open>AccessPolicy\<close>: \<open>security/dm-policy-shared.ts\<close>, \<open>channels/allow-from.ts\<close>,
    \<open>channels/command-gating.ts\<close>: who may write to the assistant, and who may command it.
  \<^item> \<open>PairingStore\<close>: \<open>pairing/pairing-store.ts\<close>, the requests of strangers and the allow lists of the accounts.
    \<open>PairingGrants\<close>: where the entries of a list come from, by the locale \<open>event_store\<close> (a store fed by
    events), interpreted on the pending requests and on the lists. \<open>PairingCodes\<close>: codes, the cap, and an
    approval in time.
  \<^item> \<open>TaskRegistry\<close>, \<open>TaskExecutor\<close>, \<open>TaskFlow\<close>: \<open>tasks/task-registry.ts\<close>, \<open>tasks/task-executor.ts\<close>,
    \<open>tasks/task-owner-access.ts\<close>, \<open>tasks/task-flow-registry.ts\<close>: the records of task runs and the flows
    that follow them, on the in-memory stores.
  \<^item> \<open>WorkflowGraph\<close>: \<open>tasks/workflow-graph.ts\<close>, workflows given as graphs: validation, the run, approvals.
    \<open>WorkflowValid\<close>: what the validator guarantees. \<open>WorkflowRun\<close>: the path and the outcome of a run.
    \<open>WorkflowApproval\<close>: pausing and deciding.
  \<^item> \<open>RateLimit\<close>: \<open>gateway/auth-rate-limit.ts\<close>, \<open>gateway/control-plane-rate-limit.ts\<close>,
    \<open>gateway/mutating-admin-rpc-rate-limit.ts\<close> and the client address of \<open>gateway/net.ts\<close>: how often one
    client may guess a login or make administrative calls. The locale \<open>fixed_window\<close> states the counting
    once, for both kinds of calls.
  \<^item> \<open>ToolPolicy\<close>: the policies of \<open>agents/tool-policy*.ts\<close>, \<open>agents/tool-catalog.ts\<close>,
    \<open>agents/glob-pattern.ts\<close>, \<open>agents/sandbox-tool-policy.ts\<close>, \<open>agents/pi-tools.policy.ts\<close>: which tools
    an agent may call. \<open>ToolAccess\<close>: what the patterns, lists and steps mean, and the pipeline as the
    intersection of its steps.
  \<^item> \<open>ExecWrappers\<close>: \<open>infra/exec-wrapper-resolution.ts\<close>, commands that only start another. \<open>ShellArgs\<close>:
    \<open>utils/shell-argv.ts\<close>. \<open>ExecResolution\<close>: \<open>infra/exec-command-resolution.ts\<close>, the file a command runs and
    the patterns of the allowlist. \<open>ShellAnalysis\<close>: \<open>infra/exec-approvals-analysis.ts\<close>, the scanners of a
    shell line and the text that is run in its place; \<open>ShellEnforced\<close>: what the scanners guarantee.
    \<open>SafeBins\<close>: \<open>infra/exec-safe-bin-*.ts\<close>. \<open>ExecAllowlist\<close>: \<open>infra/exec-approvals-allowlist.ts\<close>, whether
    every command of a line is allowed. \<open>ExecApprovals\<close>: \<open>infra/exec-approvals.ts\<close>, the file of policies and
    allowlists. \<open>ExecGateway\<close>: \<open>node-host/exec-policy.ts\<close>, \<open>agents/bash-tools.exec-host-*.ts\<close>, whether the
    command runs.
  \<^item> \<open>CronQueue\<close>: \<open>cron/task-run-queue.ts\<close>, the queue of the runs of scheduled jobs, whose steps workers
    lease. \<open>CronLease\<close>: what its leases guarantee.
  \<^item> \<open>DevicePairing\<close>: \<open>infra/device-pairing.ts\<close>, the devices that may connect to the gateway and their tokens.
    \<open>GatewayAccess\<close>: \<open>gateway/method-scopes.ts\<close>, \<open>gateway/role-policy.ts\<close>, the gates of
    \<open>gateway/server-methods.ts\<close> and the pairing of a handshake in \<open>gateway/server/ws-connection\<close>.
    \<open>DeviceAccess\<close>: revoked tokens, approved scopes and what a device may call.

  \<^bold>\<open>State and operations.\<close> A state file is \<open>NoFile\<close>, \<open>Unparsable\<close> or a JSON document; an operation takes
  the file and gives a result with the new file, and every \<open>throw\<close> is an \<open>Inl\<close>. The mutation queues
  of the ledgers serialise their operations, so a run is a list of operations. Times, hash functions,
  the printing of numbers and the validity of a base58 key come from outside and are arguments. The
  machine a command runs on (files, Node's \<open>path\<close>, environment, regular expressions beyond the pattern
  language) is the record \<open>exec_host\<close>.

  \<^bold>\<open>What the lemmas show.\<close> For the ledgers: what the operations write the loader reads back, final
  states are final, identities are bound once, claims exclude each other, and the updates that break
  this. For the policy: the caps bound what is spent in a day, the file round-trips, concurrent
  updates are not lost, a transaction is admitted exactly under the stated conditions. For the queue:
  first in first out, no idle slot while work waits, the concurrency bound, draining is final. For
  the router: the cache is invisible, the route is made by a binding that applies, the most specific
  binding wins, session keys separate what the scope separates. For access: the pairing store opens
  direct messages only, the decision table, the command gate; nobody enters a list without the owner, and
  whoever is approved in time may write. For workflows: accepted graphs are well
  formed and stay accepted, a run follows the edges and its task and flow tell where it ended, nothing
  past an approval runs undecided, a paused run can be decided on, and two ways in which a refusal does
  not hold. For the limits: the number of guesses and calls in any window, and that a client cannot
  choose the address it is counted under. For tools: an agent's tools are exactly those every policy of
  the chain lets through, a deny entry wins, sub-agents never get the administrative tools. For commands:
  an accepted line has no hidden operators, the text run in allowlist mode starts just the commands that
  were allowed, safe bins get no paths, abbreviated options are read as \<open>getopt\<close> reads them, an answer is
  obeyed and takes effect, and a file that cannot be read grants nothing. For the queue of runs: steps
  are leased in order and to one worker at a time, expired leases are given again, canceled runs stay
  canceled, and two ways in which a step is given twice. For devices: a revoked token never works again, a
  device cannot approve itself, and a call it is admitted to is covered by what was approved for it.

  \<^bold>\<open>Bounds and fuel.\<close> No definition uses fuel: recursion is structural or ends by a measure
  (\<open>canonicalJson\<close>, the decimal printing, \<open>pump_loop\<close>, and \<open>graph_loop\<close>, which the code itself stops
  once it has visited 51 nodes); where the code counts a depth (wrappers, nested shells) the model
  counts it down. Amounts are \<open>bigint\<close> in the code and \<open>int\<close>
  here; characters are code units below 256.

  \<^bold>\<open>Not modelled.\<close> The gateway's HTTP and WebSocket server beyond its access checks, the channel plugins, the user interface,
  the agent runtime, memory search and the native tools: I/O and third-party packages drive them.
  The SQLite ledgers behind the task and flow registries are not modelled; their in-memory stores are.
  File locking is assumed to exclude, as its package documents. The timers and agent turns of the cron
  service are left out; its queue is modelled.
\<close>

end
